(* ===== verification/Prelude.thy ===== *)
theory Prelude
  imports Main "HOL-Library.Word"
begin

section \<open>Shared vocabulary: machine integers, clamping, list facts\<close>

text \<open>
  The program is written in Rust. This theory fixes how its integers are read:
  \<^item> \<open>u64\<close>, \<open>u32\<close> and \<open>u8\<close> are words of that width, so \<open>+\<close> wraps as it does in the
    repository's release profiles (no \<open>overflow-checks\<close> in \<open>src/Cargo.toml\<close>);
    the saturating operations of the standard library are the functions below;
  \<^item> \<open>i64\<close> values are \<open>int\<close>, with the saturation written out;
  \<^item> \<open>usize\<close> counts (lengths, indices, queue sizes) are \<open>nat\<close>: they count objects held in
    memory. Where a \<open>usize\<close> atomic is decremented without a guard, the component uses a
    word instead.
  Two collections of rewrite rules are shared by the components: \<open>rust_arith\<close> (reading word
  operations as \<open>nat\<close> operations) and \<open>frame_simps\<close> (which fields an operation leaves alone).
\<close>

named_theorems rust_arith
named_theorems frame_simps

type_synonym u8 = "8 word"
type_synonym u16 = "16 word"
type_synonym u32 = "32 word"
type_synonym u64 = "64 word"

section \<open>Saturating operations\<close>

definition sat_add :: "'a::len word \<Rightarrow> 'a word \<Rightarrow> 'a word" where
  "sat_add a b = (if unat a + unat b < 2 ^ LENGTH('a) then a + b else - 1)"

definition sat_sub :: "'a::len word \<Rightarrow> 'a word \<Rightarrow> 'a word" where
  "sat_sub a b = (if a < b then 0 else a - b)"

definition sat_mul :: "'a::len word \<Rightarrow> 'a word \<Rightarrow> 'a word" where
  "sat_mul a b = (if unat a * unat b < 2 ^ LENGTH('a) then a * b else - 1)"

definition max_nat_of :: "'a::len itself \<Rightarrow> nat" where
  "max_nat_of _ = 2 ^ LENGTH('a) - 1"

abbreviation u64_max :: nat where
  "u64_max \<equiv> 2 ^ 64 - 1"

lemma unat_minus_one_word_eq: "unat (- 1 :: 'a::len word) = 2 ^ LENGTH('a) - 1"
proof -
  have "unat (- 1 :: 'a word) = nat (2 ^ LENGTH('a) - 1)"
    by (simp add: unat_eq_nat_uint unsigned_minus_1_eq_mask mask_eq_exp_minus_1)
  then show ?thesis by (simp add: nat_diff_distrib nat_power_eq)
qed

lemma unat_below: "unat (a :: 'a::len word) < 2 ^ LENGTH('a)"
  by (rule unsigned_less)

lemma unat_le_max: "unat (a :: 'a::len word) \<le> 2 ^ LENGTH('a) - 1"
  using unat_below [of a] by linarith

lemma word_eqI_unat: "unat a = unat b \<Longrightarrow> a = b"
  by (simp add: word_unat_eq_iff)

lemma unat_sat_add [rust_arith]:
  "unat (sat_add a b) = min (unat a + unat b) (2 ^ LENGTH('a) - 1)" for a b :: "'a::len word"
  by (auto simp: sat_add_def unat_minus_one_word_eq unat_word_ariths min_def)

lemma unat_sat_sub [rust_arith]: "unat (sat_sub a b) = unat a - unat b"
  by (auto simp: sat_sub_def word_less_nat_alt unat_sub_if')

lemma unat_sat_mul [rust_arith]:
  "unat (sat_mul a b) = min (unat a * unat b) (2 ^ LENGTH('a) - 1)" for a b :: "'a::len word"
proof (cases "unat a * unat b < 2 ^ LENGTH('a)")
  case True
  then have "unat a * unat b \<le> 2 ^ LENGTH('a) - 1" by linarith
  with True show ?thesis by (simp add: sat_mul_def unat_word_ariths min_absorb1)
next
  case False
  then have "2 ^ LENGTH('a) - 1 \<le> unat a * unat b" by linarith
  with False show ?thesis by (simp add: sat_mul_def unat_minus_one_word_eq min_absorb2)
qed

lemma min_add_assoc_bound: "min (min (x + y) m + z) m = min (x + min (y + z) m) (m :: nat)"
  by (simp add: min_def)

lemma sat_add_commute: "sat_add a b = sat_add b a"
  by (rule word_eqI_unat) (simp add: unat_sat_add add.commute)

lemma sat_add_assoc: "sat_add (sat_add a b) c = sat_add a (sat_add b c)"
  for a b c :: "'a::len word"
  by (rule word_eqI_unat) (simp only: unat_sat_add min_add_assoc_bound)

lemma sat_add_0 [simp]: "sat_add a 0 = a" "sat_add 0 a = a"
  for a :: "'a::len word"
proof -
  show "sat_add a 0 = a"
    by (rule word_eqI_unat) (simp only: unat_sat_add unat_0 add_0_right min_absorb1 [OF unat_le_max])
  then show "sat_add 0 a = a" by (simp add: sat_add_commute)
qed

lemma sat_add_ge: "a \<le> sat_add a b"
  for a b :: "'a::len word"
  using unat_le_max [of a] by (simp add: word_le_nat_alt unat_sat_add)

lemma sat_sub_le: "sat_sub a b \<le> a"
  by (simp add: word_le_nat_alt unat_sat_sub)

definition clamp_i64 :: "int \<Rightarrow> int" where
  "clamp_i64 x = max (- (2 ^ 63)) (min (2 ^ 63 - 1) x)"

lemma clamp_i64_bounds: "- (2 ^ 63) \<le> clamp_i64 x" "clamp_i64 x \<le> 2 ^ 63 - 1"
  by (auto simp: clamp_i64_def)

section \<open>Lists\<close>

lemma takeWhile_append_dropWhile: "takeWhile P xs @ dropWhile P xs = xs"
  by simp

lemma dropWhile_hd: "dropWhile P xs = y # ys \<Longrightarrow> \<not> P y"
  by (induction xs) (auto split: if_splits)

lemma dropWhile_takeWhile_Nil [simp]: "dropWhile P (takeWhile P xs) = []"
  by (induction xs) auto

lemma takeWhile_all: "x \<in> set (takeWhile P xs) \<Longrightarrow> P x"
  by (induction xs) (auto split: if_splits)

lemma length_dropWhile_le': "length (dropWhile P xs) \<le> length xs"
  by (rule length_dropWhile_le)

lemma count_filter_tl:
  "length (filter P (x # xs)) = (if P x then 1 else 0) + length (filter P xs)"
  by simp

text \<open>The last element of a list satisfying a predicate, as Rust's \<open>iter().rev().find\<close>.\<close>

definition rfind :: "('a \<Rightarrow> bool) \<Rightarrow> 'a list \<Rightarrow> 'a option" where
  "rfind P xs = find P (rev xs)"

text \<open>Rust's \<open>iter().rposition\<close>: the index of the last element satisfying a predicate.\<close>

fun rposition :: "('a \<Rightarrow> bool) \<Rightarrow> 'a list \<Rightarrow> nat option" where
  "rposition P [] = None"
| "rposition P (x # xs) =
     (case rposition P xs of Some i \<Rightarrow> Some (Suc i) | None \<Rightarrow> if P x then Some 0 else None)"

lemma rposition_None: "rposition P xs = None \<longleftrightarrow> (\<forall>x \<in> set xs. \<not> P x)"
  by (induction xs) (auto split: option.splits if_splits)

lemma rposition_Some:
  "rposition P xs = Some i \<Longrightarrow>
     i < length xs \<and> P (xs ! i) \<and> (\<forall>x \<in> set (drop (Suc i) xs). \<not> P x)"
proof (induction xs arbitrary: i)
  case Nil
  then show ?case by simp
next
  case (Cons x xs)
  then show ?case
    by (auto split: option.splits if_splits simp: rposition_None)
qed

text \<open>Rust's \<open>iter().rev().find_map\<close>.\<close>

fun find_map :: "('a \<Rightarrow> 'b option) \<Rightarrow> 'a list \<Rightarrow> 'b option" where
  "find_map f [] = None"
| "find_map f (x # xs) = (case f x of Some y \<Rightarrow> Some y | None \<Rightarrow> find_map f xs)"

lemma find_map_None: "find_map f xs = None \<longleftrightarrow> (\<forall>x \<in> set xs. f x = None)"
  by (induction xs) (auto split: option.splits)

lemma find_map_Some:
  "find_map f xs = Some y \<Longrightarrow> \<exists>x \<in> set xs. f x = Some y"
  by (induction xs) (auto split: option.splits)

end
