(* ===== verification/RustFloat.thy ===== *)
theory RustFloat
  imports Prelude "HOL-Library.Log_Nat" Complex_Main
begin

section \<open>The f64 operations the program uses\<close>

text \<open>
  An \<open>f64\<close> that is neither infinite nor a NaN is a rational number. The program divides and
  multiplies non-negative finite values obtained from \<open>u64\<close> and \<open>usize\<close> counters, far from
  overflow and from the subnormal range, so each operation is the exact one followed by
  rounding to 53 significant bits, ties to even. \<open>f64_round\<close> is that rounding; it is
  executable.
\<close>

definition round_half_even :: "rat \<Rightarrow> int" where
  "round_half_even m =
     (let f = \<lfloor>m\<rfloor>; r = m - of_int f
      in if r < 1 / 2 then f else if 1 / 2 < r then f + 1 else if even f then f else f + 1)"

text \<open>The exponent \<open>e\<close> with \<open>2 powi e \<le> q < 2 powi (e + 1)\<close>.\<close>

definition f64_exponent :: "rat \<Rightarrow> int" where
  "f64_exponent q =
     (let (n, d) = quotient_of q;
          b = int (floorlog 2 (nat n)) - int (floorlog 2 (nat d))
      in if 2 powi b \<le> q then b else b - 1)"

definition f64_round :: "rat \<Rightarrow> rat" where
  "f64_round q =
     (if q \<le> 0 then 0
      else let ulp = 2 powi (f64_exponent q - 52)
           in of_int (round_half_even (q / ulp)) * ulp)"

text \<open>\<open>a as f64\<close>, \<open>/\<close>, \<open>*\<close>, \<open>round()\<close> (half away from zero) and \<open>as u64\<close>.\<close>

definition f64_of_nat :: "nat \<Rightarrow> rat" where
  "f64_of_nat n = f64_round (of_nat n)"

definition f64_div :: "rat \<Rightarrow> rat \<Rightarrow> rat" where
  "f64_div a b = f64_round (a / b)"

definition f64_mul :: "rat \<Rightarrow> rat \<Rightarrow> rat" where
  "f64_mul a b = f64_round (a * b)"

definition f64_round_to_int :: "rat \<Rightarrow> rat" where
  "f64_round_to_int a = of_int \<lfloor>a + 1 / 2\<rfloor>"

definition f64_as_u64 :: "rat \<Rightarrow> nat" where
  "f64_as_u64 a = min (nat \<lfloor>a\<rfloor>) u64_max"

lemma f64_as_u64_bound: "f64_as_u64 a \<le> u64_max"
  by (simp add: f64_as_u64_def)

section \<open>Rounding facts\<close>

lemma round_half_even_of_int [simp]: "round_half_even (of_int k) = k"
  by (simp add: round_half_even_def)

lemma round_half_even_numeral [simp]: "round_half_even (numeral k) = numeral k"
  using round_half_even_of_int [of "numeral k"] by (simp only: of_int_numeral)

lemma round_half_even_near: "\<bar>of_int (round_half_even m) - m\<bar> \<le> 1 / 2"
proof -
  have "of_int \<lfloor>m\<rfloor> \<le> m" "m < of_int \<lfloor>m\<rfloor> + 1" by linarith+
  then show ?thesis by (auto simp: round_half_even_def Let_def abs_if) linarith
qed

lemma round_half_even_ge_int: "of_int k \<le> m \<Longrightarrow> k \<le> round_half_even m"
proof -
  assume "of_int k \<le> m"
  then have "k \<le> \<lfloor>m\<rfloor>" by (simp add: le_floor_iff)
  then show ?thesis by (auto simp: round_half_even_def Let_def)
qed

lemma round_half_even_le_int:
  assumes "m \<le> of_int k"
  shows "round_half_even m \<le> k"
proof (cases "m = of_int k")
  case True
  then show ?thesis by simp
next
  case False
  with assms have "m < of_int k" by simp
  then have "\<lfloor>m\<rfloor> < k" by (simp add: floor_less_iff)
  then show ?thesis by (auto simp: round_half_even_def Let_def)
qed

lemma floorlog2_bounds:
  "0 < n \<Longrightarrow> 2 ^ (floorlog 2 n - 1) \<le> n \<and> n < 2 ^ floorlog 2 n \<and> 0 < floorlog 2 n"
  using floorlog_bounds [of n 2] by (auto simp: floorlog_def)

lemma f64_exponent_bounds:
  assumes "0 < q"
  shows "2 powi f64_exponent q \<le> q" and "q < 2 powi (f64_exponent q + 1)"
proof -
  obtain n d where nd: "quotient_of q = (n, d)" by (cases "quotient_of q")
  have d: "0 < d" using nd by (rule quotient_of_denom_pos)
  have q: "q = of_int n / of_int d" using nd by (rule quotient_of_div)
  with assms d have n: "0 < n" by (simp add: zero_less_divide_iff)
  let ?N = "floorlog 2 (nat n)" and ?D = "floorlog 2 (nat d)"
  have N: "2 ^ (?N - 1) \<le> nat n" "nat n < 2 ^ ?N" "0 < ?N"
    using floorlog2_bounds [of "nat n"] n by auto
  have D: "2 ^ (?D - 1) \<le> nat d" "nat d < 2 ^ ?D" "0 < ?D"
    using floorlog2_bounds [of "nat d"] d by auto
  have rn: "(2::rat) ^ (?N - 1) \<le> of_int n" "of_int n < (2::rat) ^ ?N"
    using N n by (metis of_nat_le_iff of_nat_numeral of_nat_power of_nat_nat less_imp_le,
      metis N(2) n of_nat_less_iff of_nat_numeral of_nat_power of_nat_nat less_imp_le)
  have rd: "(2::rat) ^ (?D - 1) \<le> of_int d" "of_int d < (2::rat) ^ ?D"
    using D d by (metis of_nat_le_iff of_nat_numeral of_nat_power of_nat_nat less_imp_le,
      metis D(2) d of_nat_less_iff of_nat_numeral of_nat_power of_nat_nat less_imp_le)
  let ?b = "int ?N - int ?D"
  have up: "q < 2 powi (?b + 1)"
  proof -
    have "q < 2 ^ ?N / 2 ^ (?D - 1)"
      unfolding q using rn rd d n by (intro frac_less) auto
    also have "\<dots> = 2 powi (int ?N - int (?D - 1))"
      by (simp add: power_int_diff)
    also have "int ?N - int (?D - 1) = ?b + 1" using D(3) by simp
    finally show ?thesis .
  qed
  have lo: "2 powi (?b - 1) \<le> q"
  proof -
    have "(2::rat) powi (?b - 1) = 2 powi (int (?N - 1) - int ?D)" using N(3) by (simp add: algebra_simps)
    also have "\<dots> = 2 ^ (?N - 1) / 2 ^ ?D" by (simp add: power_int_diff)
    also have "\<dots> \<le> q" unfolding q using rn rd d n by (intro frac_le) auto
    finally show ?thesis .
  qed
  show "2 powi f64_exponent q \<le> q" "q < 2 powi (f64_exponent q + 1)"
    using up lo by (auto simp: f64_exponent_def nd Let_def)
qed

lemma powi_pos [simp]: "0 < (2::rat) powi k"
  by simp

text \<open>Rounding does not cross a power of two.\<close>

lemma f64_round_mantissa:
  assumes "0 < q"
  shows "2 ^ 52 \<le> q / 2 powi (f64_exponent q - 52)" and "q / 2 powi (f64_exponent q - 52) < 2 ^ 53"
proof -
  let ?e = "f64_exponent q"
  have s: "(2::rat) powi ?e = 2 ^ 52 * 2 powi (?e - 52)"
    by (simp add: power_int_diff)
  have s': "(2::rat) powi (?e + 1) = 2 ^ 53 * 2 powi (?e - 52)"
    by (simp add: power_int_diff power_int_add)
  show "2 ^ 52 \<le> q / 2 powi (?e - 52)"
    using f64_exponent_bounds(1) [OF assms] by (simp add: s pos_le_divide_eq)
  show "q / 2 powi (?e - 52) < 2 ^ 53"
    using f64_exponent_bounds(2) [OF assms] by (simp add: s' pos_divide_less_eq)
qed

lemma f64_round_nonneg: "0 \<le> f64_round q"
proof (cases "q \<le> 0")
  case True
  then show ?thesis by (simp add: f64_round_def)
next
  case False
  then have "2 ^ 52 \<le> q / 2 powi (f64_exponent q - 52)" by (intro f64_round_mantissa) simp
  then have "(2 ^ 52 :: int) \<le> round_half_even (q / 2 powi (f64_exponent q - 52))"
    by (intro round_half_even_ge_int) simp
  with False show ?thesis by (auto simp: f64_round_def Let_def)
qed

lemma exponent_less_powi:
  assumes "0 < q" and "q < 2 powi k"
  shows "f64_exponent q < k"
proof (rule ccontr)
  assume "\<not> f64_exponent q < k"
  then have "(2::rat) powi k \<le> 2 powi f64_exponent q" by (intro power_int_increasing) auto
  with f64_exponent_bounds(1) [OF assms(1)] assms(2) show False by simp
qed

lemma f64_round_le_powi:
  assumes "q \<le> 2 powi k"
  shows "f64_round q \<le> 2 powi k"
proof (cases "q \<le> 0")
  case True
  then show ?thesis by (simp add: f64_round_def less_imp_le)
next
  case False
  let ?e = "f64_exponent q"
  have upper: "f64_round q \<le> 2 powi (?e + 1)"
  proof -
    have "q / 2 powi (?e - 52) \<le> of_int (2 ^ 53)"
      using f64_round_mantissa(2) [of q] False by simp
    then have "round_half_even (q / 2 powi (?e - 52)) \<le> 2 ^ 53" by (rule round_half_even_le_int)
    then have "(of_int (round_half_even (q / 2 powi (?e - 52))) :: rat) \<le> 2 ^ 53"
      by (metis of_int_le_iff of_int_numeral of_int_power)
    then have "f64_round q \<le> 2 ^ 53 * 2 powi (?e - 52)"
      using False by (simp add: f64_round_def Let_def mult_right_mono)
    then show ?thesis by (simp add: power_int_diff power_int_add)
  qed
  show ?thesis
  proof (cases "q = 2 powi k")
    case True
    have "?e = k"
    proof -
      have "\<not> ?e < k" using f64_exponent_bounds(2) [of q] False True
        by (metis (no_types, opaque_lifting) add1_zle_eq linorder_not_less not_le one_le_numeral power_int_increasing)
      moreover have "?e \<le> k"
        using exponent_less_powi [of q "k + 1"] False True by (simp add: power_int_add)
      ultimately show ?thesis by simp
    qed
    then have "q / 2 powi (?e - 52) = of_int (2 ^ 52)"
      using True by (simp add: power_int_diff)
    then have "f64_round q = 2 ^ 52 * 2 powi (?e - 52)"
      using False by (simp add: f64_round_def Let_def)
    then show ?thesis using \<open>?e = k\<close> by (simp add: power_int_diff)
  next
    case ne: False
    with assms False have "?e < k" by (intro exponent_less_powi) auto
    then have "(2::rat) powi (?e + 1) \<le> 2 powi k" by (intro power_int_increasing) auto
    with upper show ?thesis by simp
  qed
qed

lemma f64_round_ge_powi:
  assumes "2 powi k \<le> q"
  shows "2 powi k \<le> f64_round q"
proof -
  have pos: "0 < q" using assms by (rule less_le_trans [rotated]) simp
  let ?e = "f64_exponent q"
  have "k \<le> ?e"
  proof (rule ccontr)
    assume "\<not> k \<le> ?e"
    then have "(2::rat) powi (?e + 1) \<le> 2 powi k" by (intro power_int_increasing) auto
    with f64_exponent_bounds(2) [OF pos] assms show False by simp
  qed
  then have "(2::rat) powi k \<le> 2 powi ?e" by (intro power_int_increasing) auto
  also have "\<dots> = 2 ^ 52 * 2 powi (?e - 52)" by (simp add: power_int_diff)
  also have "\<dots> \<le> f64_round q"
  proof -
    have "(2 ^ 52 :: int) \<le> round_half_even (q / 2 powi (?e - 52))"
      using f64_round_mantissa(1) [OF pos] by (intro round_half_even_ge_int) simp
    then have "(2 ^ 52 :: rat) \<le> of_int (round_half_even (q / 2 powi (?e - 52)))"
      by (metis of_int_le_iff of_int_numeral of_int_power)
    with pos show ?thesis by (simp add: f64_round_def Let_def mult_right_mono)
  qed
  finally show ?thesis .
qed

text \<open>The relative error of one rounding is at most \<open>2 powi -53\<close>.\<close>

lemma f64_round_error:
  assumes "0 < q"
  shows "\<bar>f64_round q - q\<bar> \<le> q / 2 ^ 53"
proof -
  let ?u = "(2::rat) powi (f64_exponent q - 52)" and ?m = "q / 2 powi (f64_exponent q - 52)"
  have "f64_round q - q = (of_int (round_half_even ?m) - ?m) * ?u"
    using assms by (simp add: f64_round_def Let_def algebra_simps)
  then have "\<bar>f64_round q - q\<bar> = \<bar>of_int (round_half_even ?m) - ?m\<bar> * ?u"
    by (simp add: abs_mult)
  also have "\<dots> \<le> 1 / 2 * ?u" by (intro mult_right_mono round_half_even_near) simp
  also have "\<dots> \<le> q / 2 ^ 53"
    using f64_round_mantissa(1) [OF assms] by (simp add: pos_le_divide_eq)
  finally show ?thesis .
qed

lemma f64_round_one [simp]: "f64_round 1 = 1"
  using f64_round_le_powi [of 1 0] f64_round_ge_powi [of 0 1] by simp

lemma f64_round_zero [simp]: "f64_round 0 = 0"
  by (simp add: f64_round_def)

lemma f64_round_le_one: "q \<le> 1 \<Longrightarrow> f64_round q \<le> 1"
  using f64_round_le_powi [of q 0] by simp

text \<open>A quotient of counters is rounded to at least one half exactly when it is at least one half.\<close>

lemma f64_round_half_iff:
  assumes q: "q = of_nat a / of_nat n" and n: "0 < n" "n < 2 ^ 52"
  shows "1 / 2 \<le> f64_round q \<longleftrightarrow> n \<le> 2 * a"
proof
  assume "n \<le> 2 * a"
  then have "(of_nat n :: rat) \<le> of_nat (2 * a)" by (rule of_nat_mono)
  then have "1 / 2 \<le> q" using n(1) by (simp add: q pos_le_divide_eq)
  then show "1 / 2 \<le> f64_round q" using f64_round_ge_powi [of "-1" q] by simp
next
  assume R: "1 / 2 \<le> f64_round q"
  show "n \<le> 2 * a"
  proof (rule ccontr)
    assume "\<not> n \<le> 2 * a"
    then have "of_nat (2 * a + 1) \<le> (of_nat n :: rat)" by (intro of_nat_mono) simp
    then have le: "2 * of_nat a \<le> (of_nat n :: rat) - 1" by simp
    have n0: "(0::rat) < of_nat n" using n(1) by simp
    have "2 * of_nat a / of_nat n \<le> (of_nat n - 1) / (of_nat n :: rat)"
      by (rule divide_right_mono [OF le]) (use n0 in simp)
    then have q2: "2 * q \<le> 1 - 1 / of_nat n"
      using n0 by (simp add: q diff_divide_distrib)
    have inv: "1 / of_nat n > (0::rat)" using n0 by simp
    have qpos: "0 < q" using R by (cases "q \<le> 0") (auto simp: f64_round_def)
    have "f64_round q \<le> q + q / 2 ^ 53" using f64_round_error [OF qpos] by linarith
    also have "2 * q \<le> 1" using q2 inv by linarith
    then have "q + q / 2 ^ 53 \<le> q + 1 / 2 ^ 54" by simp
    finally have "1 / of_nat n \<le> (2 * (1 / 2 ^ 54) :: rat)" using R q2 by linarith
    then have "1 / of_nat n \<le> (1 / 2 ^ 53 :: rat)" by simp
    then have "(2 ^ 53 :: rat) \<le> of_nat n" using n0 by (simp add: pos_divide_le_eq pos_le_divide_eq)
    then have "of_nat (2 ^ 53) \<le> (of_nat n :: rat)" by simp
    then have "2 ^ 53 \<le> n" by (simp only: of_nat_le_iff)
    with n(2) show False by simp
  qed
qed

text \<open>Counters below \<open>2 ^ 53\<close> convert exactly.\<close>

lemma f64_of_nat_exact:
  assumes "n < 2 ^ 53"
  shows "f64_of_nat n = of_nat n"
proof (cases "n = 0")
  case True
  then show ?thesis by (simp add: f64_of_nat_def)
next
  case False
  let ?q = "of_nat n :: rat"
  let ?e = "f64_exponent ?q"
  let ?k = "nat (52 - ?e)"
  have "of_nat n < (of_nat (2 ^ 53) :: rat)" using assms by (simp only: of_nat_less_iff)
  then have "?q < 2 powi 53" by simp
  then have e: "?e < 53" using False by (intro exponent_less_powi) auto
  then have u: "(2::rat) powi (?e - 52) = 1 / 2 ^ ?k"
    using power_int_minus [of "2::rat" "52 - ?e"] by (simp add: power_int_def field_simps)
  have "?q / 2 powi (?e - 52) = of_int (int n * 2 ^ ?k)" by (simp add: u)
  then have "f64_round ?q = of_int (int n * 2 ^ ?k) * (1 / 2 ^ ?k)"
    using False by (simp add: f64_round_def Let_def u del: of_int_mult)
  then show ?thesis by (simp add: f64_of_nat_def)
qed

end
