(* ===== verification/SlidingWindow.thy ===== *)
theory SlidingWindow
  imports RustFloat
begin

section \<open>The breaker's sliding window\<close>

text \<open>
  Models \<open>hystersis-circuit-breaker/src/window.rs\<close>: a queue of samples, each an instant and
  whether the request failed, with the number of failures kept beside it.
  \<^item> An \<open>Instant\<close> is a number of nanoseconds above the least instant the platform can
    represent, so \<open>checked_sub\<close> fails exactly below that instant; a \<open>Duration\<close> is a number
    of nanoseconds.
  \<^item> The queue's front is the head of the list.
  The locale \<open>sample_window\<close> is what the breaker relies on; it is interpreted here on the
  code's own operations.
\<close>

type_synonym instant = nat
type_synonym duration = nat

definition MAX_WINDOW_ENTRIES :: nat where
  "MAX_WINDOW_ENTRIES = 10000"

record sliding_window =
  entries :: "(instant \<times> bool) list"
  failures :: nat

definition window_new :: sliding_window where
  "window_new = \<lparr>entries = [], failures = 0\<rparr>"

definition window_push :: "bool \<Rightarrow> instant \<Rightarrow> sliding_window \<Rightarrow> sliding_window" where
  "window_push is_failure ts w =
     (let w1 =
        (if MAX_WINDOW_ENTRIES \<le> length (entries w)
         then (case entries w of
                 [] \<Rightarrow> w
               | (_, was_failure) # rest \<Rightarrow>
                   w\<lparr>entries := rest,
                     failures := (if was_failure then failures w - 1 else failures w)\<rparr>)
         else w)
      in w1\<lparr>entries := entries w1 @ [(ts, is_failure)],
            failures := (if is_failure then failures w1 + 1 else failures w1)\<rparr>)"

definition checked_sub :: "instant \<Rightarrow> duration \<Rightarrow> instant option" where
  "checked_sub t d = (if d \<le> t then Some (t - d) else None)"

text \<open>The \<open>while let\<close> loop of \<open>evict\<close>.\<close>

fun evict_loop :: "instant \<Rightarrow> (instant \<times> bool) list \<Rightarrow> nat \<Rightarrow> (instant \<times> bool) list \<times> nat" where
  "evict_loop cutoff [] n = ([], n)"
| "evict_loop cutoff ((ts, was_failure) # rest) n =
     (if ts < cutoff
      then evict_loop cutoff rest (if was_failure then n - 1 else n)
      else ((ts, was_failure) # rest, n))"

definition window_evict :: "duration \<Rightarrow> instant \<Rightarrow> sliding_window \<Rightarrow> sliding_window" where
  "window_evict window now w =
     (case checked_sub now window of
        None \<Rightarrow> w
      | Some cutoff \<Rightarrow>
          (let (es, n) = evict_loop cutoff (entries w) (failures w)
           in w\<lparr>entries := es, failures := n\<rparr>))"

definition window_error_rate :: "sliding_window \<Rightarrow> rat" where
  "window_error_rate w =
     (if entries w = [] then 0
      else f64_div (f64_of_nat (failures w)) (f64_of_nat (length (entries w))))"

definition window_sample_count :: "sliding_window \<Rightarrow> nat" where
  "window_sample_count w = length (entries w)"

definition window_clear :: "sliding_window \<Rightarrow> sliding_window" where
  "window_clear w = w\<lparr>entries := [], failures := 0\<rparr>"

section \<open>The interface\<close>

text \<open>
  \<open>samples\<close> is the abstraction: the window as the list of its samples. A window is good when
  its failure counter is the number of failed samples and the bound on its length holds.
\<close>

locale sample_window =
  fixes push :: "bool \<Rightarrow> instant \<Rightarrow> 'w \<Rightarrow> 'w"
    and evict :: "duration \<Rightarrow> instant \<Rightarrow> 'w \<Rightarrow> 'w"
    and clear :: "'w \<Rightarrow> 'w"
    and samples :: "'w \<Rightarrow> (instant \<times> bool) list"
    and fails :: "'w \<Rightarrow> nat"
    and good :: "'w \<Rightarrow> bool"
    and cap :: nat
  assumes cap_pos: "0 < cap"
    and good_fails: "good w \<Longrightarrow> fails w = length (filter snd (samples w))"
    and good_cap: "good w \<Longrightarrow> length (samples w) \<le> cap"
    and good_push: "good w \<Longrightarrow> good (push f t w)"
    and good_evict: "good w \<Longrightarrow> good (evict d t w)"
    and good_clear: "good (clear w)"
    and samples_push: "good w \<Longrightarrow>
       samples (push f t w) = drop (length (samples w) + 1 - cap) (samples w) @ [(t, f)]"
    and samples_clear: "samples (clear w) = []"
    and samples_evict: "good w \<Longrightarrow>
       samples (evict d t w) =
         (if d \<le> t then dropWhile (\<lambda>s. fst s < t - d) (samples w) else samples w)"
begin

lemma fails_le: "good w \<Longrightarrow> fails w \<le> length (samples w)"
  by (simp add: good_fails)

lemma push_last: "good w \<Longrightarrow> \<exists>ys. samples (push f t w) = ys @ [(t, f)]"
  by (auto simp: samples_push)

lemma evict_keeps_recent:
  "good w \<Longrightarrow> s \<in> set (samples w) \<Longrightarrow> \<not> fst s < t - d \<Longrightarrow> s \<in> set (samples (evict d t w))"
  by (auto simp: samples_evict) (metis UnE set_append set_takeWhileD takeWhile_dropWhile_id)

lemma evict_push_nonempty: "good w \<Longrightarrow> samples (evict d t (push f t w)) \<noteq> []"
proof -
  assume g: "good w"
  then obtain ys where "samples (push f t w) = ys @ [(t, f)]" using push_last by blast
  then have "(t, f) \<in> set (samples (push f t w))" by simp
  with g have "(t, f) \<in> set (samples (evict d t (push f t w)))"
    by (intro evict_keeps_recent good_push) auto
  then show ?thesis by auto
qed

lemma evict_sub: "good w \<Longrightarrow> set (samples (evict d t w)) \<subseteq> set (samples w)"
  by (auto simp: samples_evict dest: set_dropWhileD)

end

definition window_ok :: "sliding_window \<Rightarrow> bool" where
  "window_ok w \<longleftrightarrow>
     failures w = length (filter snd (entries w)) \<and> length (entries w) \<le> MAX_WINDOW_ENTRIES"

lemma window_new_ok: "window_ok window_new"
  by (simp add: window_ok_def window_new_def)

lemma evict_loop_entries: "fst (evict_loop c es n) = dropWhile (\<lambda>s. fst s < c) es"
  by (induction c es n rule: evict_loop.induct) auto

lemma evict_loop_failures:
  "n = length (filter snd es) \<Longrightarrow>
     snd (evict_loop c es n) = length (filter snd (dropWhile (\<lambda>s. fst s < c) es))"
  by (induction c es n rule: evict_loop.induct) auto

lemma window_push_entries:
  "window_ok w \<Longrightarrow>
     entries (window_push f t w) =
       drop (length (entries w) + 1 - MAX_WINDOW_ENTRIES) (entries w) @ [(t, f)]"
  by (auto simp: window_push_def window_ok_def Let_def MAX_WINDOW_ENTRIES_def split: list.splits)

lemma window_push_ok: "window_ok w \<Longrightarrow> window_ok (window_push f t w)"
  by (auto simp: window_push_def window_ok_def Let_def MAX_WINDOW_ENTRIES_def split: list.splits)

lemma window_evict_ok: "window_ok w \<Longrightarrow> window_ok (window_evict d t w)"
  using evict_loop_entries [of "t - d" "entries w" "failures w"]
    evict_loop_failures [of "failures w" "entries w" "t - d"]
    length_dropWhile_le [of "\<lambda>s. fst s < t - d" "entries w"]
  by (auto simp: window_evict_def window_ok_def checked_sub_def split: prod.splits)

lemma window_evict_entries:
  "entries (window_evict d t w) =
     (if d \<le> t then dropWhile (\<lambda>s. fst s < t - d) (entries w) else entries w)"
  using evict_loop_entries [of "t - d" "entries w" "failures w"]
  by (auto simp: window_evict_def checked_sub_def split: prod.splits)

lemma window_ok_failures: "window_ok w \<Longrightarrow> failures w = length (filter snd (entries w))"
  and window_ok_cap: "window_ok w \<Longrightarrow> length (entries w) \<le> MAX_WINDOW_ENTRIES"
  by (simp_all add: window_ok_def)

lemma window_clear_ok: "window_ok (window_clear w)"
  and window_clear_entries: "entries (window_clear w) = []"
  by (simp_all add: window_ok_def window_clear_def)

interpretation sw: sample_window window_push window_evict window_clear entries failures window_ok
  MAX_WINDOW_ENTRIES
proof unfold_locales
  show "0 < MAX_WINDOW_ENTRIES" by (simp add: MAX_WINDOW_ENTRIES_def)
qed (simp_all add: window_ok_failures window_ok_cap window_push_ok window_evict_ok window_clear_ok
    window_push_entries window_clear_entries window_evict_entries)

section \<open>The error rate\<close>

lemma f64_of_window_count: "n \<le> MAX_WINDOW_ENTRIES \<Longrightarrow> f64_of_nat n = of_nat n"
  by (rule f64_of_nat_exact) (simp add: MAX_WINDOW_ENTRIES_def)

lemma window_error_rate_eq:
  assumes "window_ok w" and "entries w \<noteq> []"
  shows "window_error_rate w = f64_round (of_nat (failures w) / of_nat (length (entries w)))"
  using assms sw.fails_le [OF assms(1)] sw.good_cap [OF assms(1)]
  by (simp add: window_error_rate_def f64_div_def f64_of_window_count)

lemma window_error_rate_bounds:
  assumes "window_ok w"
  shows "0 \<le> window_error_rate w \<and> window_error_rate w \<le> 1"
proof (cases "entries w = []")
  case True
  then show ?thesis by (simp add: window_error_rate_def)
next
  case False
  have "of_nat (failures w) \<le> (of_nat (length (entries w)) :: rat)"
    using sw.fails_le [OF assms] by (rule of_nat_mono)
  then have "of_nat (failures w) / of_nat (length (entries w)) \<le> (1 :: rat)"
    using False by (simp add: divide_le_eq_1)
  then show ?thesis
    by (simp add: window_error_rate_eq [OF assms False] f64_round_nonneg f64_round_le_one)
qed

text \<open>The rate reaches one half exactly when at least half of the samples failed.\<close>

lemma window_error_rate_half_iff:
  assumes "window_ok w" and "entries w \<noteq> []"
  shows "1 / 2 \<le> window_error_rate w \<longleftrightarrow> length (entries w) \<le> 2 * failures w"
  unfolding window_error_rate_eq [OF assms]
  using sw.good_cap [OF assms(1)] assms(2)
  by (intro f64_round_half_iff) (auto simp: MAX_WINDOW_ENTRIES_def)

end
