(* ===== verification/RustStr.thy ===== *)
theory RustStr
  imports Prelude
begin

section \<open>Rust strings\<close>

text \<open>
  A Rust \<open>str\<close> is its UTF-8 encoding: a \<open>string\<close> whose characters are the bytes. So
  \<open>s.len()\<close> is \<open>length s\<close>, a byte offset is an index into the list, and the operations that
  work on characters (\<open>chars()\<close>, \<open>trim()\<close>, the boundary test) group each lead byte with its
  continuation bytes. Slicing at an offset that is not a character boundary panics in Rust;
  the functions below that slice first look for a boundary, or a \<open>checked\<close> variant returns
  \<open>None\<close>.
\<close>

type_synonym rstr = string

definition is_cont :: "char \<Rightarrow> bool" where
  "is_cont c \<longleftrightarrow> 128 \<le> (of_char c :: nat) \<and> (of_char c :: nat) < 192"

definition is_char_boundary :: "rstr \<Rightarrow> nat \<Rightarrow> bool" where
  "is_char_boundary s i \<longleftrightarrow>
     i = 0 \<or> i = length s \<or> (i < length s \<and> \<not> is_cont (s ! i))"

text \<open>\<open>&s[..i]\<close>: \<open>None\<close> is the panic.\<close>

definition slice_to :: "rstr \<Rightarrow> nat \<Rightarrow> rstr option" where
  "slice_to s i = (if is_char_boundary s i then Some (take i s) else None)"

text \<open>The loop \<open>while !s.is_char_boundary(end) { end -= 1 }\<close>.\<close>

fun floor_boundary :: "rstr \<Rightarrow> nat \<Rightarrow> nat" where
  "floor_boundary s 0 = 0"
| "floor_boundary s (Suc n) =
     (if is_char_boundary s (Suc n) then Suc n else floor_boundary s n)"

lemma floor_boundary_le: "floor_boundary s n \<le> n"
  by (induction n) auto

lemma floor_boundary_ok: "is_char_boundary s (floor_boundary s n)"
  by (induction n) (auto simp: is_char_boundary_def)

lemma floor_boundary_max:
  "is_char_boundary s m \<Longrightarrow> m \<le> n \<Longrightarrow> m \<le> floor_boundary s n"
  by (induction n) (auto simp: le_Suc_eq)

text \<open>The characters of a string, each as its bytes.\<close>

function chars_of :: "rstr \<Rightarrow> rstr list" where
  "chars_of [] = []"
| "chars_of (c # cs) = (c # takeWhile is_cont cs) # chars_of (dropWhile is_cont cs)"
  by pat_completeness auto
termination
  by (relation "measure length") (auto simp: le_imp_less_Suc length_dropWhile_le)

lemma concat_chars_of [simp]: "concat (chars_of s) = s"
  by (induction s rule: chars_of.induct) auto

lemma chars_of_eq_Nil [simp]: "chars_of s = [] \<longleftrightarrow> s = []"
  by (cases s) auto

lemma length_chars_of_le: "length (chars_of s) \<le> length s"
proof (induction s rule: chars_of.induct)
  case 1
  then show ?case by simp
next
  case (2 c cs)
  have "length (dropWhile is_cont cs) \<le> length cs" by (rule length_dropWhile_le)
  with 2 show ?case by simp
qed

definition char_count :: "rstr \<Rightarrow> nat" where
  "char_count s = length (chars_of s)"

definition take_chars :: "nat \<Rightarrow> rstr \<Rightarrow> rstr" where
  "take_chars n s = concat (take n (chars_of s))"

definition skip_chars :: "nat \<Rightarrow> rstr \<Rightarrow> rstr" where
  "skip_chars n s = concat (drop n (chars_of s))"

lemma take_skip_chars: "take_chars n s @ skip_chars n s = s"
proof -
  have "take_chars n s @ skip_chars n s = concat (take n (chars_of s) @ drop n (chars_of s))"
    by (simp only: take_chars_def skip_chars_def concat_append)
  then show ?thesis by simp
qed

section \<open>White space\<close>

text \<open>The characters with Unicode's \<open>White_Space\<close> property, which \<open>trim\<close> removes.\<close>

definition is_whitespace :: "rstr \<Rightarrow> bool" where
  "is_whitespace g =
     (case map of_char g :: nat list of
        [a] \<Rightarrow> 9 \<le> a \<and> a \<le> 13 \<or> a = 32
      | [a, b] \<Rightarrow> a = 194 \<and> (b = 133 \<or> b = 160)
      | [a, b, c] \<Rightarrow>
          a = 225 \<and> b = 154 \<and> c = 128
          \<or> a = 226 \<and> b = 128 \<and> (128 \<le> c \<and> c \<le> 138 \<or> c = 168 \<or> c = 169 \<or> c = 175)
          \<or> a = 226 \<and> b = 129 \<and> c = 159
          \<or> a = 227 \<and> b = 128 \<and> c = 128
      | _ \<Rightarrow> False)"

definition drop_end :: "('a \<Rightarrow> bool) \<Rightarrow> 'a list \<Rightarrow> 'a list" where
  "drop_end P xs = rev (dropWhile P (rev xs))"

definition trim_start :: "rstr \<Rightarrow> rstr" where
  "trim_start s = concat (dropWhile is_whitespace (chars_of s))"

definition trim_end :: "rstr \<Rightarrow> rstr" where
  "trim_end s = concat (drop_end is_whitespace (chars_of s))"

definition trim :: "rstr \<Rightarrow> rstr" where
  "trim s = concat (drop_end is_whitespace (dropWhile is_whitespace (chars_of s)))"

lemma drop_end_Nil [simp]: "drop_end P [] = []"
  by (simp add: drop_end_def)

lemma drop_end_prefix: "\<exists>ys. xs = drop_end P xs @ ys \<and> (\<forall>y \<in> set ys. P y)"
proof -
  have "rev (dropWhile P (rev xs)) @ rev (takeWhile P (rev xs)) = xs"
    by (metis rev_append rev_rev_ident takeWhile_dropWhile_id)
  moreover have "\<forall>y \<in> set (rev (takeWhile P (rev xs))). P y"
    by (auto dest: set_takeWhileD)
  ultimately show ?thesis unfolding drop_end_def by metis
qed

lemma drop_end_idem [simp]: "drop_end P (drop_end P xs) = drop_end P xs"
  by (simp add: drop_end_def dropWhile_idem)

lemma drop_end_length: "length (drop_end P xs) \<le> length xs"
  by (simp add: drop_end_def) (metis length_dropWhile_le length_rev)

lemma trim_Nil [simp]: "trim [] = []"
  by (simp add: trim_def)

lemma length_concat_drop_end: "length (concat (drop_end P xs)) \<le> length (concat xs)"
proof -
  obtain ys where "xs = drop_end P xs @ ys"
    using drop_end_prefix [of xs P] by (elim exE conjE)
  then have "concat xs = concat (drop_end P xs) @ concat ys"
    by (metis concat_append)
  then show ?thesis by simp
qed

lemma length_concat_dropWhile: "length (concat (dropWhile P xs)) \<le> length (concat xs)"
  by (induction xs) auto

lemma trim_length: "length (trim s) \<le> length s"
proof -
  have "length (trim s) \<le> length (concat (dropWhile is_whitespace (chars_of s)))"
    unfolding trim_def by (rule length_concat_drop_end)
  also have "\<dots> \<le> length (concat (chars_of s))"
    by (rule length_concat_dropWhile)
  finally show ?thesis by simp
qed

text \<open>\<open>trim_end_matches\<close> with ASCII characters: the bytes themselves are the characters.\<close>

definition trim_end_ascii :: "char set \<Rightarrow> rstr \<Rightarrow> rstr" where
  "trim_end_ascii A s = drop_end (\<lambda>c. c \<in> A) s"

section \<open>Searching, joining, replacing\<close>

definition starts_with :: "rstr \<Rightarrow> rstr \<Rightarrow> bool" where
  "starts_with s p \<longleftrightarrow> take (length p) s = p"

definition ends_with :: "rstr \<Rightarrow> rstr \<Rightarrow> bool" where
  "ends_with s p \<longleftrightarrow> starts_with (rev s) (rev p)"

fun str_find :: "rstr \<Rightarrow> rstr \<Rightarrow> nat option" where
  "str_find p [] = (if p = [] then Some 0 else None)"
| "str_find p (c # cs) =
     (if starts_with (c # cs) p then Some 0 else map_option Suc (str_find p cs))"

definition contains :: "rstr \<Rightarrow> rstr \<Rightarrow> bool" where
  "contains s p \<longleftrightarrow> str_find p s \<noteq> None"

lemma starts_with_append [simp]: "starts_with (p @ s) p"
  by (simp add: starts_with_def)

lemma starts_with_iff: "starts_with s p \<longleftrightarrow> (\<exists>t. s = p @ t)"
  by (metis append_take_drop_id starts_with_append starts_with_def)

lemma str_find_Some:
  "str_find p s = Some i \<Longrightarrow> \<exists>t. s = take i s @ p @ t \<and> i + length p \<le> length s"
proof (induction s arbitrary: i)
  case Nil
  then show ?case by (simp split: if_splits)
next
  case (Cons c cs)
  show ?case
  proof (cases "starts_with (c # cs) p")
    case True
    with Cons.prems have "i = 0" by simp
    from True obtain t where t: "c # cs = p @ t" by (auto simp: starts_with_iff)
    then have "length p \<le> length (c # cs)" by (metis le_add1 length_append)
    with t \<open>i = 0\<close> show ?thesis by auto
  next
    case False
    with Cons.prems obtain j where j: "str_find p cs = Some j" "i = Suc j" by auto
    from Cons.IH [OF j(1)] j(2) show ?thesis by auto
  qed
qed

lemma str_find_None: "str_find p s = None \<longleftrightarrow> (\<forall>a t. s \<noteq> a @ p @ t)"
proof (induction s)
  case Nil
  then show ?case by auto
next
  case (Cons c cs)
  show ?case
  proof
    assume N: "str_find p (c # cs) = None"
    show "\<forall>a t. c # cs \<noteq> a @ p @ t"
    proof (intro allI notI)
      fix a t
      assume eq: "c # cs = a @ p @ t"
      show False
      proof (cases a)
        case Nil
        with eq have "starts_with (c # cs) p" by simp
        with N show False by simp
      next
        case (Cons b bs)
        with eq have "cs = bs @ p @ t" by simp
        with N Cons.IH show False by (auto split: if_splits)
      qed
    qed
  next
    assume A: "\<forall>a t. c # cs \<noteq> a @ p @ t"
    then have "\<not> starts_with (c # cs) p" by (metis append_Nil starts_with_iff)
    moreover have "\<forall>a t. cs \<noteq> a @ p @ t" using A by (metis append_Cons)
    ultimately show "str_find p (c # cs) = None" using Cons.IH by simp
  qed
qed

lemma contains_iff: "contains s p \<longleftrightarrow> (\<exists>a t. s = a @ p @ t)"
  by (auto simp: contains_def str_find_None)

fun join :: "rstr \<Rightarrow> rstr list \<Rightarrow> rstr" where
  "join sep [] = []"
| "join sep [x] = x"
| "join sep (x # y # ys) = x @ sep @ join sep (y # ys)"

lemma join_Cons: "xs \<noteq> [] \<Longrightarrow> join sep (x # xs) = x @ sep @ join sep xs"
  by (cases xs) auto

lemma join_snoc: "xs \<noteq> [] \<Longrightarrow> join sep (xs @ [x]) = join sep xs @ sep @ x"
  by (induction xs rule: join.induct [of _ sep]) (auto simp: join_Cons)

definition nl :: rstr where
  "nl = [CHR 0x0A]"

section \<open>Splitting and parsing\<close>

text \<open>\<open>s.split(c)\<close> for an ASCII character.\<close>

fun split_on :: "char \<Rightarrow> rstr \<Rightarrow> rstr list" where
  "split_on c [] = [[]]"
| "split_on c (x # xs) =
     (if x = c then [] # split_on c xs
      else case split_on c xs of [] \<Rightarrow> [[x]] | y # ys \<Rightarrow> (x # y) # ys)"

lemma split_on_nonempty [simp]: "split_on c s \<noteq> []"
  by (induction s) (auto split: list.splits)

lemma join_split_on: "join [c] (split_on c s) = s"
proof (induction s)
  case Nil
  then show ?case by simp
next
  case (Cons x xs)
  obtain y ys where ys: "split_on c xs = y # ys" by (cases "split_on c xs") auto
  with Cons show ?case by (cases ys) (auto simp: join_Cons)
qed

text \<open>\<open>split_once\<close> with a character, and \<open>split\<close> with a predicate on the items of a list.\<close>

fun split_once :: "char \<Rightarrow> rstr \<Rightarrow> (rstr \<times> rstr) option" where
  "split_once c [] = None"
| "split_once c (x # xs) =
     (if x = c then Some ([], xs) else map_option (\<lambda>(a, b). (x # a, b)) (split_once c xs))"

fun split_when :: "('a \<Rightarrow> bool) \<Rightarrow> 'a list \<Rightarrow> 'a list list" where
  "split_when P [] = [[]]"
| "split_when P (x # xs) =
     (if P x then [] # split_when P xs
      else (case split_when P xs of [] \<Rightarrow> [[x]] | y # ys \<Rightarrow> (x # y) # ys))"

text \<open>\<open>str::parse\<close> for an unsigned integer with the given largest value, and for \<open>bool\<close>.\<close>

fun parse_digits :: "nat \<Rightarrow> nat \<Rightarrow> rstr \<Rightarrow> nat option" where
  "parse_digits m acc [] = Some acc"
| "parse_digits m acc (c # cs) =
     (let d = (of_char c :: nat) in
      if 48 \<le> d \<and> d \<le> 57 \<and> acc * 10 + (d - 48) \<le> m
      then parse_digits m (acc * 10 + (d - 48)) cs else None)"

definition parse_uint :: "nat \<Rightarrow> rstr \<Rightarrow> nat option" where
  "parse_uint m s =
     (case s of
        [] \<Rightarrow> None
      | c # cs \<Rightarrow>
          if c = CHR ''+'' then (if cs = [] then None else parse_digits m 0 cs)
          else parse_digits m 0 s)"

definition parse_bool :: "rstr \<Rightarrow> bool option" where
  "parse_bool s = (if s = ''true'' then Some True else if s = ''false'' then Some False else None)"

lemma parse_digits_bound: "acc \<le> m \<Longrightarrow> parse_digits m acc s = Some n \<Longrightarrow> n \<le> m"
  by (induction m acc s rule: parse_digits.induct) (auto simp: Let_def split: if_splits)

lemma parse_uint_bound: "parse_uint m s = Some n \<Longrightarrow> n \<le> m"
  by (auto simp: parse_uint_def split: list.splits if_splits intro: parse_digits_bound [of 0]
      simp del: parse_digits.simps)

section \<open>Replacing\<close>

text \<open>
  \<open>str::replace\<close>: the matches are found from the left and do not overlap; an empty pattern
  matches at every character boundary.
\<close>

function replace_all :: "rstr \<Rightarrow> rstr \<Rightarrow> rstr \<Rightarrow> rstr" where
  "replace_all p r [] = []"
| "replace_all p r (c # cs) =
     (if starts_with (c # cs) p then r @ replace_all p r (drop (length p - 1) cs)
      else c # replace_all p r cs)"
  by pat_completeness auto
termination by (relation "measure (\<lambda>(p, r, s). length s)") auto

definition str_replace :: "rstr \<Rightarrow> rstr \<Rightarrow> rstr \<Rightarrow> rstr" where
  "str_replace p r s =
     (if p = [] then concat (map (\<lambda>c. r @ c) (chars_of s)) @ r else replace_all p r s)"

lemma str_replace_absent: "p \<noteq> [] \<Longrightarrow> \<not> contains s p \<Longrightarrow> str_replace p r s = s"
proof -
  assume "p \<noteq> []"
  have "\<not> contains s p \<Longrightarrow> replace_all p r s = s"
  proof (induction s)
    case (Cons c cs)
    then show ?case by (auto simp: contains_def split: if_splits)
  qed simp
  then show "\<not> contains s p \<Longrightarrow> str_replace p r s = s"
    using \<open>p \<noteq> []\<close> by (simp add: str_replace_def)
qed

text \<open>Decimal printing of an unsigned integer (\<open>to_string\<close>, \<open>{n}\<close> in a format string).\<close>

fun show_nat :: "nat \<Rightarrow> rstr" where
  "show_nat n =
     (if n < 10 then [char_of (48 + n)] else show_nat (n div 10) @ [char_of (48 + n mod 10)])"

declare show_nat.simps [simp del]

text \<open>\<open>rfind\<close>: the last occurrence.\<close>

definition str_rfind :: "rstr \<Rightarrow> rstr \<Rightarrow> nat option" where
  "str_rfind p s =
     (case str_find (rev p) (rev s) of Some i \<Rightarrow> Some (length s - length p - i) | None \<Rightarrow> None)"

lemma str_find_bound: "str_find p s = Some i \<Longrightarrow> i + length p \<le> length s"
  using str_find_Some by blast

lemma replace_all_length:
  "p \<noteq> [] \<Longrightarrow> length r \<le> length p \<Longrightarrow> length (replace_all p r s) \<le> length s"
proof (induction p r s rule: replace_all.induct)
  case (2 p r c cs)
  show ?case
  proof (cases "starts_with (c # cs) p")
    case True
    then have "length p \<le> Suc (length cs)"
      unfolding starts_with_def by (metis length_Cons length_take min.cobounded1)
    moreover have "length (replace_all p r (drop (length p - 1) cs)) \<le> length (drop (length p - 1) cs)"
      using 2 True by blast
    ultimately show ?thesis using True 2(4) 2(3) by (cases p) auto
  next
    case False
    then show ?thesis using 2 by simp
  qed
qed simp

lemma replace_all_shorter:
  "length r < length p \<Longrightarrow> contains s p \<Longrightarrow> length (replace_all p r s) < length s"
proof (induction p r s rule: replace_all.induct)
  case (1 p r)
  then show ?case by (auto simp: contains_def split: if_splits)
next
  case (2 p r c cs)
  have ne: "p \<noteq> []" using 2(3) by auto
  show ?case
  proof (cases "starts_with (c # cs) p")
    case True
    then have "length p \<le> Suc (length cs)"
      unfolding starts_with_def by (metis length_Cons length_take min.cobounded1)
    moreover have "length (replace_all p r (drop (length p - 1) cs)) \<le> length (drop (length p - 1) cs)"
      by (rule replace_all_length [OF ne]) (use 2(3) in simp)
    ultimately show ?thesis using True 2(3) ne by (cases p) auto
  next
    case False
    then have "contains cs p" using 2(4) by (auto simp: contains_def)
    then show ?thesis using 2 False by simp
  qed
qed

end
