(* ===== verification/BreakerConfig.thy ===== *)
theory BreakerConfig
  imports SlidingWindow RustStr
begin

section \<open>Breaker configuration and retry policies\<close>

text \<open>
  Models \<open>config.rs\<close>, \<open>retry_policy.rs\<close> and \<open>grpc.rs\<close> of \<open>hystersis-circuit-breaker\<close>.
  Parsing a decimal fraction (\<open>f64::from_str\<close>) is an argument \<open>parse_f64\<close> of
  \<open>from_lookup_with_prefix\<close>; the other parsers are those of \<open>RustStr\<close>.
\<close>

record breaker_config =
  window_duration :: duration
  min_samples :: nat
  error_rate_threshold :: rat
  open_duration :: duration
  half_open_max_probes :: nat
  failure_codes :: "nat set"
  enabled :: bool

definition from_secs :: "nat \<Rightarrow> duration" where
  "from_secs n = n * 10 ^ 9"

definition DEFAULT_FAILURE_CODES :: "nat list" where
  "DEFAULT_FAILURE_CODES = [429, 500, 502, 503, 504]"

definition default_failure_codes :: "nat set" where
  "default_failure_codes = set DEFAULT_FAILURE_CODES"

definition config_server :: breaker_config where
  "config_server =
     \<lparr>window_duration = from_secs 60, min_samples = 10, error_rate_threshold = 1 / 2,
      open_duration = from_secs 10, half_open_max_probes = 1,
      failure_codes = default_failure_codes, enabled = True\<rparr>"

definition config_client :: breaker_config where
  "config_client =
     \<lparr>window_duration = from_secs 60, min_samples = 5, error_rate_threshold = 1 / 2,
      open_duration = from_secs 60, half_open_max_probes = 1,
      failure_codes = {401}, enabled = True\<rparr>"

definition parse_failure_codes :: "rstr \<Rightarrow> nat set" where
  "parse_failure_codes s =
     set (List.map_filter (\<lambda>c. parse_uint (2 ^ 16 - 1) (trim c)) (split_on (CHR '','') s))"

definition lookup_or :: "(rstr \<Rightarrow> rstr option) \<Rightarrow> rstr \<Rightarrow> (rstr \<Rightarrow> 'a option) \<Rightarrow> 'a \<Rightarrow> 'a" where
  "lookup_or get key parse dflt =
     (case get key of
        Some v \<Rightarrow> (case parse v of Some parsed \<Rightarrow> parsed | None \<Rightarrow> dflt)
      | None \<Rightarrow> dflt)"

definition from_lookup_with_prefix ::
  "(rstr \<Rightarrow> rat option) \<Rightarrow> rstr \<Rightarrow> (rstr \<Rightarrow> rstr option) \<Rightarrow> breaker_config" where
  "from_lookup_with_prefix parse_f64 prefix get =
     (let key = (\<lambda>k. prefix @ k);
          codes =
            (case get (key ''FAILURE_CODES'') of
               Some raw \<Rightarrow>
                 (let codes = parse_failure_codes raw
                  in if codes = {} then default_failure_codes else codes)
             | None \<Rightarrow> default_failure_codes)
      in \<lparr>window_duration =
            from_secs (lookup_or get (key ''WINDOW_SECS'') (parse_uint u64_max) 60),
          min_samples = lookup_or get (key ''MIN_SAMPLES'') (parse_uint u64_max) 10,
          error_rate_threshold = lookup_or get (key ''ERROR_RATE_THRESHOLD'') parse_f64 (1 / 2),
          open_duration =
            from_secs (lookup_or get (key ''OPEN_DURATION_SECS'') (parse_uint u64_max) 10),
          half_open_max_probes =
            max (lookup_or get (key ''HALF_OPEN_MAX_PROBES'') (parse_uint u64_max) 1) 1,
          failure_codes = codes,
          enabled = lookup_or get (key ''ENABLED'') parse_bool True\<rparr>)"

definition is_failure_status :: "breaker_config \<Rightarrow> nat \<Rightarrow> bool" where
  "is_failure_status c status \<longleftrightarrow> status \<in> failure_codes c"

lemma parse_failure_codes_bound: "c \<in> parse_failure_codes s \<Longrightarrow> c < 2 ^ 16"
proof -
  assume "c \<in> parse_failure_codes s"
  then obtain p where "parse_uint (2 ^ 16 - 1) (trim p) = Some c"
    unfolding parse_failure_codes_def List.map_filter_def by auto
  then have "c \<le> 2 ^ 16 - 1" by (rule parse_uint_bound)
  then show ?thesis by simp
qed

lemma from_lookup_probes: "1 \<le> half_open_max_probes (from_lookup_with_prefix pf p get)"
  by (simp add: from_lookup_with_prefix_def Let_def)

lemma from_lookup_codes_nonempty: "failure_codes (from_lookup_with_prefix pf p get) \<noteq> {}"
  by (auto simp: from_lookup_with_prefix_def Let_def default_failure_codes_def
      DEFAULT_FAILURE_CODES_def split: option.splits)

text \<open>With no variable set, the environment loader gives the server preset.\<close>

lemma from_lookup_unset: "from_lookup_with_prefix pf p (\<lambda>_. None) = config_server"
  by (simp add: from_lookup_with_prefix_def lookup_or_def config_server_def Let_def)

section \<open>Retry policies\<close>

datatype disposition = Retryable | AuthRefresh | Terminal

record retry_policy =
  retryable :: "nat list"
  auth_refresh :: "nat list"
  terminal :: "nat list"
  default_disposition :: disposition

definition classify :: "retry_policy \<Rightarrow> nat \<Rightarrow> disposition option" where
  "classify p status =
     (if 200 \<le> status \<and> status < 300 then None
      else if status \<in> set (auth_refresh p) then Some AuthRefresh
      else if status \<in> set (terminal p) then Some Terminal
      else if status \<in> set (retryable p) \<or> 500 \<le> status \<and> status < 600 then Some Retryable
      else Some (default_disposition p))"

definition should_retry :: "retry_policy \<Rightarrow> nat \<Rightarrow> bool" where
  "should_retry p status \<longleftrightarrow> classify p status = Some Retryable"

definition policy_server :: retry_policy where
  "policy_server =
     \<lparr>retryable = [429], auth_refresh = [], terminal = [], default_disposition = Terminal\<rparr>"

definition policy_edge_client :: retry_policy where
  "policy_edge_client =
     \<lparr>retryable = [429], auth_refresh = [], terminal = [525, 526],
      default_disposition = Terminal\<rparr>"

definition policy_client_storage :: retry_policy where
  "policy_client_storage =
     \<lparr>retryable = [], auth_refresh = [401], terminal = [400, 403, 404, 525, 526],
      default_disposition = Retryable\<rparr>"

text \<open>The status codes of gRPC (\<open>tonic::Code\<close>), by name.\<close>

datatype grpc_code =
    Code_Ok | Code_Cancelled | Code_Unknown | Code_InvalidArgument | Code_DeadlineExceeded
  | Code_NotFound | Code_AlreadyExists | Code_PermissionDenied | Code_ResourceExhausted
  | Code_FailedPrecondition | Code_Aborted | Code_OutOfRange | Code_Unimplemented
  | Code_Internal | Code_Unavailable | Code_DataLoss | Code_Unauthenticated

definition grpc_default :: "grpc_code list" where
  "grpc_default = [Code_Unavailable, Code_Unknown]"

definition grpc_permissive :: "grpc_code list" where
  "grpc_permissive = [Code_Unavailable, Code_Unknown, Code_Internal, Code_DeadlineExceeded]"

definition grpc_classify :: "grpc_code list \<Rightarrow> grpc_code \<Rightarrow> disposition option" where
  "grpc_classify rs c =
     (if c = Code_Ok then None
      else if c \<in> set rs then Some Retryable else Some Terminal)"

lemma classify_success: "classify p s = None \<longleftrightarrow> 200 \<le> s \<and> s < 300"
  by (simp add: classify_def)

lemma classify_5xx:
  "500 \<le> s \<Longrightarrow> s < 600 \<Longrightarrow> s \<notin> set (auth_refresh p) \<Longrightarrow> s \<notin> set (terminal p) \<Longrightarrow>
     should_retry p s"
  by (auto simp: should_retry_def classify_def)

lemma edge_client_vs_server:
  "classify policy_edge_client s =
     (if s = 525 \<or> s = 526 then Some Terminal else classify policy_server s)"
  by (auto simp: classify_def policy_edge_client_def policy_server_def)

lemma grpc_permissive_mono:
  "grpc_classify grpc_default c = Some Retryable \<Longrightarrow> grpc_classify grpc_permissive c = Some Retryable"
  by (cases c) (auto simp: grpc_classify_def grpc_default_def grpc_permissive_def)

end
