(* ===== verification/CircuitBreaker.thy ===== *)
theory CircuitBreaker
  imports BreakerConfig
begin

section \<open>The circuit breaker\<close>

text \<open>
  Models \<open>breaker.rs\<close>, \<open>state.rs\<close>, \<open>observer.rs\<close> and \<open>registry.rs\<close> of
  \<open>hystersis-circuit-breaker\<close>, one operation at a time: the atomics that threads share are
  fields of a record, and no two operations overlap.  The registry holds breakers by value, where
  the source hands out a shared \<open>Arc\<close>: what one caller does to its handle is not seen by
  another.  An operation reads the clock once: the instant is its argument \<open>now\<close>.  The
  observer is the list of the calls made to it, oldest first.
\<close>

datatype breaker_state = Closed | Open | HalfOpen

datatype outcome = Success | Failure

record breaker_open =
  retry_after :: duration

datatype observer_call =
    On_state_change breaker_state breaker_state rstr
  | On_probe_admission bool
  | On_outcome outcome breaker_state

definition from_u8 :: "nat \<Rightarrow> breaker_state" where
  "from_u8 v = (if v = 0 then Closed else if v = 1 then Open else if v = 2 then HalfOpen else Closed)"

fun as_u8 :: "breaker_state \<Rightarrow> nat" where
  "as_u8 Closed = 0"
| "as_u8 Open = 1"
| "as_u8 HalfOpen = 2"

record circuit_breaker =
  config :: breaker_config
  state :: nat
  baseline :: instant
  opened_at_millis :: nat
  half_open_probes :: u64
  probe_claimed_at_millis :: nat
  is_open_fast :: bool
  window :: sliding_window
  observer :: "observer_call list"

definition with_clock :: "breaker_config \<Rightarrow> instant \<Rightarrow> circuit_breaker" where
  "with_clock cfg now =
     \<lparr>config = cfg\<lparr>half_open_max_probes := max (half_open_max_probes cfg) 1\<rparr>,
      state = as_u8 Closed, baseline = now, opened_at_millis = 0, half_open_probes = 0,
      probe_claimed_at_millis = 0, is_open_fast = False, window = window_new, observer = []\<rparr>"

definition state_of :: "circuit_breaker \<Rightarrow> breaker_state" where
  "state_of b = from_u8 (state b)"

definition is_open :: "circuit_breaker \<Rightarrow> bool" where
  "is_open b = is_open_fast b"

definition observe :: "observer_call \<Rightarrow> circuit_breaker \<Rightarrow> circuit_breaker" where
  "observe e b = b\<lparr>observer := observer b @ [e]\<rparr>"

text \<open>Milliseconds since the baseline, cut to 64 bits by the \<open>as u64\<close>.\<close>

definition elapsed_millis :: "instant \<Rightarrow> circuit_breaker \<Rightarrow> nat" where
  "elapsed_millis now b = ((now - baseline b) div 10 ^ 6) mod 2 ^ 64"

definition from_millis :: "nat \<Rightarrow> duration" where
  "from_millis n = n * 10 ^ 6"

definition trip :: "breaker_state \<Rightarrow> rstr \<Rightarrow> instant \<Rightarrow> circuit_breaker \<Rightarrow> circuit_breaker" where
  "trip prev reason now b =
     (let b = b\<lparr>state := as_u8 Open\<rparr>;
          b = b\<lparr>opened_at_millis := elapsed_millis now b\<rparr>;
          b = b\<lparr>half_open_probes := 0\<rparr>;
          b = b\<lparr>is_open_fast := True\<rparr>
      in if prev \<noteq> Open then observe (On_state_change prev Open reason) b else b)"

definition close :: "breaker_state \<Rightarrow> rstr \<Rightarrow> circuit_breaker \<Rightarrow> circuit_breaker" where
  "close prev reason b =
     (let b = b\<lparr>state := as_u8 Closed\<rparr>;
          b = b\<lparr>window := window_clear (window b)\<rparr>;
          b = b\<lparr>half_open_probes := 0\<rparr>;
          b = b\<lparr>is_open_fast := False\<rparr>
      in if prev \<noteq> Closed then observe (On_state_change prev Closed reason) b else b)"

definition HALF_OPEN_PROBE_BACKOFF :: duration where
  "HALF_OPEN_PROBE_BACKOFF = from_millis 50"

definition try_half_open_probe ::
  "instant \<Rightarrow> circuit_breaker \<Rightarrow> (breaker_open + unit) \<times> circuit_breaker" where
  "try_half_open_probe now b =
     (let now_ms = elapsed_millis now b;
          prev = half_open_probes b;
          b = b\<lparr>half_open_probes := prev + 1\<rparr>
      in if unat prev < half_open_max_probes (config b)
         then (Inr (), observe (On_probe_admission True) (b\<lparr>probe_claimed_at_millis := now_ms\<rparr>))
         else
           (let b = b\<lparr>half_open_probes := half_open_probes b - 1\<rparr>;
                lease_millis = (open_duration (config b) div 10 ^ 6) mod 2 ^ 64;
                claimed = probe_claimed_at_millis b
            in if lease_millis \<le> now_ms - claimed
               then (Inr (), observe (On_probe_admission True) (b\<lparr>probe_claimed_at_millis := now_ms\<rparr>))
               else (Inl \<lparr>retry_after = min HALF_OPEN_PROBE_BACKOFF (open_duration (config b))\<rparr>,
                     observe (On_probe_admission False) b)))"

definition cas_state ::
  "breaker_state \<Rightarrow> breaker_state \<Rightarrow> circuit_breaker \<Rightarrow> bool \<times> circuit_breaker" where
  "cas_state old new b =
     (if state b = as_u8 old then (True, b\<lparr>state := as_u8 new\<rparr>) else (False, b))"

definition check_open ::
  "instant \<Rightarrow> circuit_breaker \<Rightarrow> (breaker_open + unit) \<times> circuit_breaker" where
  "check_open now b =
     (let elapsed = from_millis (elapsed_millis now b - opened_at_millis b)
      in if open_duration (config b) \<le> elapsed
         then
           (case cas_state Open HalfOpen b of
              (True, b) \<Rightarrow>
                (let b = b\<lparr>is_open_fast := False\<rparr>;
                     b = observe (On_state_change Open HalfOpen ''open_elapsed'') b
                 in try_half_open_probe now b)
            | (False, b) \<Rightarrow>
                (case state_of b of
                   Closed \<Rightarrow> (Inr (), b)
                 | HalfOpen \<Rightarrow> try_half_open_probe now b
                 | Open \<Rightarrow>
                     (let elapsed = from_millis (elapsed_millis now b - opened_at_millis b)
                      in (Inl \<lparr>retry_after = open_duration (config b) - elapsed\<rparr>, b))))
         else (Inl \<lparr>retry_after = open_duration (config b) - elapsed\<rparr>, b))"

definition check :: "instant \<Rightarrow> circuit_breaker \<Rightarrow> (breaker_open + unit) \<times> circuit_breaker" where
  "check now b =
     (if \<not> enabled (config b) then (Inr (), b)
      else case state_of b of
             Closed \<Rightarrow> (Inr (), b)
           | Open \<Rightarrow> check_open now b
           | HalfOpen \<Rightarrow> try_half_open_probe now b)"

definition should_trip :: "breaker_config \<Rightarrow> sliding_window \<Rightarrow> bool" where
  "should_trip cfg w \<longleftrightarrow>
     min_samples cfg \<le> window_sample_count w \<and> error_rate_threshold cfg \<le> window_error_rate w"

definition record_outcome :: "outcome \<Rightarrow> instant \<Rightarrow> circuit_breaker \<Rightarrow> circuit_breaker" where
  "record_outcome out now b =
     (if \<not> enabled (config b) then b
      else
        (let is_failure = (out = Failure);
             prev_state = state_of b;
             push_evict = (\<lambda>b. b\<lparr>window :=
               window_evict (window_duration (config b)) now (window_push is_failure now (window b))\<rparr>);
             b = (case prev_state of
                    Closed \<Rightarrow>
                      (let b = push_evict b
                       in if should_trip (config b) (window b) then trip prev_state ''trip'' now b else b)
                  | HalfOpen \<Rightarrow>
                      (if is_failure then trip prev_state ''probe_failure'' now b
                       else close prev_state ''probe_success'' b)
                  | Open \<Rightarrow> push_evict b)
         in observe (On_outcome out (state_of b)) b))"

definition error_rate :: "instant \<Rightarrow> circuit_breaker \<Rightarrow> rat \<times> circuit_breaker" where
  "error_rate now b =
     (let w = window_evict (window_duration (config b)) now (window b)
      in (window_error_rate w, b\<lparr>window := w\<rparr>))"

definition force_half_open :: "circuit_breaker \<Rightarrow> circuit_breaker" where
  "force_half_open b =
     (let prev = state_of b;
          b = b\<lparr>state := as_u8 HalfOpen, is_open_fast := False, half_open_probes := 0\<rparr>
      in if prev \<noteq> HalfOpen
         then observe (On_state_change prev HalfOpen ''force_half_open'') b else b)"

record registry =
  reg_config :: breaker_config
  breakers :: "rstr \<rightharpoonup> circuit_breaker"

definition registry_new :: "breaker_config \<Rightarrow> registry" where
  "registry_new cfg = \<lparr>reg_config = cfg, breakers = (\<lambda>_. None)\<rparr>"

definition registry_get :: "rstr \<Rightarrow> instant \<Rightarrow> registry \<Rightarrow> circuit_breaker option \<times> registry" where
  "registry_get key now r =
     (if \<not> enabled (reg_config r) then (None, r)
      else case breakers r key of
             Some cb \<Rightarrow> (Some cb, r)
           | None \<Rightarrow>
               (let cb = with_clock (reg_config r) now
                in (Some cb, r\<lparr>breakers := (breakers r)(key \<mapsto> cb)\<rparr>)))"

section \<open>The invariant\<close>

lemma from_u8_as_u8 [simp]: "from_u8 (as_u8 s) = s"
  by (cases s) (simp_all add: from_u8_def)

lemma as_u8_inject [simp]: "as_u8 s = as_u8 t \<longleftrightarrow> s = t"
  by (cases s; cases t) simp_all

declare as_u8.simps [simp del]

lemma observe_sel [simp]:
  "config (observe e b) = config b" "state (observe e b) = state b"
  "baseline (observe e b) = baseline b" "opened_at_millis (observe e b) = opened_at_millis b"
  "half_open_probes (observe e b) = half_open_probes b"
  "probe_claimed_at_millis (observe e b) = probe_claimed_at_millis b"
  "is_open_fast (observe e b) = is_open_fast b" "window (observe e b) = window b"
  "observer (observe e b) = observer b @ [e]" "state_of (observe e b) = state_of b"
  by (simp_all add: observe_def state_of_def)

lemma state_of_update [simp]:
  "state_of (b\<lparr>state := as_u8 s\<rparr>) = s" "state_of (b\<lparr>half_open_probes := p\<rparr>) = state_of b"
  "state_of (b\<lparr>window := w\<rparr>) = state_of b" "state_of (b\<lparr>is_open_fast := f\<rparr>) = state_of b"
  "state_of (b\<lparr>opened_at_millis := t\<rparr>) = state_of b"
  "state_of (b\<lparr>probe_claimed_at_millis := t\<rparr>) = state_of b"
  by (simp_all add: state_of_def)

text \<open>
  What every operation keeps: the word in \<open>state\<close> is one of the three encodings, the lock-free
  mirror agrees with it, the probe counter is within the limit and is zero outside \<open>HalfOpen\<close>,
  and the window's counter is exact.
\<close>

definition breaker_inv :: "circuit_breaker \<Rightarrow> bool" where
  "breaker_inv b \<longleftrightarrow>
     window_ok (window b) \<and> state b = as_u8 (state_of b) \<and>
     (is_open b \<longleftrightarrow> state_of b = Open) \<and>
     1 \<le> half_open_max_probes (config b) \<and>
     half_open_max_probes (config b) \<le> u64_max \<and>
     unat (half_open_probes b) \<le> half_open_max_probes (config b) \<and>
     (state_of b \<noteq> HalfOpen \<longrightarrow> half_open_probes b = 0)"

lemma unat_succ_probe: "unat (p :: u64) < m \<Longrightarrow> m \<le> u64_max \<Longrightarrow> unat (p + 1) = unat p + 1"
  by (simp add: unat_word_ariths)

lemma with_clock_inv: "half_open_max_probes cfg \<le> u64_max \<Longrightarrow> breaker_inv (with_clock cfg now)"
  by (simp add: breaker_inv_def with_clock_def state_of_def is_open_def window_new_ok)

lemma trip_inv: "breaker_inv b \<Longrightarrow> breaker_inv (trip prev r now b)"
  by (simp add: trip_def Let_def breaker_inv_def is_open_def)

lemma close_inv: "breaker_inv b \<Longrightarrow> breaker_inv (close prev r b)"
  by (simp add: close_def Let_def breaker_inv_def is_open_def window_clear_ok)

lemma probe_inv:
  "breaker_inv b \<Longrightarrow> state_of b = HalfOpen \<Longrightarrow> breaker_inv (snd (try_half_open_probe now b))"
  by (auto simp: try_half_open_probe_def Let_def breaker_inv_def is_open_def unat_succ_probe)

lemma check_open_eq:
  assumes "breaker_inv b" and "state_of b = Open"
  shows "check_open now b =
     (let elapsed = from_millis (elapsed_millis now b - opened_at_millis b)
      in if open_duration (config b) \<le> elapsed
         then try_half_open_probe now
                (observe (On_state_change Open HalfOpen ''open_elapsed'')
                  (b\<lparr>state := as_u8 HalfOpen, is_open_fast := False\<rparr>))
         else (Inl \<lparr>retry_after = open_duration (config b) - elapsed\<rparr>, b))"
  using assms by (simp add: check_open_def cas_state_def breaker_inv_def Let_def)

lemma half_open_inv:
  "breaker_inv b \<Longrightarrow> state_of b = Open \<Longrightarrow>
     breaker_inv (observe e (b\<lparr>state := as_u8 HalfOpen, is_open_fast := False\<rparr>))"
  by (auto simp: breaker_inv_def is_open_def)

lemma state_of_half_open [simp]:
  "state_of (b\<lparr>state := as_u8 HalfOpen, is_open_fast := f\<rparr>) = HalfOpen"
  by (simp add: state_of_def)

lemma check_inv: "breaker_inv b \<Longrightarrow> breaker_inv (snd (check now b))"
  by (auto simp: check_def check_open_eq half_open_inv probe_inv Let_def split: breaker_state.splits)

lemma push_evict_inv:
  "breaker_inv b \<Longrightarrow> breaker_inv (b\<lparr>window := window_evict d now (window_push f now (window b))\<rparr>)"
  by (simp add: breaker_inv_def is_open_def sw.good_push sw.good_evict)

lemma observe_inv [simp]: "breaker_inv (observe e b) = breaker_inv b"
  by (simp add: breaker_inv_def is_open_def)

lemma record_inv: "breaker_inv b \<Longrightarrow> breaker_inv (record_outcome out now b)"
  by (auto simp: record_outcome_def Let_def push_evict_inv trip_inv close_inv
      split: breaker_state.splits)

lemma error_rate_inv: "breaker_inv b \<Longrightarrow> breaker_inv (snd (error_rate now b))"
  by (simp add: error_rate_def Let_def breaker_inv_def is_open_def sw.good_evict)

lemma force_half_open_inv: "breaker_inv b \<Longrightarrow> breaker_inv (force_half_open b)"
  by (auto simp: force_half_open_def Let_def breaker_inv_def is_open_def state_of_def)

text \<open>The calls a client can make, and a run of them at the instants it makes them.\<close>

datatype breaker_call = Check | Record outcome | Error_rate | Force_half_open

fun breaker_step :: "instant \<Rightarrow> breaker_call \<Rightarrow> circuit_breaker \<Rightarrow> circuit_breaker" where
  "breaker_step now Check b = snd (check now b)"
| "breaker_step now (Record out) b = record_outcome out now b"
| "breaker_step now Error_rate b = snd (error_rate now b)"
| "breaker_step now Force_half_open b = force_half_open b"

definition breaker_run :: "(instant \<times> breaker_call) list \<Rightarrow> circuit_breaker \<Rightarrow> circuit_breaker" where
  "breaker_run cs b = fold (\<lambda>(now, c). breaker_step now c) cs b"

lemma breaker_run_simps [simp]:
  "breaker_run [] b = b"
  "breaker_run ((now, c) # cs) b = breaker_run cs (breaker_step now c b)"
  "breaker_run (cs @ ds) b = breaker_run ds (breaker_run cs b)"
  by (simp_all add: breaker_run_def)

lemma breaker_step_inv: "breaker_inv b \<Longrightarrow> breaker_inv (breaker_step now c b)"
  by (cases c) (simp_all add: check_inv record_inv error_rate_inv force_half_open_inv)

lemma breaker_run_inv_from: "breaker_inv b \<Longrightarrow> breaker_inv (breaker_run cs b)"
  by (induction cs arbitrary: b) (auto simp: breaker_step_inv)

text \<open>
  C38: Every reachable breaker satisfies the invariant: whatever sequence of \<open>check\<close>, \<open>record\<close>,
  \<open>error_rate\<close> and \<open>force_half_open\<close> is called, at whatever instants, the state word is valid,
  the lock-free \<open>is_open\<close> mirror equals \<open>state == Open\<close>, the probe counter never exceeds the
  limit (nor wraps) and is zero outside \<open>HalfOpen\<close>, and the window counts its failures exactly.
\<close>

theorem breaker_run_inv:
  assumes "half_open_max_probes cfg \<le> u64_max"
  shows "breaker_inv (breaker_run cs (with_clock cfg t0))"
  using assms by (intro breaker_run_inv_from with_clock_inv)

lemma breaker_run_inv_witness:
  "breaker_inv (breaker_run [(1, Record Failure), (2, Check), (3, Force_half_open), (4, Check)]
     (with_clock config_server 0))"
  by (rule breaker_run_inv) (simp add: config_server_def)

section \<open>Admission\<close>

lemma probe_free_slot:
  "unat (half_open_probes b) < half_open_max_probes (config b) \<Longrightarrow>
     try_half_open_probe now b =
       (Inr (), observe (On_probe_admission True)
          (b\<lparr>half_open_probes := half_open_probes b + 1,
             probe_claimed_at_millis := elapsed_millis now b\<rparr>))"
  by (simp add: try_half_open_probe_def Let_def)

lemma elapsed_millis_update [simp]:
  "elapsed_millis now (observe e b) = elapsed_millis now b"
  "elapsed_millis now (b\<lparr>state := s\<rparr>) = elapsed_millis now b"
  "elapsed_millis now (b\<lparr>half_open_probes := p\<rparr>) = elapsed_millis now b"
  "elapsed_millis now (b\<lparr>is_open_fast := f\<rparr>) = elapsed_millis now b"
  by (simp_all add: elapsed_millis_def)

text \<open>
  While the breaker is open, \<open>check\<close> sheds every request until \<open>open_duration\<close> has passed since
  the trip, advertising exactly the remaining cool-down and changing nothing; the first \<open>check\<close>
  after it is admitted as the one probe in flight, with the breaker half open.
\<close>

theorem check_when_open:
  assumes "breaker_inv b" and "enabled (config b)" and "state_of b = Open"
  shows "let elapsed = from_millis (elapsed_millis now b - opened_at_millis b);
             b' = snd (check now b)
         in if elapsed < open_duration (config b)
            then check now b = (Inl \<lparr>retry_after = open_duration (config b) - elapsed\<rparr>, b)
            else fst (check now b) = Inr () \<and> state_of b' = HalfOpen \<and> half_open_probes b' = 1 \<and>
                 \<not> is_open b'"
  using assms
  by (auto simp: check_def check_open_eq Let_def breaker_inv_def is_open_def probe_free_slot
      split: if_splits)

text \<open>
  In \<open>HalfOpen\<close> a probe is admitted exactly when a slot is free or the last claim is at least
  \<open>open_duration\<close> old (its owner is taken for lost); a rejected caller is told to wait 50 ms, or
  \<open>open_duration\<close> if that is shorter, and the counter is left as it was.
\<close>

theorem check_when_half_open:
  assumes "breaker_inv b" and "enabled (config b)" and "state_of b = HalfOpen"
  shows "let free = unat (half_open_probes b) < half_open_max_probes (config b);
             lease = (open_duration (config b) div 10 ^ 6) mod 2 ^ 64;
             lost = lease \<le> elapsed_millis now b - probe_claimed_at_millis b;
             b' = snd (check now b)
         in state_of b' = HalfOpen \<and>
            (if free \<or> lost
             then fst (check now b) = Inr () \<and>
                  probe_claimed_at_millis b' = elapsed_millis now b \<and>
                  unat (half_open_probes b') = unat (half_open_probes b) + (if free then 1 else 0)
             else fst (check now b) =
                    Inl \<lparr>retry_after = min (50 * 10 ^ 6) (open_duration (config b))\<rparr> \<and>
                  half_open_probes b' = half_open_probes b)"
  using assms
  by (auto simp: check_def try_half_open_probe_def Let_def breaker_inv_def unat_succ_probe
      HALF_OPEN_PROBE_BACKOFF_def from_millis_def)

section \<open>Tripping and closing\<close>

text \<open>
  With the server preset, recording an outcome in \<open>Closed\<close> opens the breaker exactly when the
  samples of the last 60 seconds (of the last 10000 kept), the new one included, are at least 10
  and at least half of them failed.
\<close>

theorem server_trip_iff:
  assumes "breaker_inv b" and "config b = config_server" and "state_of b = Closed"
    and "60 * 10 ^ 9 \<le> now"
  shows "let es = dropWhile (\<lambda>s. fst s < now - 60 * 10 ^ 9)
                    (drop (length (entries (window b)) + 1 - 10000) (entries (window b))
                       @ [(now, out = Failure)])
         in entries (window (record_outcome out now b)) = es \<and>
            state_of (record_outcome out now b) =
              (if 10 \<le> length es \<and> length es \<le> 2 * length (filter snd es) then Open else Closed)"
proof -
  let ?w = "window_evict (from_secs 60) now (window_push (out = Failure) now (window b))"
  have ok: "window_ok (window b)" using assms(1) by (simp add: breaker_inv_def)
  then have okw: "window_ok ?w" by (intro sw.good_evict sw.good_push)
  have ne: "entries ?w \<noteq> []" using ok by (rule sw.evict_push_nonempty)
  have es: "entries ?w = dropWhile (\<lambda>s. fst s < now - 60 * 10 ^ 9)
              (drop (length (entries (window b)) + 1 - 10000) (entries (window b)) @ [(now, out = Failure)])"
    using ok assms(4)
    by (simp add: window_evict_entries window_push_entries MAX_WINDOW_ENTRIES_def from_secs_def)
  have trip: "should_trip config_server ?w \<longleftrightarrow>
      10 \<le> length (entries ?w) \<and> length (entries ?w) \<le> 2 * length (filter snd (entries ?w))"
    using window_error_rate_half_iff [OF okw ne] window_ok_failures [OF okw]
    by (simp add: should_trip_def config_server_def window_sample_count_def)
  have rec: "entries (window (record_outcome out now b)) = entries ?w"
    "state_of (record_outcome out now b) = (if should_trip config_server ?w then Open else Closed)"
    using assms(2,3) by (auto simp: record_outcome_def trip_def Let_def config_server_def)
  show ?thesis
    unfolding Let_def rec trip es [symmetric] by simp
qed

text \<open>
  A probe's outcome decides the half-open state: a failure re-opens the breaker with a fresh
  cool-down, a success closes it with an empty window, and either way all probe slots are freed.
\<close>

theorem probe_outcome:
  assumes "breaker_inv b" and "enabled (config b)" and "state_of b = HalfOpen"
  shows "let b' = record_outcome out now b
         in half_open_probes b' = 0 \<and>
            (if out = Failure
             then state_of b' = Open \<and> opened_at_millis b' = elapsed_millis now b \<and> is_open b' \<and>
                  window b' = window b
             else state_of b' = Closed \<and> \<not> is_open b' \<and> window b' = window_new)"
  using assms
  by (auto simp: record_outcome_def trip_def close_def Let_def is_open_def window_clear_def
      window_new_def)

lemma with_clock_sel [simp]:
  "state_of (with_clock cfg t) = Closed" "baseline (with_clock cfg t) = t"
  "config (with_clock cfg t) = cfg\<lparr>half_open_max_probes := max (half_open_max_probes cfg) 1\<rparr>"
  "half_open_probes (with_clock cfg t) = 0" "window (with_clock cfg t) = window_new"
  by (simp_all add: with_clock_def state_of_def)

lemma trip_sel [simp]:
  "state_of (trip s r now b) = Open" "config (trip s r now b) = config b"
  "baseline (trip s r now b) = baseline b"
  "opened_at_millis (trip s r now b) = elapsed_millis now b"
  by (simp_all add: trip_def Let_def elapsed_millis_def)

lemma force_half_open_sel [simp]:
  "state_of (force_half_open b) = HalfOpen" "config (force_half_open b) = config b"
  by (simp_all add: force_half_open_def Let_def state_of_def)

lemma config_server_sel [simp]:
  "config_server\<lparr>half_open_max_probes := 1\<rparr> = config_server" "enabled config_server"
  "open_duration config_server = 10 * 10 ^ 9" "half_open_max_probes config_server = 1"
  by (simp_all add: config_server_def from_secs_def)

lemma server_breaker_inv: "breaker_inv (with_clock config_server t)"
  by (rule with_clock_inv) simp

lemma check_when_open_witness:
  "let b = trip Closed ''trip'' 4 (with_clock config_server 0)
   in check 5 b = (Inl \<lparr>retry_after = 10 * 10 ^ 9\<rparr>, b) \<and> fst (check (11 * 10 ^ 9) b) = Inr ()"
  using check_when_open [OF trip_inv [OF server_breaker_inv], of Closed "''trip''" 4 0 5]
    check_when_open [OF trip_inv [OF server_breaker_inv], of Closed "''trip''" 4 0 "11 * 10 ^ 9"]
  by (simp add: Let_def elapsed_millis_def from_millis_def)

lemma check_when_half_open_witness:
  "state_of (snd (check 5 (force_half_open (with_clock config_server 0)))) = HalfOpen"
  using check_when_half_open [OF force_half_open_inv [OF server_breaker_inv], of 0 5]
  by (simp add: Let_def)

lemma server_trip_iff_witness:
  "state_of (record_outcome Failure (60 * 10 ^ 9) (with_clock config_server 0)) = Closed"
  using server_trip_iff [OF server_breaker_inv, of 0 "60 * 10 ^ 9" Failure]
  by (simp add: Let_def window_new_def)

lemma probe_outcome_witness:
  "state_of (record_outcome Success 9 (force_half_open (with_clock config_server 0))) = Closed"
  using probe_outcome [OF force_half_open_inv [OF server_breaker_inv], of 0 Success 9]
  by (simp add: Let_def)

section \<open>Recovery\<close>

text \<open>What recovery needs: both stamps are no later than the last instant seen.\<close>

definition stamped_by :: "breaker_config \<Rightarrow> instant \<Rightarrow> nat \<Rightarrow> circuit_breaker \<Rightarrow> bool" where
  "stamped_by cfg t0 m b \<longleftrightarrow>
     config b = cfg \<and> baseline b = t0 \<and> opened_at_millis b \<le> m \<and> probe_claimed_at_millis b \<le> m"

lemma elapsed_millis_le:
  "baseline b = t0 \<Longrightarrow> now \<le> t1 \<Longrightarrow> elapsed_millis now b \<le> (t1 - t0) div 10 ^ 6"
  unfolding elapsed_millis_def
  by (rule order_trans [OF mod_less_eq_dividend]) (simp add: div_le_mono)

lemma stamped_probe:
  assumes "stamped_by cfg t0 ((t1 - t0) div 10 ^ 6) b" and "now \<le> t1"
  shows "stamped_by cfg t0 ((t1 - t0) div 10 ^ 6) (snd (try_half_open_probe now b))"
  using assms elapsed_millis_le [of b t0 now t1]
  by (simp add: stamped_by_def try_half_open_probe_def Let_def)

lemma stamped_probe_half_open:
  assumes "stamped_by cfg t0 ((t1 - t0) div 10 ^ 6) b" and "now \<le> t1"
  shows "stamped_by cfg t0 ((t1 - t0) div 10 ^ 6) (snd (try_half_open_probe now
           (observe e (b\<lparr>state := as_u8 HalfOpen, is_open_fast := False\<rparr>))))"
  using assms by (intro stamped_probe) (simp_all add: stamped_by_def)

lemma stamped_step:
  assumes "breaker_inv b" and "stamped_by cfg t0 ((t1 - t0) div 10 ^ 6) b" and "now \<le> t1"
  shows "stamped_by cfg t0 ((t1 - t0) div 10 ^ 6) (breaker_step now c b)"
proof (cases c)
  case Check
  then show ?thesis
    using assms stamped_probe [OF assms(2,3)] stamped_probe_half_open [OF assms(2,3)]
    by (auto simp: check_def check_open_eq Let_def split: breaker_state.splits)
next
  case (Record out)
  then show ?thesis
    using assms elapsed_millis_le [of b t0 now t1]
    by (auto simp: record_outcome_def Let_def trip_def close_def stamped_by_def elapsed_millis_def
        split: breaker_state.splits)
qed (use assms in \<open>auto simp: error_rate_def force_half_open_def Let_def stamped_by_def\<close>)

lemma stamped_run:
  assumes "breaker_inv b" and "stamped_by cfg t0 ((t1 - t0) div 10 ^ 6) b"
    and "\<forall>(now, c) \<in> set cs. now \<le> t1"
  shows "stamped_by cfg t0 ((t1 - t0) div 10 ^ 6) (breaker_run cs b)"
  using assms
  by (induction cs arbitrary: b) (auto simp: stamped_step [simplified] breaker_step_inv)

lemma cooled_down:
  fixes d m n :: nat
  assumes "m + d div 10 ^ 6 + 1 \<le> n" shows "d \<le> from_millis (n - m)"
proof -
  have "d = d div 10 ^ 6 * 10 ^ 6 + d mod 10 ^ 6" by simp
  also have "\<dots> \<le> d div 10 ^ 6 * 10 ^ 6 + 10 ^ 6"
    by (intro add_left_mono less_imp_le mod_less_divisor) simp
  also have "\<dots> = (d div 10 ^ 6 + 1) * 10 ^ 6" by simp
  also have "\<dots> \<le> (n - m) * 10 ^ 6" using assms by (intro mult_right_mono) simp_all
  finally show ?thesis by (simp add: from_millis_def)
qed

lemma admitted_when_stale:
  assumes "breaker_inv b"
    and "opened_at_millis b + open_duration (config b) div 10 ^ 6 + 1 \<le> elapsed_millis now b"
    and "probe_claimed_at_millis b + open_duration (config b) div 10 ^ 6 \<le> elapsed_millis now b"
  shows "fst (check now b) = Inr ()"
proof -
  have lease: "(open_duration (config b) div 10 ^ 6) mod 2 ^ 64
      \<le> elapsed_millis now b - probe_claimed_at_millis b"
    by (rule order_trans [OF mod_less_eq_dividend]) (use assms(3) in simp)
  show ?thesis
  proof (cases "state_of b")
    case Open
    then show ?thesis
      using assms(1) cooled_down [OF assms(2)]
      by (simp add: check_def check_open_eq probe_free_slot breaker_inv_def)
  next
    case HalfOpen
    then show ?thesis
      using lease by (simp add: check_def try_half_open_probe_def Let_def)
  qed (simp add: check_def)
qed

text \<open>
  A breaker that is left alone recovers: after any calls up to instant \<open>t1\<close> (probes whose
  owner never records its outcome included), a \<open>check\<close> made one cool-down and two milliseconds
  later is admitted, as long as the process runs for less than \<open>2 ^ 64\<close> milliseconds.
\<close>

theorem breaker_recovers:
  assumes "half_open_max_probes cfg \<le> u64_max"
    and calls: "\<forall>(at_t, c) \<in> set cs. at_t \<le> t1"
    and "t0 \<le> t1"
    and late: "t1 + open_duration cfg + 2 * 10 ^ 6 \<le> now"
    and short: "(now - t0) div 10 ^ 6 < 2 ^ 64"
  shows "fst (check now (breaker_run cs (with_clock cfg t0))) = Inr ()"
proof -
  let ?b = "breaker_run cs (with_clock cfg t0)"
  let ?cfg = "cfg\<lparr>half_open_max_probes := max (half_open_max_probes cfg) 1\<rparr>"
  have inv0: "breaker_inv (with_clock cfg t0)" using assms(1) by (rule with_clock_inv)
  have "stamped_by ?cfg t0 ((t1 - t0) div 10 ^ 6) (with_clock cfg t0)"
    by (simp add: stamped_by_def with_clock_def)
  then have st: "stamped_by ?cfg t0 ((t1 - t0) div 10 ^ 6) ?b"
    by (intro stamped_run inv0 calls)
  then have cfgb: "open_duration (config ?b) = open_duration cfg" and base: "baseline ?b = t0"
    by (simp_all add: stamped_by_def)
  have el: "elapsed_millis now ?b = (now - t0) div 10 ^ 6"
    using short by (simp add: elapsed_millis_def base)
  have "(t1 - t0) div 10 ^ 6 + open_duration cfg div 10 ^ 6 + 1
      \<le> ((t1 - t0) + open_duration cfg + 2 * 10 ^ 6) div 10 ^ 6"
    by simp
  also have "\<dots> \<le> (now - t0) div 10 ^ 6"
    using late \<open>t0 \<le> t1\<close> by (intro div_le_mono) simp
  finally have gap: "(t1 - t0) div 10 ^ 6 + open_duration cfg div 10 ^ 6 + 1 \<le> (now - t0) div 10 ^ 6" .
  show ?thesis
    using st gap breaker_run_inv_from [OF inv0]
    by (intro admitted_when_stale) (auto simp: stamped_by_def el cfgb)
qed

lemma breaker_recovers_witness:
  "fst (check (73 * 10 ^ 9) (breaker_run
      [(1, Force_half_open), (2, Check), (3, Check), (4, Record Failure), (11 * 10 ^ 9, Check)]
      (with_clock config_server 0))) = Inr ()"
  by (rule breaker_recovers [where ?t1.0 = "11 * 10 ^ 9"]) (simp_all add: config_server_def from_secs_def)

subsection \<open>What sheds traffic\<close>

text \<open>
  A breaker that stays in use can be opened again and again, so what bounds its shedding is the
  age of what caused it: a recorded outcome that trips a breaker that is not open, or a
  \<open>check\<close> that is admitted as a probe.
\<close>

definition trips :: "instant \<Rightarrow> breaker_call \<Rightarrow> circuit_breaker \<Rightarrow> bool" where
  "trips t c b \<longleftrightarrow>
     c \<in> range Record \<and> state_of b \<noteq> Open \<and> state_of (breaker_step t c b) = Open"

definition admits_probe :: "instant \<Rightarrow> breaker_call \<Rightarrow> circuit_breaker \<Rightarrow> bool" where
  "admits_probe t c b \<longleftrightarrow>
     c = Check \<and> fst (check t b) = Inr () \<and> state_of (breaker_step t c b) = HalfOpen"

lemma open_step_cause:
  assumes "breaker_inv b" and "state_of (breaker_step t c b) = Open"
  shows "trips t c b \<and> opened_at_millis (breaker_step t c b) = elapsed_millis t b \<or>
         state_of b = Open \<and> opened_at_millis (breaker_step t c b) = opened_at_millis b"
  using assms
  by (cases c; cases "state_of b")
    (auto simp: trips_def check_def check_open_eq try_half_open_probe_def record_outcome_def
      error_rate_def force_half_open_def trip_def close_def Let_def elapsed_millis_def
      split: if_splits)

lemma probe_step_cause:
  assumes "breaker_inv b" and "half_open_probes (breaker_step t c b) \<noteq> 0"
  shows "admits_probe t c b \<and> probe_claimed_at_millis (breaker_step t c b) = elapsed_millis t b \<or>
         half_open_probes b \<noteq> 0 \<and> probe_claimed_at_millis (breaker_step t c b) = probe_claimed_at_millis b"
  using assms
  by (cases c; cases "state_of b")
    (auto simp: admits_probe_def check_def check_open_eq try_half_open_probe_def record_outcome_def
      error_rate_def force_half_open_def trip_def close_def Let_def elapsed_millis_def breaker_inv_def
      split: if_splits)

text \<open>\<open>caused P cs b m\<close>: some call of \<open>cs\<close> had \<open>P\<close> when it was made, and \<open>m\<close> is its stamp.\<close>

definition caused ::
  "(instant \<Rightarrow> breaker_call \<Rightarrow> circuit_breaker \<Rightarrow> bool) \<Rightarrow> (instant \<times> breaker_call) list \<Rightarrow>
     circuit_breaker \<Rightarrow> nat \<Rightarrow> bool" where
  "caused P cs b m \<longleftrightarrow>
     (\<exists>pre t c post. cs = pre @ (t, c) # post \<and> P t c (breaker_run pre b) \<and>
        m = (t - baseline b) div 10 ^ 6 mod 2 ^ 64)"

lemma caused_snoc: "P t c (breaker_run cs b) \<Longrightarrow> m = (t - baseline b) div 10 ^ 6 mod 2 ^ 64 \<Longrightarrow>
    caused P (cs @ [(t, c)]) b m"
  unfolding caused_def by blast

lemma caused_earlier: "caused P cs b m \<Longrightarrow> caused P (cs @ ds) b m"
  unfolding caused_def by fastforce

lemma breaker_step_baseline: "breaker_inv b \<Longrightarrow> baseline (breaker_step t c b) = baseline b"
  by (cases c)
    (auto simp: check_def check_open_eq try_half_open_probe_def record_outcome_def error_rate_def
      force_half_open_def trip_def close_def Let_def split: breaker_state.splits)

lemma breaker_step_config: "breaker_inv b \<Longrightarrow> config (breaker_step t c b) = config b"
  by (cases c)
    (auto simp: check_def check_open_eq try_half_open_probe_def record_outcome_def error_rate_def
      force_half_open_def trip_def close_def Let_def split: breaker_state.splits)

lemma breaker_run_keeps:
  "breaker_inv b \<Longrightarrow> baseline (breaker_run cs b) = baseline b \<and> config (breaker_run cs b) = config b"
  by (induction cs arbitrary: b)
    (auto simp: breaker_step_inv breaker_step_baseline breaker_step_config)

lemma stamps_have_causes:
  assumes "breaker_inv b" and "state_of b \<noteq> Open" and "half_open_probes b = 0"
  shows "(state_of (breaker_run cs b) = Open \<longrightarrow>
            caused trips cs b (opened_at_millis (breaker_run cs b))) \<and>
         (half_open_probes (breaker_run cs b) \<noteq> 0 \<longrightarrow>
            caused admits_probe cs b (probe_claimed_at_millis (breaker_run cs b)))"
proof (induction cs rule: rev_induct)
  case (snoc tc cs)
  obtain t c where tc: "tc = (t, c)" by (cases tc)
  let ?b = "breaker_run cs b"
  have inv: "breaker_inv ?b" using assms(1) by (rule breaker_run_inv_from)
  have el: "elapsed_millis t ?b = (t - baseline b) div 10 ^ 6 mod 2 ^ 64"
    using breaker_run_keeps [OF assms(1), of cs] by (simp add: elapsed_millis_def)
  show ?case
    unfolding tc breaker_run_simps
    using snoc.IH open_step_cause [OF inv, of t c] probe_step_cause [OF inv, of t c]
      caused_snoc [of trips t c cs b, OF _ el] caused_snoc [of admits_probe t c cs b, OF _ el]
      caused_earlier [of _ cs b]
    by metis
qed (use assms in simp)

lemma less_from_diff: "x - y < d \<Longrightarrow> x < d + (y :: nat)"
  by arith

lemma stamp_is_recent:
  fixes t now t0 d :: nat
  assumes "t0 \<le> t" and "t \<le> now" and "(now - t0) div 10 ^ 6 < 2 ^ 64"
    and "((now - t0) div 10 ^ 6 - (t - t0) div 10 ^ 6 mod 2 ^ 64) * 10 ^ 6 < d"
  shows "now < t + d + 10 ^ 6"
proof -
  have "(t - t0) div 10 ^ 6 < 2 ^ 64"
    by (rule le_less_trans [OF _ assms(3)]) (use assms(2) in \<open>intro div_le_mono, simp\<close>)
  then have "(now - t0) div 10 ^ 6 * 10 ^ 6 - (t - t0) div 10 ^ 6 * 10 ^ 6 < d"
    using assms(4) by (simp add: diff_mult_distrib)
  then have "(now - t0) div 10 ^ 6 * 10 ^ 6 < d + (t - t0) div 10 ^ 6 * 10 ^ 6"
    by (rule less_from_diff)
  also have "\<dots> \<le> d + (t - t0)" by simp
  finally have "(now - t0) div 10 ^ 6 * 10 ^ 6 < d + (t - t0)" .
  moreover have "now - t0 < (now - t0) div 10 ^ 6 * 10 ^ 6 + 10 ^ 6"
    using div_mult_mod_eq [of "now - t0" "10 ^ 6"] mod_less_divisor [of "10 ^ 6" "now - t0"] by simp
  ultimately show ?thesis using assms(1,2) by simp
qed

lemma shed_cases:
  assumes "breaker_inv b" and "fst (check now b) = Inl e"
  shows "state_of b = Open \<and>
           from_millis (elapsed_millis now b - opened_at_millis b) < open_duration (config b) \<or>
         half_open_probes b \<noteq> 0 \<and>
           from_millis (elapsed_millis now b - probe_claimed_at_millis b) < open_duration (config b)"
proof (cases "state_of b")
  case Closed
  then show ?thesis using assms by (simp add: check_def split: if_splits)
next
  case Open
  then show ?thesis
    using assms by (auto simp: check_def check_open_eq probe_free_slot breaker_inv_def Let_def split: if_splits)
next
  case HalfOpen
  let ?ms = "elapsed_millis now b - probe_claimed_at_millis b"
  have "\<not> unat (half_open_probes b) < half_open_max_probes (config b)"
    and "\<not> open_duration (config b) div 10 ^ 6 mod 2 ^ 64 \<le> ?ms"
    using assms(2) HalfOpen
    by (auto simp: check_def try_half_open_probe_def Let_def split: if_splits)
  then have "half_open_probes b \<noteq> 0" and "?ms < open_duration (config b) div 10 ^ 6"
    using assms(1) mod_less_eq_dividend [of "open_duration (config b) div 10 ^ 6" "2 ^ 64"]
    by (auto simp: breaker_inv_def)
  moreover have "?ms * 10 ^ 6 < open_duration (config b)"
    by (rule less_le_trans [OF mult_less_mono1 [OF calculation(2)] div_times_less_eq_dividend]) simp
  ultimately show ?thesis by (simp add: from_millis_def)
qed

text \<open>
  C39: Shedding has a recent cause. A \<open>check\<close> that is refused at instant \<open>now\<close>, after any
  sequence of calls made since the breaker was built, was preceded by a call less than one
  cool-down and one millisecond ago that opened a breaker which was not open or that was let
  through as a probe. So calls that neither fail nor probe, however many, cannot prolong an
  outage, and a probe whose outcome is never recorded holds its slot no longer than that. The
  process is taken to run for less than \<open>2 ^ 64\<close> milliseconds.
\<close>

theorem shedding_has_recent_cause:
  assumes "half_open_max_probes cfg \<le> u64_max"
    and calls: "\<forall>(t, c) \<in> set cs. t0 \<le> t \<and> t \<le> now"
    and short: "(now - t0) div 10 ^ 6 < 2 ^ 64"
    and shed: "fst (check now (breaker_run cs (with_clock cfg t0))) = Inl e"
  shows "\<exists>pre t c post. cs = pre @ (t, c) # post \<and> now < t + open_duration cfg + 10 ^ 6 \<and>
           (trips t c (breaker_run pre (with_clock cfg t0)) \<or>
            admits_probe t c (breaker_run pre (with_clock cfg t0)))"
proof -
  let ?start = "with_clock cfg t0" let ?b = "breaker_run cs ?start"
  have inv0: "breaker_inv ?start" using assms(1) by (rule with_clock_inv)
  have keeps: "open_duration (config ?b) = open_duration cfg" and base: "baseline ?b = t0"
    using breaker_run_keeps [OF inv0, of cs] by simp_all
  have el: "elapsed_millis now ?b = (now - t0) div 10 ^ 6"
    using short by (simp add: elapsed_millis_def base)
  have recent: "\<exists>pre t c post. cs = pre @ (t, c) # post \<and> now < t + open_duration cfg + 10 ^ 6 \<and>
      P t c (breaker_run pre ?start)"
    if cause: "caused P cs ?start m" and age: "((now - t0) div 10 ^ 6 - m) * 10 ^ 6 < open_duration cfg" for P m
  proof -
    obtain pre t c post where cs: "cs = pre @ (t, c) # post" and P: "P t c (breaker_run pre ?start)"
      and m: "m = (t - t0) div 10 ^ 6 mod 2 ^ 64"
      using cause by (auto simp: caused_def)
    have "now < t + open_duration cfg + 10 ^ 6"
      by (rule stamp_is_recent [OF _ _ short age [unfolded m]]) (use calls cs in auto)
    with cs P show ?thesis by blast
  qed
  show ?thesis
    using shed_cases [OF breaker_run_inv_from [OF inv0] shed]
      stamps_have_causes [OF inv0, of cs] recent
    by (fastforce simp: keeps el from_millis_def)
qed

lemma shedding_has_recent_cause_witness:
  "\<exists>pre t c post. [(2 * 10 ^ 9, Force_half_open), (3 * 10 ^ 9, Record Failure), (5 * 10 ^ 9, Check)] =
       pre @ (t, c) # post \<and> 12 * 10 ^ 9 < t + open_duration config_server + 10 ^ 6 \<and>
       (trips t c (breaker_run pre (with_clock config_server 0)) \<or>
        admits_probe t c (breaker_run pre (with_clock config_server 0)))"
  by (rule shedding_has_recent_cause [where e = "\<lparr>retry_after = 10 ^ 9\<rparr>"])
    (simp_all add: check_def check_open_def record_outcome_def trip_def force_half_open_def observe_def
      with_clock_def state_of_def from_u8_def as_u8.simps Let_def elapsed_millis_def from_millis_def)

section \<open>The observer\<close>

text \<open>
  The transitions the code makes, each with the reason it reports.
\<close>

inductive breaker_edge :: "breaker_state \<Rightarrow> breaker_state \<Rightarrow> rstr \<Rightarrow> bool" where
  edge_trip: "breaker_edge Closed Open ''trip''"
| edge_open_elapsed: "breaker_edge Open HalfOpen ''open_elapsed''"
| edge_probe_failure: "breaker_edge HalfOpen Open ''probe_failure''"
| edge_probe_success: "breaker_edge HalfOpen Closed ''probe_success''"
| edge_force: "s \<noteq> HalfOpen \<Longrightarrow> breaker_edge s HalfOpen ''force_half_open''"

inductive_simps breaker_edge_iff: "breaker_edge s t r"

text \<open>\<open>reported s es t\<close>: the reports in \<open>es\<close> are a path of transitions from \<open>s\<close> to \<open>t\<close>.\<close>

fun reported :: "breaker_state \<Rightarrow> observer_call list \<Rightarrow> breaker_state \<Rightarrow> bool" where
  "reported s [] t \<longleftrightarrow> s = t"
| "reported s (On_state_change old new r # es) t \<longleftrightarrow>
     s = old \<and> breaker_edge old new r \<and> reported new es t"
| "reported s (On_probe_admission a # es) t \<longleftrightarrow> s = HalfOpen \<and> reported s es t"
| "reported s (On_outcome out st # es) t \<longleftrightarrow> s = st \<and> reported s es t"

lemma reported_append: "reported s (es @ fs) t \<longleftrightarrow> (\<exists>u. reported s es u \<and> reported u fs t)"
  by (induction s es t rule: reported.induct) auto

lemma reported_step:
  "breaker_inv b \<Longrightarrow>
     \<exists>es. observer (breaker_step now c b) = observer b @ es \<and>
          reported (state_of b) es (state_of (breaker_step now c b))"
  by (cases c; cases "state_of b")
    (auto simp: check_def check_open_eq try_half_open_probe_def record_outcome_def error_rate_def
      force_half_open_def trip_def close_def Let_def breaker_edge_iff)

lemma reported_run:
  "breaker_inv b \<Longrightarrow> reported s (observer b) (state_of b) \<Longrightarrow>
     reported s (observer (breaker_run cs b)) (state_of (breaker_run cs b))"
proof (induction cs arbitrary: b)
  case (Cons nc cs)
  obtain now c where nc: "nc = (now, c)" by (cases nc)
  have "reported s (observer (breaker_step now c b)) (state_of (breaker_step now c b))"
    using reported_step [OF Cons.prems(1), of now c] Cons.prems(2) by (auto simp: reported_append)
  with Cons.IH [OF breaker_step_inv [OF Cons.prems(1)]] nc show ?case by simp
qed simp

text \<open>
  Telemetry is faithful. The state changes reported to the observer, in order, are a path of
  the breaker's transition diagram from \<open>Closed\<close> to its current state, each with its own reason;
  probe admissions are reported only while half open, and every outcome is reported with the
  state that holds after it.
\<close>

theorem observer_faithful:
  assumes "half_open_max_probes cfg \<le> u64_max"
  shows "reported Closed (observer (breaker_run cs (with_clock cfg t0)))
           (state_of (breaker_run cs (with_clock cfg t0)))"
  by (rule reported_run, rule with_clock_inv, rule assms) (simp add: with_clock_def state_of_def)

lemma observer_faithful_witness:
  "reported Closed (observer (breaker_run [(1, Force_half_open), (2, Record Success)]
     (with_clock config_server 0)))
     (state_of (breaker_run [(1, Force_half_open), (2, Record Success)] (with_clock config_server 0)))"
  by (rule observer_faithful) (simp add: config_server_def)

section \<open>The registry\<close>

lemma registry_get_same:
  "registry_get key now r = (Some cb, r') \<Longrightarrow> registry_get key later r' = (Some cb, r')"
  by (auto simp: registry_get_def Let_def split: if_splits option.splits)

lemma registry_get_other:
  "k \<noteq> key \<Longrightarrow> breakers (snd (registry_get key now r)) k = breakers r k"
  by (auto simp: registry_get_def Let_def split: option.splits)

lemma registry_get_new_inv:
  assumes "\<And>k cb. breakers r k = Some cb \<Longrightarrow> breaker_inv cb"
    and "half_open_max_probes (reg_config r) \<le> u64_max"
    and "registry_get key now r = (Some cb, r')"
  shows "breaker_inv cb"
  using assms by (auto simp: registry_get_def Let_def with_clock_inv split: if_splits option.splits)

end
