(* ===== verification/Conversation.thy ===== *)
theory Conversation
  imports RustStr
begin

section \<open>Conversation items\<close>

text \<open>
  Models the data of \<open>hystersis-sampling-types/src/conversation.rs\<close>: the items of a conversation,
  their constructors, and what is read from them.  Strings are byte lists (\<open>RustStr\<close>), so byte
  lengths and slices are those of the code; an operation that slices off a character boundary
  panics, and its value is then \<open>None\<close>.  Of the structs of the \<open>async_openai\<close> package, which are
  not part of the repository, the records below have the fields the repository reads.
\<close>

datatype content_part = Text_part rstr | Image_part rstr

datatype synthetic_reason =
    CompactionMeta | SystemReminder | ProjectInstructions | AutoContinue | AutoRecovery
  | Interjection | AgentMessage | TaskCompleted | SubagentCompleted | NotificationDrain
  | GoalSummary | GoalClassifierNudge | SchedulerFired | StopHookFeedback
  | WorkingDirectorySwitch | UnknownReason

fun starts_prompt_turn :: "synthetic_reason \<Rightarrow> bool" where
  "starts_prompt_turn AgentMessage = True"
| "starts_prompt_turn UnknownReason = True"
| "starts_prompt_turn TaskCompleted = True"
| "starts_prompt_turn SubagentCompleted = True"
| "starts_prompt_turn NotificationDrain = True"
| "starts_prompt_turn GoalClassifierNudge = True"
| "starts_prompt_turn SchedulerFired = True"
| "starts_prompt_turn _ = False"

datatype prior_turn_interrupt =
  MidTurnAbort | PermissionRejected | PermissionCancelled | UnknownInterrupt

record user_item =
  user_content :: "content_part list"
  synthetic_reason :: "synthetic_reason option"
  cwd_generation :: "u64 option"
  prior_turn_interrupt :: "prior_turn_interrupt option"
  prompt_index :: "nat option"

record tool_call =
  call_id :: rstr
  call_name :: rstr
  arguments :: rstr

datatype reasoning_effort =
  EffortNone | EffortMinimal | EffortLow | EffortMedium | EffortHigh | EffortXhigh | EffortMax

record assistant_item =
  assistant_content :: rstr
  tool_calls :: "tool_call list"
  model_id :: "rstr option"
  model_fingerprint :: "rstr option"
  assistant_effort :: "reasoning_effort option"

record tool_result_item =
  tool_call_id :: rstr
  result_content :: rstr
  images :: "content_part list"

datatype web_search_action =
  Search rstr | OpenPage "rstr option" | Find_in rstr rstr | FindInPage rstr rstr

datatype backend_tool_kind =
    WebSearch rstr web_search_action
  | XSearch rstr rstr rstr
  | CodeInterpreter rstr "rstr option"

record reasoning_item =
  reasoning_id :: rstr
  summary :: "rstr list"
  reasoning_content :: "rstr list option"
  encrypted_content :: "rstr option"

datatype conversation_item =
    System rstr
  | User user_item
  | Assistant assistant_item
  | ToolResult tool_result_item
  | BackendToolCall backend_tool_kind
  | Reasoning reasoning_item

datatype role = RoleSystem | RoleUser | RoleAssistant | RoleTool

section \<open>Constructors\<close>

definition user_text :: "synthetic_reason option \<Rightarrow> u64 option \<Rightarrow> rstr \<Rightarrow> conversation_item" where
  "user_text reason generation content =
     User \<lparr>user_content = [Text_part content], synthetic_reason = reason,
           cwd_generation = generation, prior_turn_interrupt = None, prompt_index = None\<rparr>"

definition system_msg :: "rstr \<Rightarrow> conversation_item" where
  "system_msg content = System content"

definition user_msg :: "rstr \<Rightarrow> conversation_item" where
  "user_msg content = user_text None None content"

definition user_with_parts :: "content_part list \<Rightarrow> conversation_item" where
  "user_with_parts parts =
     User \<lparr>user_content = parts, synthetic_reason = None, cwd_generation = None,
           prior_turn_interrupt = None, prompt_index = None\<rparr>"

definition user_meta :: "rstr \<Rightarrow> conversation_item" where
  "user_meta content = user_text (Some CompactionMeta) None content"

definition system_reminder :: "rstr \<Rightarrow> conversation_item" where
  "system_reminder content = user_text (Some SystemReminder) None content"

definition working_directory_switch_generation :: "conversation_item \<Rightarrow> u64 option" where
  "working_directory_switch_generation item =
     (case item of
        User user \<Rightarrow>
          (if synthetic_reason user = Some WorkingDirectorySwitch then cwd_generation user else None)
      | _ \<Rightarrow> None)"

definition project_instructions :: "rstr \<Rightarrow> conversation_item" where
  "project_instructions content = user_text (Some ProjectInstructions) None content"

definition working_directory_switch :: "rstr \<Rightarrow> u64 \<Rightarrow> conversation_item" where
  "working_directory_switch content generation =
     user_text (Some WorkingDirectorySwitch) (Some generation) content"

definition agent_message :: "rstr \<Rightarrow> conversation_item" where
  "agent_message content = user_text (Some AgentMessage) None content"

definition auto_continue :: "rstr \<Rightarrow> conversation_item" where
  "auto_continue content = user_text (Some AutoContinue) None content"

definition auto_recovery :: "rstr \<Rightarrow> conversation_item" where
  "auto_recovery content = user_text (Some AutoRecovery) None content"

definition interjection :: "rstr \<Rightarrow> conversation_item" where
  "interjection content = user_text (Some Interjection) None content"

definition task_completed :: "rstr \<Rightarrow> conversation_item" where
  "task_completed content = user_text (Some TaskCompleted) None content"

definition subagent_completed :: "rstr \<Rightarrow> conversation_item" where
  "subagent_completed content = user_text (Some SubagentCompleted) None content"

definition notification_drain :: "rstr \<Rightarrow> conversation_item" where
  "notification_drain content = user_text (Some NotificationDrain) None content"

definition goal_summary :: "rstr \<Rightarrow> conversation_item" where
  "goal_summary content = user_text (Some GoalSummary) None content"

definition goal_classifier_nudge :: "rstr \<Rightarrow> conversation_item" where
  "goal_classifier_nudge content = user_text (Some GoalClassifierNudge) None content"

definition scheduler_fired :: "rstr \<Rightarrow> conversation_item" where
  "scheduler_fired content = user_text (Some SchedulerFired) None content"

definition stop_hook_feedback :: "rstr \<Rightarrow> conversation_item" where
  "stop_hook_feedback content = user_text (Some StopHookFeedback) None content"

definition assistant_msg :: "rstr \<Rightarrow> conversation_item" where
  "assistant_msg content =
     Assistant \<lparr>assistant_content = content, tool_calls = [], model_id = None,
                model_fingerprint = None, assistant_effort = None\<rparr>"

definition assistant_with_model :: "rstr \<Rightarrow> rstr \<Rightarrow> conversation_item" where
  "assistant_with_model content model =
     Assistant \<lparr>assistant_content = content, tool_calls = [], model_id = Some model,
                model_fingerprint = None, assistant_effort = None\<rparr>"

definition assistant_tool_calls :: "tool_call list \<Rightarrow> conversation_item" where
  "assistant_tool_calls calls =
     Assistant \<lparr>assistant_content = '''', tool_calls = calls, model_id = None,
                model_fingerprint = None, assistant_effort = None\<rparr>"

definition tool_result :: "rstr \<Rightarrow> rstr \<Rightarrow> conversation_item" where
  "tool_result cid content =
     ToolResult \<lparr>tool_call_id = cid, result_content = content, images = []\<rparr>"

definition tool_result_with_images :: "rstr \<Rightarrow> rstr \<Rightarrow> content_part list \<Rightarrow> conversation_item" where
  "tool_result_with_images cid content imgs =
     ToolResult \<lparr>tool_call_id = cid, result_content = content, images = imgs\<rparr>"

fun role_of :: "conversation_item \<Rightarrow> role" where
  "role_of (System _) = RoleSystem"
| "role_of (User _) = RoleUser"
| "role_of (Assistant _) = RoleAssistant"
| "role_of (ToolResult _) = RoleTool"
| "role_of (BackendToolCall _) = RoleAssistant"
| "role_of (Reasoning _) = RoleAssistant"

definition add_image :: "rstr \<Rightarrow> conversation_item \<Rightarrow> conversation_item" where
  "add_image url item =
     (case item of
        User user \<Rightarrow> User (user\<lparr>user_content := user_content user @ [Image_part url]\<rparr>)
      | _ \<Rightarrow> item)"

section \<open>Text\<close>

text \<open>\<open>truncate_bytes\<close> walks back to a character boundary.\<close>

definition truncate_bytes :: "rstr \<Rightarrow> nat \<Rightarrow> rstr" where
  "truncate_bytes s max_bytes =
     (if length s \<le> max_bytes then s else take (floor_boundary s max_bytes) s)"

definition backend_id :: "backend_tool_kind \<Rightarrow> rstr" where
  "backend_id k = (case k of WebSearch i _ \<Rightarrow> i | XSearch i _ _ \<Rightarrow> i | CodeInterpreter i _ \<Rightarrow> i)"

definition code_preview :: "rstr \<Rightarrow> rstr option" where
  "code_preview c =
     (if 100 < length c then map_option (\<lambda>p. p @ ''...'') (slice_to c 100) else Some c)"

definition text_summary :: "backend_tool_kind \<Rightarrow> rstr option" where
  "text_summary k =
     (case k of
        WebSearch _ action \<Rightarrow>
          (let action_desc =
             (case action of
                Search query \<Rightarrow> ''search: '' @ query
              | OpenPage url \<Rightarrow> ''open: '' @ (case url of Some u \<Rightarrow> u | None \<Rightarrow> ''?'')
              | Find_in pattern url \<Rightarrow> ''find '' @ [CHR 0x22] @ pattern @ [CHR 0x22] @ '' in '' @ url
              | FindInPage pattern url \<Rightarrow> ''find '' @ [CHR 0x22] @ pattern @ [CHR 0x22] @ '' in '' @ url)
           in Some (''[backend web_search] '' @ action_desc))
      | XSearch _ name input \<Rightarrow> Some (''[backend x_search] '' @ name @ ''('' @ input @ '')'')
      | CodeInterpreter _ code \<Rightarrow>
          map_option (\<lambda>p. ''[backend code_interpreter] '' @ p)
            (case code of Some c \<Rightarrow> code_preview c | None \<Rightarrow> Some ''''))"

definition reasoning_item_text :: "reasoning_item \<Rightarrow> rstr" where
  "reasoning_item_text r =
     join nl (summary r @ (case reasoning_content r of Some c \<Rightarrow> c | None \<Rightarrow> []))"

definition synthesized_reasoning_item :: "rstr \<Rightarrow> reasoning_item" where
  "synthesized_reasoning_item t =
     \<lparr>reasoning_id = '''', summary = [t], reasoning_content = None, encrypted_content = None\<rparr>"

fun part_text :: "content_part \<Rightarrow> rstr option" where
  "part_text (Text_part t) = Some t"
| "part_text (Image_part _) = None"

definition text_content :: "conversation_item \<Rightarrow> rstr option" where
  "text_content item =
     (case item of
        System s \<Rightarrow> Some s
      | User u \<Rightarrow> Some (join nl (List.map_filter part_text (user_content u)))
      | Assistant a \<Rightarrow> Some (assistant_content a)
      | ToolResult t \<Rightarrow> Some (result_content t)
      | BackendToolCall b \<Rightarrow> text_summary b
      | Reasoning r \<Rightarrow> Some (reasoning_item_text r))"

text \<open>The seam the shared compaction engine reads items through (\<open>CompactionItem\<close>).\<close>

definition compaction_text :: "conversation_item \<Rightarrow> rstr option option" where
  "compaction_text item =
     map_option (\<lambda>t. if t = '''' then None else Some t) (text_content item)"

definition has_tool_requests :: "conversation_item \<Rightarrow> bool" where
  "has_tool_requests item =
     (case item of Assistant a \<Rightarrow> tool_calls a \<noteq> [] | _ \<Rightarrow> False)"

definition is_compaction_summary :: "conversation_item \<Rightarrow> bool" where
  "is_compaction_summary item = False"

section \<open>Updates\<close>

definition with_model_id :: "rstr \<Rightarrow> conversation_item \<Rightarrow> conversation_item" where
  "with_model_id m item =
     (case item of Assistant a \<Rightarrow> Assistant (a\<lparr>model_id := Some m\<rparr>) | _ \<Rightarrow> item)"

definition set_prior_turn_interrupt ::
  "prior_turn_interrupt \<Rightarrow> conversation_item \<Rightarrow> conversation_item" where
  "set_prior_turn_interrupt i item =
     (case item of User u \<Rightarrow> User (u\<lparr>prior_turn_interrupt := Some i\<rparr>) | _ \<Rightarrow> item)"

definition set_prompt_index :: "nat \<Rightarrow> conversation_item \<Rightarrow> conversation_item" where
  "set_prompt_index n item =
     (case item of User u \<Rightarrow> User (u\<lparr>prompt_index := Some n\<rparr>) | _ \<Rightarrow> item)"

text \<open>
  \<open>strip_images_where\<close> replaces a stripped user image by a placeholder, drops a stripped image
  of a tool result, and returns the stripped urls in order.  The dash of the placeholder is the
  three bytes of U+2014.
\<close>

definition em_dash :: rstr where
  "em_dash = [CHR 0xE2, CHR 0x80, CHR 0x94]"

definition IMAGE_STRIP_PLACEHOLDER :: rstr where
  "IMAGE_STRIP_PLACEHOLDER =
     ''[image removed '' @ em_dash @ '' the server could not process it; '' @
     ''its contents are unavailable. Ask the user to re-attach the image if it is still needed.]''"

fun strip_part :: "(rstr \<Rightarrow> bool) \<Rightarrow> content_part \<Rightarrow> content_part" where
  "strip_part should_strip (Image_part url) =
     (if should_strip url then Text_part IMAGE_STRIP_PLACEHOLDER else Image_part url)"
| "strip_part should_strip (Text_part t) = Text_part t"

fun stripped_url :: "(rstr \<Rightarrow> bool) \<Rightarrow> content_part \<Rightarrow> rstr option" where
  "stripped_url should_strip (Image_part url) = (if should_strip url then Some url else None)"
| "stripped_url should_strip (Text_part t) = None"

fun strip_item :: "(rstr \<Rightarrow> bool) \<Rightarrow> conversation_item \<Rightarrow> conversation_item \<times> rstr list" where
  "strip_item p (User u) =
     (User (u\<lparr>user_content := map (strip_part p) (user_content u)\<rparr>),
      List.map_filter (stripped_url p) (user_content u))"
| "strip_item p (ToolResult t) =
     (ToolResult (t\<lparr>images := filter (\<lambda>part. stripped_url p part = None) (images t)\<rparr>),
      List.map_filter (stripped_url p) (images t))"
| "strip_item p item = (item, [])"

fun strip_images_where ::
  "(rstr \<Rightarrow> bool) \<Rightarrow> conversation_item list \<Rightarrow> conversation_item list \<times> rstr list" where
  "strip_images_where p [] = ([], [])"
| "strip_images_where p (item # items) =
     (let (item', urls) = strip_item p item;
          (items', urls') = strip_images_where p items
      in (item' # items', urls @ urls'))"

definition strip_images_by_url ::
  "rstr list \<Rightarrow> conversation_item list \<Rightarrow> conversation_item list \<times> nat" where
  "strip_images_by_url urls items =
     (let (items', stripped) = strip_images_where (\<lambda>url. url \<in> set urls) items
      in (items', length stripped))"

fun item_parts :: "conversation_item \<Rightarrow> content_part list" where
  "item_parts (User u) = user_content u"
| "item_parts (ToolResult t) = images t"
| "item_parts _ = []"

definition image_urls :: "conversation_item list \<Rightarrow> rstr list" where
  "image_urls items = List.map_filter (stripped_url (\<lambda>_. True)) (concat (map item_parts items))"

section \<open>Facts\<close>

lemma truncate_bytes_ok:
  "length (truncate_bytes s n) \<le> n \<and> (\<exists>t. s = truncate_bytes s n @ t) \<and>
   is_char_boundary s (length (truncate_bytes s n))"
proof (cases "length s \<le> n")
  case True
  then show ?thesis by (simp add: truncate_bytes_def is_char_boundary_def)
next
  case False
  have "s = take (floor_boundary s n) s @ drop (floor_boundary s n) s" by simp
  with False show ?thesis
    using floor_boundary_le [of s n] floor_boundary_ok [of s n]
    unfolding truncate_bytes_def by (simp add: min_absorb2) (metis append_take_drop_id)
qed

text \<open>
  A long code-interpreter call whose code has a multi-byte character across byte 100 has no
  summary: the slice of the first 100 bytes panics.  In every other case there is one.
\<close>

theorem text_summary_panics_iff:
  "text_summary k = None \<longleftrightarrow>
     (\<exists>i c. k = CodeInterpreter i (Some c) \<and> 100 < length c \<and> is_cont (c ! 100))"
  by (auto simp: text_summary_def code_preview_def slice_to_def is_char_boundary_def
      split: backend_tool_kind.splits option.splits)

lemma text_summary_panics_example:
  "text_summary (CodeInterpreter i (Some (replicate 99 CHR ''a'' @ [CHR 0xC3, CHR 0xA9]))) = None"
  by (simp add: text_summary_def code_preview_def slice_to_def is_char_boundary_def nth_append is_cont_def)

lemma strip_images_length: "length (fst (strip_images_where p items)) = length items"
  by (induction p items rule: strip_images_where.induct) (auto split: prod.splits)

lemma strip_item_role: "role_of (fst (strip_item p item)) = role_of item"
  by (cases item) auto

lemma map_filter_append [simp]:
  "List.map_filter f (xs @ ys) = List.map_filter f xs @ List.map_filter f ys"
  by (simp add: List.map_filter_def)

lemma strip_parts_urls:
  "List.map_filter (stripped_url (\<lambda>_. True)) (map (strip_part p) parts) =
     filter (\<lambda>u. \<not> p u) (List.map_filter (stripped_url (\<lambda>_. True)) parts)"
  "List.map_filter (stripped_url (\<lambda>_. True)) (filter (\<lambda>x. stripped_url p x = None) parts) =
     filter (\<lambda>u. \<not> p u) (List.map_filter (stripped_url (\<lambda>_. True)) parts)"
  "List.map_filter (stripped_url p) parts =
     filter p (List.map_filter (stripped_url (\<lambda>_. True)) parts)"
proof (induction parts)
  case (Cons a parts)
  { case 1 then show ?case using Cons by (cases a) (auto simp: List.map_filter_simps) next
    case 2 then show ?case using Cons by (cases a) (auto simp: List.map_filter_simps) next
    case 3 then show ?case using Cons by (cases a) (auto simp: List.map_filter_simps) }
qed (simp_all add: List.map_filter_simps)

lemma strip_item_urls:
  "List.map_filter (stripped_url (\<lambda>_. True)) (item_parts (fst (strip_item p item))) =
     filter (\<lambda>u. \<not> p u) (List.map_filter (stripped_url (\<lambda>_. True)) (item_parts item))"
  by (cases item) (simp_all add: strip_parts_urls(1,2) List.map_filter_simps)

lemma strip_item_removed:
  "snd (strip_item p item) =
     filter p (List.map_filter (stripped_url (\<lambda>_. True)) (item_parts item))"
  by (cases item) (simp_all add: strip_parts_urls(3) [of p] List.map_filter_simps)

lemma strip_where_Cons:
  "fst (strip_images_where p (x # xs)) = fst (strip_item p x) # fst (strip_images_where p xs)"
  "snd (strip_images_where p (x # xs)) = snd (strip_item p x) @ snd (strip_images_where p xs)"
  by (simp_all split: prod.splits)

lemma image_urls_Cons:
  "image_urls (x # xs) = List.map_filter (stripped_url (\<lambda>_. True)) (item_parts x) @ image_urls xs"
  by (simp add: image_urls_def)

lemma strip_where_urls:
  "image_urls (fst (strip_images_where p items)) = filter (\<lambda>u. \<not> p u) (image_urls items) \<and>
   snd (strip_images_where p items) = filter p (image_urls items)"
proof (induction items)
  case Nil
  then show ?case by (simp add: image_urls_def List.map_filter_simps)
next
  case (Cons x xs)
  then show ?case
    by (simp only: strip_where_Cons image_urls_Cons strip_item_urls strip_item_removed filter_append)
qed

lemma strip_where_roles: "map role_of (fst (strip_images_where p items)) = map role_of items"
  by (induction items) (simp_all only: strip_where_Cons list.map strip_item_role, simp)

text \<open>
  Stripping by url removes exactly the listed images: none of them is left in any item, every
  other image stays in its order, the number returned counts each removed occurrence, and no item
  is added, dropped or changed in its role.
\<close>

theorem strip_images_by_url_correct:
  "let (items', n) = strip_images_by_url urls items
   in image_urls items' = filter (\<lambda>u. u \<notin> set urls) (image_urls items) \<and>
      n = length (filter (\<lambda>u. u \<in> set urls) (image_urls items)) \<and>
      map role_of items' = map role_of items"
  using strip_where_urls [of "\<lambda>u. u \<in> set urls" items]
    strip_where_roles [of "\<lambda>u. u \<in> set urls" items]
  by (simp add: strip_images_by_url_def Let_def split_beta)

end
