(* ===== verification/ToolPairing.thy ===== *)
theory ToolPairing
  imports Conversation
begin

section \<open>Pairing of tool calls and tool results\<close>

text \<open>
  Models the repair passes over a conversation: \<open>dedup_duplicate_tool_results\<close>,
  \<open>repair_dangling_tool_calls\<close> and \<open>has_dangling_tool_calls\<close> of
  \<open>hystersis-sampling-types/src/conversation.rs\<close>, and \<open>strip_displaced_tool_results\<close>,
  \<open>repair_history\<close>, \<open>validate_compacted_history\<close> and \<open>sanitize_compacted_history\<close> of
  \<open>hystersis-chat-state/src/compaction_utils.rs\<close>.  A scan by index from an assistant is the
  recursion on the items from there on; its run of results is \<open>result_run\<close> and the scan goes on
  at \<open>after_run\<close>.
\<close>

fun is_tool_result :: "conversation_item \<Rightarrow> bool" where
  "is_tool_result (ToolResult _) = True"
| "is_tool_result _ = False"

fun result_id :: "conversation_item \<Rightarrow> rstr" where
  "result_id (ToolResult t) = tool_call_id t"
| "result_id _ = ''''"

definition result_run :: "conversation_item list \<Rightarrow> conversation_item list" where
  "result_run items = takeWhile is_tool_result items"

definition after_run :: "conversation_item list \<Rightarrow> conversation_item list" where
  "after_run items = dropWhile is_tool_result items"

definition call_ids :: "assistant_item \<Rightarrow> rstr list" where
  "call_ids a = map call_id (tool_calls a)"

lemma run_append [simp]: "result_run items @ after_run items = items"
  by (simp add: result_run_def after_run_def)

lemma after_run_length: "length (after_run items) \<le> length items"
  by (simp add: after_run_def length_dropWhile_le)

lemma run_results: "x \<in> set (result_run items) \<Longrightarrow> is_tool_result x"
  unfolding result_run_def by (rule set_takeWhileD [THEN conjunct2])

subsection \<open>Duplicate results\<close>

text \<open>
  The scan of a run with the map from ids to indices: an id seen again marks the previous index.
\<close>

fun mark_previous :: "nat \<Rightarrow> (rstr \<rightharpoonup> nat) \<Rightarrow> conversation_item list \<Rightarrow> nat list" where
  "mark_previous idx seen [] = []"
| "mark_previous idx seen (x # xs) =
     (let marks = mark_previous (Suc idx) (seen(result_id x \<mapsto> idx)) xs
      in case seen (result_id x) of Some prev \<Rightarrow> prev # marks | None \<Rightarrow> marks)"

fun remove_indices :: "nat list \<Rightarrow> nat \<Rightarrow> 'a list \<Rightarrow> 'a list" where
  "remove_indices is k [] = []"
| "remove_indices is k (x # xs) =
     (if k \<in> set is then remove_indices is (Suc k) xs else x # remove_indices is (Suc k) xs)"

text \<open>The reference: an item is kept when no later item of the run has its id.\<close>

fun keep_last :: "conversation_item list \<Rightarrow> conversation_item list" where
  "keep_last [] = []"
| "keep_last (x # xs) =
     (if result_id x \<in> result_id ` set xs then keep_last xs else x # keep_last xs)"

lemma keep_last_ids: "result_id ` set (keep_last xs) = result_id ` set xs"
  by (induction xs) auto

lemma keep_last_distinct: "distinct (map result_id (keep_last xs))"
  by (induction xs) (auto simp: keep_last_ids)

lemma keep_last_subset: "set (keep_last xs) \<subseteq> set xs"
  by (induction xs) auto

lemma keep_last_id: "distinct (map result_id xs) \<Longrightarrow> keep_last xs = xs"
  by (induction xs) auto

lemma keep_last_length: "length (keep_last xs) = card (result_id ` set xs)"
  by (induction xs) (auto simp: card_insert_if)

lemma mark_previous_below:
  "p < idx \<Longrightarrow> p \<in> set (mark_previous idx seen xs) \<longleftrightarrow>
     (\<exists>x \<in> set xs. seen (result_id x) = Some p)"
proof (induction idx seen xs rule: mark_previous.induct)
  case (2 idx seen x xs)
  have "p \<in> set (mark_previous (Suc idx) (seen(result_id x \<mapsto> idx)) xs) \<longleftrightarrow>
      (\<exists>y \<in> set xs. (seen(result_id x \<mapsto> idx)) (result_id y) = Some p)"
    by (rule 2(1)) (use 2(2) in simp)
  also have "\<dots> \<longleftrightarrow> (\<exists>y \<in> set xs. result_id y \<noteq> result_id x \<and> seen (result_id y) = Some p)"
    using 2(2) by auto
  finally have m: "p \<in> set (mark_previous (Suc idx) (seen(result_id x \<mapsto> idx)) xs) \<longleftrightarrow>
      (\<exists>y \<in> set xs. result_id y \<noteq> result_id x \<and> seen (result_id y) = Some p)" .
  show ?case
    by (cases "seen (result_id x)"; simp add: Let_def m del: fun_upd_apply) (metis option.inject option.distinct(1))+
qed simp

lemma remove_indices_below: "p < k \<Longrightarrow> remove_indices (p # is) k xs = remove_indices is k xs"
  by (induction "is" k xs rule: remove_indices.induct) auto

lemma remove_marked_gen:
  "(\<forall>i p. seen i = Some p \<longrightarrow> p < idx) \<Longrightarrow>
     remove_indices (mark_previous idx seen xs) idx xs = keep_last xs"
proof (induction idx seen xs rule: mark_previous.induct)
  case (2 idx seen x xs)
  let ?m = "mark_previous (Suc idx) (seen(result_id x \<mapsto> idx)) xs"
  have ih: "remove_indices ?m (Suc idx) xs = keep_last xs"
    by (rule 2(1)) (use 2(2) in \<open>auto simp: less_SucI\<close>)
  have "idx \<in> set ?m \<longleftrightarrow> (\<exists>y \<in> set xs. (seen(result_id x \<mapsto> idx)) (result_id y) = Some idx)"
    by (rule mark_previous_below) simp
  also have "\<dots> \<longleftrightarrow> result_id x \<in> result_id ` set xs"
    using 2(2) by (auto intro: rev_image_eqI)
  finally have m: "idx \<in> set ?m \<longleftrightarrow> result_id x \<in> result_id ` set xs" .
  show ?case
  proof (cases "seen (result_id x)")
    case None
    then show ?thesis using m ih by (simp add: Let_def del: fun_upd_apply)
  next
    case (Some p)
    then have "p < idx" using 2(2) by blast
    then show ?thesis
      using Some m ih by (simp add: Let_def remove_indices_below del: fun_upd_apply)
  qed
qed simp

lemma remove_marked:
  "remove_indices (mark_previous 0 (\<lambda>_. None) xs) 0 xs = keep_last xs"
  by (rule remove_marked_gen) simp

lemma mark_previous_length:
  "length (mark_previous idx seen xs) + card (result_id ` set xs - dom seen) = length xs"
proof (induction idx seen xs rule: mark_previous.induct)
  case (2 idx seen x xs)
  let ?R = "result_id ` set xs"
  have ih: "length (mark_previous (Suc idx) (seen(result_id x \<mapsto> idx)) xs)
      + card (?R - insert (result_id x) (dom seen)) = length xs"
    using 2 by (simp del: fun_upd_apply)
  show ?case
  proof (cases "seen (result_id x)")
    case None
    then have "insert (result_id x) ?R - dom seen =
        insert (result_id x) (?R - insert (result_id x) (dom seen))" by auto
    then have "card (insert (result_id x) ?R - dom seen) =
        Suc (card (?R - insert (result_id x) (dom seen)))" by simp
    with None ih show ?thesis by simp
  next
    case (Some p)
    then have "insert (result_id x) ?R - dom seen = ?R - insert (result_id x) (dom seen)" by auto
    with Some ih show ?thesis by simp
  qed
qed simp

lemma mark_previous_count:
  "length (mark_previous 0 (\<lambda>_. None) xs) + length (keep_last xs) = length xs"
  using mark_previous_length [of 0 "\<lambda>_. None" xs] by (simp add: keep_last_length)

lemma remove_marked_shorter:
  assumes "mark_previous 0 (\<lambda>_. None) xs \<noteq> []"
  shows "length (remove_indices (mark_previous 0 (\<lambda>_. None) xs) 0 xs) < length xs"
proof -
  have "0 < length (mark_previous 0 (\<lambda>_. None) xs)" using assms by simp
  then show ?thesis using mark_previous_count [of xs] by (simp only: remove_marked)
qed

lemma dedup_shrinks:
  assumes "mark_previous 0 (\<lambda>_. None) (result_run rest) \<noteq> []"
  shows "length (remove_indices (mark_previous 0 (\<lambda>_. None) (result_run rest)) 0 (result_run rest)) +
           length (after_run rest) < length rest"
  using remove_marked_shorter [OF assms] by (metis add_less_mono1 length_append run_append)

text \<open>
  After a removal the code scans the same assistant again; otherwise it goes on after the run.
\<close>

function dedup_duplicate_tool_results ::
  "conversation_item list \<Rightarrow> conversation_item list \<times> nat" where
  "dedup_duplicate_tool_results [] = ([], 0)"
| "dedup_duplicate_tool_results (item # rest) =
     (case item of
        Assistant a \<Rightarrow>
          (if tool_calls a \<noteq> [] then
             (let to_remove = mark_previous 0 (\<lambda>_. None) (result_run rest)
              in if to_remove \<noteq> []
                 then
                   (let (items, n) = dedup_duplicate_tool_results
                          (item # remove_indices to_remove 0 (result_run rest) @ after_run rest)
                    in (items, length to_remove + n))
                 else
                   (let (items, n) = dedup_duplicate_tool_results (after_run rest)
                    in (item # result_run rest @ items, n)))
           else
             (let (items, n) = dedup_duplicate_tool_results rest in (item # items, n)))
      | _ \<Rightarrow> (let (items, n) = dedup_duplicate_tool_results rest in (item # items, n)))"
  by pat_completeness auto
termination
  by (relation "measure length") (auto simp: le_imp_less_Suc after_run_length dedup_shrinks)

subsection \<open>Dangling calls\<close>

datatype dangling_tool_call_reason = UserCancelled | HarnessHalted rstr

definition synthetic_dangling_result_text :: "rstr \<Rightarrow> dangling_tool_call_reason \<Rightarrow> rstr" where
  "synthetic_dangling_result_text name reason =
     (case reason of
        UserCancelled \<Rightarrow>
          ''Tool execution was cancelled by the user (tool `'' @ name @ ''` was not executed).''
      | HarnessHalted class_tag \<Rightarrow>
          ''Tool execution was halted by the harness ('' @ class_tag @ ''); the tool `'' @ name @
          ''` was not executed.'')"

definition synthetic_results ::
  "dangling_tool_call_reason \<Rightarrow> assistant_item \<Rightarrow> conversation_item list \<Rightarrow> conversation_item list" where
  "synthetic_results reason a run =
     map (\<lambda>tc. tool_result (call_id tc) (synthetic_dangling_result_text (call_name tc) reason))
       (filter (\<lambda>tc. call_id tc \<notin> result_id ` set run) (tool_calls a))"

text \<open>Phase 1: the positions, from index \<open>i\<close> on, where synthetic results are due.\<close>

function dangling_repairs ::
  "dangling_tool_call_reason \<Rightarrow> nat \<Rightarrow> conversation_item list \<Rightarrow> (nat \<times> conversation_item list) list" where
  "dangling_repairs reason i [] = []"
| "dangling_repairs reason i (item # rest) =
     (case item of
        Assistant a \<Rightarrow>
          (if tool_calls a \<noteq> [] then
             (let j = i + 1 + length (result_run rest);
                  synthetic = synthetic_results reason a (result_run rest)
              in (if synthetic \<noteq> [] then [(j, synthetic)] else []) @
                 dangling_repairs reason j (after_run rest))
           else dangling_repairs reason (i + 1) rest)
      | _ \<Rightarrow> dangling_repairs reason (i + 1) rest)"
  by pat_completeness auto
termination
  by (relation "measure (\<lambda>(_, _, items). length items)") (auto simp: le_imp_less_Suc after_run_length)

text \<open>Phase 2: the repairs are spliced in from the last to the first.\<close>

definition repair_dangling_tool_calls ::
  "dangling_tool_call_reason \<Rightarrow> conversation_item list \<Rightarrow> conversation_item list \<times> nat" where
  "repair_dangling_tool_calls reason items =
     (let repairs = dangling_repairs reason 0 items
      in (foldr (\<lambda>(insert_at, synthetic) c. take insert_at c @ synthetic @ drop insert_at c)
            repairs items,
          sum_list (map (\<lambda>(_, s). length s) repairs)))"

function has_dangling_tool_calls :: "conversation_item list \<Rightarrow> bool" where
  "has_dangling_tool_calls [] = False"
| "has_dangling_tool_calls (item # rest) =
     (case item of
        Assistant a \<Rightarrow>
          (if tool_calls a \<noteq> [] then
             (if list_ex (\<lambda>tc. call_id tc \<notin> result_id ` set (result_run rest)) (tool_calls a)
              then True else has_dangling_tool_calls (after_run rest))
           else has_dangling_tool_calls rest)
      | _ \<Rightarrow> has_dangling_tool_calls rest)"
  by pat_completeness auto
termination
  by (relation "measure length") (auto simp: le_imp_less_Suc after_run_length)

subsection \<open>Displaced results and the whole repair\<close>

fun strip_displaced_from ::
  "rstr set \<Rightarrow> conversation_item list \<Rightarrow> conversation_item list \<times> rstr list" where
  "strip_displaced_from run_ids [] = ([], [])"
| "strip_displaced_from run_ids (item # rest) =
     (case item of
        Assistant a \<Rightarrow>
          (let (items, stripped) = strip_displaced_from (set (call_ids a)) rest
           in (item # items, stripped))
      | ToolResult t \<Rightarrow>
          (let (items, stripped) = strip_displaced_from run_ids rest
           in if tool_call_id t \<in> run_ids then (item # items, stripped)
              else (items, tool_call_id t # stripped))
      | _ \<Rightarrow>
          (let (items, stripped) = strip_displaced_from {} rest
           in (item # items, stripped)))"

definition strip_displaced_tool_results ::
  "conversation_item list \<Rightarrow> conversation_item list \<times> rstr list" where
  "strip_displaced_tool_results items = strip_displaced_from {} items"

record history_repair_report =
  duplicates_removed :: nat
  stripped_tool_result_ids :: "rstr list"
  synthetic_results_inserted :: nat

definition changed :: "history_repair_report \<Rightarrow> bool" where
  "changed r \<longleftrightarrow>
     0 < duplicates_removed r \<or> stripped_tool_result_ids r \<noteq> [] \<or> 0 < synthetic_results_inserted r"

definition repair_history ::
  "conversation_item list \<Rightarrow> conversation_item list \<times> history_repair_report" where
  "repair_history items =
     (let (items, removed) = dedup_duplicate_tool_results items;
          (items, stripped) = strip_displaced_tool_results items;
          (items, inserted) = repair_dangling_tool_calls (HarnessHalted ''history_repair'') items
      in (items, \<lparr>duplicates_removed = removed, stripped_tool_result_ids = stripped,
                  synthetic_results_inserted = inserted\<rparr>))"

fun validate_from :: "rstr set \<Rightarrow> conversation_item list \<Rightarrow> rstr list" where
  "validate_from seen_ids [] = []"
| "validate_from seen_ids (item # rest) =
     (case item of
        Assistant a \<Rightarrow> validate_from (seen_ids \<union> set (call_ids a)) rest
      | ToolResult t \<Rightarrow>
          (if tool_call_id t \<notin> seen_ids then tool_call_id t # validate_from seen_ids rest
           else validate_from seen_ids rest)
      | _ \<Rightarrow> validate_from seen_ids rest)"

definition validate_compacted_history :: "conversation_item list \<Rightarrow> rstr list" where
  "validate_compacted_history items = validate_from {} items"

fun sanitize_from ::
  "rstr set \<Rightarrow> conversation_item list \<Rightarrow> conversation_item list \<times> rstr list" where
  "sanitize_from seen_ids [] = ([], [])"
| "sanitize_from seen_ids (item # rest) =
     (case item of
        Assistant a \<Rightarrow>
          (let (items, stripped) = sanitize_from (seen_ids \<union> set (call_ids a)) rest
           in (item # items, stripped))
      | ToolResult t \<Rightarrow>
          (let (items, stripped) = sanitize_from seen_ids rest
           in if tool_call_id t \<in> seen_ids then (item # items, stripped)
              else (items, tool_call_id t # stripped))
      | _ \<Rightarrow> (let (items, stripped) = sanitize_from seen_ids rest in (item # items, stripped)))"

definition sanitize_compacted_history ::
  "conversation_item list \<Rightarrow> conversation_item list \<times> rstr list" where
  "sanitize_compacted_history items = sanitize_from {} items"

section \<open>Conversations as blocks\<close>

text \<open>
  A conversation is an optional run of ownerless results followed by blocks: an item that is not
  a tool result, and the run of results after it.  Each pass works block by block.
\<close>

definition starts_block :: "conversation_item list \<Rightarrow> bool" where
  "starts_block items \<longleftrightarrow> (case items of [] \<Rightarrow> True | x # _ \<Rightarrow> \<not> is_tool_result x)"

abbreviation all_results :: "conversation_item list \<Rightarrow> bool" where
  "all_results run \<equiv> \<forall>y \<in> set run. is_tool_result y"

definition owner_ids :: "conversation_item \<Rightarrow> rstr set" where
  "owner_ids x = (case x of Assistant a \<Rightarrow> set (call_ids a) | _ \<Rightarrow> {})"

lemma starts_block_simps [simp]:
  "starts_block []" "starts_block (x # xs) \<longleftrightarrow> \<not> is_tool_result x"
  by (simp_all add: starts_block_def)

lemma run_of_block [simp]:
  assumes "all_results run" and "starts_block rest"
  shows "result_run (run @ rest) = run" and "after_run (run @ rest) = rest"
proof -
  have "takeWhile is_tool_result rest = []" "dropWhile is_tool_result rest = rest"
    using assms(2) by (cases rest; simp)+
  with assms(1) show "result_run (run @ rest) = run" "after_run (run @ rest) = rest"
    by (simp_all add: result_run_def after_run_def takeWhile_append2 dropWhile_append2)
qed

lemma starts_block_after_run [simp]: "starts_block (after_run items)"
  by (induction items) (auto simp: after_run_def)

lemma blocks_induct [consumes 1, case_names Nil Block]:
  assumes "starts_block items"
    and "P []"
    and "\<And>x run rest. \<not> is_tool_result x \<Longrightarrow> all_results run \<Longrightarrow> starts_block rest \<Longrightarrow> P rest \<Longrightarrow>
           P (x # run @ rest)"
  shows "P items"
  using assms(1)
proof (induction "length items" arbitrary: items rule: less_induct)
  case less
  show ?case
  proof (cases items)
    case Nil
    then show ?thesis using assms(2) by simp
  next
    case (Cons x xs)
    have "P (x # result_run xs @ after_run xs)"
    proof (rule assms(3))
      show "\<not> is_tool_result x" using less(2) Cons by simp
      show "all_results (result_run xs)" using run_results by blast
      show "P (after_run xs)"
        using less(1) [of "after_run xs"] after_run_length [of xs] Cons by simp
    qed simp
    then show ?thesis using Cons by simp
  qed
qed

lemma results_prefix:
  obtains run rest where "items = run @ rest" and "all_results run" and "starts_block rest"
  using run_append [of items] run_results starts_block_after_run by metis

subsection \<open>The passes on a block\<close>

lemma dedup_over_results:
  "all_results run \<Longrightarrow>
     dedup_duplicate_tool_results (run @ rest) =
       (run @ fst (dedup_duplicate_tool_results rest), snd (dedup_duplicate_tool_results rest))"
proof (induction run)
  case (Cons x run)
  then show ?case by (cases x) (auto simp: split_beta)
qed simp

lemma remove_no_indices: "remove_indices [] k xs = xs"
  by (induction "[] :: nat list" k xs rule: remove_indices.induct) auto

lemma mark_previous_keep_last: "mark_previous 0 (\<lambda>_. None) (keep_last run) = []"
  using mark_previous_count [of "keep_last run"] keep_last_id [OF keep_last_distinct [of run]]
  by simp

lemma dedup_block_distinct:
  assumes "all_results run" and "starts_block rest" and "tool_calls a \<noteq> []"
    and "mark_previous 0 (\<lambda>_. None) run = []"
  shows "dedup_duplicate_tool_results (Assistant a # run @ rest) =
    (Assistant a # run @ fst (dedup_duplicate_tool_results rest),
     snd (dedup_duplicate_tool_results rest))"
  using assms by (simp add: split_beta)

lemma dedup_block:
  assumes "all_results run" and "starts_block rest" and "\<not> is_tool_result x"
  shows "dedup_duplicate_tool_results (x # run @ rest) =
    (if owner_ids x = {}
     then (x # run @ fst (dedup_duplicate_tool_results rest), snd (dedup_duplicate_tool_results rest))
     else (x # keep_last run @ fst (dedup_duplicate_tool_results rest),
           length run - length (keep_last run) + snd (dedup_duplicate_tool_results rest)))"
proof (cases "\<exists>a. x = Assistant a \<and> tool_calls a \<noteq> []")
  case False
  then have "owner_ids x = {}"
    by (cases x) (auto simp: owner_ids_def call_ids_def)
  moreover have "dedup_duplicate_tool_results (x # run @ rest) =
      (x # fst (dedup_duplicate_tool_results (run @ rest)), snd (dedup_duplicate_tool_results (run @ rest)))"
    using False assms(3) by (cases x) (simp_all add: split_beta)
  ultimately show ?thesis by (simp add: dedup_over_results [OF assms(1)])
next
  case True
  then obtain a where a: "x = Assistant a" "tool_calls a \<noteq> []" by blast
  let ?m = "mark_previous 0 (\<lambda>_. None) run"
  have own: "owner_ids x \<noteq> {}" using a by (simp add: owner_ids_def call_ids_def)
  have len: "length ?m = length run - length (keep_last run)"
    using mark_previous_count [of run] by linarith
  show ?thesis
  proof (cases "?m = []")
    case True
    then have "keep_last run = run" using remove_marked [of run] by (simp add: remove_no_indices)
    then show ?thesis using own a True dedup_block_distinct [OF assms(1,2) a(2) True] by simp
  next
    case False
    have res: "all_results (keep_last run)" using assms(1) keep_last_subset [of run] by blast
    show ?thesis
      using own a False assms(1,2)
        dedup_block_distinct [OF res assms(2) a(2) mark_previous_keep_last] len
      by (simp add: remove_marked)
  qed
qed

lemma dedup_starts: "starts_block rest \<Longrightarrow> starts_block (fst (dedup_duplicate_tool_results rest))"
  by (induction rule: blocks_induct) (simp_all add: dedup_block del: dedup_duplicate_tool_results.simps(2))

declare dedup_duplicate_tool_results.simps(2) [simp del] dangling_repairs.simps(2) [simp del]
  has_dangling_tool_calls.simps(2) [simp del]

lemma strip_over_results:
  "all_results run \<Longrightarrow>
     strip_displaced_from S (run @ rest) =
       (filter (\<lambda>t. result_id t \<in> S) run @ fst (strip_displaced_from S rest),
        map result_id (filter (\<lambda>t. result_id t \<notin> S) run) @ snd (strip_displaced_from S rest))"
proof (induction run)
  case (Cons x run)
  then show ?case by (cases x) (auto simp: split_beta)
qed simp

lemma strip_at_block: "starts_block rest \<Longrightarrow> strip_displaced_from S rest = strip_displaced_from {} rest"
  by (cases rest; cases "hd rest") auto

lemma strip_block:
  assumes "all_results run" and "starts_block rest" and "\<not> is_tool_result x"
  shows "strip_displaced_from S (x # run @ rest) =
    (x # filter (\<lambda>t. result_id t \<in> owner_ids x) run @ fst (strip_displaced_from {} rest),
     map result_id (filter (\<lambda>t. result_id t \<notin> owner_ids x) run) @ snd (strip_displaced_from {} rest))"
proof -
  have "strip_displaced_from S (x # run @ rest) =
      (x # fst (strip_displaced_from (owner_ids x) (run @ rest)),
       snd (strip_displaced_from (owner_ids x) (run @ rest)))"
    using assms(3) by (cases x) (simp_all add: split_beta owner_ids_def)
  then show ?thesis
    by (simp add: strip_over_results [OF assms(1)] strip_at_block [OF assms(2), of "owner_ids x"])
qed

lemma strip_starts: "starts_block rest \<Longrightarrow> starts_block (fst (strip_displaced_from S rest))"
  by (induction rule: blocks_induct) (simp_all add: strip_block del: strip_displaced_from.simps(2))

text \<open>The reference for the dangling pass: each run is completed where it stands.\<close>

function complete_runs ::
  "dangling_tool_call_reason \<Rightarrow> conversation_item list \<Rightarrow> conversation_item list" where
  "complete_runs reason [] = []"
| "complete_runs reason (item # rest) =
     (case item of
        Assistant a \<Rightarrow>
          (if tool_calls a \<noteq> []
           then item # result_run rest @ synthetic_results reason a (result_run rest) @
                complete_runs reason (after_run rest)
           else item # complete_runs reason rest)
      | _ \<Rightarrow> item # complete_runs reason rest)"
  by pat_completeness auto
termination
  by (relation "measure (\<lambda>(_, items). length items)") (auto simp: le_imp_less_Suc after_run_length)

declare complete_runs.simps(2) [simp del]

lemma splice_repairs:
  "foldr (\<lambda>(insert_at, synthetic) c. take insert_at c @ synthetic @ drop insert_at c)
     (dangling_repairs reason (length pre) items) (pre @ items) = pre @ complete_runs reason items"
proof (induction "length items" arbitrary: pre items rule: less_induct)
  case less
  show ?case
  proof (cases items)
    case (Cons x rest)
    have step: "foldr (\<lambda>(insert_at, synthetic) c. take insert_at c @ synthetic @ drop insert_at c)
        (dangling_repairs reason (Suc (length pre)) rest) (pre @ x # rest) =
        pre @ x # complete_runs reason rest"
      using less [of rest "pre @ [x]"] Cons by simp
    show ?thesis
    proof (cases "\<exists>a. x = Assistant a \<and> tool_calls a \<noteq> []")
      case True
      then obtain a where a: "x = Assistant a" "tool_calls a \<noteq> []" by blast
      have "foldr (\<lambda>(insert_at, synthetic) c. take insert_at c @ synthetic @ drop insert_at c)
          (dangling_repairs reason (Suc (length pre + length (result_run rest))) (after_run rest))
          (pre @ x # rest) =
        pre @ x # result_run rest @ complete_runs reason (after_run rest)"
        using less [of "after_run rest" "pre @ x # result_run rest"] Cons after_run_length [of rest]
        by simp
      then show ?thesis
        using Cons a by (simp add: dangling_repairs.simps(2) complete_runs.simps(2) Let_def)
    next
      case False
      then show ?thesis
        using step Cons
        by (cases x) (auto simp: dangling_repairs.simps(2) complete_runs.simps(2))
    qed
  qed simp
qed

lemma repair_dangling_eq: "fst (repair_dangling_tool_calls reason items) = complete_runs reason items"
  using splice_repairs [of reason "[]" items] by (simp add: repair_dangling_tool_calls_def)

definition missing_results ::
  "dangling_tool_call_reason \<Rightarrow> conversation_item \<Rightarrow> conversation_item list \<Rightarrow> conversation_item list" where
  "missing_results reason x run =
     (case x of Assistant a \<Rightarrow> synthetic_results reason a run | _ \<Rightarrow> [])"

lemma complete_over_results:
  "all_results run \<Longrightarrow> complete_runs reason (run @ rest) = run @ complete_runs reason rest"
proof (induction run)
  case (Cons x run)
  then show ?case by (cases x) (auto simp: complete_runs.simps(2))
qed simp

lemma complete_block:
  assumes "all_results run" and "starts_block rest" and "\<not> is_tool_result x"
  shows "complete_runs reason (x # run @ rest) =
           x # run @ missing_results reason x run @ complete_runs reason rest"
  using assms
  by (cases x)
    (auto simp: complete_runs.simps(2) missing_results_def complete_over_results synthetic_results_def)

lemma missing_results_all: "all_results (missing_results reason x run)"
  by (cases x) (auto simp: missing_results_def synthetic_results_def tool_result_def)

lemma missing_results_ids:
  "result_id ` set (missing_results reason x run) = owner_ids x - result_id ` set run"
  by (cases x)
    (force simp: missing_results_def synthetic_results_def tool_result_def owner_ids_def call_ids_def)+

lemma complete_starts: "starts_block rest \<Longrightarrow> starts_block (complete_runs reason rest)"
  by (induction rule: blocks_induct) (simp_all add: complete_block)

declare strip_displaced_from.simps(2) [simp del]

lemmas pass_starts = dedup_starts strip_starts complete_starts

subsection \<open>What a provider accepts\<close>

text \<open>
  A conversation is well paired when it is a sequence of blocks in which the results after an
  item answer exactly the calls that item makes, each of them once.
\<close>

inductive well_paired :: "conversation_item list \<Rightarrow> bool" where
  paired_nil: "well_paired []"
| paired_block:
    "\<not> is_tool_result x \<Longrightarrow> all_results run \<Longrightarrow> distinct (map result_id run) \<Longrightarrow>
     result_id ` set run = owner_ids x \<Longrightarrow> well_paired rest \<Longrightarrow> well_paired (x # run @ rest)"

definition distinct_calls :: "conversation_item list \<Rightarrow> bool" where
  "distinct_calls items \<longleftrightarrow>
     (\<forall>item \<in> set items. case item of Assistant a \<Rightarrow> distinct (call_ids a) | _ \<Rightarrow> True)"

definition repaired :: "conversation_item list \<Rightarrow> conversation_item list" where
  "repaired items = complete_runs (HarnessHalted ''history_repair'')
     (fst (strip_displaced_from {} (fst (dedup_duplicate_tool_results items))))"

lemma repair_history_items: "fst (repair_history items) = repaired items"
  by (simp add: repair_history_def repaired_def strip_displaced_tool_results_def
      repair_dangling_eq split_beta Let_def)

lemma repair_history_report:
  "snd (repair_history items) =
     \<lparr>duplicates_removed = snd (dedup_duplicate_tool_results items),
      stripped_tool_result_ids = snd (strip_displaced_from {} (fst (dedup_duplicate_tool_results items))),
      synthetic_results_inserted = snd (repair_dangling_tool_calls (HarnessHalted ''history_repair'')
        (fst (strip_displaced_from {} (fst (dedup_duplicate_tool_results items)))))\<rparr>"
  by (simp add: repair_history_def strip_displaced_tool_results_def split_beta Let_def)

lemma repaired_Nil [simp]: "repaired [] = []"
  by (simp add: repaired_def)

lemma repaired_over_results: "all_results run \<Longrightarrow> repaired (run @ rest) = repaired rest"
  by (simp add: repaired_def dedup_over_results strip_over_results)

lemma repaired_block:
  fixes x run
  defines "kept \<equiv> filter (\<lambda>t. result_id t \<in> owner_ids x) (keep_last run)"
  assumes "all_results run" and "starts_block rest" and "\<not> is_tool_result x"
  shows "repaired (x # run @ rest) =
    x # kept @ missing_results (HarnessHalted ''history_repair'') x kept @ repaired rest"
proof -
  have res: "all_results (keep_last run)" using assms(2) keep_last_subset [of run] by blast
  then have resk: "all_results kept" by (simp add: kept_def)
  let ?d = "fst (dedup_duplicate_tool_results rest)"
  have "fst (strip_displaced_from {} (fst (dedup_duplicate_tool_results (x # run @ rest)))) =
      x # kept @ fst (strip_displaced_from {} ?d)"
    using assms res by (auto simp: dedup_block strip_block dedup_starts kept_def)
  then show ?thesis
    using assms(3,4) resk by (simp add: repaired_def complete_block pass_starts)
qed

lemma missing_results_distinct:
  assumes "case x of Assistant a \<Rightarrow> distinct (call_ids a) | _ \<Rightarrow> True"
  shows "distinct (map result_id (missing_results reason x run))"
proof (cases x)
  case (Assistant a)
  have "map result_id (missing_results reason x run) =
      filter (\<lambda>i. i \<notin> result_id ` set run) (call_ids a)"
    by (simp add: Assistant missing_results_def synthetic_results_def call_ids_def tool_result_def
        comp_def filter_map)
  then show ?thesis using assms Assistant by simp
qed (simp_all add: missing_results_def)

lemma repaired_paired_blocks:
  "starts_block items \<Longrightarrow> distinct_calls items \<Longrightarrow> well_paired (repaired items)"
proof (induction rule: blocks_induct)
  case Nil
  then show ?case by (simp add: repaired_def paired_nil)
next
  case (Block x run rest)
  let ?kept = "filter (\<lambda>t. result_id t \<in> owner_ids x) (keep_last run)"
  let ?miss = "missing_results (HarnessHalted ''history_repair'') x ?kept"
  have "well_paired (x # (?kept @ ?miss) @ repaired rest)"
  proof (rule paired_block)
    show "all_results (?kept @ ?miss)"
      using Block(2) keep_last_subset [of run] missing_results_all by fastforce
    have d: "distinct (map result_id ?kept)"
      using keep_last_distinct [of run] by (simp add: distinct_map inj_on_def)
    have "distinct (map result_id ?miss)"
      using Block(5) by (intro missing_results_distinct) (simp add: distinct_calls_def)
    with d show "distinct (map result_id (?kept @ ?miss))"
      using missing_results_ids [of "HarnessHalted ''history_repair''" x ?kept] by auto
    show "result_id ` set (?kept @ ?miss) = owner_ids x"
      unfolding set_append image_Un missing_results_ids by auto
    show "well_paired (repaired rest)"
      using Block by (simp add: distinct_calls_def)
  qed (use Block in simp)
  then show ?case by (simp add: repaired_block [OF Block(2,3,1)])
qed

lemma repaired_well_paired: "distinct_calls items \<Longrightarrow> well_paired (repaired items)"
proof -
  assume d: "distinct_calls items"
  obtain run rest where split: "items = run @ rest" "all_results run" "starts_block rest"
    by (rule results_prefix)
  with d have "distinct_calls rest" by (auto simp: distinct_calls_def)
  with split show ?thesis by (simp add: repaired_over_results repaired_paired_blocks)
qed

lemma dedup_nonresults:
  "starts_block items \<Longrightarrow>
     filter (\<lambda>x. \<not> is_tool_result x) (repaired items) = filter (\<lambda>x. \<not> is_tool_result x) items"
proof (induction rule: blocks_induct)
  case (Block x run rest)
  have none: "filter (\<lambda>x. \<not> is_tool_result x) xs = []" if "all_results xs" for xs
    using that by simp
  have kept: "all_results (filter (\<lambda>t. result_id t \<in> owner_ids x) (keep_last run))"
    using Block(2) keep_last_subset [of run] by auto
  show ?case
    using Block by (simp only: repaired_block [OF Block(2,3,1)] filter.simps filter_append none [OF kept]
        none [OF missing_results_all] none [OF Block(2)] append_Nil)
qed (simp add: repaired_def)

text \<open>
  C3: \<open>repair_history\<close> makes any conversation acceptable to a provider: if no assistant message
  uses a call id twice, then in the repaired conversation the results after each message answer
  exactly that message's calls, each once, and no result stands anywhere else. No item other than
  a tool result is added, dropped or moved.
\<close>

theorem repair_history_well_paired:
  assumes "distinct_calls items"
  shows "well_paired (fst (repair_history items)) \<and>
         filter (\<lambda>x. \<not> is_tool_result x) (fst (repair_history items)) =
           filter (\<lambda>x. \<not> is_tool_result x) items"
proof -
  obtain run rest where split: "items = run @ rest" "all_results run" "starts_block rest"
    by (rule results_prefix)
  then have "filter (\<lambda>x. \<not> is_tool_result x) (repaired items) = filter (\<lambda>x. \<not> is_tool_result x) items"
    by (simp add: repaired_over_results dedup_nonresults)
  then show ?thesis using assms by (simp add: repair_history_items repaired_well_paired)
qed

lemma well_paired_starts: "well_paired items \<Longrightarrow> starts_block items"
  by (erule well_paired.cases) simp_all

lemma repaired_noop: "well_paired items \<Longrightarrow> repaired items = items"
proof (induction rule: well_paired.induct)
  case (paired_block x run rest)
  have F: "filter (\<lambda>t. result_id t \<in> owner_ids x) (keep_last run) = run"
    using paired_block(4) by (simp add: keep_last_id [OF paired_block(3)] filter_id_conv flip: paired_block(4))
  have "missing_results (HarnessHalted ''history_repair'') x run = []"
    using missing_results_ids [of "HarnessHalted ''history_repair''" x run] paired_block(4)
    by simp
  with paired_block F show ?case
    by (simp add: repaired_block [OF paired_block(2) well_paired_starts [OF paired_block(5)] paired_block(1)])
qed (simp add: repaired_def)

text \<open>
  Repairing is idempotent on conversations whose messages do not repeat a call id: a second
  repair changes nothing.
\<close>

theorem repair_history_idempotent:
  assumes "distinct_calls items"
  shows "fst (repair_history (fst (repair_history items))) = fst (repair_history items)"
  using assms by (simp add: repair_history_items repaired_noop repaired_well_paired)

definition dup_calls :: conversation_item where
  "dup_calls = assistant_tool_calls
     [\<lparr>call_id = ''c'', call_name = ''f'', arguments = ''{}''\<rparr>,
      \<lparr>call_id = ''c'', call_name = ''g'', arguments = ''{}''\<rparr>]"

lemma repair_history_well_paired_witness:
  "well_paired (fst (repair_history [tool_result ''x'' ''late'', user_msg ''hi'', assistant_tool_calls
     [\<lparr>call_id = ''c'', call_name = ''f'', arguments = ''{}''\<rparr>], user_msg ''next'']))"
  by (rule repair_history_well_paired [THEN conjunct1])
    (simp add: distinct_calls_def tool_result_def assistant_tool_calls_def user_msg_def user_text_def call_ids_def)

lemma repair_history_idempotent_witness:
  "fst (repair_history (fst (repair_history [tool_result ''x'' ''late'', user_msg ''hi'']))) =
     fst (repair_history [tool_result ''x'' ''late'', user_msg ''hi''])"
  by (rule repair_history_idempotent)
    (simp add: distinct_calls_def tool_result_def user_msg_def user_text_def)

text \<open>
  With a repeated call id it is not: the first repair inserts two synthetic results with that id
  and the second removes one of them.
\<close>

lemma repair_history_not_idempotent:
  "fst (repair_history (fst (repair_history [dup_calls]))) \<noteq> fst (repair_history [dup_calls])"
proof -
  let ?s = "synthetic_results (HarnessHalted ''history_repair'')"
  obtain a where a: "dup_calls = Assistant a" "call_ids a = [''c'', ''c'']"
    by (simp add: dup_calls_def assistant_tool_calls_def call_ids_def)
  have once: "repaired [dup_calls] = dup_calls # ?s a []"
    using repaired_block [of "[]" "[]" "Assistant a"] by (simp add: missing_results_def a(1))
  have ids: "map result_id (?s a []) = [''c'', ''c'']"
    using a(2) by (simp add: synthetic_results_def call_ids_def tool_result_def comp_def)
  have all: "all_results (?s a [])" by (auto simp: synthetic_results_def tool_result_def)
  obtain u v where uv: "?s a [] = [u, v]" "result_id u = ''c''" "result_id v = ''c''"
    using ids by auto
  have "set (map call_id (tool_calls a)) = {''c''}" using a(2) by (simp add: call_ids_def)
  then have "?s a [v] = []" using uv(3) by (auto simp: synthetic_results_def filter_empty_conv)
  then have "repaired (Assistant a # [u, v] @ []) = [Assistant a, v]"
    using repaired_block [of "[u, v]" "[]" "Assistant a"] all uv a(2)
    by (simp add: owner_ids_def missing_results_def)
  then show ?thesis by (simp add: repair_history_items a(1) once [unfolded a(1)] uv(1))
qed

subsection \<open>The report\<close>

lemma dedup_length:
  "length (fst (dedup_duplicate_tool_results items)) + snd (dedup_duplicate_tool_results items) = length items"
proof -
  have blocks: "starts_block xs \<Longrightarrow>
      length (fst (dedup_duplicate_tool_results xs)) + snd (dedup_duplicate_tool_results xs) = length xs" for xs
  proof (induction rule: blocks_induct)
    case (Block x run rest)
    then show ?case using mark_previous_count [of run] by (simp add: dedup_block)
  qed simp
  obtain run rest where "items = run @ rest" "all_results run" "starts_block rest"
    by (rule results_prefix)
  then show ?thesis using blocks by (simp add: dedup_over_results)
qed

lemma dedup_zero:
  "snd (dedup_duplicate_tool_results items) = 0 \<Longrightarrow> fst (dedup_duplicate_tool_results items) = items"
proof -
  have keep: "keep_last run = run" if "length run \<le> length (keep_last run)" for run
  proof -
    have "length (mark_previous 0 (\<lambda>_. None) run) = 0"
      using that mark_previous_count [of run] by linarith
    then show ?thesis using remove_marked [of run] by (simp add: remove_no_indices)
  qed
  have blocks: "starts_block xs \<Longrightarrow> snd (dedup_duplicate_tool_results xs) = 0 \<Longrightarrow>
      fst (dedup_duplicate_tool_results xs) = xs" for xs
  proof (induction rule: blocks_induct)
    case (Block x run rest)
    then show ?case using keep [of run] by (auto simp: dedup_block split: if_splits)
  qed simp
  obtain run rest where "items = run @ rest" "all_results run" "starts_block rest"
    by (rule results_prefix)
  then show "snd (dedup_duplicate_tool_results items) = 0 \<Longrightarrow> ?thesis"
    using blocks by (simp add: dedup_over_results)
qed

lemma strip_none: "snd (strip_displaced_from S items) = [] \<Longrightarrow> fst (strip_displaced_from S items) = items"
proof (induction S items rule: strip_displaced_from.induct)
  case (2 run_ids item rest)
  then show ?case
    by (cases item) (auto simp: strip_displaced_from.simps(2) split_beta split: if_splits)
qed simp

lemma dangling_repairs_nonempty: "(j, s) \<in> set (dangling_repairs reason i items) \<Longrightarrow> s \<noteq> []"
proof (induction reason i items rule: dangling_repairs.induct)
  case (2 reason i item rest)
  then show ?case
    by (cases item) (auto simp: dangling_repairs.simps(2) Let_def split: if_splits)
qed simp

lemma repair_dangling_zero:
  assumes "snd (repair_dangling_tool_calls reason items) = 0"
  shows "fst (repair_dangling_tool_calls reason items) = items"
proof -
  have "dangling_repairs reason 0 items = []"
    using assms dangling_repairs_nonempty [of _ _ reason 0 items]
    by (cases "dangling_repairs reason 0 items")
      (fastforce simp: repair_dangling_tool_calls_def Let_def)+
  then show ?thesis by (simp add: repair_dangling_tool_calls_def)
qed

lemma splice_length:
  "length (foldr (\<lambda>(insert_at, synthetic) c. take insert_at c @ synthetic @ drop insert_at c) rs items) =
     length items + sum_list (map (\<lambda>(_, s). length s) rs)"
  by (induction rs) auto

lemma repair_dangling_length:
  "length (fst (repair_dangling_tool_calls reason items)) =
     length items + snd (repair_dangling_tool_calls reason items)"
  by (simp add: repair_dangling_tool_calls_def Let_def splice_length)

lemma repair_report_exact:
  "let (items', report) = repair_history items
   in length items' + duplicates_removed report + length (stripped_tool_result_ids report) =
        length items + synthetic_results_inserted report \<and>
      (changed report \<or> items' = items)"
proof -
  define d where "d = fst (dedup_duplicate_tool_results items)"
  define s where "s = fst (strip_displaced_from {} d)"
  have strip_length: "length (fst (strip_displaced_from S xs)) + length (snd (strip_displaced_from S xs)) = length xs"
    for S xs
  proof (induction S xs rule: strip_displaced_from.induct)
    case (2 run_ids item rest)
    then show ?case by (cases item) (auto simp: strip_displaced_from.simps(2) split_beta)
  qed simp
  have report: "repair_history items =
    (fst (repair_dangling_tool_calls (HarnessHalted ''history_repair'') s),
     \<lparr>duplicates_removed = snd (dedup_duplicate_tool_results items),
      stripped_tool_result_ids = snd (strip_displaced_from {} d),
      synthetic_results_inserted = snd (repair_dangling_tool_calls (HarnessHalted ''history_repair'') s)\<rparr>)"
    by (simp add: repair_history_def strip_displaced_tool_results_def split_beta Let_def d_def s_def)
  show ?thesis
    using dedup_length [of items] strip_length [of "{}" d] dedup_zero [of items] strip_none [of "{}" d]
      repair_dangling_length [of "HarnessHalted ''history_repair''" s]
      repair_dangling_zero [of "HarnessHalted ''history_repair''" s]
    by (auto simp: report changed_def d_def [symmetric] s_def [symmetric])
qed

lemma repair_history_unchanged:
  "\<not> changed (snd (repair_history items)) \<Longrightarrow> fst (repair_history items) = items"
  using repair_report_exact [of items] by (simp add: split_beta)

text \<open>
  The report is exact: the repaired conversation has as many items as the original, less the
  duplicates and the displaced results it names, plus the synthetic results; and a report of no
  change means that the conversation is returned as it was.
\<close>

theorem repair_history_report_exact:
  "let (items', report) = repair_history items
   in length items' + duplicates_removed report + length (stripped_tool_result_ids report) =
        length items + synthetic_results_inserted report \<and>
      (changed report \<or> items' = items)"
  by (rule repair_report_exact)

text \<open>Pairing depends only on these features of the items.\<close>

definition pairing_shape :: "conversation_item \<Rightarrow> bool \<times> rstr \<times> rstr set" where
  "pairing_shape x = (is_tool_result x, result_id x, owner_ids x)"

lemma well_paired_shape:
  "well_paired xs \<Longrightarrow> map pairing_shape ys = map pairing_shape xs \<Longrightarrow> well_paired ys"
proof (induction arbitrary: ys rule: well_paired.induct)
  case paired_nil
  then show ?case by (simp add: well_paired.paired_nil)
next
  case (paired_block x run rest)
  from paired_block.prems obtain x' zs where "ys = x' # zs"
    and x: "pairing_shape x' = pairing_shape x" and "map pairing_shape zs = map pairing_shape run @ map pairing_shape rest"
    by (cases ys) simp_all
  moreover from this(3) obtain run' rest' where "zs = run' @ rest'"
    and run: "map pairing_shape run' = map pairing_shape run"
    and rest: "map pairing_shape rest' = map pairing_shape rest"
    by (elim map_eq_append_conv [THEN iffD1, elim_format] exE conjE) simp
  ultimately have ys: "ys = x' # run' @ rest'" by simp
  have f: "fst \<circ> pairing_shape = is_tool_result" "fst \<circ> snd \<circ> pairing_shape = result_id"
    by (simp_all add: fun_eq_iff pairing_shape_def)
  have tool: "map is_tool_result run' = map is_tool_result run"
    unfolding f(1) [symmetric] list.map_comp [symmetric] run ..
  have ids: "map result_id run' = map result_id run"
    unfolding f(2) [symmetric] list.map_comp [symmetric] run ..
  have sets: "result_id ` set run' = result_id ` set run"
    using arg_cong [OF ids, of set] by (simp only: set_map)
  have "is_tool_result ` set run' = is_tool_result ` set run"
    using arg_cong [OF tool, of set] by (simp only: set_map)
  then have "all_results run'" using paired_block.hyps(2) by blast
  moreover have "\<not> is_tool_result x'" "owner_ids x' = owner_ids x"
    using paired_block.hyps(1) x by (simp_all add: pairing_shape_def)
  ultimately show ?case
    using paired_block.IH [OF rest] paired_block.hyps(3,4)
    unfolding ys by (intro well_paired.paired_block) (auto simp only: ids sets)
qed

section \<open>The read-only check and the compaction checks\<close>

lemma has_dangling_block:
  assumes "all_results run" and "starts_block rest" and "\<not> is_tool_result x"
  shows "has_dangling_tool_calls (x # run @ rest) \<longleftrightarrow>
           missing_results reason x run \<noteq> [] \<or> has_dangling_tool_calls rest"
proof -
  have over: "has_dangling_tool_calls (xs @ rest) = has_dangling_tool_calls rest" if "all_results xs" for xs
    using that
  proof (induction xs)
    case (Cons y ys)
    then show ?case by (cases y) (auto simp: has_dangling_tool_calls.simps(2))
  qed simp
  show ?thesis
    using assms
    by (cases x)
      (auto simp: has_dangling_tool_calls.simps(2) missing_results_def synthetic_results_def
        over list_ex_iff filter_empty_conv)
qed

lemma has_dangling_repair:
  "(has_dangling_tool_calls items \<longleftrightarrow> 0 < snd (repair_dangling_tool_calls reason items)) \<and>
   \<not> has_dangling_tool_calls (fst (repair_dangling_tool_calls reason items))"
proof -
  have over: "has_dangling_tool_calls (xs @ rest) = has_dangling_tool_calls rest" if "all_results xs" for xs rest
    using that
  proof (induction xs)
    case (Cons y ys)
    then show ?case by (cases y) (auto simp: has_dangling_tool_calls.simps(2))
  qed simp
  have grow: "starts_block xs \<Longrightarrow> has_dangling_tool_calls xs \<longleftrightarrow> length xs < length (complete_runs reason xs)"
    and keep: "starts_block xs \<Longrightarrow> length xs \<le> length (complete_runs reason xs)" for xs
  proof (induction rule: blocks_induct)
    case (Block x run rest)
    { case 1 then show ?case using Block
        by (cases "missing_results reason x run") (auto simp: complete_block has_dangling_block [where reason = reason])
    next case 2 then show ?case using Block by (simp add: complete_block) }
  qed simp_all
  have miss: "missing_results reason x (run @ missing_results reason x run) = []" for x run
  proof -
    have "result_id ` set (missing_results reason x (run @ missing_results reason x run)) = {}"
      unfolding missing_results_ids set_append image_Un by blast
    then show ?thesis by simp
  qed
  have fixed: "starts_block xs \<Longrightarrow> \<not> has_dangling_tool_calls (complete_runs reason xs)" for xs
  proof (induction rule: blocks_induct)
    case (Block x run rest)
    have "all_results (run @ missing_results reason x run)" using Block(2) missing_results_all by auto
    then have "has_dangling_tool_calls
        (x # (run @ missing_results reason x run) @ complete_runs reason rest) \<longleftrightarrow>
        missing_results reason x (run @ missing_results reason x run) \<noteq> [] \<or>
        has_dangling_tool_calls (complete_runs reason rest)"
      using Block by (intro has_dangling_block complete_starts)
    with Block miss show ?case by (simp add: complete_block)
  qed simp
  obtain run rest where "items = run @ rest" "all_results run" "starts_block rest"
    by (rule results_prefix)
  then show ?thesis
    using grow [of rest] fixed [of rest] repair_dangling_length [of reason items]
    by (auto simp: repair_dangling_eq complete_over_results over)
qed

text \<open>The integrity passes leave a well-paired conversation alone.\<close>

lemma dedup_noop: "well_paired items \<Longrightarrow> fst (dedup_duplicate_tool_results items) = items"
proof (induction rule: well_paired.induct)
  case (paired_block x run rest)
  then show ?case
    by (simp add: dedup_block [OF paired_block(2) well_paired_starts [OF paired_block(5)] paired_block(1)]
        keep_last_id)
qed simp

lemma complete_noop: "well_paired items \<Longrightarrow> complete_runs reason items = items"
proof (induction rule: well_paired.induct)
  case (paired_block x run rest)
  have "missing_results reason x run = []"
    using missing_results_ids [of reason x run] paired_block(4) by simp
  with paired_block show ?case
    by (simp add: complete_block [OF paired_block(2) well_paired_starts [OF paired_block(5)] paired_block(1)])
qed simp

text \<open>Whether a call dangles depends on the pairing features only.\<close>

lemma has_dangling_Cons:
  "has_dangling_tool_calls (x # rest) \<longleftrightarrow>
     \<not> owner_ids x \<subseteq> result_id ` set (result_run rest) \<or> has_dangling_tool_calls rest"
proof -
  have over: "has_dangling_tool_calls rest = has_dangling_tool_calls (after_run rest)"
  proof (induction rest)
    case (Cons y ys)
    then show ?case by (cases y) (simp_all add: has_dangling_tool_calls.simps(2) after_run_def)
  qed (simp add: after_run_def)
  show ?thesis
    by (cases x) (auto simp: has_dangling_tool_calls.simps(2) owner_ids_def call_ids_def list_ex_iff over)
qed

lemma result_run_shape:
  "map pairing_shape ys = map pairing_shape xs \<Longrightarrow>
     result_id ` set (result_run ys) = result_id ` set (result_run xs)"
proof (induction ys arbitrary: xs)
  case (Cons y ys)
  then obtain x xs' where xs: "xs = x # xs'" "pairing_shape y = pairing_shape x"
    "map pairing_shape ys = map pairing_shape xs'" by (cases xs) auto
  then show ?case using Cons.IH [OF xs(3)]
    by (cases "is_tool_result x") (simp_all add: result_run_def pairing_shape_def)
qed simp

lemma has_dangling_shape:
  "map pairing_shape ys = map pairing_shape xs \<Longrightarrow>
     has_dangling_tool_calls ys = has_dangling_tool_calls xs"
proof (induction ys arbitrary: xs)
  case (Cons y ys)
  then obtain x xs' where xs: "xs = x # xs'" "pairing_shape y = pairing_shape x"
    "map pairing_shape ys = map pairing_shape xs'" by (cases xs) auto
  have "owner_ids y = owner_ids x" using xs(2) by (simp add: pairing_shape_def)
  then show ?case using Cons.IH [OF xs(3)] result_run_shape [OF xs(3)] by (simp add: xs(1) has_dangling_Cons)
qed simp

text \<open>
  The read-only check agrees with the repair: \<open>has_dangling_tool_calls\<close> is true exactly when
  \<open>repair_dangling_tool_calls\<close> would insert something, and after the repair it is false.
\<close>

theorem has_dangling_iff_repair_inserts:
  "(has_dangling_tool_calls items \<longleftrightarrow> 0 < snd (repair_dangling_tool_calls reason items)) \<and>
   \<not> has_dangling_tool_calls (fst (repair_dangling_tool_calls reason items))"
  by (rule has_dangling_repair)

text \<open>
  \<open>sanitize_compacted_history\<close> strips exactly the results \<open>validate_compacted_history\<close> complains
  about, and what it returns passes the validation.
\<close>

theorem sanitize_then_validate:
  "snd (sanitize_compacted_history items) = validate_compacted_history items \<and>
   validate_compacted_history (fst (sanitize_compacted_history items)) = []"
proof -
  have "snd (sanitize_from S items) = validate_from S items \<and>
      validate_from S (fst (sanitize_from S items)) = []" for S
  proof (induction S items rule: sanitize_from.induct)
    case (2 seen_ids item rest)
    then show ?case by (cases item) (auto simp: split_beta Let_def)
  qed simp
  then show ?thesis
    by (simp add: sanitize_compacted_history_def validate_compacted_history_def)
qed

end
