(* ===== verification/Response.thy ===== *)
theory Response
  imports ToolPairing
begin

section \<open>Responses and transcript transformations\<close>

text \<open>
  Models \<open>ConversationResponse\<close>, \<open>reported_cost_ticks\<close>, \<open>inject_streaming_reasoning_fallback\<close> and
  \<open>transform_conversation_cwd\<close> of \<open>hystersis-sampling-types/src/conversation.rs\<close>.  Of a response,
  the fields its own methods read are kept.
\<close>

datatype stop_reason = Stop | Length_limit | ToolCalls | ContentFilter

definition stop_reason_as_str :: "stop_reason \<Rightarrow> rstr" where
  "stop_reason_as_str r =
     (case r of Stop \<Rightarrow> ''stop'' | Length_limit \<Rightarrow> ''length'' | ToolCalls \<Rightarrow> ''tool_calls''
      | ContentFilter \<Rightarrow> ''content_filter'')"

record token_usage =
  prompt_tokens :: u32
  completion_tokens :: u32
  usage_total_tokens :: u32
  reasoning_tokens :: u32
  cached_prompt_tokens :: u32
  cache_creation_prompt_tokens :: u32

record conversation_response =
  response_items :: "conversation_item list"
  stop_reason :: "stop_reason option"
  response_usage :: "token_usage option"
  cost_usd_ticks :: "int option"
  message_chunks_emitted :: u64

datatype empty_reason = ReasoningOnly | NoVisibleContent

definition reported_cost_ticks :: "int option \<Rightarrow> int option" where
  "reported_cost_ticks raw = (case raw of Some t \<Rightarrow> if 0 < t then Some t else None | None \<Rightarrow> None)"

fun as_assistant :: "conversation_item \<Rightarrow> assistant_item option" where
  "as_assistant (Assistant a) = Some a"
| "as_assistant _ = None"

fun as_reasoning :: "conversation_item \<Rightarrow> reasoning_item option" where
  "as_reasoning (Reasoning r) = Some r"
| "as_reasoning _ = None"

definition response_assistant :: "conversation_response \<Rightarrow> assistant_item option" where
  "response_assistant r = find_map as_assistant (rev (response_items r))"

definition assistant_text :: "conversation_response \<Rightarrow> rstr" where
  "assistant_text r =
     (case response_assistant r of Some a \<Rightarrow> assistant_content a | None \<Rightarrow> '''')"

definition reasoning_items :: "conversation_response \<Rightarrow> reasoning_item list" where
  "reasoning_items r = List.map_filter as_reasoning (response_items r)"

definition backend_tool_items :: "conversation_response \<Rightarrow> conversation_item list" where
  "backend_tool_items r =
     filter (\<lambda>item. case item of BackendToolCall _ \<Rightarrow> True | _ \<Rightarrow> False) (response_items r)"

definition empty_reason_of :: "conversation_response \<Rightarrow> empty_reason option" where
  "empty_reason_of r =
     (case response_assistant r of
        None \<Rightarrow> Some NoVisibleContent
      | Some a \<Rightarrow>
          (if assistant_content a \<noteq> '''' \<or> tool_calls a \<noteq> [] then None
           else if list_ex (\<lambda>r. summary r \<noteq> [] \<or> reasoning_content r \<noteq> None \<or>
                             encrypted_content r \<noteq> None) (reasoning_items r)
           then Some ReasoningOnly
           else Some NoVisibleContent))"

definition response_is_empty :: "conversation_response \<Rightarrow> bool" where
  "response_is_empty r \<longleftrightarrow> empty_reason_of r \<noteq> None"

definition response_tool_calls :: "conversation_response \<Rightarrow> tool_call list" where
  "response_tool_calls r =
     (case response_assistant r of Some a \<Rightarrow> tool_calls a | None \<Rightarrow> [])"

definition fallback_text :: "conversation_response \<Rightarrow> rstr option" where
  "fallback_text r =
     (if 0 < message_chunks_emitted r then None
      else let t = assistant_text r in if t = '''' then None else Some t)"

text \<open>The reasoning deltas of a stream, spliced in when no reasoning item has text.\<close>

definition has_reasoning_text :: "conversation_item \<Rightarrow> bool" where
  "has_reasoning_text item =
     (case item of Reasoning r \<Rightarrow> list_ex (\<lambda>t. t \<noteq> '''') (summary r) | _ \<Rightarrow> False)"

fun is_reasoning :: "conversation_item \<Rightarrow> bool" where
  "is_reasoning (Reasoning _) = True"
| "is_reasoning _ = False"

fun is_assistant :: "conversation_item \<Rightarrow> bool" where
  "is_assistant (Assistant _) = True"
| "is_assistant _ = False"

fun push_summary_first :: "rstr \<Rightarrow> conversation_item list \<Rightarrow> conversation_item list" where
  "push_summary_first t [] = []"
| "push_summary_first t (Reasoning r # rest) = Reasoning (r\<lparr>summary := summary r @ [t]\<rparr>) # rest"
| "push_summary_first t (x # rest) = x # push_summary_first t rest"

definition inject_streaming_reasoning_fallback ::
  "conversation_item list \<Rightarrow> rstr \<Rightarrow> conversation_item list" where
  "inject_streaming_reasoning_fallback xs t =
     (if t = '''' then xs
      else if list_ex has_reasoning_text xs then xs
      else if list_ex is_reasoning xs then push_summary_first t xs
      else let pos = (case rposition is_assistant xs of Some i \<Rightarrow> i | None \<Rightarrow> length xs)
           in take pos xs @ [Reasoning (synthesized_reasoning_item t)] @ drop pos xs)"

text \<open>Rewriting the working directory of a forked session in every text of the transcript.\<close>

definition replace_cwd :: "rstr \<Rightarrow> rstr \<Rightarrow> rstr \<Rightarrow> rstr" where
  "replace_cwd src dst t = (if contains t src then str_replace src dst t else t)"

definition transform_item_cwd :: "rstr \<Rightarrow> rstr \<Rightarrow> conversation_item \<Rightarrow> conversation_item" where
  "transform_item_cwd src dst item =
     (let sub = replace_cwd src dst
      in case item of
           System s \<Rightarrow> System (sub s)
         | User u \<Rightarrow>
             User (u\<lparr>user_content :=
               map (\<lambda>p. case p of Text_part t \<Rightarrow> Text_part (sub t) | Image_part url \<Rightarrow> Image_part url)
                 (user_content u)\<rparr>)
         | Assistant a \<Rightarrow>
             Assistant (a\<lparr>assistant_content := sub (assistant_content a),
               tool_calls := map (\<lambda>tc. tc\<lparr>arguments := sub (arguments tc)\<rparr>) (tool_calls a)\<rparr>)
         | ToolResult t \<Rightarrow> ToolResult (t\<lparr>result_content := sub (result_content t)\<rparr>)
         | BackendToolCall b \<Rightarrow> BackendToolCall b
         | Reasoning r \<Rightarrow>
             Reasoning (r\<lparr>summary := map sub (summary r),
               reasoning_content := map_option (map sub) (reasoning_content r)\<rparr>))"

definition transform_conversation_cwd ::
  "conversation_item list \<Rightarrow> rstr \<Rightarrow> rstr \<Rightarrow> conversation_item list" where
  "transform_conversation_cwd conversation src dst = map (transform_item_cwd src dst) conversation"

section \<open>Facts\<close>

text \<open>
  A response is resampled as empty exactly when its last assistant message is missing or has
  neither text nor tool calls; then it offers no tool call, no text and no fallback text.
\<close>

lemma response_is_empty_iff:
  "response_is_empty r \<longleftrightarrow>
     (case response_assistant r of
        None \<Rightarrow> True | Some a \<Rightarrow> assistant_content a = '''' \<and> tool_calls a = [])"
  by (auto simp: response_is_empty_def empty_reason_of_def split: option.splits if_splits)

lemma empty_response_offers:
  "response_is_empty r \<Longrightarrow>
     response_tool_calls r = [] \<and> assistant_text r = '''' \<and> fallback_text r = None"
  by (auto simp: response_is_empty_iff response_tool_calls_def assistant_text_def
      fallback_text_def split: option.splits)

lemma transform_ids:
  "is_tool_result (transform_item_cwd s d x) = is_tool_result x"
  "result_id (transform_item_cwd s d x) = result_id x"
  "owner_ids (transform_item_cwd s d x) = owner_ids x"
  by (cases x; simp add: transform_item_cwd_def Let_def owner_ids_def call_ids_def comp_def)+

text \<open>
  Moving a session to another working directory keeps its tool pairing: whatever the paths, a
  well-paired transcript stays well paired after the rewriting.
\<close>

theorem transform_cwd_well_paired:
  assumes "well_paired conversation"
  shows "well_paired (transform_conversation_cwd conversation src dst)"
  by (rule well_paired_shape [OF assms])
    (simp add: transform_conversation_cwd_def pairing_shape_def transform_ids)

lemma transform_cwd_well_paired_witness:
  "well_paired (transform_conversation_cwd
     [assistant_tool_calls [\<lparr>call_id = ''c'', call_name = ''f'', arguments = ''/a/x''\<rparr>],
      tool_result ''c'' ''/a/y''] ''/a'' ''/b'')"
proof (rule transform_cwd_well_paired)
  let ?a = "assistant_tool_calls [\<lparr>call_id = ''c'', call_name = ''f'', arguments = ''/a/x''\<rparr>]"
  have "well_paired (?a # [tool_result ''c'' ''/a/y''] @ [])"
    by (intro paired_block paired_nil)
      (simp_all add: assistant_tool_calls_def tool_result_def owner_ids_def call_ids_def)
  then show "well_paired [?a, tool_result ''c'' ''/a/y'']" by simp
qed

end
