(* ===== verification/Usage.thy ===== *)
theory Usage
  imports Response
begin

section \<open>Billing ledgers\<close>

text \<open>
  Models \<open>hystersis-chat-state/src/usage.rs\<close>.  Token counters are 64-bit words with saturating
  addition; a cost is an \<open>i64\<close> read as an integer, its addition saturating at both ends.  The
  \<open>IndexMap\<close> by model is an association list in insertion order.
\<close>

record usage_totals =
  input_tokens :: u64
  output_tokens :: u64
  cached_read_tokens :: u64
  cache_creation_tokens :: u64
  ut_reasoning_tokens :: u64
  model_calls :: u64
  api_duration_ms :: u64
  ut_cost_usd_ticks :: "int option"
  cost_missing_calls :: u64

definition totals_default :: usage_totals where
  "totals_default =
     \<lparr>input_tokens = 0, output_tokens = 0, cached_read_tokens = 0, cache_creation_tokens = 0,
      ut_reasoning_tokens = 0, model_calls = 0, api_duration_ms = 0, ut_cost_usd_ticks = None,
      cost_missing_calls = 0\<rparr>"

definition from_call :: "token_usage \<Rightarrow> u64 option \<Rightarrow> int option \<Rightarrow> usage_totals" where
  "from_call us duration cost =
     (let cost = reported_cost_ticks cost
      in \<lparr>input_tokens = ucast (prompt_tokens us), output_tokens = ucast (completion_tokens us),
          cached_read_tokens = ucast (cached_prompt_tokens us),
          cache_creation_tokens = ucast (cache_creation_prompt_tokens us),
          ut_reasoning_tokens = ucast (reasoning_tokens us), model_calls = 1,
          api_duration_ms = (case duration of Some d \<Rightarrow> d | None \<Rightarrow> 0),
          ut_cost_usd_ticks = cost,
          cost_missing_calls = (if cost = None then 1 else 0)\<rparr>)"

definition total_tokens_of :: "usage_totals \<Rightarrow> u64" where
  "total_tokens_of t = sat_add (input_tokens t) (output_tokens t)"

definition cost_is_partial :: "usage_totals \<Rightarrow> bool" where
  "cost_is_partial t \<longleftrightarrow> ut_cost_usd_ticks t \<noteq> None \<and> 0 < cost_missing_calls t"

definition merge_cost_ticks :: "int option \<Rightarrow> int option \<Rightarrow> int option" where
  "merge_cost_ticks a b =
     (if a = None \<and> b = None then None
      else Some (clamp_i64 ((case a of Some x \<Rightarrow> x | None \<Rightarrow> 0) + (case b of Some y \<Rightarrow> y | None \<Rightarrow> 0))))"

definition fold_totals :: "usage_totals \<Rightarrow> usage_totals \<Rightarrow> usage_totals" where
  "fold_totals t other =
     \<lparr>input_tokens = sat_add (input_tokens t) (input_tokens other),
      output_tokens = sat_add (output_tokens t) (output_tokens other),
      cached_read_tokens = sat_add (cached_read_tokens t) (cached_read_tokens other),
      cache_creation_tokens = sat_add (cache_creation_tokens t) (cache_creation_tokens other),
      ut_reasoning_tokens = sat_add (ut_reasoning_tokens t) (ut_reasoning_tokens other),
      model_calls = sat_add (model_calls t) (model_calls other),
      api_duration_ms = sat_add (api_duration_ms t) (api_duration_ms other),
      ut_cost_usd_ticks = merge_cost_ticks (ut_cost_usd_ticks t) (ut_cost_usd_ticks other),
      cost_missing_calls = sat_add (cost_missing_calls t) (cost_missing_calls other)\<rparr>"

record usage_ledger =
  totals :: usage_totals
  by_model :: "(rstr \<times> usage_totals) list"
  main_loop_model_calls :: u64
  incomplete :: bool

definition ledger_default :: usage_ledger where
  "ledger_default =
     \<lparr>totals = totals_default, by_model = [], main_loop_model_calls = 0, incomplete = False\<rparr>"

text \<open>\<open>entry(model_id).or_default().fold_totals(totals)\<close>\<close>

fun fold_model :: "rstr \<Rightarrow> usage_totals \<Rightarrow> (rstr \<times> usage_totals) list \<Rightarrow> (rstr \<times> usage_totals) list" where
  "fold_model m t [] = [(m, fold_totals totals_default t)]"
| "fold_model m t ((k, u) # rest) =
     (if k = m then (k, fold_totals u t) # rest else (k, u) # fold_model m t rest)"

definition fold_entry :: "rstr \<Rightarrow> usage_totals \<Rightarrow> usage_ledger \<Rightarrow> usage_ledger" where
  "fold_entry m t l =
     l\<lparr>totals := fold_totals (totals l) t, by_model := fold_model m t (by_model l)\<rparr>"

definition record_main_loop_call ::
  "rstr \<Rightarrow> token_usage \<Rightarrow> u64 option \<Rightarrow> int option \<Rightarrow> usage_ledger \<Rightarrow> usage_ledger" where
  "record_main_loop_call m us duration cost l =
     fold_entry m (from_call us duration cost)
       (l\<lparr>main_loop_model_calls := sat_add (main_loop_model_calls l) 1\<rparr>)"

definition mark_incomplete :: "usage_ledger \<Rightarrow> usage_ledger" where
  "mark_incomplete l = l\<lparr>incomplete := True\<rparr>"

definition record_subagent :: "(rstr \<times> usage_totals) list \<Rightarrow> bool \<Rightarrow> usage_ledger \<Rightarrow> usage_ledger" where
  "record_subagent ms inc l =
     (let l = fold (\<lambda>(m, t). fold_entry m t) ms l
      in if inc then l\<lparr>incomplete := True\<rparr> else l)"

section \<open>Totals form a commutative monoid\<close>

text \<open>Costs that are reported are positive; sums of them stay in range.\<close>

definition cost_ok :: "int option \<Rightarrow> bool" where
  "cost_ok c \<longleftrightarrow> (case c of None \<Rightarrow> True | Some x \<Rightarrow> 0 \<le> x \<and> x \<le> 2 ^ 63 - 1)"

lemma merge_cost_ok: "cost_ok a \<Longrightarrow> cost_ok b \<Longrightarrow> cost_ok (merge_cost_ticks a b)"
  by (auto simp: cost_ok_def merge_cost_ticks_def clamp_i64_def split: option.splits)

lemma merge_cost_commute: "merge_cost_ticks a b = merge_cost_ticks b a"
  by (auto simp: merge_cost_ticks_def add.commute)

lemma clamp_nonneg: "0 \<le> x \<Longrightarrow> clamp_i64 x = min x (2 ^ 63 - 1)"
  by (simp add: clamp_i64_def)

lemma clamp_assoc:
  assumes "0 \<le> x" and "0 \<le> y" and "0 \<le> z"
  shows "clamp_i64 (clamp_i64 (x + y) + z) = clamp_i64 (x + clamp_i64 (y + z))"
proof -
  have "min (min (x + y) M + z) M = min (x + min (y + z) M) M" if "0 \<le> M" for M
    using assms that by linarith
  then show ?thesis using assms by (simp add: clamp_nonneg)
qed

lemma merge_cost_Some: "cost_ok (Some x) \<Longrightarrow> merge_cost_ticks (Some x) None = Some x"
  by (simp add: cost_ok_def merge_cost_ticks_def clamp_i64_def)

lemma merge_cost_assoc:
  assumes "cost_ok a" and "cost_ok b" and "cost_ok c"
  shows "merge_cost_ticks (merge_cost_ticks a b) c = merge_cost_ticks a (merge_cost_ticks b c)"
proof (cases "a = None \<or> b = None \<or> c = None")
  case True
  have none: "merge_cost_ticks None z = z" "merge_cost_ticks z None = z" if "cost_ok z" for z
    using that merge_cost_Some merge_cost_commute by (cases z; simp add: merge_cost_ticks_def)+
  show ?thesis
    using True assms none merge_cost_ok by metis
next
  case False
  then show ?thesis
    using assms clamp_assoc by (auto simp: merge_cost_ticks_def cost_ok_def)
qed

lemma merge_cost_None: "cost_ok a \<Longrightarrow> merge_cost_ticks None a = a"
  by (auto simp: cost_ok_def merge_cost_ticks_def clamp_i64_def split: option.splits)

definition totals_ok :: "usage_totals \<Rightarrow> bool" where
  "totals_ok t \<longleftrightarrow> cost_ok (ut_cost_usd_ticks t)"

lemma fold_totals_ok: "totals_ok t \<Longrightarrow> totals_ok u \<Longrightarrow> totals_ok (fold_totals t u)"
  by (simp add: totals_ok_def fold_totals_def merge_cost_ok)

lemma totals_default_ok [simp]: "totals_ok totals_default"
  by (simp add: totals_ok_def totals_default_def cost_ok_def)

lemma fold_totals_commute: "fold_totals t u = fold_totals u t"
  by (simp only: fold_totals_def sat_add_commute merge_cost_commute)

lemma fold_totals_assoc:
  "totals_ok t \<Longrightarrow> totals_ok u \<Longrightarrow> totals_ok v \<Longrightarrow>
     fold_totals (fold_totals t u) v = fold_totals t (fold_totals u v)"
  by (simp add: fold_totals_def sat_add_assoc merge_cost_assoc totals_ok_def)

lemma fold_totals_default: "totals_ok t \<Longrightarrow> fold_totals totals_default t = t"
  by (simp add: fold_totals_def totals_default_def merge_cost_None totals_ok_def)

lemma from_call_ok: "(\<forall>c. cost = Some c \<longrightarrow> c \<le> 2 ^ 63 - 1) \<Longrightarrow> totals_ok (from_call us d cost)"
  by (auto simp: totals_ok_def from_call_def Let_def reported_cost_ticks_def cost_ok_def
      split: option.splits)

definition sum_totals :: "usage_totals list \<Rightarrow> usage_totals" where
  "sum_totals ts = foldr fold_totals ts totals_default"

lemma sum_totals_ok: "\<forall>t \<in> set ts. totals_ok t \<Longrightarrow> totals_ok (sum_totals ts)"
  by (induction ts) (auto simp: sum_totals_def fold_totals_ok)

lemma fold_model_ok:
  "\<forall>(k, u) \<in> set ms. totals_ok u \<Longrightarrow> totals_ok t \<Longrightarrow> \<forall>(k, u) \<in> set (fold_model m t ms). totals_ok u"
  by (induction m t ms rule: fold_model.induct) (auto simp: fold_totals_ok)

lemma fold_model_keys:
  "map fst (fold_model m t ms) = map fst ms @ (if m \<in> set (map fst ms) then [] else [m])"
  by (induction m t ms rule: fold_model.induct) auto

lemma sum_fold_model:
  "\<forall>(k, u) \<in> set ms. totals_ok u \<Longrightarrow> totals_ok t \<Longrightarrow>
     sum_totals (map snd (fold_model m t ms)) = fold_totals (sum_totals (map snd ms)) t"
proof (induction m t ms rule: fold_model.induct)
  case (1 m t)
  then show ?case
    by (simp add: sum_totals_def fold_totals_default fold_totals_commute [of t totals_default])
next
  case (2 m t k u rest)
  have ok: "totals_ok (sum_totals (map snd rest))" using 2(2) by (intro sum_totals_ok) auto
  have u: "totals_ok u" using 2(2) by auto
  have cons: "sum_totals (x # xs) = fold_totals x (sum_totals xs)" for x xs
    by (simp add: sum_totals_def)
  show ?case
  proof (cases "k = m")
    case True
    have "fold_totals (fold_totals u t) (sum_totals (map snd rest)) =
        fold_totals u (fold_totals (sum_totals (map snd rest)) t)"
      using fold_totals_assoc [OF u 2(3) ok] by (simp add: fold_totals_commute [of t])
    then show ?thesis using True fold_totals_assoc [OF u ok 2(3)] by (simp add: cons)
  next
    case False
    then show ?thesis using 2 u ok by (simp add: cons fold_totals_assoc)
  qed
qed

section \<open>The ledger's invariant\<close>

definition ledger_inv :: "usage_ledger \<Rightarrow> bool" where
  "ledger_inv l \<longleftrightarrow>
     distinct (map fst (by_model l)) \<and> (\<forall>(k, u) \<in> set (by_model l). totals_ok u) \<and>
     totals l = sum_totals (map snd (by_model l))"

lemma ledger_default_inv: "ledger_inv ledger_default"
  by (simp add: ledger_inv_def ledger_default_def sum_totals_def)

lemma fold_entry_inv: "ledger_inv l \<Longrightarrow> totals_ok t \<Longrightarrow> ledger_inv (fold_entry m t l)"
  using fold_model_ok [of "by_model l" t m] sum_fold_model [of "by_model l" t m]
  by (auto simp: ledger_inv_def fold_entry_def fold_model_keys)

datatype ledger_op =
    Main_loop_call rstr token_usage "u64 option" "int option"
  | Subagent "(rstr \<times> usage_totals) list" bool
  | Mark_incomplete

fun ledger_step :: "ledger_op \<Rightarrow> usage_ledger \<Rightarrow> usage_ledger" where
  "ledger_step (Main_loop_call m us d c) l = record_main_loop_call m us d c l"
| "ledger_step (Subagent ms inc) l = record_subagent ms inc l"
| "ledger_step Mark_incomplete l = mark_incomplete l"

text \<open>The costs an operation brings are \<open>i64\<close> values, those of subagents not negative.\<close>

fun ledger_op_ok :: "ledger_op \<Rightarrow> bool" where
  "ledger_op_ok (Main_loop_call m us d c) \<longleftrightarrow> (\<forall>x. c = Some x \<longrightarrow> x \<le> 2 ^ 63 - 1)"
| "ledger_op_ok (Subagent ms inc) \<longleftrightarrow> (\<forall>(m, t) \<in> set ms. totals_ok t)"
| "ledger_op_ok Mark_incomplete \<longleftrightarrow> True"

lemma ledger_step_inv: "ledger_inv l \<Longrightarrow> ledger_op_ok opn \<Longrightarrow> ledger_inv (ledger_step opn l)"
proof (cases opn)
  case (Subagent ms inc)
  assume l: "ledger_inv l" and ok: "ledger_op_ok opn"
  have "ledger_inv l \<Longrightarrow> \<forall>(m, t) \<in> set ms. totals_ok t \<Longrightarrow> ledger_inv (fold (\<lambda>(m, t). fold_entry m t) ms l)"
    for l
    by (induction ms arbitrary: l) (auto simp: fold_entry_inv)
  then have "ledger_inv (fold (\<lambda>(m, t). fold_entry m t) ms l)" using l ok Subagent by simp
  then show ?thesis using Subagent by (simp add: record_subagent_def Let_def ledger_inv_def)
next
  case (Main_loop_call m us d c)
  assume l: "ledger_inv l" and ok: "ledger_op_ok opn"
  have "ledger_inv (l\<lparr>main_loop_model_calls := sat_add (main_loop_model_calls l) 1\<rparr>)"
    using l by (simp add: ledger_inv_def)
  then show ?thesis
    using ok Main_loop_call by (simp add: record_main_loop_call_def fold_entry_inv from_call_ok)
qed (simp add: mark_incomplete_def ledger_inv_def)

text \<open>
  The bill adds up. After any sequence of model calls, subagent reports and incomplete marks,
  the ledger has one entry per model and its totals are the sum of the entries, in every counter
  and in the cost, even where counters saturate.
\<close>

theorem ledger_adds_up:
  assumes "\<forall>opn \<in> set ops. ledger_op_ok opn"
  shows "let l = fold ledger_step ops ledger_default
         in distinct (map fst (by_model l)) \<and> totals l = sum_totals (map snd (by_model l))"
proof -
  have "ledger_inv l \<Longrightarrow> ledger_inv (fold ledger_step ops l)" for l
    using assms by (induction ops arbitrary: l) (auto simp: ledger_step_inv)
  then show ?thesis using ledger_default_inv by (simp add: ledger_inv_def Let_def)
qed

lemma ledger_adds_up_witness:
  "let l = fold ledger_step [Main_loop_call ''m'' \<lparr>prompt_tokens = 5, completion_tokens = 2,
        usage_total_tokens = 7, reasoning_tokens = 0, cached_prompt_tokens = 0,
        cache_creation_prompt_tokens = 0\<rparr> None (Some 9), Mark_incomplete] ledger_default
   in distinct (map fst (by_model l)) \<and> totals l = sum_totals (map snd (by_model l))"
  by (rule ledger_adds_up) simp

text \<open>Completeness is monotone: no operation clears the incomplete mark.\<close>

lemma fold_entry_incomplete: "incomplete (fold_entry m t l) = incomplete l"
  by (simp add: fold_entry_def)

lemma fold_entries_incomplete: "incomplete (fold (\<lambda>(m, t). fold_entry m t) ms l) = incomplete l"
proof (induction ms arbitrary: l)
  case (Cons mt ms)
  show ?case
    by (cases mt) (simp only: fold_Cons comp_def Cons fold_entry_incomplete prod.case)
qed simp

lemma record_subagent_incomplete: "incomplete (record_subagent ms inc l) = (inc \<or> incomplete l)"
proof (cases inc)
  case False
  then show ?thesis by (simp only: record_subagent_def Let_def if_False fold_entries_incomplete simp_thms)
qed (simp add: record_subagent_def Let_def)

lemma main_loop_incomplete: "incomplete (record_main_loop_call m us d c l) = incomplete l"
  unfolding record_main_loop_call_def fold_entry_incomplete by simp

lemma incomplete_monotone: "incomplete l \<Longrightarrow> incomplete (ledger_step opn l)"
proof (cases opn)
  case Mark_incomplete
  then show ?thesis by (simp add: mark_incomplete_def)
qed (simp_all only: ledger_step.simps record_subagent_incomplete main_loop_incomplete simp_thms)

end
