(* ===== verification/TokenEstimation.thy ===== *)
theory TokenEstimation
  imports RustFloat
begin

section \<open>Token estimation\<close>

text \<open>
  Models \<open>hystersis-token-estimation/src/lib.rs\<close>: the bytes/4 heuristic and the arithmetic of
  context-window usage, on 64-bit words.  \<open>estimate_tokens\<close> takes the length in bytes of its
  string as the string does.
\<close>

definition BYTES_PER_TOKEN :: u64 where
  "BYTES_PER_TOKEN = 4"

definition IMAGE_TOKEN_ESTIMATE :: u64 where
  "IMAGE_TOKEN_ESTIMATE = 765"

definition estimate_tokens :: "string \<Rightarrow> u64" where
  "estimate_tokens s = word_of_nat (length s) div BYTES_PER_TOKEN"

definition estimate_chars :: "u64 \<Rightarrow> u64" where
  "estimate_chars tokens = sat_mul tokens BYTES_PER_TOKEN"

definition estimate_image_tokens :: "u64 \<Rightarrow> u64" where
  "estimate_image_tokens image_count = sat_mul image_count IMAGE_TOKEN_ESTIMATE"

definition usage_percentage :: "u64 \<Rightarrow> u64 \<Rightarrow> rat" where
  "usage_percentage used tot =
     (if tot = 0 then 0
      else min (f64_mul (f64_div (f64_of_nat (unat used)) (f64_of_nat (unat tot))) 100) 100)"

text \<open>\<open>as u8\<close> of a float saturates at 255.\<close>

definition usage_percentage_u8 :: "u64 \<Rightarrow> u64 \<Rightarrow> nat" where
  "usage_percentage_u8 used tot =
     min (nat \<lfloor>f64_round_to_int (usage_percentage used tot)\<rfloor>) 255"

definition usage_percentage_truncated_u8 :: "u64 \<Rightarrow> u64 \<Rightarrow> u8" where
  "usage_percentage_truncated_u8 used tot =
     (if tot = 0 then 0 else ucast (min (sat_mul used 100 div tot) 100))"

definition free_tokens :: "u64 \<Rightarrow> u64 \<Rightarrow> u64" where
  "free_tokens tot used = sat_sub tot used"

definition exceeds_threshold :: "u64 \<Rightarrow> u64 \<Rightarrow> u8 \<Rightarrow> bool" where
  "exceeds_threshold used context_window threshold_percent =
     (if context_window = 0 then False
      else sat_mul context_window (ucast threshold_percent) \<le> sat_mul used 100)"

definition exceeds_threshold_with_headroom :: "u64 \<Rightarrow> u64 \<Rightarrow> u8 \<Rightarrow> u64 \<Rightarrow> bool" where
  "exceeds_threshold_with_headroom used context_window threshold_percent headroom =
     (if context_window = 0 then False
      else sat_sub (sat_mul context_window (ucast threshold_percent)) (sat_mul headroom 100)
             \<le> sat_mul used 100)"

section \<open>Facts\<close>

lemma unat_100 [simp]: "unat (100 :: u64) = 100" "unat (100 :: u8) = 100"
  by simp_all

lemma unat_ucast_u8 [simp]: "unat (ucast (p :: u8) :: u64) = unat p"
  by transfer (simp add: take_bit_nat_eq_self)

lemma unat_truncated:
  "unat (usage_percentage_truncated_u8 used tot) =
     (if tot = 0 then 0 else min (min (unat used * 100) u64_max div unat tot) 100)"
proof -
  have "unat (min (sat_mul used 100 div tot) 100) = min (min (unat used * 100) u64_max div unat tot) 100"
    by (simp add: min_def word_le_nat_alt unat_div unat_sat_mul)
  then have "unat (ucast (min (sat_mul used 100 div tot) 100) :: u8) =
      min (min (unat used * 100) u64_max div unat tot) 100"
    by (simp add: unsigned_ucast_eq take_bit_nat_eq_self)
  then show ?thesis
    by (simp add: usage_percentage_truncated_u8_def)
qed

lemma truncated_le_100: "unat (usage_percentage_truncated_u8 used tot) \<le> 100"
  by (simp add: unat_truncated)

lemma exceeds_threshold_iff:
  assumes "unat cw * unat p \<le> u64_max"
  shows "exceeds_threshold used cw p \<longleftrightarrow> cw \<noteq> 0 \<and> unat cw * unat p \<le> 100 * unat used"
  using assms
  by (simp add: exceeds_threshold_def word_le_nat_alt unat_sat_mul min_absorb1 mult.commute)

lemma truncated_ge_iff:
  assumes "tot \<noteq> 0" and "unat p \<le> 100" and "unat tot * unat p \<le> u64_max"
  shows "p \<le> usage_percentage_truncated_u8 used tot \<longleftrightarrow> unat tot * unat p \<le> 100 * unat used"
proof -
  have pos: "0 < unat tot" using assms(1) by (simp add: unat_gt_0)
  have "p \<le> usage_percentage_truncated_u8 used tot
      \<longleftrightarrow> unat p \<le> min (unat used * 100) u64_max div unat tot"
    using assms(1,2) by (simp add: word_le_nat_alt unat_truncated)
  also have "\<dots> \<longleftrightarrow> unat p * unat tot \<le> min (unat used * 100) u64_max"
    using pos by (rule less_eq_div_iff_mult_less_eq)
  also have "\<dots> \<longleftrightarrow> unat tot * unat p \<le> 100 * unat used"
    using assms(3) by (simp add: mult.commute)
  finally show ?thesis .
qed

text \<open>
  The auto-compact gate and the displayed percentage agree: for a threshold of at most 100 and
  a window whose scaled threshold fits 64 bits, \<open>exceeds_threshold\<close> fires exactly when the
  truncated usage percentage has reached the threshold, whatever the usage.
\<close>

theorem threshold_gate_agrees:
  assumes "context_window \<noteq> 0" and "unat p \<le> 100" and "unat context_window * unat p \<le> u64_max"
  shows "exceeds_threshold used context_window p \<longleftrightarrow>
           p \<le> usage_percentage_truncated_u8 used context_window"
  using assms by (simp add: exceeds_threshold_iff truncated_ge_iff)

lemma threshold_gate_agrees_witness:
  "exceeds_threshold 170000 200000 85 \<longleftrightarrow> 85 \<le> usage_percentage_truncated_u8 170000 200000"
  by (rule threshold_gate_agrees) simp_all

text \<open>Above 100 percent they differ, since the percentage is clamped.\<close>

lemma threshold_gate_differs:
  "exceeds_threshold 200 100 150 \<and> \<not> 150 \<le> usage_percentage_truncated_u8 200 100"
  by (simp add: exceeds_threshold_iff word_le_nat_alt unat_truncated)

lemma headroom_zero: "exceeds_threshold_with_headroom u cw p 0 = exceeds_threshold u cw p"
proof -
  have "sat_sub x (sat_mul 0 100) = x" for x :: u64
    by (rule word_eqI_unat) (simp add: unat_sat_sub unat_sat_mul)
  then show ?thesis by (simp add: exceeds_threshold_with_headroom_def exceeds_threshold_def)
qed

lemma headroom_mono:
  assumes "h \<le> h'" and "exceeds_threshold_with_headroom u cw p h"
  shows "exceeds_threshold_with_headroom u cw p h'"
proof -
  have "unat h \<le> unat h'" using assms(1) by (simp add: word_le_nat_alt)
  then have 1: "min (unat h * 100) (2 ^ 64 - 1) \<le> min (unat h' * 100) (2 ^ 64 - 1)"
    by (intro min.mono mult_right_mono) simp_all
  have "sat_sub a (sat_mul h' 100) \<le> sat_sub a (sat_mul h 100)" for a :: u64
    unfolding word_le_nat_alt unat_sat_sub unat_sat_mul
    by (intro diff_le_mono2) (use 1 in \<open>simp\<close>)
  then show ?thesis
    using assms(2) unfolding exceeds_threshold_with_headroom_def
    by (cases "cw = 0") (auto intro: order_trans)
qed

end
