(* ===== verification/Rewind.thy ===== *)
theory Rewind
  imports Conversation
begin

section \<open>Rewinding a conversation\<close>

text \<open>
  Models \<open>conversation_truncate_for_prompt\<close> and its three counting modes
  (\<open>hystersis-sampling-types/src/conversation.rs\<close>): how many items to keep so that everything
  from a prompt turn on is dropped.  Each loop carries the index of the item it looks at.
\<close>

fun truncate_markers_only :: "nat \<Rightarrow> nat \<Rightarrow> conversation_item list \<Rightarrow> nat" where
  "truncate_markers_only i target [] = i"
| "truncate_markers_only i target (User user # rest) =
     (case prompt_index user of
        Some idx \<Rightarrow> if target \<le> idx then i else truncate_markers_only (Suc i) target rest
      | None \<Rightarrow> truncate_markers_only (Suc i) target rest)"
| "truncate_markers_only i target (_ # rest) = truncate_markers_only (Suc i) target rest"

definition conversation_truncate_markers_only :: "conversation_item list \<Rightarrow> nat \<Rightarrow> nat" where
  "conversation_truncate_markers_only conversation target =
     truncate_markers_only 0 target conversation"

text \<open>
  The index an unmarked user item would have: \<open>None\<close> for the preamble and for synthetic items
  that start no turn.  The second component is \<open>seen_unmarked_preamble\<close> afterwards.
\<close>

definition unmarked_index :: "bool \<Rightarrow> nat \<Rightarrow> user_item \<Rightarrow> nat option \<times> bool" where
  "unmarked_index seen_preamble next_index user =
     (case synthetic_reason user of
        None \<Rightarrow> if \<not> seen_preamble then (None, True) else (Some next_index, seen_preamble)
      | Some reason \<Rightarrow>
          if starts_prompt_turn reason then (Some next_index, seen_preamble)
          else (None, seen_preamble))"

fun truncate_legacy :: "nat \<Rightarrow> nat \<Rightarrow> bool \<Rightarrow> nat \<Rightarrow> conversation_item list \<Rightarrow> nat" where
  "truncate_legacy i next_index seen target [] = i"
| "truncate_legacy i next_index seen target (User user # rest) =
     (case unmarked_index seen next_index user of
        (Some idx, seen') \<Rightarrow>
          if target \<le> idx then i else truncate_legacy (Suc i) (idx + 1) seen' target rest
      | (None, seen') \<Rightarrow> truncate_legacy (Suc i) next_index seen' target rest)"
| "truncate_legacy i next_index seen target (_ # rest) =
     truncate_legacy (Suc i) next_index seen target rest"

definition conversation_truncate_legacy :: "conversation_item list \<Rightarrow> nat \<Rightarrow> nat" where
  "conversation_truncate_legacy conversation target = truncate_legacy 0 0 False target conversation"

fun count_legacy_turns :: "nat \<Rightarrow> bool \<Rightarrow> conversation_item list \<Rightarrow> nat" where
  "count_legacy_turns turns seen [] = turns"
| "count_legacy_turns turns seen (User user # rest) =
     (if prompt_index user \<noteq> None then turns
      else case synthetic_reason user of
             None \<Rightarrow>
               if \<not> seen then count_legacy_turns turns True rest
               else count_legacy_turns (turns + 1) seen rest
           | Some reason \<Rightarrow>
               if starts_prompt_turn reason then count_legacy_turns (turns + 1) seen rest
               else count_legacy_turns turns seen rest)"
| "count_legacy_turns turns seen (_ # rest) = count_legacy_turns turns seen rest"

definition count_legacy_turns_until_marker :: "conversation_item list \<Rightarrow> nat" where
  "count_legacy_turns_until_marker conversation = count_legacy_turns 0 False conversation"

fun truncate_progressive ::
  "nat \<Rightarrow> nat \<Rightarrow> bool \<Rightarrow> bool \<Rightarrow> nat \<Rightarrow> conversation_item list \<Rightarrow> nat" where
  "truncate_progressive i next_index seen marked target [] = i"
| "truncate_progressive i next_index seen marked target (User user # rest) =
     (case prompt_index user of
        Some idx \<Rightarrow>
          if target \<le> idx then i else truncate_progressive (Suc i) next_index seen True target rest
      | None \<Rightarrow>
          if marked then truncate_progressive (Suc i) next_index seen marked target rest
          else
            (case unmarked_index seen next_index user of
               (Some idx, seen') \<Rightarrow>
                 if target \<le> idx then i
                 else truncate_progressive (Suc i) (idx + 1) seen' marked target rest
             | (None, seen') \<Rightarrow> truncate_progressive (Suc i) next_index seen' marked target rest))"
| "truncate_progressive i next_index seen marked target (_ # rest) =
     truncate_progressive (Suc i) next_index seen marked target rest"

definition conversation_truncate_progressive :: "conversation_item list \<Rightarrow> nat \<Rightarrow> nat" where
  "conversation_truncate_progressive conversation target =
     truncate_progressive 0 0 False False target conversation"

fun item_marker :: "conversation_item \<Rightarrow> nat option" where
  "item_marker (User u) = prompt_index u"
| "item_marker _ = None"

definition conversation_truncate_for_prompt :: "conversation_item list \<Rightarrow> nat \<Rightarrow> nat" where
  "conversation_truncate_for_prompt conversation target =
     (case find_map item_marker conversation of
        None \<Rightarrow> conversation_truncate_legacy conversation target
      | Some first_marker_idx \<Rightarrow>
          (if count_legacy_turns_until_marker conversation \<noteq> first_marker_idx
           then conversation_truncate_markers_only conversation target
           else conversation_truncate_progressive conversation target))"

section \<open>Where the cut lands\<close>

fun is_user :: "conversation_item \<Rightarrow> bool" where
  "is_user (User _) = True"
| "is_user _ = False"

text \<open>A cut is good when it is a user item at or after the target, and no kept marker is.\<close>

definition good_cut :: "conversation_item list \<Rightarrow> nat \<Rightarrow> nat \<Rightarrow> bool" where
  "good_cut conversation target pos \<longleftrightarrow>
     pos \<le> length conversation \<and>
     (pos < length conversation \<longrightarrow>
        is_user (conversation ! pos) \<and>
        (\<forall>idx. item_marker (conversation ! pos) = Some idx \<longrightarrow> target \<le> idx)) \<and>
     (\<forall>k < pos. \<forall>idx. item_marker (conversation ! k) = Some idx \<longrightarrow> idx < target)"

lemma good_cut_here: "is_user x \<Longrightarrow> (\<forall>idx. item_marker x = Some idx \<longrightarrow> t \<le> idx) \<Longrightarrow> good_cut (x # xs) t 0"
  by (simp add: good_cut_def)

lemma good_cut_later:
  "(\<forall>idx. item_marker x = Some idx \<longrightarrow> idx < t) \<Longrightarrow> good_cut xs t c \<Longrightarrow> good_cut (x # xs) t (Suc c)"
  by (auto simp: good_cut_def less_Suc_eq_0_disj)

lemma good_cut_Nil: "good_cut [] t 0"
  by (simp add: good_cut_def)

lemma shift_cut:
  "truncate_markers_only i t xs = i + truncate_markers_only 0 t xs"
  "truncate_legacy i n s t xs = i + truncate_legacy 0 n s t xs"
  "truncate_progressive i n s m t xs = i + truncate_progressive 0 n s m t xs"
proof -
  have "truncate_markers_only (i + j) t xs = i + truncate_markers_only j t xs" for j
    by (induction j t xs rule: truncate_markers_only.induct) (auto split: option.splits prod.splits)
  from this [of 0] show "truncate_markers_only i t xs = i + truncate_markers_only 0 t xs" by simp
  have "truncate_legacy (i + j) n s t xs = i + truncate_legacy j n s t xs" for j
    by (induction j n s t xs rule: truncate_legacy.induct) (auto split: option.splits prod.splits)
  from this [of 0] show "truncate_legacy i n s t xs = i + truncate_legacy 0 n s t xs" by simp
  have "truncate_progressive (i + j) n s m t xs = i + truncate_progressive j n s m t xs" for j
    by (induction j n s m t xs rule: truncate_progressive.induct) (auto split: option.splits prod.splits)
  from this [of 0] show "truncate_progressive i n s m t xs = i + truncate_progressive 0 n s m t xs"
    by simp
qed

lemma markers_only_good: "good_cut xs t (truncate_markers_only 0 t xs)"
proof (induction xs)
  case (Cons x xs)
  then show ?case
    by (cases x) (auto simp: shift_cut(1) [of "Suc 0"] good_cut_here good_cut_later split: option.splits prod.splits)
qed (simp add: good_cut_Nil)

lemma legacy_good:
  "\<forall>x \<in> set xs. item_marker x = None \<Longrightarrow> good_cut xs t (truncate_legacy 0 n s t xs)"
proof (induction xs arbitrary: n s)
  case (Cons x xs)
  then show ?case
    by (cases x)
      (auto simp: shift_cut(2) [of "Suc 0"] good_cut_here good_cut_later split: option.splits prod.splits)
qed (simp add: good_cut_Nil)

lemma progressive_good: "good_cut xs t (truncate_progressive 0 n s m t xs)"
proof (induction xs arbitrary: n s m)
  case (Cons x xs)
  then show ?case
    by (cases x)
      (auto simp: shift_cut(3) [of "Suc 0"] good_cut_here good_cut_later split: option.splits prod.splits)
qed (simp add: good_cut_Nil)

lemma truncate_good_cut: "good_cut conversation target (conversation_truncate_for_prompt conversation target)"
  by (auto simp: conversation_truncate_for_prompt_def conversation_truncate_legacy_def
      conversation_truncate_markers_only_def conversation_truncate_progressive_def find_map_None
      legacy_good markers_only_good progressive_good split: option.splits prod.splits)

text \<open>
  A rewind keeps nothing of the target turn or a later one. In every counting mode the cut is
  within the conversation and lands on a user item (or at the end), no kept item carries a turn
  marker at or above the target, and the item at the cut, if marked, is at or above it.
\<close>

theorem rewind_cut_good: "good_cut conversation target (conversation_truncate_for_prompt conversation target)"
  by (rule truncate_good_cut)

lemma markers_only_mono: "t \<le> t' \<Longrightarrow> truncate_markers_only 0 t xs \<le> truncate_markers_only 0 t' xs"
proof (induction xs)
  case (Cons x xs)
  then show ?case
    by (cases x) (auto simp: shift_cut(1) [of "Suc 0"] split: option.splits prod.splits)
qed simp

lemma legacy_mono: "t \<le> t' \<Longrightarrow> truncate_legacy 0 n s t xs \<le> truncate_legacy 0 n s t' xs"
proof (induction xs arbitrary: n s)
  case (Cons x xs)
  then show ?case
    by (cases x) (auto simp: shift_cut(2) [of "Suc 0"] split: option.splits prod.splits)
qed simp

lemma progressive_mono:
  "t \<le> t' \<Longrightarrow> truncate_progressive 0 n s m t xs \<le> truncate_progressive 0 n s m t' xs"
proof (induction xs arbitrary: n s m)
  case (Cons x xs)
  then show ?case
    by (cases x) (auto simp: shift_cut(3) [of "Suc 0"] split: option.splits prod.splits)
qed simp

text \<open>
  Rewinding further back keeps less: the number of items kept is monotone in the target turn,
  whatever the mode, since the mode depends on the conversation alone.
\<close>

theorem rewind_mono:
  assumes "t \<le> t'"
  shows "conversation_truncate_for_prompt conversation t \<le> conversation_truncate_for_prompt conversation t'"
  using assms
  by (simp add: conversation_truncate_for_prompt_def conversation_truncate_legacy_def
      conversation_truncate_markers_only_def conversation_truncate_progressive_def
      legacy_mono markers_only_mono progressive_mono split: option.splits prod.splits)

lemma rewind_mono_witness:
  "conversation_truncate_for_prompt [user_msg ''a'', user_msg ''b''] 0 \<le>
   conversation_truncate_for_prompt [user_msg ''a'', user_msg ''b''] 1"
  by (rule rewind_mono) simp

section \<open>Contiguous markers\<close>

text \<open>
  When the turn starters carry the markers \<open>0, 1, ...\<close> in order, as the turn pipeline stamps them,
  the cut for turn \<open>t\<close> is the position of marker \<open>t\<close>.
\<close>

lemma rewind_exact:
  assumes "k < length conversation" and "item_marker (conversation ! k) = Some target"
    and "\<forall>j < k. \<not> (\<exists>idx. item_marker (conversation ! j) = Some idx \<and> target \<le> idx)"
    and "\<forall>j < k. is_user (conversation ! j) \<longrightarrow> item_marker (conversation ! j) \<noteq> None"
  shows "conversation_truncate_for_prompt conversation target = k"
proof -
  let ?p = "conversation_truncate_for_prompt conversation target"
  have g: "good_cut conversation target ?p" by (rule truncate_good_cut)
  have "\<not> k < ?p" using g assms(2) by (auto simp: good_cut_def)
  moreover have "\<not> ?p < k"
  proof
    assume lt: "?p < k"
    then have "is_user (conversation ! ?p)"
      and low: "\<And>idx. item_marker (conversation ! ?p) = Some idx \<Longrightarrow> target \<le> idx"
      using g assms(1) by (auto simp: good_cut_def)
    with lt assms(4) obtain idx where "item_marker (conversation ! ?p) = Some idx" by blast
    with low assms(3) lt show False by blast
  qed
  ultimately show ?thesis by simp
qed

end
