(* ===== verification/ChatState.thy ===== *)
theory ChatState
  imports Usage TokenEstimation Rewind
begin

section \<open>The chat state\<close>

text \<open>
  Models \<open>hystersis-chat-state/src/types.rs\<close> and \<open>actor/state.rs\<close>: the state the chat-state
  actor owns, and the token estimates it is driven by.  Sums of estimates are 64-bit and wrap.
  \<^item> A summary that panics (\<open>Conversation.text_summary\<close>) aborts the process; the estimates are
    those of a run that does not, and count nothing for such an item.
  \<^item> A tool's parameters are the JSON text \<open>serde_json\<close> prints for them.
  \<^item> Of the sampling configuration, the fields the actor reads are kept.
\<close>

record tool_spec =
  tool_name :: rstr
  description :: "rstr option"
  parameters_json :: rstr

definition estimate_system_message_tokens :: "conversation_item \<Rightarrow> u64" where
  "estimate_system_message_tokens item =
     (case item of System s \<Rightarrow> estimate_tokens s | _ \<Rightarrow> 0)"

definition estimate_tool_tokens :: "rstr \<Rightarrow> rstr option \<Rightarrow> rstr \<Rightarrow> u64" where
  "estimate_tool_tokens name desc params =
     (let desc_len = (case desc of Some d \<Rightarrow> length d | None \<Rightarrow> 0)
      in word_of_nat (length name + desc_len + length params) div BYTES_PER_TOKEN)"

definition estimate_tool_specs_tokens :: "tool_spec list \<Rightarrow> u64" where
  "estimate_tool_specs_tokens tools =
     sum_list (map (\<lambda>t. estimate_tool_tokens (tool_name t) (description t) (parameters_json t)) tools)"

definition summary_text :: "backend_tool_kind \<Rightarrow> rstr" where
  "summary_text b = (case text_summary b of Some t \<Rightarrow> t | None \<Rightarrow> '''')"

text \<open>The loop over the parts of a user item: text bytes and images.\<close>

fun count_parts :: "nat \<Rightarrow> u64 \<Rightarrow> content_part list \<Rightarrow> nat \<times> u64" where
  "count_parts bytes imgs [] = (bytes, imgs)"
| "count_parts bytes imgs (Text_part t # ps) = count_parts (bytes + length t) imgs ps"
| "count_parts bytes imgs (Image_part _ # ps) = count_parts bytes (imgs + 1) ps"

definition estimate_item_tokens :: "conversation_item \<Rightarrow> u64" where
  "estimate_item_tokens item =
     (case item of
        System s \<Rightarrow> estimate_tokens s
      | User u \<Rightarrow>
          (let (bytes, imgs) = count_parts 0 0 (user_content u)
           in word_of_nat bytes div BYTES_PER_TOKEN + estimate_image_tokens imgs)
      | Assistant a \<Rightarrow>
          word_of_nat (length (assistant_content a) +
            sum_list (map (\<lambda>tc. length (arguments tc)) (tool_calls a))) div BYTES_PER_TOKEN
      | ToolResult tr \<Rightarrow> estimate_tokens (result_content tr)
      | BackendToolCall b \<Rightarrow> estimate_tokens (summary_text b)
      | Reasoning r \<Rightarrow>
          (let text_bytes = length (reasoning_item_text r);
               enc_bytes = (case encrypted_content r of Some e \<Rightarrow> length e | None \<Rightarrow> 0)
           in word_of_nat (text_bytes + enc_bytes) div BYTES_PER_TOKEN))"

definition estimate_conversation_tokens :: "conversation_item list \<Rightarrow> u64" where
  "estimate_conversation_tokens items = sum_list (map estimate_item_tokens items)"

fun is_system :: "conversation_item \<Rightarrow> bool" where
  "is_system (System _) = True"
| "is_system _ = False"

definition estimate_messages_tokens :: "conversation_item list \<Rightarrow> u64" where
  "estimate_messages_tokens items =
     sum_list (map estimate_item_tokens (filter (\<lambda>i. \<not> is_system i) items))"

definition count_item_tokens :: "conversation_item \<Rightarrow> nat" where
  "count_item_tokens item = min (unat (estimate_item_tokens item)) (2 ^ 32 - 1)"

record sampling_config =
  base_url :: rstr
  model :: rstr
  max_completion_tokens :: "u32 option"
  temperature :: "rat option"
  top_p :: "rat option"
  context_window :: u64
  config_effort :: "reasoning_effort option"

datatype auth_type = SessionToken | ApiKey

record credentials =
  api_key :: "rstr option"
  auth_type :: auth_type
  alpha_test_key :: "rstr option"
  client_version :: "rstr option"

definition credentials_default :: credentials where
  "credentials_default =
     \<lparr>api_key = None, auth_type = SessionToken, alpha_test_key = None, client_version = None\<rparr>"

record pruning_config =
  pruning_enabled :: bool
  keep_last_n_turns :: nat
  soft_trim_threshold :: nat
  soft_trim_head :: nat
  soft_trim_tail :: nat
  hard_clear_age_turns :: nat

definition pruning_default :: pruning_config where
  "pruning_default =
     \<lparr>pruning_enabled = True, keep_last_n_turns = 3, soft_trim_threshold = 4000,
      soft_trim_head = 1500, soft_trim_tail = 1500, hard_clear_age_turns = 10\<rparr>"

record turn_capture_state =
  turn_start_offset :: nat
  pre_replacement_messages :: "conversation_item list"
  compaction_occurred :: bool

record turn_capture_msg =
  captured_messages :: "conversation_item list"
  captured_compaction :: bool

record conversation_counts =
  count_total :: nat
  count_user :: nat
  count_assistant :: nat
  count_tool_result :: nat

record auto_compact_trigger =
  trigger_total_tokens :: u64
  trigger_context_window :: u64
  utilization_percent :: u8

record notification_meta =
  meta_stream_start_ms :: "int option"
  meta_turn_start_ms :: "int option"

record chat_snapshot =
  snap_conversation :: "conversation_item list"
  snap_sampling_config :: sampling_config
  snap_prompt_index :: nat
  snap_total_tokens :: u64
  snap_estimate_at_last_response :: u64
  snap_agent_edited_paths :: "rstr set"
  snap_prompt_texts :: "rstr list"
  snap_stream_start_ms :: "int option"
  snap_turn_start_ms :: "int option"
  snap_last_compaction_prompt_index :: "nat option"
  snap_credentials :: credentials

record chat_state =
  conversation :: "conversation_item list"
  sampling_config :: sampling_config
  prompt_idx :: nat
  prompt_texts :: "rstr list"
  total_tokens :: u64
  stream_start_ms :: "int option"
  turn_start_ms :: "int option"
  agent_edited_paths :: "rstr set"
  last_compaction_prompt_index :: "nat option"
  credentials :: credentials
  estimated_tokens_since_model :: u64
  estimate_at_last_response :: u64
  last_turn_usage :: "token_usage option"
  prompt_usage :: "usage_ledger option"
  session_usage :: usage_ledger
  turn_capture :: "turn_capture_state option"
  harness_trace_buffer :: "conversation_item list"
  harness_trace_turns :: "conversation_item list list"

definition chat_state_new :: "conversation_item list \<Rightarrow> sampling_config \<Rightarrow> chat_state" where
  "chat_state_new conv cfg =
     (let (conv, deduped) = dedup_duplicate_tool_results conv;
          (conv, inserted) = repair_dangling_tool_calls UserCancelled conv;
          initial_tokens = estimate_conversation_tokens conv
      in \<lparr>conversation = conv, sampling_config = cfg, prompt_idx = 0, prompt_texts = [],
          total_tokens = initial_tokens, stream_start_ms = None, turn_start_ms = None,
          agent_edited_paths = {}, last_compaction_prompt_index = None,
          credentials = credentials_default, estimated_tokens_since_model = 0,
          estimate_at_last_response = initial_tokens, last_turn_usage = None,
          prompt_usage = None, session_usage = ledger_default, turn_capture = None,
          harness_trace_buffer = [], harness_trace_turns = []\<rparr>)"

definition seal_harness_trace_turn :: "chat_state \<Rightarrow> chat_state" where
  "seal_harness_trace_turn s =
     (if harness_trace_buffer s \<noteq> []
      then s\<lparr>harness_trace_turns := harness_trace_turns s @ [harness_trace_buffer s],
             harness_trace_buffer := []\<rparr>
      else s)"

section \<open>Estimates\<close>

lemma estimate_append [simp]:
  "estimate_conversation_tokens (xs @ ys) =
     estimate_conversation_tokens xs + estimate_conversation_tokens ys"
  by (simp add: estimate_conversation_tokens_def)

lemma estimate_Nil [simp]: "estimate_conversation_tokens [] = 0"
  by (simp add: estimate_conversation_tokens_def)

lemma estimate_single [simp]: "estimate_conversation_tokens [x] = estimate_item_tokens x"
  by (simp add: estimate_conversation_tokens_def)

lemma chat_state_new_no_dangling: "\<not> has_dangling_tool_calls (conversation (chat_state_new conv cfg))"
  using has_dangling_repair
  by (simp add: chat_state_new_def split_beta Let_def)

end
