(* ===== verification/RequestBuilder.thy ===== *)
theory RequestBuilder
  imports ChatState
begin

section \<open>Pruning and memory injection\<close>

text \<open>
  Models the standalone functions of \<open>hystersis-chat-state/src/actor/request_builder.rs\<close> and of
  \<open>conversation_util.rs\<close>.  A loop over the indices from the end is the recursion on the reversed
  conversation.
\<close>

definition ellipsis :: rstr where
  "ellipsis = [CHR 0xE2, CHR 0x80, CHR 0xA6]"

definition HARD_CLEAR_PLACEHOLDER :: rstr where
  "HARD_CLEAR_PLACEHOLDER = ''[Tool result omitted '' @ em_dash @ '' too old]''"

definition SOFT_TRIM_SEPARATOR :: rstr where
  "SOFT_TRIM_SEPARATOR = nl @ nl @ ''['' @ ellipsis @ ''trimmed'' @ ellipsis @ '']'' @ nl @ nl"

definition should_prune :: "u64 \<Rightarrow> u64 \<Rightarrow> bool" where
  "should_prune tokens cw \<longleftrightarrow> cw div 2 < tokens"

definition safe_char_slice :: "rstr \<Rightarrow> nat \<Rightarrow> nat \<Rightarrow> rstr" where
  "safe_char_slice s start count = concat (take count (drop start (chars_of s)))"

definition safe_char_slice_tail :: "rstr \<Rightarrow> nat \<Rightarrow> rstr" where
  "safe_char_slice_tail s count =
     (let n = char_count s in if n \<le> count then s else skip_chars (n - count) s)"

definition prune_result :: "pruning_config \<Rightarrow> nat \<Rightarrow> tool_result_item \<Rightarrow> tool_result_item" where
  "prune_result cfg turn_from_end t =
     (if turn_from_end < keep_last_n_turns cfg then t
      else if hard_clear_age_turns cfg \<le> turn_from_end then
        (if result_content t \<noteq> HARD_CLEAR_PLACEHOLDER
         then t\<lparr>result_content := HARD_CLEAR_PLACEHOLDER\<rparr> else t)
      else if soft_trim_threshold cfg < char_count (result_content t) then
        t\<lparr>result_content :=
            safe_char_slice (result_content t) 0 (soft_trim_head cfg) @ SOFT_TRIM_SEPARATOR @
            safe_char_slice_tail (result_content t) (soft_trim_tail cfg)\<rparr>
      else t)"

fun prune_back ::
  "pruning_config \<Rightarrow> nat \<Rightarrow> bool \<Rightarrow> conversation_item list \<Rightarrow> conversation_item list" where
  "prune_back cfg turn_from_end seen_first_user [] = []"
| "prune_back cfg turn_from_end seen_first_user (item # earlier) =
     (case item of
        User u \<Rightarrow>
          item # prune_back cfg (if seen_first_user then turn_from_end + 1 else turn_from_end) True earlier
      | ToolResult t \<Rightarrow>
          ToolResult (prune_result cfg turn_from_end t) #
          prune_back cfg turn_from_end seen_first_user earlier
      | _ \<Rightarrow> item # prune_back cfg turn_from_end seen_first_user earlier)"

definition prune_conversation ::
  "pruning_config \<Rightarrow> conversation_item list \<Rightarrow> conversation_item list" where
  "prune_conversation cfg conv =
     (if \<not> pruning_enabled cfg then conv else rev (prune_back cfg 0 False (rev conv)))"

subsection \<open>Memory reminders\<close>

definition MEMORY_CONTEXT_OPEN_TAG :: rstr where
  "MEMORY_CONTEXT_OPEN_TAG = ''<memory-context>''"

definition trim_newlines :: "rstr \<Rightarrow> rstr" where
  "trim_newlines s = drop_end (\<lambda>c. c = CHR 0x0A) s"

definition upsert_memory_reminder_text :: "rstr \<Rightarrow> rstr \<Rightarrow> rstr \<times> bool" where
  "upsert_memory_reminder_text prompt reminder =
     (let existing_start =
            map_option (\<lambda>idx. length (trim_newlines (take idx prompt)))
              (str_find MEMORY_CONTEXT_OPEN_TAG prompt);
          updated =
            (case existing_start of
               Some prefix_len \<Rightarrow>
                 (let prefix = trim_newlines (take prefix_len prompt)
                  in if prefix = '''' then reminder else prefix @ nl @ nl @ reminder)
             | None \<Rightarrow>
                 if trim_end prompt = reminder then prompt
                 else if prompt = '''' then reminder
                 else trim_newlines prompt @ nl @ nl @ reminder)
      in if prompt = updated then (prompt, False) else (updated, True))"

definition inject_memory_reminder ::
  "conversation_item list \<Rightarrow> rstr \<Rightarrow> conversation_item list \<times> bool" where
  "inject_memory_reminder items reminder =
     (let reminder = trim reminder
      in if reminder = '''' then (items, False)
         else case items of
                System s # rest \<Rightarrow>
                  (let (s', changed) = upsert_memory_reminder_text s reminder
                   in (System s' # rest, changed))
              | _ \<Rightarrow> (system_msg reminder # items, True))"

subsection \<open>The system head\<close>

definition trim_newlines_cr :: "rstr \<Rightarrow> rstr" where
  "trim_newlines_cr s = drop_end (\<lambda>c. c = CHR 0x0A \<or> c = CHR 0x0D) s"

definition canonical_system_prompt_eq :: "rstr \<Rightarrow> rstr \<Rightarrow> bool" where
  "canonical_system_prompt_eq a b \<longleftrightarrow> trim_newlines_cr a = trim_newlines_cr b"

definition replace_or_insert_system_head ::
  "conversation_item list \<Rightarrow> rstr \<Rightarrow> conversation_item list \<times> bool" where
  "replace_or_insert_system_head conv prompt =
     (case conv of
        System s # rest \<Rightarrow>
          (if canonical_system_prompt_eq s prompt then (conv, False) else (System prompt # rest, True))
      | _ \<Rightarrow> (system_msg prompt # conv, True))"

section \<open>What pruning keeps\<close>

text \<open>
  Items related by \<open>same_shape\<close> differ at most in the text of a tool result.
\<close>

definition same_shape :: "conversation_item \<Rightarrow> conversation_item \<Rightarrow> bool" where
  "same_shape x y \<longleftrightarrow>
     (case (x, y) of
        (ToolResult t, ToolResult u) \<Rightarrow> u = t\<lparr>result_content := result_content u\<rparr>
      | _ \<Rightarrow> x = y)"

lemma same_shape_refl [simp]: "same_shape x x"
  by (cases x) (simp_all add: same_shape_def)

lemma prune_result_shape: "same_shape (ToolResult t) (ToolResult (prune_result cfg n t))"
  by (simp add: same_shape_def prune_result_def)

lemma prune_back_shape: "list_all2 same_shape items (prune_back cfg n s items)"
proof (induction cfg n s items rule: prune_back.induct)
  case (2 cfg n s item earlier)
  then show ?case by (cases item) (simp_all add: prune_result_shape)
qed simp

lemma prune_shape: "list_all2 same_shape conv (prune_conversation cfg conv)"
proof -
  have "list_all2 same_shape (rev (rev conv)) (rev (prune_back cfg 0 False (rev conv)))"
    by (simp only: list_all2_rev prune_back_shape)
  then show ?thesis by (simp add: prune_conversation_def list_all2_refl)
qed

lemma same_shape_pairing: "same_shape x y \<Longrightarrow> pairing_shape y = pairing_shape x"
proof (cases x)
  case (ToolResult t)
  moreover assume "same_shape x y"
  ultimately obtain u where "y = ToolResult u" "u = t\<lparr>result_content := result_content u\<rparr>"
    by (cases y) (auto simp: same_shape_def)
  then have "tool_call_id u = tool_call_id t" by (metis tool_result_item.select_convs(1)
      tool_result_item.surjective tool_result_item.update_convs(2))
  then show ?thesis using ToolResult \<open>y = _\<close> by (simp add: pairing_shape_def owner_ids_def)
qed (simp_all add: same_shape_def)

lemma shapes_pairing: "list_all2 same_shape xs ys \<Longrightarrow> map pairing_shape ys = map pairing_shape xs"
  by (induction rule: list_all2_induct) (simp_all add: same_shape_pairing)

section \<open>Which results are pruned\<close>

definition users :: "conversation_item list \<Rightarrow> nat" where
  "users items = length (filter is_user items)"

definition prune_item :: "pruning_config \<Rightarrow> nat \<Rightarrow> conversation_item \<Rightarrow> conversation_item" where
  "prune_item cfg age item =
     (case item of ToolResult t \<Rightarrow> ToolResult (prune_result cfg age t) | _ \<Rightarrow> item)"

lemma prune_back_nth:
  "j < length items \<Longrightarrow>
     prune_back cfg (u - 1) (0 < u) items ! j =
       prune_item cfg (u + users (take j items) - 1) (items ! j)"
proof (induction items arbitrary: u j)
  case (Cons x xs)
  have user: "prune_back cfg (if 0 < u then u - 1 + 1 else u - 1) True xs =
      prune_back cfg (Suc u - 1) (0 < Suc u) xs"
    by simp
  show ?case
  proof (cases j)
    case 0
    then show ?thesis by (cases x) (simp_all add: prune_item_def users_def)
  next
    case (Suc i)
    then have i: "i < length xs" using Cons.prems by simp
    show ?thesis
    proof (cases x)
      case (User v)
      then show ?thesis using Cons.IH [OF i, of "Suc u"] Suc user by (cases "u = 0") (simp_all add: users_def)
    qed (use Cons.IH [OF i, of u] Suc in \<open>simp_all add: users_def\<close>)
  qed
qed simp

lemma prune_back_length: "length (prune_back cfg n s items) = length items"
  using prune_back_shape [of items cfg n s] by (simp add: list_all2_lengthD)

text \<open>
  Pruning treats each tool result by its age, the number of user turns after it: an item with
  age below \<open>keep_last_n_turns\<close> is untouched, one at or above \<open>hard_clear_age_turns\<close> becomes the
  placeholder, one between is trimmed when it is over the threshold; nothing else changes.
\<close>

theorem prune_by_age:
  assumes "pruning_enabled cfg" and "k < length conv"
  shows "prune_conversation cfg conv ! k =
           prune_item cfg (users (drop (Suc k) conv) - 1) (conv ! k)"
proof -
  have j: "length conv - Suc k < length (rev conv)" using assms(2) by simp
  have "prune_conversation cfg conv ! k = prune_back cfg 0 False (rev conv) ! (length conv - Suc k)"
    using assms by (simp add: prune_conversation_def rev_nth prune_back_length)
  also have "\<dots> = prune_item cfg (users (take (length conv - Suc k) (rev conv)) - 1)
      (rev conv ! (length conv - Suc k))"
    using prune_back_nth [OF j, of cfg 0] by simp
  also have "rev conv ! (length conv - Suc k) = conv ! k" using assms(2) by (simp add: rev_nth)
  also have "users (take (length conv - Suc k) (rev conv)) = users (drop (Suc k) conv)"
    using assms(2) by (simp add: users_def take_rev rev_filter [symmetric])
  finally show ?thesis .
qed

lemma prune_by_age_witness:
  "prune_conversation pruning_default [tool_result ''c'' ''x'', user_msg ''a''] ! 0 =
     prune_item pruning_default 0 (tool_result ''c'' ''x'')"
  using prune_by_age [of pruning_default 0 "[tool_result ''c'' ''x'', user_msg ''a'']"]
  by (simp add: pruning_default_def users_def user_msg_def user_text_def)

text \<open>
  Pruning never breaks tool pairing: a well-paired conversation stays well paired, with the
  same number of items.
\<close>

theorem prune_well_paired:
  assumes "well_paired conv"
  shows "well_paired (prune_conversation cfg conv) \<and>
         length (prune_conversation cfg conv) = length conv"
  using well_paired_shape [OF assms shapes_pairing [OF prune_shape]] prune_shape [of conv cfg]
  by (simp add: list_all2_lengthD)

lemma prune_well_paired_witness:
  "well_paired (prune_conversation pruning_default [user_msg ''a'']) \<and>
   length (prune_conversation pruning_default [user_msg ''a'']) = length [user_msg ''a'']"
proof (rule prune_well_paired)
  have "well_paired (user_msg ''a'' # [] @ [])"
    by (intro paired_block paired_nil) (simp_all add: user_msg_def user_text_def owner_ids_def)
  then show "well_paired [user_msg ''a'']" by simp
qed

section \<open>Memory blocks do not accumulate\<close>

lemma trim_newlines_fixed [simp]: "trim_newlines (trim_newlines s) = trim_newlines s"
  by (simp add: trim_newlines_def)

lemma trim_newlines_snoc [simp]: "trim_newlines (s @ nl @ nl) = trim_newlines s"
  "trim_newlines (s @ nl) = trim_newlines s" "trim_newlines [] = []" "trim_newlines nl = []"
  by (simp_all add: trim_newlines_def drop_end_def nl_def)

lemma trim_newlines_prefix: "\<exists>t. s = trim_newlines s @ t"
  using drop_end_prefix [of s "\<lambda>c. c = CHR 0x0A"] by (auto simp: trim_newlines_def)

lemma take_trim_newlines [simp]: "take (length (trim_newlines s)) s = trim_newlines s"
  using trim_newlines_prefix [of s] by (metis append_eq_conv_conj)

lemma trim_newlines_take:
  "trim_newlines (take (length (trim_newlines (take i s))) s) = trim_newlines (take i s)"
proof -
  obtain t where "take i s = trim_newlines (take i s) @ t" using trim_newlines_prefix by blast
  then have "s = trim_newlines (take i s) @ t @ drop i s" by (metis append.assoc append_take_drop_id)
  then have "take (length (trim_newlines (take i s))) s = trim_newlines (take i s)"
    by (metis append_eq_conv_conj)
  then show ?thesis by simp
qed

lemma not_contains_prefix: "\<not> contains (a @ b) p \<Longrightarrow> \<not> contains a p"
  by (metis append.assoc contains_iff)

lemma str_find_past_newline:
  assumes "\<not> contains q p" and "CHR 0x0A \<notin> set p" and "p \<noteq> []"
  shows "str_find p (q @ CHR 0x0A # w) = map_option (\<lambda>i. i + length q + 1) (str_find p w)"
  using assms(1)
proof (induction q)
  case Nil
  have "\<not> starts_with (CHR 0x0A # w) p"
    using assms(2,3) by (cases p) (auto simp: starts_with_def)
  then show ?case by (simp add: option.map_ident)
next
  case (Cons c q)
  have "\<not> starts_with (c # q @ CHR 0x0A # w) p"
  proof
    assume "starts_with (c # q @ CHR 0x0A # w) p"
    then obtain t where t: "(c # q) @ CHR 0x0A # w = p @ t" by (auto simp: starts_with_iff)
    then obtain us where "c # q = p @ us \<and> us @ CHR 0x0A # w = t \<or>
        (c # q) @ us = p \<and> CHR 0x0A # w = us @ t"
      using append_eq_append_conv2 [THEN iffD1, OF t] by blast
    then show False
    proof
      assume "c # q = p @ us \<and> us @ CHR 0x0A # w = t"
      then show False using Cons.prems contains_iff [of "c # q" p] by (metis append_Nil)
    next
      assume us: "(c # q) @ us = p \<and> CHR 0x0A # w = us @ t"
      show False
      proof (cases us)
        case Nil
        then have "p = c # q" using us by simp
        then show False using Cons.prems contains_iff [of "c # q" p] by (metis append_Nil append_Nil2)
      next
        case (Cons d ds)
        then have "CHR 0x0A \<in> set p" using us by auto
        then show False using assms(2) by simp
      qed
    qed
  qed
  moreover have "\<not> contains q p" using Cons.prems by (auto simp: contains_iff) (metis append_Cons)
  ultimately show ?case using Cons.IH by (simp add: option.map_comp comp_def)
qed

lemma str_find_here: "starts_with s p \<Longrightarrow> str_find p s = Some 0"
  by (cases s) (auto simp: starts_with_def)

lemma tag_no_newline: "CHR 0x0A \<notin> set MEMORY_CONTEXT_OPEN_TAG" "MEMORY_CONTEXT_OPEN_TAG \<noteq> []"
  by (simp_all add: MEMORY_CONTEXT_OPEN_TAG_def)

definition block_after :: "rstr \<Rightarrow> rstr \<Rightarrow> rstr" where
  "block_after q r = (if q = '''' then r else q @ nl @ nl @ r)"

lemma upsert_found:
  assumes "str_find MEMORY_CONTEXT_OPEN_TAG s = Some i"
  shows "fst (upsert_memory_reminder_text s r) = block_after (trim_newlines (take i s)) r"
  using trim_newlines_take [of i s]
  by (simp add: upsert_memory_reminder_text_def Let_def block_after_def assms)

lemma upsert_after_block:
  assumes "starts_with r1 MEMORY_CONTEXT_OPEN_TAG" and "\<not> contains q MEMORY_CONTEXT_OPEN_TAG"
    and "trim_newlines q = q"
  shows "fst (upsert_memory_reminder_text (block_after q r1) r2) = block_after q r2"
proof -
  let ?i = "if q = '''' then 0 else length q + 2"
  have "str_find MEMORY_CONTEXT_OPEN_TAG (block_after q r1) = Some ?i"
  proof (cases "q = ''''")
    case True
    then show ?thesis using assms(1) by (simp add: block_after_def str_find_here)
  next
    case False
    have e: "\<not> contains [] MEMORY_CONTEXT_OPEN_TAG" using tag_no_newline(2) by (simp add: contains_iff)
    have "str_find MEMORY_CONTEXT_OPEN_TAG ([] @ CHR 0x0A # r1) = Some 1"
      using str_find_past_newline [OF e tag_no_newline] assms(1) by (simp add: str_find_here)
    then show ?thesis
      using False str_find_past_newline [OF assms(2) tag_no_newline, of "CHR 0x0A # r1"]
      by (simp add: block_after_def nl_def)
  qed
  moreover have "trim_newlines (take ?i (block_after q r1)) = q"
    using assms(3) trim_newlines_snoc(1) [of q] by (auto simp: block_after_def nl_def)
  ultimately show ?thesis using upsert_found by metis
qed

lemma upsert_is_block:
  assumes "starts_with r MEMORY_CONTEXT_OPEN_TAG" and "trim_newlines s \<noteq> '''' \<or> s = ''''"
  shows "\<exists>q. fst (upsert_memory_reminder_text s r) = block_after q r \<and> trim_newlines q = q \<and>
           \<not> contains q MEMORY_CONTEXT_OPEN_TAG \<and>
           (\<forall>r'. starts_with r' MEMORY_CONTEXT_OPEN_TAG \<longrightarrow>
              fst (upsert_memory_reminder_text s r') = block_after q r')"
proof (cases "str_find MEMORY_CONTEXT_OPEN_TAG s")
  case (Some i)
  let ?q = "trim_newlines (take i s)"
  have "fst (upsert_memory_reminder_text s r') = block_after ?q r'" for r'
    using Some by (rule upsert_found)
  moreover have "\<not> contains ?q MEMORY_CONTEXT_OPEN_TAG"
  proof -
    have "\<not> contains (take i s) MEMORY_CONTEXT_OPEN_TAG"
    proof
      assume "contains (take i s) MEMORY_CONTEXT_OPEN_TAG"
      then obtain a t where "take i s = a @ MEMORY_CONTEXT_OPEN_TAG @ t" by (auto simp: contains_iff)
      note a = this
      have s: "s = a @ MEMORY_CONTEXT_OPEN_TAG @ t @ drop i s"
        using append_take_drop_id [of i s] unfolding a by simp
      have len: "length a + 16 \<le> i"
        using arg_cong [OF a, of length] by (simp add: MEMORY_CONTEXT_OPEN_TAG_def)
      have "str_find p (b @ p @ u) \<noteq> None \<and> the (str_find p (b @ p @ u)) \<le> length b" for p b u :: rstr
        by (induction b) (auto simp: str_find_here)
      from this [of MEMORY_CONTEXT_OPEN_TAG a "t @ drop i s"] Some len show False
        unfolding s [symmetric] by simp
    qed
    then show ?thesis using trim_newlines_prefix [of "take i s"] not_contains_prefix by metis
  qed
  ultimately show ?thesis by (intro exI [of _ ?q]) simp
next
  case None
  let ?q = "trim_newlines s"
  have no: "\<not> contains s MEMORY_CONTEXT_OPEN_TAG" using None by (simp add: contains_def)
  have "fst (upsert_memory_reminder_text s r') = block_after ?q r'"
    if "starts_with r' MEMORY_CONTEXT_OPEN_TAG" for r'
  proof -
    have "trim_end s \<noteq> r'"
    proof
      assume "trim_end s = r'"
      moreover obtain ys where "chars_of s = drop_end is_whitespace (chars_of s) @ ys"
        using drop_end_prefix by metis
      then have "s = trim_end s @ concat ys"
        unfolding trim_end_def by (metis concat_append concat_chars_of)
      ultimately have "contains s MEMORY_CONTEXT_OPEN_TAG"
        using that by (metis append.assoc append_Nil contains_iff starts_with_iff)
      with no show False by simp
    qed
    then show ?thesis
      using None assms(2) by (auto simp: upsert_memory_reminder_text_def Let_def block_after_def)
  qed
  moreover have "\<not> contains ?q MEMORY_CONTEXT_OPEN_TAG"
    using no trim_newlines_prefix [of s] not_contains_prefix by metis
  ultimately show ?thesis using assms(1) by (intro exI [of _ ?q]) simp
qed

text \<open>
  Injecting memory repeatedly never lets blocks pile up in the system prompt: a second
  reminder replaces the first, leaving exactly the prompt that injecting the second alone gives.
  (The prompt must not consist of newlines only; reminders start with the memory tag.)
\<close>

theorem memory_upsert_replaces:
  assumes "starts_with r1 MEMORY_CONTEXT_OPEN_TAG" and "starts_with r2 MEMORY_CONTEXT_OPEN_TAG"
    and "trim_newlines s \<noteq> '''' \<or> s = ''''"
  shows "fst (upsert_memory_reminder_text (fst (upsert_memory_reminder_text s r1)) r2) =
           fst (upsert_memory_reminder_text s r2)"
  using upsert_is_block [OF assms(1,3)] upsert_after_block [OF assms(1)] assms(2) by metis

lemma memory_upsert_replaces_witness:
  "fst (upsert_memory_reminder_text (fst (upsert_memory_reminder_text ''Be kind.'' ''<memory-context>a'')) ''<memory-context>b'') =
     fst (upsert_memory_reminder_text ''Be kind.'' ''<memory-context>b'')"
  by (rule memory_upsert_replaces)
    (simp_all add: starts_with_def MEMORY_CONTEXT_OPEN_TAG_def trim_newlines_def drop_end_def)

text \<open>
  Whatever follows the old block in the system prompt goes with it: the new block takes the place
  of the whole tail, not of the old block alone.
\<close>

lemma upsert_drops_tail:
  assumes "\<not> contains p MEMORY_CONTEXT_OPEN_TAG" and "trim_newlines p = p"
  shows "fst (upsert_memory_reminder_text (block_after p (MEMORY_CONTEXT_OPEN_TAG @ old_block_and_tail)) r) =
           block_after p r"
  by (rule upsert_after_block [OF _ assms]) simp

end
