(* ===== verification/ImageBudget.thy ===== *)
theory ImageBudget
  imports RequestBuilder
begin

section \<open>The image byte budget\<close>

text \<open>
  Models \<open>hystersis-chat-state/src/image_budget.rs\<close>.  Sizes of JSON encodings are those of
  \<open>serde_json\<close>, which is not part of the repository: they are the argument \<open>js\<close> of the
  definitions.  Byte counts are natural numbers with the saturating subtraction written as such.
\<close>

record json_sizes =
  body_json :: "conversation_item list \<Rightarrow> nat"
  str_json :: "rstr \<Rightarrow> nat"
  part_json :: "content_part \<Rightarrow> nat"

definition IMAGE_COMPACT_PLACEHOLDER :: rstr where
  "IMAGE_COMPACT_PLACEHOLDER =
     ''[An earlier image was removed to keep the request within its size limit and is no longer visible. Do not describe or reason about its contents from memory; ask the user to re-share it if you need to see it again.]''"

definition TOOL_IMAGE_COMPACT_NOTE :: rstr where
  "TOOL_IMAGE_COMPACT_NOTE =
     ''[One or more images from this tool result were removed to keep the request within its size limit and are no longer visible. Do not describe or reason about their contents from memory.]''"

definition MAX_REQUEST_BYTES :: nat where
  "MAX_REQUEST_BYTES = 50 * 1024 * 1024"

definition IMAGE_COMPACT_TRIGGER_BYTES :: nat where
  "IMAGE_COMPACT_TRIGGER_BYTES = MAX_REQUEST_BYTES - 3 * 1024 * 1024"

definition IMAGE_COMPACT_RECLAIM_TARGET_BYTES :: nat where
  "IMAGE_COMPACT_RECLAIM_TARGET_BYTES = MAX_REQUEST_BYTES div 2"

fun is_image :: "content_part \<Rightarrow> bool" where
  "is_image (Image_part _) = True"
| "is_image (Text_part _) = False"

definition inline_image_count :: "conversation_item list \<Rightarrow> nat" where
  "inline_image_count conv =
     sum_list (map (\<lambda>item. case item of
        User u \<Rightarrow> length (filter is_image (user_content u))
      | ToolResult t \<Rightarrow> length (filter is_image (images t))
      | _ \<Rightarrow> 0) conv)"

record image_budget_outcome =
  body_bytes :: nat
  body_bytes_after :: nat
  inline_images :: nat
  needs_image_compaction :: bool
  evicted :: nat

definition encoded_url_bytes :: "json_sizes \<Rightarrow> rstr \<Rightarrow> nat" where
  "encoded_url_bytes js url =
     (case split_once (CHR '','') url of
        None \<Rightarrow> str_json js url - 2
      | Some (header, base64_tail) \<Rightarrow>
          (if starts_with header ''data:'' \<and> ends_with header '';base64''
           then (str_json js header - 2) + 1 + length base64_tail
           else str_json js url - 2))"

definition IMAGE_PART_FRAME_BYTES :: nat where
  "IMAGE_PART_FRAME_BYTES = 25"

fun image_part_bytes :: "json_sizes \<Rightarrow> content_part \<Rightarrow> nat" where
  "image_part_bytes js (Image_part url) = IMAGE_PART_FRAME_BYTES + encoded_url_bytes js url"
| "image_part_bytes js (Text_part _) = 0"

fun blank_image_urls :: "json_sizes \<Rightarrow> content_part list \<Rightarrow> content_part list \<times> nat" where
  "blank_image_urls js [] = ([], 0)"
| "blank_image_urls js (Image_part url # ps) =
     (let (ps', n) = blank_image_urls js ps in (Image_part '''' # ps', encoded_url_bytes js url + n))"
| "blank_image_urls js (Text_part t # ps) =
     (let (ps', n) = blank_image_urls js ps in (Text_part t # ps', n))"

fun blank_conversation :: "json_sizes \<Rightarrow> conversation_item list \<Rightarrow> conversation_item list \<times> nat" where
  "blank_conversation js [] = ([], 0)"
| "blank_conversation js (item # rest) =
     (let (rest', m) = blank_conversation js rest
      in case item of
           User u \<Rightarrow>
             (let (ps, n) = blank_image_urls js (user_content u)
              in (User (u\<lparr>user_content := ps\<rparr>) # rest', n + m))
         | ToolResult t \<Rightarrow>
             (let (ps, n) = blank_image_urls js (images t)
              in (ToolResult (t\<lparr>images := ps\<rparr>) # rest', n + m))
         | _ \<Rightarrow> (item # rest', m))"

definition conversation_body_bytes :: "json_sizes \<Rightarrow> conversation_item list \<Rightarrow> nat" where
  "conversation_body_bytes js conv =
     (let (blanked, image_url_bytes) = blank_conversation js conv
      in body_json js blanked + image_url_bytes)"

datatype image_location = User_image nat nat | Tool_result_image nat

definition locate_item :: "json_sizes \<Rightarrow> nat \<times> conversation_item \<Rightarrow> (image_location \<times> nat) list" where
  "locate_item js = (\<lambda>(item, conversation_item).
     case conversation_item of
       User u \<Rightarrow>
         List.map_filter (\<lambda>(part, p). if is_image p
           then Some (User_image item part, image_part_bytes js p) else None)
           (enumerate 0 (user_content u))
     | ToolResult t \<Rightarrow>
         map (\<lambda>p. (Tool_result_image item, image_part_bytes js p)) (filter is_image (images t))
     | _ \<Rightarrow> [])"

definition locate_images :: "json_sizes \<Rightarrow> conversation_item list \<Rightarrow> (image_location \<times> nat) list" where
  "locate_images js conv = concat (map (locate_item js) (enumerate 0 conv))"

definition placeholder_part :: content_part where
  "placeholder_part = Text_part IMAGE_COMPACT_PLACEHOLDER"

text \<open>\<open>images.remove(position of the first image)\<close>\<close>

fun remove_first_image :: "content_part list \<Rightarrow> content_part list" where
  "remove_first_image [] = []"
| "remove_first_image (p # ps) = (if is_image p then ps else p # remove_first_image ps)"

definition evict_image ::
  "json_sizes \<Rightarrow> image_location \<Rightarrow> nat \<Rightarrow> conversation_item list \<Rightarrow> nat \<Rightarrow> conversation_item list \<times> nat" where
  "evict_image js location image_bytes conv running =
     (case location of
        User_image item part \<Rightarrow>
          (case conv ! item of
             User u \<Rightarrow>
               (conv[item := User (u\<lparr>user_content := (user_content u)[part := placeholder_part]\<rparr>)],
                running - (image_bytes - part_json js placeholder_part))
           | _ \<Rightarrow> (conv, running))
      | Tool_result_image item \<Rightarrow>
          (case conv ! item of
             ToolResult t \<Rightarrow>
               (let imgs = remove_first_image (images t);
                    running = running - (image_bytes + (if imgs \<noteq> [] then 1 else 0))
                in if \<not> contains (result_content t) TOOL_IMAGE_COMPACT_NOTE
                   then (conv[item := ToolResult (t\<lparr>images := imgs,
                           result_content := result_content t @ nl @ nl @ TOOL_IMAGE_COMPACT_NOTE\<rparr>)],
                         running + (str_json js (nl @ nl @ TOOL_IMAGE_COMPACT_NOTE) - 2))
                   else (conv[item := ToolResult (t\<lparr>images := imgs\<rparr>)], running))
           | _ \<Rightarrow> (conv, running)))"

fun evict_loop_images ::
  "json_sizes \<Rightarrow> nat \<Rightarrow> (image_location \<times> nat) list \<Rightarrow> conversation_item list \<Rightarrow> nat \<Rightarrow> nat \<Rightarrow>
     conversation_item list \<times> nat \<times> nat" where
  "evict_loop_images js target_bytes [] conv running n = (conv, running, n)"
| "evict_loop_images js target_bytes ((location, image_bytes) # rest) conv running n =
     (if running \<le> target_bytes then (conv, running, n)
      else let (conv, running) = evict_image js location image_bytes conv running
           in evict_loop_images js target_bytes rest conv running (n + 1))"

definition evict_images_to_budget ::
  "json_sizes \<Rightarrow> conversation_item list \<Rightarrow> nat \<Rightarrow> nat \<Rightarrow> conversation_item list \<times> nat" where
  "evict_images_to_budget js conv current_bytes target_bytes =
     (let (conv', _, n) = evict_loop_images js target_bytes (locate_images js conv) conv current_bytes 0
      in (conv', n))"

definition apply_image_budget_with_limits ::
  "json_sizes \<Rightarrow> conversation_item list \<Rightarrow> nat \<Rightarrow> nat \<Rightarrow> conversation_item list \<times> image_budget_outcome" where
  "apply_image_budget_with_limits js conv trigger_bytes reclaim_target_bytes =
     (let bytes = conversation_body_bytes js conv;
          needs = (trigger_bytes \<le> bytes);
          (conv', n) = (if needs \<and> reclaim_target_bytes < bytes
                        then evict_images_to_budget js conv bytes reclaim_target_bytes
                        else (conv, 0))
      in (conv',
          \<lparr>body_bytes = bytes,
           body_bytes_after = (if n = 0 then bytes else conversation_body_bytes js conv'),
           inline_images = inline_image_count conv, needs_image_compaction = needs, evicted = n\<rparr>))"

definition apply_image_budget ::
  "json_sizes \<Rightarrow> conversation_item list \<Rightarrow> conversation_item list \<times> image_budget_outcome" where
  "apply_image_budget js conv =
     apply_image_budget_with_limits js conv IMAGE_COMPACT_TRIGGER_BYTES IMAGE_COMPACT_RECLAIM_TARGET_BYTES"

section \<open>Eviction order\<close>

definition part_urls :: "content_part list \<Rightarrow> rstr list" where
  "part_urls ps = List.map_filter (stripped_url (\<lambda>_. True)) ps"

lemma part_urls_simps [simp]:
  "part_urls [] = []" "part_urls (Image_part u # ps) = u # part_urls ps"
  "part_urls (Text_part t # ps) = part_urls ps" "part_urls (ps @ qs) = part_urls ps @ part_urls qs"
  by (simp_all add: part_urls_def List.map_filter_simps)

lemma part_urls_none: "\<forall>p \<in> set ps. \<not> is_image p \<Longrightarrow> part_urls ps = []"
proof (induction ps)
  case (Cons p ps)
  then show ?case by (cases p) auto
qed simp

lemma image_urls_parts: "image_urls conv = concat (map (\<lambda>x. part_urls (item_parts x)) conv)"
  by (induction conv) (simp_all add: image_urls_Cons part_urls_def, simp add: image_urls_def List.map_filter_simps)

definition locate_parts :: "json_sizes \<Rightarrow> nat \<Rightarrow> nat \<Rightarrow> content_part list \<Rightarrow> (image_location \<times> nat) list" where
  "locate_parts js item k ps =
     List.map_filter (\<lambda>(part, p). if is_image p
       then Some (User_image item part, image_part_bytes js p) else None) (enumerate k ps)"

lemma locate_parts_simps [simp]:
  "locate_parts js i k [] = []"
  "locate_parts js i k (p # ps) =
     (if is_image p then [(User_image i k, image_part_bytes js p)] else []) @ locate_parts js i (Suc k) ps"
  by (simp_all add: locate_parts_def List.map_filter_simps)

lemma locate_parts_append:
  "locate_parts js i k (ps @ qs) = locate_parts js i k ps @ locate_parts js i (k + length ps) qs"
  by (induction ps arbitrary: k) simp_all

lemma locate_parts_none: "\<forall>p \<in> set ps. \<not> is_image p \<Longrightarrow> locate_parts js i k ps = []"
  by (induction ps arbitrary: k) auto

lemma locate_parts_length: "length (locate_parts js i k ps) = length (part_urls ps)"
proof (induction ps arbitrary: k)
  case (Cons p ps)
  then show ?case by (cases p) simp_all
qed simp

lemma locate_item_simps [simp]:
  "locate_item js (i, User u) = locate_parts js i 0 (user_content u)"
  "locate_item js (i, ToolResult t) =
     map (\<lambda>p. (Tool_result_image i, image_part_bytes js p)) (filter is_image (images t))"
  "locate_item js (i, System s) = []" "locate_item js (i, Assistant a) = []"
  "locate_item js (i, BackendToolCall b) = []" "locate_item js (i, Reasoning r) = []"
  by (simp_all add: locate_item_def locate_parts_def)

lemma filter_image_length: "length (filter is_image ps) = length (part_urls ps)"
proof (induction ps)
  case (Cons p ps)
  then show ?case by (cases p) simp_all
qed simp

lemma locate_item_length: "length (locate_item js (i, x)) = length (part_urls (item_parts x))"
  by (cases x) (simp_all add: locate_parts_length filter_image_length)

definition locate_from :: "json_sizes \<Rightarrow> nat \<Rightarrow> conversation_item list \<Rightarrow> (image_location \<times> nat) list" where
  "locate_from js i conv = concat (map (locate_item js) (enumerate i conv))"

lemma locate_from_simps [simp]:
  "locate_from js i [] = []"
  "locate_from js i (x # xs) = locate_item js (i, x) @ locate_from js (Suc i) xs"
  by (simp_all add: locate_from_def)

lemma locate_from_append:
  "locate_from js i (xs @ ys) = locate_from js i xs @ locate_from js (i + length xs) ys"
  by (induction xs arbitrary: i) simp_all

lemma locate_from_length: "length (locate_from js i conv) = length (image_urls conv)"
  by (induction conv arbitrary: i) (simp_all add: locate_item_length image_urls_parts)

lemma first_image:
  assumes "\<exists>p \<in> set ps. is_image p"
  shows "\<exists>pre u post. ps = pre @ Image_part u # post \<and> (\<forall>p \<in> set pre. \<not> is_image p)"
proof -
  obtain pre p post where "ps = pre @ p # post" "is_image p" "\<forall>y \<in> set pre. \<not> is_image y"
    using split_list_first_prop [OF assms] by blast
  then show ?thesis by (cases p) auto
qed

lemma remove_first_image_split:
  "\<forall>p \<in> set pre. \<not> is_image p \<Longrightarrow> remove_first_image (pre @ Image_part u # post) = pre @ post"
  by (induction pre) auto

text \<open>Evicting the first located image of an item.\<close>

lemma evict_first_of_item:
  assumes "locate_item js (length pre, x) = (l, b) # ls"
  shows "\<exists>y. fst (evict_image js l b (pre @ x # post) r) = pre @ y # post \<and>
           locate_item js (length pre, y) = ls \<and> pairing_shape y = pairing_shape x \<and>
           part_urls (item_parts y) = tl (part_urls (item_parts x))"
proof (cases x)
  case (User u)
  have "locate_parts js (length pre) 0 (user_content u) \<noteq> []" using assms User by simp
  then have "\<exists>p \<in> set (user_content u). is_image p" using locate_parts_none by blast
  then obtain pr url po where c: "user_content u = pr @ Image_part url # po" and
    none: "\<forall>p \<in> set pr. \<not> is_image p" using first_image by blast
  have l: "l = User_image (length pre) (length pr)" "ls = locate_parts js (length pre) (Suc (length pr)) po"
    using assms User by (auto simp: c locate_parts_append locate_parts_none none)
  let ?y = "User (u\<lparr>user_content := pr @ placeholder_part # po\<rparr>)"
  have "fst (evict_image js l b (pre @ x # post) r) = pre @ ?y # post"
    by (simp add: l evict_image_def User c nth_append list_update_append)
  moreover have "locate_item js (length pre, ?y) = ls"
    by (simp add: l locate_parts_append locate_parts_none none placeholder_part_def)
  moreover have "part_urls (item_parts ?y) = tl (part_urls (item_parts x))"
    by (simp add: User c part_urls_none none placeholder_part_def)
  ultimately show ?thesis using User by (auto simp: pairing_shape_def owner_ids_def)
next
  case (ToolResult t)
  have "filter is_image (images t) \<noteq> []" using assms ToolResult by auto
  then have "\<exists>p \<in> set (images t). is_image p" by (simp add: filter_empty_conv)
  then obtain pr url po where c: "images t = pr @ Image_part url # po" and
    none: "\<forall>p \<in> set pr. \<not> is_image p" using first_image by blast
  have l: "l = Tool_result_image (length pre)"
    "ls = map (\<lambda>p. (Tool_result_image (length pre), image_part_bytes js p)) (filter is_image po)"
    using assms ToolResult none by (auto simp: c filter_empty_conv)
  let ?y = "ToolResult (t\<lparr>images := pr @ po, result_content :=
        (if \<not> contains (result_content t) TOOL_IMAGE_COMPACT_NOTE
         then result_content t @ nl @ nl @ TOOL_IMAGE_COMPACT_NOTE else result_content t)\<rparr>)"
  have "fst (evict_image js l b (pre @ x # post) r) = pre @ ?y # post"
    by (simp add: l evict_image_def ToolResult c nth_append list_update_append Let_def
        remove_first_image_split [OF none])
  moreover have "locate_item js (length pre, ?y) = ls" using none by (simp add: l filter_empty_conv)
  moreover have "pairing_shape ?y = pairing_shape x"
    by (simp add: ToolResult pairing_shape_def owner_ids_def)
  moreover have "part_urls (item_parts ?y) = tl (part_urls (item_parts x))"
    by (simp add: ToolResult c part_urls_none none)
  ultimately show ?thesis by blast
qed (use assms in simp_all)

lemma locate_split:
  "locate_from js i conv = (l, b) # ls \<Longrightarrow>
     \<exists>pre x post ls'. conv = pre @ x # post \<and> locate_from js i pre = [] \<and>
       locate_item js (i + length pre, x) = (l, b) # ls' \<and>
       ls = ls' @ locate_from js (Suc (i + length pre)) post"
proof (induction conv arbitrary: i)
  case (Cons x xs)
  show ?case
  proof (cases "locate_item js (i, x)")
    case Nil
    then obtain pre y post ls' where "xs = pre @ y # post" "locate_from js (Suc i) pre = []"
      "locate_item js (Suc i + length pre, y) = (l, b) # ls'"
      "ls = ls' @ locate_from js (Suc (Suc i + length pre)) post"
      using Cons.IH [of "Suc i"] Cons.prems by auto
    then show ?thesis using Nil by (intro exI [of _ "x # pre"] exI [of _ y] exI [of _ post]) auto
  next
    case (Cons c cs)
    then show ?thesis using Cons.prems
      by (intro exI [of _ "[]"] exI [of _ x] exI [of _ xs] exI [of _ cs]) auto
  qed
qed simp

lemma evict_first:
  assumes "locate_from js 0 conv = (l, b) # ls"
  shows "locate_from js 0 (fst (evict_image js l b conv r)) = ls \<and>
         image_urls (fst (evict_image js l b conv r)) = tl (image_urls conv) \<and>
         map pairing_shape (fst (evict_image js l b conv r)) = map pairing_shape conv"
proof -
  obtain pre x post ls' where s: "conv = pre @ x # post" "locate_from js 0 pre = []"
    "locate_item js (length pre, x) = (l, b) # ls'" "ls = ls' @ locate_from js (Suc (length pre)) post"
    using locate_split [OF assms] by auto
  obtain y where y: "fst (evict_image js l b (pre @ x # post) r) = pre @ y # post"
    "locate_item js (length pre, y) = ls'" "pairing_shape y = pairing_shape x"
    "part_urls (item_parts y) = tl (part_urls (item_parts x))"
    using evict_first_of_item [OF s(3)] by blast
  have pre: "image_urls pre = []"
    using locate_from_length [of js 0 pre] s(2) by simp
  have ne: "part_urls (item_parts x) \<noteq> []"
    using locate_item_length [of js "length pre" x] s(3) by auto
  have app: "image_urls (a @ b) = image_urls a @ image_urls b" for a b
    by (simp add: image_urls_parts)
  show ?thesis
    using y s pre ne by (simp add: app locate_from_append image_urls_Cons flip: part_urls_def)
qed

lemma evict_loop_correct:
  "ls = locate_from js 0 conv \<Longrightarrow> evict_loop_images js target ls conv running n = (conv', running', n') \<Longrightarrow>
     n \<le> n' \<and> n' - n \<le> length ls \<and> image_urls conv' = drop (n' - n) (image_urls conv) \<and>
     map pairing_shape conv' = map pairing_shape conv \<and>
     (n' - n < length ls \<longrightarrow> running' \<le> target)"
proof (induction ls arbitrary: conv running n)
  case (Cons lb ls)
  obtain l b where lb: "lb = (l, b)" by (cases lb)
  show ?case
  proof (cases "running \<le> target")
    case True
    then have "conv' = conv" "running' = running" "n' = n" using Cons.prems(2) unfolding lb by simp_all
    then show ?thesis using True by simp
  next
    case False
    obtain c r where cr: "evict_image js l b conv running = (c, r)" by (cases "evict_image js l b conv running")
    have e: "locate_from js 0 c = ls" "image_urls c = tl (image_urls conv)"
      "map pairing_shape c = map pairing_shape conv"
      using evict_first [of js conv l b ls running] Cons.prems(1) lb cr by simp_all
    have "evict_loop_images js target ls c r (n + 1) = (conv', running', n')"
      using Cons.prems(2) False by (simp add: lb cr)
    from Cons.IH [OF e(1) [symmetric] this]
    have h: "n + 1 \<le> n'" "n' - (n + 1) \<le> length ls" "image_urls conv' = drop (n' - (n + 1)) (tl (image_urls conv))"
      "map pairing_shape conv' = map pairing_shape conv" "n' - (n + 1) < length ls \<longrightarrow> running' \<le> target"
      using e by simp_all
    have "n' - n = Suc (n' - (n + 1))" using h(1) by simp
    then show ?thesis using h by (simp add: drop_Suc)
  qed
qed simp

lemma inline_image_count_urls: "inline_image_count conv = length (image_urls conv)"
proof (induction conv)
  case Nil
  then show ?case by (simp add: inline_image_count_def image_urls_parts)
next
  case (Cons x xs)
  then show ?case
    by (cases x) (simp_all add: inline_image_count_def image_urls_parts filter_image_length)
qed

lemma image_budget_correct:
  "let (conv', outcome) = apply_image_budget_with_limits js conv trigger reclaim
   in (conversation_body_bytes js conv < trigger \<longrightarrow> conv' = conv \<and> evicted outcome = 0) \<and>
      evicted outcome \<le> inline_images outcome \<and>
      image_urls conv' = drop (evicted outcome) (image_urls conv) \<and>
      map pairing_shape conv' = map pairing_shape conv"
proof (cases "trigger \<le> conversation_body_bytes js conv \<and> reclaim < conversation_body_bytes js conv")
  case False
  then show ?thesis by (auto simp: apply_image_budget_with_limits_def Let_def)
next
  case True
  obtain c r n where loop: "evict_loop_images js reclaim (locate_images js conv) conv
      (conversation_body_bytes js conv) 0 = (c, r, n)"
    by (cases "evict_loop_images js reclaim (locate_images js conv) conv (conversation_body_bytes js conv) 0")
  have loc: "locate_images js conv = locate_from js 0 conv"
    by (simp add: locate_images_def locate_from_def)
  show ?thesis
    using evict_loop_correct [OF loc loop] True locate_from_length [of js 0 conv]
    by (auto simp: apply_image_budget_with_limits_def evict_images_to_budget_def Let_def loop [unfolded loc] loc
        inline_image_count_urls)
qed

lemma image_budget_pairing:
  "map pairing_shape (fst (apply_image_budget js conv)) = map pairing_shape conv"
  using image_budget_correct [of js conv] by (simp add: apply_image_budget_def split_beta)

text \<open>
  The image budget evicts the oldest images first and only when it must. Below the trigger
  the conversation is untouched. Otherwise the images left are the original ones without the
  first \<open>evicted\<close> of them, in the same order, no more images are evicted than there are, and
  tool pairing and the number of items are kept.
\<close>

theorem image_budget_evicts_oldest:
  "let (conv', outcome) = apply_image_budget_with_limits js conv trigger reclaim
   in (conversation_body_bytes js conv < trigger \<longrightarrow> conv' = conv \<and> evicted outcome = 0) \<and>
      evicted outcome \<le> inline_images outcome \<and>
      image_urls conv' = drop (evicted outcome) (image_urls conv) \<and>
      map pairing_shape conv' = map pairing_shape conv"
  by (rule image_budget_correct)

lemma image_budget_evicts_oldest_witness:
  "let (conv', outcome) = apply_image_budget_with_limits
         \<lparr>body_json = \<lambda>c. 40 * length c, str_json = \<lambda>s. length s + 2, part_json = \<lambda>_. 9\<rparr>
         [user_with_parts [Image_part ''u'', Image_part ''v'']] 10 30
   in (conversation_body_bytes \<lparr>body_json = \<lambda>c. 40 * length c, str_json = \<lambda>s. length s + 2, part_json = \<lambda>_. 9\<rparr>
         [user_with_parts [Image_part ''u'', Image_part ''v'']] < 10 \<longrightarrow>
       conv' = [user_with_parts [Image_part ''u'', Image_part ''v'']] \<and> evicted outcome = 0) \<and>
      evicted outcome \<le> inline_images outcome \<and>
      image_urls conv' = drop (evicted outcome) (image_urls [user_with_parts [Image_part ''u'', Image_part ''v'']]) \<and>
      map pairing_shape conv' = map pairing_shape [user_with_parts [Image_part ''u'', Image_part ''v'']]"
  by (rule image_budget_evicts_oldest)

end
