(* ===== verification/ChatStore.thy ===== *)
theory ChatStore
  imports ImageBudget
begin

section \<open>Persistence of the conversation\<close>

text \<open>
  Models \<open>hystersis-chat-state/src/persistence.rs\<close> and the acknowledgement types of
  \<open>commands.rs\<close>.  The locale \<open>chat_store\<close> is the trait \<open>ChatPersistence\<close> with the laws the actor
  relies on; \<open>mock_store\<close> is the implementation in the crate, with its default acknowledgements
  and its channel open.  What an I/O error says is left out.
\<close>

datatype strict_append_ack = Appended | AlreadyPresent conversation_item

datatype strict_append_error =
  NotCommitted | Committed strict_append_ack | Indeterminate

datatype strip_outcome = Applied nat | NoMatch | WriteFailed nat | ActorUnavailable

datatype persistence_record =
    Message conversation_item
  | AcknowledgedMessage conversation_item
  | ReplaceHistory "conversation_item list"
  | ReplaceHistoryForStrip "conversation_item list"
  | Flush

record mock_store =
  records :: "persistence_record list"
  fail_strip_writes :: bool
  persisted_working_directory_switches :: "conversation_item list"

definition mock_new :: mock_store where
  "mock_new = \<lparr>records = [], fail_strip_writes = False, persisted_working_directory_switches = []\<rparr>"

definition mock_new_failing_strip_writes :: mock_store where
  "mock_new_failing_strip_writes = mock_new\<lparr>fail_strip_writes := True\<rparr>"

definition send_record :: "persistence_record \<Rightarrow> mock_store \<Rightarrow> mock_store" where
  "send_record r p = p\<lparr>records := records p @ [r]\<rparr>"

definition persist_message :: "conversation_item \<Rightarrow> mock_store \<Rightarrow> mock_store" where
  "persist_message item p = send_record (Message item) p"

definition persist_working_directory_switch_and_ack ::
  "conversation_item \<Rightarrow> mock_store \<Rightarrow> (strict_append_error + strict_append_ack) \<times> mock_store" where
  "persist_working_directory_switch_and_ack item p =
     (let p = send_record (AcknowledgedMessage item) p;
          generation = working_directory_switch_generation item;
          acknowledgement =
            (case List.find (\<lambda>x. working_directory_switch_generation x = generation)
                    (persisted_working_directory_switches p) of
               None \<Rightarrow> Appended | Some x \<Rightarrow> AlreadyPresent x);
          p = (if acknowledgement = Appended
               then p\<lparr>persisted_working_directory_switches :=
                       persisted_working_directory_switches p @ [item]\<rparr>
               else p)
      in (Inr acknowledgement, p))"

definition replace_history :: "conversation_item list \<Rightarrow> mock_store \<Rightarrow> mock_store" where
  "replace_history items p = send_record (ReplaceHistory items) p"

text \<open>The acknowledgement is true when the disk write succeeded.\<close>

definition replace_history_for_strip_and_ack ::
  "conversation_item list \<Rightarrow> mock_store \<Rightarrow> bool \<times> mock_store" where
  "replace_history_for_strip_and_ack items p =
     (\<not> fail_strip_writes p, send_record (ReplaceHistoryForStrip items) p)"

definition flush_store :: "mock_store \<Rightarrow> mock_store" where
  "flush_store p = send_record Flush p"

section \<open>The contract\<close>

locale chat_store =
  fixes persist :: "conversation_item \<Rightarrow> 'p \<Rightarrow> 'p"
    and replace :: "conversation_item list \<Rightarrow> 'p \<Rightarrow> 'p"
    and replace_strip :: "conversation_item list \<Rightarrow> 'p \<Rightarrow> bool \<times> 'p"
    and flush :: "'p \<Rightarrow> 'p"
    and contents :: "'p \<Rightarrow> conversation_item list"
  assumes contents_persist: "contents (persist x p) = contents p @ [x]"
    and contents_replace: "contents (replace xs p) = xs"
    and contents_strip:
      "contents (snd (replace_strip xs p)) = (if fst (replace_strip xs p) then xs else contents p)"
    and contents_flush: "contents (flush p) = contents p"
begin

text \<open>The store holds the conversation.\<close>

definition synced :: "'p \<Rightarrow> conversation_item list \<Rightarrow> bool" where
  "synced p conv \<longleftrightarrow> contents p = conv"

lemma synced_push: "synced p conv \<Longrightarrow> synced (persist x p) (conv @ [x])"
  by (simp add: synced_def contents_persist)

lemma synced_replace: "synced (replace xs p) xs"
  by (simp add: synced_def contents_replace)

lemma synced_flush: "synced p conv \<Longrightarrow> synced (flush p) conv"
  by (simp add: synced_def contents_flush)

lemma synced_strip: "fst (replace_strip xs p) \<Longrightarrow> synced (snd (replace_strip xs p)) xs"
  by (simp add: synced_def contents_strip)

lemma strip_write_failed: "\<not> fst (replace_strip xs p) \<Longrightarrow> synced p conv \<Longrightarrow>
     synced (snd (replace_strip xs p)) conv"
  by (simp add: synced_def contents_strip)

end

text \<open>What a disk that starts as \<open>base\<close> holds after the recorded calls.\<close>

fun replay_record :: "bool \<Rightarrow> conversation_item list \<Rightarrow> persistence_record \<Rightarrow> conversation_item list" where
  "replay_record fail c (Message x) = c @ [x]"
| "replay_record fail c (AcknowledgedMessage x) =
     (if list_ex (\<lambda>y. working_directory_switch_generation y = working_directory_switch_generation x) c
      then c else c @ [x])"
| "replay_record fail c (ReplaceHistory xs) = xs"
| "replay_record fail c (ReplaceHistoryForStrip xs) = (if fail then c else xs)"
| "replay_record fail c Flush = c"

definition mock_contents :: "conversation_item list \<Rightarrow> mock_store \<Rightarrow> conversation_item list" where
  "mock_contents base p = foldl (replay_record (fail_strip_writes p)) base (records p)"

interpretation mock: chat_store persist_message replace_history replace_history_for_strip_and_ack
  flush_store "mock_contents base" for base
  by unfold_locales
    (simp_all add: mock_contents_def persist_message_def replace_history_def flush_store_def
      replace_history_for_strip_and_ack_def send_record_def)

end
