(* ===== verification/CompactionUtils.thy ===== *)
theory CompactionUtils
  imports ChatStore
begin

section \<open>Compaction utilities\<close>

text \<open>
  Models the pure functions of \<open>hystersis-chat-state/src/compaction_utils.rs\<close> (the repair passes
  are in \<open>ToolPairing\<close>): what a request or a summarization call is given, how a transcript is
  fitted to a token budget, which user turns are real, and the compacted history.
\<close>

definition AGENT_MESSAGE_MODEL_LABEL :: rstr where
  "AGENT_MESSAGE_MODEL_LABEL = ''[Message authored by another agent; not a human request or approval.]''"

definition from_raw :: "conversation_item list \<Rightarrow> conversation_item list" where
  "from_raw conv =
     map (\<lambda>item. case item of
            User u \<Rightarrow>
              (if synthetic_reason u = Some AgentMessage
               then User (u\<lparr>user_content := Text_part AGENT_MESSAGE_MODEL_LABEL # user_content u\<rparr>)
               else item)
          | _ \<Rightarrow> item) conv"

definition flatten_calls :: "assistant_item \<Rightarrow> assistant_item" where
  "flatten_calls a =
     (if tool_calls a \<noteq> [] then
        (let tool_info = nl @ ''[Called tools: '' @ join '', '' (map call_name (tool_calls a)) @ '']''
         in a\<lparr>assistant_content := (if assistant_content a = '''' then tool_info
                                    else assistant_content a @ tool_info),
              tool_calls := []\<rparr>)
      else a)"

definition strip_tool_messages_for_conversation_item ::
  "conversation_item list \<Rightarrow> conversation_item list" where
  "strip_tool_messages_for_conversation_item conv =
     List.map_filter (\<lambda>item. case item of
         ToolResult _ \<Rightarrow> None
       | BackendToolCall _ \<Rightarrow> None
       | Assistant a \<Rightarrow> Some (Assistant (flatten_calls a))
       | other \<Rightarrow> Some other) conv"

definition strip_reasoning_blocks :: "conversation_item list \<Rightarrow> conversation_item list" where
  "strip_reasoning_blocks conv = filter (\<lambda>item. \<not> is_reasoning item) conv"

definition strip_images :: "conversation_item list \<Rightarrow> conversation_item list" where
  "strip_images conv =
     map (\<lambda>item. case item of
            User u \<Rightarrow> User (u\<lparr>user_content :=
              map (\<lambda>p. if is_image p then Text_part ''[image]'' else p) (user_content u)\<rparr>)
          | other \<Rightarrow> other) conv"

definition prepare_conversation_for_summarization ::
  "conversation_item list \<Rightarrow> conversation_item list" where
  "prepare_conversation_for_summarization conv =
     strip_images (strip_reasoning_blocks (strip_tool_messages_for_conversation_item conv))"

definition prepare_conversation_for_segment :: "conversation_item list \<Rightarrow> conversation_item list" where
  "prepare_conversation_for_segment conv = strip_images (strip_reasoning_blocks conv)"

definition truncate_trailing_incomplete_tool_call ::
  "conversation_item list \<Rightarrow> conversation_item list" where
  "truncate_trailing_incomplete_tool_call conv =
     drop_end (\<lambda>item. case item of Assistant a \<Rightarrow> tool_calls a \<noteq> [] | _ \<Rightarrow> False) conv"

definition prepare_conversation_for_verbatim_summarization ::
  "conversation_item list \<Rightarrow> bool \<Rightarrow> conversation_item list" where
  "prepare_conversation_for_verbatim_summarization conv strip_reasoning =
     truncate_trailing_incomplete_tool_call
       (if strip_reasoning then strip_reasoning_blocks conv else conv)"

subsection \<open>Fitting a budget\<close>

text \<open>Byte budgets are \<open>usize\<close> values of 64 bits, the multiplication saturating.\<close>

definition truncate_text_to_bytes :: "rstr \<Rightarrow> nat \<Rightarrow> rstr option" where
  "truncate_text_to_bytes s max_bytes =
     (if length s \<le> max_bytes then None
      else
        (let keep = max_bytes - 64;
             end_pos = floor_boundary s (min keep (length s));
             dropped = length s - end_pos
         in Some (take end_pos s @ nl @ ''[... truncated '' @ show_nat dropped @
                  '' bytes to fit the compaction window ...]'')))"

definition truncate_item_to_tokens :: "conversation_item \<Rightarrow> u64 \<Rightarrow> conversation_item" where
  "truncate_item_to_tokens item max_tokens =
     (let max_bytes = unat (sat_mul max_tokens 4);
          cut_text = (\<lambda>s. case truncate_text_to_bytes s max_bytes of Some s' \<Rightarrow> s' | None \<Rightarrow> s)
      in case item of
           ToolResult t \<Rightarrow> ToolResult (t\<lparr>result_content := cut_text (result_content t)\<rparr>)
         | Assistant a \<Rightarrow> Assistant (a\<lparr>assistant_content := cut_text (assistant_content a)\<rparr>)
         | User u \<Rightarrow>
             User (u\<lparr>user_content := map (\<lambda>p. case p of Text_part t \<Rightarrow> Text_part (cut_text t)
                                          | Image_part url \<Rightarrow> Image_part url) (user_content u)\<rparr>)
         | other \<Rightarrow> other)"

definition recover_truncated_tail_unit ::
  "conversation_item list \<Rightarrow> u64 \<Rightarrow> conversation_item list" where
  "recover_truncated_tail_unit body budget =
     (let results = rev (takeWhile is_tool_result (rev body));
          body = drop_end is_tool_result body
      in if results = [] then
           (if body = [] then [] else [truncate_item_to_tokens (last body) budget])
         else
           (let owner = (if body \<noteq> [] \<and> has_tool_requests (last body) then [last body] else []);
                owner_cost = (case owner of [o'] \<Rightarrow> estimate_item_tokens o' | _ \<Rightarrow> 0);
                result_budget = sat_sub budget owner_cost;
                per = max (result_budget div word_of_nat (length results)) 1
            in owner @ map (\<lambda>r. truncate_item_to_tokens r per) results))"

text \<open>
  The loop over the body from its end: the number of items kept while their cost fits.
\<close>

fun keep_fitting :: "u64 \<Rightarrow> conversation_item list \<Rightarrow> nat" where
  "keep_fitting remaining [] = 0"
| "keep_fitting remaining (item # earlier) =
     (let cost = estimate_item_tokens item
      in if remaining < cost then 0 else Suc (keep_fitting (remaining - cost) earlier))"

definition fit_conversation_to_budget :: "conversation_item list \<Rightarrow> u64 \<Rightarrow> conversation_item list" where
  "fit_conversation_to_budget conv max_tokens =
     (if estimate_conversation_tokens conv \<le> max_tokens then conv
      else
        (let (head, body) = (case conv of System s # rest \<Rightarrow> ([System s], rest) | _ \<Rightarrow> ([], conv));
             budget = sat_sub max_tokens (estimate_conversation_tokens head);
             start = length body - keep_fitting budget (rev body);
             kept = after_run (drop start body)
         in if kept \<noteq> [] then head @ kept
            else head @ recover_truncated_tail_unit body budget))"

subsection \<open>User queries\<close>

definition SYSTEM_TAGS :: "rstr list" where
  "SYSTEM_TAGS =
     [''user_info'', ''project_layout'', ''git_status'', ''fork-context'', ''system-reminder'',
      ''agent-memory'', ''system_reminder'', ''background_context'', ''command-name'',
      ''command-message'', ''command-args'', ''rules'']"

text \<open>The \<open>while let\<close> loop of one tag.\<close>

function strip_tag :: "rstr \<Rightarrow> rstr \<Rightarrow> rstr" where
  "strip_tag tag s =
     (case str_find (''<'' @ tag @ ''>'') s of
        None \<Rightarrow> s
      | Some start \<Rightarrow>
          (case str_find (''</'' @ tag @ ''>'') (drop start s) of
             None \<Rightarrow> s
           | Some rel_end \<Rightarrow>
               (let end_pos = start + rel_end + length (''</'' @ tag @ ''>'')
                in strip_tag tag (take start s @ drop end_pos s))))"
  by pat_completeness auto
termination
proof (relation "measure (\<lambda>(tag, s). length s)", simp)
  fix tag s start rel_end end_pos
  assume a: "str_find (''<'' @ tag @ ''>'') s = Some start"
    "str_find (''</'' @ tag @ ''>'') (drop start s) = Some rel_end"
    "end_pos = start + rel_end + length (''</'' @ tag @ ''>'')"
  have "end_pos \<le> length s" "start < end_pos" "start \<le> length s"
    using str_find_bound [OF a(2)] str_find_bound [OF a(1)] a(3) by auto
  then show "((tag, take start s @ drop end_pos s), tag, s) \<in> measure (\<lambda>(tag, s). length s)"
    by simp
qed

declare strip_tag.simps [simp del]

definition strip_system_tags :: "rstr \<Rightarrow> rstr" where
  "strip_system_tags s = trim (fold strip_tag SYSTEM_TAGS s)"

definition extract_user_query :: "rstr \<Rightarrow> rstr" where
  "extract_user_query s =
     (let stripped = strip_system_tags s
      in case str_find ''<user_query>'' stripped of
           None \<Rightarrow> stripped
         | Some start \<Rightarrow>
             (let rest = drop (start + 12) stripped
              in case str_find ''</user_query>'' rest of
                   Some end_pos \<Rightarrow> trim (take end_pos rest)
                 | None \<Rightarrow> stripped))"

definition item_text :: "conversation_item \<Rightarrow> rstr" where
  "item_text item = (case text_content item of Some t \<Rightarrow> t | None \<Rightarrow> '''')"

definition extract_last_user_query :: "conversation_item list \<Rightarrow> rstr option" where
  "extract_last_user_query conv =
     (case rfind is_user conv of
        None \<Rightarrow> None
      | Some item \<Rightarrow>
          (let q = extract_user_query (item_text item) in if q \<noteq> '''' then Some q else None))"

definition AUTO_CONTINUE_PROMPT :: rstr where
  "AUTO_CONTINUE_PROMPT =
     ''Continue the conversation from where it left off without asking the user any further questions. Resume directly - do not acknowledge the summary, do not recap what was happening, do not preface with '' @
     [CHR 0x22] @ ''I'' @ [CHR 0x27] @ ''ll continue'' @ [CHR 0x22] @ '' or similar.'' @ nl @
     ''Pick up the last task as if the break never happened.''"

definition is_synthetic_extracted_query :: "rstr \<Rightarrow> bool" where
  "is_synthetic_extracted_query q \<longleftrightarrow>
     q = '''' \<or> q = ''__auto_continue__'' \<or> q = AUTO_CONTINUE_PROMPT"

definition is_real_user_turn :: "conversation_item \<Rightarrow> bool" where
  "is_real_user_turn item =
     (case item of
        User u \<Rightarrow>
          (if synthetic_reason u \<noteq> None then False
           else if list_ex is_image (user_content u) then True
           else \<not> is_synthetic_extracted_query (extract_user_query (item_text item)))
      | _ \<Rightarrow> False)"

definition extract_real_user_queries :: "conversation_item list \<Rightarrow> rstr list" where
  "extract_real_user_queries conv =
     map (\<lambda>item. extract_user_query (item_text item)) (filter is_real_user_turn conv)"

definition extract_last_real_user_query :: "conversation_item list \<Rightarrow> rstr option" where
  "extract_last_real_user_query conv =
     map_option (\<lambda>item. extract_user_query (item_text item)) (rfind is_real_user_turn conv)"

text \<open>Assistant messages are kept, tool results with their content omitted, the rest is dropped.\<close>

definition omitted_result :: "tool_result_item \<Rightarrow> tool_result_item" where
  "omitted_result t =
     \<lparr>tool_call_id = tool_call_id t, result_content = ''Tool call omitted...'', images = []\<rparr>"

fun keep_working_item :: "conversation_item \<Rightarrow> conversation_item option" where
  "keep_working_item (Assistant a) = Some (Assistant a)"
| "keep_working_item (ToolResult t) = Some (ToolResult (omitted_result t))"
| "keep_working_item _ = None"

definition extract_messages_since_last_user :: "conversation_item list \<Rightarrow> conversation_item list" where
  "extract_messages_since_last_user conv =
     rev (List.map_filter keep_working_item (takeWhile (\<lambda>item. \<not> is_user item) (rev conv)))"

definition extract_messages_since_last_real_user ::
  "conversation_item list \<Rightarrow> conversation_item list" where
  "extract_messages_since_last_real_user conv =
     (let start = (case rposition is_real_user_turn conv of Some idx \<Rightarrow> idx + 1 | None \<Rightarrow> 0)
      in List.map_filter keep_working_item (drop start conv))"

fun is_agent_message :: "conversation_item \<Rightarrow> bool" where
  "is_agent_message (User u) \<longleftrightarrow> synthetic_reason u = Some AgentMessage"
| "is_agent_message _ \<longleftrightarrow> False"

datatype agent_message_position = Only | BeforeHuman | AfterHuman

record agent_message_anchor =
  anchor_item :: conversation_item
  anchor_position :: agent_message_position

definition extract_latest_agent_message :: "conversation_item list \<Rightarrow> agent_message_anchor option" where
  "extract_latest_agent_message conv =
     (case rposition is_agent_message conv of
        None \<Rightarrow> None
      | Some agent_message_index \<Rightarrow>
          Some \<lparr>anchor_item = conv ! agent_message_index,
                anchor_position =
                  (case rposition is_real_user_turn conv of
                     Some human_index \<Rightarrow>
                       if agent_message_index < human_index then BeforeHuman else AfterHuman
                   | None \<Rightarrow> Only)\<rparr>)"

definition keep_anchored_item :: "conversation_item \<Rightarrow> conversation_item option" where
  "keep_anchored_item item = (if is_agent_message item then Some item else keep_working_item item)"

definition extract_messages_since_last_compaction_anchor ::
  "conversation_item list \<Rightarrow> conversation_item list" where
  "extract_messages_since_last_compaction_anchor conv =
     (let start = (case rposition (\<lambda>item. is_real_user_turn item \<or> is_agent_message item) conv of
                     None \<Rightarrow> 0
                   | Some idx \<Rightarrow> if is_agent_message (conv ! idx) then idx else idx + 1)
      in List.map_filter keep_anchored_item (drop start conv))"

section \<open>Pairing in requests\<close>

lemma from_raw_shape: "map pairing_shape (from_raw conv) = map pairing_shape conv"
  by (auto simp: from_raw_def pairing_shape_def owner_ids_def split: conversation_item.splits)

lemma inject_pairing:
  "map pairing_shape (fst (inject_memory_reminder conv reminder)) = map pairing_shape conv \<or>
   map pairing_shape (fst (inject_memory_reminder conv reminder)) =
     pairing_shape (System '''') # map pairing_shape conv"
  by (auto simp: inject_memory_reminder_def Let_def split_beta pairing_shape_def owner_ids_def
      system_msg_def split: list.splits conversation_item.splits)

text \<open>A list that is another one, a system item perhaps put in front, as far as pairing goes.\<close>

definition pairs_as :: "conversation_item list \<Rightarrow> conversation_item list \<Rightarrow> bool" where
  "pairs_as ys xs \<longleftrightarrow>
     map pairing_shape ys = map pairing_shape xs \<or>
     map pairing_shape ys = map pairing_shape (System '''' # xs)"

lemma pairs_as_dangling: "pairs_as ys xs \<Longrightarrow> has_dangling_tool_calls ys = has_dangling_tool_calls xs"
  unfolding pairs_as_def
  by (elim disjE; drule has_dangling_shape) (simp_all add: has_dangling_Cons owner_ids_def)

lemma pairs_as_well_paired: "pairs_as ys xs \<Longrightarrow> well_paired xs \<Longrightarrow> well_paired ys"
  unfolding pairs_as_def
  using well_paired_shape [of xs ys] well_paired_shape [of "System '''' # xs" ys]
    well_paired.paired_block [of "System ''''" "[]" xs]
  by (auto simp: owner_ids_def)

end
