(* ===== verification/ChatActor.thy ===== *)
theory ChatActor
  imports CompactionUtils
begin

section \<open>The chat-state actor: mutations\<close>

text \<open>
  Models \<open>hystersis-chat-state/src/actor/mutations.rs\<close> and \<open>events.rs\<close> on the state of
  \<open>ChatState\<close>: each handler takes the actor and returns it updated.
  \<^item> The actor's store is the one of the crate, with the contract of \<open>ChatStore\<close>; the event
    channel is the list of the events sent.
  \<^item> Log lines are left out; \<open>debug_assert\<close> is not compiled in, so an out-of-range capture offset
    yields the empty slice.
  \<^item> Word sums wrap, as in a release build; indices and counts (\<open>usize\<close>) are natural numbers.
\<close>

datatype chat_state_event =
    PromptIndexChanged nat
  | TokensUpdated u64
  | ConversationReset nat
  | ImageBudgetRecord image_budget_outcome

record chat_actor =
  chat :: chat_state
  pruning_cfg :: pruning_config
  store :: mock_store
  events :: "chat_state_event list"

definition send_event :: "chat_state_event \<Rightarrow> chat_actor \<Rightarrow> chat_actor" where
  "send_event e a = a\<lparr>events := events a @ [e]\<rparr>"

definition spawn_with_pruning ::
  "conversation_item list \<Rightarrow> sampling_config \<Rightarrow> pruning_config \<Rightarrow> mock_store \<Rightarrow> chat_actor" where
  "spawn_with_pruning conv cfg pruning p =
     \<lparr>chat = chat_state_new conv cfg, pruning_cfg = pruning, store = p, events = []\<rparr>"

definition spawn ::
  "conversation_item list \<Rightarrow> sampling_config \<Rightarrow> mock_store \<Rightarrow> chat_actor" where
  "spawn conv cfg p = spawn_with_pruning conv cfg pruning_default p"

subsection \<open>Turn capture\<close>

definition turn_tail :: "conversation_item list \<Rightarrow> nat \<Rightarrow> conversation_item list" where
  "turn_tail conv offset = (if offset \<le> length conv then drop offset conv else [])"

definition snapshot_turn_slice :: "chat_actor \<Rightarrow> chat_actor" where
  "snapshot_turn_slice a =
     a\<lparr>chat := (chat a)\<lparr>turn_capture := map_option (\<lambda>cap.
         cap\<lparr>pre_replacement_messages := pre_replacement_messages cap @
               turn_tail (conversation (chat a)) (turn_start_offset cap)\<rparr>)
       (turn_capture (chat a))\<rparr>\<rparr>"

definition rebase_turn_capture_offset :: "chat_actor \<Rightarrow> chat_actor" where
  "rebase_turn_capture_offset a =
     a\<lparr>chat := (chat a)\<lparr>turn_capture := map_option (\<lambda>cap.
         cap\<lparr>turn_start_offset := length (conversation (chat a))\<rparr>) (turn_capture (chat a))\<rparr>\<rparr>"

subsection \<open>Rewriting the history\<close>

datatype history_rewrite = IntegrityRepair | RetainedPrune | ImageStrip

text \<open>The result is the number of changes and, for a strip, the acknowledgement of the disk.\<close>

definition rewrite_history ::
  "history_rewrite \<Rightarrow> (conversation_item list \<Rightarrow> conversation_item list \<times> nat) \<Rightarrow> chat_actor \<Rightarrow>
     (nat \<times> bool option) \<times> chat_actor" where
  "rewrite_history kind mutate a =
     (let snapshots_capture = (kind = IntegrityRepair);
          a = (if snapshots_capture then snapshot_turn_slice a else a);
          (conv, n) = mutate (conversation (chat a));
          a = a\<lparr>chat := (chat a)\<lparr>conversation := conv\<rparr>\<rparr>;
          (disk_ack, a) =
            (if 0 < n then
               (case kind of
                  ImageStrip \<Rightarrow>
                    (let (ack, p) = replace_history_for_strip_and_ack conv (store a)
                     in (Some ack, a\<lparr>store := p\<rparr>))
                | _ \<Rightarrow> (None, a\<lparr>store := replace_history conv (store a)\<rparr>))
             else (None, a));
          a = (if snapshots_capture then rebase_turn_capture_offset a else a)
      in ((n, disk_ack), a))"

definition integrity_pass ::
  "dangling_tool_call_reason \<Rightarrow> conversation_item list \<Rightarrow> conversation_item list \<times> nat" where
  "integrity_pass reason conv =
     (let (conv, deduped) = dedup_duplicate_tool_results conv;
          (conv, inserted) = repair_dangling_tool_calls reason conv
      in (conv, inserted + deduped))"

definition ensure_conversation_integrity_with_reason ::
  "dangling_tool_call_reason \<Rightarrow> chat_actor \<Rightarrow> chat_actor" where
  "ensure_conversation_integrity_with_reason reason a =
     snd (rewrite_history IntegrityRepair (integrity_pass reason) a)"

definition ensure_conversation_integrity :: "chat_actor \<Rightarrow> chat_actor" where
  "ensure_conversation_integrity a = ensure_conversation_integrity_with_reason UserCancelled a"

definition repair_dangling_after_harness_halt :: "rstr \<Rightarrow> chat_actor \<Rightarrow> chat_actor" where
  "repair_dangling_after_harness_halt halt_class a =
     ensure_conversation_integrity_with_reason (HarnessHalted halt_class) a"

definition strip_conversation_images ::
  "rstr list \<Rightarrow> chat_actor \<Rightarrow> (nat \<times> bool) option \<times> chat_actor" where
  "strip_conversation_images urls a =
     (let ((stripped, disk_ack), a) = rewrite_history ImageStrip (strip_images_by_url urls) a
      in (map_option (\<lambda>ack. (stripped, ack)) disk_ack, a))"

subsection \<open>Pushing messages\<close>

definition add_estimate :: "u64 \<Rightarrow> chat_actor \<Rightarrow> chat_actor" where
  "add_estimate n a =
     a\<lparr>chat := (chat a)\<lparr>estimated_tokens_since_model := estimated_tokens_since_model (chat a) + n\<rparr>\<rparr>"

definition converge_working_directory_switch ::
  "u64 \<Rightarrow> conversation_item \<Rightarrow> chat_actor \<Rightarrow> chat_actor" where
  "converge_working_directory_switch generation authoritative a =
     (let conv = conversation (chat a);
          is_it = (\<lambda>item. working_directory_switch_generation item = Some generation);
          earlier = takeWhile (\<lambda>item. \<not> is_it item) conv
      in if length earlier < length conv then
           (let old_tokens = estimate_item_tokens (conv ! length earlier);
                new_tokens = estimate_item_tokens authoritative;
                since = estimated_tokens_since_model (chat a)
            in a\<lparr>chat := (chat a)
                  \<lparr>estimated_tokens_since_model :=
                     (if old_tokens \<le> new_tokens then sat_add since (new_tokens - old_tokens)
                      else sat_sub since (old_tokens - new_tokens)),
                   conversation := conv[length earlier := authoritative]\<rparr>\<rparr>)
         else
           (let a = add_estimate (estimate_item_tokens authoritative) a
            in a\<lparr>chat := (chat a)\<lparr>conversation := conv @ [authoritative]\<rparr>\<rparr>))"

definition persist_and_push_message :: "conversation_item \<Rightarrow> chat_actor \<Rightarrow> chat_actor" where
  "persist_and_push_message item a =
     a\<lparr>store := persist_message item (store a),
        chat := (chat a)\<lparr>conversation := conversation (chat a) @ [item]\<rparr>\<rparr>"

definition push_message :: "conversation_item \<Rightarrow> chat_actor \<Rightarrow> chat_actor" where
  "push_message item a =
     persist_and_push_message item
       (case item of Assistant _ \<Rightarrow> a | _ \<Rightarrow> add_estimate (estimate_item_tokens item) a)"

definition push_model_output :: "conversation_item \<Rightarrow> chat_actor \<Rightarrow> chat_actor" where
  "push_model_output item a = persist_and_push_message item a"

definition push_unreported_model_output :: "conversation_item \<Rightarrow> chat_actor \<Rightarrow> chat_actor" where
  "push_unreported_model_output item a =
     persist_and_push_message item (add_estimate (estimate_item_tokens item) a)"

subsection \<open>Pruning what is retained\<close>

fun prune_retained_back ::
  "nat \<Rightarrow> nat \<Rightarrow> bool \<Rightarrow> conversation_item list \<Rightarrow> conversation_item list \<times> nat" where
  "prune_retained_back threshold turn_from_end seen_first_user [] = ([], 0)"
| "prune_retained_back threshold turn_from_end seen_first_user (item # earlier) =
     (case item of
        User u \<Rightarrow>
          (let (items, n) = prune_retained_back threshold
                 (if seen_first_user then turn_from_end + 1 else turn_from_end) True earlier
           in (item # items, n))
      | ToolResult t \<Rightarrow>
          (let (items, n) = prune_retained_back threshold turn_from_end seen_first_user earlier
           in if turn_from_end < threshold then (item # items, n)
              else if result_content t \<noteq> HARD_CLEAR_PLACEHOLDER
              then (ToolResult (t\<lparr>result_content := HARD_CLEAR_PLACEHOLDER\<rparr>) # items, n + 1)
              else (item # items, n))
      | _ \<Rightarrow>
          (let (items, n) = prune_retained_back threshold turn_from_end seen_first_user earlier
           in (item # items, n)))"

definition effective_threshold :: "chat_actor \<Rightarrow> nat" where
  "effective_threshold a =
     (let total_user_items = users (conversation (chat a));
          synthetic_count = total_user_items - prompt_idx (chat a)
      in hard_clear_age_turns (pruning_cfg a) + synthetic_count)"

definition prune_retained_conversation :: "chat_actor \<Rightarrow> nat \<times> chat_actor" where
  "prune_retained_conversation a =
     (if \<not> pruning_enabled (pruning_cfg a) then (0, a)
      else if prompt_idx (chat a) < hard_clear_age_turns (pruning_cfg a) then (0, a)
      else
        (let threshold = effective_threshold a;
             ((cleared, _), a) = rewrite_history RetainedPrune
               (\<lambda>conv. let (items, n) = prune_retained_back threshold 0 False (rev conv)
                       in (rev items, n)) a
         in (cleared, a)))"

definition push_user_message_with_repair_reason ::
  "conversation_item \<Rightarrow> dangling_tool_call_reason \<Rightarrow> chat_actor \<Rightarrow> chat_actor" where
  "push_user_message_with_repair_reason item reason a =
     (let a = ensure_conversation_integrity_with_reason reason a;
          a = add_estimate (estimate_item_tokens item) a;
          a = a\<lparr>store := persist_message item (store a),
                 chat := (chat a)\<lparr>conversation := conversation (chat a) @ [item]\<rparr>\<rparr>
      in snd (prune_retained_conversation a))"

definition push_user_message :: "conversation_item \<Rightarrow> chat_actor \<Rightarrow> chat_actor" where
  "push_user_message item a = push_user_message_with_repair_reason item UserCancelled a"

definition conversation_content_bytes :: "chat_actor \<Rightarrow> nat" where
  "conversation_content_bytes a =
     sum_list (map (\<lambda>item. case item of
         System s \<Rightarrow> length s
       | User u \<Rightarrow> sum_list (map (\<lambda>p. case p of Text_part t \<Rightarrow> length t | Image_part url \<Rightarrow> length url)
                              (user_content u))
       | Assistant m \<Rightarrow> length (assistant_content m)
       | ToolResult t \<Rightarrow> length (result_content t)
       | BackendToolCall b \<Rightarrow> length (summary_text b)
       | Reasoning r \<Rightarrow> length (reasoning_item_text r) +
           (case encrypted_content r of Some e \<Rightarrow> length e | None \<Rightarrow> 0))
     (conversation (chat a)))"

subsection \<open>Usage\<close>

definition record_token_usage :: "u64 \<Rightarrow> chat_actor \<Rightarrow> chat_actor" where
  "record_token_usage n a =
     send_event (TokensUpdated n)
       (a\<lparr>chat := (chat a)\<lparr>estimated_tokens_since_model := 0,
            estimate_at_last_response := estimate_conversation_tokens (conversation (chat a)),
            total_tokens := n\<rparr>\<rparr>)"

definition record_last_turn_usage :: "token_usage \<Rightarrow> chat_actor \<Rightarrow> chat_actor" where
  "record_last_turn_usage u a = a\<lparr>chat := (chat a)\<lparr>last_turn_usage := Some u\<rparr>\<rparr>"

definition get_or_insert_default :: "usage_ledger option \<Rightarrow> usage_ledger" where
  "get_or_insert_default l = (case l of Some l' \<Rightarrow> l' | None \<Rightarrow> ledger_default)"

definition record_model_call_usage ::
  "rstr option \<Rightarrow> token_usage \<Rightarrow> u64 option \<Rightarrow> int option \<Rightarrow> chat_actor \<Rightarrow> chat_actor" where
  "record_model_call_usage call_model u duration cost a =
     (let key = (case call_model of
                   Some i \<Rightarrow> if i \<noteq> '''' then i else model (sampling_config (chat a))
                 | None \<Rightarrow> model (sampling_config (chat a)));
          rec_call = record_main_loop_call key u duration cost
      in a\<lparr>chat := (chat a)
            \<lparr>prompt_usage := Some (rec_call (get_or_insert_default (prompt_usage (chat a)))),
             session_usage := rec_call (session_usage (chat a))\<rparr>\<rparr>)"

definition record_subagent_usage ::
  "(rstr \<times> usage_totals) list \<Rightarrow> bool \<Rightarrow> bool \<Rightarrow> chat_actor \<Rightarrow> chat_actor" where
  "record_subagent_usage usages attribute_to_prompt inc a =
     (if usages = [] \<and> \<not> inc then a
      else
        (let a = (if attribute_to_prompt
                  then a\<lparr>chat := (chat a)\<lparr>prompt_usage := Some (record_subagent usages inc
                           (get_or_insert_default (prompt_usage (chat a))))\<rparr>\<rparr>
                  else a)
         in a\<lparr>chat := (chat a)\<lparr>session_usage := record_subagent usages inc (session_usage (chat a))\<rparr>\<rparr>))"

definition mark_usage_incomplete :: "bool \<Rightarrow> bool \<Rightarrow> chat_actor \<Rightarrow> chat_actor" where
  "mark_usage_incomplete prompt session a =
     (let a = (if prompt
               then a\<lparr>chat := (chat a)\<lparr>prompt_usage := Some (mark_incomplete
                        (get_or_insert_default (prompt_usage (chat a))))\<rparr>\<rparr>
               else a)
      in if session
         then a\<lparr>chat := (chat a)\<lparr>session_usage := mark_incomplete (session_usage (chat a))\<rparr>\<rparr>
         else a)"

definition increment_prompt_index :: "chat_actor \<Rightarrow> chat_actor" where
  "increment_prompt_index a =
     send_event (PromptIndexChanged (prompt_idx (chat a) + 1))
       (a\<lparr>chat := (chat a)\<lparr>prompt_usage := None, prompt_idx := prompt_idx (chat a) + 1\<rparr>\<rparr>)"

subsection \<open>Replacing the conversation\<close>

definition replaced_total :: "chat_state \<Rightarrow> conversation_item list \<Rightarrow> bool \<Rightarrow> u64" where
  "replaced_total s items is_compaction =
     (let pre_replace_total = total_tokens s;
          base_estimate = estimate_conversation_tokens items;
          estimated =
            (if is_compaction \<and> 0 < pre_replace_total \<and> 0 < estimate_at_last_response s
             then (let ratio = f64_div (f64_of_nat (unat pre_replace_total))
                                 (f64_of_nat (unat (estimate_at_last_response s)))
                   in word_of_nat (f64_as_u64 (f64_round_to_int
                        (f64_mul (f64_of_nat (unat base_estimate)) ratio))))
             else base_estimate)
      in if is_compaction \<and> 0 < pre_replace_total then min estimated pre_replace_total
         else estimated)"

definition replace_conversation ::
  "conversation_item list \<Rightarrow> bool \<Rightarrow> chat_actor \<Rightarrow> chat_actor" where
  "replace_conversation items is_compaction a =
     (let a = snapshot_turn_slice a;
          a = (if is_compaction
               then a\<lparr>chat := (chat a)\<lparr>turn_capture :=
                        map_option (\<lambda>cap. cap\<lparr>compaction_occurred := True\<rparr>) (turn_capture (chat a))\<rparr>\<rparr>
               else a);
          estimated_tokens = replaced_total (chat a) items is_compaction;
          a = a\<lparr>store := replace_history items (store a)\<rparr>;
          a = a\<lparr>chat := (chat a)\<lparr>conversation := items, estimated_tokens_since_model := 0,
                   total_tokens := estimated_tokens,
                   estimate_at_last_response := estimate_conversation_tokens items\<rparr>\<rparr>;
          a = rebase_turn_capture_offset a;
          a = send_event (ConversationReset (length items)) a
      in send_event (TokensUpdated estimated_tokens) a)"

text \<open>
  The repair takes the conversation out of the state first: \<open>replace_conversation\<close> finds it empty.
\<close>

definition repair_session_history ::
  "bool \<Rightarrow> chat_actor \<Rightarrow> history_repair_report \<times> chat_actor" where
  "repair_session_history dry_run a =
     (if dry_run then (snd (repair_history (conversation (chat a))), a)
      else
        (let taken = a\<lparr>chat := (chat a)\<lparr>conversation := []\<rparr>\<rparr>;
             (items, report) = repair_history (conversation (chat a))
         in if changed report then (report, replace_conversation items False taken)
            else (report, taken\<lparr>chat := (chat taken)\<lparr>conversation := items\<rparr>\<rparr>)))"

definition replace_system_head :: "rstr \<Rightarrow> chat_actor \<Rightarrow> bool \<times> chat_actor" where
  "replace_system_head prompt a =
     (let already = (case conversation (chat a) of
                       System s # _ \<Rightarrow> canonical_system_prompt_eq s prompt | _ \<Rightarrow> False)
      in if already then (False, a)
         else (let (conv, is_changed) = replace_or_insert_system_head (conversation (chat a)) prompt
               in (is_changed, replace_conversation conv False a)))"

definition restore_snapshot :: "chat_snapshot \<Rightarrow> chat_actor \<Rightarrow> chat_actor" where
  "restore_snapshot snap a =
     (let a = snapshot_turn_slice a;
          a = a\<lparr>chat := (chat a)\<lparr>conversation := snap_conversation snap\<rparr>\<rparr>;
          a = rebase_turn_capture_offset a
      in a\<lparr>chat := (chat a)
            \<lparr>sampling_config := snap_sampling_config snap,
             prompt_idx := snap_prompt_index snap,
             total_tokens := snap_total_tokens snap,
             estimated_tokens_since_model := 0,
             estimate_at_last_response :=
               (if 0 < snap_estimate_at_last_response snap then snap_estimate_at_last_response snap
                else estimate_conversation_tokens (conversation (chat a))),
             agent_edited_paths := snap_agent_edited_paths snap,
             prompt_texts := snap_prompt_texts snap,
             stream_start_ms := snap_stream_start_ms snap,
             turn_start_ms := snap_turn_start_ms snap,
             last_compaction_prompt_index := snap_last_compaction_prompt_index snap,
             credentials := snap_credentials snap,
             prompt_usage := None\<rparr>\<rparr>)"

end
