(* ===== verification/ChatCommands.thy ===== *)
theory ChatCommands
  imports ChatActor
begin

section \<open>The chat-state actor: queries and commands\<close>

text \<open>
  Models \<open>actor/queries.rs\<close>, \<open>build_conversation_request\<close> of \<open>actor/request_builder.rs\<close> and the
  command loop of \<open>actor/mod.rs\<close>.  A command carries the inputs of its variant; the value sent on
  its reply channel is the result of the handler.  The sizes \<open>serde_json\<close> gives JSON texts are the
  argument \<open>js\<close>.
\<close>

definition get_notification_meta :: "chat_actor \<Rightarrow> notification_meta" where
  "get_notification_meta a =
     \<lparr>meta_stream_start_ms = stream_start_ms (chat a), meta_turn_start_ms = turn_start_ms (chat a)\<rparr>"

definition snapshot :: "chat_actor \<Rightarrow> chat_snapshot" where
  "snapshot a =
     \<lparr>snap_conversation = conversation (chat a),
      snap_sampling_config = sampling_config (chat a),
      snap_prompt_index = prompt_idx (chat a),
      snap_total_tokens = total_tokens (chat a),
      snap_estimate_at_last_response = estimate_at_last_response (chat a),
      snap_agent_edited_paths = agent_edited_paths (chat a),
      snap_prompt_texts = prompt_texts (chat a),
      snap_stream_start_ms = stream_start_ms (chat a),
      snap_turn_start_ms = turn_start_ms (chat a),
      snap_last_compaction_prompt_index = last_compaction_prompt_index (chat a),
      snap_credentials = credentials (chat a)\<rparr>"

text \<open>The position of the user item number \<open>target\<close>, counted from 0; the length when there is none.\<close>

fun nth_user_position :: "nat \<Rightarrow> conversation_item list \<Rightarrow> nat" where
  "nth_user_position target [] = 0"
| "nth_user_position target (item # items) =
     (if is_user item then
        (case target of 0 \<Rightarrow> 0 | Suc t \<Rightarrow> Suc (nth_user_position t items))
      else Suc (nth_user_position target items))"

definition truncate_to_prompt_index :: "nat \<Rightarrow> chat_actor \<Rightarrow> chat_actor" where
  "truncate_to_prompt_index target a =
     (if prompt_idx (chat a) \<le> target then a
      else
        (let conv = take (nth_user_position target (conversation (chat a))) (conversation (chat a));
             n = estimate_conversation_tokens conv;
             a = a\<lparr>chat := (chat a)
                    \<lparr>conversation := conv, prompt_texts := take target (prompt_texts (chat a)),
                     prompt_idx := target, total_tokens := n, estimated_tokens_since_model := 0,
                     estimate_at_last_response := n\<rparr>\<rparr>;
             a = a\<lparr>store := replace_history conv (store a)\<rparr>
         in send_event (ConversationReset (length conv)) a))"

definition check_auto_compact_needed :: "u8 \<Rightarrow> chat_actor \<Rightarrow> auto_compact_trigger option" where
  "check_auto_compact_needed threshold_percent a =
     (let cw = context_window (sampling_config (chat a)); n = total_tokens (chat a)
      in if exceeds_threshold n cw threshold_percent
         then Some \<lparr>trigger_total_tokens = n, trigger_context_window = cw,
                    utilization_percent = usage_percentage_truncated_u8 n cw\<rparr>
         else None)"

record model_metadata =
  resolved_model_id :: "rstr option"
  fingerprint :: "rstr option"

definition get_last_model_metadata :: "chat_actor \<Rightarrow> model_metadata" where
  "get_last_model_metadata a =
     (case find_map (\<lambda>item. case item of
               Assistant m \<Rightarrow> Some \<lparr>resolved_model_id = model_id m, fingerprint = model_fingerprint m\<rparr>
             | _ \<Rightarrow> None) (rev (conversation (chat a))) of
        Some m \<Rightarrow> m | None \<Rightarrow> \<lparr>resolved_model_id = None, fingerprint = None\<rparr>)"

definition get_conversation_len :: "chat_actor \<Rightarrow> nat" where
  "get_conversation_len a = length (conversation (chat a))"

definition actor_has_dangling_tool_calls :: "chat_actor \<Rightarrow> bool" where
  "actor_has_dangling_tool_calls a = has_dangling_tool_calls (conversation (chat a))"

definition get_last_assistant_text :: "chat_actor \<Rightarrow> rstr option" where
  "get_last_assistant_text a =
     find_map (\<lambda>item. case item of
         Assistant m \<Rightarrow> if trim (assistant_content m) \<noteq> '''' then Some (assistant_content m) else None
       | _ \<Rightarrow> None) (rev (conversation (chat a)))"

text \<open>The turn boundary: a marked prompt, a genuine user message or a reason that starts a turn.\<close>

definition starts_turn :: "user_item \<Rightarrow> bool" where
  "starts_turn u \<longleftrightarrow>
     prompt_index u \<noteq> None \<or>
     (case synthetic_reason u of None \<Rightarrow> True | Some r \<Rightarrow> starts_prompt_turn r)"

fun last_assistant_text_back :: "conversation_item list \<Rightarrow> rstr option" where
  "last_assistant_text_back [] = None"
| "last_assistant_text_back (item # earlier) =
     (case item of
        Assistant m \<Rightarrow>
          if trim (assistant_content m) \<noteq> '''' then Some (assistant_content m)
          else last_assistant_text_back earlier
      | User u \<Rightarrow> if starts_turn u then None else last_assistant_text_back earlier
      | _ \<Rightarrow> last_assistant_text_back earlier)"

definition get_last_assistant_text_in_turn :: "chat_actor \<Rightarrow> rstr option" where
  "get_last_assistant_text_in_turn a = last_assistant_text_back (rev (conversation (chat a)))"

definition get_first_user_text :: "chat_actor \<Rightarrow> rstr option" where
  "get_first_user_text a =
     find_map (\<lambda>item. case item of
         User u \<Rightarrow> (case user_content u of Text_part t # _ \<Rightarrow> Some t | _ \<Rightarrow> None)
       | _ \<Rightarrow> None) (conversation (chat a))"

definition get_conversation_item_at :: "nat \<Rightarrow> chat_actor \<Rightarrow> conversation_item option" where
  "get_conversation_item_at i a =
     (if i < length (conversation (chat a)) then Some (conversation (chat a) ! i) else None)"

definition get_last_user_query_text :: "chat_actor \<Rightarrow> rstr option" where
  "get_last_user_query_text a = extract_last_user_query (conversation (chat a))"

definition count_item :: "conversation_item \<Rightarrow> conversation_counts \<Rightarrow> conversation_counts" where
  "count_item item c =
     (case item of
        User _ \<Rightarrow> c\<lparr>count_user := count_user c + 1\<rparr>
      | Assistant _ \<Rightarrow> c\<lparr>count_assistant := count_assistant c + 1\<rparr>
      | ToolResult _ \<Rightarrow> c\<lparr>count_tool_result := count_tool_result c + 1\<rparr>
      | _ \<Rightarrow> c)"

definition get_conversation_counts :: "chat_actor \<Rightarrow> conversation_counts" where
  "get_conversation_counts a =
     fold count_item (conversation (chat a))
       \<lparr>count_total = length (conversation (chat a)), count_user = 0, count_assistant = 0,
        count_tool_result = 0\<rparr>"

definition get_system_message :: "chat_actor \<Rightarrow> conversation_item option" where
  "get_system_message a = find is_system (conversation (chat a))"

definition take_turn_messages :: "chat_actor \<Rightarrow> turn_capture_msg option \<times> chat_actor" where
  "take_turn_messages a =
     (map_option (\<lambda>cap.
        \<lparr>captured_messages = pre_replacement_messages cap @
           turn_tail (conversation (chat a)) (turn_start_offset cap),
         captured_compaction = compaction_occurred cap\<rparr>) (turn_capture (chat a)),
      a\<lparr>chat := (chat a)\<lparr>turn_capture := None\<rparr>\<rparr>)"

definition take_harness_trace_turns ::
  "chat_actor \<Rightarrow> conversation_item list list \<times> chat_actor" where
  "take_harness_trace_turns a =
     (let s = seal_harness_trace_turn (chat a)
      in (harness_trace_turns s, a\<lparr>chat := s\<lparr>harness_trace_turns := []\<rparr>\<rparr>))"

section \<open>Building a request\<close>

text \<open>
  Of the request, the fields that are not constants; the trace handle is passed through.
\<close>

record conversation_request =
  request_items :: "conversation_item list"
  request_tools :: "tool_spec list"
  request_model :: rstr
  request_temperature :: "rat option"
  request_max_output_tokens :: "u32 option"
  request_top_p :: "rat option"
  request_conv_id :: rstr
  request_req_id :: rstr
  request_effort :: "reasoning_effort option"

text \<open>The reminder that is persisted first, and what is left of it for the copy.\<close>

definition persist_reminder ::
  "rstr option \<Rightarrow> bool \<Rightarrow> chat_actor \<Rightarrow> rstr option \<times> chat_actor" where
  "persist_reminder memory_reminder persist_memory_reminder a =
     (case memory_reminder of
        Some reminder \<Rightarrow>
          (if persist_memory_reminder then
             (let a = snapshot_turn_slice a;
                  (conv, injected) = inject_memory_reminder (conversation (chat a)) reminder;
                  a = a\<lparr>chat := (chat a)\<lparr>conversation := conv\<rparr>\<rparr>;
                  (left, a) = (if injected then (None, a\<lparr>store := replace_history conv (store a)\<rparr>)
                               else (memory_reminder, a))
              in (left, rebase_turn_capture_offset a))
           else (memory_reminder, a))
      | None \<Rightarrow> (None, a))"

definition build_conversation_request ::
  "json_sizes \<Rightarrow> tool_spec list \<Rightarrow> rstr option \<Rightarrow> bool \<Rightarrow> rstr \<Rightarrow> rstr \<Rightarrow> chat_actor \<Rightarrow>
     conversation_request \<times> chat_actor" where
  "build_conversation_request js tools memory_reminder persist_memory_reminder conv_id req_id a =
     (let needs_prune = should_prune (total_tokens (chat a)) (context_window (sampling_config (chat a)));
          (left, a) = persist_reminder memory_reminder persist_memory_reminder a;
          (its, outcome) = apply_image_budget js (conversation (chat a));
          a = (if 0 < inline_images outcome then send_event (ImageBudgetRecord outcome) a else a);
          its = (if needs_prune then prune_conversation (pruning_cfg a) its else its);
          its = (case left of Some reminder \<Rightarrow> fst (inject_memory_reminder its reminder) | None \<Rightarrow> its);
          its = from_raw its;
          cfg = sampling_config (chat a)
      in (\<lparr>request_items = its, request_tools = tools, request_model = model cfg,
           request_temperature = temperature cfg,
           request_max_output_tokens = max_completion_tokens cfg, request_top_p = top_p cfg,
           request_conv_id = conv_id, request_req_id = req_id, request_effort = config_effort cfg\<rparr>, a))"

section \<open>Commands\<close>

datatype (plugins only: code) chat_command =
    PushUserMessage conversation_item
  | PushUserMessageAndAck conversation_item
  | AppendWorkingDirectorySwitchAndAck rstr u64
  | PushUserMessageWithRepairReason conversation_item dangling_tool_call_reason
  | PushAssistantResponse conversation_item
  | PushToolResult conversation_item
  | PushModelOutput conversation_item
  | PushUnreportedModelOutput conversation_item
  | RecordTokenUsage u64
  | RecordLastTurnUsage token_usage
  | RecordModelCallUsage "rstr option" token_usage "u64 option" "int option"
  | RecordSubagentUsage "(rstr \<times> usage_totals) list" bool bool
  | MarkUsageIncomplete bool bool
  | IncrementPromptIndex
  | UpdateSamplingConfig sampling_config
  | RecordAgentEditedPath rstr
  | RecordStreamStart int
  | RecordTurnStart int
  | ReplaceConversation "conversation_item list" bool
  | RepairHistory bool "bool option"
  | StripConversationImages "rstr list"
  | ReplaceSystemHead rstr
  | CachePromptText rstr
  | RecordCompactionAt nat
  | FlushStore
  | UpdateCredentials credentials
  | RestoreSnapshot chat_snapshot
  | BeginTurnCapture
  | AppendHarnessTraceItems "conversation_item list"
  | FlushHarnessTraceTurn
  | RepairDanglingAfterHarnessHalt rstr
  | BuildConversationRequest "tool_spec list" "rstr option" bool rstr rstr
  | GetConversation
  | GetPromptIndex
  | GetLastCompactionPromptIndex
  | GetTotalTokens
  | GetLastTurnUsage
  | GetPromptUsage
  | GetSessionUsage
  | GetEstimatedTotalTokens
  | GetEstimatedMessagesTokens
  | GetSamplingConfig
  | GetAgentEditedPaths
  | GetNotificationMeta
  | GetSnapshot
  | TruncateToPromptIndex nat
  | CheckAutoCompactNeeded u8
  | GetCredentials
  | GetLastModelMetadata
  | TakeTurnMessages
  | TakeHarnessTraceTurns
  | GetConversationLen
  | HasDanglingToolCalls
  | GetLastAssistantText
  | GetLastAssistantTextInTurn
  | GetFirstUserText
  | GetConversationItemAt nat
  | GetLastUserQueryText
  | GetConversationCounts
  | GetSystemMessage

datatype (plugins only: code) chat_reply =
    NoReply
  | Ack
  | SwitchReply "strict_append_error + strict_append_ack"
  | RepairBlocked
  | RepairReport history_repair_report
  | StripReply strip_outcome
  | BoolReply bool
  | NatReply nat
  | NatOptionReply "nat option"
  | WordReply u64
  | TextReply "rstr option"
  | ItemReply "conversation_item option"
  | ConversationReply "conversation_item list"
  | TurnsReply "conversation_item list list"
  | LastUsageReply "token_usage option"
  | LedgerReply "usage_ledger option"
  | ConfigReply sampling_config
  | PathsReply "rstr set"
  | MetaReply notification_meta
  | SnapshotReply chat_snapshot
  | TriggerReply "auto_compact_trigger option"
  | CredentialsReply credentials
  | ModelReply model_metadata
  | CaptureReply "turn_capture_msg option"
  | CountsReply conversation_counts
  | RequestReply conversation_request

definition append_working_directory_switch ::
  "rstr \<Rightarrow> u64 \<Rightarrow> chat_actor \<Rightarrow> (strict_append_error + strict_append_ack) \<times> chat_actor" where
  "append_working_directory_switch content generation a =
     (let candidate = working_directory_switch content generation;
          (result, p) = persist_working_directory_switch_and_ack candidate (store a);
          a = a\<lparr>store := p\<rparr>;
          authoritative =
            (case result of
               Inr Appended \<Rightarrow> Some candidate
             | Inl (Committed Appended) \<Rightarrow> Some candidate
             | Inr (AlreadyPresent x) \<Rightarrow> Some x
             | Inl (Committed (AlreadyPresent x)) \<Rightarrow> Some x
             | Inl _ \<Rightarrow> None)
      in (result, case authoritative of
                    Some x \<Rightarrow> converge_working_directory_switch generation x a | None \<Rightarrow> a))"

definition handle_command :: "json_sizes \<Rightarrow> chat_command \<Rightarrow> chat_actor \<Rightarrow> chat_reply \<times> chat_actor" where
  "handle_command js cmd a =
     (case cmd of
        PushUserMessage item \<Rightarrow> (NoReply, push_user_message item a)
      | PushUserMessageAndAck item \<Rightarrow> (Ack, push_user_message item a)
      | AppendWorkingDirectorySwitchAndAck content generation \<Rightarrow>
          (let (result, a) = append_working_directory_switch content generation a in (SwitchReply result, a))
      | PushUserMessageWithRepairReason item reason \<Rightarrow>
          (NoReply, push_user_message_with_repair_reason item reason a)
      | PushAssistantResponse item \<Rightarrow> (NoReply, push_message item a)
      | PushToolResult item \<Rightarrow> (NoReply, push_message item a)
      | PushModelOutput item \<Rightarrow> (NoReply, push_model_output item a)
      | PushUnreportedModelOutput item \<Rightarrow> (NoReply, push_unreported_model_output item a)
      | RecordTokenUsage n \<Rightarrow> (NoReply, record_token_usage n a)
      | RecordLastTurnUsage u \<Rightarrow> (NoReply, record_last_turn_usage u a)
      | RecordModelCallUsage m u d c \<Rightarrow> (NoReply, record_model_call_usage m u d c a)
      | RecordSubagentUsage us to_prompt inc \<Rightarrow> (Ack, record_subagent_usage us to_prompt inc a)
      | MarkUsageIncomplete prompt session \<Rightarrow> (Ack, mark_usage_incomplete prompt session a)
      | IncrementPromptIndex \<Rightarrow> (NoReply, increment_prompt_index a)
      | UpdateSamplingConfig config \<Rightarrow> (NoReply, a\<lparr>chat := (chat a)\<lparr>sampling_config := config\<rparr>\<rparr>)
      | RecordAgentEditedPath path \<Rightarrow>
          (NoReply, a\<lparr>chat := (chat a)\<lparr>agent_edited_paths := insert path (agent_edited_paths (chat a))\<rparr>\<rparr>)
      | RecordStreamStart ts \<Rightarrow> (NoReply, a\<lparr>chat := (chat a)\<lparr>stream_start_ms := Some ts\<rparr>\<rparr>)
      | RecordTurnStart ts \<Rightarrow> (NoReply, a\<lparr>chat := (chat a)\<lparr>turn_start_ms := Some ts\<rparr>\<rparr>)
      | ReplaceConversation its is_compaction \<Rightarrow> (NoReply, replace_conversation its is_compaction a)
      | RepairHistory dry_run turn_active \<Rightarrow>
          (if turn_active = Some True then (RepairBlocked, a)
           else (let (report, a) = repair_session_history dry_run a in (RepairReport report, a)))
      | StripConversationImages urls \<Rightarrow>
          (let (result, a) = strip_conversation_images urls a
           in (StripReply (case result of
                 None \<Rightarrow> NoMatch
               | Some (stripped, ack) \<Rightarrow> if ack then Applied stripped else WriteFailed stripped), a))
      | ReplaceSystemHead prompt \<Rightarrow>
          (let (is_changed, a) = replace_system_head prompt a in (BoolReply is_changed, a))
      | CachePromptText t \<Rightarrow> (NoReply, a\<lparr>chat := (chat a)\<lparr>prompt_texts := prompt_texts (chat a) @ [t]\<rparr>\<rparr>)
      | RecordCompactionAt i \<Rightarrow> (NoReply, a\<lparr>chat := (chat a)\<lparr>last_compaction_prompt_index := Some i\<rparr>\<rparr>)
      | FlushStore \<Rightarrow> (NoReply, a\<lparr>store := flush_store (store a)\<rparr>)
      | UpdateCredentials c \<Rightarrow> (NoReply, a\<lparr>chat := (chat a)\<lparr>credentials := c\<rparr>\<rparr>)
      | RestoreSnapshot snap \<Rightarrow> (NoReply, restore_snapshot snap a)
      | BeginTurnCapture \<Rightarrow>
          (NoReply, a\<lparr>chat := (chat a)\<lparr>turn_capture := Some
             \<lparr>turn_start_offset = length (conversation (chat a)), pre_replacement_messages = [],
              compaction_occurred = False\<rparr>\<rparr>\<rparr>)
      | AppendHarnessTraceItems its \<Rightarrow>
          (NoReply, a\<lparr>chat := (chat a)\<lparr>harness_trace_buffer := harness_trace_buffer (chat a) @ its\<rparr>\<rparr>)
      | FlushHarnessTraceTurn \<Rightarrow> (NoReply, a\<lparr>chat := seal_harness_trace_turn (chat a)\<rparr>)
      | RepairDanglingAfterHarnessHalt c \<Rightarrow> (NoReply, repair_dangling_after_harness_halt c a)
      | BuildConversationRequest tools reminder persist conv_id req_id \<Rightarrow>
          (let a = ensure_conversation_integrity a;
               (request, a) = build_conversation_request js tools reminder persist conv_id req_id a
           in (RequestReply request, a))
      | GetConversation \<Rightarrow> (ConversationReply (conversation (chat a)), a)
      | GetPromptIndex \<Rightarrow> (NatReply (prompt_idx (chat a)), a)
      | GetLastCompactionPromptIndex \<Rightarrow> (NatOptionReply (last_compaction_prompt_index (chat a)), a)
      | GetTotalTokens \<Rightarrow> (WordReply (total_tokens (chat a)), a)
      | GetLastTurnUsage \<Rightarrow> (LastUsageReply (last_turn_usage (chat a)), a)
      | GetPromptUsage \<Rightarrow> (LedgerReply (prompt_usage (chat a)), a)
      | GetSessionUsage \<Rightarrow> (LedgerReply (Some (session_usage (chat a))), a)
      | GetEstimatedTotalTokens \<Rightarrow>
          (WordReply (total_tokens (chat a) + estimated_tokens_since_model (chat a)), a)
      | GetEstimatedMessagesTokens \<Rightarrow> (WordReply (estimate_messages_tokens (conversation (chat a))), a)
      | GetSamplingConfig \<Rightarrow> (ConfigReply (sampling_config (chat a)), a)
      | GetAgentEditedPaths \<Rightarrow> (PathsReply (agent_edited_paths (chat a)), a)
      | GetNotificationMeta \<Rightarrow> (MetaReply (get_notification_meta a), a)
      | GetSnapshot \<Rightarrow> (SnapshotReply (snapshot a), a)
      | TruncateToPromptIndex target \<Rightarrow>
          (let a = truncate_to_prompt_index target a
           in (Ack, a\<lparr>chat := (chat a)\<lparr>turn_capture := None, prompt_usage := None\<rparr>\<rparr>))
      | CheckAutoCompactNeeded p \<Rightarrow> (TriggerReply (check_auto_compact_needed p a), a)
      | GetCredentials \<Rightarrow> (CredentialsReply (credentials (chat a)), a)
      | GetLastModelMetadata \<Rightarrow> (ModelReply (get_last_model_metadata a), a)
      | TakeTurnMessages \<Rightarrow> (let (r, a) = take_turn_messages a in (CaptureReply r, a))
      | TakeHarnessTraceTurns \<Rightarrow> (let (r, a) = take_harness_trace_turns a in (TurnsReply r, a))
      | GetConversationLen \<Rightarrow> (NatReply (get_conversation_len a), a)
      | HasDanglingToolCalls \<Rightarrow> (BoolReply (actor_has_dangling_tool_calls a), a)
      | GetLastAssistantText \<Rightarrow> (TextReply (get_last_assistant_text a), a)
      | GetLastAssistantTextInTurn \<Rightarrow> (TextReply (get_last_assistant_text_in_turn a), a)
      | GetFirstUserText \<Rightarrow> (TextReply (get_first_user_text a), a)
      | GetConversationItemAt i \<Rightarrow> (ItemReply (get_conversation_item_at i a), a)
      | GetLastUserQueryText \<Rightarrow> (TextReply (get_last_user_query_text a), a)
      | GetConversationCounts \<Rightarrow> (CountsReply (get_conversation_counts a), a)
      | GetSystemMessage \<Rightarrow> (ItemReply (get_system_message a), a))"

definition run_commands :: "json_sizes \<Rightarrow> chat_command list \<Rightarrow> chat_actor \<Rightarrow> chat_actor" where
  "run_commands js cmds a = fold (\<lambda>cmd a. snd (handle_command js cmd a)) cmds a"

end
