(* ===== verification/ChatInvariants.thy ===== *)
theory ChatInvariants
  imports ChatCommands
begin

section \<open>Invariants of the chat-state actor\<close>

text \<open>
  What every command keeps: the store holds the conversation, a turn capture points into it and
  what it has captured is not lost.
\<close>

subsection \<open>The history rewrites\<close>

lemma snapshot_turn_slice_simps [simp]:
  "conversation (chat (snapshot_turn_slice a)) = conversation (chat a)"
  "store (snapshot_turn_slice a) = store a"
  "pruning_cfg (snapshot_turn_slice a) = pruning_cfg a"
  "events (snapshot_turn_slice a) = events a"
  "prompt_idx (chat (snapshot_turn_slice a)) = prompt_idx (chat a)"
  by (simp_all add: snapshot_turn_slice_def)

lemma rebase_simps [simp]:
  "conversation (chat (rebase_turn_capture_offset a)) = conversation (chat a)"
  "store (rebase_turn_capture_offset a) = store a"
  "pruning_cfg (rebase_turn_capture_offset a) = pruning_cfg a"
  "events (rebase_turn_capture_offset a) = events a"
  "prompt_idx (chat (rebase_turn_capture_offset a)) = prompt_idx (chat a)"
  by (simp_all add: rebase_turn_capture_offset_def)

lemma send_event_simps [simp]:
  "chat (send_event e a) = chat a" "store (send_event e a) = store a"
  "pruning_cfg (send_event e a) = pruning_cfg a" "events (send_event e a) = events a @ [e]"
  by (simp_all add: send_event_def)

lemma rewrite_history_simps [simp]:
  "fst (fst (rewrite_history kind f a)) = snd (f (conversation (chat a)))"
  "conversation (chat (snd (rewrite_history kind f a))) = fst (f (conversation (chat a)))"
  "pruning_cfg (snd (rewrite_history kind f a)) = pruning_cfg a"
  "events (snd (rewrite_history kind f a)) = events a"
  "prompt_idx (chat (snd (rewrite_history kind f a))) = prompt_idx (chat a)"
  by (auto simp: rewrite_history_def split_beta Let_def split: history_rewrite.splits)

lemma rewrite_history_store:
  "store (snd (rewrite_history kind f a)) =
     (if snd (f (conversation (chat a))) = 0 then store a
      else if kind = ImageStrip
      then snd (replace_history_for_strip_and_ack (fst (f (conversation (chat a)))) (store a))
      else replace_history (fst (f (conversation (chat a)))) (store a))"
  by (auto simp: rewrite_history_def split_beta Let_def split: history_rewrite.splits)

lemma rewrite_history_capture:
  "turn_capture (chat (snd (rewrite_history kind f a))) =
     (if kind = IntegrityRepair
      then map_option (\<lambda>cap. cap\<lparr>pre_replacement_messages := pre_replacement_messages cap @
               turn_tail (conversation (chat a)) (turn_start_offset cap),
             turn_start_offset := length (fst (f (conversation (chat a))))\<rparr>) (turn_capture (chat a))
      else turn_capture (chat a))"
  by (cases "turn_capture (chat a)")
    (auto simp: rewrite_history_def split_beta Let_def snapshot_turn_slice_def
      rebase_turn_capture_offset_def split: history_rewrite.splits)

text \<open>A pass that reports no change made none.\<close>

lemma integrity_pass_zero: "snd (integrity_pass reason conv) = 0 \<Longrightarrow> fst (integrity_pass reason conv) = conv"
  using dedup_zero [of conv] repair_dangling_zero [of reason conv]
  by (auto simp: integrity_pass_def split_beta Let_def)

lemma strip_item_zero: "snd (strip_item p item) = [] \<Longrightarrow> fst (strip_item p item) = item"
proof (cases item)
  case (User u)
  have "List.map_filter (stripped_url p) ps = [] \<Longrightarrow> map (strip_part p) ps = ps" for ps
  proof (induction ps)
    case (Cons part ps)
    then show ?case by (cases part) (auto simp: List.map_filter_simps split: if_splits)
  qed simp
  then show "snd (strip_item p item) = [] \<Longrightarrow> fst (strip_item p item) = item" using User by simp
next
  case (ToolResult t)
  have "List.map_filter (stripped_url p) ps = [] \<Longrightarrow> filter (\<lambda>part. stripped_url p part = None) ps = ps" for ps
    by (induction ps) (auto simp: List.map_filter_simps split: option.splits)
  then show "snd (strip_item p item) = [] \<Longrightarrow> fst (strip_item p item) = item" using ToolResult by simp
qed simp_all

lemma strip_images_where_zero:
  "snd (strip_images_where p items) = [] \<Longrightarrow> fst (strip_images_where p items) = items"
  by (induction items) (auto simp: split_beta strip_item_zero)

lemma strip_by_url_zero: "snd (strip_images_by_url urls items) = 0 \<Longrightarrow> fst (strip_images_by_url urls items) = items"
  using strip_images_where_zero by (simp add: strip_images_by_url_def split_beta)

lemma prune_retained_zero:
  "snd (prune_retained_back threshold n s items) = 0 \<Longrightarrow> fst (prune_retained_back threshold n s items) = items"
proof (induction threshold n s items rule: prune_retained_back.induct)
  case (2 threshold n s item earlier)
  then show ?case by (cases item) (auto simp: split_beta Let_def split: if_splits)
qed simp

definition retained_pass :: "nat \<Rightarrow> conversation_item list \<Rightarrow> conversation_item list \<times> nat" where
  "retained_pass threshold conv =
     (let (items, n) = prune_retained_back threshold 0 False (rev conv) in (rev items, n))"

lemma retained_pass_zero: "snd (retained_pass threshold conv) = 0 \<Longrightarrow> fst (retained_pass threshold conv) = conv"
  using prune_retained_zero [of threshold 0 False "rev conv"] by (simp add: retained_pass_def split_beta)

lemma prune_retained_eq:
  "prune_retained_conversation a =
     (if \<not> pruning_enabled (pruning_cfg a) \<or> prompt_idx (chat a) < hard_clear_age_turns (pruning_cfg a)
      then (0, a)
      else (snd (retained_pass (effective_threshold a) (conversation (chat a))),
            snd (rewrite_history RetainedPrune (retained_pass (effective_threshold a)) a)))"
  by (simp add: prune_retained_conversation_def retained_pass_def [abs_def] split_beta Let_def)

subsection \<open>The store holds the conversation\<close>

definition in_sync :: "conversation_item list \<Rightarrow> chat_actor \<Rightarrow> bool" where
  "in_sync base a \<longleftrightarrow>
     \<not> fail_strip_writes (store a) \<and> mock.synced base (store a) (conversation (chat a))"

lemma store_flags [simp]:
  "fail_strip_writes (persist_message x p) = fail_strip_writes p"
  "fail_strip_writes (replace_history xs p) = fail_strip_writes p"
  "fail_strip_writes (flush_store p) = fail_strip_writes p"
  "fail_strip_writes (snd (replace_history_for_strip_and_ack xs p)) = fail_strip_writes p"
  "fst (replace_history_for_strip_and_ack xs p) = (\<not> fail_strip_writes p)"
  by (simp_all add: persist_message_def replace_history_def flush_store_def send_record_def
      replace_history_for_strip_and_ack_def)

lemma in_sync_rewrite:
  assumes "in_sync base a"
    and "snd (f (conversation (chat a))) = 0 \<Longrightarrow> fst (f (conversation (chat a))) = conversation (chat a)"
  shows "in_sync base (snd (rewrite_history kind f a))"
  using assms mock.synced_replace mock.synced_strip
  by (auto simp: in_sync_def rewrite_history_store)

lemma in_sync_cong:
  "in_sync base a \<Longrightarrow> store b = store a \<Longrightarrow> conversation (chat b) = conversation (chat a) \<Longrightarrow> in_sync base b"
  by (simp add: in_sync_def)

lemma in_sync_push: "in_sync base a \<Longrightarrow> in_sync base (persist_and_push_message x a)"
  by (simp add: in_sync_def persist_and_push_message_def mock.synced_push)

lemma in_sync_replace: "in_sync base a \<Longrightarrow> in_sync base (replace_conversation items c a)"
  by (simp add: in_sync_def replace_conversation_def Let_def mock.synced_replace)

lemma sync_rewrites:
  assumes "in_sync base a"
  shows "in_sync base (snd (rewrite_history kind (integrity_pass reason) a))"
    and "in_sync base (snd (rewrite_history kind (strip_images_by_url urls) a))"
    and "in_sync base (snd (rewrite_history kind (retained_pass threshold) a))"
  by (rule in_sync_rewrite [OF assms], erule integrity_pass_zero strip_by_url_zero retained_pass_zero)+

lemma in_sync_prune: "in_sync base a \<Longrightarrow> in_sync base (snd (prune_retained_conversation a))"
  by (simp add: prune_retained_eq sync_rewrites)

lemma in_sync_push_user: "in_sync base a \<Longrightarrow> in_sync base (push_user_message_with_repair_reason item reason a)"
proof -
  assume "in_sync base a"
  then have "in_sync base (ensure_conversation_integrity_with_reason reason a)"
    by (simp add: ensure_conversation_integrity_with_reason_def sync_rewrites)
  then show ?thesis
    unfolding push_user_message_with_repair_reason_def Let_def
    by (intro in_sync_prune) (simp add: in_sync_def add_estimate_def mock.synced_push)
qed

lemma add_estimate_simps [simp]:
  "store (add_estimate n a) = store a" "pruning_cfg (add_estimate n a) = pruning_cfg a"
  "events (add_estimate n a) = events a"
  "conversation (chat (add_estimate n a)) = conversation (chat a)"
  "turn_capture (chat (add_estimate n a)) = turn_capture (chat a)"
  "prompt_idx (chat (add_estimate n a)) = prompt_idx (chat a)"
  by (simp_all add: add_estimate_def)

lemma in_sync_add_estimate [simp]: "in_sync base (add_estimate n a) = in_sync base a"
  by (simp add: in_sync_def)

lemma in_sync_send [simp]: "in_sync base (send_event e a) = in_sync base a"
  by (simp add: in_sync_def)

lemma seal_simps [simp]:
  "conversation (seal_harness_trace_turn s) = conversation s"
  "turn_capture (seal_harness_trace_turn s) = turn_capture s"
  by (simp_all add: seal_harness_trace_turn_def)

lemma in_sync_push_message: "in_sync base a \<Longrightarrow> in_sync base (push_message item a)"
  by (cases item) (simp_all add: push_message_def in_sync_push)

lemma in_sync_repair: "in_sync base a \<Longrightarrow> in_sync base (snd (repair_session_history dry a))"
proof -
  assume s: "in_sync base a"
  show ?thesis
  proof (cases "\<not> dry \<and> \<not> changed (snd (repair_history (conversation (chat a))))")
    case True
    then have "fst (repair_history (conversation (chat a))) = conversation (chat a)"
      using repair_history_unchanged by blast
    then show ?thesis using s True by (simp add: repair_session_history_def split_beta Let_def in_sync_def)
  next
    case False
    then show ?thesis
      using s by (auto simp: repair_session_history_def split_beta Let_def in_sync_def
          replace_conversation_def mock.synced_replace)
  qed
qed

lemma in_sync_persist_reminder: "in_sync base a \<Longrightarrow> in_sync base (snd (persist_reminder r p a))"
proof -
  assume s: "in_sync base a"
  have same: "\<not> snd (inject_memory_reminder c x) \<Longrightarrow> fst (inject_memory_reminder c x) = c" for c x
    by (auto simp: inject_memory_reminder_def Let_def upsert_memory_reminder_text_def split_beta
        split: list.splits conversation_item.splits if_splits)
  show ?thesis
    using s same by (auto simp: persist_reminder_def split_beta Let_def in_sync_def mock.synced_replace
        split: option.splits)
qed

lemma in_sync_build:
  "in_sync base a \<Longrightarrow> in_sync base (snd (build_conversation_request js ts r p ci ri a))"
  using in_sync_persist_reminder [of base a r p]
  by (simp add: build_conversation_request_def split_beta Let_def in_sync_def)

fun keeps_sync :: "chat_command \<Rightarrow> bool" where
  "keeps_sync (RestoreSnapshot _) = False"
| "keeps_sync (AppendWorkingDirectorySwitchAndAck _ _) = False"
| "keeps_sync _ = True"

lemmas sync_handlers =
  push_user_message_def push_model_output_def push_unreported_model_output_def record_token_usage_def
  record_last_turn_usage_def record_model_call_usage_def record_subagent_usage_def
  mark_usage_incomplete_def increment_prompt_index_def strip_conversation_images_def
  repair_dangling_after_harness_halt_def ensure_conversation_integrity_with_reason_def
  ensure_conversation_integrity_def take_turn_messages_def take_harness_trace_turns_def

lemmas sync_facts = in_sync_push_user in_sync_push_message in_sync_push in_sync_replace in_sync_repair
  sync_rewrites in_sync_build

lemma in_sync_command:
  assumes "keeps_sync cmd" and "in_sync base a"
  shows "in_sync base (snd (handle_command js cmd a))"
proof -
  have frame: "in_sync base (a\<lparr>chat := s\<rparr>)" if "conversation s = conversation (chat a)" for s
    using assms(2) that by (simp add: in_sync_def)
  show ?thesis
  proof (cases cmd)
    case (ReplaceSystemHead prompt)
    then show ?thesis using assms(2) in_sync_replace
      by (auto simp: handle_command_def replace_system_head_def split_beta Let_def)
  next
    case (TruncateToPromptIndex n)
    then show ?thesis using assms(2)
      by (auto simp: handle_command_def truncate_to_prompt_index_def Let_def in_sync_def mock.synced_replace)
  next
    case FlushStore
    then show ?thesis using assms(2) by (simp add: handle_command_def in_sync_def mock.synced_flush)
  next
    case BuildConversationRequest
    then show ?thesis using assms(2)
      by (simp add: handle_command_def split_beta Let_def sync_facts sync_handlers)
  next
    case RepairHistory
    then show ?thesis using assms(2) by (simp add: handle_command_def split_beta sync_facts)
  qed (use assms frame in \<open>simp_all add: handle_command_def split_beta Let_def sync_facts sync_handlers\<close>)
qed

text \<open>A small session for the witnesses.\<close>

definition sample_config :: sampling_config where
  "sample_config =
     \<lparr>base_url = ''u'', model = ''m'', max_completion_tokens = None, temperature = None, top_p = None,
      context_window = 1000, config_effort = None\<rparr>"

definition sample_sizes :: json_sizes where
  "sample_sizes = \<lparr>body_json = \<lambda>c. 40 * length c, str_json = \<lambda>s. length s + 2, part_json = \<lambda>_. 9\<rparr>"

definition sample_actor :: chat_actor where
  "sample_actor = spawn [] sample_config mock_new"

text \<open>
  C1: Memory and disk never disagree.  After any sequence of commands from a fresh session, failed
  strip writes, snapshot restores and strict working-directory appends aside, replaying the writes
  recorded by the store over the conversation the session started with gives the conversation in
  memory: every push, repair, prune, strip, replacement, rewind and injected reminder is persisted.
\<close>

theorem store_holds_conversation:
  fixes conv cfg pruning
  assumes "list_all keeps_sync cmds"
  defines "start \<equiv> spawn_with_pruning conv cfg pruning mock_new"
  shows "mock_contents (conversation (chat start)) (store (run_commands js cmds start)) =
           conversation (chat (run_commands js cmds start))"
proof -
  have "in_sync (conversation (chat start)) a \<Longrightarrow> list_all keeps_sync cmds \<Longrightarrow>
      in_sync (conversation (chat start)) (run_commands js cmds a)" for a
    unfolding run_commands_def by (induction cmds arbitrary: a) (simp_all add: in_sync_command)
  moreover have "in_sync (conversation (chat start)) start"
    by (simp add: in_sync_def mock.synced_def start_def spawn_with_pruning_def mock_new_def mock_contents_def)
  ultimately show ?thesis using assms(1) by (simp add: in_sync_def mock.synced_def)
qed

lemma store_holds_conversation_witness:
  "mock_contents (conversation (chat (spawn_with_pruning [] sample_config pruning_default mock_new)))
     (store (run_commands sample_sizes [PushUserMessage (user_msg ''hi''), IncrementPromptIndex, TruncateToPromptIndex 0]
       (spawn_with_pruning [] sample_config pruning_default mock_new))) =
   conversation (chat (run_commands sample_sizes [PushUserMessage (user_msg ''hi''), IncrementPromptIndex, TruncateToPromptIndex 0]
       (spawn_with_pruning [] sample_config pruning_default mock_new)))"
  by (rule store_holds_conversation) simp

subsection \<open>Turn capture\<close>

definition capture_ok :: "chat_actor \<Rightarrow> bool" where
  "capture_ok a \<longleftrightarrow>
     (case turn_capture (chat a) of
        Some cap \<Rightarrow> turn_start_offset cap \<le> length (conversation (chat a)) | None \<Rightarrow> True)"

lemma capture_ok_cong:
  "capture_ok a \<Longrightarrow> turn_capture (chat b) = turn_capture (chat a) \<Longrightarrow>
     length (conversation (chat a)) \<le> length (conversation (chat b)) \<Longrightarrow> capture_ok b"
  by (auto simp: capture_ok_def split: option.splits)

lemma capture_ok_rebase [simp]: "capture_ok (rebase_turn_capture_offset a)"
  by (auto simp: capture_ok_def rebase_turn_capture_offset_def split: option.splits)

lemma capture_ok_integrity [simp]: "capture_ok (snd (rewrite_history IntegrityRepair f a))"
  by (auto simp: capture_ok_def rewrite_history_capture split: option.splits)

lemma capture_ok_same_length:
  "capture_ok a \<Longrightarrow> kind \<noteq> IntegrityRepair \<Longrightarrow>
     length (fst (f (conversation (chat a)))) = length (conversation (chat a)) \<Longrightarrow>
     capture_ok (snd (rewrite_history kind f a))"
  by (erule capture_ok_cong) (simp_all add: rewrite_history_capture)

lemma capture_ok_send [simp]: "capture_ok (send_event e a) = capture_ok a"
  unfolding capture_ok_def send_event_simps ..

lemma capture_ok_add_estimate [simp]: "capture_ok (add_estimate n a) = capture_ok a"
  unfolding capture_ok_def add_estimate_simps ..

lemma prune_retained_shape: "list_all2 same_shape items (fst (prune_retained_back threshold n s items))"
proof (induction threshold n s items rule: prune_retained_back.induct)
  case (2 threshold n s item earlier)
  then show ?case by (cases item) (simp_all add: split_beta Let_def same_shape_def)
qed simp

lemma retained_pass_shape: "list_all2 same_shape conv (fst (retained_pass threshold conv))"
  using prune_retained_shape [of "rev conv" threshold 0 False]
  by (simp add: retained_pass_def split_beta list_all2_rev1)

lemma retained_pass_length [simp]: "length (fst (retained_pass threshold conv)) = length conv"
  using retained_pass_shape by (metis list_all2_lengthD)

lemma strip_by_url_length [simp]: "length (fst (strip_images_by_url urls conv)) = length conv"
  by (simp add: strip_images_by_url_def split_beta strip_images_length)

lemma capture_ok_prune: "capture_ok a \<Longrightarrow> capture_ok (snd (prune_retained_conversation a))"
  by (simp add: prune_retained_eq capture_ok_same_length)

lemma capture_ok_push: "capture_ok a \<Longrightarrow> capture_ok (persist_and_push_message x a)"
  by (erule capture_ok_cong) (simp_all add: persist_and_push_message_def)

lemma capture_ok_push_user: "capture_ok (push_user_message_with_repair_reason item reason a)"
  unfolding push_user_message_with_repair_reason_def Let_def ensure_conversation_integrity_with_reason_def
  by (rule capture_ok_prune, rule capture_ok_cong [OF capture_ok_integrity [of "integrity_pass reason" a]])
    simp_all

lemma capture_ok_replace: "capture_ok (replace_conversation items c a)"
  by (simp add: replace_conversation_def Let_def)

lemma capture_ok_persist_reminder: "capture_ok a \<Longrightarrow> capture_ok (snd (persist_reminder r p a))"
  by (auto simp: persist_reminder_def split_beta Let_def split: option.splits)

lemma capture_ok_build:
  "capture_ok a \<Longrightarrow> capture_ok (snd (build_conversation_request js ts r p ci ri a))"
  using capture_ok_persist_reminder [of a r p]
  by (simp add: build_conversation_request_def split_beta Let_def)

lemma capture_ok_switch: "capture_ok a \<Longrightarrow> capture_ok (snd (append_working_directory_switch t g a))"
proof -
  assume ok: "capture_ok a"
  have converge: "capture_ok (converge_working_directory_switch g x b)" if "capture_ok b" for x b
    by (rule capture_ok_cong [OF that])
      (simp_all add: converge_working_directory_switch_def Let_def)
  have "capture_ok (a\<lparr>store := p\<rparr>)" for p
    by (rule capture_ok_cong [OF ok]) simp_all
  then show ?thesis
    by (auto simp: append_working_directory_switch_def split_beta Let_def converge
        split: option.splits)
qed

lemma capture_ok_command:
  assumes "capture_ok a"
  shows "capture_ok (snd (handle_command js cmd a))"
proof -
  have frame: "capture_ok (a\<lparr>chat := s\<rparr>)"
    if "conversation s = conversation (chat a)" "turn_capture s = turn_capture (chat a)" for s
    by (rule capture_ok_cong [OF assms]) (simp_all add: that)
  have flush: "capture_ok (a\<lparr>store := p\<rparr>)" for p
    by (rule capture_ok_cong [OF assms]) simp_all
  have none: "capture_ok (b\<lparr>chat := s\<rparr>)" if "turn_capture s = None" for s b
    using that by (simp add: capture_ok_def)
  show ?thesis
  proof (cases cmd)
    case (ReplaceSystemHead prompt)
    then show ?thesis using assms capture_ok_replace
      by (auto simp: handle_command_def replace_system_head_def split_beta Let_def)
  next
    case RepairHistory
    then show ?thesis using RepairHistory assms capture_ok_replace frame
      by (auto simp: handle_command_def repair_session_history_def split_beta Let_def repair_history_unchanged)
  next
    case RestoreSnapshot
    then show ?thesis
      by (simp add: handle_command_def restore_snapshot_def Let_def capture_ok_def
          rebase_turn_capture_offset_def split: option.splits)
  next
    case BeginTurnCapture
    then show ?thesis by (simp add: handle_command_def capture_ok_def)
  qed (use assms frame none flush in \<open>simp_all add: handle_command_def split_beta Let_def sync_handlers
         push_message_def capture_ok_push capture_ok_push_user capture_ok_replace capture_ok_switch
         capture_ok_build capture_ok_same_length split: conversation_item.splits\<close>)
qed

text \<open>
  A turn capture always points into the conversation.  After every command, rewinds, repairs,
  compactions, restores and strict appends included, the start of an active capture is at most the
  length of the conversation, so taking the tail never goes out of range.
\<close>

theorem capture_offset_valid:
  "capture_ok (run_commands js cmds (spawn_with_pruning conv cfg pruning p))"
proof -
  have "capture_ok a \<Longrightarrow> capture_ok (run_commands js cmds a)" for a
    unfolding run_commands_def by (induction cmds arbitrary: a) (simp_all add: capture_ok_command)
  then show ?thesis by (simp add: capture_ok_def spawn_with_pruning_def chat_state_new_def split_beta Let_def)
qed

text \<open>
  What has been captured so far: the slices saved at the rewrites, then the tail.  It is compared
  with the log of the items pushed up to the text of tool results, which a prune may clear.
\<close>

definition capturing :: "chat_actor \<Rightarrow> conversation_item list \<Rightarrow> bool \<Rightarrow> bool" where
  "capturing a pushes compacted \<longleftrightarrow>
     (\<exists>cap. turn_capture (chat a) = Some cap \<and> turn_start_offset cap \<le> length (conversation (chat a)) \<and>
        list_all2 same_shape pushes (pre_replacement_messages cap @
          drop (turn_start_offset cap) (conversation (chat a))) \<and>
        compaction_occurred cap = compacted)"

lemma capturingE:
  assumes "capturing a pushes compacted"
  obtains cap where "turn_capture (chat a) = Some cap"
    and "turn_start_offset cap \<le> length (conversation (chat a))" and "compaction_occurred cap = compacted"
    and "list_all2 same_shape pushes (pre_replacement_messages cap @
          drop (turn_start_offset cap) (conversation (chat a)))"
  using assms by (auto simp: capturing_def)

lemma same_shape_trans: "same_shape x y \<Longrightarrow> same_shape y z \<Longrightarrow> same_shape x z"
proof (cases x)
  case (ToolResult t)
  moreover assume "same_shape x y" "same_shape y z"
  ultimately obtain u v where "y = ToolResult u" "z = ToolResult v"
    "u = t\<lparr>result_content := result_content u\<rparr>" "v = u\<lparr>result_content := result_content v\<rparr>"
    by (cases y; cases z) (auto simp: same_shape_def)
  moreover from this(3) have "t\<lparr>result_content := result_content v\<rparr> = u\<lparr>result_content := result_content v\<rparr>"
    by (metis tool_result_item.surjective tool_result_item.update_convs(2))
  ultimately show ?thesis using ToolResult by (simp add: same_shape_def)
qed (simp_all add: same_shape_def)

lemma shapes_trans: "list_all2 same_shape xs ys \<Longrightarrow> list_all2 same_shape ys zs \<Longrightarrow> list_all2 same_shape xs zs"
  by (rule list_all2_trans [where ?P1.0 = same_shape and ?P2.0 = same_shape]) (blast intro: same_shape_trans)+

lemma capturing_cong:
  "capturing a pushes c \<Longrightarrow> turn_capture (chat b) = turn_capture (chat a) \<Longrightarrow>
     conversation (chat b) = conversation (chat a) \<Longrightarrow> capturing b pushes c"
  by (simp add: capturing_def)

lemma capturing_add_estimate: "capturing a pushes c \<Longrightarrow> capturing (add_estimate n a) pushes c"
  by (erule capturing_cong) simp_all

lemma capturing_send: "capturing a pushes c \<Longrightarrow> capturing (send_event e a) pushes c"
  by (erule capturing_cong) simp_all

lemma capturing_snoc:
  "capturing a pushes c \<Longrightarrow> turn_capture (chat b) = turn_capture (chat a) \<Longrightarrow>
     conversation (chat b) = conversation (chat a) @ [x] \<Longrightarrow> capturing b (pushes @ [x]) c"
proof -
  assume a: "capturing a pushes c" "turn_capture (chat b) = turn_capture (chat a)"
    "conversation (chat b) = conversation (chat a) @ [x]"
  from a(1) obtain cap where cap: "turn_capture (chat a) = Some cap"
    "turn_start_offset cap \<le> length (conversation (chat a))" "compaction_occurred cap = c"
    and l: "list_all2 same_shape pushes
      (pre_replacement_messages cap @ drop (turn_start_offset cap) (conversation (chat a)))"
    by (rule capturingE)
  show ?thesis using cap a(2,3) list_all2_appendI [OF l, of "[x]" "[x]"] by (simp add: capturing_def)
qed

lemma capturing_push: "capturing a pushes c \<Longrightarrow> capturing (persist_and_push_message x a) (pushes @ [x]) c"
  by (erule capturing_snoc) (simp_all add: persist_and_push_message_def)

lemma capturing_rewrite:
  assumes "capturing a pushes c"
    and "kind \<noteq> IntegrityRepair \<Longrightarrow> list_all2 same_shape (conversation (chat a)) (fst (f (conversation (chat a))))"
  shows "capturing (snd (rewrite_history kind f a)) pushes c"
proof -
  obtain cap where cap: "turn_capture (chat a) = Some cap" "turn_start_offset cap \<le> length (conversation (chat a))"
    "list_all2 same_shape pushes (pre_replacement_messages cap @ drop (turn_start_offset cap) (conversation (chat a)))"
    "compaction_occurred cap = c"
    using assms(1) by (auto simp: capturing_def)
  show ?thesis
  proof (cases "kind = IntegrityRepair")
    case True
    then show ?thesis using cap by (simp add: capturing_def rewrite_history_capture turn_tail_def)
  next
    case False
    let ?conv = "fst (f (conversation (chat a)))"
    have shape: "list_all2 same_shape (conversation (chat a)) ?conv" using assms(2) [OF False] .
    have "list_all2 same_shape
        (pre_replacement_messages cap @ drop (turn_start_offset cap) (conversation (chat a)))
        (pre_replacement_messages cap @ drop (turn_start_offset cap) ?conv)"
      using shape by (intro list_all2_appendI) (simp_all add: list_all2_refl list_all2_dropI)
    moreover have "length ?conv = length (conversation (chat a))" using shape by (metis list_all2_lengthD)
    ultimately show ?thesis
      using cap False shapes_trans by (auto simp: capturing_def rewrite_history_capture)
  qed
qed

lemma capturing_prune: "capturing a pushes c \<Longrightarrow> capturing (snd (prune_retained_conversation a)) pushes c"
  using retained_pass_shape by (auto simp: prune_retained_eq intro!: capturing_rewrite)

lemma capturing_integrity:
  "capturing a pushes c \<Longrightarrow> capturing (ensure_conversation_integrity_with_reason reason a) pushes c"
  unfolding ensure_conversation_integrity_with_reason_def by (erule capturing_rewrite) simp

lemma capturing_push_user:
  assumes "capturing a pushes c"
  shows "capturing (push_user_message_with_repair_reason item reason a) (pushes @ [item]) c"
  unfolding push_user_message_with_repair_reason_def Let_def
  by (rule capturing_prune, rule capturing_snoc [OF capturing_integrity [OF assms, of reason]]) simp_all

lemma capturing_push_message: "capturing a pushes c \<Longrightarrow> capturing (push_message item a) (pushes @ [item]) c"
  by (cases item) (simp_all add: push_message_def capturing_push capturing_add_estimate)

lemma capturing_replace:
  "capturing a pushes c \<Longrightarrow> capturing (replace_conversation items b a) pushes (c \<or> b)"
  by (erule capturingE) (simp add: capturing_def replace_conversation_def Let_def snapshot_turn_slice_def
      turn_tail_def rebase_turn_capture_offset_def)

lemma capturing_restore: "capturing a pushes c \<Longrightarrow> capturing (restore_snapshot snap a) pushes c"
  by (erule capturingE) (simp add: capturing_def restore_snapshot_def Let_def snapshot_turn_slice_def
      turn_tail_def rebase_turn_capture_offset_def)

lemma capturing_build:
  assumes "capturing a pushes c"
  shows "capturing (snd (build_conversation_request js ts r p ci ri a)) pushes c"
proof -
  have "capturing (snd (persist_reminder r p a)) pushes c"
    by (rule capturingE [OF assms]) (simp add: capturing_def persist_reminder_def split_beta Let_def
        snapshot_turn_slice_def turn_tail_def rebase_turn_capture_offset_def split: option.splits)
  then show ?thesis
    by (simp add: build_conversation_request_def split_beta Let_def capturing_send)
qed

text \<open>The items a command pushes, and the commands a capture follows.\<close>

fun pushed :: "chat_command \<Rightarrow> conversation_item list" where
  "pushed (PushUserMessage x) = [x]"
| "pushed (PushUserMessageAndAck x) = [x]"
| "pushed (PushUserMessageWithRepairReason x _) = [x]"
| "pushed (PushAssistantResponse x) = [x]"
| "pushed (PushToolResult x) = [x]"
| "pushed (PushModelOutput x) = [x]"
| "pushed (PushUnreportedModelOutput x) = [x]"
| "pushed _ = []"

fun keeps_capture :: "chat_command \<Rightarrow> bool" where
  "keeps_capture (RepairHistory dry_run _) = dry_run"
| "keeps_capture (TruncateToPromptIndex _) = False"
| "keeps_capture BeginTurnCapture = False"
| "keeps_capture TakeTurnMessages = False"
| "keeps_capture (StripConversationImages _) = False"
| "keeps_capture (AppendWorkingDirectorySwitchAndAck _ _) = False"
| "keeps_capture _ = True"

fun compacts :: "chat_command \<Rightarrow> bool" where
  "compacts (ReplaceConversation _ is_compaction) = is_compaction"
| "compacts _ = False"

lemmas capturing_facts = capturing_push capturing_push_user capturing_push_message capturing_build
  capturing_integrity capturing_add_estimate capturing_send capturing_restore capturing_replace

lemma capturing_command:
  assumes "keeps_capture cmd" and "capturing a pushes c"
  shows "capturing (snd (handle_command js cmd a)) (pushes @ pushed cmd) (c \<or> compacts cmd)"
proof -
  have frame: "capturing (a\<lparr>chat := s\<rparr>) pushes c"
    if "conversation s = conversation (chat a)" "turn_capture s = turn_capture (chat a)" for s
    by (rule capturing_cong [OF assms(2)]) (simp_all add: that)
  have flush: "capturing (a\<lparr>store := p\<rparr>) pushes c" for p
    by (rule capturing_cong [OF assms(2)]) simp_all
  show ?thesis
  proof (cases cmd)
    case (ReplaceSystemHead prompt)
    then show ?thesis using assms capturing_replace [OF assms(2), of _ False]
      by (auto simp: handle_command_def replace_system_head_def split_beta Let_def)
  next
    case RepairHistory
    then show ?thesis using assms
      by (simp add: handle_command_def repair_session_history_def split_beta Let_def)
  qed (use assms frame flush in \<open>simp_all add: handle_command_def split_beta Let_def capturing_facts
         push_user_message_def push_model_output_def push_unreported_model_output_def
         record_token_usage_def record_last_turn_usage_def record_model_call_usage_def
         record_subagent_usage_def mark_usage_incomplete_def increment_prompt_index_def
         repair_dangling_after_harness_halt_def ensure_conversation_integrity_def
         take_harness_trace_turns_def\<close>)
qed

lemma capturing_run:
  "list_all keeps_capture cmds \<Longrightarrow> capturing a pushes c \<Longrightarrow>
     capturing (run_commands js cmds a) (pushes @ concat (map pushed cmds)) (c \<or> list_ex compacts cmds)"
proof (induction cmds arbitrary: a pushes c)
  case (Cons cmd cmds)
  have "capturing (snd (handle_command js cmd a)) (pushes @ pushed cmd) (c \<or> compacts cmd)"
    using Cons.prems by (intro capturing_command) simp_all
  from Cons.IH [OF _ this] Cons.prems(1) show ?case by (simp add: run_commands_def)
qed (simp add: run_commands_def)

text \<open>
  C2: A turn capture keeps what was pushed.  Between \<open>BeginTurnCapture\<close> and \<open>TakeTurnMessages\<close>, whatever
  pushes, replacements and compactions, integrity repairs in place, swaps of the system head, restores, prunes
  and request builds are interleaved, the captured messages are the items pushed, in order, each of them as it
  was pushed up to the text of a tool result, which a prune may replace; and the capture says whether a
  compaction occurred.  Rewinds, live repairs of the history, image stripping and changes of the directory are
  excluded by \<open>keeps_capture\<close>: a live repair does lose captured items, as shown below.
\<close>

theorem turn_capture_complete:
  assumes "list_all keeps_capture cmds"
  shows "\<exists>m. fst (handle_command js TakeTurnMessages
             (run_commands js (BeginTurnCapture # cmds) a)) = CaptureReply (Some m) \<and>
           list_all2 same_shape (concat (map pushed cmds)) (captured_messages m) \<and>
           (captured_compaction m \<longleftrightarrow> list_ex compacts cmds)"
proof -
  let ?b = "snd (handle_command js BeginTurnCapture a)"
  have "capturing ?b [] False" by (simp add: capturing_def handle_command_def)
  from capturing_run [OF assms this, of js]
  have "capturing (run_commands js (BeginTurnCapture # cmds) a) (concat (map pushed cmds)) (list_ex compacts cmds)"
    by (simp add: run_commands_def)
  then show ?thesis
    by (rule capturingE) (simp add: handle_command_def take_turn_messages_def turn_tail_def)
qed

lemma turn_capture_complete_witness:
  "\<exists>m. fst (handle_command sample_sizes TakeTurnMessages (run_commands sample_sizes
        [BeginTurnCapture, PushUserMessage (user_msg ''q''), ReplaceConversation [] True,
         PushAssistantResponse (assistant_msg ''a'')] sample_actor)) = CaptureReply (Some m) \<and>
     list_all2 same_shape [user_msg ''q'', assistant_msg ''a''] (captured_messages m) \<and> captured_compaction m"
  using turn_capture_complete [of "[PushUserMessage (user_msg ''q''), ReplaceConversation [] True,
      PushAssistantResponse (assistant_msg ''a'')]" sample_sizes sample_actor]
  by simp

text \<open>
  An out-of-band repair is the exception: it takes the conversation out of the state before
  \<open>replace_conversation\<close> saves the slice of an active capture, and the items pushed so far are lost.
\<close>

lemma repair_loses_capture:
  assumes "turn_capture (chat a) = Some cap" and "turn_start_offset cap = 1"
    and "conversation (chat a) = [user_msg ''q'', assistant_msg ''a'', tool_result ''c'' ''orphan'']"
  shows "map_option captured_messages (fst (take_turn_messages (snd (repair_session_history False a)))) =
           Some (pre_replacement_messages cap)"
proof -
  have "changed (snd (repair_history (conversation (chat a))))"
    unfolding assms(3) by code_simp
  then show ?thesis
    using assms by (simp add: repair_session_history_def split_beta Let_def replace_conversation_def
        snapshot_turn_slice_def turn_tail_def rebase_turn_capture_offset_def take_turn_messages_def)
qed


end
