(* ===== verification/ChatBehaviour.thy ===== *)
theory ChatBehaviour
  imports ChatInvariants
begin

section \<open>What the commands of the chat-state actor do\<close>

text \<open>
  The functional properties of the actor: requests are well paired, pruning respects age, a
  compaction never raises the token count, snapshots round-trip and rewinds keep whole turns.
\<close>

subsection \<open>Requests\<close>

lemma map_shape_pairs_as: "map pairing_shape ys = map pairing_shape xs \<Longrightarrow> pairs_as ys xs"
  by (simp add: pairs_as_def)

lemma pairs_as_inject: "pairs_as (fst (inject_memory_reminder conv reminder)) conv"
  using inject_pairing [of conv reminder]
  by (auto simp: pairs_as_def pairing_shape_def owner_ids_def)

lemma pairs_as_shape: "map pairing_shape ys = map pairing_shape xs \<Longrightarrow> pairs_as xs zs \<Longrightarrow> pairs_as ys zs"
  by (simp add: pairs_as_def)

lemma pairs_as_shape_right: "map pairing_shape ys = map pairing_shape zs \<Longrightarrow> pairs_as xs ys \<Longrightarrow> pairs_as xs zs"
  by (auto simp: pairs_as_def)

text \<open>The items of a request are those of the repaired conversation, reminders in front aside.\<close>

lemma request_pairs_as:
  "pairs_as (request_items (fst (build_conversation_request js ts r p ci ri a)))
     (conversation (chat a))"
proof -
  let ?b = "snd (persist_reminder r p a)" and ?left = "fst (persist_reminder r p a)"
  let ?c = "conversation (chat ?b)"
  let ?budget = "fst (apply_image_budget js ?c)"
  let ?pruned = "if should_prune (total_tokens (chat a)) (context_window (sampling_config (chat a)))
    then prune_conversation (pruning_cfg ?b) ?budget else ?budget"
  have cfg: "pruning_cfg ?b = pruning_cfg a"
    by (simp add: persist_reminder_def split_beta Let_def split: option.splits)
  have pruned: "map pairing_shape ?pruned = map pairing_shape ?c"
    using image_budget_pairing [of js ?c] shapes_pairing [OF prune_shape, of _ ?budget] by simp
  have start: "pairs_as ?c (conversation (chat a)) \<and> (?left \<noteq> None \<longrightarrow> map pairing_shape ?c = map pairing_shape (conversation (chat a)))"
  proof -
    have same: "\<not> snd (inject_memory_reminder c x) \<Longrightarrow> fst (inject_memory_reminder c x) = c" for c x
      by (auto simp: inject_memory_reminder_def Let_def upsert_memory_reminder_text_def split_beta
          split: list.splits conversation_item.splits if_splits)
    show ?thesis
      using pairs_as_inject map_shape_pairs_as [OF refl] same
      by (auto simp: persist_reminder_def split_beta Let_def split: option.splits)
  qed
  have "pairs_as (case ?left of Some reminder \<Rightarrow> fst (inject_memory_reminder ?pruned reminder) | None \<Rightarrow> ?pruned)
      (conversation (chat a))"
  proof (cases ?left)
    case None
    then show ?thesis using pairs_as_shape [OF pruned] start by simp
  next
    case (Some reminder)
    then have "map pairing_shape ?pruned = map pairing_shape (conversation (chat a))" using pruned start by simp
    then show ?thesis using Some pairs_as_shape_right pairs_as_inject by simp
  qed
  then have "pairs_as (from_raw (case ?left of Some reminder \<Rightarrow> fst (inject_memory_reminder ?pruned reminder) | None \<Rightarrow> ?pruned))
      (conversation (chat a))"
    using pairs_as_shape [OF from_raw_shape] by simp
  then show ?thesis
    by (cases ?left) (auto simp: build_conversation_request_def split_beta Let_def)
qed

lemma integrity_conversation:
  "conversation (chat (ensure_conversation_integrity_with_reason reason a)) =
     fst (integrity_pass reason (conversation (chat a)))"
  by (simp add: ensure_conversation_integrity_with_reason_def)

lemma integrity_pass_no_dangling: "\<not> has_dangling_tool_calls (fst (integrity_pass reason conv))"
  using has_dangling_repair [of "fst (dedup_duplicate_tool_results conv)" reason]
  by (simp add: integrity_pass_def split_beta Let_def)

lemma integrity_pass_noop: "well_paired conv \<Longrightarrow> fst (integrity_pass reason conv) = conv"
  by (simp add: integrity_pass_def split_beta Let_def dedup_noop repair_dangling_eq complete_noop)

text \<open>
  C4: A request sent to the model has no unanswered tool call, whatever the state of the session;
  and when the conversation is well paired, so is the request: eviction of images, pruning, memory
  injection and the labelling of agent messages keep the pairing.
\<close>

theorem request_well_formed:
  "\<exists>r. fst (handle_command js (BuildConversationRequest ts reminder persist ci ri) a) = RequestReply r \<and>
     \<not> has_dangling_tool_calls (request_items r) \<and>
     (well_paired (conversation (chat a)) \<longrightarrow> well_paired (request_items r))"
proof (intro exI conjI)
  let ?b = "ensure_conversation_integrity a"
  let ?r = "fst (build_conversation_request js ts reminder persist ci ri ?b)"
  have p: "pairs_as (request_items ?r) (fst (integrity_pass UserCancelled (conversation (chat a))))"
    using request_pairs_as [of js ts reminder persist ci ri ?b]
    by (simp add: ensure_conversation_integrity_def integrity_conversation)
  show "fst (handle_command js (BuildConversationRequest ts reminder persist ci ri) a) = RequestReply ?r"
    by (simp add: handle_command_def split_beta Let_def)
  show "\<not> has_dangling_tool_calls (request_items ?r)"
    using pairs_as_dangling [OF p] integrity_pass_no_dangling by simp
  show "well_paired (conversation (chat a)) \<longrightarrow> well_paired (request_items ?r)"
    using pairs_as_well_paired [OF p] integrity_pass_noop by auto
qed

lemma spawn_well_paired:
  "well_paired conv \<Longrightarrow> conversation (chat (spawn_with_pruning conv cfg pruning p)) = conv"
  by (simp add: spawn_with_pruning_def chat_state_new_def split_beta Let_def dedup_noop
      repair_dangling_eq complete_noop)

lemma well_paired_question: "well_paired [user_msg t]"
  using paired_block [of "user_msg t" "[]" "[]"]
  by (simp add: user_msg_def user_text_def owner_ids_def paired_nil)

lemma request_well_formed_witness:
  "\<exists>r. fst (handle_command sample_sizes (BuildConversationRequest [] None False ''c'' ''r'')
       (spawn [user_msg ''q''] sample_config mock_new)) = RequestReply r \<and>
     \<not> has_dangling_tool_calls (request_items r) \<and> well_paired (request_items r)"
  using request_well_formed [of sample_sizes "[]" None False "''c''" "''r''" "spawn [user_msg ''q''] sample_config mock_new"]
  by (simp add: spawn_def spawn_well_paired well_paired_question)

subsection \<open>Pruning by age\<close>

definition clear_item :: "nat \<Rightarrow> nat \<Rightarrow> conversation_item \<Rightarrow> conversation_item" where
  "clear_item threshold age item =
     (case item of
        ToolResult t \<Rightarrow>
          if age < threshold then item else ToolResult (t\<lparr>result_content := HARD_CLEAR_PLACEHOLDER\<rparr>)
      | _ \<Rightarrow> item)"

lemma prune_retained_back_nth:
  "j < length items \<Longrightarrow>
     fst (prune_retained_back threshold (u - 1) (0 < u) items) ! j =
       clear_item threshold (u + users (take j items) - 1) (items ! j)"
proof (induction items arbitrary: u j)
  case (Cons x xs)
  have user: "prune_retained_back threshold (if 0 < u then u - 1 + 1 else u - 1) True xs =
      prune_retained_back threshold (Suc u - 1) (0 < Suc u) xs"
    by simp
  show ?case
  proof (cases j)
    case 0
    have "t = t\<lparr>result_content := HARD_CLEAR_PLACEHOLDER\<rparr>" if "result_content t = HARD_CLEAR_PLACEHOLDER" for t :: tool_result_item
      using that by simp
    then show ?thesis using 0 by (cases x) (auto simp: clear_item_def users_def split_beta Let_def)
  next
    case (Suc i)
    then have i: "i < length xs" using Cons.prems by simp
    show ?thesis
    proof (cases x)
      case (User v)
      then show ?thesis using Cons.IH [OF i, of "Suc u"] Suc user
        by (cases "u = 0") (simp_all add: users_def split_beta Let_def)
    qed (use Cons.IH [OF i, of u] Suc in \<open>simp_all add: users_def split_beta Let_def\<close>)
  qed
qed simp

lemma retained_pass_nth:
  assumes "k < length conv"
  shows "fst (retained_pass threshold conv) ! k = clear_item threshold (users (drop (Suc k) conv) - 1) (conv ! k)"
proof -
  let ?j = "length conv - Suc k"
  have j: "?j < length (rev conv)" using assms by simp
  have len: "length (fst (prune_retained_back threshold 0 False (rev conv))) = length conv"
    using list_all2_lengthD [OF prune_retained_shape [of "rev conv" threshold 0 False]] by simp
  have "fst (retained_pass threshold conv) ! k = fst (prune_retained_back threshold 0 False (rev conv)) ! ?j"
    using assms len by (simp add: retained_pass_def split_beta rev_nth)
  also have "\<dots> = clear_item threshold (users (take ?j (rev conv)) - 1) (rev conv ! ?j)"
    using prune_retained_back_nth [OF j, of threshold 0] by simp
  also have "rev conv ! ?j = conv ! k" using assms by (simp add: rev_nth)
  also have "users (take ?j (rev conv)) = users (drop (Suc k) conv)"
    using assms by (simp add: users_def take_rev rev_filter [symmetric])
  finally show ?thesis .
qed

text \<open>
  What the retained prune clears, item by item: nothing before \<open>hard_clear_age_turns\<close> prompts
  have been counted; after that a tool result is replaced by the placeholder exactly when at least
  \<open>hard_clear_age_turns\<close> further user turns follow the next one, on top of all the user items that
  are not prompts. Everything else, and the number of items, is kept.
\<close>

theorem retained_prune_by_age:
  assumes "k < length (conversation (chat a))"
  defines "conv \<equiv> conversation (chat a)" and "cfg \<equiv> pruning_cfg a"
  shows "conversation (chat (snd (prune_retained_conversation a))) ! k =
           (if \<not> pruning_enabled cfg \<or> prompt_idx (chat a) < hard_clear_age_turns cfg then conv ! k
            else clear_item (hard_clear_age_turns cfg + (users conv - prompt_idx (chat a)))
                   (users (drop (Suc k) conv) - 1) (conv ! k)) \<and>
         length (conversation (chat (snd (prune_retained_conversation a)))) = length conv"
  using assms(1)
  by (simp add: prune_retained_eq retained_pass_nth effective_threshold_def Let_def conv_def cfg_def)

definition old_result_actor :: "sampling_config \<Rightarrow> chat_actor" where
  "old_result_actor cfg =
     \<lparr>chat = (chat_state_new [] cfg)
        \<lparr>conversation := [tool_result ''c'' ''x'', user_msg ''a'', user_msg ''b''], prompt_idx := 2\<rparr>,
      pruning_cfg = pruning_default\<lparr>hard_clear_age_turns := 1\<rparr>, store = mock_new, events = []\<rparr>"

lemma retained_prune_by_age_witness:
  "conversation (chat (snd (prune_retained_conversation (old_result_actor sample_config)))) ! 0 =
     tool_result ''c'' HARD_CLEAR_PLACEHOLDER"
  using retained_prune_by_age [of 0 "old_result_actor sample_config"]
  by (simp add: old_result_actor_def pruning_default_def users_def clear_item_def tool_result_def
      user_msg_def user_text_def)

subsection \<open>Token counts after a replacement\<close>

lemma f64_round_of_nat: "n < 2 ^ 53 \<Longrightarrow> f64_round (of_nat n) = of_nat n"
  using f64_of_nat_exact [of n] by (simp add: f64_of_nat_def)

lemma f64_count_exact:
  assumes "n < 2 ^ 53"
  shows "f64_as_u64 (f64_round_to_int (f64_mul (f64_of_nat n) 1)) = n"
proof -
  have "\<lfloor>of_nat n + 1 / 2 :: rat\<rfloor> = int n" by (rule floor_unique) simp_all
  then show ?thesis
    using assms by (simp add: f64_of_nat_exact f64_mul_def f64_round_of_nat f64_round_to_int_def f64_as_u64_def)
qed

text \<open>
  C40: A compaction never raises a positive token count.  When the last estimate equals that count and
  it and the estimate of the compacted history are below \<open>2 ^ 53\<close>, where the floating-point ratio is
  exact, the new count is that estimate, capped at the old count.  A count of zero, of a conversation
  that no response has measured, is replaced by the estimate and may rise.
\<close>

theorem compaction_never_increases:
  assumes "0 < total_tokens (chat a)"
  shows "total_tokens (chat (replace_conversation items True a)) \<le> total_tokens (chat a) \<and>
         (total_tokens (chat a) = estimate_at_last_response (chat a) \<and>
          unat (total_tokens (chat a)) < 2 ^ 53 \<and> unat (estimate_conversation_tokens items) < 2 ^ 53 \<longrightarrow>
          total_tokens (chat (replace_conversation items True a)) =
            min (estimate_conversation_tokens items) (total_tokens (chat a)))"
proof -
  have frame: "total_tokens (chat (snapshot_turn_slice b)) = total_tokens (chat b)"
    "estimate_at_last_response (chat (snapshot_turn_slice b)) = estimate_at_last_response (chat b)" for b
    by (simp_all add: snapshot_turn_slice_def)
  have new: "total_tokens (chat (replace_conversation items True a)) = replaced_total (chat a) items True"
    by (simp add: replace_conversation_def Let_def rebase_turn_capture_offset_def replaced_total_def frame)
  let ?base = "estimate_conversation_tokens items" and ?n = "total_tokens (chat a)"
  have "replaced_total (chat a) items True = min ?base ?n"
    if "?n = estimate_at_last_response (chat a)" "unat ?n < 2 ^ 53" "unat ?base < 2 ^ 53"
  proof -
    have pos: "0 < unat ?n" using assms by (simp add: word_less_nat_alt)
    have ratio: "f64_div (f64_of_nat (unat ?n)) (f64_of_nat (unat ?n)) = 1"
    proof -
      have "(of_nat (unat ?n) :: rat) \<noteq> 0" using pos by (simp only: of_nat_eq_0_iff)
      then show ?thesis using that(2) by (simp only: f64_of_nat_exact f64_div_def) simp
    qed
    have "f64_as_u64 (f64_round_to_int (f64_mul (f64_of_nat (unat ?base)) 1)) = unat ?base"
      using f64_count_exact [OF that(3)] .
    then show ?thesis using assms that(1) ratio by (simp add: replaced_total_def Let_def)
  qed
  then show ?thesis using assms by (auto simp: new replaced_total_def Let_def)
qed

lemma compaction_never_increases_witness:
  "total_tokens (chat (replace_conversation [user_msg ''q'']  True
       (record_token_usage 7 (spawn [] sample_config mock_new)))) \<le> 7"
  using compaction_never_increases [of "record_token_usage 7 (spawn [] sample_config mock_new)" "[user_msg ''q'']"]
  by (simp add: record_token_usage_def)

subsection \<open>Snapshots\<close>

text \<open>
  Snapshots round-trip: restoring a snapshot, into whatever state, and taking a snapshot again
  gives it back, when its last estimate was positive; the usage of the abandoned prompt and the
  unreported estimate are dropped, and the lifetime ledger, the store and the harness traces are
  not touched.
\<close>

theorem snapshot_restore:
  assumes "0 < estimate_at_last_response (chat a)"
  shows "snapshot (restore_snapshot (snapshot a) b) = snapshot a \<and>
         prompt_usage (chat (restore_snapshot (snapshot a) b)) = None \<and>
         estimated_tokens_since_model (chat (restore_snapshot (snapshot a) b)) = 0 \<and>
         session_usage (chat (restore_snapshot (snapshot a) b)) = session_usage (chat b) \<and>
         store (restore_snapshot (snapshot a) b) = store b \<and>
         harness_trace_turns (chat (restore_snapshot (snapshot a) b)) = harness_trace_turns (chat b)"
  using assms by (simp add: snapshot_def restore_snapshot_def Let_def snapshot_turn_slice_def
      rebase_turn_capture_offset_def)

lemma snapshot_restore_witness:
  "snapshot (restore_snapshot (snapshot (spawn [user_msg ''a question''] sample_config mock_new)) sample_actor) =
     snapshot (spawn [user_msg ''a question''] sample_config mock_new)"
proof -
  have "0 < estimate_at_last_response (chat (spawn [user_msg ''a question''] sample_config mock_new))"
    by (simp add: spawn_def spawn_with_pruning_def chat_state_new_def split_beta Let_def dedup_noop
        repair_dangling_eq complete_noop well_paired_question)
      (simp add: user_msg_def user_text_def estimate_item_tokens_def BYTES_PER_TOKEN_def
        estimate_image_tokens_def sat_mul_def)
  from snapshot_restore [OF this] show ?thesis by blast
qed

subsection \<open>Rewinding\<close>

lemma nth_user_position_le: "nth_user_position n items \<le> length items"
  by (induction n items rule: nth_user_position.induct) (auto split: nat.splits)

lemma nth_user_position_users: "users (take (nth_user_position n items) items) = min n (users items)"
  by (induction n items rule: nth_user_position.induct) (auto simp: users_def split: nat.splits)

lemma nth_user_position_user:
  "nth_user_position n items < length items \<Longrightarrow> is_user (items ! nth_user_position n items)"
  by (induction n items rule: nth_user_position.induct) (auto split: nat.splits)

text \<open>
  A rewind to prompt \<open>n\<close> keeps whole turns: the conversation kept is the prefix with the first
  \<open>n\<close> user items that ends where the next user item began, and with as many prompt texts; the token
  counts restart from the estimate of what is kept, the capture and the usage of the prompt are
  dropped, and the prefix is persisted and announced. Rewinding to a prompt not before the current
  one keeps the conversation.
\<close>

theorem rewind_keeps_turns:
  fixes js a target
  defines "b \<equiv> snd (handle_command js (TruncateToPromptIndex target) a)"
  defines "old \<equiv> conversation (chat a)" and "new \<equiv> conversation (chat b)"
  shows "(\<exists>dropped. old = new @ dropped \<and>
            (if target < prompt_idx (chat a)
             then users new = min target (users old) \<and> (dropped = [] \<or> is_user (hd dropped)) \<and>
                  prompt_idx (chat b) = target \<and> prompt_texts (chat b) = take target (prompt_texts (chat a)) \<and>
                  total_tokens (chat b) = estimate_conversation_tokens new \<and>
                  estimate_at_last_response (chat b) = total_tokens (chat b) \<and>
                  records (store b) = records (store a) @ [ReplaceHistory new] \<and>
                  events b = events a @ [ConversationReset (length new)]
             else dropped = [] \<and> store b = store a \<and> events b = events a)) \<and>
         turn_capture (chat b) = None \<and> prompt_usage (chat b) = None"
proof (cases "target < prompt_idx (chat a)")
  case False
  then show ?thesis
    by (simp add: b_def old_def new_def handle_command_def truncate_to_prompt_index_def)
next
  case True
  let ?p = "nth_user_position target old"
  have "new = take ?p old"
    using True by (simp add: b_def old_def new_def handle_command_def truncate_to_prompt_index_def Let_def)
  moreover have "drop ?p old = [] \<or> is_user (hd (drop ?p old))"
    using nth_user_position_user [of target old]
    by (cases "?p < length old") (simp_all add: hd_drop_conv_nth)
  ultimately show ?thesis
    using True nth_user_position_users [of target old]
    by (intro conjI exI [where x = "drop ?p old"])
      (simp_all add: b_def old_def new_def handle_command_def truncate_to_prompt_index_def Let_def
        replace_history_def send_record_def send_event_def)
qed

subsection \<open>The first user text\<close>

text \<open>
  The text returned is not always that of the first user message: when that one starts with an
  image, the scan goes on to the next user message.
\<close>

lemma first_user_text_skips_images:
  "conversation (chat a) = [user_with_parts [Image_part url, Text_part ''first''], user_msg ''second''] \<Longrightarrow>
     get_first_user_text a = Some ''second''"
  by (simp add: get_first_user_text_def user_with_parts_def user_msg_def user_text_def)

end
