(* ===== verification/CompactedHistory.thy ===== *)
theory CompactedHistory
  imports CompactionUtils "HOL-Library.Sublist"
begin

section \<open>Summaries and the compacted history\<close>

text \<open>
  Models the second half of \<open>compaction_utils.rs\<close>: cleaning the summary a model returns, the
  bounds on captured output, the state context captured at compaction, and the compacted history
  that replaces a conversation.
\<close>

fun is_ascii_digit :: "rstr \<Rightarrow> bool" where
  "is_ascii_digit (c # cs) \<longleftrightarrow> 48 \<le> (of_char c :: nat) \<and> (of_char c :: nat) \<le> 57"
| "is_ascii_digit [] \<longleftrightarrow> False"

definition strip_leading_scratchpad :: "rstr \<Rightarrow> rstr" where
  "strip_leading_scratchpad inner =
     (let s = trim inner;
          lead = dropWhile (\<lambda>c. c \<in> set [CHR ''#'', CHR ''*'', CHR ''-'', CHR ''>'', CHR '' '', CHR 0x09]) s;
          s = (if \<not> is_ascii_digit lead
               then (case str_rfind ''</analysis>'' s of
                       Some pos \<Rightarrow> trim_start (drop (pos + 11) s) | None \<Rightarrow> s)
               else s)
      in if starts_with s ''<summary>'' then trim_start (drop 9 s) else s)"

definition zwsp :: rstr where
  "zwsp = [CHR 0xE2, CHR 0x80, CHR 0x8B]"

definition neutralize_compaction_control_tokens :: "rstr \<Rightarrow> rstr" where
  "neutralize_compaction_control_tokens t =
     (let t = str_replace ''</summary>'' (''<'' @ zwsp @ ''/summary>'') t;
          t = str_replace ''<summary>'' (''<'' @ zwsp @ ''summary>'') t;
          t = str_replace ''</analysis>'' (''<'' @ zwsp @ ''/analysis>'') t;
          t = str_replace ''<analysis>'' (''<'' @ zwsp @ ''analysis>'') t;
          t = str_replace ''</summary_request>'' (''<'' @ zwsp @ ''/summary_request>'') t
      in str_replace ''<summary_request>'' (''<'' @ zwsp @ ''summary_request>'') t)"

text \<open>The loop that drops leading \<open><analysis>\<close> blocks.\<close>

function strip_analysis :: "rstr \<Rightarrow> rstr" where
  "strip_analysis result =
     (case str_find ''<analysis>'' result of
        None \<Rightarrow> result
      | Some start \<Rightarrow>
          (let is_leading =
             (case str_find ''<summary>'' result of
                Some sp \<Rightarrow> start < sp \<or> trim (drop (sp + 9) (take start result)) = ''''
              | None \<Rightarrow> trim (take start result) = '''')
           in if \<not> is_leading then result
              else case str_find ''</analysis>'' (drop start result) of
                     Some rel_end \<Rightarrow>
                       (let end_pos = start + rel_end + 11
                        in strip_analysis (take start result @ drop end_pos result))
                   | None \<Rightarrow>
                       (let drop_to = (case str_find ''<summary>'' (drop start result) of
                                         Some rel_end \<Rightarrow> start + rel_end | None \<Rightarrow> length result)
                        in take start result @ drop drop_to result)))"
  by pat_completeness auto
termination
  by (relation "measure length") (auto dest!: str_find_bound)

function squeeze_newlines :: "rstr \<Rightarrow> rstr" where
  "squeeze_newlines s =
     (if contains s (nl @ nl @ nl) then squeeze_newlines (str_replace (nl @ nl @ nl) (nl @ nl) s) else s)"
  by pat_completeness auto
termination
  by (relation "measure length") (auto simp: str_replace_def nl_def intro!: replace_all_shorter)

declare strip_analysis.simps [simp del] squeeze_newlines.simps [simp del]

definition format_compact_summary :: "rstr \<Rightarrow> rstr" where
  "format_compact_summary raw =
     (let result = strip_analysis raw;
          result =
            (case (str_find ''<summary>'' result, str_rfind ''</summary>'' result) of
               (Some start, Some end_pos) \<Rightarrow>
                 (if start < end_pos
                  then take start result @ ''Summary:'' @ nl @
                       strip_leading_scratchpad (trim (drop (start + 9) (take end_pos result))) @
                       drop (end_pos + 10) result
                  else result)
             | _ \<Rightarrow> result)
      in trim (squeeze_newlines (neutralize_compaction_control_tokens result)))"

definition format_compact_summary_content :: "rstr \<Rightarrow> rstr" where
  "format_compact_summary_content raw =
     ''This session is being continued from a previous conversation that ran out of context. The summary below covers the earlier portion of the conversation.'' @
     nl @ nl @ format_compact_summary raw"

definition MIN_SUMMARY_SEED_CHARS :: nat where
  "MIN_SUMMARY_SEED_CHARS = 500"

definition is_degenerate_summary :: "rstr \<Rightarrow> bool" where
  "is_degenerate_summary raw \<longleftrightarrow> char_count (format_compact_summary raw) < MIN_SUMMARY_SEED_CHARS"

definition MAX_CAPTURED_SUMMARY_CHARS :: nat where
  "MAX_CAPTURED_SUMMARY_CHARS = 8192"

definition bound_captured_output :: "rstr \<Rightarrow> nat \<Rightarrow> rstr" where
  "bound_captured_output s max_chars =
     (let n = char_count s
      in if n \<le> max_chars then s
         else (let head = max_chars div 2;
                   tail = max_chars - head;
                   elided = n - head - tail
               in take_chars head s @ nl @ nl @ ellipsis @ ''['' @ show_nat elided @ '' chars elided]'' @
                  ellipsis @ nl @ nl @ skip_chars (n - tail) s))"

definition format_transcript_location :: "rstr \<Rightarrow> rstr" where
  "format_transcript_location path =
     nl @ nl @ ''<transcript_location>'' @ nl @
     ''The full, unsummarized transcript of this conversation is saved at:'' @ nl @ path @ nl @
     ''If you need details that were dropped from the summary above (exact code, error text, file contents, or earlier tool output), read this file to recover them.'' @ nl @
     ''</transcript_location>''"

definition wrap_user_query :: "rstr \<Rightarrow> rstr" where
  "wrap_user_query t = ''<user_query>'' @ nl @ t @ nl @ ''</user_query>''"

datatype todo_summary_status = Pending | InProgress | Completed | Cancelled

definition is_actionable :: "todo_summary_status \<Rightarrow> bool" where
  "is_actionable s \<longleftrightarrow> s = Pending \<or> s = InProgress"

definition todo_tag :: "todo_summary_status \<Rightarrow> rstr" where
  "todo_tag s =
     (case s of Pending \<Rightarrow> ''[pending]'' | InProgress \<Rightarrow> ''[in_progress]''
      | Completed \<Rightarrow> ''[completed]'' | Cancelled \<Rightarrow> ''[cancelled]'')"

record todo_summary =
  todo_id :: rstr
  todo_content :: rstr
  todo_status :: todo_summary_status

record running_subagent_summary =
  subagent_id :: rstr
  subagent_type :: rstr
  subagent_description :: rstr
  elapsed_ms :: u64

record background_task_summary =
  task_id :: rstr
  task_command :: rstr
  task_status :: rstr
  task_tool_name :: "rstr option"

record compaction_server_summary =
  server_name :: rstr
  tool_count :: nat
  server_description :: "rstr option"

record compaction_inputs =
  in_cwd_generation :: u64
  in_destination_project_instructions :: "rstr option"
  in_running_tasks :: "background_task_summary list"
  in_running_subagents :: "running_subagent_summary list"
  in_agent_edited_paths :: "rstr list"
  in_connected_mcp_servers :: "compaction_server_summary list"
  in_todos :: "todo_summary list"

record compaction_state_context =
  ctx_cwd_generation :: u64
  destination_project_instructions :: "rstr option"
  ctx_agent_message_anchor :: "agent_message_anchor option"
  recent_messages :: "conversation_item list"
  last_user_query :: "rstr option"
  ctx_agent_edited_paths :: "rstr list"
  running_tasks :: "background_task_summary list"
  running_subagents :: "running_subagent_summary list"
  connected_mcp_servers :: "compaction_server_summary list"
  todos :: "todo_summary list"

definition context_build ::
  "conversation_item list \<Rightarrow> compaction_inputs \<Rightarrow> compaction_state_context" where
  "context_build conv inputs =
     \<lparr>ctx_cwd_generation = in_cwd_generation inputs,
      destination_project_instructions = in_destination_project_instructions inputs,
      ctx_agent_message_anchor = extract_latest_agent_message conv,
      recent_messages = extract_messages_since_last_compaction_anchor conv,
      last_user_query = extract_last_real_user_query conv,
      ctx_agent_edited_paths = in_agent_edited_paths inputs,
      running_tasks = in_running_tasks inputs,
      running_subagents = in_running_subagents inputs,
      connected_mcp_servers = in_connected_mcp_servers inputs,
      todos = in_todos inputs\<rparr>"

definition for_compaction :: "compaction_state_context \<Rightarrow> compaction_state_context" where
  "for_compaction ctx =
     ctx\<lparr>ctx_agent_message_anchor :=
            (case ctx_agent_message_anchor ctx of
               Some a \<Rightarrow> Some a | None \<Rightarrow> extract_latest_agent_message (recent_messages ctx)),
         recent_messages := []\<rparr>"

record compacted_history_input =
  system_message :: conversation_item
  user_message_prefix :: rstr
  agents_md_reminder :: "rstr option"
  state_context :: compaction_state_context
  compaction_summary :: rstr
  ch_system_reminder :: "rstr option"
  transcript_hint :: "rstr option"

text \<open>
  The alternate carrier is not compiled in (\<open>summary_before_recent_carrier\<close> returns \<open>None\<close>), so
  the summary follows the recent messages.
\<close>

definition option_list :: "'a option \<Rightarrow> 'a list" where
  "option_list x = (case x of Some y \<Rightarrow> [y] | None \<Rightarrow> [])"

definition build_compacted_history :: "compacted_history_input \<Rightarrow> conversation_item list" where
  "build_compacted_history inp =
     (let ctx = state_context inp;
          summary_item = user_meta (format_compact_summary_content (compaction_summary inp) @
            (case transcript_hint inp of Some hint \<Rightarrow> hint | None \<Rightarrow> ''''));
          instructions = (if ctx_cwd_generation ctx = 0 then agents_md_reminder inp
                          else destination_project_instructions ctx);
          anchor = (case ctx_agent_message_anchor ctx of
                      Some a \<Rightarrow> if list_ex is_agent_message (recent_messages ctx) then None else Some a
                    | None \<Rightarrow> None)
      in [system_message inp, user_meta (user_message_prefix inp)] @
         map project_instructions (option_list instructions) @
         (case anchor of Some a \<Rightarrow> if anchor_position a = BeforeHuman then [anchor_item a] else []
          | None \<Rightarrow> []) @
         map (\<lambda>q. user_msg (wrap_user_query q)) (option_list (last_user_query ctx)) @
         (case anchor of Some a \<Rightarrow> if anchor_position a \<noteq> BeforeHuman then [anchor_item a] else []
          | None \<Rightarrow> []) @
         recent_messages ctx @ [summary_item] @
         map system_reminder (option_list (ch_system_reminder inp)))"

section \<open>Control tokens do not survive\<close>

lemma contains_Cons: "t \<noteq> [] \<Longrightarrow> contains (c # s) t \<longleftrightarrow> starts_with (c # s) t \<or> contains s t"
  by (auto simp: contains_def)

lemma contains_Nil: "t \<noteq> [] \<Longrightarrow> \<not> contains [] t"
  by (simp add: contains_def)

lemma contains_skip: "d \<notin> set a \<Longrightarrow> contains (a @ u) (d # v) \<longleftrightarrow> contains u (d # v)"
  by (induction a) (auto simp: contains_Cons starts_with_def)

lemma starts_with_Cons: "starts_with (c # s) (d # t) \<longleftrightarrow> c = d \<and> starts_with s t"
  by (auto simp: starts_with_def)

lemma starts_with_Nil [simp]: "starts_with s []"
  by (simp add: starts_with_def)

lemma contains_substring: "contains b t \<Longrightarrow> contains (a @ b @ c) t"
  unfolding contains_iff by (elim exE, hypsubst) (metis append.assoc)

lemma contains_drop: "contains (drop n s) t \<Longrightarrow> contains s t"
  using contains_substring [of "drop n s" t "take n s" "[]"] by simp

lemma contains_trim: "contains (trim s) t \<Longrightarrow> contains s t"
proof -
  assume c: "contains (trim s) t"
  let ?d = "dropWhile is_whitespace (chars_of s)"
  obtain ys where d: "?d = drop_end is_whitespace ?d @ ys" using drop_end_prefix by metis
  have "s = concat (takeWhile is_whitespace (chars_of s)) @ trim s @ concat ys"
    unfolding trim_def by (metis concat_append concat_chars_of d takeWhile_dropWhile_id)
  then show ?thesis using contains_substring [OF c] by metis
qed

text \<open>
  Replacing \<open>p\<close>, which starts with \<open>d\<close>, by a text that starts with \<open>d\<close> creates no occurrence of
  a token that has \<open>d\<close> at its start only.
\<close>

lemma replace_starts_with:
  assumes "d \<notin> set v" and "p = d # w" and "r = d # x"
  shows "starts_with (replace_all p r s) v \<Longrightarrow> starts_with s v"
  using assms
proof (induction p r s arbitrary: v rule: replace_all.induct)
  case (2 p r c cs)
  show ?case
  proof (cases "starts_with (c # cs) p")
    case True
    then show ?thesis using 2(3,4,6) by (cases v) (auto simp: starts_with_Cons)
  next
    case False
    then show ?thesis using 2(2) [OF False] 2(3-) by (cases v) (auto simp: starts_with_Cons)
  qed
qed simp

lemma replace_no_new_token:
  assumes "t = d # v" and "d \<notin> set v" and "p = d # w" and "r = d # x" and "d \<notin> set x"
    and "\<not> (\<exists>u. starts_with (x @ u) v)"
  shows "\<not> contains s t \<Longrightarrow> \<not> contains (replace_all p r s) t"
  using assms
proof (induction p r s rule: replace_all.induct)
  case (1 p r)
  then show ?case by simp
next
  case (2 p r c cs)
  have ne: "t \<noteq> []" using 2(4) by simp
  show ?case
  proof (cases "starts_with (c # cs) p")
    case True
    have "\<not> contains (drop (length p - 1) cs) t"
      using 2(3) contains_drop [of "length p - 1" cs t] contains_Cons [OF ne] by blast
    then have "\<not> contains (replace_all p r (drop (length p - 1) cs)) t"
      using 2(1) [OF True] 2(4-) by blast
    then show ?thesis
      using True 2(4-) contains_skip [of d x] by (simp add: contains_Cons starts_with_Cons)
  next
    case False
    have "\<not> contains cs t" "\<not> starts_with (c # cs) t" using 2(3) contains_Cons [OF ne] by auto
    then show ?thesis
      using False 2(2) [OF False] 2(4-) replace_starts_with [of d v p w r x cs]
      by (auto simp: contains_Cons starts_with_Cons)
  qed
qed

lemma replace_removes_token:
  assumes "p = d # w" and "d \<notin> set w" and "r = d # x" and "d \<notin> set x"
    and "\<not> (\<exists>u. starts_with (x @ u) w)"
  shows "\<not> contains (replace_all p r s) p"
  using assms
proof (induction p r s rule: replace_all.induct)
  case (1 p r)
  then show ?case by (simp add: contains_Nil)
next
  case (2 p r c cs)
  show ?case
  proof (cases "starts_with (c # cs) p")
    case True
    then show ?thesis
      using 2(1) [OF True] 2(3-) contains_skip [of d x] by (simp add: contains_Cons starts_with_Cons)
  next
    case False
    then show ?thesis
      using 2(2) [OF False] 2(3-) replace_starts_with [of d w p w r x cs]
      by (auto simp: contains_Cons starts_with_Cons)
  qed
qed

definition control_tokens :: "rstr list" where
  "control_tokens =
     [''</summary>'', ''<summary>'', ''</analysis>'', ''<analysis>'', ''</summary_request>'',
      ''<summary_request>'']"

lemma neutral_replacement:
  assumes "t \<in> set control_tokens" and "p \<in> set control_tokens"
  shows "\<not> contains (str_replace p (''<'' @ zwsp @ tl p) s) p"
    and "\<not> contains s t \<Longrightarrow> \<not> contains (str_replace p (''<'' @ zwsp @ tl p) s) t"
proof -
  have p: "p = CHR ''<'' # tl p" "CHR ''<'' \<notin> set (tl p)" "tl p \<noteq> []" "hd (tl p) \<noteq> CHR 0xE2"
    using assms(2) by (auto simp: control_tokens_def)
  have t: "t = CHR ''<'' # tl t" "CHR ''<'' \<notin> set (tl t)" "tl t \<noteq> []" "hd (tl t) \<noteq> CHR 0xE2"
    using assms(1) by (auto simp: control_tokens_def)
  have x: "CHR ''<'' \<notin> set (zwsp @ tl p)" using p(2) by (simp add: zwsp_def)
  have miss: "\<not> (\<exists>u. starts_with ((zwsp @ tl p) @ u) w)" if "w \<noteq> []" "hd w \<noteq> CHR 0xE2" for w
    using that by (cases w) (auto simp: zwsp_def starts_with_Cons)
  have ne: "p \<noteq> []" using p(1) by (metis list.distinct(1))
  show "\<not> contains (str_replace p (''<'' @ zwsp @ tl p) s) p"
    using replace_removes_token [OF p(1,2) _ x miss [OF p(3,4)], of "''<'' @ zwsp @ tl p" s] ne
    by (simp add: str_replace_def)
  show "\<not> contains s t \<Longrightarrow> \<not> contains (str_replace p (''<'' @ zwsp @ tl p) s) t"
    using replace_no_new_token [OF t(1,2) p(1) _ x miss [OF t(3,4)], of "''<'' @ zwsp @ tl p" s] ne
    by (simp add: str_replace_def)
qed

lemma neutralize_tokens:
  assumes "t \<in> set control_tokens"
  shows "\<not> contains (neutralize_compaction_control_tokens s) t"
proof -
  define f where "f p s = str_replace p (''<'' @ zwsp @ tl p) s" for p s :: rstr
  have eq: "neutralize_compaction_control_tokens s = fold f control_tokens s"
    by (simp add: neutralize_compaction_control_tokens_def control_tokens_def f_def Let_def)
  have keep: "set ps \<subseteq> set control_tokens \<Longrightarrow> \<not> contains s t \<Longrightarrow> \<not> contains (fold f ps s) t" for ps s
  proof (induction ps arbitrary: s)
    case (Cons p ps)
    have "\<not> contains (f p s) t"
      using neutral_replacement(2) [OF assms, of p s] Cons.prems by (simp add: f_def)
    then show ?case using Cons by simp
  qed simp
  have "t \<in> set ps \<Longrightarrow> set ps \<subseteq> set control_tokens \<Longrightarrow> \<not> contains (fold f ps s) t" for ps s
  proof (induction ps arbitrary: s)
    case (Cons p ps)
    show ?case
    proof (cases "p = t")
      case True
      then have "\<not> contains (f p s) t" using neutral_replacement(1) [OF assms assms] by (simp add: f_def)
      then show ?thesis using keep Cons.prems by simp
    next
      case False
      then show ?thesis using Cons by simp
    qed
  qed simp
  then show ?thesis using assms by (simp add: eq)
qed

text \<open>Collapsing newlines creates no occurrence of a token without newlines.\<close>

lemma collapse_starts_with:
  assumes "CHR 0x0A \<notin> set v"
  shows "starts_with (replace_all (nl @ nl @ nl) (nl @ nl) s) v \<Longrightarrow> starts_with s v"
  by (rule replace_starts_with [OF assms, where w = "nl @ nl" and x = nl]) (simp_all add: nl_def)

lemma collapse_no_new_token:
  assumes "CHR 0x0A \<notin> set t" and "t \<noteq> []" and "p = nl @ nl @ nl" and "r = nl @ nl"
  shows "\<not> contains s t \<Longrightarrow> \<not> contains (replace_all p r s) t"
  using assms
proof (induction p r s rule: replace_all.induct)
  case (1 p r)
  then show ?case by simp
next
  case (2 p r c cs)
  show ?case
  proof (cases "starts_with (c # cs) p")
    case True
    have "\<not> contains (drop (length p - 1) cs) t"
      using 2(3) contains_drop [of "length p - 1" cs t] contains_Cons [OF 2(5)] by blast
    then have "\<not> contains (replace_all p r (drop (length p - 1) cs)) t"
      using 2(1) [OF True] 2(4-) by blast
    then show ?thesis
      using True 2(4-) by (cases t) (auto simp: nl_def contains_Cons starts_with_Cons)
  next
    case False
    have "\<not> contains cs t" "\<not> starts_with (c # cs) t" using 2(3) contains_Cons [OF 2(5)] by auto
    moreover have "\<not> starts_with (c # replace_all p r cs) t"
    proof
      assume "starts_with (c # replace_all p r cs) t"
      then obtain v where "t = c # v" "starts_with (replace_all p r cs) v"
        using 2(5) by (cases t) (auto simp: starts_with_Cons)
      then have "starts_with cs v" using collapse_starts_with [of v cs] 2(4,6,7) by simp
      with \<open>t = c # v\<close> \<open>\<not> starts_with (c # cs) t\<close> show False by (simp add: starts_with_Cons)
    qed
    ultimately show ?thesis using False 2(2) [OF False] 2(4-) by (simp add: contains_Cons)
  qed
qed

lemma squeeze_no_new_token:
  assumes "CHR 0x0A \<notin> set t" and "t \<noteq> []"
  shows "\<not> contains s t \<Longrightarrow> \<not> contains (squeeze_newlines s) t"
proof (induction s rule: squeeze_newlines.induct)
  case (1 s)
  show ?case
  proof (cases "contains s (nl @ nl @ nl)")
    case True
    have "\<not> contains (str_replace (nl @ nl @ nl) (nl @ nl) s) t"
      using collapse_no_new_token [OF assms refl refl 1(2)] by (simp add: str_replace_def nl_def)
    then show ?thesis using 1(1) [OF True] True by (simp add: squeeze_newlines.simps [of s])
  next
    case False
    then show ?thesis using 1(2) by (simp add: squeeze_newlines.simps [of s])
  qed
qed

text \<open>
  A cleaned summary cannot prime the next turn: whatever the model returned, the text that
  seeds the next turn contains none of the six compaction control tokens, opening or closing.
\<close>

theorem compact_summary_no_control_tokens:
  assumes "t \<in> {''<summary>'', ''</summary>'', ''<analysis>'', ''</analysis>'',
                ''<summary_request>'', ''</summary_request>''}"
  shows "\<not> contains (format_compact_summary raw) t"
proof -
  have t: "t \<in> set control_tokens" using assms by (auto simp: control_tokens_def)
  then have "CHR 0x0A \<notin> set t" "t \<noteq> []" by (auto simp: control_tokens_def)
  then show ?thesis
    unfolding format_compact_summary_def Let_def
    using squeeze_no_new_token neutralize_tokens [OF t] contains_trim by blast
qed

lemma compact_summary_no_control_tokens_witness:
  "\<not> contains (format_compact_summary ''<analysis>a</analysis><summary>1. <summary> x</summary>'') ''<summary>''"
  by (rule compact_summary_no_control_tokens) simp

section \<open>Pairing in the compacted history\<close>

lemma block_unique:
  assumes "x # run @ rest = x' # run' @ rest'" and "all_results run" and "starts_block rest"
    and "all_results run'" and "starts_block rest'"
  shows "x = x' \<and> run = run' \<and> rest = rest'"
proof -
  have "run @ rest = run' @ rest'" using assms(1) by simp
  then have "result_run (run @ rest) = result_run (run' @ rest')"
    "after_run (run @ rest) = after_run (run' @ rest')" by simp_all
  then show ?thesis using assms by simp
qed

lemma well_paired_suffix: "well_paired (xs @ ys) \<Longrightarrow> starts_block ys \<Longrightarrow> well_paired ys"
proof (induction "xs @ ys" arbitrary: xs rule: well_paired.induct)
  case paired_nil
  then show ?case by (simp add: well_paired.paired_nil)
next
  case (paired_block x run rest)
  show ?case
  proof (cases xs)
    case Nil
    then show ?thesis
      using paired_block.hyps well_paired.paired_block [of x run rest] by simp
  next
    case (Cons z zs)
    then have eq: "run @ rest = zs @ ys" using paired_block.hyps(7) by simp
    show ?thesis
    proof (cases "length zs < length run")
      case True
      then have "ys = drop (length zs) run @ rest" using eq by (simp add: append_eq_append_conv_if split: if_splits)
      moreover have "drop (length zs) run = run ! length zs # drop (Suc (length zs)) run"
        using True by (simp add: Cons_nth_drop_Suc)
      moreover have "is_tool_result (run ! length zs)"
        using paired_block.hyps(2) True nth_mem by blast
      ultimately have "\<not> starts_block ys" by simp
      then show ?thesis using paired_block.prems by simp
    next
      case False
      then have "rest = drop (length run) zs @ ys" using eq by (simp add: append_eq_append_conv_if split: if_splits)
      then show ?thesis using paired_block.hyps(6) paired_block.prems by blast
    qed
  qed
qed

lemma well_paired_after_user: "well_paired (xs @ x # ys) \<Longrightarrow> is_user x \<Longrightarrow> well_paired ys"
proof -
  assume w: "well_paired (xs @ x # ys)" and u: "is_user x"
  have "starts_block (x # ys)" using u by (cases x) auto
  then have "well_paired (x # ys)" using w by (rule well_paired_suffix [rotated])
  then show ?thesis
  proof (cases rule: well_paired.cases)
    case (paired_block run rest)
    have "owner_ids x = {}" using u by (cases x) (auto simp: owner_ids_def)
    then show ?thesis using paired_block by simp
  qed
qed

text \<open>What is kept of a well-paired transcript passes the provider check from any set of ids.\<close>

lemma validate_append:
  "validate_from S (xs @ ys) =
     validate_from S xs @ validate_from (S \<union> \<Union> (owner_ids ` set xs)) ys"
proof (induction S xs rule: validate_from.induct)
  case (2 S item rest)
  then show ?case by (cases item) (auto simp: owner_ids_def Un_assoc)
qed simp

lemma validate_no_results:
  "\<forall>x \<in> set xs. \<not> is_tool_result x \<Longrightarrow> validate_from S xs = []"
proof (induction S xs rule: validate_from.induct)
  case (2 S item rest)
  then show ?case by (cases item) auto
qed simp

lemma validate_results:
  "all_results run \<Longrightarrow> result_id ` set run \<subseteq> S \<Longrightarrow>
     validate_from S (List.map_filter keep_anchored_item run @ ys) = validate_from S ys"
proof (induction run)
  case (Cons t run)
  then show ?case
    by (cases t) (auto simp: List.map_filter_simps keep_anchored_item_def omitted_result_def)
qed (simp add: List.map_filter_simps)

lemma keep_anchored_assistant: "keep_anchored_item (Assistant a) = Some (Assistant a)"
  by (simp add: keep_anchored_item_def)

lemma validate_kept: "well_paired ys \<Longrightarrow> validate_from S (List.map_filter keep_anchored_item ys) = []"
proof (induction arbitrary: S rule: well_paired.induct)
  case (paired_block x run rest)
  show ?case
  proof (cases x)
    case (Assistant a)
    then have "result_id ` set run \<subseteq> S \<union> set (call_ids a)"
      using paired_block.hyps(4) by (auto simp: owner_ids_def)
    then show ?thesis
      using Assistant paired_block.IH validate_results [OF paired_block.hyps(2)]
      by (simp add: List.map_filter_simps keep_anchored_assistant map_filter_append)
  qed (use paired_block in \<open>auto simp: List.map_filter_simps keep_anchored_item_def owner_ids_def\<close>)
qed (simp add: List.map_filter_simps)

lemma recent_messages_paired:
  assumes "well_paired conv"
  shows "validate_from S (extract_messages_since_last_compaction_anchor conv) = []"
proof -
  let ?P = "\<lambda>item. is_real_user_turn item \<or> is_agent_message item"
  have user: "is_user x" if "?P x" for x
    using that by (cases x) (auto simp: is_real_user_turn_def)
  show ?thesis
  proof (cases "rposition ?P conv")
    case None
    then show ?thesis
      using validate_kept [OF assms] by (simp add: extract_messages_since_last_compaction_anchor_def)
  next
    case (Some i)
    then have i: "i < length conv" "?P (conv ! i)" using rposition_Some by blast+
    then have split: "conv = take i conv @ conv ! i # drop (Suc i) conv" by (simp add: id_take_nth_drop)
    have w: "well_paired (drop (Suc i) conv)"
      by (rule well_paired_after_user [of "take i conv" "conv ! i"]) (use assms split user i in simp_all)
    have "starts_block (conv ! i # drop (Suc i) conv)" using user [OF i(2)] by (cases "conv ! i") auto
    then have w': "well_paired (conv ! i # drop (Suc i) conv)"
      using assms split well_paired_suffix by metis
    show ?thesis
      using validate_kept [OF w] validate_kept [OF w'] Some i
      by (simp add: extract_messages_since_last_compaction_anchor_def Cons_nth_drop_Suc)
  qed
qed

text \<open>
  C5: Compaction never produces an orphaned tool result: from a well-paired transcript, the
  compacted history built from the captured state passes the provider check, for every summary,
  prefix, reminder and captured session state.
\<close>

theorem compacted_history_valid:
  assumes "well_paired conv" and "state_context inp = context_build conv inputs"
    and "\<not> is_tool_result (system_message inp)"
  shows "validate_compacted_history (build_compacted_history inp) = []"
proof -
  have anchor: "\<not> is_tool_result (anchor_item a)" if "extract_latest_agent_message conv = Some a" for a
    using that rposition_Some [of is_agent_message conv]
    by (auto simp: extract_latest_agent_message_def split: option.splits)
      (metis is_agent_message.simps(4) is_tool_result.elims(2))+
  have recent: "recent_messages (state_context inp) = extract_messages_since_last_compaction_anchor conv"
    by (simp add: assms(2) context_build_def)
  obtain pre post where h: "build_compacted_history inp =
      pre @ extract_messages_since_last_compaction_anchor conv @ post"
    and pre: "\<forall>x \<in> set pre. \<not> is_tool_result x" and post: "\<forall>x \<in> set post. \<not> is_tool_result x"
  proof -
    let ?c = "state_context inp"
    let ?a = "case ctx_agent_message_anchor ?c of
        Some a \<Rightarrow> if list_ex is_agent_message (recent_messages ?c) then None else Some a | None \<Rightarrow> None"
    let ?pre = "[system_message inp, user_meta (user_message_prefix inp)] @
         map project_instructions (option_list (if ctx_cwd_generation ?c = 0 then agents_md_reminder inp
                          else destination_project_instructions ?c)) @
         (case ?a of Some a \<Rightarrow> if anchor_position a = BeforeHuman then [anchor_item a] else []
          | None \<Rightarrow> []) @
         map (\<lambda>q. user_msg (wrap_user_query q)) (option_list (last_user_query ?c)) @
         (case ?a of Some a \<Rightarrow> if anchor_position a \<noteq> BeforeHuman then [anchor_item a] else []
          | None \<Rightarrow> [])"
    let ?post = "[user_meta (format_compact_summary_content (compaction_summary inp) @
            (case transcript_hint inp of Some hint \<Rightarrow> hint | None \<Rightarrow> ''''))] @
         map system_reminder (option_list (ch_system_reminder inp))"
    have ctors: "\<not> is_tool_result (user_meta s)" "\<not> is_tool_result (user_msg s)"
      "\<not> is_tool_result (project_instructions s)" "\<not> is_tool_result (system_reminder s)" for s
      by (simp_all add: user_meta_def user_msg_def project_instructions_def system_reminder_def user_text_def)
    show ?thesis
    proof (rule that [of ?pre ?post])
      show "build_compacted_history inp = ?pre @ extract_messages_since_last_compaction_anchor conv @ ?post"
        unfolding recent [symmetric] by (simp add: build_compacted_history_def Let_def)
      show "\<forall>x \<in> set ?pre. \<not> is_tool_result x"
        using assms anchor by (auto simp: ctors context_build_def split: option.splits)
      show "\<forall>x \<in> set ?post. \<not> is_tool_result x" by (auto simp: ctors)
    qed
  qed
  show ?thesis
    unfolding validate_compacted_history_def h validate_append
    using recent_messages_paired [OF assms(1)] validate_no_results [OF pre] validate_no_results [OF post]
    by simp
qed

lemma compacted_history_valid_witness:
  "\<exists>conv inputs. well_paired conv \<and> conv \<noteq> [] \<and> validate_compacted_history (build_compacted_history
      \<lparr>system_message = System ''s'', user_message_prefix = ''p'', agents_md_reminder = None,
       state_context = context_build conv inputs, compaction_summary = ''<summary>x</summary>'',
       ch_system_reminder = None, transcript_hint = None\<rparr>) = []"
proof -
  let ?a = "assistant_tool_calls [\<lparr>call_id = ''c'', call_name = ''f'', arguments = ''''\<rparr>]"
  have "well_paired (?a # [tool_result ''c'' ''r''] @ [])"
    by (intro paired_block paired_nil)
      (simp_all add: assistant_tool_calls_def tool_result_def owner_ids_def call_ids_def)
  then have w: "well_paired [?a, tool_result ''c'' ''r'']" by simp
  show ?thesis by (intro exI conjI, rule w, simp, rule compacted_history_valid [OF w]) simp_all
qed

section \<open>Fitting a budget\<close>

text \<open>The cost of a list of items, as a natural number: no wrap-around.\<close>

definition tokens_of :: "conversation_item list \<Rightarrow> nat" where
  "tokens_of items = sum_list (map (\<lambda>i. unat (estimate_item_tokens i)) items)"

lemma tokens_of_simps [simp]:
  "tokens_of [] = 0" "tokens_of (x # xs) = unat (estimate_item_tokens x) + tokens_of xs"
  "tokens_of (xs @ ys) = tokens_of xs + tokens_of ys" "tokens_of (rev xs) = tokens_of xs"
  by (simp_all add: tokens_of_def rev_map [symmetric] sum_list_rev)

lemma tokens_of_suffix: "suffix xs ys \<Longrightarrow> tokens_of xs \<le> tokens_of ys"
  by (auto simp: suffix_def)

lemma keep_fitting_length: "keep_fitting budget items \<le> length items"
  by (induction items arbitrary: budget) (auto simp: Let_def)

lemma keep_fitting_within: "tokens_of (take (keep_fitting budget items) items) \<le> unat budget"
proof (induction items arbitrary: budget)
  case (Cons item rest)
  show ?case
  proof (cases "budget < estimate_item_tokens item")
    case False
    then have "estimate_item_tokens item \<le> budget" by simp
    then have "unat (budget - estimate_item_tokens item) = unat budget - unat (estimate_item_tokens item)"
      "unat (estimate_item_tokens item) \<le> unat budget" by (simp_all add: unat_sub word_le_nat_alt)
    then show ?thesis using Cons.IH [of "budget - estimate_item_tokens item"] False by (simp add: Let_def)
  qed simp
qed simp

lemma keep_fitting_maximal:
  "k \<le> length items \<Longrightarrow> tokens_of (take k items) \<le> unat budget \<Longrightarrow> k \<le> keep_fitting budget items"
proof (induction items arbitrary: budget k)
  case (Cons item rest)
  show ?case
  proof (cases k)
    case (Suc j)
    then have le: "unat (estimate_item_tokens item) \<le> unat budget" using Cons.prems(2) by simp
    then have w: "estimate_item_tokens item \<le> budget" by (simp add: word_le_nat_alt)
    then have "unat (budget - estimate_item_tokens item) = unat budget - unat (estimate_item_tokens item)"
      by (simp add: unat_sub)
    then have "j \<le> keep_fitting (budget - estimate_item_tokens item) rest"
      using Cons.IH [of j "budget - estimate_item_tokens item"] Cons.prems Suc le by simp
    then show ?thesis using Suc w by (simp add: Let_def not_less)
  qed simp
qed simp

definition split_system :: "conversation_item list \<Rightarrow> conversation_item list \<times> conversation_item list" where
  "split_system conv = (case conv of System s # rest \<Rightarrow> ([System s], rest) | _ \<Rightarrow> ([], conv))"

definition body_budget :: "conversation_item list \<Rightarrow> u64 \<Rightarrow> u64" where
  "body_budget conv max_tokens =
     sat_sub max_tokens (estimate_conversation_tokens (fst (split_system conv)))"

definition fitted_body :: "conversation_item list \<Rightarrow> u64 \<Rightarrow> conversation_item list" where
  "fitted_body conv max_tokens =
     (let body = snd (split_system conv)
      in after_run (drop (length body - keep_fitting (body_budget conv max_tokens) (rev body)) body))"

lemma fit_over_budget:
  "\<not> estimate_conversation_tokens conv \<le> max_tokens \<Longrightarrow>
   fit_conversation_to_budget conv max_tokens = fst (split_system conv) @
     (if fitted_body conv max_tokens \<noteq> [] then fitted_body conv max_tokens
      else recover_truncated_tail_unit (snd (split_system conv)) (body_budget conv max_tokens))"
  unfolding fit_conversation_to_budget_def split_system_def [symmetric]
  by (simp add: fitted_body_def body_budget_def Let_def split_beta)

lemma suffix_after_run: "suffix (after_run xs) xs"
  by (simp add: after_run_def suffix_dropWhile)

lemma fitted_body_suffix: "suffix (fitted_body conv max_tokens) (snd (split_system conv))"
  unfolding fitted_body_def Let_def
  using suffix_after_run suffix_drop suffix_order.trans by blast

lemma fitted_body_within: "tokens_of (fitted_body conv max_tokens) \<le> unat (body_budget conv max_tokens)"
proof -
  let ?body = "snd (split_system conv)" and ?b = "body_budget conv max_tokens"
  have "drop (length ?body - keep_fitting ?b (rev ?body)) ?body = rev (take (keep_fitting ?b (rev ?body)) (rev ?body))"
    by (simp add: take_rev)
  then have "tokens_of (drop (length ?body - keep_fitting ?b (rev ?body)) ?body) \<le> unat ?b"
    using keep_fitting_within [of ?b "rev ?body"] by simp
  then show ?thesis
    unfolding fitted_body_def Let_def
    using le_trans [OF tokens_of_suffix [OF suffix_after_run]] by blast
qed

lemma after_run_longer: "suffix xs ys \<Longrightarrow> starts_block xs \<Longrightarrow> suffix xs (after_run ys)"
proof (induction ys)
  case (Cons y ys)
  show ?case
  proof (cases "is_tool_result y")
    case True
    then have "xs \<noteq> y # ys" using Cons.prems(2) by (cases xs) auto
    then show ?thesis using Cons True by (auto simp: suffix_Cons after_run_def)
  qed (use Cons in \<open>simp add: after_run_def\<close>)
qed simp

lemma fitted_body_longest:
  assumes "suffix ys (snd (split_system conv))" and "starts_block ys"
    and "tokens_of ys \<le> unat (body_budget conv max_tokens)"
  shows "suffix ys (fitted_body conv max_tokens)"
proof -
  let ?body = "snd (split_system conv)" and ?b = "body_budget conv max_tokens"
  obtain zs where z: "?body = zs @ ys" using assms(1) by (auto simp: suffix_def)
  have "length ys \<le> keep_fitting ?b (rev ?body)"
    by (rule keep_fitting_maximal) (use assms(3) z in simp_all)
  then have "suffix ys (drop (length ?body - keep_fitting ?b (rev ?body)) ?body)"
    using z by (simp add: suffix_def)
  then show ?thesis unfolding fitted_body_def Let_def using assms(2) by (rule after_run_longer)
qed

text \<open>
  A conversation over the window is cut to the longest suffix that fits.  The cut keeps the
  system message, starts at no tool result, costs at most the budget left by the system message
  (costs added without wrap-around), and every other suffix with these properties is part of it;
  when there is one that is not empty, it is what is returned.
\<close>

theorem fit_longest_suffix:
  assumes "\<not> estimate_conversation_tokens conv \<le> max_tokens"
    and "suffix ys (snd (split_system conv))" and "ys \<noteq> []" and "starts_block ys"
    and "tokens_of ys \<le> unat (body_budget conv max_tokens)"
  shows "\<exists>kept. fit_conversation_to_budget conv max_tokens = fst (split_system conv) @ kept \<and>
           suffix kept (snd (split_system conv)) \<and> starts_block kept \<and>
           tokens_of kept \<le> unat (body_budget conv max_tokens) \<and> suffix ys kept"
proof (intro exI conjI)
  let ?k = "fitted_body conv max_tokens"
  show longest: "suffix ys ?k" using fitted_body_longest [OF assms(2,4,5)] .
  then have "?k \<noteq> []" using assms(3) by auto
  then show "fit_conversation_to_budget conv max_tokens = fst (split_system conv) @ ?k"
    using fit_over_budget [OF assms(1)] by simp
  show "starts_block ?k" by (simp add: fitted_body_def Let_def)
qed (rule fitted_body_suffix fitted_body_within)+

lemma fit_longest_suffix_witness:
  "\<exists>kept. fit_conversation_to_budget [System ''abcd'', user_msg ''0123456789abcdef'', user_msg ''abcdefgh''] 4 =
     [System ''abcd''] @ kept \<and> suffix [user_msg ''abcdefgh''] kept"
proof -
  let ?conv = "[System ''abcd'', user_msg ''0123456789abcdef'', user_msg ''abcdefgh'']"
  have items: "estimate_item_tokens (System ''abcd'') = 1"
    "estimate_item_tokens (user_msg ''0123456789abcdef'') = 4"
    "estimate_item_tokens (user_msg ''abcdefgh'') = 2"
    by (simp_all add: estimate_item_tokens_def estimate_tokens_def user_msg_def user_text_def
        BYTES_PER_TOKEN_def estimate_image_tokens_def sat_mul_def)
  have "\<exists>kept. fit_conversation_to_budget ?conv 4 = fst (split_system ?conv) @ kept \<and>
           suffix kept (snd (split_system ?conv)) \<and> starts_block kept \<and>
           tokens_of kept \<le> unat (body_budget ?conv 4) \<and> suffix [user_msg ''abcdefgh''] kept"
  proof (rule fit_longest_suffix)
    show "\<not> estimate_conversation_tokens ?conv \<le> 4"
      by (simp add: estimate_conversation_tokens_def items)
    show "suffix [user_msg ''abcdefgh''] (snd (split_system ?conv))"
      by (simp add: split_system_def suffix_Cons)
    show "starts_block [user_msg ''abcdefgh'']" by (simp add: user_msg_def user_text_def)
    show "tokens_of [user_msg ''abcdefgh''] \<le> unat (body_budget ?conv 4)"
      by (simp add: items body_budget_def split_system_def sat_sub_def)
  qed simp
  then show ?thesis by (auto simp: split_system_def)
qed

text \<open>Cutting texts does not change the pairing.\<close>

lemma truncate_shape [simp]: "pairing_shape (truncate_item_to_tokens item max_tokens) = pairing_shape item"
  by (cases item) (simp_all add: truncate_item_to_tokens_def Let_def pairing_shape_def owner_ids_def call_ids_def)

lemma owner_ids_calls: "\<not> has_tool_requests x \<Longrightarrow> owner_ids x = {}"
  by (cases x) (auto simp: owner_ids_def has_tool_requests_def call_ids_def)

lemma recover_well_paired:
  assumes "well_paired body"
  shows "well_paired (recover_truncated_tail_unit body budget)"
proof -
  let ?results = "rev (takeWhile is_tool_result (rev body))" and ?init = "drop_end is_tool_result body"
  have split: "body = ?init @ ?results" by (simp add: drop_end_def flip: rev_append)
  show ?thesis
  proof (cases "?init = []")
    case True
    then have "all_results body" using split by (metis append_Nil set_rev set_takeWhileD)
    then have "body = []" using well_paired_starts [OF assms] by (cases body) auto
    then show ?thesis by (simp add: recover_truncated_tail_unit_def Let_def drop_end_def well_paired.paired_nil)
  next
    case False
    let ?x = "last ?init"
    have "\<not> is_tool_result ?x" using False by (simp add: drop_end_def last_rev hd_dropWhile)
    moreover have "body = butlast ?init @ ?x # ?results"
      using split append_butlast_last_id [OF False] by (metis append_Cons append_Nil append_assoc)
    ultimately have w: "well_paired (?x # ?results)"
      using assms well_paired_suffix by (metis starts_block_simps(2))
    then have "result_id ` set ?results = owner_ids ?x"
    proof (cases rule: well_paired.cases)
      case (paired_block run rest)
      have "rest = []"
      proof (cases rest)
        case (Cons r rs)
        then have "r \<in> set ?results" using paired_block(1) by simp
        then have "is_tool_result r" by (metis set_rev set_takeWhileD)
        then show ?thesis using Cons well_paired_starts [OF paired_block(6)] by simp
      qed
      then show ?thesis using paired_block by simp
    qed
    then have owner: "?results \<noteq> [] \<Longrightarrow> has_tool_requests ?x"
      using owner_ids_calls [of ?x] by (cases "has_tool_requests ?x") auto
    show ?thesis
    proof (cases "?results = []")
      case True
      then have "?init = body" using split by simp
      then show ?thesis
        using True False w by (auto simp: recover_truncated_tail_unit_def Let_def elim!: well_paired_shape)
    next
      case nonempty: False
      show ?thesis
        by (rule well_paired_shape [OF w])
          (use nonempty False owner [OF nonempty] in \<open>simp add: recover_truncated_tail_unit_def Let_def\<close>)
    qed
  qed
qed

lemma split_system_well_paired:
  assumes "well_paired conv"
  shows "well_paired (snd (split_system conv))"
    and "well_paired ys \<Longrightarrow> well_paired (fst (split_system conv) @ ys)"
proof -
  show "well_paired (snd (split_system conv))"
  proof (cases conv)
    case (Cons x rest)
    show ?thesis
    proof (cases x)
      case (System t)
      have "well_paired (System t # rest)" using assms Cons System by simp
      then have "well_paired rest" by (cases rule: well_paired.cases) (auto simp: owner_ids_def)
      then show ?thesis using Cons System by (simp add: split_system_def)
    qed (use assms Cons in \<open>simp_all add: split_system_def\<close>)
  qed (use assms in \<open>simp add: split_system_def\<close>)
  show "well_paired ys \<Longrightarrow> well_paired (fst (split_system conv) @ ys)"
    using well_paired.paired_block [of "System t" "[]" ys for t]
    by (auto simp: split_system_def owner_ids_def split: list.splits conversation_item.splits)
qed

text \<open>
  Fitting a transcript to the window never breaks the pairing of calls and results: neither
  the longest suffix nor the truncated last unit that is returned when not even that fits.
\<close>

theorem fit_well_paired:
  assumes "well_paired conv"
  shows "well_paired (fit_conversation_to_budget conv max_tokens)"
proof (cases "estimate_conversation_tokens conv \<le> max_tokens")
  case False
  have "well_paired (fitted_body conv max_tokens)"
    using split_system_well_paired(1) [OF assms] fitted_body_suffix [of conv max_tokens]
      well_paired_suffix starts_block_after_run unfolding fitted_body_def Let_def suffix_def by metis
  moreover have "well_paired (recover_truncated_tail_unit (snd (split_system conv)) (body_budget conv max_tokens))"
    by (rule recover_well_paired [OF split_system_well_paired(1) [OF assms]])
  ultimately show ?thesis
    using split_system_well_paired(2) [OF assms] fit_over_budget [OF False] by simp
qed (simp add: fit_conversation_to_budget_def assms)

lemma fit_well_paired_witness:
  "well_paired (fit_conversation_to_budget
     [assistant_tool_calls [\<lparr>call_id = ''c'', call_name = ''f'', arguments = ''abcd''\<rparr>],
      tool_result ''c'' ''0123456789''] 1)"
proof (rule fit_well_paired)
  let ?a = "assistant_tool_calls [\<lparr>call_id = ''c'', call_name = ''f'', arguments = ''abcd''\<rparr>]"
  have "well_paired (?a # [tool_result ''c'' ''0123456789''] @ [])"
    by (intro paired_block paired_nil)
      (simp_all add: assistant_tool_calls_def tool_result_def owner_ids_def call_ids_def)
  then show "well_paired [?a, tool_result ''c'' ''0123456789'']" by simp
qed

end
