(* ===== verification/CompactionItem.thy ===== *)
theory CompactionItem
  imports CompactedHistory
begin

section \<open>Compaction items and turn selection\<close>

text \<open>
  Models \<open>hystersis-compaction/src/item.rs\<close>, \<open>select.rs\<close>, \<open>history/types.rs\<close> and
  \<open>history/validate.rs\<close>.  The traits of an item are a record of functions, the argument \<open>ops\<close> of
  the algorithms; \<open>conversation_ops\<close> is the implementation for \<open>ConversationItem\<close>.  Counts and items
  have the same length, as the debug assertion of the code demands.
\<close>

datatype compaction_role = CSystem | CDeveloper | CUser | CAssistant | CTool

record compaction_file_ref =
  file_id :: rstr
  file_name :: rstr

record 't item_ops =
  item_role :: "'t \<Rightarrow> compaction_role"
  item_txt :: "'t \<Rightarrow> rstr option"
  item_requests :: "'t \<Rightarrow> bool"
  item_summary :: "'t \<Rightarrow> bool"
  item_files :: "'t \<Rightarrow> compaction_file_ref list"

definition is_tool_item :: "('t, 'z) item_ops_scheme \<Rightarrow> 't \<Rightarrow> bool" where
  "is_tool_item ops t \<longleftrightarrow> item_role ops t = CTool"

text \<open>The constructive extension, for algorithms that rebuild items.\<close>

record 't builder_ops = "'t item_ops" +
  summary_item :: "rstr \<Rightarrow> 't"
  strip_tool_content :: "'t \<Rightarrow> 't option"
  truncate_payload :: "'t \<Rightarrow> u32 \<Rightarrow> 't"

text \<open>The write seam of the assembler.\<close>

record 't factory_ops =
  new_user :: "rstr \<Rightarrow> 't"
  new_user_meta :: "rstr \<Rightarrow> 't"
  new_project_instructions :: "rstr \<Rightarrow> 't"
  new_system_reminder :: "rstr \<Rightarrow> 't"

definition conversation_role :: "conversation_item \<Rightarrow> compaction_role" where
  "conversation_role item =
     (case role_of item of
        RoleSystem \<Rightarrow> CSystem | RoleUser \<Rightarrow> CUser | RoleAssistant \<Rightarrow> CAssistant | RoleTool \<Rightarrow> CTool)"

definition conversation_ops :: "conversation_item item_ops" where
  "conversation_ops =
     \<lparr>item_role = conversation_role,
      item_txt = (\<lambda>x. case compaction_text x of Some t \<Rightarrow> t | None \<Rightarrow> None),
      item_requests = has_tool_requests, item_summary = is_compaction_summary,
      item_files = (\<lambda>_. [])\<rparr>"

definition conversation_factory :: "conversation_item factory_ops" where
  "conversation_factory =
     \<lparr>new_user = user_msg, new_user_meta = user_meta,
      new_project_instructions = project_instructions, new_system_reminder = system_reminder\<rparr>"

subsection \<open>Turn selection\<close>

record split_plan =
  split_idx :: nat
  tokens_to_compact :: u32

text \<open>The walk from the newest item: how many items are kept.\<close>

fun keep_back :: "u32 \<Rightarrow> u32 \<Rightarrow> u32 list \<Rightarrow> nat" where
  "keep_back target kept [] = 0"
| "keep_back target kept (count # older) =
     (if target < sat_add kept count then 0 else Suc (keep_back target (sat_add kept count) older))"

definition snap_to_safe_boundary :: "('t, 'z) item_ops_scheme \<Rightarrow> 't list \<Rightarrow> nat \<Rightarrow> nat" where
  "snap_to_safe_boundary ops items candidate =
     (if length items \<le> candidate then length items
      else if \<not> is_tool_item ops (items ! candidate) then candidate
      else candidate + length (takeWhile (is_tool_item ops) (drop candidate items)))"

definition sum_counts :: "u32 list \<Rightarrow> u32" where
  "sum_counts counts = foldl sat_add 0 counts"

definition select_turns_to_compact ::
  "('t, 'z) item_ops_scheme \<Rightarrow> u32 list \<Rightarrow> 't list \<Rightarrow> u32 \<Rightarrow> u32 \<Rightarrow> split_plan option" where
  "select_turns_to_compact ops counts items target min_compactable =
     (let total_items = length items
      in if total_items = 0 then None
         else
           (let candidate = total_items - keep_back target 0 (rev counts)
            in if candidate = 0 then None
               else
                 (let safe = snap_to_safe_boundary ops items candidate
                  in if total_items \<le> safe then None
                     else
                       (let n = sum_counts (take safe counts)
                        in if n < min_compactable then None
                           else Some \<lparr>split_idx = safe, tokens_to_compact = n\<rparr>))))"

subsection \<open>Validation\<close>

datatype compaction_strategy = Basic | DivideAndConquer | FullReplaceStrategy

definition strategy_label :: "compaction_strategy \<Rightarrow> rstr" where
  "strategy_label s =
     (case s of Basic \<Rightarrow> ''basic'' | DivideAndConquer \<Rightarrow> ''divide_and_conquer''
      | FullReplaceStrategy \<Rightarrow> ''full_replace'')"

datatype compaction_validation_error = EmptyContent | UnbalancedChunkTags nat nat

text \<open>\<open>matches(p).count()\<close>: disjoint occurrences, from the left.\<close>

function count_matches :: "rstr \<Rightarrow> rstr \<Rightarrow> nat" where
  "count_matches p s =
     (case str_find p s of
        None \<Rightarrow> 0
      | Some i \<Rightarrow> if p = [] then 0 else Suc (count_matches p (drop (i + length p) s)))"
  by pat_completeness auto
termination
  by (relation "measure (\<lambda>(p, s). length s)")
    (auto dest!: str_find_bound simp: length_greater_0_conv [symmetric] simp del: length_greater_0_conv)

declare count_matches.simps [simp del]

definition validate_compaction_text ::
  "rstr \<Rightarrow> compaction_strategy \<Rightarrow> compaction_validation_error + unit" where
  "validate_compaction_text s strategy =
     (if trim s = '''' then Inl EmptyContent
      else if strategy = DivideAndConquer \<and>
        count_matches ''<chunk_summary'' s \<noteq> count_matches ''</chunk_summary>'' s
      then Inl (UnbalancedChunkTags (count_matches ''<chunk_summary'' s)
                  (count_matches ''</chunk_summary>'' s))
      else Inr ())"

section \<open>What a selection keeps\<close>

definition tot :: "u32 list \<Rightarrow> nat" where
  "tot counts = sum_list (map unat counts)"

lemma tot_simps [simp]:
  "tot [] = 0" "tot (c # cs) = unat c + tot cs" "tot (xs @ ys) = tot xs + tot ys" "tot (rev xs) = tot xs"
  by (simp_all add: tot_def rev_map [symmetric] sum_list_rev)

lemma sat_foldl: "foldl sat_add (sat_add a b) cs = sat_add a (foldl sat_add b cs)"
  by (induction cs arbitrary: b) (simp_all add: sat_add_assoc)

lemma sum_counts_Nil [simp]: "sum_counts [] = 0"
  by (simp add: sum_counts_def)

lemma sum_counts_Cons [simp]: "sum_counts (c # cs) = sat_add c (sum_counts cs)"
  using sat_foldl [of c 0 cs] by (simp add: sum_counts_def)

lemma sum_counts_append: "sum_counts (xs @ ys) = sat_add (sum_counts xs) (sum_counts ys)"
  by (induction xs) (simp_all add: sat_add_assoc)

lemma unat_sum_counts: "unat (sum_counts cs) = min (tot cs) (2 ^ 32 - 1)"
  by (induction cs) (simp_all add: unat_sat_add)

lemma keep_back_length: "keep_back target kept cs \<le> length cs"
  by (induction cs arbitrary: kept) auto

lemma sat_add_below:
  assumes "\<not> target < sat_add kept c" and "unat target < 2 ^ 32 - 1"
  shows "unat (sat_add kept c) = unat kept + unat (c :: u32)" and "unat kept + unat c \<le> unat target"
proof -
  have "min (unat kept + unat c) (2 ^ 32 - 1) \<le> unat target"
    using assms(1) unat_sat_add [of kept c] by (simp add: word_less_nat_alt not_less min_le_iff_disj)
  then show "unat kept + unat c \<le> unat target" using assms(2) by simp
  then show "unat (sat_add kept c) = unat kept + unat c"
    using assms(2) unat_sat_add [of kept c] by simp
qed

lemma keep_back_within:
  assumes "unat target < 2 ^ 32 - 1"
  shows "unat kept \<le> unat target \<Longrightarrow> unat kept + tot (take (keep_back target kept cs) cs) \<le> unat target"
proof (induction cs arbitrary: kept)
  case (Cons c cs)
  show ?case
  proof (cases "target < sat_add kept c")
    case False
    note b = sat_add_below [OF False assms]
    have "unat (sat_add kept c) + tot (take (keep_back target (sat_add kept c) cs) cs) \<le> unat target"
      by (rule Cons.IH) (use b in simp)
    then show ?thesis using False b by simp
  qed (use Cons.prems in simp)
qed simp

lemma keep_back_maximal:
  "j \<le> length cs \<Longrightarrow> unat kept + tot (take j cs) \<le> unat target \<Longrightarrow> j \<le> keep_back target kept cs"
proof (induction cs arbitrary: kept j)
  case (Cons c cs)
  show ?case
  proof (cases j)
    case (Suc i)
    then have s: "unat kept + unat c + tot (take i cs) \<le> unat target" using Cons.prems(2) by simp
    then have sat: "unat (sat_add kept c) \<le> unat kept + unat c" by (simp add: unat_sat_add)
    then have "\<not> target < sat_add kept c" using s by (simp add: word_less_nat_alt)
    moreover have "i \<le> keep_back target (sat_add kept c) cs"
      by (rule Cons.IH) (use Cons.prems(1) Suc s sat in simp_all)
    ultimately show ?thesis using Suc by simp
  qed simp
qed simp

lemma snap_safe:
  assumes "snap_to_safe_boundary ops items candidate < length items"
  shows "\<not> is_tool_item ops (items ! snap_to_safe_boundary ops items candidate)"
    and "candidate \<le> snap_to_safe_boundary ops items candidate"
    and "\<forall>k. candidate \<le> k \<and> k < snap_to_safe_boundary ops items candidate \<longrightarrow> is_tool_item ops (items ! k)"
proof -
  let ?n = "length (takeWhile (is_tool_item ops) (drop candidate items))"
  have cand: "candidate < length items" using assms by (auto simp: snap_to_safe_boundary_def split: if_splits)
  show "candidate \<le> snap_to_safe_boundary ops items candidate" using cand by (simp add: snap_to_safe_boundary_def)
  show "\<not> is_tool_item ops (items ! snap_to_safe_boundary ops items candidate)"
  proof (cases "is_tool_item ops (items ! candidate)")
    case True
    then have "?n < length (drop candidate items)" using assms cand by (simp add: snap_to_safe_boundary_def)
    then show ?thesis using nth_length_takeWhile [of "is_tool_item ops" "drop candidate items"] True cand
      by (simp add: snap_to_safe_boundary_def)
  qed (use cand in \<open>simp add: snap_to_safe_boundary_def\<close>)
  show "\<forall>k. candidate \<le> k \<and> k < snap_to_safe_boundary ops items candidate \<longrightarrow> is_tool_item ops (items ! k)"
  proof (intro allI impI)
    fix k assume k: "candidate \<le> k \<and> k < snap_to_safe_boundary ops items candidate"
    then have "k - candidate < ?n" using cand by (auto simp: snap_to_safe_boundary_def split: if_splits)
    then have "is_tool_item ops (takeWhile (is_tool_item ops) (drop candidate items) ! (k - candidate))"
      by (metis nth_mem set_takeWhileD)
    then show "is_tool_item ops (items ! k)"
      using k \<open>k - candidate < ?n\<close> by (simp add: takeWhile_nth less_imp_le [OF cand])
  qed
qed

lemma select_Some:
  assumes "select_turns_to_compact ops counts items target mn = Some plan" and "length counts = length items"
  defines "candidate \<equiv> length items - keep_back target 0 (rev counts)"
  shows "split_idx plan = snap_to_safe_boundary ops items candidate" and "split_idx plan < length items"
    and "0 < candidate" and "tokens_to_compact plan = sum_counts (take (split_idx plan) counts)"
    and "mn \<le> tokens_to_compact plan"
  using assms by (auto simp: select_turns_to_compact_def Let_def not_le not_less split: if_splits)

text \<open>
  A selection keeps the longest recent part that fits.  The part kept is not empty, starts at no
  tool result and its tokens, added without saturation, fit the target; every longer part starts at a
  tool result or exceeds it; and the tokens to compact are those of the rest, at least the minimum.
\<close>

theorem select_keeps_longest:
  assumes "select_turns_to_compact ops counts items target mn = Some plan"
    and "length counts = length items" and "unat target < 2 ^ 32 - 1"
  shows "split_idx plan < length items \<and> \<not> is_tool_item ops (items ! split_idx plan) \<and>
         tot (drop (split_idx plan) counts) \<le> unat target \<and>
         (\<forall>k < split_idx plan. is_tool_item ops (items ! k) \<or> unat target < tot (drop k counts)) \<and>
         unat (tokens_to_compact plan) = min (tot (take (split_idx plan) counts)) (2 ^ 32 - 1) \<and>
         mn \<le> tokens_to_compact plan"
proof -
  let ?n = "keep_back target 0 (rev counts)" and ?c = "length items - keep_back target 0 (rev counts)"
  note s = select_Some [OF assms(1,2)]
  have safe: "snap_to_safe_boundary ops items ?c < length items" using s(1,2) by simp
  have n: "?n \<le> length counts" using keep_back_length [of target 0 "rev counts"] by simp
  have kept: "drop ?c counts = rev (take ?n (rev counts))" using assms(2) n by (simp add: take_rev)
  have fits: "tot (drop ?c counts) \<le> unat target"
    using keep_back_within [OF assms(3), of 0 "rev counts"] kept by simp
  have later: "tot (drop k counts) \<le> tot (drop j counts)" if "j \<le> k" for j k
  proof -
    have "drop j counts = take (k - j) (drop j counts) @ drop k counts"
      using that by (metis append_take_drop_id drop_drop le_add_diff_inverse2)
    then show ?thesis by (metis le_add2 tot_simps(3))
  qed
  have "is_tool_item ops (items ! k) \<or> unat target < tot (drop k counts)" if k: "k < split_idx plan" for k
  proof (cases "?c \<le> k")
    case True
    then show ?thesis using snap_safe(3) [OF safe] k s(1) by simp
  next
    case False
    have "\<not> tot (drop k counts) \<le> unat target"
    proof
      assume t: "tot (drop k counts) \<le> unat target"
      have "tot (take (length counts - k) (rev counts)) = tot (drop k counts)"
        using k s(2) assms(2) by (simp add: take_rev)
      then have "length counts - k \<le> ?n" using t by (intro keep_back_maximal) simp_all
      then show False using False assms(2) by simp
    qed
    then show ?thesis by simp
  qed
  moreover have "tot (drop (split_idx plan) counts) \<le> unat target"
    using later [of ?c "split_idx plan"] snap_safe(2) [OF safe] s(1) fits by simp
  ultimately show ?thesis
    using s snap_safe(1) [OF safe] by (simp add: unat_sum_counts)
qed

lemma select_keeps_longest_witness:
  "tot (drop 2 [40, 30, 20, 10]) \<le> 30"
proof -
  have "select_turns_to_compact conversation_ops [40, 30, 20, 10]
      [user_msg ''a'', assistant_msg ''b'', user_msg ''c'', assistant_msg ''d''] 30 5 =
      Some \<lparr>split_idx = 2, tokens_to_compact = 70\<rparr>"
    by (simp add: select_turns_to_compact_def Let_def snap_to_safe_boundary_def is_tool_item_def
        conversation_ops_def conversation_role_def assistant_msg_def user_msg_def user_text_def sat_add_def)
  from select_keeps_longest [OF this] show ?thesis by simp
qed

lemma well_paired_prefix: "well_paired (xs @ ys) \<Longrightarrow> starts_block ys \<Longrightarrow> well_paired xs"
proof (induction "xs @ ys" arbitrary: xs rule: well_paired.induct)
  case paired_nil
  then show ?case by (simp add: well_paired.paired_nil)
next
  case (paired_block x run rest)
  show ?case
  proof (cases xs)
    case Nil
    then show ?thesis by (simp add: well_paired.paired_nil)
  next
    case (Cons z zs)
    then have eq: "run @ rest = zs @ ys" and z: "z = x" using paired_block.hyps(7) by simp_all
    show ?thesis
    proof (cases "length zs < length run")
      case True
      then have "ys = drop (length zs) run @ rest" using eq by (simp add: append_eq_append_conv_if split: if_splits)
      moreover have "drop (length zs) run = run ! length zs # drop (Suc (length zs)) run"
        using True by (simp add: Cons_nth_drop_Suc)
      moreover have "is_tool_result (run ! length zs)" using paired_block.hyps(2) True nth_mem by blast
      ultimately show ?thesis using paired_block.prems by simp
    next
      case False
      then have r: "rest = drop (length run) zs @ ys" and t: "take (length run) zs = run"
        using eq by (simp_all add: append_eq_append_conv_if split: if_splits)
      have "well_paired (drop (length run) zs)" using paired_block.hyps(6) [OF r] paired_block.prems by simp
      then have "well_paired (x # run @ drop (length run) zs)"
        using paired_block.hyps by (intro well_paired.paired_block)
      moreover have "run @ drop (length run) zs = zs" using t by (metis append_take_drop_id)
      ultimately show ?thesis using Cons z by simp
    qed
  qed
qed

lemma tool_item_conversation: "is_tool_item conversation_ops x \<longleftrightarrow> is_tool_result x"
  by (cases x) (simp_all add: is_tool_item_def conversation_ops_def conversation_role_def)

text \<open>
  Compacting at a selected split point separates no tool call from its results: both the part
  to compact and the part kept of a well-paired conversation are well paired.
\<close>

theorem select_keeps_pairs:
  assumes "select_turns_to_compact conversation_ops counts items target mn = Some plan"
    and "length counts = length items" and "well_paired items"
  shows "well_paired (take (split_idx plan) items) \<and> well_paired (drop (split_idx plan) items)"
proof -
  let ?k = "split_idx plan"
  have k: "?k < length items" and s: "?k = snap_to_safe_boundary conversation_ops items
      (length items - keep_back target 0 (rev counts))"
    using select_Some [OF assms(1,2)] by simp_all
  have "\<not> is_tool_result (items ! ?k)"
    using snap_safe(1) [of conversation_ops items "length items - keep_back target 0 (rev counts)"] k s
    by (simp add: tool_item_conversation)
  then have "starts_block (drop ?k items)" using k by (simp add: Cons_nth_drop_Suc [symmetric])
  then show ?thesis
    using well_paired_prefix [of "take ?k items" "drop ?k items"]
      well_paired_suffix [of "take ?k items" "drop ?k items"] assms(3) by simp
qed

lemma select_keeps_pairs_witness:
  "well_paired [user_msg ''a''] \<and> well_paired [assistant_tool_calls
     [\<lparr>call_id = ''c'', call_name = ''f'', arguments = ''''\<rparr>], tool_result ''c'' ''r'']"
proof -
  let ?a = "assistant_tool_calls [\<lparr>call_id = ''c'', call_name = ''f'', arguments = ''''\<rparr>]"
  let ?items = "[user_msg ''a'', ?a, tool_result ''c'' ''r'']"
  have "select_turns_to_compact conversation_ops [40, 30, 20] ?items 50 5 =
      Some \<lparr>split_idx = 1, tokens_to_compact = 40\<rparr>"
    by (simp add: select_turns_to_compact_def Let_def snap_to_safe_boundary_def tool_item_conversation
        user_msg_def user_text_def assistant_tool_calls_def sat_add_def)
  moreover have "well_paired (user_msg ''a'' # [] @ ?a # [tool_result ''c'' ''r''] @ [])"
    by (intro paired_block paired_nil)
      (simp_all add: assistant_tool_calls_def tool_result_def owner_ids_def call_ids_def user_msg_def user_text_def)
  ultimately show ?thesis using select_keeps_pairs [of "[40, 30, 20]" ?items 50 5] by simp
qed

end
