(* ===== verification/HistoryFilter.thy ===== *)
theory HistoryFilter
  imports CompactionItem
begin

section \<open>Filtering and user queries of history compaction\<close>

text \<open>
  Models \<open>hystersis-compaction/src/history/filter.rs\<close>: which turns go to the summarizer, the split
  of an earlier summary into its user-queries blocks and the rest, and the preamble that carries the
  user's queries to the next summary.  The item type is a parameter with its operations \<open>ops\<close>; the
  tags are ASCII, so that the code's byte slices always cut at character boundaries.
\<close>

definition keep_turn_for_basic_compaction :: "('t, 'z) item_ops_scheme \<Rightarrow> 't \<Rightarrow> bool" where
  "keep_turn_for_basic_compaction ops turn =
     (case item_role ops turn of CSystem \<Rightarrow> False | CDeveloper \<Rightarrow> item_summary ops turn | _ \<Rightarrow> True)"

definition filter_turns_for_basic :: "('t, 'z) item_ops_scheme \<Rightarrow> 't list \<Rightarrow> 't list" where
  "filter_turns_for_basic ops turns = filter (keep_turn_for_basic_compaction ops) turns"

definition inter_turn :: "('t, 'z) builder_ops_scheme \<Rightarrow> 't \<Rightarrow> 't option" where
  "inter_turn ops turn =
     (case item_role ops turn of
        CTool \<Rightarrow> None
      | CSystem \<Rightarrow> None
      | CDeveloper \<Rightarrow> if item_summary ops turn then Some turn else None
      | CUser \<Rightarrow> Some turn
      | CAssistant \<Rightarrow> strip_tool_content ops turn)"

definition filter_turns_for_inter_compaction :: "('t, 'z) builder_ops_scheme \<Rightarrow> 't list \<Rightarrow> 't list" where
  "filter_turns_for_inter_compaction ops turns = List.map_filter (inter_turn ops) turns"

subsection \<open>Earlier summaries\<close>

definition queries_start :: rstr where
  "queries_start = ''<hystersis_user_queries>''"

definition queries_end :: rstr where
  "queries_end = ''</hystersis_user_queries>''"

text \<open>A piece of the rest goes on a line of its own, when it is not empty.\<close>

definition push_line :: "rstr \<Rightarrow> rstr \<Rightarrow> rstr" where
  "push_line rest s = (if s = '''' then rest else if rest = '''' then s else rest @ nl @ s)"

text \<open>The loop; its first argument is the text from the cursor on.\<close>

function split_loop :: "rstr \<Rightarrow> rstr list \<Rightarrow> rstr \<Rightarrow> rstr list \<times> rstr" where
  "split_loop text user_sections rest =
     (case str_find queries_start text of
        None \<Rightarrow> (user_sections, push_line rest (trim text))
      | Some start \<Rightarrow>
          (case str_find queries_end (drop start text) of
             None \<Rightarrow> (user_sections, push_line rest (trim text))
           | Some e \<Rightarrow>
               let n = e + length queries_end
               in split_loop (drop (start + n) text) (user_sections @ [take n (drop start text)])
                    (push_line rest (trim (take start text)))))"
  by pat_completeness auto
termination
proof (relation "measure (\<lambda>(text, _). length text)", goal_cases)
  case (2 s user_sections rest start e n)
  then have "start + n \<le> length s" and "0 < n"
    using str_find_bound [OF 2(1)] str_find_bound [OF 2(2)] by (simp_all add: queries_end_def)
  then show ?case by simp
qed simp

declare split_loop.simps [simp del]

definition split_prior_compaction_text :: "rstr \<Rightarrow> rstr option \<times> rstr" where
  "split_prior_compaction_text text =
     (let (user_sections, rest) = split_loop text [] ''''
      in if user_sections = [] then (None, text) else (Some (join nl user_sections), rest))"

record 't separated_history_turns =
  turns_for_llm :: "'t list"
  prior_user_queries :: "rstr option"
  has_prior_compaction :: bool

definition append_queries :: "rstr option \<Rightarrow> rstr option \<Rightarrow> rstr option" where
  "append_queries prior user_section =
     (case user_section of
        None \<Rightarrow> prior
      | Some s \<Rightarrow> (case prior of Some existing \<Rightarrow> Some (existing @ nl @ s) | None \<Rightarrow> Some s))"

definition txt_or_empty :: "('t, 'z) item_ops_scheme \<Rightarrow> 't \<Rightarrow> rstr" where
  "txt_or_empty ops turn = (case item_txt ops turn of Some t \<Rightarrow> t | None \<Rightarrow> '''')"

definition separate_turn ::
  "('t, 'z) builder_ops_scheme \<Rightarrow> 't separated_history_turns \<Rightarrow> 't \<Rightarrow> 't separated_history_turns" where
  "separate_turn ops acc turn =
     (if item_summary ops turn then
        (let (user_section, rest) = split_prior_compaction_text (txt_or_empty ops turn)
         in \<lparr>turns_for_llm = (if rest = '''' then turns_for_llm acc
                             else turns_for_llm acc @ [summary_item ops rest]),
             prior_user_queries = append_queries (prior_user_queries acc) user_section,
             has_prior_compaction = True\<rparr>)
      else acc\<lparr>turns_for_llm := turns_for_llm acc @ [turn]\<rparr>)"

definition separate_prior_user_queries ::
  "('t, 'z) builder_ops_scheme \<Rightarrow> 't list \<Rightarrow> 't separated_history_turns" where
  "separate_prior_user_queries ops turns =
     foldl (separate_turn ops)
       \<lparr>turns_for_llm = [], prior_user_queries = None, has_prior_compaction = False\<rparr> turns"

definition extract_prior_user_queries :: "('t, 'z) builder_ops_scheme \<Rightarrow> 't list \<Rightarrow> rstr option" where
  "extract_prior_user_queries ops turns = prior_user_queries (separate_prior_user_queries ops turns)"

subsection \<open>The queries of this part of the history\<close>

definition truncate_middle :: "rstr \<Rightarrow> nat \<Rightarrow> rstr option" where
  "truncate_middle msg max_chars =
     (if char_count msg \<le> max_chars then None
      else
        (let front_len = max_chars div 2;
             back_len = max_chars - front_len
         in Some (take_chars front_len msg @ ''...[truncated]...'' @
                  skip_chars (char_count msg - back_len) msg)))"

definition file_line :: "compaction_file_ref \<Rightarrow> rstr" where
  "file_line f = ''<hystersis_file id=\"'' @ file_id f @ ''\" name=\"'' @ file_name f @ ''\" />'' @ nl"

definition query_element ::
  "('t, 'z) item_ops_scheme \<Rightarrow> nat \<Rightarrow> 't \<Rightarrow> rstr" where
  "query_element ops threshold turn =
     (let text = txt_or_empty ops turn;
          attachments = item_files ops turn
      in ''<hystersis_query>'' @
         (case truncate_middle text threshold of Some truncated \<Rightarrow> truncated | None \<Rightarrow> text) @
         (if attachments = [] then '''' else nl @ concat (map file_line attachments)) @
         ''</hystersis_query>'' @ nl)"

definition emits_query :: "('t, 'z) item_ops_scheme \<Rightarrow> 't \<Rightarrow> bool" where
  "emits_query ops turn \<longleftrightarrow>
     item_role ops turn = CUser \<and> \<not> (txt_or_empty ops turn = '''' \<and> item_files ops turn = [])"

definition extract_user_queries_from_turns ::
  "('t, 'z) item_ops_scheme \<Rightarrow> 't list \<Rightarrow> u32 \<Rightarrow> rstr option" where
  "extract_user_queries_from_turns ops turns user_truncate_chars =
     (let emitted = filter (emits_query ops) turns
      in if emitted = [] then None
         else Some (queries_start @ nl @
                    concat (map (query_element ops (unat user_truncate_chars)) emitted) @ queries_end))"

definition assemble_user_queries_preamble :: "rstr option \<Rightarrow> rstr option \<Rightarrow> rstr" where
  "assemble_user_queries_preamble prior current =
     (case prior of Some p \<Rightarrow> p @ nl @ nl | None \<Rightarrow> '''') @
     (case current of Some c \<Rightarrow> c @ nl @ nl | None \<Rightarrow> '''')"

definition build_user_queries_preamble ::
  "('t, 'z) builder_ops_scheme \<Rightarrow> 't list \<Rightarrow> rstr option \<Rightarrow> rstr" where
  "build_user_queries_preamble ops turns current_user_queries =
     assemble_user_queries_preamble (extract_prior_user_queries ops turns) current_user_queries"

definition wrap_chunk_analysis :: "nat \<Rightarrow> rstr \<Rightarrow> rstr" where
  "wrap_chunk_analysis index thinking =
     (let trimmed = trim thinking
      in if trimmed = '''' then ''''
         else ''<chunk_analysis index=\"'' @ show_nat index @ ''\">'' @ nl @ trimmed @ nl @
              ''</chunk_analysis>'' @ nl @ nl)"

section \<open>Occurrences in concatenations\<close>

lemma contains_step: "contains (x # xs) p \<longleftrightarrow> starts_with (x # xs) p \<or> contains xs p"
  by (auto simp: contains_def)

lemma starts_with_longer:
  assumes "starts_with (a @ t) p" and "\<not> starts_with a p"
  shows "length a < length p" and "take (length a) p = a" and "take (length p - length a) t = drop (length a) p"
proof -
  from assms(1) obtain r where r: "a @ t = p @ r" by (elim starts_with_iff [THEN iffD1, THEN exE])
  show l: "length a < length p"
  proof (rule ccontr)
    assume "\<not> length a < length p"
    then have "take (length p) a = p" using r by (simp add: append_eq_append_conv_if split: if_splits)
    then have "a = p @ drop (length p) a" by (metis append_take_drop_id)
    then show False using assms(2) by (metis starts_with_append)
  qed
  show a: "take (length a) p = a" using r l by (simp add: append_eq_append_conv_if)
  have "a @ t = a @ (drop (length a) p @ r)" using r a by (metis append.assoc append_take_drop_id)
  then show "take (length p - length a) t = drop (length a) p" by simp
qed

lemma no_straddle:
  assumes "c \<notin> set (tl p)" and "a \<noteq> []" and "starts_with (a @ c # b) p"
  shows "starts_with a p"
proof (rule ccontr)
  assume n: "\<not> starts_with a p"
  note s = starts_with_longer [OF assms(3) n]
  have "drop (length a) p = c # take (length p - length a - 1) b"
    using s(1,3) by (simp add: take_Cons' split: if_splits)
  then have "c \<in> set (drop (length a) p)" by simp
  moreover have "set (drop (length a) p) \<subseteq> set (tl p)"
    using assms(2) by (cases a; cases p) (auto dest: in_set_dropD)
  ultimately show False using assms(1) by blast
qed

lemma contains_before:
  "c \<notin> set (tl p) \<Longrightarrow> contains (a @ c # b) p \<Longrightarrow> contains a p \<or> contains (c # b) p"
proof (induction a)
  case (Cons x a)
  then show ?case using no_straddle [of c p "x # a" b] by (auto simp: contains_step simp del: str_find.simps)
qed simp

lemma contains_around:
  assumes "c \<notin> set p" and "p \<noteq> []" and "contains (a @ c # b) p"
  shows "contains a p \<or> contains b p"
proof -
  have "c \<notin> set (tl p)" using assms(1,2) by (cases p) auto
  moreover have "\<not> starts_with (c # b) p" using assms(1,2) by (cases p) (auto simp: starts_with_def)
  ultimately show ?thesis using contains_before [of c p a b] assms(3) by (auto simp: contains_step)
qed

lemma str_find_extend: "str_find p s = Some i \<Longrightarrow> str_find p (s @ t) = Some i"
proof (induction s arbitrary: i)
  case Nil
  then show ?case by (cases t) (auto simp: starts_with_def split: if_splits)
next
  case (Cons c cs)
  show ?case
  proof (cases "starts_with (c # cs) p")
    case True
    then have "starts_with ((c # cs) @ t) p" by (metis append.assoc starts_with_iff)
    then show ?thesis using True Cons.prems by simp
  next
    case False
    then obtain j where j: "str_find p cs = Some j" "i = Suc j" using Cons.prems by auto
    then have "length p \<le> length (c # cs)" using str_find_bound by fastforce
    then have "\<not> starts_with ((c # cs) @ t) p"
      using starts_with_longer(1) [of "c # cs" t p] False by auto
    then show ?thesis using Cons.IH j by simp
  qed
qed

lemma str_find_own:
  assumes "hd p \<notin> set (tl p)" and "p \<noteq> []"
  shows "\<not> contains a p \<Longrightarrow> str_find p (a @ p @ t) = Some (length a)"
proof (induction a)
  case Nil
  have "starts_with (p @ t) p" by simp
  then show ?case using assms(2) by (cases "p @ t") auto
next
  case (Cons x a)
  obtain q where p: "p = hd p # q" using assms(2) by (cases p) auto
  have "\<not> starts_with ((x # a) @ hd p # (q @ t)) p"
    using no_straddle [of "hd p" p "x # a" "q @ t"] assms(1) Cons.prems by (auto simp: contains_step)
  moreover have "(x # a) @ hd p # (q @ t) = x # a @ p @ t" by (metis p append_Cons)
  ultimately have "\<not> starts_with (x # a @ p @ t) p" by metis
  then show ?case using Cons by (simp add: contains_step)
qed

lemma str_find_first: "str_find p (a @ p @ t) = Some i \<Longrightarrow> i \<le> length a"
proof (induction a arbitrary: i)
  case Nil
  have "starts_with (p @ t) p" by simp
  then show ?case using Nil by (cases "p @ t") (auto split: if_splits)
qed (auto split: if_splits)

lemma str_find_after:
  assumes "c \<notin> set p" and "p \<noteq> []"
  shows "\<not> contains a p \<Longrightarrow> str_find p (a @ c # b) = map_option (\<lambda>i. i + Suc (length a)) (str_find p b)"
proof (induction a)
  case Nil
  have "\<not> starts_with (c # b) p" using assms by (cases p) (auto simp: starts_with_def)
  then show ?case by simp
next
  case (Cons x a)
  have "c \<notin> set (tl p)" using assms by (cases p) auto
  then have "\<not> starts_with (x # a @ c # b) p"
    using no_straddle [of c p "x # a" b] Cons.prems by (auto simp: contains_step)
  then show ?case using Cons by (simp add: contains_step option.map_comp comp_def)
qed

section \<open>The rest of a summary holds no user queries\<close>

lemma queries_tags [simp]:
  "queries_start \<noteq> []" "queries_end \<noteq> []" "CHR 0x0A \<notin> set queries_start" "CHR 0x0A \<notin> set queries_end"
  "CHR 0x0A \<notin> set (tl queries_start)" "CHR 0x0A \<notin> set (tl queries_end)"
  "hd queries_start \<notin> set (tl queries_start)" "hd queries_end \<notin> set (tl queries_end)"
  "CHR ''<'' \<notin> set (tl queries_end)" "CHR ''.'' \<notin> set queries_end"
  by (simp_all add: queries_start_def queries_end_def)

text \<open>A complete block: an opening tag with a closing tag after it.\<close>

definition has_block :: "rstr \<Rightarrow> bool" where
  "has_block s \<longleftrightarrow>
     (case str_find queries_start s of
        None \<Rightarrow> False
      | Some i \<Rightarrow> contains (drop i s) queries_end)"

lemma end_after_start: "contains (queries_start @ t) queries_end \<longleftrightarrow> contains t queries_end"
  by (simp add: contains_step queries_start_def) (simp add: starts_with_def queries_end_def)

lemma has_block_iff: "has_block s \<longleftrightarrow> (\<exists>a b. s = a @ queries_start @ b \<and> contains b queries_end)"
proof
  assume h: "has_block s"
  then obtain i where i: "str_find queries_start s = Some i" and c: "contains (drop i s) queries_end"
    by (auto simp: has_block_def split: option.splits)
  from str_find_Some [OF i] obtain t where t: "s = take i s @ queries_start @ t" and "i \<le> length s" by auto
  then have "drop i s = queries_start @ t" by (metis append_eq_conv_conj length_take min.absorb2)
  then show "\<exists>a b. s = a @ queries_start @ b \<and> contains b queries_end"
    using t c end_after_start by metis
next
  assume "\<exists>a b. s = a @ queries_start @ b \<and> contains b queries_end"
  then obtain a b where s: "s = a @ queries_start @ b" and b: "contains b queries_end" by auto
  then obtain i where i: "str_find queries_start s = Some i"
    using str_find_None by (cases "str_find queries_start s") blast+
  then have "i \<le> length a" using str_find_first s by metis
  then have "drop i s = drop i a @ queries_start @ b @ []" by (simp add: s)
  then have "contains (drop i s) queries_end"
    using b contains_substring [of b queries_end "drop i a @ queries_start" "[]"] by simp
  then show "has_block s" using i by (simp add: has_block_def)
qed

lemma trim_infix: "\<exists>x y. s = x @ trim s @ y"
proof -
  let ?d = "dropWhile is_whitespace (chars_of s)"
  obtain ys where d: "?d = drop_end is_whitespace ?d @ ys" using drop_end_prefix by metis
  have "s = concat (takeWhile is_whitespace (chars_of s)) @ trim s @ concat ys"
    unfolding trim_def by (metis concat_append concat_chars_of d takeWhile_dropWhile_id)
  then show ?thesis by blast
qed

lemma has_block_trim: "has_block (trim s) \<Longrightarrow> has_block s"
proof -
  assume h: "has_block (trim s)"
  obtain x y where s: "s = x @ trim s @ y" using trim_infix by metis
  obtain a b where t: "trim s = a @ queries_start @ b" and b: "contains b queries_end"
    using h has_block_iff by blast
  have "s = (x @ a) @ queries_start @ (b @ y)" using s t by (metis append.assoc)
  moreover have "contains (b @ y) queries_end" using contains_substring [OF b, of "[]" y] by simp
  ultimately show ?thesis using has_block_iff by blast
qed

lemma push_line_no_block:
  assumes "\<not> contains rest queries_start" and "\<not> has_block s"
  shows "\<not> has_block (push_line rest s)"
proof (cases "s = '''' \<or> rest = ''''")
  case True
  then show ?thesis using assms by (auto simp: push_line_def has_block_def contains_def)
next
  case False
  have "str_find queries_start (rest @ CHR 0x0A # s) =
      map_option (\<lambda>i. i + Suc (length rest)) (str_find queries_start s)"
    by (rule str_find_after) (use assms(1) in simp_all)
  then show ?thesis using False assms(2)
    by (auto simp: push_line_def nl_def has_block_def split: option.splits)
qed

lemma push_line_no_start:
  "\<not> contains rest queries_start \<Longrightarrow> \<not> contains s queries_start \<Longrightarrow> \<not> contains (push_line rest s) queries_start"
  using contains_around [of "CHR 0x0A" queries_start rest s] by (auto simp: push_line_def nl_def)

lemma str_find_take_none: "str_find p s = Some i \<Longrightarrow> hd p \<notin> set (tl p) \<Longrightarrow> p \<noteq> [] \<Longrightarrow> \<not> contains (take i s) p"
proof
  assume i: "str_find p s = Some i" and "contains (take i s) p" and "p \<noteq> []"
  then obtain j where "str_find p (take i s) = Some j" by (auto simp: contains_def)
  moreover from this have "str_find p s = Some j" using str_find_extend [of p "take i s" j "drop i s"] by simp
  ultimately show False using i str_find_bound [of p "take i s" j] \<open>p \<noteq> []\<close> by simp
qed

lemma split_loop_rest_clean:
  "\<not> contains rest queries_start \<Longrightarrow> \<not> has_block (snd (split_loop s secs rest))"
proof (induction s secs rest rule: split_loop.induct)
  case (1 s secs rest)
  show ?case
  proof (cases "str_find queries_start s")
    case None
    then have "\<not> has_block (trim s)" using has_block_trim [of s] by (auto simp: has_block_def)
    then show ?thesis using push_line_no_block [OF 1(2)] None by (subst split_loop.simps) simp
  next
    case (Some i)
    show ?thesis
    proof (cases "str_find queries_end (drop i s)")
      case None
      then have "\<not> has_block (trim s)"
        using has_block_trim [of s] Some by (auto simp: has_block_def contains_def)
      then show ?thesis using push_line_no_block [OF 1(2)] None Some by (subst split_loop.simps) simp
    next
      case e: (Some e)
      have "\<not> contains (trim (take i s)) queries_start"
        using contains_trim str_find_take_none [OF Some] by auto
      then have "\<not> contains (push_line rest (trim (take i s))) queries_start"
        using 1(2) by (rule push_line_no_start [rotated])
      then show ?thesis using 1(1) [OF Some e refl] Some e by (subst split_loop.simps) (simp add: Let_def)
    qed
  qed
qed

lemma split_loop_no_block: "\<not> has_block s \<Longrightarrow> split_loop s secs rest = (secs, push_line rest (trim s))"
  by (subst split_loop.simps) (auto simp: has_block_def contains_def split: option.splits)

text \<open>
  Splitting an earlier summary takes every block of user queries out of it: splitting the rest
  again finds none and changes nothing.  A block is never summarized again.
\<close>

theorem split_rest_has_no_queries:
  assumes "split_prior_compaction_text s = (Some user_queries, rest)"
  shows "split_prior_compaction_text rest = (None, rest)"
proof -
  have "snd (split_loop s [] '''') = rest"
    using assms by (auto simp: split_prior_compaction_text_def split: prod.splits if_splits)
  then have "\<not> has_block rest" using split_loop_rest_clean [of "''''" s "[]"] by (auto simp: contains_def)
  then show ?thesis by (simp add: split_prior_compaction_text_def split_loop_no_block)
qed

section \<open>User queries survive any number of compactions\<close>

text \<open>A block of user queries as it is written: one closing tag, at the end.\<close>

definition queries_block :: "rstr \<Rightarrow> bool" where
  "queries_block b \<longleftrightarrow>
     starts_with b queries_start \<and> str_find queries_end b = Some (length b - length queries_end)"

definition gap_before :: "rstr \<Rightarrow> bool" where
  "gap_before g \<longleftrightarrow> g = '''' \<or> g = nl \<or> g = nl @ nl"

lemma gap_trim: "gap_before g \<Longrightarrow> trim g = ''''"
  by (auto simp: gap_before_def nl_def trim_def is_cont_def drop_end_def is_whitespace_def)

lemma str_find_gap:
  assumes "gap_before g"
  shows "str_find queries_start (g @ s) = map_option (\<lambda>i. i + length g) (str_find queries_start s)"
proof -
  have one: "str_find queries_start (CHR 0x0A # t) = map_option Suc (str_find queries_start t)" for t
    by (simp add: starts_with_def queries_start_def)
  show ?thesis using assms
    by (auto simp: gap_before_def nl_def one option.map_comp comp_def option.map_ident simp del: str_find.simps)
qed

lemma split_loop_block:
  assumes "gap_before g" and "queries_block b"
  shows "split_loop (g @ b @ t) secs rest = split_loop t (secs @ [b]) rest"
proof -
  have b: "starts_with b queries_start" and e: "str_find queries_end b = Some (length b - length queries_end)"
    using assms(2) by (simp_all add: queries_block_def)
  have le: "length b - length queries_end + length queries_end = length b" using str_find_bound [OF e] by simp
  obtain r where r: "b = queries_start @ r" using b by (auto simp: starts_with_iff)
  have "str_find queries_start b = Some 0"
    using b r by (cases b) (simp_all add: queries_start_def)
  then have "str_find queries_start (b @ t) = Some 0" by (rule str_find_extend)
  then have s: "str_find queries_start (g @ b @ t) = Some (length g)" by (simp add: str_find_gap [OF assms(1)])
  have f: "str_find queries_end (drop (length g) (g @ b @ t)) = Some (length b - length queries_end)"
    using str_find_extend [OF e] by simp
  show ?thesis
    by (subst split_loop.simps) (simp add: s f [simplified] Let_def le gap_trim [OF assms(1)] push_line_def)
qed

lemma split_loop_blocks:
  "bs \<noteq> [] \<Longrightarrow> gap_before g \<Longrightarrow> \<forall>b \<in> set bs. queries_block b \<Longrightarrow>
   split_loop (g @ join nl bs @ t) secs rest = split_loop t (secs @ bs) rest"
proof (induction bs arbitrary: g secs)
  case (Cons b bs)
  show ?case
  proof (cases "bs = []")
    case True
    then show ?thesis using Cons.prems split_loop_block by simp
  next
    case False
    have "split_loop (g @ b @ (nl @ join nl bs @ t)) secs rest = split_loop (nl @ join nl bs @ t) (secs @ [b]) rest"
      using Cons.prems by (intro split_loop_block) simp_all
    also have "\<dots> = split_loop t ((secs @ [b]) @ bs) rest"
      using Cons.prems False by (intro Cons.IH) (simp_all add: gap_before_def)
    finally show ?thesis using False by (simp add: join_Cons)
  qed
qed simp

lemma trim_gap:
  assumes "s = '''' \<or> \<not> is_cont (hd s)" and "gap_before g"
  shows "trim (g @ s) = trim s"
proof -
  have one: "chars_of (CHR 0x0A # t) = [CHR 0x0A] # chars_of t" if "t = '''' \<or> \<not> is_cont (hd t)" for t
    using that by (cases t) (simp_all add: is_cont_def)
  have n: "\<not> is_cont (CHR 0x0A)" by (simp add: is_cont_def)
  have w: "is_whitespace [CHR 0x0A]" by (simp add: is_whitespace_def)
  show ?thesis using assms n by (auto simp: gap_before_def nl_def trim_def one w simp del: chars_of.simps)
qed

lemma split_blocks:
  assumes "bs \<noteq> []" and "\<forall>b \<in> set bs. queries_block b" and "\<not> contains s queries_start"
    and "s = '''' \<or> \<not> is_cont (hd s)"
  shows "split_loop (nl @ nl @ s) bs '''' = (bs, trim s)"
proof -
  have "str_find queries_start (nl @ nl @ s) = None"
    using str_find_gap [of "nl @ nl" s] assms(3) by (simp add: gap_before_def contains_def)
  moreover have "trim (nl @ nl @ s) = trim s" using trim_gap [OF assms(4), of "nl @ nl"] by (simp add: gap_before_def)
  ultimately show ?thesis by (subst split_loop.simps) (simp add: push_line_def)
qed

subsection \<open>The block written for a list of turns\<close>

abbreviation unclosed :: "rstr \<Rightarrow> bool" where
  "unclosed s \<equiv> \<not> contains s queries_end"

lemma unclosed_nl [intro]: "unclosed a \<Longrightarrow> unclosed b \<Longrightarrow> unclosed (a @ CHR 0x0A # b)"
  using contains_around [of "CHR 0x0A" queries_end a b] by auto

lemma unclosed_lt: "unclosed a \<Longrightarrow> unclosed (CHR ''<'' # b) \<Longrightarrow> unclosed (a @ CHR ''<'' # b)"
  using contains_before [of "CHR ''<''" queries_end a b] by auto

lemma unclosed_infix: "unclosed (a @ b @ c) \<Longrightarrow> unclosed b"
  using contains_substring by blast

lemma unclosed_truncated:
  assumes "unclosed msg" and "truncate_middle msg n = Some t"
  shows "unclosed t"
proof -
  obtain k m where t: "t = take_chars k msg @ ''...[truncated]...'' @ skip_chars m msg"
    using assms(2) by (auto simp: truncate_middle_def Let_def split: if_splits)
  have "unclosed (take_chars k msg)"
    using assms(1) take_skip_chars [of k msg] unclosed_infix [of "[]" "take_chars k msg" "skip_chars k msg"] by simp
  moreover have "unclosed (skip_chars m msg)"
    using assms(1) take_skip_chars [of m msg] unclosed_infix [of "take_chars m msg" "skip_chars m msg" "[]"] by simp
  moreover have "unclosed (''..[truncated]...'' @ skip_chars m msg)" if "unclosed (skip_chars m msg)"
    using that by (simp add: contains_step) (simp add: starts_with_def queries_end_def)
  ultimately show ?thesis
    using contains_around [of "CHR ''.''" queries_end "take_chars k msg" "''..[truncated]...'' @ skip_chars m msg"] t
    by auto
qed

lemma unclosed_file_line:
  assumes "unclosed (file_id f)" and "unclosed (file_name f)" and "unclosed s"
  shows "unclosed (file_line f @ s)"
proof -
  have q: "unclosed (a @ CHR 0x22 # b)" if "unclosed a" "unclosed b" for a b
    using contains_around [of "CHR 0x22" queries_end a b] that by (auto simp: queries_end_def)
  have "unclosed ('' />'' @ nl @ s)" using assms(3) unclosed_nl [of "'' />''" s]
    by (simp add: nl_def) (simp add: contains_def queries_end_def starts_with_def)
  then have 1: "unclosed (file_name f @ CHR 0x22 # '' />'' @ nl @ s)" by (rule q [OF assms(2)])
  have "unclosed '' name=''" by (simp add: contains_def queries_end_def starts_with_def)
  then have "unclosed ('' name='' @ CHR 0x22 # file_name f @ CHR 0x22 # '' />'' @ nl @ s)" using 1 by (rule q)
  then have 2: "unclosed (file_id f @ CHR 0x22 # '' name='' @ CHR 0x22 # file_name f @ CHR 0x22 # '' />'' @ nl @ s)"
    by (rule q [OF assms(1)])
  have "unclosed ''<hystersis_file id=''" by (simp add: contains_def queries_end_def starts_with_def)
  then have "unclosed (''<hystersis_file id='' @ CHR 0x22 # file_id f @ CHR 0x22 # '' name='' @ CHR 0x22 #
      file_name f @ CHR 0x22 # '' />'' @ nl @ s)" using 2 by (rule q)
  then show ?thesis by (simp add: file_line_def)
qed

lemma unclosed_file_lines:
  "\<forall>f \<in> set fs. unclosed (file_id f) \<and> unclosed (file_name f) \<Longrightarrow> unclosed s \<Longrightarrow>
   unclosed (concat (map file_line fs) @ s)"
  by (induction fs) (simp_all add: unclosed_file_line)

lemma unclosed_element:
  assumes "unclosed (txt_or_empty ops turn)" and "unclosed s"
    and "\<forall>f \<in> set (item_files ops turn). unclosed (file_id f) \<and> unclosed (file_name f)"
  shows "unclosed (query_element ops n turn @ s)"
proof -
  define t where "t = (case truncate_middle (txt_or_empty ops turn) n of Some t \<Rightarrow> t | None \<Rightarrow> txt_or_empty ops turn)"
  have t: "unclosed t" using assms(1) unclosed_truncated unfolding t_def by (auto split: option.splits)
  have close: "unclosed (''</hystersis_query>'' @ nl @ s)"
    using unclosed_nl [of "''</hystersis_query>''" s] assms(2)
    by (simp add: nl_def) (simp add: contains_def queries_end_def starts_with_def)
  have tail: "unclosed (t @ (if item_files ops turn = [] then '''' else nl @ concat (map file_line (item_files ops turn))) @
      ''</hystersis_query>'' @ nl @ s)"
  proof (cases "item_files ops turn = []")
    case True
    then show ?thesis using unclosed_lt [OF t, of "''/hystersis_query>'' @ nl @ s"] close by simp
  next
    case False
    then show ?thesis using unclosed_nl [OF t unclosed_file_lines [OF assms(3) close]] by (simp add: nl_def)
  qed
  have open_tag: "unclosed (''<hystersis_query>'' @ r)" if "unclosed r" for r
    using that by (simp add: contains_step) (simp add: starts_with_def queries_end_def)
  show ?thesis using open_tag [OF tail] by (simp add: query_element_def Let_def t_def)
qed

definition closes_nothing :: "('t, 'z) item_ops_scheme \<Rightarrow> 't \<Rightarrow> bool" where
  "closes_nothing ops turn \<longleftrightarrow>
     unclosed (txt_or_empty ops turn) \<and>
     (\<forall>f \<in> set (item_files ops turn). unclosed (file_id f) \<and> unclosed (file_name f))"

lemma extracted_block:
  assumes "extract_user_queries_from_turns ops turns n = Some b" and "\<forall>t \<in> set turns. closes_nothing ops t"
  shows "queries_block b"
proof -
  define es where "es = concat (map (query_element ops (unat n)) (filter (emits_query ops) turns))"
  have b: "b = queries_start @ nl @ es @ queries_end"
    using assms(1) by (simp add: extract_user_queries_from_turns_def Let_def es_def split: if_splits)
  have "unclosed (concat (map (query_element ops (unat n)) ts))" if "set ts \<subseteq> set turns" for ts
    using that
  proof (induction ts)
    case (Cons t ts)
    have "closes_nothing ops t" using Cons.prems assms(2) by simp
    then show ?case using Cons by (simp add: unclosed_element closes_nothing_def)
  qed (simp add: contains_def)
  then have "unclosed es" by (simp add: es_def)
  then have "unclosed (queries_start @ nl @ es)"
    using unclosed_nl [of queries_start es] by (simp add: nl_def) (simp add: contains_def queries_start_def queries_end_def starts_with_def)
  then have "str_find queries_end ((queries_start @ nl @ es) @ queries_end @ []) = Some (length (queries_start @ nl @ es))"
    by (intro str_find_own) simp_all
  then show ?thesis by (simp add: queries_block_def b)
qed

text \<open>
  User queries survive a compaction.  The summary text is the preamble, made of the blocks of
  earlier compactions and the block of the turns compacted now, followed by the model's summary.
  Splitting it at the next compaction gives back all blocks, in order and verbatim, and the trimmed
  summary alone, when no turn contains the closing tag and the summary no opening one.
\<close>

theorem preamble_roundtrip:
  assumes "extract_user_queries_from_turns ops turns n = Some current"
    and "\<forall>t \<in> set turns. closes_nothing ops t"
    and "\<forall>b \<in> set prior. queries_block b"
    and "\<not> contains s queries_start" and "s = '''' \<or> \<not> is_cont (hd s)"
  shows "split_prior_compaction_text
           (assemble_user_queries_preamble (if prior = [] then None else Some (join nl prior)) (Some current) @ s) =
         (Some (join nl (prior @ [current])), trim s)"
proof -
  have cur: "queries_block current" by (rule extracted_block [OF assms(1,2)])
  have last: "split_loop (g @ current @ nl @ nl @ s) bs '''' = (bs @ [current], trim s)"
    if "gap_before g" and "\<forall>b \<in> set bs. queries_block b" for g bs
    using split_loop_block [OF that(1) cur] split_blocks [of "bs @ [current]" s] assms(4,5) that(2) cur by simp
  show ?thesis
  proof (cases "prior = []")
    case True
    then show ?thesis using last [of "''''" "[]"]
      by (simp add: split_prior_compaction_text_def assemble_user_queries_preamble_def gap_before_def)
  next
    case False
    have "split_loop ('''' @ join nl prior @ nl @ nl @ current @ nl @ nl @ s) [] '''' = (prior @ [current], trim s)"
      using split_loop_blocks [OF False, of "''''" "nl @ nl @ current @ nl @ nl @ s" "[]" "''''"]
        last [of "nl @ nl" prior] assms(3) by (simp add: gap_before_def)
    then show ?thesis using False
      by (simp add: split_prior_compaction_text_def assemble_user_queries_preamble_def)
  qed
qed

lemma split_rest_has_no_queries_witness:
  "split_prior_compaction_text ''S1'' = (None, ''S1'')"
proof -
  have "split_prior_compaction_text (queries_start @ ''q'' @ queries_end @ nl @ nl @ ''S1'') =
      (Some (queries_start @ ''q'' @ queries_end), ''S1'')"
    by code_simp
  then show ?thesis by (rule split_rest_has_no_queries)
qed

lemma preamble_roundtrip_witness:
  "\<exists>current. extract_user_queries_from_turns conversation_ops [user_msg ''q2''] 100 = Some current \<and>
     split_prior_compaction_text (assemble_user_queries_preamble
       (Some (queries_start @ ''q1'' @ queries_end)) (Some current) @ '' S '') =
     (Some (queries_start @ ''q1'' @ queries_end @ nl @ current), ''S'')"
proof -
  have "extract_user_queries_from_turns conversation_ops [user_msg ''q2''] 100 =
      Some (queries_start @ nl @ ''<hystersis_query>q2</hystersis_query>'' @ nl @ queries_end)" (is "_ = Some ?c")
    by code_simp
  moreover have "\<forall>t \<in> set [user_msg ''q2'']. closes_nothing conversation_ops t" by code_simp
  moreover have "\<forall>b \<in> set [queries_start @ ''q1'' @ queries_end]. queries_block b" by code_simp
  moreover have "\<not> contains '' S '' queries_start" and "'' S '' = '''' \<or> \<not> is_cont (hd '' S '')"
    and "trim '' S '' = ''S''" by code_simp+
  ultimately show ?thesis
    using preamble_roundtrip [of conversation_ops "[user_msg ''q2'']" 100 ?c "[queries_start @ ''q1'' @ queries_end]" "'' S ''"]
    by simp
qed

end
