(* ===== verification/SummarizerFit.thy ===== *)
theory SummarizerFit
  imports CompactionItem
begin

section \<open>Fitting the input of the summarizer\<close>

text \<open>
  Models \<open>hystersis-compaction/src/intra_compaction/fit.rs\<close>: the ladder that fits the history and
  the steps of a running turn into the token budget of a summarizer.  The token counter of the
  harness is the argument \<open>cnt\<close>, the item type and its operations are arguments as before.
\<close>

datatype fit_rung = Verbatim | HistoryTurnSelected | ToolTruncated | StepTurnsSelected | Emergency

definition rung_as_str :: "fit_rung \<Rightarrow> rstr" where
  "rung_as_str r =
     (case r of
        Verbatim \<Rightarrow> ''verbatim''
      | HistoryTurnSelected \<Rightarrow> ''history_turn_selected''
      | ToolTruncated \<Rightarrow> ''tool_truncated''
      | StepTurnsSelected \<Rightarrow> ''step_turns_selected''
      | Emergency \<Rightarrow> ''emergency'')"

record 't fit_plan =
  llm_turns :: "'t list"
  tokens_raw :: u32
  tokens_fit :: u32
  fit_rung_of :: fit_rung
  items_truncated :: u32
  history_turns_omitted :: u32
  step_turns_omitted :: u32

definition token_counts :: "('t \<Rightarrow> u32) \<Rightarrow> 't list \<Rightarrow> u32 list" where
  "token_counts cnt turns = map cnt turns"

definition sum_tokens :: "('t \<Rightarrow> u32) \<Rightarrow> 't list \<Rightarrow> u32" where
  "sum_tokens cnt turns = foldl sat_add 0 (map cnt turns)"

definition shrink_item_to_token_budget :: "('t, 'z) builder_ops_scheme \<Rightarrow> 't \<Rightarrow> u32 \<Rightarrow> 't" where
  "shrink_item_to_token_budget ops item max_tokens = truncate_payload ops item max_tokens"

definition oversized :: "('t, 'z) builder_ops_scheme \<Rightarrow> ('t \<Rightarrow> u32) \<Rightarrow> u32 \<Rightarrow> 't \<Rightarrow> bool" where
  "oversized ops cnt max_tokens t \<longleftrightarrow> is_tool_item ops t \<and> max_tokens < cnt t"

definition shrink_oversized_tool_results ::
  "('t, 'z) builder_ops_scheme \<Rightarrow> 't list \<Rightarrow> ('t \<Rightarrow> u32) \<Rightarrow> u32 \<Rightarrow> 't list \<times> u32" where
  "shrink_oversized_tool_results ops turns cnt max_tokens =
     (map (\<lambda>t. if oversized ops cnt max_tokens t then shrink_item_to_token_budget ops t max_tokens else t) turns,
      of_nat (length (filter (oversized ops cnt max_tokens) turns)))"

definition keep_recent_under_budget ::
  "('t, 'z) builder_ops_scheme \<Rightarrow> 't list \<Rightarrow> u32 list \<Rightarrow> u32 \<Rightarrow> ('t list \<times> u32) option" where
  "keep_recent_under_budget ops turns counts budget =
     (if turns = [] then Some ([], 0)
      else if budget = 0 then Some ([], of_nat (length turns))
      else if sum_counts counts \<le> budget then Some (turns, 0)
      else
        (case select_turns_to_compact ops counts turns budget 0 of
           None \<Rightarrow> None
         | Some plan \<Rightarrow> Some (drop (split_idx plan) turns, of_nat (split_idx plan))))"

definition plan_ok ::
  "'t list \<Rightarrow> 't list \<Rightarrow> ('t \<Rightarrow> u32) \<Rightarrow> u32 \<Rightarrow> fit_rung \<Rightarrow> u32 \<Rightarrow> u32 \<Rightarrow> u32 \<Rightarrow> 't fit_plan" where
  "plan_ok history steps cnt raw rung truncated history_omitted step_omitted =
     \<lparr>llm_turns = history @ steps, tokens_raw = raw, tokens_fit = sum_tokens cnt (history @ steps),
      fit_rung_of = rung, items_truncated = truncated,
      history_turns_omitted = history_omitted, step_turns_omitted = step_omitted\<rparr>"

text \<open>
  Dropping the oldest turns of one side so that it fits with the tokens of the \<open>other\<close> side, the
  block that the ladder has twice: for the history and, after the tool results, for the steps.
\<close>

definition drop_oldest ::
  "('t, 'z) builder_ops_scheme \<Rightarrow> 't list \<Rightarrow> u32 list \<Rightarrow> u32 \<Rightarrow> u32 \<Rightarrow> 't list \<times> u32 list \<times> u32" where
  "drop_oldest ops turns counts other budget =
     (if other < budget then
        (let side_budget = budget - other
         in if side_budget < sum_counts counts then
              (case keep_recent_under_budget ops turns counts side_budget of
                 Some (keep, omitted) \<Rightarrow> (keep, drop (unat omitted) counts, omitted)
               | None \<Rightarrow> ([], [], of_nat (length turns)))
            else (turns, counts, 0))
      else ([], [], of_nat (length turns)))"

text \<open>The last rung: the newest turn alone, hard-shrunk.\<close>

definition emergency ::
  "('t, 'z) builder_ops_scheme \<Rightarrow> 't list \<Rightarrow> 't list \<Rightarrow> ('t \<Rightarrow> u32) \<Rightarrow> u32 \<Rightarrow> u32 \<Rightarrow> 't list \<Rightarrow> 't list \<Rightarrow>
   u32 \<Rightarrow> u32 \<Rightarrow> u32 \<Rightarrow> 't fit_plan" where
  "emergency ops history steps cnt budget raw hist step hist_omitted step_omitted truncated =
     (let combined = hist @ step;
          (source, history_omitted, step_omitted) =
            (if combined = [] then
               (let (ho, so) = (if steps = [] then (of_nat (length history - 1), 0)
                                else (of_nat (length history), of_nat (length steps - 1)))
                in (history @ steps, ho, so))
             else if step = [] then
               (combined, sat_add hist_omitted (of_nat (length hist - 1)), step_omitted)
             else
               (combined, sat_add hist_omitted (of_nat (length hist)),
                sat_add step_omitted (of_nat (length step - 1))))
      in if source = [] then
           \<lparr>llm_turns = [], tokens_raw = raw, tokens_fit = 0, fit_rung_of = Emergency,
            items_truncated = truncated, history_turns_omitted = history_omitted,
            step_turns_omitted = step_omitted\<rparr>
         else
           (let kept = [shrink_item_to_token_budget ops (last source) budget]
            in \<lparr>llm_turns = kept, tokens_raw = raw, tokens_fit = sum_tokens cnt kept,
                fit_rung_of = Emergency, items_truncated = sat_add truncated 1,
                history_turns_omitted = history_omitted, step_turns_omitted = step_omitted\<rparr>))"

definition fit_turns_for_summarizer ::
  "('t, 'z) builder_ops_scheme \<Rightarrow> 't list \<Rightarrow> 't list \<Rightarrow> ('t \<Rightarrow> u32) \<Rightarrow> u32 \<Rightarrow> 't fit_plan" where
  "fit_turns_for_summarizer ops history steps cnt budget =
     (let hist_counts = token_counts cnt history;
          step_counts = token_counts cnt steps;
          raw = sat_add (sum_counts hist_counts) (sum_counts step_counts)
      in if budget = 0 then
           \<lparr>llm_turns = [], tokens_raw = raw, tokens_fit = 0, fit_rung_of = Emergency,
            items_truncated = 0, history_turns_omitted = of_nat (length history),
            step_turns_omitted = of_nat (length steps)\<rparr>
         else if raw \<le> budget then plan_ok history steps cnt raw Verbatim 0 0 0
         else
           (let (hist, hist_counts, hist_omitted) =
                  drop_oldest ops history hist_counts (sum_counts step_counts) budget
            in if sat_add (sum_counts hist_counts) (sum_counts step_counts) \<le> budget then
                 plan_ok hist steps cnt raw HistoryTurnSelected 0 hist_omitted 0
               else
                 (let (hist, n1) = shrink_oversized_tool_results ops hist cnt budget;
                      (step, n2) = shrink_oversized_tool_results ops steps cnt budget;
                      truncated = sat_add n1 n2;
                      hist_counts = token_counts cnt hist;
                      step_counts = token_counts cnt step
                  in if sat_add (sum_counts hist_counts) (sum_counts step_counts) \<le> budget then
                       plan_ok hist step cnt raw ToolTruncated truncated hist_omitted 0
                     else
                       (let (step, step_counts, step_omitted) =
                              drop_oldest ops step step_counts (sum_counts hist_counts) budget
                        in if sat_add (sum_counts hist_counts) (sum_counts step_counts) \<le> budget \<and>
                              (hist \<noteq> [] \<or> step \<noteq> [])
                           then plan_ok hist step cnt raw StepTurnsSelected truncated hist_omitted step_omitted
                           else emergency ops history steps cnt budget raw hist step
                                  hist_omitted step_omitted truncated))))"

definition truncate_text_to_token_budget :: "rstr \<Rightarrow> u32 \<Rightarrow> rstr" where
  "truncate_text_to_token_budget s max_tokens =
     (let max_bytes = unat (sat_mul (ucast max_tokens :: u64) 4)
      in if length s \<le> max_bytes then s
         else
           (let keep = max_bytes - 64;
                end_pos = floor_boundary s (min keep (length s));
                dropped = length s - end_pos
            in take end_pos s @ nl @ ''[... truncated '' @ show_nat dropped @
               '' bytes to fit the compaction window ...]''))"

section \<open>The ladder accounts for every turn\<close>

lemma sum_tokens_counts: "sum_tokens cnt turns = sum_counts (token_counts cnt turns)"
  by (simp add: sum_tokens_def sum_counts_def token_counts_def)

lemma token_counts_append [simp]: "token_counts cnt (xs @ ys) = token_counts cnt xs @ token_counts cnt ys"
  by (simp add: token_counts_def)

lemma length_token_counts [simp]: "length (token_counts cnt xs) = length xs"
  by (simp add: token_counts_def)

lemma drop_token_counts: "drop n (token_counts cnt xs) = token_counts cnt (drop n xs)"
  by (simp add: token_counts_def drop_map)

lemma unat_length32: "n < 2 ^ 32 \<Longrightarrow> unat (of_nat n :: u32) = n"
  by (simp add: unat_of_nat)

text \<open>Dropping keeps a recent part, counts what it drops and keeps the counts in step.\<close>

lemma keep_recent_suffix:
  assumes "keep_recent_under_budget ops turns (token_counts cnt turns) budget = Some (keep, omitted)"
    and "length turns < 2 ^ 32" and "budget \<noteq> 0"
  shows "keep = drop (unat omitted) turns \<and> unat omitted \<le> length turns"
proof (cases "turns = [] \<or> sum_counts (token_counts cnt turns) \<le> budget")
  case True
  then show ?thesis using assms by (auto simp: keep_recent_under_budget_def split: if_splits)
next
  case False
  then obtain plan where p: "select_turns_to_compact ops (token_counts cnt turns) turns budget 0 = Some plan"
    and k: "keep = drop (split_idx plan) turns" "omitted = of_nat (split_idx plan)"
    using assms(1,3) by (auto simp: keep_recent_under_budget_def split: option.splits)
  have "split_idx plan < length turns" by (rule select_Some(2) [OF p]) simp
  then show ?thesis using k assms(2) by (simp add: unat_length32)
qed

lemma drop_oldest_suffix:
  assumes "drop_oldest ops turns (token_counts cnt turns) other budget = (keep, counts, omitted)"
    and "length turns < 2 ^ 32"
  shows "keep = drop (unat omitted) turns" and "counts = token_counts cnt keep"
    and "unat omitted \<le> length turns"
proof -
  have "keep = drop (unat omitted) turns \<and> counts = token_counts cnt keep \<and> unat omitted \<le> length turns"
  proof (cases "other < budget \<and> budget - other < sum_counts (token_counts cnt turns) \<and>
      keep_recent_under_budget ops turns (token_counts cnt turns) (budget - other) \<noteq> None")
    case True
    then obtain k n where s: "keep_recent_under_budget ops turns (token_counts cnt turns) (budget - other) = Some (k, n)"
      by (cases "keep_recent_under_budget ops turns (token_counts cnt turns) (budget - other)") auto
    have "budget - other \<noteq> 0" using True by auto
    then show ?thesis using keep_recent_suffix [OF s assms(2)] s True assms(1)
      by (auto simp: drop_oldest_def Let_def drop_token_counts)
  next
    case False
    then show ?thesis using assms
      by (auto simp: drop_oldest_def Let_def unat_length32 token_counts_def split: if_splits option.splits)
  qed
  then show "keep = drop (unat omitted) turns" and "counts = token_counts cnt keep"
    and "unat omitted \<le> length turns" by simp_all
qed

definition fitted_turn ::
  "('t, 'z) builder_ops_scheme \<Rightarrow> ('t \<Rightarrow> u32) \<Rightarrow> u32 \<Rightarrow> fit_rung \<Rightarrow> 't \<Rightarrow> 't" where
  "fitted_turn ops cnt budget rung t =
     (if rung = Verbatim \<or> rung = HistoryTurnSelected then t
      else if oversized ops cnt budget t then truncate_payload ops t budget else t)"

lemma fitted_turn_untouched [simp]:
  "map (fitted_turn ops cnt budget Verbatim) ts = ts"
  "map (fitted_turn ops cnt budget HistoryTurnSelected) ts = ts"
  by (simp_all add: fitted_turn_def map_idI)

text \<open>What a plan says of the history and the steps it was made from.\<close>

definition accounts ::
  "('t, 'z) builder_ops_scheme \<Rightarrow> 't list \<Rightarrow> 't list \<Rightarrow> ('t \<Rightarrow> u32) \<Rightarrow> u32 \<Rightarrow> 't fit_plan \<Rightarrow> bool" where
  "accounts ops history steps cnt budget p \<longleftrightarrow>
     length (llm_turns p) + unat (history_turns_omitted p) + unat (step_turns_omitted p) =
       length history + length steps \<and>
     tokens_fit p = sum_tokens cnt (llm_turns p) \<and>
     (fit_rung_of p \<noteq> Emergency \<longrightarrow>
        tokens_fit p \<le> budget \<and>
        llm_turns p =
          map (fitted_turn ops cnt budget (fit_rung_of p))
            (drop (unat (history_turns_omitted p)) history @ drop (unat (step_turns_omitted p)) steps)) \<and>
     (fit_rung_of p = Emergency \<longrightarrow>
        (let kept = drop (unat (history_turns_omitted p)) history @ drop (unat (step_turns_omitted p)) steps
         in length kept = 1 \<and>
            (llm_turns p = map (\<lambda>t. truncate_payload ops t budget) kept \<or>
             llm_turns p =
               map (\<lambda>t. truncate_payload ops (fitted_turn ops cnt budget ToolTruncated t) budget) kept)))"

lemma unat_le_length:
  "a = of_nat n \<Longrightarrow> n < 2 ^ 32 \<Longrightarrow> unat (a :: u32) = n"
  by (simp add: unat_length32)

lemma unat_sat_small:
  fixes a :: u32
  assumes "unat a + n < 2 ^ 32"
  shows "unat (sat_add a (of_nat n)) = unat a + n"
  using assms by (simp add: unat_sat_add unat_length32)

lemma shrunk_turns:
  "shrink_oversized_tool_results ops turns cnt budget = (out, n) \<Longrightarrow>
   out = map (fitted_turn ops cnt budget ToolTruncated) turns"
  by (auto simp: shrink_oversized_tool_results_def fitted_turn_def shrink_item_to_token_budget_def)

lemma plan_ok_accounts:
  assumes "rung \<noteq> Emergency" and "sat_add (sum_counts (token_counts cnt hist)) (sum_counts (token_counts cnt step)) \<le> budget"
    and "hist = map (fitted_turn ops cnt budget rung) (drop (unat ho) history)" and "unat ho \<le> length history"
    and "step = map (fitted_turn ops cnt budget rung) (drop (unat so) steps)" and "unat so \<le> length steps"
  shows "accounts ops history steps cnt budget (plan_ok hist step cnt raw rung n ho so)"
  using assms by (simp add: accounts_def plan_ok_def sum_tokens_counts sum_counts_append)

lemma drop_to_last: "n + 1 = length xs \<Longrightarrow> drop n xs = [last xs]"
  by (cases xs rule: rev_cases) auto

lemma last_map_drop: "n < length xs \<Longrightarrow> last (map f (drop n xs)) = f (last xs)"
  by (simp add: last_map)

text \<open>
  The emergency rung keeps the last turn of what the ladder had left, or of the original turns when
  nothing was left: in both cases a newest turn of its side, alone.
\<close>

lemma emergency_kept:
  assumes hist: "hist = map f (drop (unat ho) history)" and "unat ho \<le> length history"
    and step: "step = map f (drop (unat so) steps)" and "unat so \<le> length steps"
    and "history @ steps \<noteq> []" and small: "length history + length steps < 2 ^ 32"
  shows "let p = emergency ops history steps cnt budget raw hist step ho so n;
             kept = drop (unat (history_turns_omitted p)) history @ drop (unat (step_turns_omitted p)) steps
         in length kept = 1 \<and>
            (llm_turns p = map (\<lambda>t. truncate_payload ops t budget) kept \<or>
             llm_turns p = map (\<lambda>t. truncate_payload ops (f t) budget) kept) \<and>
            unat (history_turns_omitted p) + unat (step_turns_omitted p) + 1 = length history + length steps"
proof (cases "hist @ step = []")
  case none: True
  show ?thesis
  proof (cases "steps = []")
    case True
    then have "unat (of_nat (length history - 1) :: u32) + 1 = length history"
      using assms(5) small by (subst unat_length32) auto
    then show ?thesis using none True assms(5) drop_to_last [of _ history]
      by (simp add: emergency_def Let_def shrink_item_to_token_budget_def del: of_nat_diff)
  next
    case False
    then have "unat (of_nat (length history) :: u32) = length history"
      and "unat (of_nat (length steps - 1) :: u32) + 1 = length steps"
      using small by (subst unat_length32; auto)+
    then show ?thesis using none False drop_to_last [of _ steps]
      by (simp add: emergency_def Let_def shrink_item_to_token_budget_def del: of_nat_diff)
  qed
next
  case some: False
  have ho: "unat (sat_add ho (of_nat (length hist - k))) = unat ho + (length hist - k)" for k
    using assms(1,2) small by (intro unat_sat_small) simp
  have so: "unat (sat_add so (of_nat (length step - 1))) = unat so + (length step - 1)"
    using assms(3,4) small by (intro unat_sat_small) simp
  show ?thesis
  proof (cases "step = []")
    case True
    then have lt: "unat ho < length history" and so': "unat so = length steps"
      using some hist step assms(4) by auto
    then have o: "unat (sat_add ho (of_nat (length hist - 1))) + 1 = length history"
      using ho [of 1] hist by simp
    show ?thesis
      using True some o so' drop_to_last [OF o] last_map_drop [OF lt, of f] hist
      by (simp add: emergency_def Let_def shrink_item_to_token_budget_def del: of_nat_diff)
  next
    case False
    then have lt: "unat so < length steps" using step assms(4) by auto
    have o: "unat (sat_add so (of_nat (length step - 1))) + 1 = length steps"
      and h: "unat (sat_add ho (of_nat (length hist))) = length history"
      using so ho [of 0] hist step lt assms(2) by simp_all
    show ?thesis
      using False o h drop_to_last [OF o] last_map_drop [OF lt, of f] step
      by (simp add: emergency_def Let_def shrink_item_to_token_budget_def last_append del: of_nat_diff)
  qed
qed

lemma emergency_sel:
  "fit_rung_of (emergency ops history steps cnt budget raw hist step ho so n) = Emergency"
  "tokens_fit (emergency ops history steps cnt budget raw hist step ho so n) =
     sum_tokens cnt (llm_turns (emergency ops history steps cnt budget raw hist step ho so n))"
  by (simp_all add: emergency_def Let_def sum_tokens_def split: prod.splits)

lemma emergency_accounts:
  assumes "hist = map (fitted_turn ops cnt budget ToolTruncated) (drop (unat ho) history)"
    and "unat ho \<le> length history"
    and "step = map (fitted_turn ops cnt budget ToolTruncated) (drop (unat so) steps)"
    and "unat so \<le> length steps"
    and "history @ steps \<noteq> []" and "length history + length steps < 2 ^ 32"
  shows "accounts ops history steps cnt budget
           (emergency ops history steps cnt budget raw hist step ho so n)"
proof -
  let ?p = "emergency ops history steps cnt budget raw hist step ho so n"
  note kept = emergency_kept [OF assms, of ops cnt budget raw n, unfolded Let_def]
  then have "length (llm_turns ?p) = 1" by (metis length_map)
  then show ?thesis using kept by (simp add: accounts_def emergency_sel Let_def)
qed

text \<open>
  C36: The fitted input accounts for every turn.  What is kept and what is reported as omitted add up
  to all turns; every rung but the last fits the budget and keeps the most recent part of the history
  followed by the most recent part of the steps, with only oversized tool results cut, and these not
  before the third rung; the last rung keeps exactly one turn, the newest step or, with every step
  omitted, the newest turn of the history, hard-shrunk to the budget (after the cut of the third rung
  or without it); and whatever the rung, the input is not empty when there are steps.  The budget is
  positive: for a budget of zero the code returns an empty input.
\<close>

theorem fit_accounts_for_turns:
  assumes "budget \<noteq> 0" and "history @ steps \<noteq> []" and "length history + length steps < 2 ^ 32"
  shows "accounts ops history steps cnt budget (fit_turns_for_summarizer ops history steps cnt budget) \<and>
         (steps \<noteq> [] \<longrightarrow> llm_turns (fit_turns_for_summarizer ops history steps cnt budget) \<noteq> [])"
proof -
  let ?hc = "token_counts cnt history" and ?sc = "token_counts cnt steps"
  let ?raw = "sat_add (sum_counts ?hc) (sum_counts ?sc)"
  obtain hist hcs ho where d: "drop_oldest ops history ?hc (sum_counts ?sc) budget = (hist, hcs, ho)"
    by (metis prod_cases3)
  note hist = drop_oldest_suffix [OF d]
  obtain hist' n1 where s1: "shrink_oversized_tool_results ops hist cnt budget = (hist', n1)" by fastforce
  obtain step n2 where s2: "shrink_oversized_tool_results ops steps cnt budget = (step, n2)" by fastforce
  obtain step' scs so where e: "drop_oldest ops step (token_counts cnt step)
      (sum_counts (token_counts cnt hist')) budget = (step', scs, so)" by (metis prod_cases3)
  note step' = drop_oldest_suffix [OF e]
  have len: "length step = length steps" "length hist' = length hist"
    using shrunk_turns [OF s1] shrunk_turns [OF s2] by simp_all
  have ho: "hist = drop (unat ho) history" "unat ho \<le> length history" "hcs = token_counts cnt hist"
    using hist assms(3) by simp_all
  have so: "step' = drop (unat so) step" "unat so \<le> length steps" "scs = token_counts cnt step'"
    using step' assms(3) len by simp_all
  have t: "fitted_turn ops cnt budget StepTurnsSelected = fitted_turn ops cnt budget ToolTruncated"
    by (simp add: fitted_turn_def fun_eq_iff)
  have v: "accounts ops history steps cnt budget (plan_ok history steps cnt ?raw Verbatim 0 0 0)" if "?raw \<le> budget"
    by (rule plan_ok_accounts) (use that in simp_all)
  have h: "accounts ops history steps cnt budget (plan_ok hist steps cnt ?raw HistoryTurnSelected 0 ho 0)"
    if "sat_add (sum_counts hcs) (sum_counts ?sc) \<le> budget"
    by (rule plan_ok_accounts) (use that ho in simp_all)
  have tt: "accounts ops history steps cnt budget (plan_ok hist' step cnt ?raw ToolTruncated n ho 0)"
    if "sat_add (sum_counts (token_counts cnt hist')) (sum_counts (token_counts cnt step)) \<le> budget" for n
    by (rule plan_ok_accounts) (use that ho shrunk_turns [OF s1] shrunk_turns [OF s2] in simp_all)
  have ss: "accounts ops history steps cnt budget (plan_ok hist' step' cnt ?raw StepTurnsSelected n ho so)"
    if "sat_add (sum_counts (token_counts cnt hist')) (sum_counts scs) \<le> budget" for n
    by (rule plan_ok_accounts) (use that ho so t shrunk_turns [OF s1] shrunk_turns [OF s2] in \<open>simp_all add: drop_map\<close>)
  have em: "accounts ops history steps cnt budget (emergency ops history steps cnt budget ?raw hist' step' ho so n)" for n
    by (rule emergency_accounts)
      (use ho so len assms shrunk_turns [OF s1] shrunk_turns [OF s2] in \<open>simp_all add: drop_map\<close>)
  have one: "llm_turns p \<noteq> []" if "accounts ops history steps cnt budget p" "fit_rung_of p = Emergency"
    for p :: "'a fit_plan"
    using that by (auto simp: accounts_def Let_def)
  have rung: "fit_rung_of (emergency ops history steps cnt budget ?raw hist' step' ho so n) = Emergency" for n
    by (simp add: emergency_def Let_def split: prod.splits)
  have ne: "step \<noteq> []" if "steps \<noteq> []" using len that by auto
  show ?thesis
    using assms(1) v h tt ss em one [OF em rung] ne d s1 s2 e
    by (simp add: fit_turns_for_summarizer_def Let_def plan_ok_def)
qed

definition sample_builder :: "conversation_item builder_ops" where
  "sample_builder = item_ops.extend conversation_ops
     \<lparr>summary_item = user_meta, strip_tool_content = Some,
      truncate_payload = (\<lambda>t n. truncate_item_to_tokens t (ucast n))\<rparr>"

definition sample_count :: "conversation_item \<Rightarrow> u32" where
  "sample_count t = (case text_content t of Some s \<Rightarrow> of_nat (length s) | None \<Rightarrow> 0)"

lemma sample_counts [simp]:
  "sample_count (user_msg ''older'') = 5" "sample_count (user_msg ''old'') = 3"
  "sample_count (assistant_msg ''now'') = 3" "sample_count (user_msg ''question'') = 8"
  by (simp_all add: sample_count_def user_msg_def user_text_def assistant_msg_def text_content_def map_filter_simps)

lemma sample_tools [simp]:
  "\<not> is_tool_item sample_builder (user_msg s)" "\<not> is_tool_item sample_builder (assistant_msg s)"
  by (simp_all add: is_tool_item_def sample_builder_def item_ops.extend_def conversation_ops_def
      conversation_role_def user_msg_def user_text_def assistant_msg_def)

lemmas fit_steps = fit_turns_for_summarizer_def token_counts_def Let_def sat_add_def plan_ok_def
  drop_oldest_def keep_recent_under_budget_def select_turns_to_compact_def snap_to_safe_boundary_def

lemma fit_accounts_for_turns_witness:
  "accounts sample_builder [user_msg ''older'', user_msg ''old''] [assistant_msg ''now'']
     sample_count 6
     (fit_turns_for_summarizer sample_builder [user_msg ''older'', user_msg ''old''] [assistant_msg ''now'']
        sample_count 6) \<and>
   llm_turns (fit_turns_for_summarizer sample_builder [user_msg ''older'', user_msg ''old'']
     [assistant_msg ''now''] sample_count 6) = [user_msg ''old'', assistant_msg ''now'']"
proof
  show "accounts sample_builder [user_msg ''older'', user_msg ''old''] [assistant_msg ''now'']
     sample_count 6
     (fit_turns_for_summarizer sample_builder [user_msg ''older'', user_msg ''old''] [assistant_msg ''now'']
        sample_count 6)"
    using fit_accounts_for_turns [of 6 "[user_msg ''older'', user_msg ''old'']" "[assistant_msg ''now'']"
        sample_builder sample_count] by simp
  show "llm_turns (fit_turns_for_summarizer sample_builder [user_msg ''older'', user_msg ''old'']
     [assistant_msg ''now''] sample_count 6) = [user_msg ''old'', assistant_msg ''now'']"
    by (simp add: fit_steps)
qed

text \<open>
  The second rung has no guard against an empty plan, unlike the fourth: with no steps and a newest
  history turn over the budget on its own, the whole history is dropped, nothing is left to
  summarize, and the last rung, made for this case, is not reached.
\<close>

lemma fit_empty_plan:
  "llm_turns (fit_turns_for_summarizer sample_builder [user_msg ''question''] [] sample_count 6) = []"
  "fit_rung_of (fit_turns_for_summarizer sample_builder [user_msg ''question''] [] sample_count 6) =
     HistoryTurnSelected"
  by (simp_all add: fit_steps)

text \<open>The text truncation of the trait is the one the chat state uses.\<close>

lemma truncate_text_agrees:
  "truncate_text_to_token_budget s n =
     (case truncate_text_to_bytes s (unat (sat_mul (ucast n :: u64) 4)) of Some t \<Rightarrow> t | None \<Rightarrow> s)"
  by (simp add: truncate_text_to_token_budget_def truncate_text_to_bytes_def Let_def)

end
