(* ===== verification/SummarySampling.thy ===== *)
theory SummarySampling
  imports CompactionItem
begin

section \<open>Sampling a summary\<close>

text \<open>
  Models \<open>hystersis-compaction/src/sampler.rs\<close>, \<open>prompt.rs\<close> and, of \<open>code_compaction/\<close>, the files
  \<open>failure.rs\<close>, \<open>sample.rs\<close>, \<open>observer.rs\<close>, \<open>config.rs\<close>, \<open>prompt.rs\<close>, \<open>compact.rs\<close> and \<open>assemble.rs\<close>.
  A sampler, the call to the model, is an argument: a function of its own state, which it returns
  with its answer.  The observer is the list of the calls it gets.  The prompt templates are
  arguments too.  Waiting between attempts and elapsed times are left out.
\<close>

record llm_compaction_output =
  response :: rstr
  thinking :: rstr

datatype compaction_sample_error =
    SampleTimeout nat nat
  | SampleBuild rstr
  | SampleStart rstr
  | SampleEmptyResponse
  | SampleOther rstr

definition sample_error_text :: "compaction_sample_error \<Rightarrow> rstr" where
  "sample_error_text e =
     (case e of
        SampleTimeout timeout_secs collected_bytes \<Rightarrow>
          ''Compaction sampling timed out after '' @ show_nat timeout_secs @ ''s (collected '' @
          show_nat collected_bytes @ '' bytes so far)''
      | SampleBuild msg \<Rightarrow> ''Compaction sampler build failed: '' @ msg
      | SampleStart msg \<Rightarrow> ''Compaction sampler start failed: '' @ msg
      | SampleEmptyResponse \<Rightarrow> ''Compaction sampler returned no response channel content''
      | SampleOther e \<Rightarrow> e)"

definition is_deterministic :: "compaction_sample_error \<Rightarrow> bool" where
  "is_deterministic e \<longleftrightarrow>
     (case e of
        SampleTimeout _ _ \<Rightarrow> False
      | SampleEmptyResponse \<Rightarrow> False
      | SampleBuild _ \<Rightarrow> True
      | SampleStart _ \<Rightarrow> True
      | SampleOther msg \<Rightarrow> contains msg ''Failed to build AgenticScheduler'' \<or>
          contains msg ''Failed to start compaction sample'')"

record compaction_prompt =
  system_prompt :: rstr
  user_prompt :: rstr

type_synonym ('t, 's) sampler =
  "'s \<Rightarrow> 't list \<Rightarrow> compaction_prompt \<Rightarrow> u64 \<Rightarrow> (compaction_sample_error + llm_compaction_output) \<times> 's"

subsection \<open>Failures\<close>

datatype failure_kind = Deterministic | Transient

definition kind_is_deterministic :: "failure_kind \<Rightarrow> bool" where
  "kind_is_deterministic k \<longleftrightarrow> k = Deterministic"

definition ascii_lower :: "char \<Rightarrow> char" where
  "ascii_lower c =
     (let n = of_char c :: nat in if 65 \<le> n \<and> n \<le> 90 then char_of (n + 32) else c)"

definition is_context_length_error :: "rstr \<Rightarrow> bool" where
  "is_context_length_error message \<longleftrightarrow>
     (let m = map ascii_lower message
      in contains m ''too long for this model'' \<or> contains m ''prompt is too long'' \<or>
         contains m ''maximum prompt length'' \<or> contains m ''maximum context length'' \<or>
         contains m ''context_length_exceeded'' \<or>
         contains m ''current message'' \<and> contains m ''exceeds budget'')"

definition client_error_status :: "nat \<Rightarrow> bool" where
  "client_error_status status \<longleftrightarrow> 400 \<le> status \<and> status < 500 \<and> status \<noteq> 408 \<and> status \<noteq> 429"

definition classify_http_status :: "u16 \<Rightarrow> rstr \<Rightarrow> failure_kind" where
  "classify_http_status status message =
     (if is_context_length_error message \<or> client_error_status (unat status) then Deterministic
      else Transient)"

definition classify_stream_event_error :: "rstr option \<Rightarrow> rstr \<Rightarrow> failure_kind" where
  "classify_stream_event_error code message =
     (if code = Some ''invalid_request_error'' \<or> contains message ''invalid_request_error'' then Deterministic
      else if (case Option.bind code (parse_uint (2 ^ 16 - 1)) of
                 Some status_code \<Rightarrow> client_error_status status_code | None \<Rightarrow> False) then Deterministic
      else if is_context_length_error message then Deterministic
      else Transient)"

subsection \<open>The retry loop\<close>

datatype attempt_outcome =
    Success rstr
  | EmptyReply bool
  | Degenerate rstr bool
  | Failure rstr bool bool bool

datatype full_replace_call =
    OnAttempt nat attempt_outcome
  | OnSuccess nat nat
  | OnError nat

record sampled_summary =
  sampled :: rstr
  sample_attempts :: nat

datatype sample_retry_error =
    RetryEmpty nat
  | RetryFailure rstr bool bool nat

text \<open>
  The body of the loop from attempt \<open>attempt\<close> on.  Its last line is the code's line after the loop,
  which the last attempt never reaches.
\<close>

function sample_from ::
  "('t, 's) sampler \<Rightarrow> 't list \<Rightarrow> compaction_prompt \<Rightarrow> u64 \<Rightarrow> nat \<Rightarrow> nat \<Rightarrow> full_replace_call list \<Rightarrow> 's \<Rightarrow>
   (sample_retry_error + sampled_summary) \<times> full_replace_call list \<times> 's" where
  "sample_from sampler turns prompt timeout max_attempts attempt obs s =
     (if attempt \<le> max_attempts then
        (let will_retry = attempt < max_attempts;
             (result, s) = sampler s turns prompt timeout
         in case result of
              Inr output \<Rightarrow>
                if trim (response output) \<noteq> '''' then
                  if is_degenerate_summary (response output) then
                    (let obs = obs @ [OnAttempt attempt (Degenerate (response output) will_retry)]
                     in if \<not> will_retry then (Inl (RetryEmpty attempt), obs, s)
                        else sample_from sampler turns prompt timeout max_attempts (attempt + 1) obs s)
                  else
                    (Inr \<lparr>sampled = response output, sample_attempts = attempt\<rparr>,
                     obs @ [OnAttempt attempt (Success (response output))], s)
                else
                  (let obs = obs @ [OnAttempt attempt (EmptyReply will_retry)]
                   in if \<not> will_retry then (Inl (RetryEmpty attempt), obs, s)
                      else sample_from sampler turns prompt timeout max_attempts (attempt + 1) obs s)
            | Inl e \<Rightarrow>
                (let message = sample_error_text e;
                     context_overflow = is_context_length_error message;
                     deterministic = is_deterministic e \<or> context_overflow;
                     retrying = will_retry \<and> \<not> deterministic;
                     obs = obs @ [OnAttempt attempt (Failure message deterministic context_overflow retrying)]
                 in if deterministic then (Inl (RetryFailure message True context_overflow attempt), obs, s)
                    else if \<not> will_retry then (Inl (RetryFailure message False False attempt), obs, s)
                    else sample_from sampler turns prompt timeout max_attempts (attempt + 1) obs s))
      else (Inl (RetryEmpty max_attempts), obs, s))"
  by pat_completeness auto
termination
  by (relation "measure (\<lambda>(_, _, _, _, max_attempts, attempt, _, _). Suc max_attempts - attempt)") auto

declare sample_from.simps [simp del]

definition sample_summary_with_retries ::
  "('t, 's) sampler \<Rightarrow> 't list \<Rightarrow> compaction_prompt \<Rightarrow> u32 \<Rightarrow> u64 \<Rightarrow> full_replace_call list \<Rightarrow> 's \<Rightarrow>
   (sample_retry_error + sampled_summary) \<times> full_replace_call list \<times> 's" where
  "sample_summary_with_retries sampler turns prompt max_attempts timeout obs s =
     sample_from sampler turns prompt timeout (max (unat max_attempts) 1) 1 obs s"

subsection \<open>The full-replace pass\<close>

definition build_summary_prompt :: "rstr \<Rightarrow> rstr option \<Rightarrow> rstr" where
  "build_summary_prompt template user_context =
     str_replace ''{user_context_section}''
       (case user_context of
          Some context \<Rightarrow>
            nl @ nl @ ''**User-provided context for this compaction:**'' @ nl @ context @ nl @ nl @
            ''Please incorporate this context into your summary, ensuring it is prominently addressed in the relevant sections.'' @
            nl @ nl
        | None \<Rightarrow> '''') template"

record full_replace_config =
  fr_max_attempts :: u32
  fr_retry_delay_secs :: u64
  fr_sampling_timeout_secs :: u64

definition full_replace_default :: full_replace_config where
  "full_replace_default =
     \<lparr>fr_max_attempts = 3, fr_retry_delay_secs = 3, fr_sampling_timeout_secs = 120\<rparr>"

datatype full_replace_error =
    NothingToReplace
  | ReplaceEmptyResponse
  | ReplaceSampler rstr bool bool

definition sample_full_replace_summary ::
  "rstr \<Rightarrow> ('t, 's) sampler \<Rightarrow> 't list \<Rightarrow> rstr option \<Rightarrow> full_replace_config \<Rightarrow> full_replace_call list \<Rightarrow> 's \<Rightarrow>
   (full_replace_error + sampled_summary) \<times> full_replace_call list \<times> 's" where
  "sample_full_replace_summary template sampler turns user_context config obs s =
     (if turns = [] then (Inl NothingToReplace, obs, s)
      else
        (let prompt = \<lparr>system_prompt = '''', user_prompt = build_summary_prompt template user_context\<rparr>;
             (result, obs, s) =
               sample_summary_with_retries sampler turns prompt (fr_max_attempts config)
                 (fr_sampling_timeout_secs config) obs s
         in case result of
              Inr out \<Rightarrow> (Inr out, obs @ [OnSuccess (sample_attempts out) (char_count (sampled out))], s)
            | Inl (RetryEmpty n) \<Rightarrow> (Inl ReplaceEmptyResponse, obs @ [OnError n], s)
            | Inl (RetryFailure message deterministic context_overflow n) \<Rightarrow>
                (Inl (ReplaceSampler message deterministic context_overflow), obs @ [OnError n], s)))"

record 't compacted_history_parts =
  part_system_message :: 't
  part_user_message_prefix :: rstr
  part_agents_md_reminder :: "rstr option"
  part_last_user_query :: "rstr option"
  part_recent_messages :: "'t list"
  part_compaction_summary :: rstr
  part_system_reminder :: "rstr option"
  part_transcript_hint :: "rstr option"

definition assemble_compacted_history :: "'t factory_ops \<Rightarrow> 't compacted_history_parts \<Rightarrow> 't list" where
  "assemble_compacted_history factory parts =
     (let summary_item = new_user_meta factory (format_compact_summary_content (part_compaction_summary parts) @
            (case part_transcript_hint parts of Some hint \<Rightarrow> hint | None \<Rightarrow> ''''))
      in [part_system_message parts, new_user_meta factory (part_user_message_prefix parts)] @
         (case part_agents_md_reminder parts of Some r \<Rightarrow> [new_project_instructions factory r] | None \<Rightarrow> []) @
         (case part_last_user_query parts of Some q \<Rightarrow> [new_user factory (wrap_user_query q)] | None \<Rightarrow> []) @
         part_recent_messages parts @ [summary_item] @
         (case part_system_reminder parts of Some r \<Rightarrow> [new_system_reminder factory r] | None \<Rightarrow> []))"

text \<open>The context of a pass has the fields of the parts; the pass itself fills in the summary.\<close>

definition apply_full_replace_compaction ::
  "rstr \<Rightarrow> 't factory_ops \<Rightarrow> ('t, 's) sampler \<Rightarrow> 't list \<Rightarrow> rstr option \<Rightarrow> 't compacted_history_parts \<Rightarrow>
   full_replace_config \<Rightarrow> full_replace_call list \<Rightarrow> 's \<Rightarrow>
   (full_replace_error + 't list \<times> sampled_summary) \<times> full_replace_call list \<times> 's" where
  "apply_full_replace_compaction template factory sampler turns user_context ctx config obs s =
     (let (result, obs, s) = sample_full_replace_summary template sampler turns user_context config obs s
      in case result of
           Inl e \<Rightarrow> (Inl e, obs, s)
         | Inr out \<Rightarrow>
             (Inr (assemble_compacted_history factory (ctx\<lparr>part_compaction_summary := sampled out\<rparr>), out), obs, s))"

section \<open>The first decisive answer wins\<close>

text \<open>The answers of \<open>n\<close> calls in a row, and the state of the sampler after them.\<close>

fun calls ::
  "('t, 's) sampler \<Rightarrow> 't list \<Rightarrow> compaction_prompt \<Rightarrow> u64 \<Rightarrow> nat \<Rightarrow> 's \<Rightarrow>
   (compaction_sample_error + llm_compaction_output) list \<times> 's" where
  "calls sampler turns prompt timeout 0 s = ([], s)"
| "calls sampler turns prompt timeout (Suc n) s =
     (let (r, s1) = sampler s turns prompt timeout;
          (rs, s2) = calls sampler turns prompt timeout n s1
      in (r # rs, s2))"

definition retryable :: "compaction_sample_error + llm_compaction_output \<Rightarrow> bool" where
  "retryable r \<longleftrightarrow>
     (case r of
        Inr out \<Rightarrow> trim (response out) = '''' \<or> is_degenerate_summary (response out)
      | Inl e \<Rightarrow> \<not> is_deterministic e \<and> \<not> is_context_length_error (sample_error_text e))"

definition conclude ::
  "nat \<Rightarrow> compaction_sample_error + llm_compaction_output \<Rightarrow> sample_retry_error + sampled_summary" where
  "conclude n r =
     (case r of
        Inr out \<Rightarrow> if retryable r then Inl (RetryEmpty n)
                   else Inr \<lparr>sampled = response out, sample_attempts = n\<rparr>
      | Inl e \<Rightarrow> Inl (RetryFailure (sample_error_text e) (\<not> retryable r)
                        (is_context_length_error (sample_error_text e)) n))"

definition outcome_of :: "bool \<Rightarrow> compaction_sample_error + llm_compaction_output \<Rightarrow> attempt_outcome" where
  "outcome_of will_retry r =
     (case r of
        Inr out \<Rightarrow> if trim (response out) = '''' then EmptyReply will_retry
                   else if retryable r then Degenerate (response out) will_retry
                   else Success (response out)
      | Inl e \<Rightarrow> Failure (sample_error_text e) (\<not> retryable r)
                   (is_context_length_error (sample_error_text e)) (will_retry \<and> retryable r))"

text \<open>How many calls are made when \<open>n\<close> are allowed: up to the first answer that is not retryable.\<close>

definition calls_needed ::
  "('t, 's) sampler \<Rightarrow> 't list \<Rightarrow> compaction_prompt \<Rightarrow> u64 \<Rightarrow> nat \<Rightarrow> 's \<Rightarrow> nat" where
  "calls_needed sampler turns prompt timeout n s =
     min n (Suc (length (takeWhile retryable (fst (calls sampler turns prompt timeout n s)))))"

lemma sample_from_step:
  assumes "attempt \<le> max_attempts" and "sampler s turns prompt timeout = (r, s1)"
  shows "sample_from sampler turns prompt timeout max_attempts attempt obs s =
    (let obs' = obs @ [OnAttempt attempt (outcome_of (attempt < max_attempts) r)]
     in if retryable r \<and> attempt < max_attempts
        then sample_from sampler turns prompt timeout max_attempts (attempt + 1) obs' s1
        else (conclude attempt r, obs', s1))"
proof (cases r)
  case (Inl e)
  then show ?thesis using assms
    by (subst sample_from.simps) (auto simp: Let_def retryable_def conclude_def outcome_of_def)
next
  case (Inr out)
  then show ?thesis using assms
    by (subst sample_from.simps) (auto simp: Let_def retryable_def conclude_def outcome_of_def)
qed

lemma length_calls: "length (fst (calls sampler turns prompt timeout n s)) = n"
  by (induction n arbitrary: s) (simp_all add: Let_def split: prod.splits, metis fst_conv)

definition attempt_log ::
  "nat \<Rightarrow> nat \<Rightarrow> (compaction_sample_error + llm_compaction_output) list \<Rightarrow> full_replace_call list" where
  "attempt_log max_attempts attempt rs =
     map (\<lambda>i. OnAttempt (attempt + i) (outcome_of (attempt + i < max_attempts) (rs ! i))) [0..<length rs]"

lemma attempt_log_Cons:
  "attempt_log n attempt (r # rs) =
   OnAttempt attempt (outcome_of (attempt < n) r) # attempt_log n (Suc attempt) rs"
  by (simp add: attempt_log_def upt_conv_Cons map_Suc_upt [symmetric] del: upt_Suc map_Suc_upt)

lemma sample_from_calls:
  assumes "attempt + m = max_attempts"
  shows "sample_from sampler turns prompt timeout max_attempts attempt obs s =
    (let k = calls_needed sampler turns prompt timeout (Suc m) s;
         (rs, s') = calls sampler turns prompt timeout k s
     in (conclude (attempt + k - 1) (last rs), obs @ attempt_log max_attempts attempt rs, s'))"
  using assms
proof (induction m arbitrary: attempt obs s)
  case 0
  obtain r s1 where c: "sampler s turns prompt timeout = (r, s1)" by fastforce
  then show ?case using 0 sample_from_step [of attempt max_attempts sampler s turns prompt timeout r s1 obs]
    by (simp add: calls_needed_def Let_def attempt_log_def)
next
  case (Suc m)
  obtain r s1 where c: "sampler s turns prompt timeout = (r, s1)" by fastforce
  have lt: "attempt < max_attempts" using Suc.prems by simp
  then have step: "sample_from sampler turns prompt timeout max_attempts attempt obs s =
      (let obs' = obs @ [OnAttempt attempt (outcome_of True r)]
       in if retryable r then sample_from sampler turns prompt timeout max_attempts (attempt + 1) obs' s1
          else (conclude attempt r, obs', s1))"
    using sample_from_step [of attempt max_attempts sampler s turns prompt timeout r s1 obs] c by simp
  let ?n = "calls_needed sampler turns prompt timeout"
  show ?case
  proof (cases "retryable r")
    case True
    have k: "?n (Suc (Suc m)) s = Suc (?n (Suc m) s1)"
      using True c by (simp add: calls_needed_def Let_def del: calls.simps(2) split: prod.splits)
        (simp add: Let_def split: prod.splits)
    have pos: "0 < ?n (Suc m) s1" by (simp add: calls_needed_def)
    obtain rs s2 where rs: "calls sampler turns prompt timeout (?n (Suc m) s1) s1 = (rs, s2)" by fastforce
    have ne: "rs \<noteq> []" using length_calls [of sampler turns prompt timeout "?n (Suc m) s1" s1] rs pos by auto
    have "sample_from sampler turns prompt timeout max_attempts (Suc attempt)
        (obs @ [OnAttempt attempt (outcome_of True r)]) s1 =
      (conclude (Suc attempt + ?n (Suc m) s1 - 1) (last rs),
       (obs @ [OnAttempt attempt (outcome_of True r)]) @ attempt_log max_attempts (Suc attempt) rs, s2)"
      using Suc.IH [of "Suc attempt"] Suc.prems rs by (simp add: Let_def)
    then show ?thesis using step True lt c k rs ne by (simp add: Let_def attempt_log_Cons)
  next
    case False
    then have k: "?n (Suc (Suc m)) s = 1"
      using c by (simp add: calls_needed_def Let_def split: prod.splits)
    show ?thesis using step False lt c by (simp add: k Let_def attempt_log_def)
  qed
qed

text \<open>
  The retry loop returns the verdict on the first answer that is not worth a retry, or on the
  last one allowed.  The sampler is called as often as that takes and no more, at least once and at
  most \<open>max_attempts\<close> times; every call is reported to the observer, in order; and the verdict
  carries the number of calls.
\<close>

theorem sampling_first_decisive:
  "sample_summary_with_retries sampler turns prompt max_attempts timeout obs s =
     (let n = max (unat max_attempts) 1;
          k = calls_needed sampler turns prompt timeout n s;
          (rs, s') = calls sampler turns prompt timeout k s
      in (conclude k (last rs), obs @ attempt_log n 1 rs, s'))"
proof -
  let ?n = "max (unat max_attempts) 1"
  have "1 + (?n - 1) = ?n" by simp
  from sample_from_calls [OF this, of sampler turns prompt timeout obs s] show ?thesis
    by (simp add: sample_summary_with_retries_def Let_def)
qed

section \<open>Two assemblers, one history\<close>

text \<open>The parts that the chat state's input gives to the shared assembler.\<close>

definition parts_of :: "compacted_history_input \<Rightarrow> conversation_item compacted_history_parts" where
  "parts_of inp =
     \<lparr>part_system_message = system_message inp, part_user_message_prefix = user_message_prefix inp,
      part_agents_md_reminder = agents_md_reminder inp,
      part_last_user_query = last_user_query (state_context inp),
      part_recent_messages = recent_messages (state_context inp),
      part_compaction_summary = compaction_summary inp,
      part_system_reminder = ch_system_reminder inp, part_transcript_hint = transcript_hint inp\<rparr>"

text \<open>
  The assembler of the shared engine, over conversation items, builds the same history as the
  one of the chat state, in a session that has not moved to another directory and has no message of
  another agent to anchor.
\<close>

theorem assemblers_agree:
  assumes "ctx_cwd_generation (state_context inp) = 0"
    and "ctx_agent_message_anchor (state_context inp) = None"
  shows "assemble_compacted_history conversation_factory (parts_of inp) = build_compacted_history inp"
  using assms
  by (simp add: assemble_compacted_history_def build_compacted_history_def parts_of_def
      conversation_factory_def option_list_def Let_def split: option.splits)

definition sample_context :: compaction_state_context where
  "sample_context =
     \<lparr>ctx_cwd_generation = 0, destination_project_instructions = None, ctx_agent_message_anchor = None,
      recent_messages = [assistant_msg ''w''], last_user_query = Some ''q'', ctx_agent_edited_paths = [],
      running_tasks = [], running_subagents = [], connected_mcp_servers = [], todos = []\<rparr>"

definition sample_input :: compacted_history_input where
  "sample_input =
     \<lparr>system_message = system_msg ''sys'', user_message_prefix = ''info'', agents_md_reminder = Some ''agents'',
      state_context = sample_context, compaction_summary = ''s'', ch_system_reminder = None,
      transcript_hint = None\<rparr>"

lemma assemblers_agree_witness:
  "assemble_compacted_history conversation_factory (parts_of sample_input) = build_compacted_history sample_input"
  by (rule assemblers_agree) (simp_all add: sample_input_def sample_context_def)

end
