(* ===== verification/Reminder.thy ===== *)
theory Reminder
  imports RustStr
begin

section \<open>Reminders after a compaction\<close>

text \<open>
  Models \<open>hystersis-compaction/src/reminder.rs\<close>: the sections on running background tasks, the TODO
  list and running subagents, their \<open>system-reminder\<close> wrapper and its place after a summary.
\<close>

record subagent_tool_names =
  poll_tool :: rstr
  cancel_tool :: rstr

datatype todo_status = TodoPending | TodoInProgress | TodoCompleted | TodoCancelled

definition status_is_actionable :: "todo_status \<Rightarrow> bool" where
  "status_is_actionable s \<longleftrightarrow> s = TodoPending \<or> s = TodoInProgress"

definition status_tag :: "todo_status \<Rightarrow> rstr" where
  "status_tag s =
     (case s of
        TodoPending \<Rightarrow> ''[pending]''
      | TodoInProgress \<Rightarrow> ''[in_progress]''
      | TodoCompleted \<Rightarrow> ''[completed]''
      | TodoCancelled \<Rightarrow> ''[cancelled]'')"

record todo_item =
  todo_id :: rstr
  todo_content :: rstr
  todo_status_of :: todo_status

record background_task =
  task_id :: rstr
  command :: rstr
  task_status :: rstr
  task_tool_name :: "rstr option"

record running_subagent =
  subagent_id :: rstr
  subagent_type :: "rstr option"
  description :: "rstr option"
  elapsed_secs :: nat

record reminder_state =
  running_commands :: "background_task list"
  todo_items :: "todo_item list"
  subagents :: "running_subagent list"

definition has_actionable_todos :: "reminder_state \<Rightarrow> bool" where
  "has_actionable_todos state \<longleftrightarrow> list_ex (\<lambda>t. status_is_actionable (todo_status_of t)) (todo_items state)"

definition reminder_is_empty :: "reminder_state \<Rightarrow> bool" where
  "reminder_is_empty state \<longleftrightarrow>
     running_commands state = [] \<and> subagents state = [] \<and> \<not> has_actionable_todos state"

subsection \<open>Sections\<close>

definition task_line :: "background_task \<Rightarrow> rstr" where
  "task_line t =
     ''- \"'' @ task_id t @ ''\": `'' @ command t @ ''` ('' @ task_status t @
     (case task_tool_name t of Some tool \<Rightarrow> '', '' @ tool @ '')'' | None \<Rightarrow> '')'')"

definition section_background_tasks :: "background_task list \<Rightarrow> rstr option" where
  "section_background_tasks tasks =
     (if tasks = [] then None
      else Some (''## Running Background Tasks'' @ nl @ ''These tasks are still running:'' @ nl @
                 join nl (map task_line tasks)))"

definition todo_line :: "todo_item \<Rightarrow> rstr" where
  "todo_line t = ''- '' @ status_tag (todo_status_of t) @ '' '' @ todo_id t @ '': '' @ todo_content t"

definition section_todo_list :: "todo_item list \<Rightarrow> rstr option" where
  "section_todo_list ts =
     (let active = map todo_line (filter (\<lambda>t. status_is_actionable (todo_status_of t)) ts)
      in if active = [] then None
         else
           (let completed = length (filter (\<lambda>t. todo_status_of t = TodoCompleted) ts);
                cancelled = length (filter (\<lambda>t. todo_status_of t = TodoCancelled) ts);
                trailer =
                  (if completed = 0 \<and> cancelled = 0 then ''''
                   else if cancelled = 0 then nl @ ''('' @ show_nat completed @ '' completed)''
                   else if completed = 0 then nl @ ''('' @ show_nat cancelled @ '' cancelled)''
                   else nl @ ''('' @ show_nat completed @ '' completed, '' @ show_nat cancelled @ '' cancelled)'')
            in Some (''## TODO List'' @ nl @
                 ''This is your task list from before the conversation was compacted '' @
                 [CHR 0xE2, CHR 0x80, CHR 0x94] @
                 '' it is still active. Keep working through the items below and update their status as you make progress:'' @
                 nl @ join nl active @ trailer)))"

definition format_subagent_line :: "running_subagent \<Rightarrow> rstr" where
  "format_subagent_line s =
     ''- subagent_id: `'' @ subagent_id s @ ''`'' @
     (case subagent_type s of Some ty \<Rightarrow> '', type: `'' @ ty @ ''`'' | None \<Rightarrow> '''') @
     (case description s of Some d \<Rightarrow> '', task: \"'' @ d @ ''\"'' | None \<Rightarrow> '''') @
     '' (running for '' @ show_nat (elapsed_secs s) @ ''s)''"

definition section_running_subagents :: "running_subagent list \<Rightarrow> subagent_tool_names \<Rightarrow> rstr option" where
  "section_running_subagents agents tools =
     (if agents = [] then None
      else Some (''## Running Subagents'' @ nl @
        ''These subagents were launched before this compaction and are still running. Use `'' @ poll_tool tools @
        ''` with the subagent_id to check their status or retrieve results. Use `'' @ cancel_tool tools @
        ''` with the subagent_id to cancel a subagent.'' @ nl @
        join nl (map format_subagent_line agents)))"

definition option_to_list :: "'a option \<Rightarrow> 'a list" where
  "option_to_list x = (case x of Some y \<Rightarrow> [y] | None \<Rightarrow> [])"

definition format_active_agent_sections :: "reminder_state \<Rightarrow> subagent_tool_names option \<Rightarrow> rstr list" where
  "format_active_agent_sections state tools =
     option_to_list (section_background_tasks (running_commands state)) @
     option_to_list (section_todo_list (todo_items state)) @
     (case tools of
        Some names \<Rightarrow> option_to_list (section_running_subagents (subagents state) names)
      | None \<Rightarrow> [])"

definition wrap_step :: "rstr \<Rightarrow> rstr \<Rightarrow> rstr" where
  "wrap_step body s =
     (if trim s = '''' then body else if body = '''' then s else body @ nl @ nl @ s)"

definition wrap_system_reminder :: "rstr list \<Rightarrow> rstr option" where
  "wrap_system_reminder sections =
     (let body = foldl wrap_step '''' sections
      in if body = '''' then None
         else Some (''<system-reminder>'' @ nl @ body @ nl @ ''</system-reminder>''))"

definition format_active_agent_reminder :: "reminder_state \<Rightarrow> subagent_tool_names option \<Rightarrow> rstr option" where
  "format_active_agent_reminder state tools = wrap_system_reminder (format_active_agent_sections state tools)"

definition append_reminder_block :: "rstr \<Rightarrow> rstr option \<Rightarrow> rstr" where
  "append_reminder_block summary_text reminder =
     (case reminder of
        Some r \<Rightarrow> if trim r = '''' then summary_text else summary_text @ nl @ nl @ r
      | None \<Rightarrow> summary_text)"

end
