(* ===== verification/IntraCompaction.thy ===== *)
theory IntraCompaction
  imports HistoryFilter SummarizerFit SummarySampling Reminder RustFloat
begin

section \<open>Compaction during a turn\<close>

text \<open>
  Models \<open>hystersis-compaction/src/intra_compaction/\<close>: \<open>config.rs\<close>, \<open>trigger.rs\<close>, \<open>traits.rs\<close>,
  \<open>observer.rs\<close> and \<open>compact.rs\<close>.  The stream processor that holds the turns is an argument: its two
  views and its one mutator, functions of its state.  A pass threads the states of the sampler and of
  the stream processor and the log of the observer through.  Elapsed times are left out.  Ratios are
  the rationals of \<open>RustFloat\<close>.
\<close>

datatype intra_mode = FullReplaceMode | StepsOnly | HistoryOnly | HistoryThenSteps

datatype intra_summarizer = SharedSummarizer | LegacySummarizer

record intra_config =
  enabled :: bool
  compaction_mode :: intra_mode
  trigger_threshold_percent :: u8
  min_steps_before_compact :: u32
  min_compactable_tokens :: u32
  max_reduction_ratio :: rat
  compaction_model_name :: "rstr option"
  sampling_timeout_secs :: u64
  max_attempts :: u32
  retry_delay_secs :: u64
  compaction_version :: rstr
  summarizer :: intra_summarizer
  target_threshold_percent :: u8
  steps_trigger_ratio :: rat
  user_message_truncate_chars :: u32

definition DEFAULT_COMPACTION_MODEL_NAME :: rstr where
  "DEFAULT_COMPACTION_MODEL_NAME = ''hystersis-4.20''"

definition effective_compaction_model_name :: "intra_config \<Rightarrow> rstr" where
  "effective_compaction_model_name policy =
     (case map_option trim (compaction_model_name policy) of
        Some s \<Rightarrow> if s = '''' then DEFAULT_COMPACTION_MODEL_NAME else s
      | None \<Rightarrow> DEFAULT_COMPACTION_MODEL_NAME)"

definition intra_default :: intra_config where
  "intra_default =
     \<lparr>enabled = False, compaction_mode = FullReplaceMode, trigger_threshold_percent = 85,
      min_steps_before_compact = 3, min_compactable_tokens = 5000, max_reduction_ratio = f64_round (8 / 10),
      compaction_model_name = Some DEFAULT_COMPACTION_MODEL_NAME, sampling_timeout_secs = 120,
      max_attempts = 2, retry_delay_secs = 3, compaction_version = ''intra-v1'',
      summarizer = SharedSummarizer, target_threshold_percent = 50,
      steps_trigger_ratio = f64_round (3 / 10), user_message_truncate_chars = 3000\<rparr>"

subsection \<open>The trigger\<close>

record intra_trigger =
  last_prompt_tokens :: u32
  trigger_window :: u32
  trigger_percent :: u8
  trigger_step :: u32

record intra_result =
  tokens_before :: u32
  tokens_after :: u32
  turns_compacted :: u32
  result_summary :: rstr

datatype intra_error =
    NothingToCompact
  | Timeout
  | EmptyResponse
  | InsufficientReduction u32 u32
  | InvalidSplit nat nat
  | Unsupported
  | SamplerBuild rstr
  | SamplerStart rstr
  | SamplerStream rstr
  | Apply rstr

definition should_compact :: "intra_config \<Rightarrow> u32 \<Rightarrow> u32 \<Rightarrow> u32 \<Rightarrow> intra_trigger option" where
  "should_compact policy last_tokens window current_step =
     (if \<not> enabled policy then None
      else if window = 0 then None
      else if compaction_mode policy \<noteq> FullReplaceMode \<and> current_step < min_steps_before_compact policy then None
      else
        (let threshold = ucast (ucast window * ucast (trigger_threshold_percent policy) div 100 :: u64) :: u32
         in if last_tokens \<le> threshold then None
            else
              (let percent = ucast (min (ucast last_tokens * 100 div ucast window :: u64) 100) :: u8
               in Some \<lparr>last_prompt_tokens = last_tokens, trigger_window = window,
                        trigger_percent = percent, trigger_step = current_step\<rparr>)))"

subsection \<open>The stream processor and the observer\<close>

datatype compaction_target = Steps | History | FullReplaceTarget

definition target_label :: "compaction_target \<Rightarrow> rstr" where
  "target_label t =
     (case t of Steps \<Rightarrow> ''steps'' | History \<Rightarrow> ''history'' | FullReplaceTarget \<Rightarrow> ''full_replace'')"

record ('t, 'p) stream_ops =
  accumulated_turns :: "'p \<Rightarrow> 't list"
  history_turns :: "'p \<Rightarrow> 't list"
  replace_with_compaction :: "'p \<Rightarrow> compaction_target \<Rightarrow> nat \<Rightarrow> 't \<Rightarrow> (intra_error + unit) \<times> 'p"

definition all_turns :: "('t, 'p) stream_ops \<Rightarrow> 'p \<Rightarrow> 't list" where
  "all_turns stream p = history_turns stream p @ accumulated_turns stream p"

datatype intra_call =
    IntraError rstr
  | IntraSuccess compaction_target u32 u32 u32

record ('p, 's) pass_state =
  stream_state :: 'p
  sampler_state :: 's
  reports :: "intra_call list"

text \<open>What stays fixed in a pass: the operations, the sampler, the prompts, the policy and the counter.\<close>

record prompt_texts =
  summary_template :: rstr
  steps_prompt :: compaction_prompt
  developer_prompt :: "rstr + rstr"
  user_instruction :: "rstr + rstr"

record ('t, 'p, 's) harness =
  item_operations :: "'t builder_ops"
  stream :: "('t, 'p) stream_ops"
  the_sampler :: "('t, 's) sampler"
  prompts :: prompt_texts
  policy :: intra_config
  count_tokens :: "'t \<Rightarrow> u32"

definition error_status_label :: "intra_error \<Rightarrow> rstr" where
  "error_status_label e =
     (case e of
        NothingToCompact \<Rightarrow> ''nothing_to_compact''
      | Timeout \<Rightarrow> ''timeout''
      | EmptyResponse \<Rightarrow> ''empty_response''
      | InsufficientReduction _ _ \<Rightarrow> ''insufficient_reduction''
      | InvalidSplit _ _ \<Rightarrow> ''invalid_split''
      | Unsupported \<Rightarrow> ''unsupported''
      | SamplerBuild _ \<Rightarrow> ''sampler_build''
      | SamplerStart _ \<Rightarrow> ''sampler_start''
      | SamplerStream _ \<Rightarrow> ''sampler_stream''
      | Apply _ \<Rightarrow> ''apply'')"

subsection \<open>Sampling for a pass\<close>

definition compaction_sample_error_to_intra :: "compaction_sample_error \<Rightarrow> intra_error" where
  "compaction_sample_error_to_intra e =
     (case e of
        SampleTimeout _ _ \<Rightarrow> Timeout
      | SampleBuild msg \<Rightarrow> SamplerBuild msg
      | SampleStart msg \<Rightarrow> SamplerStart msg
      | SampleEmptyResponse \<Rightarrow> EmptyResponse
      | SampleOther msg \<Rightarrow>
          if contains msg ''Failed to build'' then SamplerBuild msg
          else if contains msg ''Failed to start'' then SamplerStart msg
          else if contains msg ''no response channel content'' then EmptyResponse
          else SamplerStream msg)"

definition is_transient :: "intra_error \<Rightarrow> bool" where
  "is_transient e =
     (case e of
        Timeout \<Rightarrow> True | EmptyResponse \<Rightarrow> True | SamplerStream _ \<Rightarrow> True | SamplerStart _ \<Rightarrow> True
      | _ \<Rightarrow> False)"

function legacy_from ::
  "('t, 's) sampler \<Rightarrow> 't list \<Rightarrow> compaction_prompt \<Rightarrow> u64 \<Rightarrow> nat \<Rightarrow> nat \<Rightarrow> intra_error option \<Rightarrow> 's \<Rightarrow>
   (intra_error + rstr) \<times> 's" where
  "legacy_from sampler turns prompt timeout attempts attempt last_err s =
     (if attempt \<le> attempts then
        (let (result, s) = sampler s turns prompt timeout
         in case result of
              Inr output \<Rightarrow> (Inr (response output), s)
            | Inl e \<Rightarrow>
                (let intra_err = compaction_sample_error_to_intra e
                 in if is_transient intra_err \<and> attempt < attempts
                    then legacy_from sampler turns prompt timeout attempts (attempt + 1) (Some intra_err) s
                    else (Inl intra_err, s)))
      else (Inl (case last_err of Some e \<Rightarrow> e | None \<Rightarrow> EmptyResponse), s))"
  by pat_completeness auto
termination
  by (relation "measure (\<lambda>(_, _, _, _, attempts, attempt, _, _). Suc attempts - attempt)") auto

declare legacy_from.simps [simp del]

definition sample_compaction_with_retries ::
  "('t, 's) sampler \<Rightarrow> 't list \<Rightarrow> compaction_prompt \<Rightarrow> u64 \<Rightarrow> intra_config \<Rightarrow> 's \<Rightarrow> (intra_error + rstr) \<times> 's" where
  "sample_compaction_with_retries sampler turns prompt timeout pol s =
     legacy_from sampler turns prompt timeout (max (unat (max_attempts pol)) 1) 1 None s"

definition sample_shared_summary_with_retries ::
  "rstr \<Rightarrow> ('t, 's) sampler \<Rightarrow> 't list \<Rightarrow> intra_config \<Rightarrow> 's \<Rightarrow> (intra_error + rstr) \<times> 's" where
  "sample_shared_summary_with_retries template sampler turns pol s =
     (let prompt = \<lparr>system_prompt = '''', user_prompt = build_summary_prompt template None\<rparr>;
          (result, _, s) = sample_summary_with_retries sampler turns prompt (max_attempts pol)
             (sampling_timeout_secs pol) [] s
      in (case result of
            Inr out \<Rightarrow> Inr (format_compact_summary (sampled out))
          | Inl (RetryEmpty _) \<Rightarrow> Inl EmptyResponse
          | Inl (RetryFailure message deterministic _ _) \<Rightarrow>
              Inl (if deterministic then SamplerBuild message else SamplerStream message), s))"

text \<open>The reduction guard: \<open>tokens_after > (before as f64 * ratio) as u32\<close>.\<close>

definition f64_as_u32 :: "rat \<Rightarrow> nat" where
  "f64_as_u32 a = min (nat \<lfloor>a\<rfloor>) (2 ^ 32 - 1)"

definition insufficient :: "u32 \<Rightarrow> u32 \<Rightarrow> rat \<Rightarrow> bool" where
  "insufficient before after ratio \<longleftrightarrow>
     0 < before \<and> f64_as_u32 (f64_mul (f64_of_nat (unat before)) ratio) < unat after"

subsection \<open>One pass with a kept tail\<close>

text \<open>
  The code's pass takes a target and is called with \<open>Steps\<close> and \<open>History\<close> only; its branches for
  \<open>FullReplace\<close> are marked unreachable, and the pass here takes one of these two.
\<close>

datatype pass_target = StepsPass | HistoryPass

definition target_of :: "pass_target \<Rightarrow> compaction_target" where
  "target_of t = (case t of StepsPass \<Rightarrow> Steps | HistoryPass \<Rightarrow> History)"

definition build_prompt_for_target :: "prompt_texts \<Rightarrow> pass_target \<Rightarrow> intra_error + compaction_prompt" where
  "build_prompt_for_target texts t =
     (case t of
        StepsPass \<Rightarrow> Inr (steps_prompt texts)
      | HistoryPass \<Rightarrow>
          (case developer_prompt texts of
             Inl e \<Rightarrow> Inl (SamplerBuild e)
           | Inr developer \<Rightarrow>
               (case user_instruction texts of
                  Inl e \<Rightarrow> Inl (SamplerBuild e)
                | Inr user \<Rightarrow> Inr \<lparr>system_prompt = developer, user_prompt = user\<rparr>)))"

definition source_turns :: "('t, 'p, 's) harness \<Rightarrow> pass_target \<Rightarrow> 'p \<Rightarrow> 't list" where
  "source_turns h t p =
     (case t of
        StepsPass \<Rightarrow> accumulated_turns (stream h) p
      | HistoryPass \<Rightarrow> history_turns (stream h) p)"

definition target_tokens :: "intra_config \<Rightarrow> intra_trigger \<Rightarrow> u32" where
  "target_tokens pol trigger =
     ucast (ucast (trigger_window trigger) * ucast (target_threshold_percent pol) div 100 :: u64)"

text \<open>What the model reads, and the queries of earlier summaries taken out of it.\<close>

definition turns_for_model :: "('t, 'p, 's) harness \<Rightarrow> pass_target \<Rightarrow> 't list \<Rightarrow> 't list \<times> rstr option" where
  "turns_for_model h t turns =
     (case t of
        StepsPass \<Rightarrow> (turns, None)
      | HistoryPass \<Rightarrow>
          (let separated = separate_prior_user_queries (item_operations h) turns
           in (turns_for_llm separated, prior_user_queries separated)))"

definition sample_for_pass ::
  "('t, 'p, 's) harness \<Rightarrow> pass_target \<Rightarrow> 't list \<Rightarrow> 's \<Rightarrow> (intra_error + rstr) \<times> 's" where
  "sample_for_pass h t turns s =
     (case summarizer (policy h) of
        LegacySummarizer \<Rightarrow>
          (case build_prompt_for_target (prompts h) t of
             Inl e \<Rightarrow> (Inl e, s)
           | Inr prompt \<Rightarrow>
               sample_compaction_with_retries (the_sampler h) turns prompt
                 (sampling_timeout_secs (policy h)) (policy h) s)
      | SharedSummarizer \<Rightarrow>
          sample_shared_summary_with_retries (summary_template (prompts h)) (the_sampler h) turns (policy h) s)"

definition final_summary_text ::
  "('t, 'p, 's) harness \<Rightarrow> pass_target \<Rightarrow> 't list \<Rightarrow> rstr option \<Rightarrow> rstr \<Rightarrow> rstr" where
  "final_summary_text h t turns prior summary_out =
     (case t of
        StepsPass \<Rightarrow> summary_out
      | HistoryPass \<Rightarrow>
          (let current = extract_user_queries_from_turns (item_operations h) turns
                 (user_message_truncate_chars (policy h));
               preamble = assemble_user_queries_preamble prior current
           in if preamble = '''' then summary_out else preamble @ summary_out))"

text \<open>The end of every pass: the guard, the commit and the report.\<close>

definition commit_summary ::
  "('t, 'p, 's) harness \<Rightarrow> compaction_target \<Rightarrow> nat \<Rightarrow> u32 \<Rightarrow> rstr \<Rightarrow> ('p, 's) pass_state \<Rightarrow>
   (intra_error + intra_result) \<times> ('p, 's) pass_state" where
  "commit_summary h target n before text_out st =
     (let turn = summary_item (item_operations h) text_out;
          after = count_tokens h turn
      in if insufficient before after (max_reduction_ratio (policy h))
         then (Inl (InsufficientReduction before after), st)
         else
           (let (applied, p) = replace_with_compaction (stream h) (stream_state st) target n turn;
                st = st\<lparr>stream_state := p\<rparr>
            in case applied of
                 Inl e \<Rightarrow> (Inl e, st)
               | Inr _ \<Rightarrow>
                   (Inr \<lparr>tokens_before = before, tokens_after = after, turns_compacted = of_nat n,
                         result_summary = text_out\<rparr>,
                    st\<lparr>reports := reports st @ [IntraSuccess target before after (of_nat n)]\<rparr>)))"

definition compact_one_pass ::
  "('t, 'p, 's) harness \<Rightarrow> intra_trigger \<Rightarrow> pass_target \<Rightarrow> ('p, 's) pass_state \<Rightarrow>
   (intra_error + intra_result) \<times> ('p, 's) pass_state" where
  "compact_one_pass h trigger t st =
     (let turns = source_turns h t (stream_state st)
      in if turns = [] then (Inl NothingToCompact, st)
         else
           (case select_turns_to_compact (item_operations h) (map (count_tokens h) turns) turns
                   (target_tokens (policy h) trigger) (min_compactable_tokens (policy h)) of
              None \<Rightarrow> (Inl NothingToCompact, st)
            | Some plan \<Rightarrow>
                (let turns_to_compact = take (split_idx plan) turns;
                     (llm_turns, prior) = turns_for_model h t turns_to_compact;
                     (sampled, s) = sample_for_pass h t llm_turns (sampler_state st);
                     st = st\<lparr>sampler_state := s\<rparr>
                 in case sampled of
                      Inl e \<Rightarrow> (Inl e, st)
                    | Inr summary_out \<Rightarrow>
                        commit_summary h (target_of t) (split_idx plan) (tokens_to_compact plan)
                          (final_summary_text h t turns_to_compact prior summary_out) st)))"

definition apply_steps_compaction ::
  "('t, 'p, 's) harness \<Rightarrow> intra_trigger \<Rightarrow> ('p, 's) pass_state \<Rightarrow> (intra_error + intra_result) \<times> ('p, 's) pass_state" where
  "apply_steps_compaction h trigger st = compact_one_pass h trigger StepsPass st"

definition apply_history_compaction ::
  "('t, 'p, 's) harness \<Rightarrow> intra_trigger \<Rightarrow> ('p, 's) pass_state \<Rightarrow> (intra_error + intra_result) \<times> ('p, 's) pass_state" where
  "apply_history_compaction h trigger st = compact_one_pass h trigger HistoryPass st"

subsection \<open>Full replacement, and history before steps\<close>

text \<open>The tokens before are added in 32 bits, unlike everywhere else without saturation.\<close>

definition apply_full_replace ::
  "('t, 'p, 's) harness \<Rightarrow> rstr option \<Rightarrow> u32 option \<Rightarrow> ('p, 's) pass_state \<Rightarrow>
   (intra_error + intra_result) \<times> ('p, 's) pass_state" where
  "apply_full_replace h active_reminder summarizer_input_budget st =
     (let history = history_turns (stream h) (stream_state st);
          steps = accumulated_turns (stream h) (stream_state st);
          total_turns = length history + length steps;
          before = sum_list (map (count_tokens h) (history @ steps))
      in if total_turns = 0 then (Inl NothingToCompact, st)
         else if before < min_compactable_tokens (policy h) then (Inl NothingToCompact, st)
         else
           (case (case summarizer_input_budget of
                    Some budget \<Rightarrow>
                      (let plan = fit_turns_for_summarizer (item_operations h) history steps (count_tokens h) budget
                       in if llm_turns plan = [] \<or> tokens_fit plan = 0 then None else Some (llm_turns plan))
                  | None \<Rightarrow> Some (history @ steps)) of
              None \<Rightarrow> (Inl NothingToCompact, st)
            | Some turns \<Rightarrow>
                (let (sampled, s) = sample_shared_summary_with_retries (summary_template (prompts h))
                       (the_sampler h) turns (policy h) (sampler_state st);
                     st = st\<lparr>sampler_state := s\<rparr>
                 in case sampled of
                      Inl e \<Rightarrow> (Inl e, st)
                    | Inr summary_out \<Rightarrow>
                        commit_summary h FullReplaceTarget total_turns before
                          (append_reminder_block summary_out active_reminder) st)))"

definition sum_u64 :: "('t \<Rightarrow> u32) \<Rightarrow> 't list \<Rightarrow> u64" where
  "sum_u64 cnt turns = sum_list (map (\<lambda>t. ucast (cnt t)) turns)"

definition f64_ceil_as_u64 :: "rat \<Rightarrow> nat" where
  "f64_ceil_as_u64 a = min (nat \<lceil>a\<rceil>) u64_max"

definition join_results :: "intra_result \<Rightarrow> intra_result \<Rightarrow> intra_result" where
  "join_results h s =
     \<lparr>tokens_before = sat_add (tokens_before h) (tokens_before s),
      tokens_after = sat_add (tokens_after h) (tokens_after s),
      turns_compacted = sat_add (turns_compacted h) (turns_compacted s),
      result_summary =
        (if result_summary h = '''' then result_summary s
         else if result_summary s = '''' then result_summary h
         else result_summary h @ nl @ nl @ result_summary s)\<rparr>"

definition apply_history_then_steps ::
  "('t, 'p, 's) harness \<Rightarrow> intra_trigger \<Rightarrow> ('p, 's) pass_state \<Rightarrow> (intra_error + intra_result) \<times> ('p, 's) pass_state" where
  "apply_history_then_steps h trigger st =
     (let (history_result, st) = apply_history_compaction h trigger st
      in if (case history_result of Inl e \<Rightarrow> e \<noteq> NothingToCompact | Inr _ \<Rightarrow> False)
         then (history_result, st)
         else
           (let steps_tokens = sum_u64 (count_tokens h) (accumulated_turns (stream h) (stream_state st));
                history_tokens = sum_u64 (count_tokens h) (history_turns (stream h) (stream_state st));
                ratio_threshold_tokens =
                  f64_ceil_as_u64 (f64_mul (f64_of_nat (unat history_tokens)) (steps_trigger_ratio (policy h)))
            in if unat steps_tokens \<le> ratio_threshold_tokens then (history_result, st)
               else
                 (let (steps_result, st) = apply_steps_compaction h trigger st
                  in (case (history_result, steps_result) of
                        (Inr r, Inr s) \<Rightarrow> Inr (join_results r s)
                      | (Inr r, Inl NothingToCompact) \<Rightarrow> Inr r
                      | (Inl _, Inr s) \<Rightarrow> Inr s
                      | (_, Inl e) \<Rightarrow> Inl e, st))))"

definition apply_intra_compaction ::
  "('t, 'p, 's) harness \<Rightarrow> intra_trigger \<Rightarrow> rstr option \<Rightarrow> u32 option \<Rightarrow> ('p, 's) pass_state \<Rightarrow>
   (intra_error + intra_result) \<times> ('p, 's) pass_state" where
  "apply_intra_compaction h trigger active_reminder summarizer_input_budget st =
     (let (result, st) =
            (case compaction_mode (policy h) of
               FullReplaceMode \<Rightarrow> apply_full_replace h active_reminder summarizer_input_budget st
             | StepsOnly \<Rightarrow> apply_steps_compaction h trigger st
             | HistoryOnly \<Rightarrow> apply_history_compaction h trigger st
             | HistoryThenSteps \<Rightarrow> apply_history_then_steps h trigger st)
      in case result of
           Inl e \<Rightarrow> (result, st\<lparr>reports := reports st @ [IntraError (error_status_label e)]\<rparr>)
         | Inr _ \<Rightarrow> (result, st))"

section \<open>The contract of a stream processor\<close>

text \<open>
  What the documentation of the trait promises: an error leaves the turns as they are, and a success
  puts the one summary in the place of the first \<open>n\<close> turns of the view of the target, all of them
  for a full replacement, and leaves the other view alone.
\<close>

locale compaction_stream =
  fixes stream_impl :: "('t, 'p) stream_ops"
  assumes failed_replace:
      "replace_with_compaction stream_impl p target n turn = (Inl e, q) \<Longrightarrow> q = p"
    and replaced_steps:
      "replace_with_compaction stream_impl p Steps n turn = (Inr u, q) \<Longrightarrow>
       n \<le> length (accumulated_turns stream_impl p) \<and>
       accumulated_turns stream_impl q = turn # drop n (accumulated_turns stream_impl p) \<and>
       history_turns stream_impl q = history_turns stream_impl p"
    and replaced_history:
      "replace_with_compaction stream_impl p History n turn = (Inr u, q) \<Longrightarrow>
       n \<le> length (history_turns stream_impl p) \<and>
       history_turns stream_impl q = turn # drop n (history_turns stream_impl p) \<and>
       accumulated_turns stream_impl q = accumulated_turns stream_impl p"
    and replaced_all:
      "replace_with_compaction stream_impl p FullReplaceTarget n turn = (Inr u, q) \<Longrightarrow>
       all_turns stream_impl q = [turn]"

text \<open>The stream processor that the crate itself has, in its tests: it keeps steps only.\<close>

record 't mock_stream =
  mock_turns :: "'t list"
  applied :: "(nat \<times> 't) option"

definition mock_replace ::
  "'t mock_stream \<Rightarrow> compaction_target \<Rightarrow> nat \<Rightarrow> 't \<Rightarrow> (intra_error + unit) \<times> 't mock_stream" where
  "mock_replace p target n turn =
     (case target of
        Steps \<Rightarrow>
          if length (mock_turns p) < n then (Inl (InvalidSplit n (length (mock_turns p))), p)
          else (Inr (), p\<lparr>mock_turns := turn # drop n (mock_turns p), applied := Some (n, turn)\<rparr>)
      | FullReplaceTarget \<Rightarrow> (Inr (), p\<lparr>mock_turns := [turn], applied := Some (n, turn)\<rparr>)
      | History \<Rightarrow> (Inl Unsupported, p))"

definition mock_ops :: "('t, 't mock_stream) stream_ops" where
  "mock_ops =
     \<lparr>accumulated_turns = mock_turns, history_turns = (\<lambda>_. []), replace_with_compaction = mock_replace\<rparr>"

interpretation mock: compaction_stream mock_ops
  by unfold_locales
    (auto simp: mock_ops_def mock_replace_def all_turns_def split: compaction_target.splits if_splits)

section \<open>A pass commits or leaves the turns alone\<close>

text \<open>The view a target replaces a part of.\<close>

definition view_of :: "('t, 'p) stream_ops \<Rightarrow> compaction_target \<Rightarrow> 'p \<Rightarrow> 't list" where
  "view_of s target p =
     (case target of
        Steps \<Rightarrow> accumulated_turns s p
      | History \<Rightarrow> history_turns s p
      | FullReplaceTarget \<Rightarrow> all_turns s p)"

definition other_view :: "('t, 'p) stream_ops \<Rightarrow> compaction_target \<Rightarrow> 'p \<Rightarrow> 't list" where
  "other_view s target p =
     (case target of
        Steps \<Rightarrow> history_turns s p
      | History \<Rightarrow> accumulated_turns s p
      | FullReplaceTarget \<Rightarrow> [])"

text \<open>A committed pass: what the stream holds after it and what the result and the report say.\<close>

definition committed ::
  "('t, 'p, 's) harness \<Rightarrow> compaction_target \<Rightarrow> intra_result \<Rightarrow> ('p, 's) pass_state \<Rightarrow> ('p, 's) pass_state \<Rightarrow> bool" where
  "committed h target r st st' \<longleftrightarrow>
     (let turn = summary_item (item_operations h) (result_summary r)
      in (\<exists>n \<le> length (view_of (stream h) target (stream_state st)).
            view_of (stream h) target (stream_state st') =
              turn # drop n (view_of (stream h) target (stream_state st)) \<and>
            turns_compacted r = of_nat n) \<and>
         other_view (stream h) target (stream_state st') = other_view (stream h) target (stream_state st) \<and>
         tokens_after r = count_tokens h turn \<and>
         \<not> insufficient (tokens_before r) (tokens_after r) (max_reduction_ratio (policy h)) \<and>
         reports st' = reports st @ [IntraSuccess target (tokens_before r) (tokens_after r) (turns_compacted r)])"

definition pass_outcome ::
  "('t, 'p, 's) harness \<Rightarrow> compaction_target \<Rightarrow> intra_error + intra_result \<Rightarrow>
   ('p, 's) pass_state \<Rightarrow> ('p, 's) pass_state \<Rightarrow> bool" where
  "pass_outcome h target result st st' \<longleftrightarrow>
     (case result of
        Inl e \<Rightarrow> stream_state st' = stream_state st \<and> reports st' = reports st
      | Inr r \<Rightarrow> committed h target r st st')"

context compaction_stream
begin

lemma replaced_view:
  assumes "replace_with_compaction stream_impl p target n turn = (Inr u, q)"
    and "target = FullReplaceTarget \<longrightarrow> n = length (all_turns stream_impl p)"
  shows "n \<le> length (view_of stream_impl target p) \<and>
         view_of stream_impl target q = turn # drop n (view_of stream_impl target p) \<and>
         other_view stream_impl target q = other_view stream_impl target p"
  using assms replaced_steps replaced_history replaced_all
  by (cases target) (auto simp: view_of_def other_view_def)

lemma commit_outcome:
  assumes "stream h = stream_impl" and "commit_summary h target n before text_out st = (result, st')"
    and "target = FullReplaceTarget \<longrightarrow> n = length (all_turns stream_impl (stream_state st))"
  shows "pass_outcome h target result st st'"
proof -
  let ?turn = "summary_item (item_operations h) text_out"
  obtain a q where r: "replace_with_compaction stream_impl (stream_state st) target n ?turn = (a, q)" by fastforce
  show ?thesis
  proof (cases a)
    case (Inl e)
    then have "q = stream_state st" using r failed_replace by blast
    then show ?thesis using assms(1,2) r Inl
      by (auto simp: commit_summary_def pass_outcome_def Let_def split: if_splits)
  next
    case (Inr u)
    note v = replaced_view [OF r [unfolded Inr] assms(3)]
    show ?thesis using assms(1,2) r Inr v
      by (auto simp: commit_summary_def pass_outcome_def committed_def Let_def split: if_splits)
  qed
qed

lemma one_pass_outcome:
  assumes "stream h = stream_impl" and "compact_one_pass h trigger t st = (result, st')"
  shows "pass_outcome h (target_of t) result st st'"
proof -
  let ?turns = "source_turns h t (stream_state st)"
  let ?sel = "select_turns_to_compact (item_operations h) (map (count_tokens h) ?turns) ?turns
      (target_tokens (policy h) trigger) (min_compactable_tokens (policy h))"
  show ?thesis
  proof (cases "?turns = [] \<or> ?sel = None")
    case True
    then show ?thesis using assms(2)
      by (auto simp: compact_one_pass_def pass_outcome_def Let_def split: if_splits)
  next
    case False
    then obtain plan where plan: "?sel = Some plan" by blast
    obtain llm prior where m: "turns_for_model h t (take (split_idx plan) ?turns) = (llm, prior)" by fastforce
    obtain r s where sm: "sample_for_pass h t llm (sampler_state st) = (r, s)" by fastforce
    show ?thesis
    proof (cases r)
      case (Inl e)
      then show ?thesis using assms(2) False plan m sm
        by (auto simp: compact_one_pass_def pass_outcome_def Let_def)
    next
      case (Inr out)
      then have c: "commit_summary h (target_of t) (split_idx plan) (tokens_to_compact plan)
          (final_summary_text h t (take (split_idx plan) ?turns) prior out) (st\<lparr>sampler_state := s\<rparr>) = (result, st')"
        using assms(2) False plan m sm by (simp add: compact_one_pass_def Let_def)
      have "target_of t \<noteq> FullReplaceTarget" by (simp add: target_of_def split: pass_target.splits)
      then have "pass_outcome h (target_of t) result (st\<lparr>sampler_state := s\<rparr>) st'"
        using commit_outcome [OF assms(1) c] by simp
      then show ?thesis by (simp add: pass_outcome_def committed_def split: sum.splits)
    qed
  qed
qed

lemma full_replace_outcome:
  assumes "stream h = stream_impl" and "apply_full_replace h reminder budget st = (result, st')"
  shows "pass_outcome h FullReplaceTarget result st st'"
proof -
  let ?history = "history_turns stream_impl (stream_state st)"
  let ?steps = "accumulated_turns stream_impl (stream_state st)"
  let ?n = "length ?history + length ?steps"
  have all: "?n = length (all_turns stream_impl (stream_state st))" by (simp add: all_turns_def)
  have quiet: "pass_outcome h FullReplaceTarget (Inl e) st (st\<lparr>sampler_state := s\<rparr>)" for e s
    by (simp add: pass_outcome_def)
  have commit: "pass_outcome h FullReplaceTarget result st st'"
    if "commit_summary h FullReplaceTarget ?n before out (st\<lparr>sampler_state := s\<rparr>) = (result, st')" for before out s
  proof -
    have "pass_outcome h FullReplaceTarget result (st\<lparr>sampler_state := s\<rparr>) st'"
      by (rule commit_outcome [OF assms(1) that]) (simp add: all)
    then show ?thesis by (simp add: pass_outcome_def committed_def split: sum.splits)
  qed
  show ?thesis using assms(2) quiet commit
    by (auto simp: apply_full_replace_def assms(1) Let_def pass_outcome_def split: if_splits option.splits sum.splits prod.splits)
qed

end

text \<open>The target of the modes that run one pass.\<close>

definition mode_target :: "intra_mode \<Rightarrow> compaction_target" where
  "mode_target m =
     (case m of
        FullReplaceMode \<Rightarrow> FullReplaceTarget | StepsOnly \<Rightarrow> Steps | HistoryOnly \<Rightarrow> History
      | HistoryThenSteps \<Rightarrow> Steps)"

text \<open>
  C35: In every mode of one pass, a compaction commits or leaves the turns alone.  With a stream
  processor that keeps the contract of its trait, an error, wherever it comes from, leaves the turns
  unchanged and is reported once, under its label.  A success has put exactly the summary it returns in
  the place of the oldest turns of its view, as many as it says, left the other view alone, passed
  the reduction guard with the tokens it states, and is reported once.
\<close>

theorem pass_commits_or_leaves:
  assumes "compaction_stream (stream h)" and "compaction_mode (policy h) \<noteq> HistoryThenSteps"
    and "apply_intra_compaction h trigger reminder budget st = (result, st')"
  shows "case result of
           Inl e \<Rightarrow> stream_state st' = stream_state st \<and>
             reports st' = reports st @ [IntraError (error_status_label e)]
         | Inr r \<Rightarrow> committed h (mode_target (compaction_mode (policy h))) r st st'"
proof -
  have "target_of StepsPass = Steps" "target_of HistoryPass = History" by (simp_all add: target_of_def)
  then obtain st1 where "pass_outcome h (mode_target (compaction_mode (policy h))) result st st1"
    and "st' = (case result of Inl e \<Rightarrow> st1\<lparr>reports := reports st1 @ [IntraError (error_status_label e)]\<rparr> | Inr _ \<Rightarrow> st1)"
    using assms(2,3) compaction_stream.full_replace_outcome [OF assms(1) refl]
      compaction_stream.one_pass_outcome [OF assms(1) refl]
    by (cases "compaction_mode (policy h)")
      (fastforce simp: apply_intra_compaction_def apply_steps_compaction_def apply_history_compaction_def
        mode_target_def split: prod.splits sum.splits)+
  then show ?thesis by (cases result) (simp_all add: pass_outcome_def)
qed

definition sample_policy :: intra_config where
  "sample_policy = intra_default\<lparr>compaction_mode := StepsOnly, summarizer := LegacySummarizer,
     min_compactable_tokens := 1, max_reduction_ratio := 1\<rparr>"

definition sample_harness :: "(conversation_item, conversation_item mock_stream, unit) harness" where
  "sample_harness =
     \<lparr>item_operations = sample_builder, stream = mock_ops,
      the_sampler = (\<lambda>s _ _ _. (Inr \<lparr>response = ''S'', thinking = ''''\<rparr>, s)),
      prompts = \<lparr>summary_template = '''', steps_prompt = \<lparr>system_prompt = '''', user_prompt = ''''\<rparr>,
        developer_prompt = Inr '''', user_instruction = Inr ''''\<rparr>,
      policy = sample_policy, count_tokens = (\<lambda>_. 10)\<rparr>"

definition sample_pass :: "(conversation_item mock_stream, unit) pass_state" where
  "sample_pass =
     \<lparr>stream_state = \<lparr>mock_turns = [user_msg ''a'', user_msg ''b'', user_msg ''c''], applied = None\<rparr>,
      sampler_state = (), reports = []\<rparr>"

definition sample_trigger :: intra_trigger where
  "sample_trigger = \<lparr>last_prompt_tokens = 30, trigger_window = 20, trigger_percent = 100, trigger_step = 3\<rparr>"

lemma sample_harness_fields [simp]:
  "stream sample_harness = mock_ops" "item_operations sample_harness = sample_builder"
  "policy sample_harness = sample_policy" "count_tokens sample_harness = (\<lambda>_. 10)"
  "compaction_mode sample_policy = StepsOnly" "max_reduction_ratio sample_policy = 1"
  "min_compactable_tokens sample_policy = 1" "target_threshold_percent sample_policy = 50"
  "summarizer sample_policy = LegacySummarizer" "summary_item sample_builder = user_meta"
  by (simp_all add: sample_harness_def sample_policy_def sample_builder_def intra_default_def item_ops.extend_def)

lemma sample_selection:
  "select_turns_to_compact sample_builder [10, 10, 10] [user_msg a, user_msg b, user_msg c] 10 1 =
   Some \<lparr>split_idx = 2, tokens_to_compact = 20\<rparr>"
  by (simp add: select_turns_to_compact_def snap_to_safe_boundary_def sat_add_def Let_def)

lemma sample_sampling: "sample_for_pass sample_harness StepsPass turns () = (Inr ''S'', ())"
  by (simp add: sample_for_pass_def build_prompt_for_target_def sample_compaction_with_retries_def legacy_from.simps)
    (simp add: sample_harness_def)

lemma f64_mul_one: "n < 2 ^ 53 \<Longrightarrow> f64_mul (f64_of_nat n) 1 = of_nat n"
  using f64_of_nat_exact [of n] by (simp add: f64_mul_def f64_of_nat_def)

lemma pass_commits_or_leaves_witness:
  "\<exists>r st'. apply_intra_compaction sample_harness sample_trigger None None sample_pass = (Inr r, st') \<and>
     accumulated_turns mock_ops (stream_state st') = [user_meta ''S'', user_msg ''c''] \<and>
     committed sample_harness Steps r sample_pass st'"
proof -
  have "target_tokens sample_policy sample_trigger = 10"
    by (simp add: target_tokens_def sample_trigger_def)
  then have run: "apply_intra_compaction sample_harness sample_trigger None None sample_pass =
      (Inr \<lparr>tokens_before = 20, tokens_after = 10, turns_compacted = 2, result_summary = ''S''\<rparr>,
       \<lparr>stream_state = \<lparr>mock_turns = [user_meta ''S'', user_msg ''c''], applied = Some (2, user_meta ''S'')\<rparr>,
        sampler_state = (), reports = [IntraSuccess Steps 20 10 2]\<rparr>)"
    using f64_mul_one [of 20]
    by (simp add: apply_intra_compaction_def apply_steps_compaction_def compact_one_pass_def source_turns_def
        sample_pass_def mock_ops_def sample_selection turns_for_model_def sample_sampling commit_summary_def
        final_summary_text_def insufficient_def f64_as_u32_def mock_replace_def target_of_def Let_def)
  from pass_commits_or_leaves [OF _ _ this] have "committed sample_harness Steps
      \<lparr>tokens_before = 20, tokens_after = 10, turns_compacted = 2, result_summary = ''S''\<rparr> sample_pass
      \<lparr>stream_state = \<lparr>mock_turns = [user_meta ''S'', user_msg ''c''], applied = Some (2, user_meta ''S'')\<rparr>,
        sampler_state = (), reports = [IntraSuccess Steps 20 10 2]\<rparr>"
    using mock.compaction_stream_axioms by (simp add: mode_target_def)
  then show ?thesis using run by (auto simp: mock_ops_def)
qed

section \<open>History first, then the steps\<close>

lemma history_then_steps_cases:
  assumes "apply_history_then_steps h trigger st = (result, st')"
    and "apply_history_compaction h trigger st = (hist, st1)"
  obtains "result = hist" "st' = st1"
  | steps where "apply_steps_compaction h trigger st1 = (steps, st')"
      "result = (case (hist, steps) of
         (Inr r, Inr s) \<Rightarrow> Inr (join_results r s)
       | (Inr r, Inl NothingToCompact) \<Rightarrow> Inr r
       | (Inl _, Inr s) \<Rightarrow> Inr s
       | (_, Inl e) \<Rightarrow> Inl e)" "\<forall>e. hist = Inl e \<longrightarrow> e = NothingToCompact"
  using assms unfolding apply_history_then_steps_def Let_def
  by (auto split: if_splits prod.splits sum.splits)

text \<open>What the mode leaves behind when the history pass committed, and when it found nothing.\<close>

definition after_history ::
  "('t, 'p, 's) harness \<Rightarrow> intra_error + intra_result \<Rightarrow> intra_result \<Rightarrow>
   ('p, 's) pass_state \<Rightarrow> ('p, 's) pass_state \<Rightarrow> bool" where
  "after_history h result r1 st1 st' \<longleftrightarrow>
     (case result of
        Inl e \<Rightarrow> e \<noteq> NothingToCompact \<and> stream_state st' = stream_state st1
      | Inr r \<Rightarrow> r = r1 \<and> stream_state st' = stream_state st1 \<or>
          (\<exists>r2. committed h Steps r2 st1 st' \<and> r = join_results r1 r2))"


text \<open>A stream with both views, as its list pair, and a sampler that answers once.\<close>

definition pair_replace ::
  "'t list \<times> 't list \<Rightarrow> compaction_target \<Rightarrow> nat \<Rightarrow> 't \<Rightarrow> (intra_error + unit) \<times> 't list \<times> 't list" where
  "pair_replace p target n turn =
     (case target of
        Steps \<Rightarrow> if length (snd p) < n then (Inl (InvalidSplit n (length (snd p))), p)
                 else (Inr (), fst p, turn # drop n (snd p))
      | History \<Rightarrow> if length (fst p) < n then (Inl (InvalidSplit n (length (fst p))), p)
                   else (Inr (), turn # drop n (fst p), snd p)
      | FullReplaceTarget \<Rightarrow> (Inr (), [turn], []))"

definition pair_ops :: "('t, 't list \<times> 't list) stream_ops" where
  "pair_ops =
     \<lparr>accumulated_turns = snd, history_turns = fst, replace_with_compaction = pair_replace\<rparr>"

interpretation pair: compaction_stream pair_ops
  by unfold_locales
    (auto simp: pair_ops_def pair_replace_def all_turns_def split: compaction_target.splits if_splits)

definition once_harness :: "(conversation_item, conversation_item list \<times> conversation_item list, nat) harness" where
  "once_harness =
     \<lparr>item_operations = sample_builder, stream = pair_ops,
      the_sampler = (\<lambda>n _ _ _. if n = 0 then (Inr \<lparr>response = ''S'', thinking = ''''\<rparr>, 1)
                               else (Inl (SampleBuild ''x''), n)),
      prompts = prompts sample_harness, policy = sample_policy\<lparr>steps_trigger_ratio := 1\<rparr>,
      count_tokens = (\<lambda>_. 10)\<rparr>"

abbreviation three_turns :: "conversation_item list" where
  "three_turns \<equiv> [user_msg ''a'', user_msg ''b'', user_msg ''c'']"

definition once_pass :: "(conversation_item list \<times> conversation_item list, nat) pass_state" where
  "once_pass = \<lparr>stream_state = (three_turns, three_turns), sampler_state = 0, reports = []\<rparr>"

lemma once_harness_fields [simp]:
  "stream once_harness = pair_ops" "item_operations once_harness = sample_builder"
  "policy once_harness = sample_policy\<lparr>steps_trigger_ratio := 1\<rparr>" "count_tokens once_harness = (\<lambda>_. 10)"
  "target_tokens (sample_policy\<lparr>steps_trigger_ratio := 1\<rparr>) sample_trigger = 10"
  by (simp_all add: once_harness_def target_tokens_def sample_trigger_def)

lemma once_sampling:
  "sample_for_pass once_harness t turns 0 = (Inr ''S'', 1)"
  "sample_for_pass once_harness t turns 1 = (Inl (SamplerBuild ''x''), 1)"
proof -
  obtain prompt where "build_prompt_for_target (prompts once_harness) t = Inr prompt"
    by (cases t) (auto simp: build_prompt_for_target_def once_harness_def sample_harness_def)
  then show "sample_for_pass once_harness t turns 0 = (Inr ''S'', 1)"
    and "sample_for_pass once_harness t turns 1 = (Inl (SamplerBuild ''x''), 1)"
    by (simp_all add: sample_for_pass_def sample_compaction_with_retries_def legacy_from.simps)
      (simp_all add: once_harness_def compaction_sample_error_to_intra_def is_transient_def)
qed

definition once_text :: rstr where
  "once_text = final_summary_text once_harness HistoryPass [user_msg ''a'', user_msg ''b''] None ''S''"

lemma once_separate:
  "turns_for_model once_harness HistoryPass [user_msg a, user_msg b] = ([user_msg a, user_msg b], None)"
  by (simp add: turns_for_model_def separate_prior_user_queries_def separate_turn_def Let_def
      sample_builder_def item_ops.extend_def conversation_ops_def is_compaction_summary_def)


section \<open>The trigger compares exactly\<close>

lemma unat_ucast_up: "LENGTH('a::len) \<le> LENGTH('b::len) \<Longrightarrow> unat (ucast (x :: 'a word) :: 'b word) = unat x"
proof -
  assume "LENGTH('a) \<le> LENGTH('b)"
  then have "(2::nat) ^ LENGTH('a) \<le> 2 ^ LENGTH('b)" by (rule power_increasing) simp
  then have "unat x < 2 ^ LENGTH('b)" using unat_below [of x] by linarith
  then show ?thesis by (simp add: unsigned_ucast_eq take_bit_nat_eq_self_iff)
qed

lemma threshold_exact:
  assumes "unat (p :: u8) \<le> 100"
  shows "unat (ucast (ucast (w :: u32) * ucast p div 100 :: u64) :: u32) = unat w * unat p div 100"
proof -
  have w: "unat w < 2 ^ 32" using unat_below [of w] by simp
  have m: "unat w * unat p \<le> unat w * 100" by (rule mult_le_mono2) (rule assms)
  have "unat w * unat p < 2 ^ 64" by (rule le_less_trans [OF m]) (use w in simp)
  then have "unat (ucast w * ucast p :: u64) = unat w * unat p"
    using m w by (simp add: unat_word_ariths unat_ucast_up)
  moreover have "unat w * unat p div 100 < 2 ^ 32"
    using le_less_trans [OF m, of "2 ^ 32 * 100"] w by (simp add: div_less_iff_less_mult)
  ultimately show ?thesis by (simp add: unat_div unsigned_ucast_eq take_bit_nat_eq_self_iff)
qed

text \<open>
  With a threshold of at most 100 percent, the trigger fires exactly when compaction is enabled,
  the window is not empty, enough steps are done (a full replacement needs none) and the tokens
  exceed the percentage of the window, compared without rounding; the percentage it reports is at
  least the threshold and at most 100.
\<close>

theorem trigger_exact:
  assumes "unat (trigger_threshold_percent pol) \<le> 100"
  shows "(case should_compact pol tokens window step of
            None \<Rightarrow> \<not> (enabled pol \<and> window \<noteq> 0 \<and>
              (compaction_mode pol = FullReplaceMode \<or> min_steps_before_compact pol \<le> step) \<and>
              unat window * unat (trigger_threshold_percent pol) < unat tokens * 100)
          | Some t \<Rightarrow> enabled pol \<and> window \<noteq> 0 \<and>
              (compaction_mode pol = FullReplaceMode \<or> min_steps_before_compact pol \<le> step) \<and>
              unat window * unat (trigger_threshold_percent pol) < unat tokens * 100 \<and>
              unat (trigger_threshold_percent pol) \<le> unat (trigger_percent t) \<and>
              unat (trigger_percent t) = min (unat tokens * 100 div unat window) 100)"
proof -
  let ?p = "unat (trigger_threshold_percent pol)"
  let ?threshold = "ucast (ucast window * ucast (trigger_threshold_percent pol) div 100 :: u64) :: u32"
  have le: "tokens \<le> ?threshold \<longleftrightarrow> unat tokens * 100 \<le> unat window * ?p"
    using threshold_exact [OF assms, of window]
    by (simp add: word_le_nat_alt less_eq_div_iff_mult_less_eq)
  have small: "unat tokens * 100 < 2 ^ 64" using unat_below [of tokens] by simp
  have "unat (ucast tokens * 100 :: u64) = unat tokens * 100"
    using small by (simp add: unat_word_ariths unat_ucast_up)
  then have q: "unat (ucast tokens * 100 div ucast window :: u64) = unat tokens * 100 div unat window"
    by (simp add: unat_div unat_ucast_up)
  have pc: "unat (ucast (min (ucast tokens * 100 div ucast window :: u64) 100) :: u8) =
      min (unat tokens * 100 div unat window) 100"
    using q by (simp add: min_def word_le_nat_alt unsigned_ucast_eq take_bit_nat_eq_self_iff)
  have ge: "?p \<le> min (unat tokens * 100 div unat window) 100"
    if "window \<noteq> 0" "unat window * ?p < unat tokens * 100"
    using that assms by (simp add: less_eq_div_iff_mult_less_eq unat_gt_0 mult.commute)
  show ?thesis
    using le pc ge by (auto simp: should_compact_def Let_def not_le not_less split: if_splits)
qed

lemma trigger_exact_witness:
  "should_compact (intra_default\<lparr>enabled := True\<rparr>) 85001 100000 0 \<noteq> None"
  using trigger_exact [where pol = "intra_default\<lparr>enabled := True\<rparr>" and tokens = 85001 and window = 100000 and step = 0]
  by (auto simp: intra_default_def split: option.splits)

end
