(* ===== verification/InterCompaction.thy ===== *)
theory InterCompaction
  imports HistoryFilter SummarizerFit SummarySampling
begin

section \<open>Compaction between turns\<close>

text \<open>
  Models \<open>hystersis-compaction/src/inter_compaction/\<close>: \<open>config.rs\<close>, \<open>observer.rs\<close> and \<open>compact.rs\<close>, the
  pipeline that filters the turns, takes the user queries of earlier summaries out, cuts the rest into
  chunks within a token limit, summarizes each and joins the results.  The two prompts are an
  argument; the identifiers that only go to the log lines are left out.
\<close>

record inter_config =
  inter_model_name :: rstr
  inter_timeout_secs :: u64
  inter_strategy :: compaction_strategy
  dnc_chunk_token_limit :: u32
  user_message_compact_threshold :: u32

datatype inter_call =
    OnRecompaction rstr
  | OnChunkSampled bool
  | OnChunkCount nat

definition UNBOUNDED_CHUNK_LIMIT :: u32 where
  "UNBOUNDED_CHUNK_LIMIT = - 1"

record chunked_compaction_output =
  combined_text :: rstr
  analysis_text :: rstr

definition flush_chunk ::
  "compaction_prompt \<Rightarrow> inter_config \<Rightarrow> ('t, 's) sampler \<Rightarrow> 't list \<Rightarrow> inter_call list \<Rightarrow> 's \<Rightarrow>
   (compaction_sample_error + llm_compaction_output) \<times> inter_call list \<times> 's" where
  "flush_chunk prompt config sampler turns obs s =
     (let (result, s) = sampler s turns prompt (inter_timeout_secs config)
      in (result, obs @ [OnChunkSampled (case result of Inr _ \<Rightarrow> True | Inl _ \<Rightarrow> False)], s))"

text \<open>The loop over the turns: the current chunk with its tokens, and the answers so far.\<close>

fun chunk_loop ::
  "compaction_prompt \<Rightarrow> inter_config \<Rightarrow> ('t, 's) sampler \<Rightarrow> ('t \<Rightarrow> u32) \<Rightarrow> u32 \<Rightarrow> 't list \<Rightarrow> 't list \<Rightarrow> u32 \<Rightarrow>
   llm_compaction_output list \<Rightarrow> inter_call list \<Rightarrow> 's \<Rightarrow>
   (compaction_sample_error + 't list \<times> llm_compaction_output list) \<times> inter_call list \<times> 's" where
  "chunk_loop prompt config sampler cnt limit [] compactable chunk_tokens outputs obs s =
     (Inr (compactable, outputs), obs, s)"
| "chunk_loop prompt config sampler cnt limit (turn # turns) compactable chunk_tokens outputs obs s =
     (if compactable \<noteq> [] \<and> limit \<noteq> UNBOUNDED_CHUNK_LIMIT \<and> limit < sat_add chunk_tokens (cnt turn) then
        (let (result, obs, s) = flush_chunk prompt config sampler compactable obs s
         in case result of
              Inl e \<Rightarrow> (Inl e, obs, s)
            | Inr output \<Rightarrow>
                chunk_loop prompt config sampler cnt limit turns [turn] (cnt turn) (outputs @ [output]) obs s)
      else chunk_loop prompt config sampler cnt limit turns (compactable @ [turn]) (chunk_tokens + cnt turn)
             outputs obs s)"

definition chunk_summary :: "nat \<Rightarrow> llm_compaction_output \<Rightarrow> rstr" where
  "chunk_summary i output =
     ''<chunk_summary index=\"'' @ show_nat i @ ''\">'' @ nl @ response output @ nl @
     ''</chunk_summary>'' @ nl @ nl"

definition assemble_chunks ::
  "rstr option \<Rightarrow> rstr option \<Rightarrow> llm_compaction_output list \<Rightarrow> chunked_compaction_output" where
  "assemble_chunks prior current outputs =
     \<lparr>combined_text = assemble_user_queries_preamble prior current @
        concat (map (\<lambda>i. chunk_summary i (outputs ! i)) [0..<length outputs]),
      analysis_text = concat (map (\<lambda>i. wrap_chunk_analysis i (thinking (outputs ! i))) [0..<length outputs])\<rparr>"

definition chunk_token_limit :: "inter_config \<Rightarrow> u32 option" where
  "chunk_token_limit config =
     (case inter_strategy config of
        Basic \<Rightarrow> Some UNBOUNDED_CHUNK_LIMIT
      | DivideAndConquer \<Rightarrow> Some (dnc_chunk_token_limit config)
      | FullReplaceStrategy \<Rightarrow> None)"

definition sample_compaction_chunked ::
  "('t, 'z) builder_ops_scheme \<Rightarrow> compaction_prompt \<Rightarrow> 't list \<Rightarrow> rstr option \<Rightarrow> inter_config \<Rightarrow> ('t, 's) sampler \<Rightarrow>
   ('t \<Rightarrow> u32) \<Rightarrow> inter_call list \<Rightarrow> 's \<Rightarrow>
   (compaction_sample_error + chunked_compaction_output) \<times> inter_call list \<times> 's" where
  "sample_compaction_chunked ops prompt turns current config sampler cnt obs s =
     (case chunk_token_limit config of
        None \<Rightarrow>
          (Inl (SampleBuild ''full_replace must be routed through the event-proc compact_conversation helper''), obs, s)
      | Some limit \<Rightarrow>
          (let filtered = filter_turns_for_inter_compaction ops turns
           in if filtered = [] then (Inl (SampleOther ''No turns remaining after filtering''), obs, s)
              else
                (let separated = separate_prior_user_queries ops filtered;
                     (looped, obs, s) =
                       chunk_loop prompt config sampler cnt limit (turns_for_llm separated) [] 0 [] obs s
                 in case looped of
                      Inl e \<Rightarrow> (Inl e, obs, s)
                    | Inr (compactable, outputs) \<Rightarrow>
                        (let (flushed, obs, s) =
                               (if compactable = [] then (Inr outputs, obs, s)
                                else
                                  (let (result, obs, s) = flush_chunk prompt config sampler compactable obs s
                                   in (case result of Inl e \<Rightarrow> Inl e | Inr output \<Rightarrow> Inr (outputs @ [output]), obs, s)))
                         in case flushed of
                              Inl e \<Rightarrow> (Inl e, obs, s)
                            | Inr outputs \<Rightarrow>
                                (let obs = (if has_prior_compaction separated
                                            then obs @ [OnRecompaction (strategy_label (inter_strategy config))]
                                            else obs)
                                 in (Inr (assemble_chunks (prior_user_queries separated) current outputs),
                                     obs @ [OnChunkCount (length outputs)], s))))))"

section \<open>The pipeline is a partition into chunks and one call per chunk\<close>

text \<open>The chunks, greedily, from the current one on.\<close>

fun chunks_from :: "('t \<Rightarrow> u32) \<Rightarrow> u32 \<Rightarrow> 't list \<Rightarrow> u32 \<Rightarrow> 't list \<Rightarrow> 't list list" where
  "chunks_from cnt limit [] chunk_tokens compactable = (if compactable = [] then [] else [compactable])"
| "chunks_from cnt limit (turn # turns) chunk_tokens compactable =
     (if compactable \<noteq> [] \<and> limit \<noteq> UNBOUNDED_CHUNK_LIMIT \<and> limit < sat_add chunk_tokens (cnt turn)
      then compactable # chunks_from cnt limit turns (cnt turn) [turn]
      else chunks_from cnt limit turns (chunk_tokens + cnt turn) (compactable @ [turn]))"

definition chunks_of :: "('t \<Rightarrow> u32) \<Rightarrow> u32 \<Rightarrow> 't list \<Rightarrow> 't list list" where
  "chunks_of cnt limit turns = chunks_from cnt limit turns 0 []"

text \<open>One call per chunk, until one fails.\<close>

fun sample_chunks ::
  "compaction_prompt \<Rightarrow> inter_config \<Rightarrow> ('t, 's) sampler \<Rightarrow> 't list list \<Rightarrow> inter_call list \<Rightarrow> 's \<Rightarrow>
   (compaction_sample_error + llm_compaction_output list) \<times> inter_call list \<times> 's" where
  "sample_chunks prompt config sampler [] obs s = (Inr [], obs, s)"
| "sample_chunks prompt config sampler (c # cs) obs s =
     (let (result, obs, s) = flush_chunk prompt config sampler c obs s
      in case result of
           Inl e \<Rightarrow> (Inl e, obs, s)
         | Inr output \<Rightarrow>
             (let (rest, obs, s) = sample_chunks prompt config sampler cs obs s
              in (case rest of Inl e \<Rightarrow> Inl e | Inr outputs \<Rightarrow> Inr (output # outputs), obs, s)))"

definition finish_chunks ::
  "compaction_prompt \<Rightarrow> inter_config \<Rightarrow> ('t, 's) sampler \<Rightarrow>
   (compaction_sample_error + 't list \<times> llm_compaction_output list) \<times> inter_call list \<times> 's \<Rightarrow>
   (compaction_sample_error + llm_compaction_output list) \<times> inter_call list \<times> 's" where
  "finish_chunks prompt config sampler r =
     (case r of (Inl e, obs, s) \<Rightarrow> (Inl e, obs, s)
      | (Inr (compactable, outputs), obs, s) \<Rightarrow>
          (if compactable = [] then (Inr outputs, obs, s)
           else
             (let (result, obs, s) = flush_chunk prompt config sampler compactable obs s
              in (case result of Inl e \<Rightarrow> Inl e | Inr output \<Rightarrow> Inr (outputs @ [output]), obs, s))))"

lemma chunk_loop_chunks:
  "finish_chunks prompt config sampler
     (chunk_loop prompt config sampler cnt limit turns compactable chunk_tokens outputs obs s) =
   (let (rest, obs, s) = sample_chunks prompt config sampler (chunks_from cnt limit turns chunk_tokens compactable) obs s
    in (case rest of Inl e \<Rightarrow> Inl e | Inr outs \<Rightarrow> Inr (outputs @ outs), obs, s))"
proof (induction turns arbitrary: compactable chunk_tokens outputs obs s)
  case Nil
  obtain r obs' s' where "flush_chunk prompt config sampler compactable obs s = (r, obs', s')" by (metis prod_cases3)
  then show ?case by (cases r) (simp_all add: finish_chunks_def Let_def)
next
  case (Cons turn turns)
  obtain r obs' s' where f: "flush_chunk prompt config sampler compactable obs s = (r, obs', s')" by (metis prod_cases3)
  show ?case
  proof (cases "compactable \<noteq> [] \<and> limit \<noteq> UNBOUNDED_CHUNK_LIMIT \<and> limit < sat_add chunk_tokens (cnt turn)")
    case True
    show ?thesis
    proof (cases r)
      case (Inl e)
      then show ?thesis using True f by (simp add: finish_chunks_def Let_def)
    next
      case (Inr out)
      then show ?thesis using True f Cons.IH [of "[turn]" "cnt turn" "outputs @ [out]" obs' s']
        by (auto simp: Let_def split: prod.splits sum.splits)
    qed
  next
    case False
    then show ?thesis by (simp only: chunk_loop.simps(2) chunks_from.simps(2) False if_False Cons.IH)
  qed
qed

lemma concat_chunks_from: "concat (chunks_from cnt limit turns n c) = c @ turns"
  by (induction turns arbitrary: n c) auto

lemma chunks_unbounded: "length (chunks_from cnt UNBOUNDED_CHUNK_LIMIT turns n c) \<le> 1"
  by (induction turns arbitrary: n c) auto

text \<open>A chunk is within the limit, or a single turn that is not.\<close>

definition chunk_ok :: "('t \<Rightarrow> u32) \<Rightarrow> u32 \<Rightarrow> 't list \<Rightarrow> bool" where
  "chunk_ok cnt limit c \<longleftrightarrow>
     c \<noteq> [] \<and> (limit = UNBOUNDED_CHUNK_LIMIT \<or> length c = 1 \<or> tot (map cnt c) \<le> unat limit)"

lemma chunks_from_ok:
  assumes "limit \<noteq> UNBOUNDED_CHUNK_LIMIT"
  shows "unat n = tot (map cnt c) \<Longrightarrow> c = [] \<or> length c = 1 \<or> tot (map cnt c) \<le> unat limit \<Longrightarrow>
    ch \<in> set (chunks_from cnt limit turns n c) \<Longrightarrow> chunk_ok cnt limit ch"
proof (induction turns arbitrary: n c)
  case Nil
  then show ?case by (auto simp: chunk_ok_def split: if_splits)
next
  case (Cons t turns)
  have lim: "unat limit < 2 ^ 32 - 1"
  proof (rule ccontr)
    assume "\<not> unat limit < 2 ^ 32 - 1"
    then have "unat limit = unat (- 1 :: u32)" using unat_le_max [of limit] by (simp add: unat_minus_one_word_eq)
    then show False using assms word_eqI_unat unfolding UNBOUNDED_CHUNK_LIMIT_def by blast
  qed
  show ?case
  proof (cases "c \<noteq> [] \<and> limit < sat_add n (cnt t)")
    case True
    then have "ch = c \<or> ch \<in> set (chunks_from cnt limit turns (cnt t) [t])"
      using Cons.prems(3) assms by simp
    then show ?thesis
    proof
      assume "ch = c"
      then show ?thesis using Cons.prems(2) True by (auto simp: chunk_ok_def)
    next
      assume "ch \<in> set (chunks_from cnt limit turns (cnt t) [t])"
      then show ?thesis by (intro Cons.IH [of "cnt t" "[t]"]) simp_all
    qed
  next
    case False
    have "unat (n + cnt t) = unat n + unat (cnt t) \<and> (c = [] \<or> unat n + unat (cnt t) \<le> unat limit)"
    proof (cases "c = []")
      case True
      then have "n = 0" using Cons.prems(1) by (simp add: word_eqI_unat)
      then show ?thesis using True by simp
    next
      case ne: False
      then have "\<not> limit < sat_add n (cnt t)" using False by simp
      note b = sat_add_below [OF this lim]
      then have "unat n + unat (cnt t) < 2 ^ 32" using lim by linarith
      then show ?thesis using b by (simp add: unat_word_ariths)
    qed
    then have "unat (n + cnt t) = tot (map cnt (c @ [t]))"
      and "c @ [t] = [] \<or> length (c @ [t]) = 1 \<or> tot (map cnt (c @ [t])) \<le> unat limit"
      using Cons.prems(1) by auto
    moreover have "ch \<in> set (chunks_from cnt limit turns (n + cnt t) (c @ [t]))"
      using Cons.prems(3) False by (auto split: if_splits)
    ultimately show ?thesis by (rule Cons.IH)
  qed
qed

text \<open>
  The pipeline summarizes every turn exactly once.  It is the same as cutting the turns that the
  model may see into chunks first and making one call per chunk, in order, until one fails.  The
  chunks joined are these turns; none is empty, and each is within the token limit or a single turn;
  the basic strategy makes one chunk of them all.
\<close>

theorem chunked_compaction_is_partition:
  assumes "chunk_token_limit config = Some limit" and "filter_turns_for_inter_compaction ops turns \<noteq> []"
  shows "sample_compaction_chunked ops prompt turns current config sampler cnt obs s =
           (let separated = separate_prior_user_queries ops (filter_turns_for_inter_compaction ops turns);
                (result, obs, s) =
                  sample_chunks prompt config sampler (chunks_of cnt limit (turns_for_llm separated)) obs s
            in case result of
                 Inl e \<Rightarrow> (Inl e, obs, s)
               | Inr outputs \<Rightarrow>
                   (Inr (assemble_chunks (prior_user_queries separated) current outputs),
                    obs @ (if has_prior_compaction separated
                           then [OnRecompaction (strategy_label (inter_strategy config))] else []) @
                    [OnChunkCount (length outputs)], s)) \<and>
         concat (chunks_of cnt limit ts) = ts \<and>
         (\<forall>c \<in> set (chunks_of cnt limit ts). chunk_ok cnt limit c) \<and>
         (inter_strategy config = Basic \<longrightarrow> length (chunks_of cnt limit ts) \<le> 1)"
proof (intro conjI ballI impI)
  let ?sep = "separate_prior_user_queries ops (filter_turns_for_inter_compaction ops turns)"
  obtain looped obs1 s1 where l: "chunk_loop prompt config sampler cnt limit (turns_for_llm ?sep) [] 0 [] obs s =
      (looped, obs1, s1)" by (metis prod_cases3)
  obtain rest obs2 s2 where c: "sample_chunks prompt config sampler (chunks_of cnt limit (turns_for_llm ?sep)) obs s =
      (rest, obs2, s2)" by (metis prod_cases3)
  have f: "finish_chunks prompt config sampler (looped, obs1, s1) = (rest, obs2, s2)"
    using chunk_loop_chunks [of prompt config sampler cnt limit "turns_for_llm ?sep" "[]" 0 "[]" obs s] l c
    by (cases rest) (simp_all add: chunks_of_def Let_def)
  show "sample_compaction_chunked ops prompt turns current config sampler cnt obs s =
     (let separated = ?sep;
          (result, obs, s) =
            sample_chunks prompt config sampler (chunks_of cnt limit (turns_for_llm separated)) obs s
      in case result of
           Inl e \<Rightarrow> (Inl e, obs, s)
         | Inr outputs \<Rightarrow>
             (Inr (assemble_chunks (prior_user_queries separated) current outputs),
              obs @ (if has_prior_compaction separated
                     then [OnRecompaction (strategy_label (inter_strategy config))] else []) @
              [OnChunkCount (length outputs)], s))"
    using f assms l c
    by (auto simp: sample_compaction_chunked_def finish_chunks_def Let_def split: sum.splits prod.splits if_splits)
next
  show "concat (chunks_of cnt limit ts) = ts" by (simp add: chunks_of_def concat_chunks_from)
next
  fix c assume c: "c \<in> set (chunks_of cnt limit ts)"
  have ne: "c \<noteq> []"
  proof -
    have "[] \<notin> set (chunks_from cnt limit ts n x)" for n x by (induction ts arbitrary: n x) auto
    then show ?thesis using c by (auto simp: chunks_of_def)
  qed
  show "chunk_ok cnt limit c"
  proof (cases "limit = UNBOUNDED_CHUNK_LIMIT")
    case True
    then show ?thesis using ne by (simp add: chunk_ok_def)
  next
    case False
    then show ?thesis using chunks_from_ok [OF False, of 0 cnt "[]" c ts] c by (simp add: chunks_of_def)
  qed
next
  assume "inter_strategy config = Basic"
  then show "length (chunks_of cnt limit ts) \<le> 1"
    using assms(1) chunks_unbounded [of cnt ts 0 "[]"] by (simp add: chunk_token_limit_def chunks_of_def)
qed

definition sample_inter :: inter_config where
  "sample_inter = \<lparr>inter_model_name = '''', inter_timeout_secs = 60, inter_strategy = DivideAndConquer,
     dnc_chunk_token_limit = 25, user_message_compact_threshold = 3000\<rparr>"

definition counting_sampler :: "(conversation_item, nat) sampler" where
  "counting_sampler s turns prompt timeout =
     (Inr \<lparr>response = show_nat (length turns), thinking = ''''\<rparr>, s + 1)"

lemma chunked_compaction_is_partition_witness:
  "sample_compaction_chunked sample_builder \<lparr>system_prompt = '''', user_prompt = ''''\<rparr>
     [user_msg ''a'', user_msg ''b'', user_msg ''c''] None sample_inter counting_sampler (\<lambda>_. 10) [] 0 =
   (Inr (assemble_chunks None None
      [\<lparr>response = show_nat 2, thinking = ''''\<rparr>, \<lparr>response = show_nat 1, thinking = ''''\<rparr>]),
    [OnChunkSampled True, OnChunkSampled True, OnChunkCount 2], 2)"
proof -
  let ?turns = "[user_msg ''a'', user_msg ''b'', user_msg ''c'']"
  have f: "filter_turns_for_inter_compaction sample_builder ?turns = ?turns"
    by (simp add: filter_turns_for_inter_compaction_def inter_turn_def sample_builder_def item_ops.extend_def
        conversation_ops_def conversation_role_def user_msg_def user_text_def map_filter_simps)
  have sep: "separate_prior_user_queries sample_builder ?turns =
      \<lparr>turns_for_llm = ?turns, prior_user_queries = None, has_prior_compaction = False\<rparr>"
    by (simp add: separate_prior_user_queries_def separate_turn_def sample_builder_def item_ops.extend_def
        conversation_ops_def is_compaction_summary_def)
  have lim: "chunk_token_limit sample_inter = Some 25"
    by (simp add: chunk_token_limit_def sample_inter_def)
  have ch: "chunks_of (\<lambda>_. 10) 25 ?turns = [[user_msg ''a'', user_msg ''b''], [user_msg ''c'']]"
    by (simp add: chunks_of_def sat_add_def UNBOUNDED_CHUNK_LIMIT_def)
  show ?thesis
    using chunked_compaction_is_partition [OF lim, of sample_builder ?turns
        "\<lparr>system_prompt = '''', user_prompt = ''''\<rparr>" None counting_sampler "\<lambda>_. 10" "[]" 0 "[]"]
    by (simp add: f sep ch flush_chunk_def counting_sampler_def numeral_2_eq_2)
qed

end
