(* ===== verification/PermissionRules.thy ===== *)
theory PermissionRules
  imports RustStr
begin

section \<open>Permission rules\<close>

text \<open>
  Models, of \<open>hystersis-workspace/src/permission/\<close>, the rule types of \<open>types.rs\<close> and all of \<open>rules.rs\<close>:
  the default modes and the parser of rule strings such as \<open>Bash(git push:*)\<close>.  The arguments of an
  MCP call (JSON) are a type parameter.
\<close>

datatype 'json access_kind =
    AccessRead "rstr option"
  | AccessGrep "rstr option" "rstr option"
  | AccessEdit rstr
  | AccessBash rstr
  | AccessMCP rstr 'json
  | AccessWebFetch rstr
  | AccessWebSearch rstr

datatype decision =
    DAllow
  | DAsk
  | DFollowup rstr
  | DReject rstr
  | DPolicyDeny rstr
  | DCancelled

datatype prompt_policy = PromptAsk | PromptDeny | PromptAuto

datatype pattern_mode = GlobMode | DomainMode

datatype rule_action = RAllow | RDeny | RAsk

datatype tool_filter = FAny | FBash | FEdit | FRead | FGrep | FMcp | FWebFetch | FWebSearch

record permission_rule =
  rule_action :: rule_action
  rule_tool :: tool_filter
  rule_pattern :: "rstr option"
  rule_mode :: pattern_mode

record permission_config =
  rules :: "permission_rule list"
  config_prompt_policy :: prompt_policy

subsection \<open>Default modes\<close>

datatype default_permission_mode =
    ModeDefault | ModeAcceptEdits | ModePlan | ModeAuto | ModeDontAsk | ModeBypassPermissions

definition default_mode_from_str :: "rstr \<Rightarrow> rstr + default_permission_mode" where
  "default_mode_from_str s =
     (if s = ''default'' then Inr ModeDefault
      else if s = ''acceptEdits'' then Inr ModeAcceptEdits
      else if s = ''plan'' then Inr ModePlan
      else if s = ''auto'' then Inr ModeAuto
      else if s = ''dontAsk'' then Inr ModeDontAsk
      else if s = ''bypassPermissions'' then Inr ModeBypassPermissions
      else Inl s)"

record default_mode_effects =
  prompt_policy_effect :: prompt_policy
  accept_edits :: bool
  bypass_permissions :: bool

definition mode_effects :: "default_permission_mode \<Rightarrow> default_mode_effects" where
  "mode_effects m =
     (let none = \<lparr>prompt_policy_effect = PromptAsk, accept_edits = False, bypass_permissions = False\<rparr>
      in case m of
           ModeAcceptEdits \<Rightarrow> none\<lparr>accept_edits := True\<rparr>
         | ModeBypassPermissions \<Rightarrow> none\<lparr>bypass_permissions := True\<rparr>
         | ModeDefault \<Rightarrow> none
         | ModePlan \<Rightarrow> none
         | ModeDontAsk \<Rightarrow> none\<lparr>prompt_policy_effect := PromptDeny\<rparr>
         | ModeAuto \<Rightarrow> none\<lparr>prompt_policy_effect := PromptAuto\<rparr>)"

subsection \<open>The parser\<close>

datatype rule_parse_error =
    UnsupportedToolPrefix rstr
  | UnknownToolPrefix rstr
  | MalformedRule rstr

definition tool_name_to_filter :: "rstr \<Rightarrow> tool_filter option" where
  "tool_name_to_filter name =
     (if name = ''Bash'' then Some FBash
      else if name = ''Read'' then Some FRead
      else if name = ''Edit'' \<or> name = ''Write'' then Some FEdit
      else if name = ''MCPTool'' then Some FMcp
      else if name = ''Grep'' \<or> name = ''Glob'' then Some FGrep
      else if name = ''WebFetch'' then Some FWebFetch
      else if name = ''WebSearch'' then Some FWebSearch
      else None)"

abbreviation backslash :: char where
  "backslash \<equiv> CHR 0x5C"

text \<open>The backslashes just before \<open>pos\<close> are even in number.\<close>

definition is_unescaped :: "rstr \<Rightarrow> nat \<Rightarrow> bool" where
  "is_unescaped s pos \<longleftrightarrow> even (length (takeWhile (\<lambda>c. c = backslash) (rev (take pos s))))"

definition find_first_unescaped :: "rstr \<Rightarrow> char \<Rightarrow> nat option" where
  "find_first_unescaped s target =
     List.find (\<lambda>i. s ! i = target \<and> is_unescaped s i) [0..<length s]"

definition find_last_unescaped :: "rstr \<Rightarrow> char \<Rightarrow> nat option" where
  "find_last_unescaped s target =
     List.find (\<lambda>i. s ! i = target \<and> is_unescaped s i) (rev [0..<length s])"

definition unescape_rule_content :: "rstr \<Rightarrow> rstr" where
  "unescape_rule_content s =
     (if backslash \<notin> set s then s
      else str_replace [backslash, backslash] [backslash]
             (str_replace [backslash, CHR '')''] '')''
                (str_replace [backslash, CHR ''(''] ''('' s)))"

definition strip_prefix :: "rstr \<Rightarrow> rstr \<Rightarrow> rstr option" where
  "strip_prefix p s = (if starts_with s p then Some (drop (length p) s) else None)"

definition strip_suffix :: "rstr \<Rightarrow> rstr \<Rightarrow> rstr option" where
  "strip_suffix p s = (if ends_with s p then Some (take (length s - length p) s) else None)"

definition strip_domain_prefix :: "rstr \<Rightarrow> rstr \<times> pattern_mode" where
  "strip_domain_prefix pattern =
     (case strip_prefix ''domain:'' pattern of
        Some domain \<Rightarrow> (domain, DomainMode) | None \<Rightarrow> (pattern, GlobMode))"

definition strip_bash_colon_wildcard :: "rstr \<Rightarrow> rstr" where
  "strip_bash_colon_wildcard pattern =
     (case strip_suffix '':*'' pattern of Some prefix \<Rightarrow> prefix | None \<Rightarrow> pattern)"

definition unsupported_tool :: "rstr \<Rightarrow> bool" where
  "unsupported_tool name \<longleftrightarrow> name = ''EnterWorktree'' \<or> name = ''NotebookEdit'' \<or> name = ''NotebookRead''"

definition non_empty :: "rstr \<Rightarrow> rstr option" where
  "non_empty s = (if s = '''' then None else Some s)"

definition parse_with_content :: "rule_action \<Rightarrow> rstr \<Rightarrow> rstr \<Rightarrow> rule_parse_error + permission_rule" where
  "parse_with_content action prefix raw_content =
     (let pattern = (if raw_content = '''' \<or> raw_content = ''*'' then ''''
                     else unescape_rule_content raw_content)
      in case tool_name_to_filter prefix of
           None \<Rightarrow> Inl (if unsupported_tool prefix then UnsupportedToolPrefix prefix
                        else UnknownToolPrefix prefix)
         | Some tool \<Rightarrow>
             (let pattern = (if tool = FBash then strip_bash_colon_wildcard pattern else pattern);
                  (pattern, mode) = strip_domain_prefix pattern
              in Inr \<lparr>rule_action = action, rule_tool = tool, rule_pattern = non_empty pattern,
                      rule_mode = mode\<rparr>))"

definition mcp_pattern :: "rstr \<Rightarrow> rstr option" where
  "mcp_pattern rest =
     (if rest = ''*'' then None
      else if contains rest ''__'' then Some rest
      else Some (rest @ ''__*''))"

definition parse_bare :: "rule_action \<Rightarrow> rstr \<Rightarrow> rule_parse_error + permission_rule" where
  "parse_bare action rule =
     (let glob = (\<lambda>tool pattern. \<lparr>rule_action = action, rule_tool = tool, rule_pattern = pattern,
                                  rule_mode = GlobMode\<rparr>)
      in if unsupported_tool rule then Inl (UnsupportedToolPrefix rule)
         else
           (case tool_name_to_filter rule of
              Some tool \<Rightarrow> Inr (glob tool None)
            | None \<Rightarrow>
                (case Option.bind (strip_prefix ''mcp__'' rule) non_empty of
                   Some rest \<Rightarrow> Inr (glob FMcp (mcp_pattern rest))
                 | None \<Rightarrow> Inr (glob FAny (non_empty rule)))))"

definition parse_permission_rule :: "rstr \<Rightarrow> rule_action \<Rightarrow> rule_parse_error + permission_rule" where
  "parse_permission_rule rule action =
     (let rule = trim rule
      in case find_first_unescaped rule (CHR ''('') of
           Some open_paren \<Rightarrow>
             (let prefix = trim (take open_paren rule);
                  content_and_close = drop (open_paren + 1) rule
              in case find_last_unescaped content_and_close (CHR '')'') of
                   None \<Rightarrow> Inl (MalformedRule ''missing closing parenthesis'')
                 | Some close_paren \<Rightarrow>
                     parse_with_content action prefix (trim (take close_paren content_and_close)))
         | None \<Rightarrow> parse_bare action rule)"

subsection \<open>Parsing undoes escaping\<close>

text \<open>How a pattern is written inside the parentheses: a backslash before each of the characters of \<open>A\<close>.\<close>

definition escape_chars :: "char set \<Rightarrow> rstr \<Rightarrow> rstr" where
  "escape_chars A p = concat (map (\<lambda>c. if c \<in> A then [backslash, c] else [c]) p)"

definition escape_rule_content :: "rstr \<Rightarrow> rstr" where
  "escape_rule_content = escape_chars {CHR ''('', CHR '')'', backslash}"

lemma escape_chars_simps [simp]:
  "escape_chars A [] = []"
  "escape_chars A (c # p) = (if c \<in> A then [backslash, c] else [c]) @ escape_chars A p"
  "escape_chars A (p @ q) = escape_chars A p @ escape_chars A q"
  by (simp_all add: escape_chars_def)

lemma escape_chars_empty [simp]: "escape_chars {} p = p"
  by (induction p) auto

lemma escape_chars_head: "escape_chars A p \<noteq> [] \<Longrightarrow> hd (escape_chars A p) \<in> A \<Longrightarrow> hd (escape_chars A p) = backslash"
  by (cases p) (auto split: if_splits)

lemma starts_with_pair: "starts_with (c # s) [a, b] \<longleftrightarrow> c = a \<and> s \<noteq> [] \<and> hd s = b"
  by (cases s) (auto simp: starts_with_def)

text \<open>One pass undoes the escaping of one character, as long as the backslash is undone last.\<close>

lemma replace_undoes_one:
  assumes "x \<in> A" "backslash \<in> A" "x = backslash \<Longrightarrow> A = {backslash}"
  shows "replace_all [backslash, x] [x] (escape_chars A p) = escape_chars (A - {x}) p"
proof (induction p)
  case (Cons c p)
  have nohead: "\<not> starts_with (c # escape_chars A p) [backslash, x]" if "x \<noteq> backslash"
    using escape_chars_head [of A p] that assms(1) by (auto simp: starts_with_pair)
  show ?case
  proof (cases "c = x")
    case True
    with Cons assms(1) show ?thesis by (simp add: starts_with_pair)
  next
    case False
    show ?thesis
    proof (cases "x = backslash")
      case True
      with Cons False assms(3) show ?thesis by (simp add: starts_with_pair)
    next
      case xb: False
      with Cons False nohead [OF xb] show ?thesis by (simp add: starts_with_pair)
    qed
  qed
qed simp

lemma unescape_escape: "unescape_rule_content (escape_rule_content p) = p"
proof -
  let ?e = "escape_chars {CHR ''('', CHR '')'', backslash} p"
  have 1: "replace_all [backslash, CHR ''(''] ''('' ?e = escape_chars {CHR '')'', backslash} p"
    by (subst replace_undoes_one) (auto simp: insert_Diff_if)
  have 2: "replace_all [backslash, CHR '')''] '')'' (escape_chars {CHR '')'', backslash} p)
           = escape_chars {backslash} p"
    by (subst replace_undoes_one) (auto simp: insert_Diff_if)
  have 3: "replace_all [backslash, backslash] [backslash] (escape_chars {backslash} p) = p"
    by (subst replace_undoes_one) auto
  have 4: "backslash \<notin> set ?e \<Longrightarrow> ?e = p"
    by (induction p) (auto split: if_splits)
  show ?thesis
    using 1 2 3 4 by (auto simp: unescape_rule_content_def escape_rule_content_def str_replace_def)
qed

lemma trailing_backslashes_even:
  "even (length (takeWhile (\<lambda>c. c = backslash) (rev (escape_rule_content p))))"
  by (induction p rule: rev_induct) (auto simp: escape_rule_content_def)

lemma find_upt_first:
  assumes "i < n" "P i" "\<And>j. j < i \<Longrightarrow> \<not> P j"
  shows "List.find P [0..<n] = Some i"
  using assms by (auto simp: find_Some_iff intro!: exI [of _ i])

lemma find_rev_upt_last:
  assumes "P n"
  shows "List.find P (rev [0..<Suc n]) = Some n"
  using assms by simp

lemma close_paren_found:
  "find_last_unescaped (escape_rule_content p @ '')'') (CHR '')'') = Some (length (escape_rule_content p))"
  unfolding find_last_unescaped_def
  by (simp add: is_unescaped_def trailing_backslashes_even nth_append)

lemma open_paren_found:
  assumes "CHR ''('' \<notin> set name" "backslash \<notin> set name"
  shows "find_first_unescaped (name @ ''('' @ rest) (CHR ''('') = Some (length name)"
  unfolding find_first_unescaped_def
proof (rule find_upt_first)
  have "takeWhile (\<lambda>c. c = backslash) (rev name) = []"
    using assms(2) by (cases "rev name") (auto simp: takeWhile_eq_Nil_iff dest: arg_cong [of _ _ set])
  then show "(name @ ''('' @ rest) ! length name = CHR ''(''
      \<and> is_unescaped (name @ ''('' @ rest) (length name)"
    by (simp add: is_unescaped_def)
next
  fix j assume "j < length name"
  then show "\<not> ((name @ ''('' @ rest) ! j = CHR ''('' \<and> is_unescaped (name @ ''('' @ rest) j)"
    using assms(1) by (auto simp: nth_append dest: nth_mem)
qed simp

subsection \<open>Trimming and escaping\<close>

lemma concat_shorter:
  "\<forall>g \<in> set xs. g \<noteq> [] \<Longrightarrow> xs = ys @ zs \<Longrightarrow> length (concat ys) = length (concat xs) \<Longrightarrow> zs = []"
  by (cases zs) auto

lemma chars_of_nonempty: "g \<in> set (chars_of s) \<Longrightarrow> g \<noteq> []"
  by (induction s rule: chars_of.induct) auto

lemma trim_fixed_iff:
  "trim s = s \<longleftrightarrow> s = [] \<or> \<not> is_whitespace (hd (chars_of s)) \<and> \<not> is_whitespace (last (chars_of s))"
proof (cases s)
  case Nil
  then show ?thesis by simp
next
  case (Cons c cs)
  obtain g gs where ggs: "chars_of s = g # gs" using Cons by (cases "chars_of s") auto
  have ne: "\<forall>x \<in> set (g # gs). x \<noteq> []" using chars_of_nonempty [of _ s] ggs by auto
  have s: "s = concat (g # gs)" using concat_chars_of [of s] ggs by simp
  show ?thesis
  proof (cases "is_whitespace g")
    case True
    have "length (trim s) \<le> length (concat gs)"
      using ggs True length_concat_drop_end [of is_whitespace "dropWhile is_whitespace gs"]
        length_concat_dropWhile [of is_whitespace gs] by (simp add: trim_def)
    also have "\<dots> < length s" using s ne by simp
    finally have "trim s \<noteq> s" by auto
    with True ggs Cons show ?thesis by simp
  next
    case False
    have t: "trim s = concat (drop_end is_whitespace (g # gs))" using ggs False by (simp add: trim_def)
    show ?thesis
    proof (cases "is_whitespace (last (g # gs))")
      case True
      then have "drop_end is_whitespace (g # gs) = drop_end is_whitespace (butlast (g # gs))"
        by (subst append_butlast_last_id [symmetric]) (simp_all add: drop_end_def)
      then have "length (trim s) \<le> length (concat (butlast (g # gs)))"
        using length_concat_drop_end [of is_whitespace "butlast (g # gs)"] t by simp
      also have "\<dots> < length (concat (butlast (g # gs) @ [last (g # gs)]))"
        using ne last_in_set [of "g # gs"] by (auto simp del: append_butlast_last_id split: if_splits)
      also have "\<dots> = length s" using s by (simp only: append_butlast_last_id list.distinct not_False_eq_True)
      finally have "trim s \<noteq> s" by auto
      with True ggs Cons show ?thesis by simp
    next
      case no: False
      then have "drop_end is_whitespace (g # gs) = g # gs"
        by (metis drop_end_def dropWhile.simps(2) hd_rev list.distinct(1) list.exhaust_sel rev_is_Nil_conv rev_rev_ident)
      with t s False no ggs Cons show ?thesis by simp
    qed
  qed
qed

lemma takeWhile_cont_escape:
  "\<forall>c \<in> A. \<not> is_cont c \<Longrightarrow> takeWhile is_cont (escape_chars A s) = takeWhile is_cont s"
  by (induction s) (auto simp: is_cont_def)

lemma dropWhile_cont_escape:
  "\<forall>c \<in> A. \<not> is_cont c \<Longrightarrow> dropWhile is_cont (escape_chars A s) = escape_chars A (dropWhile is_cont s)"
  by (induction s) (auto simp: is_cont_def)

lemma chars_of_escape:
  assumes "\<forall>c \<in> A. \<not> is_cont c"
  shows "chars_of (escape_chars A s)
    = concat (map (\<lambda>g. if hd g \<in> A then [[backslash], g] else [g]) (chars_of s))"
proof (induction s rule: chars_of.induct)
  case (2 c cs)
  have b: "\<not> is_cont backslash" by (simp add: is_cont_def)
  note esc = takeWhile_cont_escape [OF assms, of cs] dropWhile_cont_escape [OF assms, of cs]
  show ?case
  proof (cases "c \<in> A")
    case True
    with assms have "\<not> is_cont c" by simp
    with True b esc 2 show ?thesis by simp
  next
    case False
    with esc 2 show ?thesis by simp
  qed
qed simp

lemma hd_last_concat_map:
  assumes "xs \<noteq> []" "\<forall>x \<in> set xs. f x \<noteq> []"
  shows "hd (concat (map f xs)) = hd (f (hd xs))" and "last (concat (map f xs)) = last (f (last xs))"
proof -
  show "hd (concat (map f xs)) = hd (f (hd xs))" using assms by (cases xs) auto
  obtain ys y where "xs = ys @ [y]" using assms(1) by (cases xs rule: rev_cases) auto
  then show "last (concat (map f xs)) = last (f (last xs))" using assms(2) by simp
qed

definition rule_syntax :: "char set" where
  "rule_syntax = {CHR ''('', CHR '')'', backslash}"

lemma rule_syntax_ascii: "\<forall>c \<in> rule_syntax. \<not> is_cont c"
  by (simp add: rule_syntax_def is_cont_def)

lemma trim_escape:
  assumes "trim p = p"
  shows "trim (escape_rule_content p) = escape_rule_content p"
proof (cases "p = []")
  case True
  then show ?thesis by (simp add: escape_rule_content_def)
next
  case False
  let ?f = "\<lambda>g. if hd g \<in> rule_syntax then [[backslash], g] else [g]"
  have ch: "chars_of (escape_rule_content p) = concat (map ?f (chars_of p))"
    using chars_of_escape [OF rule_syntax_ascii, of p]
    by (simp only: escape_rule_content_def rule_syntax_def)
  have ws: "\<not> is_whitespace [backslash]" by (simp add: is_whitespace_def)
  have ne: "chars_of p \<noteq> []" using False by simp
  have "hd (chars_of (escape_rule_content p)) = hd (?f (hd (chars_of p)))"
    and "last (chars_of (escape_rule_content p)) = last (?f (last (chars_of p)))"
    unfolding ch using hd_last_concat_map [OF ne, of ?f] by simp_all
  moreover have "\<not> is_whitespace (hd (chars_of p))" "\<not> is_whitespace (last (chars_of p))"
    using assms False by (simp_all add: trim_fixed_iff)
  ultimately show ?thesis using ws by (simp add: trim_fixed_iff split: if_splits)
qed

subsection \<open>The round trip\<close>

lemma tool_names:
  assumes "tool_name_to_filter name = Some tool"
  shows "trim name = name" "CHR ''('' \<notin> set name" "backslash \<notin> set name"
    "name \<noteq> []" "\<not> is_whitespace (hd (chars_of (name @ s)))"
proof -
  have n: "name \<in> set [''Bash'', ''Read'', ''Edit'', ''Write'', ''MCPTool'', ''Grep'', ''Glob'', ''WebFetch'',
      ''WebSearch'']"
    using assms by (auto simp: tool_name_to_filter_def split: if_splits)
  then show "trim name = name"
    by (auto simp: trim_fixed_iff is_cont_def is_whitespace_def)
  from n show "CHR ''('' \<notin> set name" "backslash \<notin> set name" "name \<noteq> []"
    by auto
  from n show "\<not> is_whitespace (hd (chars_of (name @ s)))"
    by (auto simp: is_cont_def is_whitespace_def)
qed

lemma chars_of_snoc: "\<not> is_cont c \<Longrightarrow> chars_of (s @ [c]) = chars_of s @ [[c]]"
proof (induction s rule: chars_of.induct)
  case (2 d ds)
  then have "takeWhile is_cont (ds @ [c]) = takeWhile is_cont ds"
    by (induction ds) auto
  moreover have "dropWhile is_cont (ds @ [c]) = dropWhile is_cont ds @ [c]"
    using 2(2) by (induction ds) auto
  ultimately show ?case using 2 by simp
qed simp

lemma trim_rule_text:
  assumes "tool_name_to_filter name = Some tool"
  shows "trim (name @ ''('' @ e @ '')'') = name @ ''('' @ e @ '')''"
proof -
  have "chars_of (name @ ''('' @ e @ '')'') = chars_of (name @ ''('' @ e) @ ['')'']"
    using chars_of_snoc [of "CHR '')''" "name @ ''('' @ e"] by (simp add: is_cont_def)
  then have "last (chars_of (name @ ''('' @ e @ '')'')) = '')''" by simp
  then show ?thesis
    using tool_names(5) [OF assms] by (simp add: trim_fixed_iff is_whitespace_def)
qed

lemma escape_eq_star: "escape_rule_content p = ''*'' \<longleftrightarrow> p = ''*''"
proof -
  have "escape_rule_content ''*'' = ''*''" by (simp add: escape_rule_content_def)
  then show ?thesis by (metis unescape_escape)
qed

lemma escape_eq_Nil: "escape_rule_content p = [] \<longleftrightarrow> p = []"
  by (cases p) (auto simp: escape_rule_content_def)

lemma parse_escaped:
  assumes "tool_name_to_filter name = Some tool" "trim p = p"
  shows "parse_permission_rule (name @ ''('' @ escape_rule_content p @ '')'') action
    = parse_with_content action name (escape_rule_content p)"
  using open_paren_found [OF tool_names(2,3) [OF assms(1)]] close_paren_found [of p]
    trim_rule_text [OF assms(1)] tool_names(1) [OF assms(1)] trim_escape [OF assms(2)]
  by (simp add: parse_permission_rule_def Let_def)

text \<open>
  C34: A rule written as a tool name and, in parentheses, a pattern with its parentheses and
  backslashes escaped parses to exactly that tool and that pattern: none of the escaped characters
  ends the rule early or is lost.  The patterns excluded are the documented idioms with a meaning of
  their own: the empty one and the star (a rule for the whole tool), the \<open>domain:\<close> prefix
  and, for \<open>Bash\<close>, the \<open>:*\<close> suffix.
\<close>

theorem rule_text_roundtrip:
  assumes "tool_name_to_filter name = Some tool" "trim p = p" "p \<noteq> ''''" "p \<noteq> ''*''"
    and "\<not> starts_with p ''domain:''" "tool = FBash \<longrightarrow> \<not> ends_with p '':*''"
  shows "parse_permission_rule (name @ ''('' @ escape_rule_content p @ '')'') action
    = Inr \<lparr>rule_action = action, rule_tool = tool, rule_pattern = Some p, rule_mode = GlobMode\<rparr>"
  unfolding parse_escaped [OF assms(1,2)] using assms
  by (simp add: parse_with_content_def escape_eq_star escape_eq_Nil unescape_escape
      strip_bash_colon_wildcard_def strip_domain_prefix_def strip_prefix_def strip_suffix_def
      non_empty_def)

theorem rule_text_roundtrip_witness:
  "parse_permission_rule (''Bash'' @ ''('' @ escape_rule_content ''echo $(ls)'' @ '')'') RDeny
    = Inr \<lparr>rule_action = RDeny, rule_tool = FBash, rule_pattern = Some ''echo $(ls)'', rule_mode = GlobMode\<rparr>"
  by (rule rule_text_roundtrip)
    (simp_all add: tool_name_to_filter_def trim_fixed_iff is_cont_def is_whitespace_def starts_with_def
      ends_with_def)

end
