(* ===== verification/CommandWords.thy ===== *)
theory CommandWords
  imports PermissionRules "HOL-Library.Sublist"
begin

section \<open>The words of a shell command\<close>

text \<open>
  Models the argv analysis of \<open>bash_command_splitting.rs\<close>: the scan of \<open>env\<close>'s options, the
  peeling of wrapper commands (\<open>timeout\<close>, \<open>env\<close>, \<open>nice\<close>, ...) and of the transparent prefixes
  (\<open>exec\<close>, \<open>command\<close>, \<open>builtin\<close>), and their bounded alternation.  A command is the list of
  its words.  The source walks an index over the slice; here the recursion is over the words that are
  left, so that the slice \<open>cmd[i..]\<close> is the list itself (an index past the end, where \<open>cmd.get(i..)\<close>
  is \<open>None\<close>, is treated by the callers as the empty slice).  The characters the source tests
  for are ASCII, so that a walk over bytes and a walk over characters agree.
\<close>

definition basename :: "rstr \<Rightarrow> rstr" where
  "basename w = rev (takeWhile (\<lambda>c. c \<noteq> CHR ''/'' \<and> c \<noteq> backslash) (rev w))"

definition head_name :: "rstr list \<Rightarrow> rstr option" where
  "head_name cmd = (case cmd of [] \<Rightarrow> None | w # _ \<Rightarrow> Some (basename w))"

definition is_setup_command :: "rstr list \<Rightarrow> bool" where
  "is_setup_command cmd =
     (case cmd of
        [] \<Rightarrow> True
      | w # _ \<Rightarrow> w \<in> set [''cd'', ''pushd'', ''popd'', ''export'', ''unset'', ''set'', ''sleep'', ''timeout''])"

definition ascii_alphabetic :: "char \<Rightarrow> bool" where
  "ascii_alphabetic c =
     (let n = (of_char c :: nat) in 65 \<le> n \<and> n \<le> 90 \<or> 97 \<le> n \<and> n \<le> 122)"

definition ascii_digit :: "char \<Rightarrow> bool" where
  "ascii_digit c = (let n = (of_char c :: nat) in 48 \<le> n \<and> n \<le> 57)"

definition is_env_assignment :: "rstr \<Rightarrow> bool" where
  "is_env_assignment tok =
     (case str_find ''='' tok of
        None \<Rightarrow> False
      | Some eq \<Rightarrow>
          (let name = take eq tok in
           name \<noteq> '''' \<and> (ascii_alphabetic (hd name) \<or> hd name = CHR ''_'')
           \<and> list_all (\<lambda>b. ascii_alphabetic b \<or> ascii_digit b \<or> b = CHR ''_'') name))"

subsection \<open>The spelling of a word\<close>

abbreviation squote :: char where
  "squote \<equiv> CHR 0x27"

abbreviation dquote :: char where
  "dquote \<equiv> CHR 0x22"

text \<open>\<open>decode_shell_literal_spelling\<close>: the state is the open quote and the output so far.\<close>

fun decode_spelling_from :: "char option \<Rightarrow> rstr \<Rightarrow> rstr \<Rightarrow> rstr option" where
  "decode_spelling_from quote out [] = (if quote = None then Some out else None)"
| "decode_spelling_from quote out (ch # chars) =
     (if quote = None \<and> (ch = squote \<or> ch = dquote) then decode_spelling_from (Some ch) out chars
      else if quote = Some ch then decode_spelling_from None out chars
      else if quote = None \<and> ch = backslash then
        (case chars of
           [] \<Rightarrow> None
         | n # chars' \<Rightarrow> decode_spelling_from quote (out @ [n]) chars')
      else if quote = Some dquote \<and> ch = backslash then
        (case chars of
           [] \<Rightarrow> None
         | n # chars' \<Rightarrow>
             if n \<in> set [CHR ''$'', CHR 0x60, dquote, backslash, CHR 0x0A]
             then decode_spelling_from quote (out @ [n]) chars'
             else decode_spelling_from quote (out @ [backslash, n]) chars')
      else decode_spelling_from quote (out @ [ch]) chars)"

definition decode_shell_literal_spelling :: "rstr \<Rightarrow> rstr option" where
  "decode_shell_literal_spelling raw = decode_spelling_from None '''' raw"

definition decode_env_option_token :: "rstr \<Rightarrow> rstr" where
  "decode_env_option_token raw =
     (if squote \<notin> set raw \<and> dquote \<notin> set raw then raw
      else case decode_shell_literal_spelling raw of Some decoded \<Rightarrow> decoded | None \<Rightarrow> raw)"

definition is_high_confidence_env_s_payload :: "rstr \<Rightarrow> bool" where
  "is_high_confidence_env_s_payload s \<longleftrightarrow>
     s \<noteq> '''' \<and> CHR 0x00 \<notin> set s
     \<and> \<not> list_ex (\<lambda>c. c \<in> set [squote, dquote, backslash, CHR ''#'', CHR 0x60, CHR ''$'', CHR 0x0A, CHR 0x0D]) s"

definition take_high_confidence_payload :: "rstr \<Rightarrow> rstr option" where
  "take_high_confidence_payload raw = (if is_high_confidence_env_s_payload raw then Some raw else None)"

subsection \<open>The options of \<open>env\<close>\<close>

datatype env_short =
    SplitStringNext
  | SplitStringGlued rstr
  | SplitStringDetect
  | NoArg
  | ArgNeedNext char
  | ArgGlued char
  | Uncertain

fun classify_short_body :: "rstr \<Rightarrow> env_short" where
  "classify_short_body [] = NoArg"
| "classify_short_body (c # rest) =
     (if c \<in> set [CHR ''i'', CHR ''v'', CHR ''0''] then classify_short_body rest
      else if c = CHR ''S'' then SplitStringDetect
      else if c \<in> set [CHR ''u'', CHR ''C'', CHR ''P'', CHR ''a''] then
        (if rest \<noteq> '''' then ArgGlued c else ArgNeedNext c)
      else Uncertain)"

definition classify_env_short :: "rstr \<Rightarrow> env_short" where
  "classify_env_short tok =
     (if \<not> starts_with tok ''-'' \<or> starts_with tok ''--'' \<or> tok = ''-'' then Uncertain
      else
        (let body = drop 1 tok in
         if body = '''' then Uncertain
         else
           (case strip_prefix ''S'' body of
              Some rest \<Rightarrow> if rest = '''' then SplitStringNext else SplitStringGlued rest
            | None \<Rightarrow> classify_short_body body)))"

text \<open>\<open>env_command\<close> is \<open>cmd[command_start..]\<close>.\<close>

record env_scan =
  env_chdir :: "rstr option"
  env_split_string :: bool
  env_options_uncertain :: bool
  env_script :: "rstr option"
  env_command :: "rstr list"

definition env_done :: "rstr option \<Rightarrow> rstr list \<Rightarrow> env_scan" where
  "env_done dir cmd = \<lparr>env_chdir = dir, env_split_string = False, env_options_uncertain = False,
     env_script = None, env_command = cmd\<rparr>"

definition env_uncertain :: "rstr option \<Rightarrow> rstr list \<Rightarrow> env_scan" where
  "env_uncertain dir cmd = (env_done dir cmd)\<lparr>env_options_uncertain := True\<rparr>"

definition env_split :: "rstr option \<Rightarrow> rstr option \<Rightarrow> rstr list \<Rightarrow> env_scan" where
  "env_split dir script cmd = (env_done dir cmd)\<lparr>env_split_string := True, env_script := script\<rparr>"

definition next_payload :: "rstr list \<Rightarrow> rstr option" where
  "next_payload rest = (case rest of [] \<Rightarrow> None | raw # _ \<Rightarrow> take_high_confidence_payload raw)"

fun env_scan_from :: "rstr option \<Rightarrow> rstr list \<Rightarrow> env_scan" where
  "env_scan_from dir [] = env_done dir []"
| "env_scan_from dir (tok # rest) =
     (if tok = ''--'' then env_done dir rest
      else if tok = ''-'' then env_scan_from dir rest
      else if \<not> starts_with tok ''-'' then
        (if is_env_assignment tok then env_scan_from dir rest else env_done dir (tok # rest))
      else if starts_with tok ''--'' then
        (if tok = ''--chdir'' then
           (case rest of
              [] \<Rightarrow> env_uncertain dir (tok # rest)
            | d # rest' \<Rightarrow> env_scan_from (Some d) rest')
         else if starts_with tok ''--chdir='' then
           env_scan_from (strip_prefix ''--chdir='' tok) rest
         else if tok = ''--unset'' \<or> tok = ''--path'' \<or> tok = ''--argv0'' then
           (case rest of
              [] \<Rightarrow> env_uncertain dir (tok # rest)
            | _ # rest' \<Rightarrow> env_scan_from dir rest')
         else if starts_with tok ''--unset='' \<or> starts_with tok ''--path=''
                 \<or> starts_with tok ''--argv0='' then env_scan_from dir rest
         else if tok \<in> set [''--ignore-environment'', ''--null'', ''--debug'', ''--version'', ''--help'']
         then env_scan_from dir rest
         else if tok = ''--split-string'' then env_split dir (next_payload rest) (tok # rest)
         else
           (case strip_prefix ''--split-string='' tok of
              Some payload \<Rightarrow>
                (let payload = (case strip_prefix ''--split-string='' (decode_env_option_token tok) of
                                  Some p \<Rightarrow> p | None \<Rightarrow> payload)
                 in env_split dir (take_high_confidence_payload payload) (tok # rest))
            | None \<Rightarrow> env_uncertain dir (tok # rest)))
      else
        (case classify_env_short (decode_env_option_token tok) of
           SplitStringNext \<Rightarrow> env_split dir (next_payload rest) (tok # rest)
         | SplitStringGlued payload \<Rightarrow>
             env_split dir (take_high_confidence_payload payload) (tok # rest)
         | SplitStringDetect \<Rightarrow> env_split dir None (tok # rest)
         | NoArg \<Rightarrow> env_scan_from dir rest
         | ArgNeedNext kind \<Rightarrow>
             (case rest of
                [] \<Rightarrow> env_uncertain dir (tok # rest)
              | operand # rest' \<Rightarrow>
                  env_scan_from (if kind = CHR ''C'' then Some operand else dir) rest')
         | ArgGlued kind \<Rightarrow>
             env_scan_from
               (if kind = CHR ''C'' then
                  Some (case strip_prefix ''-C'' tok of Some d \<Rightarrow> d | None \<Rightarrow> '''')
                else dir) rest
         | Uncertain \<Rightarrow> env_uncertain dir (tok # rest)))"

declare env_scan_from.simps [simp del]

definition env_scan_of :: "rstr list \<Rightarrow> env_scan" where
  "env_scan_of cmd = env_scan_from None (drop 1 cmd)"

definition env_split_string_script :: "rstr list \<Rightarrow> rstr option" where
  "env_split_string_script words =
     (if head_name words \<noteq> Some ''env'' then None
      else (let scan = env_scan_of words in
            if \<not> env_split_string scan then None else env_script scan))"

subsection \<open>Wrapper commands\<close>

text \<open>Skip the options: one word, or two for an option in \<open>with_value\<close>.\<close>

fun skip_options :: "rstr list \<Rightarrow> rstr list \<Rightarrow> rstr list" where
  "skip_options with_value [] = []"
| "skip_options with_value (w # ws) =
     (if starts_with w ''-'' then
        (if w \<in> set with_value
         then (case ws of [] \<Rightarrow> [] | _ # ws' \<Rightarrow> skip_options with_value ws')
         else skip_options with_value ws)
      else w # ws)"

definition non_empty_words :: "rstr list \<Rightarrow> rstr list option" where
  "non_empty_words ws = (if ws = [] then None else Some ws)"

definition ionice_options :: "rstr list" where
  "ionice_options = [''-c'', ''-n'', ''-p'', ''-P'', ''-u'', ''--class'', ''--classdata'', ''--pid'',
     ''--pgid'', ''--uid'']"

definition strip_wrapper_command :: "rstr list \<Rightarrow> rstr list option" where
  "strip_wrapper_command cmd =
     (case cmd of
        [] \<Rightarrow> None
      | w # args \<Rightarrow>
          (let head = basename w in
           if head = ''timeout'' then
             non_empty_words (drop 1 (skip_options [''-k'', ''-s'', ''--kill-after'', ''--signal''] args))
           else if head = ''nice'' then non_empty_words (skip_options [''-n'', ''--adjustment''] args)
           else if head = ''ionice'' then non_empty_words (skip_options ionice_options args)
           else if head = ''chrt'' then non_empty_words (drop 1 (skip_options [] args))
           else if head = ''stdbuf'' then non_empty_words (skip_options [''-i'', ''-o'', ''-e''] args)
           else if head = ''env'' then
             (let scan = env_scan_of cmd in
              if env_split_string scan \<or> env_options_uncertain scan then None
              else non_empty_words (env_command scan))
           else None))"

definition is_wrapper_command :: "rstr list \<Rightarrow> bool" where
  "is_wrapper_command words =
     (case head_name words of
        None \<Rightarrow> False
      | Some h \<Rightarrow> h \<in> set [''timeout'', ''nice'', ''ionice'', ''chrt'', ''stdbuf'', ''env''])"

definition max_wrapper_depth :: nat where
  "max_wrapper_depth = 8"

definition max_inline_shell_depth :: nat where
  "max_inline_shell_depth = 8"

record checked_peel =
  peel_words :: "rstr list"
  peel_chdir :: bool
  peel_split_string :: bool
  peel_options_uncertain :: bool
  peel_exhausted :: bool

definition note_env :: "checked_peel \<Rightarrow> checked_peel" where
  "note_env p =
     (if head_name (peel_words p) = Some ''env'' then
        (let scan = env_scan_of (peel_words p) in
         p\<lparr>peel_chdir := peel_chdir p \<or> env_chdir scan \<noteq> None,
           peel_split_string := peel_split_string p \<or> env_split_string scan,
           peel_options_uncertain := peel_options_uncertain p \<or> env_options_uncertain scan\<rparr>)
      else p)"

fun unwrap_loop :: "nat \<Rightarrow> checked_peel \<Rightarrow> checked_peel" where
  "unwrap_loop 0 p =
     p\<lparr>peel_exhausted :=
         is_wrapper_command (peel_words p) \<and> strip_wrapper_command (peel_words p) \<noteq> None\<rparr>"
| "unwrap_loop (Suc n) p =
     (let p = note_env p in
      case strip_wrapper_command (peel_words p) of
        Some inner \<Rightarrow> unwrap_loop n (p\<lparr>peel_words := inner\<rparr>)
      | None \<Rightarrow> p\<lparr>peel_exhausted := False\<rparr>)"

definition unwrap_wrappers_checked :: "rstr list \<Rightarrow> checked_peel" where
  "unwrap_wrappers_checked words =
     unwrap_loop max_wrapper_depth
       \<lparr>peel_words = words, peel_chdir = False, peel_split_string = False,
        peel_options_uncertain = False, peel_exhausted = False\<rparr>"

definition unwrap_wrappers :: "rstr list \<Rightarrow> rstr list" where
  "unwrap_wrappers words = peel_words (unwrap_wrappers_checked words)"

subsection \<open>Transparent prefixes\<close>

datatype transparent_strip = NotPrefix | Peeled "rstr list" | Ambiguous

definition peeled_rest :: "rstr list \<Rightarrow> transparent_strip" where
  "peeled_rest inner = (if inner = [] then NotPrefix else Peeled inner)"

abbreviation nul :: rstr where
  "nul \<equiv> [CHR 0x00]"

fun exec_args :: "rstr list \<Rightarrow> transparent_strip" where
  "exec_args [] = peeled_rest []"
| "exec_args (tok # rest) =
     (if tok = ''--'' then peeled_rest rest
      else if tok = ''-'' \<or> \<not> starts_with tok ''-'' then peeled_rest (tok # rest)
      else if tok \<in> set [''-c'', ''-l'', ''-cl'', ''-lc''] then exec_args rest
      else if tok = ''-a'' then
        (case rest of
           [] \<Rightarrow> Ambiguous
         | v # rest' \<Rightarrow> if v \<noteq> nul \<and> v \<noteq> '''' then exec_args rest' else Ambiguous)
      else if starts_with tok ''-a'' then
        (if drop 2 tok = nul then Ambiguous else exec_args rest)
      else if \<not> starts_with tok ''--'' \<and> list_all (\<lambda>c. c = CHR ''c'' \<or> c = CHR ''l'') (drop 1 tok)
      then exec_args rest
      else Ambiguous)"

definition strip_exec_prefix :: "rstr list \<Rightarrow> transparent_strip" where
  "strip_exec_prefix cmd = exec_args (drop 1 cmd)"

fun command_args :: "rstr list \<Rightarrow> transparent_strip" where
  "command_args [] = peeled_rest []"
| "command_args (tok # rest) =
     (if tok = ''--'' then peeled_rest rest
      else if tok = ''-'' \<or> \<not> starts_with tok ''-'' then peeled_rest (tok # rest)
      else if tok \<in> set [''-v'', ''-V'', ''--help'', ''--version'']
           \<or> \<not> starts_with tok ''--'' \<and> list_ex (\<lambda>c. c = CHR ''v'' \<or> c = CHR ''V'') (drop 1 tok)
      then NotPrefix
      else if tok = ''-p'' \<or> \<not> starts_with tok ''--'' \<and> list_all (\<lambda>c. c = CHR ''p'') (drop 1 tok)
      then command_args rest
      else Ambiguous)"

definition strip_command_prefix :: "rstr list \<Rightarrow> transparent_strip" where
  "strip_command_prefix cmd = command_args (drop 1 cmd)"

definition strip_builtin_prefix :: "rstr list \<Rightarrow> transparent_strip" where
  "strip_builtin_prefix cmd =
     (case drop 1 cmd of
        [] \<Rightarrow> NotPrefix
      | tok # rest \<Rightarrow>
          if starts_with tok ''-'' \<and> tok \<noteq> ''-'' then Ambiguous else peeled_rest (tok # rest))"

definition strip_transparent_prefix :: "rstr list \<Rightarrow> transparent_strip" where
  "strip_transparent_prefix cmd =
     (case cmd of
        [] \<Rightarrow> NotPrefix
      | h # _ \<Rightarrow>
          if h = '''' \<or> h = nul then NotPrefix
          else if basename h = ''exec'' then strip_exec_prefix cmd
          else if basename h = ''command'' then strip_command_prefix cmd
          else if basename h = ''builtin'' then strip_builtin_prefix cmd
          else NotPrefix)"

definition max_transparent_prefix_depth :: nat where
  "max_transparent_prefix_depth = 8"

text \<open>\<open>None\<close> is \<open>TransparentPrefixPeel::Ambiguous\<close>.\<close>

fun peel_transparent_loop :: "nat \<Rightarrow> rstr list \<Rightarrow> rstr list option" where
  "peel_transparent_loop 0 current =
     (case strip_transparent_prefix current of NotPrefix \<Rightarrow> Some current | _ \<Rightarrow> None)"
| "peel_transparent_loop (Suc n) current =
     (case strip_transparent_prefix current of
        NotPrefix \<Rightarrow> Some current
      | Peeled inner \<Rightarrow> peel_transparent_loop n inner
      | Ambiguous \<Rightarrow> None)"

definition peel_transparent_prefixes :: "rstr list \<Rightarrow> rstr list option" where
  "peel_transparent_prefixes words = peel_transparent_loop max_transparent_prefix_depth words"

subsection \<open>Normalisation\<close>

definition max_normalize_rounds :: nat where
  "max_normalize_rounds = max_wrapper_depth + max_transparent_prefix_depth"

record normalized_peel =
  norm_words :: "rstr list"
  norm_chdir :: bool
  norm_split_string :: bool
  norm_options_uncertain :: bool
  norm_exhausted :: bool
  norm_ambiguous :: bool

text \<open>
  The rounds.  The source stops when a round left the slice as it was (same length, same pointer);
  every slice here is a suffix of the words (\<open>normalize_suffix\<close>), so the same length is the same slice.
\<close>

fun normalize_rounds :: "nat \<Rightarrow> normalized_peel \<Rightarrow> normalized_peel" where
  "normalize_rounds 0 s = s"
| "normalize_rounds (Suc n) s =
     (let wrapped = unwrap_wrappers_checked (norm_words s);
          s' = s\<lparr>norm_chdir := norm_chdir s \<or> peel_chdir wrapped,
                 norm_split_string := norm_split_string s \<or> peel_split_string wrapped,
                 norm_options_uncertain := norm_options_uncertain s \<or> peel_options_uncertain wrapped,
                 norm_exhausted := norm_exhausted s \<or> peel_exhausted wrapped,
                 norm_words := peel_words wrapped\<rparr>
      in if norm_split_string s' \<or> norm_options_uncertain s' then s'
         else
           (case peel_transparent_prefixes (norm_words s') of
              None \<Rightarrow> s'\<lparr>norm_ambiguous := True\<rparr>
            | Some inner \<Rightarrow>
                (let s'' = s'\<lparr>norm_words := inner\<rparr> in
                 if length inner = length (norm_words s) then s'' else normalize_rounds n s'')))"

definition still_peelable :: "rstr list \<Rightarrow> bool" where
  "still_peelable current \<longleftrightarrow>
     is_wrapper_command current \<and> strip_wrapper_command current \<noteq> None
     \<or> strip_transparent_prefix current \<noteq> NotPrefix"

definition normalize_command_words :: "rstr list \<Rightarrow> normalized_peel" where
  "normalize_command_words words =
     (let s = normalize_rounds max_normalize_rounds
                \<lparr>norm_words = words, norm_chdir = False, norm_split_string = False,
                 norm_options_uncertain = False, norm_exhausted = False, norm_ambiguous = False\<rparr>
      in if \<not> norm_ambiguous s \<and> \<not> norm_split_string s \<and> \<not> norm_options_uncertain s
            \<and> still_peelable (norm_words s)
         then s\<lparr>norm_exhausted := True\<rparr> else s)"

subsection \<open>Peeling keeps a suffix\<close>

lemma suffix_tl: "suffix xs ys \<Longrightarrow> suffix xs (y # ys)"
  by (rule suffix_ConsI)

lemma suffix_step: "suffix (y # ys) zs \<Longrightarrow> suffix ys zs"
  by (metis suffix_ConsD)

lemma env_fields [simp]:
  "env_command (env_done d ws) = ws" "env_command (env_uncertain d ws) = ws"
  "env_command (env_split d s ws) = ws"
  by (simp_all add: env_done_def env_uncertain_def env_split_def)

text \<open>
  A property of every branch is a property of the whole: rules for the long conditionals above, to be
  used with the predicate instantiated, so that the conditions are never evaluated.
\<close>

lemma branch_if: "P a \<Longrightarrow> P b \<Longrightarrow> P (if c then a else b)"
  by simp

lemma branch_list: "P a \<Longrightarrow> (\<And>y ys. xs = y # ys \<Longrightarrow> P (f y ys)) \<Longrightarrow> P (case xs of [] \<Rightarrow> a | y # ys \<Rightarrow> f y ys)"
  by (cases xs) auto

lemma branch_option: "P a \<Longrightarrow> (\<And>y. P (f y)) \<Longrightarrow> P (case xs of None \<Rightarrow> a | Some y \<Rightarrow> f y)"
  by (cases xs) auto

lemma branch_short:
  "P a \<Longrightarrow> (\<And>x. P (b x)) \<Longrightarrow> P c \<Longrightarrow> P d \<Longrightarrow> (\<And>x. P (e x)) \<Longrightarrow> (\<And>x. P (f x)) \<Longrightarrow> P g \<Longrightarrow>
   P (case k of SplitStringNext \<Rightarrow> a | SplitStringGlued x \<Rightarrow> b x | SplitStringDetect \<Rightarrow> c | NoArg \<Rightarrow> d
      | ArgNeedNext x \<Rightarrow> e x | ArgGlued x \<Rightarrow> f x | Uncertain \<Rightarrow> g)"
  by (cases k) auto

lemmas branches = branch_if branch_list branch_option branch_short

definition scan_within :: "rstr list \<Rightarrow> env_scan \<Rightarrow> bool" where
  "scan_within ws scan \<longleftrightarrow> suffix (env_command scan) ws"

lemma scan_within_simps [simp]:
  "scan_within ws (env_done d xs) \<longleftrightarrow> suffix xs ws"
  "scan_within ws (env_uncertain d xs) \<longleftrightarrow> suffix xs ws"
  "scan_within ws (env_split d s xs) \<longleftrightarrow> suffix xs ws"
  by (simp_all add: scan_within_def)

lemma env_scan_within: "scan_within ws (env_scan_from dir ws)"
proof (induction ws arbitrary: dir rule: length_induct)
  case (1 ws)
  show ?case
  proof (cases ws)
    case Nil
    then show ?thesis by (simp add: env_scan_from.simps)
  next
    case (Cons tok rest)
    have up: "scan_within ys s \<Longrightarrow> suffix ys ws \<Longrightarrow> scan_within ws s" for ys s
      unfolding scan_within_def by (rule suffix_order.trans)
    have one: "scan_within ws (env_scan_from d rest)" for d
      using 1 Cons by (intro up [of rest]) (auto intro: suffix_tl)
    have two: "scan_within ws (env_scan_from d rest')" if "rest = y # rest'" for d y rest'
      using 1 Cons that by (intro up [of rest']) (auto intro: suffix_tl)
    have leaves: "scan_within ws (env_done d rest)" "scan_within ws (env_done d (tok # rest))"
      "scan_within ws (env_uncertain d (tok # rest))" "scan_within ws (env_split d s (tok # rest))" for d s
      using Cons by (simp_all add: suffix_tl)
    have "scan_within ws (env_scan_from dir (tok # rest))"
      unfolding env_scan_from.simps Let_def
      by (intro branches [where P = "scan_within ws"] one leaves) (erule two)+
    then show ?thesis using Cons by simp
  qed
qed

lemma env_scan_suffix: "suffix (env_command (env_scan_from dir ws)) ws"
  using env_scan_within by (simp add: scan_within_def)

lemma skip_options_suffix: "suffix (skip_options vs ws) ws"
proof (induction ws rule: length_induct)
  case (1 ws)
  show ?case
  proof (cases ws)
    case Nil
    then show ?thesis by simp
  next
    case (Cons w rest)
    have one: "suffix (skip_options vs rest) ws"
      using 1 Cons by (auto intro: suffix_tl)
    have two: "suffix (skip_options vs rest') ws" if "rest = y # rest'" for y rest'
    proof -
      have "suffix (skip_options vs rest') rest'" using 1 Cons that by simp
      then show ?thesis using Cons that by (auto intro: suffix_tl)
    qed
    have "suffix (skip_options vs (w # rest)) ws"
      unfolding skip_options.simps
      by (intro branches [where P = "\<lambda>x. suffix x ws"] one) (simp, erule two, simp add: Cons)
    then show ?thesis by (simp only: Cons)
  qed
qed

lemma suffix_drop1: "suffix xs ys \<Longrightarrow> suffix (drop 1 xs) ys"
  using suffix_order.trans suffix_drop by blast

definition inner_within :: "rstr list \<Rightarrow> rstr list option \<Rightarrow> bool" where
  "inner_within ws x \<longleftrightarrow> (case x of None \<Rightarrow> True | Some inner \<Rightarrow> suffix inner ws \<and> inner \<noteq> [])"

lemma strip_wrapper_within: "inner_within args (strip_wrapper_command (w # args))"
proof -
  have ne: "inner_within args (non_empty_words ws)" if "suffix ws args" for ws
    using that by (simp add: inner_within_def non_empty_words_def)
  have "inner_within args None" by (simp add: inner_within_def)
  then show ?thesis
    unfolding strip_wrapper_command_def list.case Let_def env_scan_of_def
    by (intro branch_if [where P = "inner_within args"] ne suffix_drop1 skip_options_suffix)
      (simp_all add: env_scan_suffix)
qed

lemma strip_wrapper_suffix:
  "strip_wrapper_command cmd = Some inner \<Longrightarrow> suffix inner (tl cmd) \<and> inner \<noteq> [] \<and> cmd \<noteq> []"
  using strip_wrapper_within [of "tl cmd" "hd cmd"]
  by (cases cmd) (auto simp: inner_within_def strip_wrapper_command_def)

definition peel_within :: "rstr list \<Rightarrow> transparent_strip \<Rightarrow> bool" where
  "peel_within ws x \<longleftrightarrow> (case x of Peeled inner \<Rightarrow> suffix inner ws \<and> inner \<noteq> [] | _ \<Rightarrow> True)"

lemma peel_within_simps [simp]:
  "peel_within ws NotPrefix" "peel_within ws Ambiguous"
  "suffix inner ws \<Longrightarrow> peel_within ws (peeled_rest inner)"
  by (simp_all add: peel_within_def peeled_rest_def)

lemma peel_within_up: "peel_within ys x \<Longrightarrow> suffix ys ws \<Longrightarrow> peel_within ws x"
  by (auto simp: peel_within_def split: transparent_strip.splits intro: suffix_order.trans)

declare exec_args.simps [simp del] command_args.simps [simp del]

lemma exec_args_within: "peel_within ws (exec_args ws)"
proof (induction ws rule: length_induct)
  case (1 ws)
  show ?case
  proof (cases ws)
    case Nil
    then show ?thesis by (simp add: exec_args.simps)
  next
    case (Cons tok rest)
    have IH: "length ys < length ws \<Longrightarrow> suffix ys ws \<Longrightarrow> peel_within ws (exec_args ys)" for ys
      using 1 by (blast intro: peel_within_up)
    have one: "peel_within ws (exec_args rest)"
      using Cons by (intro IH) (simp_all add: suffix_tl)
    have two: "peel_within ws (exec_args rest')" if "rest = y # rest'" for y rest'
      using Cons that by (intro IH) (simp_all add: suffix_tl)
    have leaves: "peel_within ws (peeled_rest rest)" "peel_within ws (peeled_rest (tok # rest))"
      using Cons by (simp_all add: suffix_tl)
    have "peel_within ws (exec_args (tok # rest))"
      unfolding exec_args.simps
      by (intro branches [where P = "peel_within ws"] one leaves peel_within_simps(1,2)) (erule two)
    then show ?thesis by (simp only: Cons)
  qed
qed

lemma command_args_within: "peel_within ws (command_args ws)"
proof (induction ws)
  case (Cons tok rest)
  have one: "peel_within (tok # rest) (command_args rest)"
    by (rule peel_within_up [OF Cons]) (simp add: suffix_tl)
  have leaf: "peel_within (tok # rest) (peeled_rest rest)" by (simp add: suffix_tl)
  show ?case
    unfolding command_args.simps
    by (intro branches [where P = "peel_within (tok # rest)"] one leaf peel_within_simps) simp
qed (simp add: command_args.simps)

lemma strip_transparent_within: "peel_within args (strip_transparent_prefix (h # args))"
proof -
  have "peel_within args (strip_builtin_prefix (h # args))"
    unfolding strip_builtin_prefix_def
    by (cases args) simp_all
  moreover have "drop 1 (h # args) = args" by simp
  ultimately show ?thesis
    unfolding strip_transparent_prefix_def list.case strip_exec_prefix_def strip_command_prefix_def
    by (intro branches [where P = "peel_within args"])
      (simp_all only: exec_args_within command_args_within peel_within_simps)
qed

lemma strip_transparent_suffix:
  "strip_transparent_prefix cmd = Peeled inner \<Longrightarrow> suffix inner (tl cmd) \<and> inner \<noteq> [] \<and> cmd \<noteq> []"
  using strip_transparent_within [of "tl cmd" "hd cmd"]
  by (cases cmd) (auto simp: peel_within_def strip_transparent_prefix_def)

subsection \<open>Normalisation computes the normal form of peeling\<close>

text \<open>The specification: one wrapper or one transparent prefix is taken off.\<close>

inductive peel_step :: "rstr list \<Rightarrow> rstr list \<Rightarrow> bool" where
  wrapper: "strip_wrapper_command ws = Some inner \<Longrightarrow> peel_step ws inner"
| transparent: "strip_transparent_prefix ws = Peeled inner \<Longrightarrow> peel_step ws inner"

inductive_cases peel_stepE: "peel_step ws inner"

lemma strip_wrapper_heads:
  "strip_wrapper_command ws = Some inner \<Longrightarrow> is_wrapper_command ws"
  unfolding strip_wrapper_command_def is_wrapper_command_def head_name_def Let_def
  by (cases ws) (auto simp only: list.case option.case option.distinct list.set insert_iff split: if_split_asm)

lemma transparent_heads:
  assumes "strip_transparent_prefix ws = Peeled inner"
  shows "\<not> is_wrapper_command ws"
proof -
  obtain h args where ws: "ws = h # args" "basename h \<in> set [''exec'', ''command'', ''builtin'']"
    using assms unfolding strip_transparent_prefix_def
    by (cases ws) (auto split: if_split_asm)
  then show ?thesis
    by (auto simp: is_wrapper_command_def head_name_def)
qed

lemma peel_step_deterministic: "peel_step ws a \<Longrightarrow> peel_step ws b \<Longrightarrow> a = b"
  using strip_wrapper_heads transparent_heads
  by (elim peel_stepE) (auto dest: strip_wrapper_heads transparent_heads)

lemma peel_step_suffix: "peel_step ws inner \<Longrightarrow> suffix inner ws \<and> inner \<noteq> []"
  by (elim peel_stepE)
    (metis strip_wrapper_suffix strip_transparent_suffix suffix_order.trans suffix_tl list.collapse suffix_order.refl)+

lemma peel_steps_suffix: "peel_step\<^sup>*\<^sup>* ws inner \<Longrightarrow> suffix inner ws \<and> (ws \<noteq> [] \<longrightarrow> inner \<noteq> [])"
  by (induction rule: rtranclp_induct) (auto dest: peel_step_suffix intro: suffix_order.trans)

lemma still_peelable_iff: "still_peelable ws \<longleftrightarrow> (\<exists>v. peel_step ws v) \<or> strip_transparent_prefix ws = Ambiguous"
proof -
  have "(\<exists>v. peel_step ws v) \<longleftrightarrow> strip_wrapper_command ws \<noteq> None \<or> (\<exists>v. strip_transparent_prefix ws = Peeled v)"
    by (auto elim: peel_stepE intro: peel_step.intros)
  moreover have "strip_transparent_prefix ws \<noteq> NotPrefix \<longleftrightarrow>
      (\<exists>v. strip_transparent_prefix ws = Peeled v) \<or> strip_transparent_prefix ws = Ambiguous"
    by (cases "strip_transparent_prefix ws") auto
  ultimately show ?thesis
    using strip_wrapper_heads by (auto simp: still_peelable_def)
qed

lemma note_env_words [simp]: "peel_words (note_env p) = peel_words p"
  by (simp add: note_env_def Let_def)

lemma unwrap_loop_steps: "peel_step\<^sup>*\<^sup>* (peel_words p) (peel_words (unwrap_loop n p))"
proof (induction n arbitrary: p)
  case (Suc n)
  show ?case
  proof (cases "strip_wrapper_command (peel_words p)")
    case (Some inner)
    then have "peel_step (peel_words p) inner" by (rule peel_step.wrapper)
    with Suc [of "note_env p\<lparr>peel_words := inner\<rparr>"] Some show ?thesis
      by (simp add: Let_def converse_rtranclp_into_rtranclp)
  qed (simp add: Let_def)
qed simp

lemma peel_transparent_steps:
  "peel_transparent_loop n ws = Some inner \<Longrightarrow> peel_step\<^sup>*\<^sup>* ws inner \<and> strip_transparent_prefix inner = NotPrefix"
  by (induction n ws rule: peel_transparent_loop.induct)
    (auto split: transparent_strip.splits intro: converse_rtranclp_into_rtranclp peel_step.transparent)

lemma normalize_rounds_steps: "peel_step\<^sup>*\<^sup>* (norm_words s) (norm_words (normalize_rounds n s))"
proof (induction n arbitrary: s)
  case (Suc n)
  have u: "peel_step\<^sup>*\<^sup>* (norm_words s) (peel_words (unwrap_wrappers_checked (norm_words s)))"
    using unwrap_loop_steps [of "\<lparr>peel_words = norm_words s, peel_chdir = False, peel_split_string = False,
        peel_options_uncertain = False, peel_exhausted = False\<rparr>" max_wrapper_depth]
    by (simp add: unwrap_wrappers_checked_def)
  show ?case
  proof (cases "peel_transparent_prefixes (peel_words (unwrap_wrappers_checked (norm_words s)))")
    case None
    with u show ?thesis by (simp add: Let_def)
  next
    case (Some inner)
    then have "peel_step\<^sup>*\<^sup>* (peel_words (unwrap_wrappers_checked (norm_words s))) inner"
      using peel_transparent_steps by (simp add: peel_transparent_prefixes_def)
    with u have steps: "peel_step\<^sup>*\<^sup>* (norm_words s) inner" by (rule rtranclp_trans)
    have more: "norm_words t = inner \<Longrightarrow> peel_step\<^sup>*\<^sup>* (norm_words s) (norm_words (normalize_rounds n t))" for t
      using rtranclp_trans [OF steps] Suc [of t] by simp
    from Some u steps show ?thesis by (simp add: Let_def more)
  qed
qed simp

lemma normalize_steps: "peel_step\<^sup>*\<^sup>* words (norm_words (normalize_command_words words))"
  using normalize_rounds_steps [of "\<lparr>norm_words = words, norm_chdir = False, norm_split_string = False,
      norm_options_uncertain = False, norm_exhausted = False, norm_ambiguous = False\<rparr>" max_normalize_rounds]
  by (simp add: normalize_command_words_def Let_def)

lemma normalize_suffix:
  "suffix (norm_words (normalize_command_words words)) words"
  "words \<noteq> [] \<Longrightarrow> norm_words (normalize_command_words words) \<noteq> []"
  using peel_steps_suffix [OF normalize_steps] by simp_all

text \<open>No flag is raised: the callers then trust the words.\<close>

definition unflagged :: "normalized_peel \<Rightarrow> bool" where
  "unflagged s \<longleftrightarrow> \<not> norm_exhausted s \<and> \<not> norm_ambiguous s \<and> \<not> norm_split_string s \<and> \<not> norm_options_uncertain s"

lemma unflagged_final: "unflagged (normalize_command_words words) \<Longrightarrow> \<not> still_peelable (norm_words (normalize_command_words words))"
  by (auto simp: normalize_command_words_def Let_def unflagged_def split: if_splits)

lemma deterministic_confluent:
  assumes det: "\<And>x a b. R x a \<Longrightarrow> R x b \<Longrightarrow> a = b"
    and "R\<^sup>*\<^sup>* x y" "R\<^sup>*\<^sup>* x z" "\<And>v. \<not> R z v"
  shows "R\<^sup>*\<^sup>* y z"
  using assms(2,3)
proof (induction rule: rtranclp_induct)
  case (step u w)
  then have "R\<^sup>*\<^sup>* u z" by simp
  then show ?case
    by (cases rule: converse_rtranclpE) (use step(2) det assms(4) in \<open>auto dest: det\<close>)
qed

lemma unflagged_normal_form:
  assumes "unflagged (normalize_command_words words)" and "peel_step\<^sup>*\<^sup>* words ws" and "\<nexists>v. peel_step ws v"
  shows "norm_words (normalize_command_words words) = ws"
proof -
  have "peel_step\<^sup>*\<^sup>* ws (norm_words (normalize_command_words words))"
    by (rule deterministic_confluent [of peel_step, OF _ assms(2) normalize_steps])
      (use peel_step_deterministic unflagged_final [OF assms(1)] still_peelable_iff in blast)+
  then show ?thesis using assms(3) by (auto elim: converse_rtranclpE)
qed

text \<open>
  C31: Unless one of its four flags is raised, normalisation peels a command completely, and takes the
  only way there is: the words it returns have no wrapper and no transparent prefix left, and whatever
  command appears when some of them are taken off peels down to these same words.  So no command
  hides behind \<open>timeout\<close>, \<open>env\<close>, \<open>exec\<close> and the like, however they are nested, without a flag.
\<close>

theorem normalize_exposes_command:
  assumes "unflagged (normalize_command_words words)" "peel_step\<^sup>*\<^sup>* words ws"
  shows "peel_step\<^sup>*\<^sup>* ws (norm_words (normalize_command_words words))
    \<and> (\<nexists>v. peel_step (norm_words (normalize_command_words words)) v)"
proof -
  have final: "\<not> peel_step (norm_words (normalize_command_words words)) v" for v
    using unflagged_final [OF assms(1)] still_peelable_iff by blast
  have "peel_step\<^sup>*\<^sup>* ws (norm_words (normalize_command_words words))"
    by (rule deterministic_confluent [of peel_step, OF _ assms(2) normalize_steps final])
      (rule peel_step_deterministic)
  with final show ?thesis by blast
qed

theorem normalize_exposes_command_witness:
  "peel_step\<^sup>*\<^sup>* [''command'', ''rm'', ''-rf'', ''/''] (norm_words (normalize_command_words
       [''env'', ''A=1'', ''timeout'', ''5'', ''command'', ''rm'', ''-rf'', ''/'']))
   \<and> (\<nexists>v. peel_step (norm_words (normalize_command_words
       [''env'', ''A=1'', ''timeout'', ''5'', ''command'', ''rm'', ''-rf'', ''/''])) v)"
proof (rule normalize_exposes_command)
  show "unflagged (normalize_command_words [''env'', ''A=1'', ''timeout'', ''5'', ''command'', ''rm'', ''-rf'', ''/''])"
    by code_simp
  have "peel_step [''env'', ''A=1'', ''timeout'', ''5'', ''command'', ''rm'', ''-rf'', ''/'']
      [''timeout'', ''5'', ''command'', ''rm'', ''-rf'', ''/'']"
    by (rule peel_step.wrapper) code_simp
  moreover have "peel_step [''timeout'', ''5'', ''command'', ''rm'', ''-rf'', ''/''] [''command'', ''rm'', ''-rf'', ''/'']"
    by (rule peel_step.wrapper) code_simp
  ultimately show "peel_step\<^sup>*\<^sup>* [''env'', ''A=1'', ''timeout'', ''5'', ''command'', ''rm'', ''-rf'', ''/'']
      [''command'', ''rm'', ''-rf'', ''/'']"
    by (meson converse_rtranclp_into_rtranclp r_into_rtranclp)
qed

text \<open>
  The flag for a packed \<open>env -S\<close> is raised only when a round looks at the words.  Sixteen alternations of
  a wrapper and a transparent prefix use up the rounds, and the \<open>env -S\<close> behind them is returned with
  no flag at all.
\<close>

lemma split_string_past_the_rounds:
  "let words = concat (replicate 16 [''timeout'', ''1'', ''command'']) @ [''env'', ''-S'', ''rm \"x\"''];
       s = normalize_command_words words
   in unflagged s \<and> norm_words s = [''env'', ''-S'', ''rm \"x\"''] \<and> env_split_string (env_scan_of (norm_words s))"
  by code_simp

subsection \<open>The budgets suffice for short commands\<close>

lemma unwrap_loop_within:
  "length (peel_words p) \<le> Suc n \<Longrightarrow> \<not> peel_exhausted (unwrap_loop n p)"
proof (induction n arbitrary: p)
  case 0
  then have "tl (peel_words p) = []" by (cases "peel_words p") auto
  then have "strip_wrapper_command (peel_words p) = None"
    using strip_wrapper_suffix [of "peel_words p"] by (cases "strip_wrapper_command (peel_words p)") auto
  then show ?case by simp
next
  case (Suc n)
  show ?case
  proof (cases "strip_wrapper_command (peel_words p)")
    case (Some inner)
    then have "length inner < length (peel_words p)"
      using strip_wrapper_suffix [OF Some] suffix_length_le [of inner "tl (peel_words p)"]
      by (cases "peel_words p") auto
    with Suc Some show ?thesis by (simp add: Let_def)
  qed (simp add: Let_def)
qed

lemma unwrap_loop_done:
  "\<not> peel_exhausted (unwrap_loop n p) \<Longrightarrow> strip_wrapper_command (peel_words (unwrap_loop n p)) = None"
proof (induction n arbitrary: p)
  case 0
  then show ?case using strip_wrapper_heads by (cases "strip_wrapper_command (peel_words p)") auto
qed (auto simp: Let_def split: option.splits)

lemma unwrap_done:
  assumes "\<not> peel_exhausted (unwrap_wrappers_checked ws)"
  shows "strip_wrapper_command (peel_words (unwrap_wrappers_checked ws)) = None"
  using assms unfolding unwrap_wrappers_checked_def by (rule unwrap_loop_done)

lemma unwrap_steps: "peel_step\<^sup>*\<^sup>* ws (peel_words (unwrap_wrappers_checked ws))"
  using unwrap_loop_steps [of "\<lparr>peel_words = ws, peel_chdir = False, peel_split_string = False,
      peel_options_uncertain = False, peel_exhausted = False\<rparr>" max_wrapper_depth]
  by (simp add: unwrap_wrappers_checked_def)

lemma suffix_same_length: "suffix xs ys \<Longrightarrow> length ys \<le> length xs \<Longrightarrow> xs = ys"
  by (auto simp: suffix_def)

text \<open>A round that leaves the words as they were has reached the normal form.\<close>

lemma round_fixed:
  assumes "\<not> peel_exhausted (unwrap_wrappers_checked ws)"
    and "peel_transparent_prefixes (peel_words (unwrap_wrappers_checked ws)) = Some inner"
    and "length inner = length ws \<or> length inner = length (peel_words (unwrap_wrappers_checked ws))"
  shows "\<not> still_peelable inner"
proof -
  let ?w = "peel_words (unwrap_wrappers_checked ws)"
  have t: "peel_step\<^sup>*\<^sup>* ?w inner" "strip_transparent_prefix inner = NotPrefix"
    using peel_transparent_steps assms(2) by (auto simp: peel_transparent_prefixes_def)
  have "suffix inner ?w" "suffix ?w ws"
    using peel_steps_suffix [OF t(1)] peel_steps_suffix [OF unwrap_steps] by auto
  then have "length inner \<le> length ?w" "length ?w \<le> length ws" by (auto dest: suffix_length_le)
  with assms(3) have "length ?w \<le> length inner" by auto
  then have "inner = ?w" using \<open>suffix inner ?w\<close> suffix_same_length by blast
  then show ?thesis
    using unwrap_done [OF assms(1)] t(2) by (simp add: still_peelable_def)
qed

lemma normalize_rounds_within:
  assumes "length (norm_words s) < n" "length (norm_words s) \<le> 9" "\<not> norm_exhausted s"
  shows "\<not> norm_exhausted (normalize_rounds n s)
    \<and> (norm_split_string (normalize_rounds n s) \<or> norm_options_uncertain (normalize_rounds n s)
       \<or> norm_ambiguous (normalize_rounds n s) \<or> \<not> still_peelable (norm_words (normalize_rounds n s)))"
  using assms
proof (induction n arbitrary: s)
  case (Suc n)
  let ?w = "unwrap_wrappers_checked (norm_words s)"
  have ok: "\<not> peel_exhausted ?w"
    unfolding unwrap_wrappers_checked_def
    by (rule unwrap_loop_within) (use Suc(3) in \<open>simp add: max_wrapper_depth_def\<close>)
  show ?case
  proof (cases "peel_transparent_prefixes (peel_words ?w)")
    case None
    with ok Suc(4) show ?thesis by (simp add: Let_def)
  next
    case (Some inner)
    then have "suffix inner (norm_words s)"
      using peel_steps_suffix [OF unwrap_steps, of "norm_words s"]
        peel_steps_suffix [OF conjunct1 [OF peel_transparent_steps], of max_transparent_prefix_depth "peel_words ?w" inner]
      by (auto simp: peel_transparent_prefixes_def intro: suffix_order.trans)
    then have le: "length inner \<le> length (norm_words s)" by (rule suffix_length_le)
    show ?thesis
    proof (cases "length inner = length (norm_words s)")
      case True
      then have "\<not> still_peelable inner" using round_fixed [OF ok Some] by simp
      with True Some ok Suc(4) show ?thesis by (simp add: Let_def)
    next
      case False
      with le Suc(2,3) have "length inner < n" "length inner \<le> 9" by auto
      then have IH: "\<not> norm_exhausted t \<Longrightarrow> norm_words t = inner \<Longrightarrow> \<not> norm_exhausted (normalize_rounds n t)
          \<and> (norm_split_string (normalize_rounds n t) \<or> norm_options_uncertain (normalize_rounds n t)
             \<or> norm_ambiguous (normalize_rounds n t) \<or> \<not> still_peelable (norm_words (normalize_rounds n t)))" for t
        using Suc(1) [of t] by blast
      let ?t = "s\<lparr>norm_chdir := norm_chdir s \<or> peel_chdir ?w, norm_split_string := False,
        norm_options_uncertain := False, norm_exhausted := False, norm_words := inner\<rparr>"
      have step: "normalize_rounds (Suc n) s = normalize_rounds n ?t"
        if "\<not> (norm_split_string s \<or> peel_split_string ?w \<or> norm_options_uncertain s \<or> peel_options_uncertain ?w)"
        using that False Some ok Suc(4) by (simp add: Let_def)
      show ?thesis
      proof (cases "norm_split_string s \<or> peel_split_string ?w \<or> norm_options_uncertain s \<or> peel_options_uncertain ?w")
        case True
        then show ?thesis using ok Suc(4) by (auto simp: Let_def)
      next
        case no_flag: False
        show ?thesis unfolding step [OF no_flag] by (rule IH) simp_all
      qed
    qed
  qed
qed simp



text \<open>The bound is the best one.\<close>

lemma ten_words_exhaust: "norm_exhausted (normalize_command_words (replicate 9 ''nice'' @ [''rm'']))"
  by code_simp


end
