(* ===== verification/BashScript.thy ===== *)
theory BashScript
  imports CommandWords "HOL-Library.Multiset"
begin

section \<open>Scripts as lists of plain commands\<close>

text \<open>
  Models the rest of \<open>bash_command_splitting.rs\<close>: the functions that read a syntax tree of a bash script.
  The tree is what tree-sitter answers for a script (the parser is a parameter): a node has a kind, is
  named or anonymous, may be the child of its parent under a field name, covers a range of bytes and has
  children; the root knows if the tree has an error.
\<close>

datatype syntax_node =
  Node (node_kind: rstr) (node_named: bool) (node_field: "rstr option") (start_byte: nat) (end_byte: nat)
    (node_children: "syntax_node list")

record syntax_tree =
  tree_root :: syntax_node
  tree_has_error :: bool

type_synonym bash_parser = "rstr \<Rightarrow> syntax_tree option"

record plain_command =
  command_words :: "rstr list"
  span_start :: nat
  span_end :: nat

text \<open>\<open>s.get(a..b)\<close>.\<close>

definition str_get :: "rstr \<Rightarrow> nat \<Rightarrow> nat \<Rightarrow> rstr option" where
  "str_get s a b =
     (if a \<le> b \<and> b \<le> length s \<and> is_char_boundary s a \<and> is_char_boundary s b
      then Some (take (b - a) (drop a s)) else None)"

definition spans_whole_script :: "plain_command \<Rightarrow> rstr \<Rightarrow> bool" where
  "spans_whole_script c script =
     (case (str_get script 0 (span_start c), str_get script (span_end c) (length script)) of
        (Some before, Some after) \<Rightarrow> trim before = '''' \<and> trim after = ''''
      | _ \<Rightarrow> False)"

subsection \<open>The allowlist of node kinds\<close>

definition allowed_kinds :: "rstr list" where
  "allowed_kinds = [''program'', ''list'', ''pipeline'', ''command'', ''command_name'', ''word'', ''string'',
     ''string_content'', ''raw_string'', ''number'', ''concatenation'', ''variable_assignment'',
     ''variable_name'', ''redirected_statement'', ''file_redirect'', ''file_descriptor'', ''comment'',
     ''heredoc_redirect'', ''heredoc_start'', ''heredoc_body'', ''heredoc_content'', ''heredoc_end'']"

definition allowed_punct_tokens :: "rstr list" where
  "allowed_punct_tokens = [''&&'', ''||'', '';'', ''|'', [dquote], [squote], ''='', ''>'', ''>>'', ''<'',
     ''<<'', ''>&'', ''&>'', ''&>>'']"

definition node_allowed :: "syntax_node \<Rightarrow> bool" where
  "node_allowed n =
     (let kind = node_kind n in
      if node_named n then kind \<in> set allowed_kinds
      else \<not> (list_ex (\<lambda>c. c \<in> set ''&;|'') kind \<and> kind \<notin> set allowed_punct_tokens)
           \<and> (kind \<in> set allowed_punct_tokens \<or> trim kind = ''''))"

definition is_command_node :: "syntax_node \<Rightarrow> bool" where
  "is_command_node n \<longleftrightarrow> node_named n \<and> node_kind n = ''command''"

lemma sum_size_nodes: "size_list size ns = sum_list (map size ns) + length ns"
  by (simp add: size_list_conv_sum_list)

text \<open>The walk with its explicit stack (the top is the head), and the \<open>command\<close> nodes met so far.\<close>

function walk_commands :: "syntax_node list \<Rightarrow> syntax_node list \<Rightarrow> syntax_node list option" where
  "walk_commands [] found = Some found"
| "walk_commands (n # stack) found =
     (if \<not> node_allowed n then None
      else walk_commands (rev (node_children n) @ stack)
             (if is_command_node n then found @ [n] else found))"
  by pat_completeness auto
termination
proof (relation "measure (\<lambda>(stack, found). sum_list (map size stack))")
  fix n :: syntax_node and stack found :: "syntax_node list"
  have "sum_list (map size (rev (node_children n))) < size n"
    by (cases n) (simp add: sum_size_nodes rev_map [symmetric] sum_list_rev)
  then show "((rev (node_children n) @ stack, if is_command_node n then found @ [n] else found), n # stack, found)
      \<in> measure (\<lambda>(stack, found). sum_list (map size stack))" by simp
qed simp

subsection \<open>One plain command\<close>

definition node_text :: "rstr \<Rightarrow> syntax_node \<Rightarrow> rstr option" where
  "node_text src n = str_get src (start_byte n) (end_byte n)"

definition named_children :: "syntax_node \<Rightarrow> syntax_node list" where
  "named_children n = filter node_named (node_children n)"

text \<open>The text of a word node, and the node whose range is highlighted; \<open>None\<close> rejects the command.\<close>

definition word_of_child :: "rstr \<Rightarrow> syntax_node \<Rightarrow> (rstr \<times> syntax_node) option" where
  "word_of_child src child =
     (if node_kind child = ''command_name'' then
        (case named_children child of
           [] \<Rightarrow> None
         | w # _ \<Rightarrow> if node_kind w \<noteq> ''word'' then None else map_option (\<lambda>t. (t, w)) (node_text src w))
      else if node_kind child = ''word'' \<or> node_kind child = ''number'' then
        map_option (\<lambda>t. (t, child)) (node_text src child)
      else if node_kind child = ''string'' then
        (if map node_kind (node_children child) = [[dquote], ''string_content'', [dquote]]
         then map_option (\<lambda>t. (t, child)) (node_text src (node_children child ! 1))
         else None)
      else if node_kind child = ''raw_string'' then
        (case node_text src child of
           None \<Rightarrow> None
         | Some raw \<Rightarrow>
             map_option (\<lambda>t. (t, child)) (Option.bind (strip_prefix [squote] raw) (strip_suffix [squote])))
      else if node_kind child = ''concatenation'' then map_option (\<lambda>t. (t, child)) (node_text src child)
      else None)"

fun plain_words :: "rstr \<Rightarrow> syntax_node list \<Rightarrow> rstr list \<Rightarrow> nat option \<Rightarrow> nat option
    \<Rightarrow> (rstr list \<times> nat option \<times> nat option) option" where
  "plain_words src [] words from to = Some (words, from, to)"
| "plain_words src (child # rest) words from to =
     (if node_kind child = ''variable_assignment'' then plain_words src rest words from to
      else
        (case word_of_child src child of
           None \<Rightarrow> None
         | Some (t, spanned) \<Rightarrow>
             plain_words src rest (words @ [t])
               (if from = None then Some (start_byte spanned) else from) (Some (end_byte spanned))))"

definition parse_plain_command_from_node :: "syntax_node \<Rightarrow> rstr \<Rightarrow> plain_command option" where
  "parse_plain_command_from_node cmd src =
     (if node_kind cmd \<noteq> ''command'' then None
      else
        (case plain_words src (named_children cmd) [] None None of
           None \<Rightarrow> None
         | Some (words, from, to) \<Rightarrow>
             Some \<lparr>command_words = words,
                   span_start = (case from of Some a \<Rightarrow> a | None \<Rightarrow> start_byte cmd),
                   span_end = (case to of Some b \<Rightarrow> b | None \<Rightarrow> end_byte cmd)\<rparr>))"

fun parse_plain_commands :: "rstr \<Rightarrow> syntax_node list \<Rightarrow> plain_command list option" where
  "parse_plain_commands src [] = Some []"
| "parse_plain_commands src (n # ns) =
     (case parse_plain_command_from_node n src of
        None \<Rightarrow> None
      | Some c \<Rightarrow> map_option ((#) c) (parse_plain_commands src ns))"

definition try_parse_word_only_commands_sequence :: "syntax_tree \<Rightarrow> rstr \<Rightarrow> plain_command list option" where
  "try_parse_word_only_commands_sequence tree src =
     (if tree_has_error tree then None
      else
        (case walk_commands [tree_root tree] [] of
           None \<Rightarrow> None
         | Some found \<Rightarrow> parse_plain_commands src (sort_key start_byte found)))"

definition all_commands_from_script :: "bash_parser \<Rightarrow> rstr \<Rightarrow> plain_command list option" where
  "all_commands_from_script parse script =
     Option.bind (parse script) (\<lambda>tree. try_parse_word_only_commands_sequence tree script)"

subsection \<open>The highlighted command\<close>

text \<open>\<open>sh_split_simple\<close>, on the characters: the open quotes, the current word and the words so far.\<close>

fun sh_split_from :: "bool \<Rightarrow> bool \<Rightarrow> rstr \<Rightarrow> rstr list \<Rightarrow> rstr list \<Rightarrow> rstr list" where
  "sh_split_from sq dq current result [] = (if current \<noteq> '''' then result @ [current] else result)"
| "sh_split_from sq dq current result (c # chars) =
     (if c = [squote] \<and> \<not> dq then sh_split_from (\<not> sq) dq current result chars
      else if c = [dquote] \<and> \<not> sq then sh_split_from sq (\<not> dq) current result chars
      else if c = [backslash] then
        (case chars of
           [] \<Rightarrow> sh_split_from sq dq current result []
         | n # chars' \<Rightarrow> sh_split_from sq dq (current @ n) result chars')
      else if is_whitespace c \<and> \<not> sq \<and> \<not> dq then
        (if current \<noteq> '''' then sh_split_from sq dq '''' (result @ [current]) chars
         else sh_split_from sq dq current result chars)
      else sh_split_from sq dq (current @ c) result chars)"

definition sh_split_simple :: "rstr \<Rightarrow> rstr list" where
  "sh_split_simple s = sh_split_from False False '''' [] (chars_of s)"

record highlights =
  hl_prefix :: "rstr list"
  hl_words :: "rstr list"
  hl_suffix :: "rstr list"

fun find_primary :: "plain_command list \<Rightarrow> (plain_command \<times> nat \<times> rstr list) option" where
  "find_primary [] = None"
| "find_primary (c # cs) =
     (let peeled = unwrap_wrappers (command_words c) in
      if peeled = [] \<or> is_setup_command peeled then find_primary cs
      else
        (let peeled_off = length (command_words c) - length peeled
         in Some (c, peeled_off, drop peeled_off (command_words c))))"

definition primary_command_from_script :: "bash_parser \<Rightarrow> rstr \<Rightarrow> highlights option" where
  "primary_command_from_script parse script =
     Option.bind (all_commands_from_script parse script) (\<lambda>commands.
       map_option (\<lambda>(primary, peeled_off, peeled_words).
         \<lparr>hl_prefix = sh_split_simple (take (span_start primary) script)
                       @ take peeled_off (command_words primary),
          hl_words = peeled_words,
          hl_suffix = sh_split_simple (drop (span_end primary) script)\<rparr>) (find_primary commands))"

subsection \<open>Soft breaks\<close>

definition payload_node_kinds :: "rstr list" where
  "payload_node_kinds = [''heredoc_body'', ''simple_heredoc_body'', ''heredoc_content'', ''heredoc_end'',
     ''string'', ''raw_string'', ''string_content'', ''ansi_c_string'', ''translated_string'', ''comment'']"

definition is_soft_break_operator_kind :: "rstr \<Rightarrow> bool" where
  "is_soft_break_operator_kind kind \<longleftrightarrow> kind \<in> set [''&&'', ''||'', ''|'', '';'']"

definition is_payload_node_kind :: "rstr \<Rightarrow> bool" where
  "is_payload_node_kind kind \<longleftrightarrow> kind \<in> set payload_node_kinds"

text \<open>The walks push the children in reverse, so that they are met in order.\<close>

fun walk_breaks :: "rstr \<Rightarrow> syntax_node \<Rightarrow> nat list" where
  "walk_breaks script (Node kind named field from to children) =
     (if is_payload_node_kind kind then []
      else (if is_soft_break_operator_kind kind \<and> 0 < to \<and> to \<le> length script \<and> is_char_boundary script to
            then [to] else [])
           @ concat (map (walk_breaks script) children))"

definition soft_break_offsets_after_operators :: "bash_parser \<Rightarrow> rstr \<Rightarrow> nat list" where
  "soft_break_offsets_after_operators parse script =
     (case parse script of
        None \<Rightarrow> []
      | Some tree \<Rightarrow>
          if tree_has_error tree then []
          else remdups_adj (sort (walk_breaks script (tree_root tree))))"

fun walk_payload :: "rstr \<Rightarrow> syntax_node \<Rightarrow> (nat \<times> nat) list" where
  "walk_payload script (Node kind named field from to children) =
     (if kind \<in> set [''heredoc_body'', ''simple_heredoc_body'', ''heredoc_content'']
      then (if from < to \<and> to \<le> length script then [(from, to)] else [])
      else concat (map (walk_payload script) children))"

definition heredoc_payload_byte_ranges :: "bash_parser \<Rightarrow> rstr \<Rightarrow> (nat \<times> nat) list" where
  "heredoc_payload_byte_ranges parse script =
     (case parse script of
        None \<Rightarrow> []
      | Some tree \<Rightarrow>
          if tree_has_error tree then []
          else remdups_adj (sort_key fst (sort_key snd (walk_payload script (tree_root tree)))))"

definition range_fully_inside :: "nat \<Rightarrow> nat \<Rightarrow> (nat \<times> nat) list \<Rightarrow> bool" where
  "range_fully_inside from to ranges =
     (if to < from then False else list_ex (\<lambda>(rs, re). from \<ge> rs \<and> to \<le> re) ranges)"

text \<open>The slices between the offsets that move forward, and the last offset used.\<close>

fun cut_at :: "rstr \<Rightarrow> nat \<Rightarrow> nat list \<Rightarrow> rstr list \<times> nat" where
  "cut_at line pos [] = ([], pos)"
| "cut_at line pos (b # bs) =
     (if b > pos \<and> b \<le> length line then
        (let (chunks, last) = cut_at line b bs in (take (b - pos) (drop pos line) # chunks, last))
      else cut_at line pos bs)"

definition split_physical_line_at_soft_breaks :: "rstr \<Rightarrow> nat \<Rightarrow> nat list \<Rightarrow> rstr list" where
  "split_physical_line_at_soft_breaks line line_start breaks =
     (let line_end = line_start + length line;
          rel = remdups_adj
                  (filter (is_char_boundary line)
                    (map (\<lambda>b. b - line_start) (filter (\<lambda>b. b > line_start \<and> b < line_end) breaks)))
      in if rel = [] then [line]
         else
           (let (chunks, pos) = cut_at line 0 rel;
                chunks = chunks @ (if pos < length line then [drop pos line] else [])
            in if chunks = [] then [line] else chunks))"

definition soft_break_chunks :: "bash_parser \<Rightarrow> rstr \<Rightarrow> rstr list" where
  "soft_break_chunks parse script =
     (let breaks = soft_break_offsets_after_operators parse script in
      if breaks = [] then [script]
      else
        (let (chunks, pos) = cut_at script 0 breaks
         in chunks @ (if pos < length script then [drop pos script] else [])))"

subsection \<open>Nothing outside the allowlist\<close>

text \<open>All nodes of a tree.\<close>

fun nodes :: "syntax_node \<Rightarrow> syntax_node list" where
  "nodes (Node kind named field from to children) = Node kind named field from to children # concat (map nodes children)"

lemma nodes_unfold: "nodes n = n # concat (map nodes (node_children n))"
  by (cases n) simp

lemma walk_commands_spec:
  assumes "walk_commands stack found = Some ps"
  shows "(\<forall>n \<in> set (concat (map nodes stack)). node_allowed n)
    \<and> mset ps = mset found + mset (filter is_command_node (concat (map nodes stack)))"
  using assms
proof (induction stack found rule: walk_commands.induct)
  case (2 n stack found)
  have ok: "node_allowed n" using 2(2) by (simp split: if_splits)
  have "(\<forall>m \<in> set (concat (map nodes (rev (node_children n) @ stack))). node_allowed m)
      \<and> mset ps = mset (if is_command_node n then found @ [n] else found)
          + mset (filter is_command_node (concat (map nodes (rev (node_children n) @ stack))))"
    using 2 ok by simp
  moreover have "mset (filter is_command_node (concat (map nodes (rev ns))))
      = mset (filter is_command_node (concat (map nodes ns)))" for ns
    by (induction ns) simp_all
  ultimately show ?case
    using ok by (auto simp: nodes_unfold [of n])
qed simp

lemma walk_commands_total:
  assumes "\<forall>n \<in> set (concat (map nodes stack)). node_allowed n"
  shows "walk_commands stack found \<noteq> None"
  using assms
proof (induction stack found rule: walk_commands.induct)
  case (2 n stack found)
  then show ?case by (auto simp: nodes_unfold [of n])
qed simp

lemma parse_plain_commands_iff:
  "parse_plain_commands src ns = Some cs \<longleftrightarrow> map (\<lambda>n. parse_plain_command_from_node n src) ns = map Some cs"
proof (induction ns arbitrary: cs)
  case (Cons n ns)
  then show ?case by (cases cs) (auto split: option.splits)
qed auto

text \<open>
  A script is decomposed only if its parse has no error and no node anywhere in its tree (a
  substitution, a subshell, control flow, an operator that is not a plain one) is outside the allowlist;
  and then no command is lost: the answer has one plain command for every \<open>command\<close> node of the
  tree, however deep, in the order of the source.
\<close>

theorem decomposition_is_complete:
  assumes "parse script = Some tree" "all_commands_from_script parse script = Some cmds"
  shows "\<not> tree_has_error tree \<and> (\<forall>n \<in> set (nodes (tree_root tree)). node_allowed n)
    \<and> (\<exists>ps. mset ps = mset (filter is_command_node (nodes (tree_root tree))) \<and> sorted (map start_byte ps)
         \<and> map (\<lambda>n. parse_plain_command_from_node n script) ps = map Some cmds)"
proof -
  have ok: "\<not> tree_has_error tree"
    using assms by (auto simp: all_commands_from_script_def try_parse_word_only_commands_sequence_def)
  with assms obtain found where found: "walk_commands [tree_root tree] [] = Some found"
    and cmds: "parse_plain_commands script (sort_key start_byte found) = Some cmds"
    by (auto simp: all_commands_from_script_def try_parse_word_only_commands_sequence_def split: option.splits)
  from walk_commands_spec [OF found] have nodes: "\<forall>n \<in> set (nodes (tree_root tree)). node_allowed n"
    "mset found = mset (filter is_command_node (nodes (tree_root tree)))"
    by simp_all
  have "mset (sort_key start_byte found) = mset (filter is_command_node (nodes (tree_root tree)))"
    "sorted (map start_byte (sort_key start_byte found))"
    using nodes(2) by simp_all
  with ok nodes(1) cmds show ?thesis
    unfolding parse_plain_commands_iff by blast
qed

theorem decomposition_is_complete_witness:
  "let c = Node ''command'' True None 0 2 [Node ''command_name'' True None 0 2 [Node ''word'' True None 0 2 []]];
       tree = \<lparr>tree_root = Node ''program'' True None 0 2 [c], tree_has_error = False\<rparr>
   in \<not> tree_has_error tree \<and> list_all node_allowed (nodes (tree_root tree))
    \<and> (\<exists>ps. mset ps = mset (filter is_command_node (nodes (tree_root tree))) \<and> sorted (map start_byte ps)
         \<and> map (\<lambda>n. parse_plain_command_from_node n ''ls'') ps
           = map Some [\<lparr>command_words = [''ls''], span_start = 0, span_end = 2\<rparr>])"
  unfolding Let_def list_all_iff
  by (rule decomposition_is_complete
      [where parse = "\<lambda>_. Some \<lparr>tree_root = Node ''program'' True None 0 2
           [Node ''command'' True None 0 2 [Node ''command_name'' True None 0 2 [Node ''word'' True None 0 2 []]]],
         tree_has_error = False\<rparr>" and script = "''ls''"]) (simp, code_simp)

subsection \<open>The soft breaks cut the line and lose nothing\<close>

lemma cut_at_concat:
  "pos \<le> length line \<Longrightarrow> cut_at line pos bs = (chunks, fin)
   \<Longrightarrow> concat chunks @ drop fin line = drop pos line \<and> fin \<le> length line \<and> pos \<le> fin"
proof (induction line pos bs arbitrary: chunks fin rule: cut_at.induct)
  case (2 line pos b bs)
  show ?case
  proof (cases "b > pos \<and> b \<le> length line")
    case True
    obtain cs l where cs: "cut_at line b bs = (cs, l)" by fastforce
    with True have "concat cs @ drop l line = drop b line \<and> l \<le> length line \<and> b \<le> l"
      by (intro 2(1)) simp_all
    moreover have "take (b - pos) (drop pos line) @ drop b line = drop pos line"
      using True by (metis append_take_drop_id drop_drop le_add_diff_inverse2 less_imp_le)
    moreover have "chunks = take (b - pos) (drop pos line) # cs" "fin = l"
      using True cs 2(4) by simp_all
    ultimately show ?thesis using True by simp
  next
    case False
    with 2(4) have "cut_at line pos bs = (chunks, fin)" by (simp split: if_splits)
    with False 2(3) show ?thesis by (intro 2(2)) simp_all
  qed
qed simp

lemma split_line_concat: "concat (split_physical_line_at_soft_breaks line start breaks) = line"
proof -
  obtain chunks pos where c: "cut_at line 0 (remdups_adj (filter (is_char_boundary line)
      (map (\<lambda>b. b - start) (filter (\<lambda>b. b > start \<and> b < start + length line) breaks)))) = (chunks, pos)"
    by fastforce
  have "concat chunks @ drop pos line = line" "pos \<le> length line"
    using cut_at_concat [OF _ c] by auto
  then show ?thesis
    using c by (auto simp: split_physical_line_at_soft_breaks_def Let_def)
qed

lemma soft_break_chunks_concat: "concat (soft_break_chunks parse script) = script"
proof -
  obtain chunks pos where c: "cut_at script 0 (soft_break_offsets_after_operators parse script) = (chunks, pos)"
    by fastforce
  have "concat chunks @ drop pos script = script" "pos \<le> length script"
    using cut_at_concat [OF _ c] by auto
  then show ?thesis
    using c by (auto simp: soft_break_chunks_def Let_def)
qed

lemma drop_to_suffix: "suffix u w \<Longrightarrow> drop (length w - length u) w = u"
  by (auto simp: suffix_def)

lemma primary_words_are_peeled:
  "find_primary cs = Some (c, k, ws) \<Longrightarrow> c \<in> set cs \<and> ws = unwrap_wrappers (command_words c)
     \<and> take k (command_words c) @ ws = command_words c"
proof (induction cs)
  case (Cons d cs)
  have suf: "suffix (unwrap_wrappers (command_words d)) (command_words d)"
    using peel_steps_suffix [OF unwrap_loop_steps [of "\<lparr>peel_words = command_words d, peel_chdir = False,
        peel_split_string = False, peel_options_uncertain = False, peel_exhausted = False\<rparr>" max_wrapper_depth]]
    by (simp add: unwrap_wrappers_def unwrap_wrappers_checked_def)
  note drop_to_suffix [OF suf]
  with Cons suf show ?case
    by (auto simp: Let_def split: if_splits) (metis append_take_drop_id)+
qed simp

end
