(* ===== verification/LexicalPath.thy ===== *)
theory LexicalPath
  imports PermissionRules "HOL-Library.Sublist"
begin

section \<open>Lexical paths\<close>

text \<open>
  Models \<open>normalize_lexically\<close> of \<open>hystersis-paths\<close> and, of \<open>policy.rs\<close>, the spellings of a path that
  the rules are matched against.  A path is its text; its components are those of \<open>std::path\<close> on Unix.
\<close>

text \<open>\<open>Path::components\<close> on Unix: repeated separators and the \<open>.\<close> components after the first vanish.\<close>

datatype path_component = RootDir | CurDir | ParentDir | Normal rstr

definition component_of :: "rstr \<Rightarrow> path_component" where
  "component_of s = (if s = ''.'' then CurDir else if s = ''..'' then ParentDir else Normal s)"

definition plain_part :: "rstr \<Rightarrow> bool" where
  "plain_part s \<longleftrightarrow> s \<noteq> '''' \<and> s \<noteq> ''.''"

definition path_components :: "rstr \<Rightarrow> path_component list" where
  "path_components p =
     (if starts_with p ''/'' then RootDir # map component_of (filter plain_part (split_on (CHR ''/'') p))
      else
        (case split_on (CHR ''/'') p of
           [] \<Rightarrow> []
         | f # parts \<Rightarrow>
             (if f = '''' then [] else [component_of f]) @ map component_of (filter plain_part parts)))"

definition component_text :: "path_component \<Rightarrow> rstr" where
  "component_text c = (case c of RootDir \<Rightarrow> ''/'' | CurDir \<Rightarrow> ''.'' | ParentDir \<Rightarrow> ''..'' | Normal s \<Rightarrow> s)"

text \<open>\<open>PathBuf::push\<close> and the collection of components into a path.\<close>

definition path_push :: "rstr \<Rightarrow> rstr \<Rightarrow> rstr" where
  "path_push p q =
     (if starts_with q ''/'' then q
      else if p = '''' \<or> ends_with p ''/'' then p @ q
      else p @ ''/'' @ q)"

definition path_of :: "path_component list \<Rightarrow> rstr" where
  "path_of cs = foldl path_push '''' (map component_text cs)"

fun normalize_step :: "path_component list \<Rightarrow> path_component \<Rightarrow> path_component list" where
  "normalize_step cs CurDir = cs"
| "normalize_step cs ParentDir =
     (if cs = [] then [ParentDir]
      else case last cs of
             Normal _ \<Rightarrow> butlast cs
           | RootDir \<Rightarrow> cs
           | _ \<Rightarrow> cs @ [ParentDir])"
| "normalize_step cs c = cs @ [c]"

definition normalized_components :: "rstr \<Rightarrow> path_component list" where
  "normalized_components p = foldl normalize_step [] (path_components p)"

definition normalize_lexically :: "rstr \<Rightarrow> rstr" where
  "normalize_lexically p =
     (let cs = normalized_components p in if cs = [] then ''.'' else path_of cs)"

definition path_is_absolute :: "rstr \<Rightarrow> bool" where
  "path_is_absolute p \<longleftrightarrow> starts_with p ''/''"

definition is_tilde_path :: "rstr \<Rightarrow> bool" where
  "is_tilde_path p =
     (case path_components p of
        Normal f # _ \<Rightarrow> starts_with f ''~''
      | _ \<Rightarrow> False)"

definition path_has_parent_dir :: "rstr \<Rightarrow> bool" where
  "path_has_parent_dir p \<longleftrightarrow> ParentDir \<in> set (path_components p)"

definition path_match_string :: "rstr \<Rightarrow> rstr" where
  "path_match_string p = str_replace [backslash] ''/'' p"

text \<open>
  \<open>Path::strip_prefix\<close> compares components; the rest is written from its components (the paths given to
  it here are normalized already, or start with a tilde).
\<close>

definition path_strip_prefix :: "rstr \<Rightarrow> rstr \<Rightarrow> rstr option" where
  "path_strip_prefix p base =
     (let cs = path_components p; bs = path_components base in
      if take (length bs) cs = bs then Some (path_of (drop (length bs) cs)) else None)"

definition absolute_normalized_path :: "rstr \<Rightarrow> rstr option \<Rightarrow> rstr" where
  "absolute_normalized_path path cwd =
     (if is_tilde_path path then path
      else
        (case cwd of
           Some d \<Rightarrow> normalize_lexically (if path_is_absolute path then path else path_push d path)
         | None \<Rightarrow> normalize_lexically path))"

definition path_match_forms :: "rstr \<Rightarrow> rstr option \<Rightarrow> rstr list" where
  "path_match_forms path cwd =
     (let abs = absolute_normalized_path path cwd in
      path_match_string abs #
      (case cwd of
         Some d \<Rightarrow>
           (case path_strip_prefix abs (normalize_lexically d) of
              None \<Rightarrow> []
            | Some rel \<Rightarrow>
                (let rel_s = path_match_string rel in
                 if rel_s = '''' \<or> rel_s = ''.'' then [''.'', ''./''] else [''./'' @ rel_s, rel_s]))
       | None \<Rightarrow>
           if \<not> path_is_absolute abs \<and> \<not> path_has_parent_dir abs \<and> \<not> is_tilde_path abs then
             (let lex_s = path_match_string abs in
              if lex_s \<noteq> ''.'' \<and> lex_s \<noteq> '''' then [''./'' @ lex_s] else [])
           else []))"

subsection \<open>The specification: resolving a list of names\<close>

definition name_ok :: "rstr \<Rightarrow> bool" where
  "name_ok n \<longleftrightarrow> n \<noteq> '''' \<and> n \<noteq> ''.'' \<and> n \<noteq> ''..'' \<and> CHR ''/'' \<notin> set n"

definition resolve_step :: "rstr list \<Rightarrow> rstr \<Rightarrow> rstr list" where
  "resolve_step ns s = (if s = '''' \<or> s = ''.'' then ns else if s = ''..'' then butlast ns else ns @ [s])"

text \<open>The place an absolute path names: each name descends, \<open>..\<close> goes up and stays at the root.\<close>

definition resolve :: "rstr \<Rightarrow> rstr list" where
  "resolve p = foldl resolve_step [] (split_on (CHR ''/'') p)"

lemma split_on_parts: "s \<in> set (split_on c p) \<Longrightarrow> c \<notin> set s"
proof (induction p arbitrary: s)
  case (Cons a p)
  obtain y ys where "split_on c p = y # ys" by (cases "split_on c p") auto
  with Cons show ?case by (auto split: if_splits)
qed simp

lemma resolve_steps_ok:
  "\<forall>s \<in> set parts. CHR ''/'' \<notin> set s \<Longrightarrow> list_all name_ok ns \<Longrightarrow> list_all name_ok (foldl resolve_step ns parts)"
proof (induction parts arbitrary: ns)
  case (Cons s parts)
  have "list_all name_ok (resolve_step ns s)"
    using Cons.prems by (auto simp: resolve_step_def name_ok_def list_all_iff dest: in_set_butlastD)
  with Cons show ?case by simp
qed simp

lemma resolve_ok: "list_all name_ok (resolve p)"
  unfolding resolve_def by (rule resolve_steps_ok) (auto dest: split_on_parts)

lemma normalize_steps_resolve:
  "foldl normalize_step (RootDir # map Normal ns) (map component_of (filter plain_part parts))
   = RootDir # map Normal (foldl resolve_step ns parts)"
proof (induction parts arbitrary: ns)
  case (Cons s parts)
  have "plain_part s \<Longrightarrow> normalize_step (RootDir # map Normal ns) (component_of s) = RootDir # map Normal (resolve_step ns s)"
    by (cases ns rule: rev_cases) (auto simp: component_of_def plain_part_def resolve_step_def)
  moreover have "\<not> plain_part s \<Longrightarrow> resolve_step ns s = ns"
    by (auto simp: plain_part_def resolve_step_def)
  ultimately show ?case
    using Cons [of "resolve_step ns s"] by auto
qed simp

lemma normalized_absolute:
  "path_is_absolute p \<Longrightarrow> normalized_components p = RootDir # map Normal (resolve p)"
  using normalize_steps_resolve [of "[]"]
  by (simp add: normalized_components_def path_components_def path_is_absolute_def resolve_def)

subsection \<open>Writing and reading back\<close>

lemma ends_with_append: "t \<noteq> [] \<Longrightarrow> ends_with (s @ t) [c] \<longleftrightarrow> last t = c"
  by (cases t rule: rev_cases) (auto simp: ends_with_def starts_with_def)

lemma name_not_slash: "name_ok n \<Longrightarrow> n \<noteq> [] \<and> \<not> starts_with n ''/'' \<and> last n \<noteq> CHR ''/''"
  using last_in_set [of n] by (cases n) (auto simp: name_ok_def starts_with_def simp del: last.simps)

lemma push_names:
  "list_all name_ok ns \<Longrightarrow> p \<noteq> [] \<Longrightarrow> last p \<noteq> CHR ''/'' \<Longrightarrow> foldl path_push p ns = join ''/'' (p # ns)"
proof (induction ns arbitrary: p)
  case (Cons n ns)
  have n: "n \<noteq> []" "\<not> starts_with n ''/''" "last n \<noteq> CHR ''/''" using name_not_slash Cons.prems by auto
  have "path_push p n = p @ ''/'' @ n"
    using n Cons.prems ends_with_append [of p "[]" "CHR ''/''"] by (simp add: path_push_def)
  with Cons.IH [of "p @ ''/'' @ n"] Cons.prems n show ?case
    by (cases ns) auto
qed simp

lemma path_of_names: "list_all name_ok ns \<Longrightarrow> path_of (map Normal ns) = join ''/'' ns"
proof (cases ns)
  case (Cons n ms)
  assume "list_all name_ok ns"
  moreover from this Cons have "path_push [] n = n"
    using name_not_slash by (auto simp: path_push_def)
  ultimately show ?thesis
    using Cons push_names [of ms n] name_not_slash [of n]
    by (simp add: path_of_def component_text_def comp_def)
qed (simp add: path_of_def)

lemma path_of_absolute:
  assumes "list_all name_ok ns"
  shows "path_of (RootDir # map Normal ns) = ''/'' @ join ''/'' ns"
proof (cases ns)
  case (Cons n ms)
  have n: "n \<noteq> []" "\<not> starts_with n ''/''" "last n \<noteq> CHR ''/''" using name_not_slash assms Cons by auto
  then have "path_push ''/'' n = CHR ''/'' # n"
    by (simp add: path_push_def ends_with_def starts_with_def)
  moreover have "path_push [] ''/'' = ''/''" by (simp add: path_push_def starts_with_def)
  ultimately show ?thesis
    using push_names [of ms "CHR ''/'' # n"] assms Cons n
    by (cases ms) (simp_all add: path_of_def component_text_def comp_def)
qed (simp add: path_of_def component_text_def path_push_def starts_with_def)

lemma split_on_none: "c \<notin> set n \<Longrightarrow> split_on c n = [n]"
  by (induction n) auto

lemma split_on_append: "c \<notin> set n \<Longrightarrow> split_on c (n @ c # s) = n # split_on c s"
  by (induction n) auto

lemma split_on_join:
  "ns \<noteq> [] \<Longrightarrow> list_all name_ok ns \<Longrightarrow> split_on (CHR ''/'') (join ''/'' ns) = ns"
proof (induction ns rule: list_nonempty_induct)
  case (single n)
  then show ?case by (simp add: split_on_none name_ok_def)
next
  case (cons n ns)
  then show ?case
    by (cases ns) (simp_all add: split_on_append split_on_none name_ok_def)
qed

lemma component_of_name: "name_ok n \<Longrightarrow> component_of n = Normal n \<and> plain_part n"
  by (simp add: component_of_def name_ok_def plain_part_def)

lemma components_of_names:
  assumes "list_all name_ok ns"
  shows "map component_of (filter plain_part ns) = map Normal ns"
  using assms by (induction ns) (auto simp: component_of_name)

lemma components_absolute:
  assumes "list_all name_ok ns"
  shows "path_components (''/'' @ join ''/'' ns) = RootDir # map Normal ns"
  using assms split_on_join [of ns] components_of_names [OF assms]
  by (cases "ns = []") (simp_all add: path_components_def starts_with_def plain_part_def)

lemma normalize_absolute_text:
  "path_is_absolute p \<Longrightarrow> normalize_lexically p = ''/'' @ join ''/'' (resolve p)"
  by (simp add: normalize_lexically_def Let_def normalized_absolute path_of_absolute resolve_ok)

lemma resolve_normalized:
  "path_is_absolute p \<Longrightarrow> path_components (normalize_lexically p) = RootDir # map Normal (resolve p)"
  using components_absolute [OF resolve_ok] normalize_absolute_text by simp

lemma normalize_idempotent:
  assumes "path_is_absolute p"
  shows "normalize_lexically (normalize_lexically p) = normalize_lexically p"
proof -
  have "path_is_absolute (normalize_lexically p)"
    by (simp add: normalize_absolute_text [OF assms] path_is_absolute_def starts_with_def)
  then have "RootDir # map Normal (resolve (normalize_lexically p)) = foldl normalize_step [] (RootDir # map Normal (resolve p))"
    using normalized_absolute [of "normalize_lexically p"] resolve_normalized [OF assms]
    by (simp add: normalized_components_def)
  also have "\<dots> = RootDir # map Normal (resolve p)"
  proof -
    have "foldl normalize_step cs (map Normal ns) = cs @ map Normal ns" for cs ns
      by (induction ns arbitrary: cs) auto
    then show ?thesis by simp
  qed
  finally have "resolve (normalize_lexically p) = resolve p"
    by (simp add: inj_map_eq_map inj_def)
  then show ?thesis
    using normalize_absolute_text [OF assms] normalize_absolute_text [OF \<open>path_is_absolute (normalize_lexically p)\<close>]
    by simp
qed

subsection \<open>The relative spellings stay inside the workspace\<close>

lemma join_name_text:
  assumes "list_all name_ok ns" "ns \<noteq> []"
  shows "path_match_string (join ''/'' ns) \<noteq> '''' \<and> path_match_string (join ''/'' ns) \<noteq> ''.''"
proof -
  have spelled: "path_match_string s = map (\<lambda>c. if c = backslash then CHR ''/'' else c) s" for s
    by (induction s) (auto simp: path_match_string_def str_replace_def starts_with_def)
  have "join ''/'' ns \<noteq> []" "join ''/'' ns \<noteq> ''.''"
    using assms split_on_join [OF assms(2,1)] by (auto simp: name_ok_def)
  then show ?thesis
    unfolding spelled by (cases "join ''/'' ns") (auto split: if_splits)
qed

lemma map_Normal_prefix: "take (length bs) cs = bs \<longleftrightarrow> prefix bs cs"
  by (metis append_eq_conv_conj prefix_def)

text \<open>
  For a workspace at an absolute path, the spellings a rule is matched against are determined by where
  the path leads: the absolute spelling always, and the spellings relative to the workspace exactly when the
  path, with its \<open>.\<close> and \<open>..\<close> resolved, lies inside it; then they consist of the names below the
  workspace, none of which is empty, \<open>.\<close> or \<open>..\<close>.  So a rule such as \<open>Read(./**)\<close> cannot be reached by
  a path that climbs out.
\<close>

theorem relative_forms_stay_inside:
  assumes "path_is_absolute cwd" "\<not> is_tilde_path path"
    and "full = (if path_is_absolute path then path else path_push cwd path)"
  shows "list_all name_ok (resolve full)
    \<and> path_match_forms path (Some cwd)
      = path_match_string (''/'' @ join ''/'' (resolve full))
        # (if prefix (resolve cwd) (resolve full) then
             (let rel = drop (length (resolve cwd)) (resolve full) in
              if rel = [] then [''.'', ''./'']
              else [''./'' @ path_match_string (join ''/'' rel), path_match_string (join ''/'' rel)])
           else [])"
proof -
  have full: "path_is_absolute full"
    using assms(1,3) by (cases cwd) (auto simp: path_push_def path_is_absolute_def starts_with_def split: if_splits)
  have abs: "absolute_normalized_path path (Some cwd) = normalize_lexically full"
    using assms(2,3) by (simp add: absolute_normalized_path_def)
  have inj: "take (length (resolve cwd)) (map Normal (resolve full)) = map Normal (resolve cwd)
      \<longleftrightarrow> prefix (resolve cwd) (resolve full)"
    by (metis inj_map_eq_map inj_onI map_Normal_prefix path_component.inject take_map)
  have strip: "path_strip_prefix (normalize_lexically full) (normalize_lexically cwd)
      = (if prefix (resolve cwd) (resolve full)
         then Some (join ''/'' (drop (length (resolve cwd)) (resolve full))) else None)"
  proof -
    have "list_all name_ok (drop (length (resolve cwd)) (resolve full))"
      using resolve_ok [of full] by (auto simp: list_all_iff dest: in_set_dropD)
    then show ?thesis
      using inj path_of_names
      by (simp add: path_strip_prefix_def resolve_normalized full assms(1) Let_def drop_map)
  qed
  have rel: "list_all name_ok (drop (length (resolve cwd)) (resolve full))"
    using resolve_ok [of full] by (auto simp: list_all_iff dest: in_set_dropD)
  have "path_match_string [] = []" by (simp add: path_match_string_def str_replace_def)
  then show ?thesis
    using join_name_text [OF rel] resolve_ok [of full]
    unfolding path_match_forms_def Let_def abs option.case strip
    by (simp add: normalize_absolute_text [OF full])
qed

theorem relative_forms_stay_inside_witness:
  "list_all name_ok (resolve (path_push ''/w'' ''src/../../etc''))
   \<and> path_match_forms ''src/../../etc'' (Some ''/w'')
      = path_match_string (''/'' @ join ''/'' (resolve (path_push ''/w'' ''src/../../etc'')))
        # (if prefix (resolve ''/w'') (resolve (path_push ''/w'' ''src/../../etc'')) then
             (let rel = drop (length (resolve ''/w'')) (resolve (path_push ''/w'' ''src/../../etc'')) in
              if rel = [] then [''.'', ''./'']
              else [''./'' @ path_match_string (join ''/'' rel), path_match_string (join ''/'' rel)])
           else [])"
  by (rule relative_forms_stay_inside) code_simp+

end
