(* ===== verification/ShellPath.thy ===== *)
theory ShellPath
  imports PermissionPolicy
begin

section \<open>The file a shell operand names\<close>

text \<open>
  Models the path part of \<open>shell_access.rs\<close>: the normalization of shell operands, the resolution of symbolic
  links, the rule check of one operand, and the protected targets of direct edits.  The file system is a
  parameter: \<open>canonicalize\<close> (of the crate \<open>dunce\<close>), the metadata of a path without following a link, and the
  target of a link.  A path that is rebuilt from its components (a parent) is written with single
  separators.
\<close>

datatype link_metadata = IsSymlink | NotSymlink | MetaNotFound | MetaError

record filesystem =
  fs_canonicalize :: "rstr \<Rightarrow> rstr option"
  fs_metadata :: "rstr \<Rightarrow> link_metadata"
  fs_read_link :: "rstr \<Rightarrow> rstr option"

subsection \<open>Normalizing shell paths\<close>

definition drive_like :: "rstr \<Rightarrow> bool" where
  "drive_like p \<longleftrightarrow> 1 < length p \<and> p ! 1 = CHR '':''"

definition is_absolute_shell_path :: "rstr \<Rightarrow> bool" where
  "is_absolute_shell_path p \<longleftrightarrow> starts_with p ''/'' \<or> starts_with p ''~/'' \<or> drive_like p"

definition normalize_shell_path_raw :: "rstr \<Rightarrow> rstr" where
  "normalize_shell_path_raw path =
     (let quote = (\<lambda>c. c = dquote \<or> c = squote);
          p = str_replace [backslash] ''/'' (drop_end quote (dropWhile quote path))
      in case strip_prefix ''/c/'' p of Some rest \<Rightarrow> ''C:/'' @ rest | None \<Rightarrow> p)"

fun normalize_segments :: "bool \<Rightarrow> rstr list \<Rightarrow> rstr list \<Rightarrow> rstr list" where
  "normalize_segments absolute out [] = out"
| "normalize_segments absolute out (s # ss) =
     (if s = '''' \<or> s = ''.'' then normalize_segments absolute out ss
      else if s = ''..'' then
        (if out \<noteq> [] \<and> last out \<noteq> ''..'' then normalize_segments absolute (butlast out) ss
         else if \<not> absolute then normalize_segments absolute (out @ [''..'']) ss
         else normalize_segments absolute out ss)
      else normalize_segments absolute (out @ [s]) ss)"

definition lexical_normalize :: "rstr \<Rightarrow> rstr" where
  "lexical_normalize path =
     (let prefix_len = (if drive_like path then 2 else 0);
          pre = take prefix_len path; rest = drop prefix_len path;
          absolute = starts_with rest ''/'';
          body = join ''/'' (normalize_segments absolute [] (split_on (CHR ''/'') rest))
      in if pre \<noteq> '''' then pre @ (if absolute then ''/'' @ body else body)
         else if absolute then ''/'' @ body
         else body)"

definition normalize_shell_path :: "rstr \<Rightarrow> rstr" where
  "normalize_shell_path path = lexical_normalize (normalize_shell_path_raw path)"

subsection \<open>Following links\<close>

definition path_parent :: "rstr \<Rightarrow> rstr option" where
  "path_parent p =
     (let cs = path_components p in
      if cs = [] \<or> last cs = RootDir then None else Some (path_of (butlast cs)))"

definition path_file_name :: "rstr \<Rightarrow> rstr option" where
  "path_file_name p =
     (let cs = path_components p in
      if cs = [] then None else (case last cs of Normal n \<Rightarrow> Some n | _ \<Rightarrow> None))"

definition max_symlink_depth :: nat where
  "max_symlink_depth = 40"

text \<open>The first argument is the number of levels left: \<open>depth > 40\<close> gives up.\<close>

fun resolve_levels :: "nat \<Rightarrow> filesystem \<Rightarrow> rstr \<Rightarrow> rstr option" where
  "resolve_levels 0 fs path = None"
| "resolve_levels (Suc n) fs path =
     (case fs_canonicalize fs path of
        Some canonical \<Rightarrow> Some canonical
      | None \<Rightarrow>
          (case path_parent path of
             None \<Rightarrow> None
           | Some parent \<Rightarrow>
               (case path_file_name path of
                  None \<Rightarrow> None
                | Some file_name \<Rightarrow>
                    (case resolve_levels n fs parent of
                       None \<Rightarrow> None
                     | Some resolved_parent \<Rightarrow>
                         (let candidate = path_push resolved_parent file_name in
                          case fs_metadata fs candidate of
                            MetaError \<Rightarrow> None
                          | IsSymlink \<Rightarrow>
                              (case fs_read_link fs candidate of
                                 None \<Rightarrow> None
                               | Some target \<Rightarrow>
                                   resolve_levels n fs
                                     (if path_is_absolute target then target
                                      else path_push resolved_parent target))
                          | _ \<Rightarrow> Some candidate)))))"

definition resolve_following_symlinks :: "filesystem \<Rightarrow> rstr \<Rightarrow> rstr option" where
  "resolve_following_symlinks fs path = resolve_levels (Suc max_symlink_depth) fs path"

definition resolve_symlink_target :: "filesystem \<Rightarrow> rstr \<Rightarrow> rstr option" where
  "resolve_symlink_target fs absolute =
     (if \<not> path_is_absolute absolute then None
      else map_option normalize_shell_path (resolve_following_symlinks fs absolute))"

fun any_prefix_symlink :: "filesystem \<Rightarrow> rstr \<Rightarrow> path_component list \<Rightarrow> bool" where
  "any_prefix_symlink fs pre [] = False"
| "any_prefix_symlink fs pre (c # cs) =
     (let pre = path_push pre (component_text c) in
      fs_metadata fs pre = IsSymlink \<or> any_prefix_symlink fs pre cs)"

definition path_has_symlink :: "filesystem \<Rightarrow> rstr \<Rightarrow> bool" where
  "path_has_symlink fs absolute =
     (if \<not> path_is_absolute absolute then False
      else any_prefix_symlink fs '''' (path_components absolute))"

subsection \<open>The rule check of one operand\<close>

datatype shell_file_mode = ShellRead | ShellWrite

definition shell_access :: "shell_file_mode \<Rightarrow> rstr \<Rightarrow> unit access_kind" where
  "shell_access mode path = (case mode of ShellRead \<Rightarrow> AccessRead (Some path) | ShellWrite \<Rightarrow> AccessEdit path)"

definition escalate_access ::
  "'pat externals \<Rightarrow> 'pat compiled_policy \<Rightarrow> rstr option \<Rightarrow> unit access_kind \<Rightarrow> gate_decision option" where
  "escalate_access x p rule_cwd access =
     (case evaluate_with_cwd x p access rule_cwd of
        Some (DReject reason) \<Rightarrow> Some (GateReject reason)
      | Some DAsk \<Rightarrow> Some AskRuleMatch
      | _ \<Rightarrow> None)"

definition evaluate_shell_path ::
  "'pat externals \<Rightarrow> filesystem \<Rightarrow> 'pat compiled_policy \<Rightarrow> rstr \<Rightarrow> rstr \<Rightarrow> shell_file_mode \<Rightarrow> bool
   \<Rightarrow> gate_decision option" where
  "evaluate_shell_path x fs p token cwd mode cwd_unpinned =
     (let path = normalize_shell_path token;
          is_absolute = is_absolute_shell_path path;
          rule_cwd = (if is_absolute \<or> \<not> cwd_unpinned then Some cwd else None);
          check = (\<lambda>q. escalate_access x p rule_cwd (shell_access mode q));
          raw = normalize_shell_path_raw token;
          raw_absolute = (if is_absolute_shell_path raw then Some raw
                          else if cwd_unpinned then None
                          else Some (normalize_shell_path_raw (path_push cwd raw)));
          absolute = (if is_absolute then path else normalize_shell_path (path_push cwd path));
          resolved_decision =
            (case raw_absolute of
               None \<Rightarrow> None
             | Some raw_absolute \<Rightarrow>
                 (case resolve_symlink_target fs raw_absolute of
                    Some resolved \<Rightarrow> if resolved \<noteq> absolute then check resolved else None
                  | None \<Rightarrow> fail_closed_if (path_has_symlink fs raw_absolute)));
          path_decision = check path;
          anchored_decision =
            (if cwd_unpinned \<and> \<not> is_absolute then None
             else combine_gate_decisions (check absolute) resolved_decision);
          decision = combine_gate_decisions path_decision anchored_decision
      in combine_gate_decisions decision (fail_closed_if (cwd_unpinned \<and> \<not> is_absolute)))"

subsection \<open>Protected targets of direct edits\<close>

datatype protected_edit_reason =
    HookRoot | GitHooks | Ssh | StartupFile | Etc | HystersisConfig | HystersisSandbox
  | ClaudeSettings | CursorHooks | Sensitive

definition protected_kind :: "protected_edit_reason \<Rightarrow> rstr" where
  "protected_kind r =
     (case r of HookRoot \<Rightarrow> ''hook_root'' | GitHooks \<Rightarrow> ''git_hooks'' | Ssh \<Rightarrow> ''ssh''
      | StartupFile \<Rightarrow> ''startup_file'' | Etc \<Rightarrow> ''etc'' | HystersisConfig \<Rightarrow> ''hystersis_config''
      | HystersisSandbox \<Rightarrow> ''hystersis_sandbox'' | ClaudeSettings \<Rightarrow> ''claude_settings''
      | CursorHooks \<Rightarrow> ''cursor_hooks'' | Sensitive \<Rightarrow> ''sensitive'')"

definition lower_names :: "rstr \<Rightarrow> rstr list" where
  "lower_names path =
     concat (map (\<lambda>c. case c of Normal n \<Rightarrow> [map ascii_lower n] | _ \<Rightarrow> []) (path_components path))"

definition ends_with_names :: "rstr list \<Rightarrow> rstr list \<Rightarrow> bool" where
  "ends_with_names names tail = (drop (length names - length tail) names = tail)"

definition has_adjacent :: "rstr list \<Rightarrow> rstr \<Rightarrow> rstr \<Rightarrow> bool" where
  "has_adjacent names a b = list_ex (\<lambda>(u, v). u = a \<and> v = b) (zip names (tl names))"

definition startup_files :: "rstr list" where
  "startup_files = [''.bashrc'', ''.bash_profile'', ''.bash_login'', ''.bash_logout'', ''.profile'', ''.zshrc'',
     ''.zshenv'', ''.zprofile'', ''.zlogin'', ''.zlogout'', ''.kshrc'', ''.cshrc'', ''.tcshrc'', ''.login'',
     ''.logout'', ''.inputrc'', ''.xprofile'']"

definition path_starts_with :: "rstr \<Rightarrow> rstr \<Rightarrow> bool" where
  "path_starts_with p base =
     (let bs = path_components base in take (length bs) (path_components p) = bs)"

definition path_equal :: "rstr \<Rightarrow> rstr \<Rightarrow> bool" where
  "path_equal p q = (path_components p = path_components q)"

definition hystersis_home_matches :: "filesystem \<Rightarrow> rstr option \<Rightarrow> (rstr \<Rightarrow> bool) \<Rightarrow> bool" where
  "hystersis_home_matches fs home matches =
     (case home of
        None \<Rightarrow> False
      | Some home \<Rightarrow>
          (let lexical = normalize_lexically home in
           matches lexical
           \<or> (case resolve_following_symlinks fs lexical of Some resolved \<Rightarrow> matches resolved | None \<Rightarrow> False)))"

definition path_is_under_user_hystersis_hook_root :: "rstr \<Rightarrow> rstr \<Rightarrow> bool" where
  "path_is_under_user_hystersis_hook_root path home =
     (path_starts_with path (path_push home ''hooks'') \<or> path_equal path (path_push home ''hooks-paths''))"

definition protected_hystersis_hook_root :: "filesystem \<Rightarrow> rstr option \<Rightarrow> rstr \<Rightarrow> rstr list \<Rightarrow> bool" where
  "protected_hystersis_hook_root fs home path names =
     (has_adjacent names ''.hystersis'' ''hooks''
      \<or> ends_with_names names [''.hystersis'', ''hooks-paths'']
      \<or> hystersis_home_matches fs home (path_is_under_user_hystersis_hook_root path))"

fun git_modules_hooks :: "rstr list \<Rightarrow> bool" where
  "git_modules_hooks [] = False"
| "git_modules_hooks (n # ns) =
     (n = ''.git'' \<and> ns \<noteq> [] \<and> hd ns = ''modules'' \<and> list_ex (\<lambda>c. c = ''hooks'') (drop 2 ns)
      \<or> git_modules_hooks ns)"

definition protected_git_hooks_path :: "rstr list \<Rightarrow> bool" where
  "protected_git_hooks_path names = (has_adjacent names ''.git'' ''hooks'' \<or> git_modules_hooks names)"

definition protected_hystersis_config_file ::
  "filesystem \<Rightarrow> rstr option \<Rightarrow> rstr \<Rightarrow> rstr list \<Rightarrow> protected_edit_reason option" where
  "protected_hystersis_config_file fs home path names =
     (let in_dot_hystersis = (2 \<le> length names \<and> names ! (length names - 2) = ''.hystersis'');
          in_home = hystersis_home_matches fs home
            (\<lambda>h. case path_parent path of Some d \<Rightarrow> path_equal d h | None \<Rightarrow> False);
          reason = (if names = [] then None
                    else if last names \<in> set [''config.toml'', ''managed_config.toml'', ''requirements.toml'']
                    then Some HystersisConfig
                    else if last names = ''sandbox.toml'' then Some HystersisSandbox
                    else None)
      in case reason of
           None \<Rightarrow> None
         | Some r \<Rightarrow> if in_dot_hystersis \<or> in_home then Some r else None)"

definition protected_edit_reason_of :: "filesystem \<Rightarrow> rstr option \<Rightarrow> rstr \<Rightarrow> protected_edit_reason option" where
  "protected_edit_reason_of fs home path =
     (let names = lower_names path; file = (if names = [] then '''' else last names) in
      if protected_hystersis_hook_root fs home path names then Some HookRoot
      else if ends_with_names names [''.claude'', ''settings.json'']
              \<or> ends_with_names names [''.claude'', ''settings.local.json''] then Some ClaudeSettings
      else if ends_with_names names [''.cursor'', ''hooks.json''] then Some CursorHooks
      else if protected_git_hooks_path names then Some GitHooks
      else if ''.ssh'' \<in> set names then Some Ssh
      else if file \<in> set startup_files then Some StartupFile
      else
        (case protected_hystersis_config_file fs home path names of
           Some r \<Rightarrow> Some r
         | None \<Rightarrow>
             if path_equal path ''/etc'' \<or> path_starts_with path ''/etc'' then Some Etc else None))"

definition resolved_path_is_within_root :: "filesystem \<Rightarrow> rstr \<Rightarrow> rstr \<Rightarrow> bool" where
  "resolved_path_is_within_root fs resolved_path root =
     (case resolve_following_symlinks fs root of
        Some resolved_root \<Rightarrow> path_starts_with resolved_path resolved_root
      | None \<Rightarrow> True)"

definition edit_target_protection :: "filesystem \<Rightarrow> rstr option \<Rightarrow> rstr \<Rightarrow> protected_edit_reason option" where
  "edit_target_protection fs home path =
     (if \<not> path_is_absolute path then Some Sensitive
      else
        (case protected_edit_reason_of fs home (normalize_lexically path) of
           Some r \<Rightarrow> Some r
         | None \<Rightarrow>
             (case resolve_following_symlinks fs path of
                None \<Rightarrow> Some Sensitive
              | Some resolved \<Rightarrow>
                  (case protected_edit_reason_of fs home resolved of
                     Some r \<Rightarrow> Some r
                   | None \<Rightarrow>
                       if resolved_path_is_within_root fs resolved ''/etc'' then Some Sensitive else None))))"

subsection \<open>Every spelling of an operand is checked\<close>

text \<open>
  The files an operand may stand for: as it is written, against the working directory, and where its links
  lead.  With an unknown directory a relative operand stands for its text only.
\<close>

definition operand_files :: "filesystem \<Rightarrow> rstr \<Rightarrow> rstr \<Rightarrow> bool \<Rightarrow> rstr list" where
  "operand_files fs token cwd unpinned =
     (let path = normalize_shell_path token;
          is_absolute = is_absolute_shell_path path;
          raw = normalize_shell_path_raw token;
          raw_absolute = (if is_absolute_shell_path raw then raw else normalize_shell_path_raw (path_push cwd raw));
          absolute = (if is_absolute then path else normalize_shell_path (path_push cwd path))
      in path # (if unpinned \<and> \<not> is_absolute then []
                 else absolute #
                   (if unpinned \<and> \<not> is_absolute_shell_path raw then []
                    else case resolve_symlink_target fs raw_absolute of Some t \<Rightarrow> [t] | None \<Rightarrow> [])))"

definition operand_rule_cwd :: "rstr \<Rightarrow> rstr \<Rightarrow> bool \<Rightarrow> rstr option" where
  "operand_rule_cwd token cwd unpinned =
     (if is_absolute_shell_path (normalize_shell_path token) \<or> \<not> unpinned then Some cwd else None)"

context gate_question
begin

lemma holds_shell_path:
  assumes "q \<in> set (operand_files fs token cwd unpinned)"
    and "holds (escalate_access x p (operand_rule_cwd token cwd unpinned) (shell_access mode q))"
  shows "holds (evaluate_shell_path x fs p token cwd mode unpinned)"
proof -
  let ?path = "normalize_shell_path token" and ?raw = "normalize_shell_path_raw token"
  let ?abs = "is_absolute_shell_path ?path"
  let ?raw_abs = "if is_absolute_shell_path ?raw then ?raw else normalize_shell_path_raw (path_push cwd ?raw)"
  let ?absolute = "if ?abs then ?path else normalize_shell_path (path_push cwd ?path)"
  let ?check = "\<lambda>q. escalate_access x p (operand_rule_cwd token cwd unpinned) (shell_access mode q)"
  have q: "q = ?path \<or> \<not> (unpinned \<and> \<not> ?abs) \<and> (q = ?absolute
      \<or> \<not> (unpinned \<and> \<not> is_absolute_shell_path ?raw) \<and> resolve_symlink_target fs ?raw_abs = Some q)"
    using assms(1) by (auto simp: operand_files_def Let_def split: if_splits option.splits)
  have split: "evaluate_shell_path x fs p token cwd mode unpinned =
      combine_gate_decisions
        (combine_gate_decisions (?check ?path)
          (if unpinned \<and> \<not> ?abs then None
           else combine_gate_decisions (?check ?absolute)
             (case (if is_absolute_shell_path ?raw then Some ?raw
                    else if unpinned then None else Some (normalize_shell_path_raw (path_push cwd ?raw))) of
                None \<Rightarrow> None
              | Some r \<Rightarrow>
                  (case resolve_symlink_target fs r of
                     Some t \<Rightarrow> if t \<noteq> ?absolute then ?check t else None
                   | None \<Rightarrow> fail_closed_if (path_has_symlink fs r)))))
        (fail_closed_if (unpinned \<and> \<not> ?abs))"
    by (simp only: evaluate_shell_path_def Let_def operand_rule_cwd_def)
  show ?thesis
    unfolding split holds_combine
    using q assms(2) by (auto simp: holds_combine)
qed

end

text \<open>A decision on a file comes from a rule that restricts files.\<close>

lemma rule_hits_file:
  "rule_hits x (shell_access mode q) cwd a r \<Longrightarrow> rule_tool r \<in> {FRead, FEdit, FAny} \<and> rule_action r = a"
  by (cases "rule_tool r"; cases mode) (auto simp: rule_hits_def tool_filter_matches_def shell_access_def)

lemma has_file_restrictions_compiled [simp]:
  "has_file_restrictions (compile_policy x c) \<longleftrightarrow>
     (\<exists>r \<in> set (rules c). is_restriction r \<and> rule_tool r \<in> {FRead, FEdit, FAny})"
  by (auto simp: compile_policy_def list_ex_iff)

lemma file_restricting_decision:
  assumes "evaluate_with_cwd x (compile_policy x c) (shell_access mode q) cwd = Some d" "d \<noteq> DAllow"
  shows "has_file_restrictions (compile_policy x c)"
proof -
  have "\<exists>r \<in> set (rules c). rule_hits x (shell_access mode q) cwd RDeny r \<or> rule_hits x (shell_access mode q) cwd RAsk r"
    using assms unfolding evaluate_compiled
    by (cases mode) (auto simp: shell_access_def list_ex_iff filter_eq_Cons_iff split: list.splits if_splits)
  then show ?thesis
    using rule_hits_file by (fastforce simp: is_restriction_def)
qed

subsection \<open>The two normalizations agree\<close>

lemma normalize_segments_resolve:
  "''..'' \<notin> set ns \<Longrightarrow> normalize_segments True ns parts = foldl resolve_step ns parts"
proof (induction parts arbitrary: ns)
  case (Cons s parts)
  have "''..'' \<notin> set (butlast ns)" using Cons.prems by (auto dest: in_set_butlastD)
  moreover have "ns \<noteq> [] \<Longrightarrow> last ns \<noteq> ''..''" using Cons.prems last_in_set by metis
  ultimately show ?case
    using Cons by (cases "ns = []") (auto simp: resolve_step_def)
qed simp

text \<open>
  For an absolute Unix path (one whose second character is not a colon, which is read as a drive) the
  normalization of shell operands, which works on text, and that of the edit tools, which works on
  components, give the same text: the rules see one spelling of a file however it is reached.
\<close>

theorem normalizations_agree:
  assumes "path_is_absolute p" "\<not> drive_like p"
  shows "lexical_normalize p = normalize_lexically p"
proof -
  have "starts_with p ''/''" using assms(1) by (simp add: path_is_absolute_def)
  then show ?thesis
    using assms normalize_segments_resolve [of "[]"]
    by (simp add: lexical_normalize_def Let_def normalize_absolute_text resolve_def)
qed

theorem normalizations_agree_witness:
  "lexical_normalize ''/w/./a//../b'' = normalize_lexically ''/w/./a//../b''"
  by (rule normalizations_agree) code_simp+

subsection \<open>A drive letter on Unix\<close>

text \<open>
  The text normalization reads a second character \<open>:\<close> as a Windows drive on every platform.  In a workspace
  with a directory \<open>a:\<close> the operand \<open>a:/../.env\<close> is the file \<open>.env\<close>, but the gate looks up \<open>a:/.env\<close>,
  takes the operand for absolute and does not resolve it: a deny rule for \<open>./.env\<close> is passed over.
\<close>

definition edit_rule :: "rule_action \<Rightarrow> rstr \<Rightarrow> permission_rule" where
  "edit_rule a p = \<lparr>rule_action = a, rule_tool = FEdit, rule_pattern = Some p, rule_mode = GlobMode\<rparr>"

definition deny_env :: permission_config where
  "deny_env = \<lparr>rules = [edit_rule RDeny ''./.env''], config_prompt_policy = PromptAsk\<rparr>"

definition plain_filesystem :: filesystem where
  "plain_filesystem = \<lparr>fs_canonicalize = Some, fs_metadata = (\<lambda>_. NotSymlink), fs_read_link = (\<lambda>_. None)\<rparr>"

lemma env_denied:
  "evaluate_shell_path literal_externals plain_filesystem (compile_policy literal_externals deny_env)
     ''b/../.env'' ''/w'' ShellWrite False = Some (GateReject (deny_reason (edit_rule RDeny ''./.env'')))"
  by code_simp

lemma drive_like_operand_unnoticed:
  "resolve (path_push ''/w'' ''a:/../.env'') = [''w'', ''.env'']"
  "evaluate_shell_path literal_externals plain_filesystem (compile_policy literal_externals deny_env)
     ''a:/../.env'' ''/w'' ShellWrite False = None"
  by code_simp+

subsection \<open>Links that lead in a circle\<close>

text \<open>A chain of links that never ends is given up, whatever the file system answers.\<close>

lemma resolve_gives_up:
  assumes "\<And>q. fs_canonicalize fs q = None" "\<And>q. fs_metadata fs q = IsSymlink"
  shows "resolve_levels n fs path = None"
proof (induction n arbitrary: path)
  case (Suc n)
  then show ?case
    using assms by (simp split: option.splits)
qed simp

lemma edit_protection_resolved:
  assumes "edit_target_protection fs home path = None"
  obtains resolved where "path_is_absolute path" "resolve_following_symlinks fs path = Some resolved"
    "protected_edit_reason_of fs home (normalize_lexically path) = None"
    "protected_edit_reason_of fs home resolved = None" "\<not> resolved_path_is_within_root fs resolved ''/etc''"
  using assms by (auto simp: edit_target_protection_def split: if_splits option.splits)

end
