(* ===== verification/ShellAccess.thy ===== *)
theory ShellAccess
  imports ShellPath
begin

section \<open>The files a shell command touches\<close>

text \<open>
  Models the rest of \<open>shell_access.rs\<close>: the invocations and redirections found in the syntax tree of a
  script, the operands of known readers and writers, the scopes of a change of directory, and the gate
  that checks every file against the rules for \<open>Read\<close> and \<open>Edit\<close>.
\<close>

subsection \<open>Nodes with their surroundings\<close>

text \<open>
  A node with its next sibling and its parent, and those of its ancestors, innermost first.  The walks of
  the source take the last child first.
\<close>

type_synonym node_context = "(syntax_node option \<times> syntax_node) list"

definition with_siblings :: "syntax_node list \<Rightarrow> (syntax_node \<times> syntax_node option) list" where
  "with_siblings cs = zip cs (map Some (tl cs) @ [None])"

lemma with_siblings_member: "(c, s) \<in> set (with_siblings cs) \<Longrightarrow> c \<in> set cs"
  by (auto simp: with_siblings_def dest: set_zip_leftD)

function visits :: "node_context \<Rightarrow> syntax_node \<Rightarrow> (syntax_node \<times> node_context) list" where
  "visits ctx (Node kind named field from to cs) = (Node kind named field from to cs, ctx) #
     concat (map (\<lambda>(c, s). visits ((s, Node kind named field from to cs) # ctx) c) (rev (with_siblings cs)))"
  by pat_completeness auto
termination
  by (relation "measure (\<lambda>(ctx, n). size n)")
     (auto simp: less_Suc_eq_le size_list_estimation' dest: with_siblings_member)

definition child_by_field :: "rstr \<Rightarrow> syntax_node \<Rightarrow> syntax_node option" where
  "child_by_field name n = List.find (\<lambda>c. node_field c = Some name) (node_children n)"

type_synonym execution_scope = "int \<times> int"

definition scope_of :: "syntax_node \<Rightarrow> execution_scope" where
  "scope_of n = (int (start_byte n), int (end_byte n))"

definition scope_contains :: "execution_scope \<Rightarrow> execution_scope \<Rightarrow> bool" where
  "scope_contains a b \<longleftrightarrow> fst a \<le> fst b \<and> snd a \<ge> snd b"

definition whole_script :: execution_scope where
  "whole_script = (0, 2 ^ 64 - 1)"

fun execution_scope :: "syntax_node \<Rightarrow> node_context \<Rightarrow> execution_scope" where
  "execution_scope current [] = whole_script"
| "execution_scope current ((sibling, parent) # up) =
     (if map_option node_kind sibling = Some ''&'' then
        scope_of (if node_kind current = ''list'' then current else parent)
      else if node_kind parent \<in> set [''subshell'', ''command_substitution'', ''process_substitution''] then
        scope_of parent
      else if node_kind parent = ''pipeline'' then scope_of current
      else execution_scope parent up)"

record cwd_poison =
  poison_at :: nat
  poison_scope :: execution_scope

definition changes_directory :: "rstr \<Rightarrow> bool" where
  "changes_directory program \<longleftrightarrow> program \<in> set [''cd'', ''pushd'', ''popd'']"

definition is_cd_node :: "rstr \<Rightarrow> syntax_node \<Rightarrow> bool" where
  "is_cd_node src n =
     (node_kind n = ''command''
      \<and> (case Option.bind (child_by_field ''name'' n) (node_text src) of
           Some program \<Rightarrow> changes_directory (basename program) | None \<Rightarrow> False))"

definition cwd_poison_positions :: "syntax_node \<Rightarrow> rstr \<Rightarrow> cwd_poison list" where
  "cwd_poison_positions root src =
     map (\<lambda>(n, ctx). \<lparr>poison_at = start_byte n, poison_scope = execution_scope n ctx\<rparr>)
       (filter (\<lambda>(n, ctx). is_cd_node src n) (visits [] root))"

definition cwd_unpinned_before :: "cwd_poison list \<Rightarrow> nat \<Rightarrow> execution_scope \<Rightarrow> bool" where
  "cwd_unpinned_before positions at scope =
     list_ex (\<lambda>c. poison_at c < at \<and> (poison_scope c = scope \<or> scope_contains (poison_scope c) scope)) positions"

subsection \<open>The text of an argument\<close>

datatype arg_text = ArgLiteral rstr | ArgAmbiguous

definition expansion_kinds :: "rstr list" where
  "expansion_kinds = [''expansion'', ''simple_expansion'', ''command_substitution'', ''arithmetic_expansion'',
     ''process_substitution'']"

fun node_has_expansion :: "syntax_node \<Rightarrow> bool" where
  "node_has_expansion (Node kind named field from to children) =
     list_ex (\<lambda>c. node_kind c \<in> set expansion_kinds \<or> node_has_expansion c) children"

definition is_windows_path_like :: "rstr \<Rightarrow> bool" where
  "is_windows_path_like raw \<longleftrightarrow>
     starts_with raw [backslash, backslash] \<or> raw \<noteq> '''' \<and> ascii_alphabetic (hd raw) \<and> drive_like raw"

fun fold_escapes :: "rstr \<Rightarrow> rstr option" where
  "fold_escapes [] = Some []"
| "fold_escapes (ch # chars) =
     (if ch = backslash then
        (case chars of [] \<Rightarrow> None | n # chars' \<Rightarrow> map_option ((#) n) (fold_escapes chars'))
      else map_option ((#) ch) (fold_escapes chars))"

definition decode_unquoted_word :: "rstr \<Rightarrow> rstr option" where
  "decode_unquoted_word raw =
     (if backslash \<notin> set raw then Some raw
      else if is_windows_path_like raw then Some raw
      else fold_escapes raw)"

fun fold_double_quoted :: "rstr \<Rightarrow> rstr option" where
  "fold_double_quoted [] = Some []"
| "fold_double_quoted (ch # chars) =
     (if ch \<noteq> backslash then map_option ((#) ch) (fold_double_quoted chars)
      else
        (case chars of
           [] \<Rightarrow> None
         | n # chars' \<Rightarrow>
             if n \<in> set [CHR ''$'', CHR 0x60, dquote, backslash, CHR 0x0A]
             then map_option ((#) n) (fold_double_quoted chars')
             else map_option (\<lambda>s. backslash # n # s) (fold_double_quoted chars')))"

definition decode_double_quoted_content :: "rstr \<Rightarrow> rstr option" where
  "decode_double_quoted_content content =
     (if backslash \<notin> set content then Some content else fold_double_quoted content)"

definition literal_or_ambiguous :: "rstr option \<Rightarrow> arg_text" where
  "literal_or_ambiguous t = (case t of Some s \<Rightarrow> ArgLiteral s | None \<Rightarrow> ArgAmbiguous)"

definition strip_quotes :: "char \<Rightarrow> rstr \<Rightarrow> rstr" where
  "strip_quotes q raw =
     (case Option.bind (strip_prefix [q] raw) (strip_suffix [q]) of Some s \<Rightarrow> s | None \<Rightarrow> raw)"

definition shell_node_arg :: "syntax_node \<Rightarrow> rstr \<Rightarrow> arg_text option" where
  "shell_node_arg n src =
     (let kind = node_kind n; body = node_text src n in
      if kind = ''variable_assignment'' then None
      else if kind = ''word'' \<or> kind = ''number'' then
        Some (literal_or_ambiguous (Option.bind body decode_unquoted_word))
      else if kind = ''raw_string'' then map_option (\<lambda>raw. ArgLiteral (strip_quotes squote raw)) body
      else if kind = ''string'' then
        (if node_has_expansion n then Some ArgAmbiguous
         else map_option (\<lambda>raw. literal_or_ambiguous (decode_double_quoted_content (strip_quotes dquote raw))) body)
      else if kind = ''concatenation'' then
        (if node_has_expansion n then Some ArgAmbiguous
         else Some (literal_or_ambiguous (Option.bind body decode_shell_literal_spelling)))
      else Some ArgAmbiguous)"

subsection \<open>Invocations\<close>

text \<open>\<open>InvocationWord\<close> has the same two cases as \<open>ShellWord\<close>.\<close>

record shell_invocation =
  inv_start_byte :: nat
  inv_scope :: execution_scope
  inv_words :: "shell_word list"
  wrapper_words :: "rstr list"

definition invocation_word :: "rstr \<Rightarrow> syntax_node \<Rightarrow> shell_word list" where
  "invocation_word src child =
     (let operand = (if node_kind child = ''command_name'' then
                       (case named_children child of [] \<Rightarrow> None | inner # _ \<Rightarrow> shell_node_arg inner src)
                     else shell_node_arg child src)
      in case operand of
           Some (ArgLiteral w) \<Rightarrow> [ShellLiteral w]
         | Some ArgAmbiguous \<Rightarrow> [ShellUntrusted]
         | None \<Rightarrow> [])"

definition placeholder :: "shell_word \<Rightarrow> rstr" where
  "placeholder w = (case w of ShellLiteral s \<Rightarrow> s | ShellUntrusted \<Rightarrow> nul)"

definition invocation_of :: "rstr \<Rightarrow> syntax_node \<Rightarrow> node_context \<Rightarrow> shell_invocation" where
  "invocation_of src n ctx =
     (let words = concat (map (invocation_word src) (named_children n)) in
      \<lparr>inv_start_byte = start_byte n, inv_scope = execution_scope n ctx, inv_words = words,
       wrapper_words = map placeholder words\<rparr>)"

definition shell_command_invocations :: "syntax_node \<Rightarrow> rstr \<Rightarrow> shell_invocation list" where
  "shell_command_invocations root src =
     sort_key inv_start_byte
       (map (\<lambda>(n, ctx). invocation_of src n ctx)
         (filter (\<lambda>(n, ctx). node_kind n = ''command'') (visits [] root)))"

definition literal_words :: "shell_word list \<Rightarrow> rstr list" where
  "literal_words ws = concat (map (\<lambda>w. case w of ShellLiteral s \<Rightarrow> [s] | ShellUntrusted \<Rightarrow> []) ws)"

definition unwrap_invocation_words :: "shell_invocation \<Rightarrow> shell_word list" where
  "unwrap_invocation_words call =
     (let norm = normalize_command_words (wrapper_words call)
      in drop (length (wrapper_words call) - length (norm_words norm)) (inv_words call))"

definition words_are_opaque_shell :: "shell_word list \<Rightarrow> bool" where
  "words_are_opaque_shell words =
     (is_potential_inline (shell_dash_c_script words)
      \<or> (case words of ShellLiteral program # _ \<Rightarrow> basename program = ''eval'' | _ \<Rightarrow> False))"

definition tree_has_opaque_shell :: "syntax_node \<Rightarrow> rstr \<Rightarrow> bool" where
  "tree_has_opaque_shell root src =
     list_ex (\<lambda>call. words_are_opaque_shell (unwrap_invocation_words call)) (shell_command_invocations root src)"

subsection \<open>Redirections\<close>

definition shell_arg_is_ambiguous :: "rstr \<Rightarrow> bool" where
  "shell_arg_is_ambiguous token \<longleftrightarrow> CHR ''*'' \<in> set token \<or> CHR ''?'' \<in> set token \<or> CHR ''['' \<in> set token"

record redirect_target =
  redirect_path :: "rstr option"
  redirect_mode :: shell_file_mode
  redirect_ambiguous :: bool
  redirect_start :: nat
  redirect_scope :: execution_scope

fun redirect_kind :: "syntax_node list \<Rightarrow> rstr option" where
  "redirect_kind [] = None"
| "redirect_kind (c # cs) =
     (if contains (node_kind c) ''<<'' then None
      else if CHR ''>'' \<in> set (node_kind c) \<or> CHR ''<'' \<in> set (node_kind c) then Some (node_kind c)
      else redirect_kind cs)"

definition shell_redirect_one :: "syntax_node \<Rightarrow> rstr \<Rightarrow> (rstr option \<times> shell_file_mode \<times> bool) option" where
  "shell_redirect_one n src =
     (case redirect_kind (node_children n) of
        None \<Rightarrow> None
      | Some redirect \<Rightarrow>
          (let mode = (if CHR ''>'' \<in> set redirect then ShellWrite else ShellRead);
               duplicates_fd = (redirect = ''>&'' \<or> redirect = ''<&'')
           in case Option.bind (child_by_field ''destination'' n) (\<lambda>dest. shell_node_arg dest src) of
                None \<Rightarrow> None
              | Some (ArgLiteral s) \<Rightarrow>
                  if s = '''' \<or> starts_with s ''&''
                     \<or> duplicates_fd \<and> (s = ''-'' \<or> list_all ascii_digit s)
                  then None else Some (Some s, mode, shell_arg_is_ambiguous s)
              | Some ArgAmbiguous \<Rightarrow> Some (None, mode, True)))"

definition shell_redirect_targets :: "syntax_node \<Rightarrow> rstr \<Rightarrow> redirect_target list" where
  "shell_redirect_targets root src =
     concat (map (\<lambda>(n, ctx).
       if node_kind n = ''file_redirect'' then
         (case shell_redirect_one n src of
            None \<Rightarrow> []
          | Some (path, mode, ambiguous) \<Rightarrow>
              [\<lparr>redirect_path = path, redirect_mode = mode, redirect_ambiguous = ambiguous,
                redirect_start = start_byte n, redirect_scope = execution_scope n ctx\<rparr>])
       else []) (visits [] root))"

subsection \<open>The operands of known commands\<close>

definition reader_programs :: "rstr list" where
  "reader_programs = [''cat'', ''tac'', ''nl'', ''head'', ''tail'', ''grep'', ''egrep'', ''fgrep'', ''rg'', ''sed'',
     ''awk'', ''less'', ''more'', ''bat'', ''strings'', ''xxd'', ''od'', ''hexdump'', ''base64'',
     ''base32'', ''cut'', ''sort'', ''uniq'', ''wc'', ''type'', ''get-content'', ''gc'', ''diff'',
     ''comm'', ''rev'', ''jq'', ''yq'', ''select-string'', ''sls'', ''ag'', ''ack'', ''zcat'',
     ''zless'', ''zmore'', ''zgrep'', ''zegrep'', ''zfgrep'', ''bzcat'', ''bzgrep'', ''xzcat'',
     ''xzgrep'', ''zstdcat'', ''lz4cat'']"

definition writer_programs :: "rstr list" where
  "writer_programs = [''tee'', ''set-content'', ''out-file'', ''add-content'', ''tee-object'', ''truncate'']"

definition shell_file_mode_of :: "rstr \<Rightarrow> shell_file_mode option" where
  "shell_file_mode_of program =
     (if program \<in> set reader_programs then Some ShellRead
      else if program \<in> set writer_programs then Some ShellWrite
      else None)"

definition short_flags :: "rstr \<Rightarrow> bool" where
  "short_flags word \<longleftrightarrow> starts_with word ''-'' \<and> \<not> starts_with word ''--''"

definition shell_sed_in_place :: "rstr list \<Rightarrow> bool" where
  "shell_sed_in_place words =
     list_ex (\<lambda>w. w = ''--in-place'' \<or> starts_with w ''--in-place='' \<or> short_flags w \<and> CHR ''i'' \<in> set w)
       (drop 1 words)"

definition next_word :: "rstr list \<Rightarrow> rstr list" where
  "next_word rest = (case rest of [] \<Rightarrow> [] | v # _ \<Rightarrow> [v])"

fun shell_output_flag_values :: "rstr list \<Rightarrow> rstr list" where
  "shell_output_flag_values [] = []"
| "shell_output_flag_values (token # rest) =
     (case strip_prefix ''--output='' token of
        Some v \<Rightarrow> [v]
      | None \<Rightarrow>
          (case Option.bind (strip_prefix ''-o'' token) non_empty of
             Some v \<Rightarrow> [v]
           | None \<Rightarrow> if token = ''--output'' \<or> token = ''-o'' then next_word rest else []))
     @ shell_output_flag_values rest"

fun value_flag_values :: "rstr list \<Rightarrow> rstr \<Rightarrow> rstr list" where
  "value_flag_values [] flag = []"
| "value_flag_values (token # rest) flag =
     (case strip_prefix (flag @ ''='') token of
        Some v \<Rightarrow> [v]
      | None \<Rightarrow>
          if token = flag then next_word rest
          else if \<not> starts_with flag ''--'' then
            (case Option.bind (strip_prefix flag token) non_empty of Some v \<Rightarrow> [v] | None \<Rightarrow> [])
          else [])
     @ value_flag_values rest flag"

fun candidates_from :: "bool \<Rightarrow> rstr list \<Rightarrow> rstr list" where
  "candidates_from end_of_options [] = []"
| "candidates_from end_of_options (token # rest) =
     (if \<not> end_of_options \<and> token = ''--'' then candidates_from True rest
      else if end_of_options \<or> token \<noteq> ''-'' \<and> \<not> starts_with token ''-'' then
        token # candidates_from end_of_options rest
      else candidates_from end_of_options rest)"

definition shell_file_candidates :: "rstr list \<Rightarrow> rstr list" where
  "shell_file_candidates words = candidates_from False (drop 1 words)"

definition dd_operand :: "rstr \<Rightarrow> (rstr \<times> shell_file_mode) list" where
  "dd_operand token =
     (case strip_prefix ''if='' token of
        Some path \<Rightarrow> [(path, ShellRead)]
      | None \<Rightarrow> (case strip_prefix ''of='' token of Some path \<Rightarrow> [(path, ShellWrite)] | None \<Rightarrow> []))"

definition writes :: "rstr list \<Rightarrow> (rstr \<times> shell_file_mode) list" where
  "writes paths = map (\<lambda>q. (q, ShellWrite)) paths"

definition special_file_operands :: "rstr \<Rightarrow> rstr list \<Rightarrow> (rstr \<times> shell_file_mode) list" where
  "special_file_operands program words =
     (if program = ''dd'' then concat (map dd_operand (drop 1 words))
      else if program \<in> set [''sort'', ''go'', ''git''] then writes (shell_output_flag_values words)
      else if program = ''rustc'' then
        writes (shell_output_flag_values words @ value_flag_values words ''--out-dir'')
      else if program = ''rustfmt'' then writes (shell_file_candidates words)
      else [])"

definition shell_path_command_operands :: "rstr \<Rightarrow> rstr list \<Rightarrow> (rstr \<times> shell_file_mode) list option" where
  "shell_path_command_operands program words =
     (let operands = shell_file_candidates words in
      if program \<in> set [''cp'', ''mv'', ''ln'', ''install''] then
        (if operands = [] then None
         else Some (map (\<lambda>s. (s, ShellRead)) (butlast operands) @ [(last operands, ShellWrite)]))
      else if program \<in> set [''rm'', ''rmdir'', ''mkdir'', ''touch''] then Some (writes operands)
      else if program = ''uniq'' then
        (case operands of
           input # output # _ \<Rightarrow> Some [(input, ShellRead), (output, ShellWrite)]
         | _ \<Rightarrow> None)
      else None)"

definition is_directory_operand :: "rstr \<Rightarrow> bool" where
  "is_directory_operand token \<longleftrightarrow> token = ''.'' \<or> token = ''..'' \<or> ends_with token ''/''"

definition shell_reader_can_recurse :: "rstr \<Rightarrow> rstr list \<Rightarrow> rstr list \<Rightarrow> bool" where
  "shell_reader_can_recurse program words candidates =
     (program \<in> set [''grep'', ''egrep'', ''fgrep'']
        \<and> list_ex (\<lambda>w. w = ''--recursive'' \<or> w = ''--dereference-recursive''
                        \<or> short_flags w \<and> (CHR ''r'' \<in> set w \<or> CHR ''R'' \<in> set w)) words
      \<or> program \<in> set [''rg'', ''ag'', ''ack'']
        \<and> (length candidates \<le> 1 \<or> list_ex is_directory_operand (drop 1 candidates)))"

definition modes_of :: "rstr \<Rightarrow> rstr list \<Rightarrow> shell_file_mode list" where
  "modes_of program words =
     (case shell_file_mode_of program of
        None \<Rightarrow> []
      | Some m \<Rightarrow> if program = ''sed'' \<and> shell_sed_in_place words then [ShellRead, ShellWrite] else [m])"

text \<open>The files a peeled command touches, in the order they are checked.\<close>

definition operand_accesses :: "rstr \<Rightarrow> rstr list \<Rightarrow> (rstr \<times> shell_file_mode) list" where
  "operand_accesses program words =
     special_file_operands program words @
     (if program = ''dd'' then []
      else
        (case shell_path_command_operands program words of
           Some operands \<Rightarrow> operands
         | None \<Rightarrow>
             concat (map (\<lambda>token. map (\<lambda>m. (token, m)) (modes_of program words)) (shell_file_candidates words))))"

subsection \<open>The gate\<close>

text \<open>The checks of one operand: the decision, and whether its spelling forces a question.\<close>

type_synonym 'pat path_check = "rstr \<Rightarrow> shell_file_mode \<Rightarrow> bool \<Rightarrow> gate_decision option"

text \<open>
  What the words of a peeled command demand: its file accesses, and whether they force a question.
  \<open>unclear_words\<close> is a word that expands at run time, a poisoned directory or a broken parse.
\<close>

definition operand_demand ::
  "rstr list \<Rightarrow> rstr \<Rightarrow> bool \<Rightarrow> (rstr \<times> shell_file_mode) list \<times> bool" where
  "operand_demand words program unclear_words =
     (let program_lower = map ascii_lower (basename program) in
      if changes_directory program_lower then ([], False)
      else
        (let candidates = shell_file_candidates words;
             path_operands = shell_path_command_operands program_lower words;
             is_known = (program_lower = ''dd'' \<or> shell_file_mode_of program_lower \<noteq> None \<or> path_operands \<noteq> None);
             accesses = operand_accesses program_lower words;
             recurses = (program_lower \<noteq> ''dd'' \<and> path_operands = None
                         \<and> shell_file_mode_of program_lower \<noteq> None
                         \<and> shell_reader_can_recurse program_lower words candidates)
         in (accesses,
             is_known \<and> unclear_words \<or> list_ex (\<lambda>(path, mode). shell_arg_is_ambiguous path) accesses
             \<or> recurses)))"

text \<open>
  One invocation: its decisions in order, and whether it forces a question.  \<open>nested\<close> judges an inline
  script, given whether its directory is unknown; it is \<open>None\<close> when the budget is used up.
\<close>

definition invocation_checks ::
  "(rstr \<Rightarrow> bool \<Rightarrow> gate_decision option) option \<Rightarrow> 'pat path_check \<Rightarrow> cwd_poison list \<Rightarrow> bool \<Rightarrow> bool
   \<Rightarrow> shell_invocation \<Rightarrow> gate_decision option list \<times> bool" where
  "invocation_checks nested check cwd_changes cwd_unpinned parse_failed call =
     (let norm = normalize_command_words (wrapper_words call);
          words = unwrap_invocation_words call;
          unpinned = (cwd_unpinned \<or> cwd_unpinned_before cwd_changes (inv_start_byte call) (inv_scope call)
                      \<or> norm_chdir norm);
          script = shell_dash_c_script words;
          (nested_ds, script_forced) =
            (case script of
               InlineLiteral index \<Rightarrow>
                 (case nested of
                    None \<Rightarrow> ([], True)
                  | Some f \<Rightarrow>
                      (case words ! index of ShellLiteral inner \<Rightarrow> [f inner unpinned] | ShellUntrusted \<Rightarrow> [], False))
             | NotInline \<Rightarrow> ([], False)
             | _ \<Rightarrow> ([], True));
          (accesses, operands_forced) =
            (case words of
               ShellLiteral program # _ \<Rightarrow>
                 operand_demand (literal_words words) program
                   (unpinned \<or> list_ex (\<lambda>w. w = ShellUntrusted) words \<or> parse_failed)
             | _ \<Rightarrow> ([], False))
      in (nested_ds @ map (\<lambda>(path, mode). check path mode unpinned) accesses,
          peel_flagged norm \<or> parse_failed \<and> script \<noteq> NotInline \<or> script_forced \<or> operands_forced))"

definition redirect_checks ::
  "'pat path_check \<Rightarrow> cwd_poison list \<Rightarrow> bool \<Rightarrow> redirect_target \<Rightarrow> gate_decision option list" where
  "redirect_checks check cwd_changes cwd_unpinned r =
     (case redirect_path r of
        None \<Rightarrow> []
      | Some path \<Rightarrow>
          [check path (redirect_mode r)
             (cwd_unpinned \<or> cwd_unpinned_before cwd_changes (redirect_start r) (redirect_scope r))])"

fun evaluate_shell_file_access_inner ::
  "'pat externals \<Rightarrow> filesystem \<Rightarrow> 'pat compiled_policy \<Rightarrow> rstr \<Rightarrow> rstr \<Rightarrow> nat \<Rightarrow> bool \<Rightarrow> bool
   \<Rightarrow> gate_decision option" where
  "evaluate_shell_file_access_inner x fs p cmd cwd depth cwd_unpinned entered_inline =
     (case ext_parse x cmd of
        None \<Rightarrow> fail_closed_if entered_inline
      | Some tree \<Rightarrow>
          (let root = tree_root tree;
               parse_failed = tree_has_error tree;
               check = (\<lambda>path mode unpinned. evaluate_shell_path x fs p path cwd mode unpinned);
               nested = (case depth of
                           0 \<Rightarrow> None
                         | Suc d \<Rightarrow> Some (\<lambda>inner unpinned.
                             evaluate_shell_file_access_inner x fs p inner cwd d unpinned True));
               cwd_changes = cwd_poison_positions root cmd;
               redirects = shell_redirect_targets root cmd;
               calls = map (invocation_checks nested check cwd_changes cwd_unpinned parse_failed)
                         (shell_command_invocations root cmd);
               decisions = concat (map (redirect_checks check cwd_changes cwd_unpinned) redirects)
                           @ concat (map fst calls);
               forced_ask = (entered_inline \<and> parse_failed \<or> list_ex redirect_ambiguous redirects
                             \<or> list_ex snd calls)
           in combine_gate_decisions (foldl combine_gate_decisions None decisions) (fail_closed_if forced_ask)))"

declare evaluate_shell_file_access_inner.simps [simp del]

definition evaluate_shell_file_access_gate ::
  "'pat externals \<Rightarrow> filesystem \<Rightarrow> 'pat compiled_policy \<Rightarrow> rstr \<Rightarrow> rstr \<Rightarrow> gate_decision option" where
  "evaluate_shell_file_access_gate x fs p cmd cwd =
     (if \<not> has_file_restrictions p then None
      else evaluate_shell_file_access_inner x fs p cmd cwd max_inline_shell_depth False False)"

definition evaluate_shell_file_access ::
  "'pat externals \<Rightarrow> filesystem \<Rightarrow> 'pat compiled_policy \<Rightarrow> rstr \<Rightarrow> rstr \<Rightarrow> decision option" where
  "evaluate_shell_file_access x fs p cmd cwd =
     map_option into_decision (evaluate_shell_file_access_gate x fs p cmd cwd)"

subsection \<open>The paths a command writes\<close>

definition command_words_write_paths :: "rstr list \<Rightarrow> rstr list" where
  "command_words_write_paths words =
     (let inner = unwrap_wrappers words in
      case inner of
        [] \<Rightarrow> []
      | w # _ \<Rightarrow>
          (let program = map ascii_lower (basename w);
               written = (\<lambda>ops. map fst (filter (\<lambda>(q, m). m = ShellWrite) ops));
               special = written (special_file_operands program inner)
           in case shell_path_command_operands program inner of
                Some operands \<Rightarrow> special @ written operands
              | None \<Rightarrow>
                  if shell_file_mode_of program = Some ShellWrite
                     \<or> program = ''sed'' \<and> shell_sed_in_place inner
                  then special @ shell_file_candidates inner else special))"

record write_paths_split =
  redirect_paths :: "rstr list"
  unextracted_write_redirect :: bool
  word_paths :: "rstr list"

definition command_write_paths_split :: "syntax_node \<Rightarrow> rstr \<Rightarrow> write_paths_split" where
  "command_write_paths_split root src =
     (let writes = filter (\<lambda>r. redirect_mode r = ShellWrite) (shell_redirect_targets root src) in
      \<lparr>redirect_paths = concat (map (\<lambda>r. case redirect_path r of Some path \<Rightarrow> [path] | None \<Rightarrow> []) writes),
       unextracted_write_redirect = list_ex (\<lambda>r. redirect_path r = None) writes,
       word_paths = concat (map (\<lambda>call. command_words_write_paths (literal_words (inv_words call)))
                      (shell_command_invocations root src))\<rparr>)"

definition command_write_paths_in_tree :: "syntax_node \<Rightarrow> rstr \<Rightarrow> rstr list" where
  "command_write_paths_in_tree root src =
     (let s = command_write_paths_split root src in redirect_paths s @ word_paths s)"

definition is_safe_write_sink :: "rstr \<Rightarrow> bool" where
  "is_safe_write_sink path \<longleftrightarrow> path \<in> set [''/dev/null'', ''/dev/stdout'', ''/dev/stderr'']"

subsection \<open>Every file a script touches is checked\<close>

text \<open>
  The file accesses of a script: \<open>touches parse n cmd u path mode v\<close> says that \<open>cmd\<close>, run where the directory
  is unknown if \<open>u\<close>, reads or writes \<open>path\<close>, at a place where the directory is unknown if \<open>v\<close>; \<open>n\<close>
  bounds the nesting of \<open>-c\<close> scripts.
\<close>

definition call_unpinned :: "syntax_tree \<Rightarrow> rstr \<Rightarrow> bool \<Rightarrow> shell_invocation \<Rightarrow> bool" where
  "call_unpinned tree cmd u call \<longleftrightarrow>
     u \<or> cwd_unpinned_before (cwd_poison_positions (tree_root tree) cmd) (inv_start_byte call) (inv_scope call)
     \<or> norm_chdir (normalize_command_words (wrapper_words call))"

inductive touches :: "bash_parser \<Rightarrow> nat \<Rightarrow> rstr \<Rightarrow> bool \<Rightarrow> rstr \<Rightarrow> shell_file_mode \<Rightarrow> bool \<Rightarrow> bool" for parse where
  redirect: "parse cmd = Some tree \<Longrightarrow> r \<in> set (shell_redirect_targets (tree_root tree) cmd)
    \<Longrightarrow> redirect_path r = Some path
    \<Longrightarrow> v = (u \<or> cwd_unpinned_before (cwd_poison_positions (tree_root tree) cmd) (redirect_start r) (redirect_scope r))
    \<Longrightarrow> touches parse n cmd u path (redirect_mode r) v"
| operand: "parse cmd = Some tree \<Longrightarrow> call \<in> set (shell_command_invocations (tree_root tree) cmd)
    \<Longrightarrow> unwrap_invocation_words call = ShellLiteral program # args
    \<Longrightarrow> \<not> changes_directory (map ascii_lower (basename program))
    \<Longrightarrow> (path, mode) \<in> set (operand_accesses (map ascii_lower (basename program))
          (literal_words (ShellLiteral program # args)))
    \<Longrightarrow> touches parse n cmd u path mode (call_unpinned tree cmd u call)"
| nested: "parse cmd = Some tree \<Longrightarrow> call \<in> set (shell_command_invocations (tree_root tree) cmd)
    \<Longrightarrow> shell_dash_c_script (unwrap_invocation_words call) = InlineLiteral i
    \<Longrightarrow> unwrap_invocation_words call ! i = ShellLiteral inner
    \<Longrightarrow> touches parse n inner (call_unpinned tree cmd u call) path mode v
    \<Longrightarrow> touches parse (Suc n) cmd u path mode v"

text \<open>The decisions of the gate on one tree.\<close>

definition tree_decisions ::
  "(rstr \<Rightarrow> bool \<Rightarrow> gate_decision option) option \<Rightarrow> 'pat path_check \<Rightarrow> syntax_tree \<Rightarrow> rstr \<Rightarrow> bool
   \<Rightarrow> gate_decision option list" where
  "tree_decisions nested check tree cmd u =
     concat (map (redirect_checks check (cwd_poison_positions (tree_root tree) cmd) u)
       (shell_redirect_targets (tree_root tree) cmd))
     @ concat (map (\<lambda>call. fst (invocation_checks nested check (cwd_poison_positions (tree_root tree) cmd) u
                                  (tree_has_error tree) call))
         (shell_command_invocations (tree_root tree) cmd))"

definition tree_forced ::
  "(rstr \<Rightarrow> bool \<Rightarrow> gate_decision option) option \<Rightarrow> 'pat path_check \<Rightarrow> syntax_tree \<Rightarrow> rstr \<Rightarrow> bool \<Rightarrow> bool \<Rightarrow> bool" where
  "tree_forced nested check tree cmd u entered \<longleftrightarrow>
     entered \<and> tree_has_error tree
     \<or> list_ex redirect_ambiguous (shell_redirect_targets (tree_root tree) cmd)
     \<or> list_ex (\<lambda>call. snd (invocation_checks nested check (cwd_poison_positions (tree_root tree) cmd) u
                              (tree_has_error tree) call))
         (shell_command_invocations (tree_root tree) cmd)"

definition nested_gate ::
  "'pat externals \<Rightarrow> filesystem \<Rightarrow> 'pat compiled_policy \<Rightarrow> rstr \<Rightarrow> nat
   \<Rightarrow> (rstr \<Rightarrow> bool \<Rightarrow> gate_decision option) option" where
  "nested_gate x fs p cwd depth =
     (case depth of
        0 \<Rightarrow> None
      | Suc d \<Rightarrow> Some (\<lambda>inner u. evaluate_shell_file_access_inner x fs p inner cwd d u True))"

lemma inner_unfold:
  assumes "ext_parse x cmd = Some tree"
  shows "evaluate_shell_file_access_inner x fs p cmd cwd depth u entered =
    combine_gate_decisions
      (foldl combine_gate_decisions None
        (tree_decisions (nested_gate x fs p cwd depth)
          (\<lambda>path mode v. evaluate_shell_path x fs p path cwd mode v) tree cmd u))
      (fail_closed_if (tree_forced (nested_gate x fs p cwd depth)
        (\<lambda>path mode v. evaluate_shell_path x fs p path cwd mode v) tree cmd u entered))"
  by (subst evaluate_shell_file_access_inner.simps)
    (simp add: assms tree_decisions_def tree_forced_def nested_gate_def Let_def list_ex_iff comp_def)

context gate_question
begin

lemma holds_foldl: "holds (foldl combine_gate_decisions d ds) \<longleftrightarrow> holds d \<or> (\<exists>e \<in> set ds. holds e)"
  using holds_fold [of "\<lambda>d. d" d ds] by simp

lemma holds_inner:
  assumes "ext_parse x cmd = Some tree"
    and "d \<in> set (tree_decisions (nested_gate x fs p cwd depth)
          (\<lambda>path mode v. evaluate_shell_path x fs p path cwd mode v) tree cmd u)" "holds d"
  shows "holds (evaluate_shell_file_access_inner x fs p cmd cwd depth u entered)"
  unfolding inner_unfold [OF assms(1)] holds_combine holds_foldl using assms(2,3) by blast

end

lemma operand_demand_accesses:
  "fst (operand_demand words program b) =
     (if changes_directory (map ascii_lower (basename program)) then []
      else operand_accesses (map ascii_lower (basename program)) words)"
  by (simp add: operand_demand_def Let_def)

lemma invocation_operand:
  assumes "unwrap_invocation_words call = ShellLiteral program # args"
    and "\<not> changes_directory (map ascii_lower (basename program))"
    and "(path, mode) \<in> set (operand_accesses (map ascii_lower (basename program))
          (literal_words (ShellLiteral program # args)))"
  shows "check path mode (call_unpinned tree cmd u call)
    \<in> set (fst (invocation_checks nested check (cwd_poison_positions (tree_root tree) cmd) u broken call))"
proof -
  let ?unclear = "call_unpinned tree cmd u call \<or> list_ex (\<lambda>w. w = ShellUntrusted) (ShellLiteral program # args) \<or> broken"
  obtain forced where "operand_demand (literal_words (ShellLiteral program # args)) program ?unclear
      = (operand_accesses (map ascii_lower (basename program)) (literal_words (ShellLiteral program # args)), forced)"
    using operand_demand_accesses [of "literal_words (ShellLiteral program # args)" program ?unclear] assms(2)
    by (metis prod.collapse)
  then show ?thesis
    using assms(3) unfolding invocation_checks_def Let_def assms(1) call_unpinned_def
    by (force split: prod.splits)
qed

lemma invocation_nested:
  assumes "shell_dash_c_script (unwrap_invocation_words call) = InlineLiteral i"
    and "unwrap_invocation_words call ! i = ShellLiteral inner"
  shows "f inner (call_unpinned tree cmd u call)
    \<in> set (fst (invocation_checks (Some f) check (cwd_poison_positions (tree_root tree) cmd) u broken call))"
  using assms by (simp add: invocation_checks_def Let_def call_unpinned_def split: prod.splits)

context gate_question
begin

lemma holds_touches:
  "touches (ext_parse x) n cmd u path mode v \<Longrightarrow> holds (evaluate_shell_path x fs p path cwd mode v)
   \<Longrightarrow> holds (evaluate_shell_file_access_inner x fs p cmd cwd n u entered)"
proof (induction arbitrary: entered rule: touches.induct)
  case (redirect cmd tree r path v u n)
  show ?case
    by (rule holds_inner [OF redirect(1) _ redirect(5)])
      (use redirect(2-4) in \<open>force simp: tree_decisions_def redirect_checks_def\<close>)
next
  case (operand cmd tree call program args path mode n u)
  show ?case
    by (rule holds_inner [OF operand(1) _ operand(6)])
      (use operand(2) invocation_operand [OF operand(3-5)] in \<open>force simp: tree_decisions_def\<close>)
next
  case (nested cmd tree call i inner n u path mode v)
  have gate: "nested_gate x fs p cwd (Suc n)
      = Some (\<lambda>inner u. evaluate_shell_file_access_inner x fs p inner cwd n u True)"
    by (simp add: nested_gate_def)
  have "evaluate_shell_file_access_inner x fs p inner cwd n (call_unpinned tree cmd u call) True
      \<in> set (tree_decisions (nested_gate x fs p cwd (Suc n))
          (\<lambda>path mode v. evaluate_shell_path x fs p path cwd mode v) tree cmd u)"
    unfolding gate tree_decisions_def
    using nested(2) invocation_nested [OF nested(3,4),
        of "\<lambda>inner u. evaluate_shell_file_access_inner x fs p inner cwd n u True"]
    by force
  then show ?case
    by (rule holds_inner [OF nested(1)]) (rule nested(6) [OF nested(7)])
qed

end

lemma hidden_access:
  assumes "touches (ext_parse x) max_inline_shell_depth cmd False path mode v"
    and "q \<in> set (operand_files fs path cwd v)"
    and "evaluate_with_cwd x (compile_policy x c) (shell_access mode q) (operand_rule_cwd path cwd v) = Some d"
  shows "d = DReject r \<Longrightarrow> rejects (evaluate_shell_file_access_gate x fs (compile_policy x c) cmd cwd)"
    and "d = DAsk \<Longrightarrow> binding (evaluate_shell_file_access_gate x fs (compile_policy x c) cmd cwd)"
proof -
  have gate: "evaluate_shell_file_access_gate x fs (compile_policy x c) cmd cwd
      = evaluate_shell_file_access_inner x fs (compile_policy x c) cmd cwd max_inline_shell_depth False False"
    if "d \<noteq> DAllow"
    using file_restricting_decision [OF assms(3) that]
    by (simp only: evaluate_shell_file_access_gate_def simp_thms if_False)
  show "d = DReject r \<Longrightarrow> rejects (evaluate_shell_file_access_gate x fs (compile_policy x c) cmd cwd)"
    using gate rejecting.holds_touches [OF assms(1) rejecting.holds_shell_path [OF assms(2)]] assms(3)
    by (simp add: escalate_access_def rejects_def)
  show "d = DAsk \<Longrightarrow> binding (evaluate_shell_file_access_gate x fs (compile_policy x c) cmd cwd)"
    using gate binds.holds_touches [OF assms(1) binds.holds_shell_path [OF assms(2)]] assms(3)
    by (simp add: escalate_access_def binding_def)
qed

text \<open>
  C6: The files that the gate finds in a script are under the file rules.  For the target of every redirection
  and for every operand that the gate takes for a file of a reader or writer it knows, behind wrappers and in
  nested \<open>-c\<close> scripts up to the budget, every file the operand may stand for (as written, against the working
  directory, and where its links lead) is put to the same rules as the direct tools: if they reject \<open>Read\<close> or
  \<open>Edit\<close> of it the gate rejects the script, whatever else it does, and if they ask the gate asks, bindingly, or
  rejects.  This says nothing of files the gate does not find: operands of unknown programs, and the known gaps
  \<open>drive_like_operand_unnoticed\<close> and \<open>grouped_output_option_unnoticed\<close>.
\<close>

theorem shell_cannot_bypass_file_rules:
  assumes "touches (ext_parse x) max_inline_shell_depth cmd False path mode v"
    and "q \<in> set (operand_files fs path cwd v)"
    and "evaluate_with_cwd x (compile_policy x c) (shell_access mode q) (operand_rule_cwd path cwd v) = Some d"
  shows "((\<exists>r. d = DReject r) \<longrightarrow>
           (\<exists>r. evaluate_shell_file_access x fs (compile_policy x c) cmd cwd = Some (DReject r)))
    \<and> (d = DAsk \<longrightarrow>
        (\<exists>g. evaluate_shell_file_access_gate x fs (compile_policy x c) cmd cwd = Some g \<and> g \<noteq> AskFailClosed))"
  using hidden_access [OF assms]
  by (auto simp: evaluate_shell_file_access_def rejects_def binding_def into_decision_def)

subsection \<open>The gate over files fails closed\<close>

text \<open>
  Where the analysis of a script gives up: a nested script that does not parse, an ambiguous redirection, a
  flag of the peeling, an inline script that is not understood or too deep, a known reader or writer with a
  word that expands at run time or with a pattern for a path, a recursive search, a relative path under an
  unknown directory, a link that cannot be followed.
\<close>

definition invocation_forced :: "syntax_tree \<Rightarrow> rstr \<Rightarrow> bool \<Rightarrow> shell_invocation \<Rightarrow> bool" where
  "invocation_forced tree cmd u call \<longleftrightarrow>
     (let words = unwrap_invocation_words call; script = shell_dash_c_script words in
      peel_flagged (normalize_command_words (wrapper_words call))
      \<or> script = InlineUntrusted \<or> script = InlineUnrecognized
      \<or> tree_has_error tree \<and> script \<noteq> NotInline
      \<or> (case words of
           ShellLiteral program # _ \<Rightarrow>
             snd (operand_demand (literal_words words) program
               (call_unpinned tree cmd u call \<or> list_ex (\<lambda>w. w = ShellUntrusted) words \<or> tree_has_error tree))
         | _ \<Rightarrow> False))"

inductive files_unclear :: "bash_parser \<Rightarrow> filesystem \<Rightarrow> rstr \<Rightarrow> nat \<Rightarrow> rstr \<Rightarrow> bool \<Rightarrow> bool \<Rightarrow> bool" for parse fs cwd where
  no_parse: "parse cmd = None \<Longrightarrow> files_unclear parse fs cwd n cmd u True"
| broken: "parse cmd = Some tree \<Longrightarrow> tree_has_error tree \<Longrightarrow> files_unclear parse fs cwd n cmd u True"
| redirection: "parse cmd = Some tree \<Longrightarrow> r \<in> set (shell_redirect_targets (tree_root tree) cmd)
    \<Longrightarrow> redirect_ambiguous r \<Longrightarrow> files_unclear parse fs cwd n cmd u entered"
| invocation: "parse cmd = Some tree \<Longrightarrow> call \<in> set (shell_command_invocations (tree_root tree) cmd)
    \<Longrightarrow> invocation_forced tree cmd u call \<Longrightarrow> files_unclear parse fs cwd n cmd u entered"
| too_deep: "parse cmd = Some tree \<Longrightarrow> call \<in> set (shell_command_invocations (tree_root tree) cmd)
    \<Longrightarrow> shell_dash_c_script (unwrap_invocation_words call) = InlineLiteral i
    \<Longrightarrow> files_unclear parse fs cwd 0 cmd u entered"
| unpinned: "touches parse n cmd u path mode True \<Longrightarrow> \<not> is_absolute_shell_path (normalize_shell_path path)
    \<Longrightarrow> files_unclear parse fs cwd n cmd u entered"
| link: "touches parse n cmd u path mode v \<Longrightarrow> is_absolute_shell_path (normalize_shell_path path)
    \<Longrightarrow> is_absolute_shell_path (normalize_shell_path_raw path)
    \<Longrightarrow> resolve_symlink_target fs (normalize_shell_path_raw path) = None
    \<Longrightarrow> path_has_symlink fs (normalize_shell_path_raw path)
    \<Longrightarrow> files_unclear parse fs cwd n cmd u entered"
| nested: "parse cmd = Some tree \<Longrightarrow> call \<in> set (shell_command_invocations (tree_root tree) cmd)
    \<Longrightarrow> shell_dash_c_script (unwrap_invocation_words call) = InlineLiteral i
    \<Longrightarrow> unwrap_invocation_words call ! i = ShellLiteral inner
    \<Longrightarrow> files_unclear parse fs cwd n inner (call_unpinned tree cmd u call) True
    \<Longrightarrow> files_unclear parse fs cwd (Suc n) cmd u entered"

lemma forced_answers:
  assumes "ext_parse x cmd = Some tree"
    and "tree_forced (nested_gate x fs p cwd n) (\<lambda>path mode v. evaluate_shell_path x fs p path cwd mode v)
      tree cmd u entered"
  shows "answers (evaluate_shell_file_access_inner x fs p cmd cwd n u entered)"
  unfolding inner_unfold [OF assms(1)] speaks.holds_combine
  using assms(2) by (simp add: fail_closed_if_def)

lemma invocation_forced_snd:
  "invocation_forced tree cmd u call \<Longrightarrow>
   snd (invocation_checks nested check (cwd_poison_positions (tree_root tree) cmd) u (tree_has_error tree) call)"
  unfolding invocation_forced_def invocation_checks_def Let_def call_unpinned_def
  by (auto split: prod.splits list.splits shell_word.splits)

lemma too_deep_snd:
  "shell_dash_c_script (unwrap_invocation_words call) = InlineLiteral i \<Longrightarrow>
   snd (invocation_checks None check changes u broken call)"
  unfolding invocation_checks_def Let_def by (auto split: prod.splits)

lemma files_unclear_answers:
  "files_unclear (ext_parse x) fs cwd n cmd u entered
   \<Longrightarrow> answers (evaluate_shell_file_access_inner x fs p cmd cwd n u entered)"
proof (induction rule: files_unclear.induct)
  case (no_parse cmd n u)
  then show ?case
    by (simp add: evaluate_shell_file_access_inner.simps [of _ _ _ _ _ n] fail_closed_if_def)
next
  case (broken cmd tree n u)
  then show ?case by (intro forced_answers [OF broken(1)]) (simp add: tree_forced_def)
next
  case (redirection cmd tree r n u entered)
  then show ?case by (intro forced_answers [OF redirection(1)]) (auto simp: tree_forced_def list_ex_iff)
next
  case (invocation cmd tree call n u entered)
  then show ?case
    by (intro forced_answers [OF invocation(1)]) (auto simp: tree_forced_def list_ex_iff dest: invocation_forced_snd)
next
  case (too_deep cmd tree call i u entered)
  then show ?case
    by (intro forced_answers [OF too_deep(1)])
      (auto simp: tree_forced_def list_ex_iff nested_gate_def dest: too_deep_snd)
next
  case (unpinned n cmd u path mode entered)
  have "answers (evaluate_shell_path x fs p path cwd mode True)"
    unfolding evaluate_shell_path_def Let_def speaks.holds_combine
    using unpinned(2) by (simp add: fail_closed_if_def)
  with unpinned(1) show ?case by (rule speaks.holds_touches)
next
  case (link n cmd u path mode v entered)
  have "answers (evaluate_shell_path x fs p path cwd mode v)"
    unfolding evaluate_shell_path_def Let_def speaks.holds_combine
    using link(2-5) by (simp add: fail_closed_if_def speaks.holds_combine)
  with link(1) show ?case by (rule speaks.holds_touches)
next
  case (nested cmd tree call i inner n u entered)
  have "evaluate_shell_file_access_inner x fs p inner cwd n (call_unpinned tree cmd u call) True
      \<in> set (tree_decisions (nested_gate x fs p cwd (Suc n))
          (\<lambda>path mode v. evaluate_shell_path x fs p path cwd mode v) tree cmd u)"
    unfolding nested_gate_def tree_decisions_def
    using nested(2) invocation_nested [OF nested(3,4),
        of "\<lambda>inner u. evaluate_shell_file_access_inner x fs p inner cwd n u True"]
    by force
  then show ?case using nested(6) by (rule speaks.holds_inner [OF nested(1)])
qed

text \<open>
  With any rule that restricts files, a script whose file accesses cannot be pinned down is never passed
  over in silence: in each of the cases above, at any nesting within the budget, the gate answers.
\<close>

theorem file_gate_fails_closed:
  assumes "files_unclear (ext_parse x) fs cwd max_inline_shell_depth cmd False False"
    and "r \<in> set (rules c)" "is_restriction r" "rule_tool r \<in> {FRead, FEdit, FAny}"
  shows "\<exists>g. evaluate_shell_file_access_gate x fs (compile_policy x c) cmd cwd = Some g"
proof -
  have "has_file_restrictions (compile_policy x c)" using assms(2-4) by auto
  with files_unclear_answers [OF assms(1)] show ?thesis
    by (simp add: evaluate_shell_file_access_gate_def answers_def)
qed

subsection \<open>Examples\<close>

text \<open>\<open>cat .env\<close> in \<open>/w\<close>, and the same with its word expanded at run time.\<close>

definition deny_read_env :: permission_config where
  "deny_read_env = \<lparr>rules = [\<lparr>rule_action = RDeny, rule_tool = FRead, rule_pattern = Some ''./.env'', rule_mode = GlobMode\<rparr>],
     config_prompt_policy = PromptAsk\<rparr>"

lemma cat_env_touches: "touches (ext_parse literal_externals) n ''timeout 5 cat .env'' False ''.env'' ShellRead False"
proof -
  let ?s = "''timeout 5 cat .env''"
  let ?tree = "simple_script_tree ?s"
  have calls: "shell_command_invocations (tree_root ?tree) ?s =
      [\<lparr>inv_start_byte = 0, inv_scope = whole_script,
        inv_words = map ShellLiteral [''timeout'', ''5'', ''cat'', ''.env''],
        wrapper_words = [''timeout'', ''5'', ''cat'', ''.env'']\<rparr>]"
    by code_simp
  have parse: "ext_parse literal_externals ?s = Some ?tree" by (simp add: literal_externals_def)
  have "touches (ext_parse literal_externals) n ?s False ''.env'' ShellRead
      (call_unpinned ?tree ?s False (hd (shell_command_invocations (tree_root ?tree) ?s)))"
  proof (rule touches.operand [where parse = "ext_parse literal_externals" and cmd = ?s])
    show "ext_parse literal_externals ?s = Some ?tree" by (rule parse)
    show "hd (shell_command_invocations (tree_root ?tree) ?s) \<in> set (shell_command_invocations (tree_root ?tree) ?s)"
      by (simp add: calls)
    show "unwrap_invocation_words (hd (shell_command_invocations (tree_root ?tree) ?s))
        = ShellLiteral ''cat'' # [ShellLiteral ''.env'']"
      unfolding calls by code_simp
  qed code_simp+
  moreover have "\<not> call_unpinned ?tree ?s False (hd (shell_command_invocations (tree_root ?tree) ?s))"
    by code_simp
  ultimately show ?thesis by simp
qed

theorem shell_cannot_bypass_file_rules_witness:
  "\<exists>r. evaluate_shell_file_access literal_externals plain_filesystem (compile_policy literal_externals deny_read_env)
     ''timeout 5 cat .env'' ''/w'' = Some (DReject r)"
proof -
  have "evaluate_with_cwd literal_externals (compile_policy literal_externals deny_read_env)
      (shell_access ShellRead ''/w/.env'') (operand_rule_cwd ''.env'' ''/w'' False)
    = Some (DReject (deny_reason (hd (rules deny_read_env))))"
    by code_simp
  moreover have "''/w/.env'' \<in> set (operand_files plain_filesystem ''.env'' ''/w'' False)" by code_simp
  ultimately show ?thesis
    using shell_cannot_bypass_file_rules [OF cat_env_touches] by blast
qed

theorem file_gate_fails_closed_witness:
  "\<exists>g. evaluate_shell_file_access_gate literal_externals plain_filesystem
     (compile_policy literal_externals deny_read_env) ''rg TODO'' ''/w'' = Some g"
proof (rule file_gate_fails_closed [where r = "hd (rules deny_read_env)"])
  show "files_unclear (ext_parse literal_externals) plain_filesystem ''/w'' max_inline_shell_depth ''rg TODO'' False False"
  proof (rule files_unclear.invocation)
    show "ext_parse literal_externals ''rg TODO'' = Some (simple_script_tree ''rg TODO'')"
      by (simp add: literal_externals_def)
    have "shell_command_invocations (tree_root (simple_script_tree ''rg TODO'')) ''rg TODO'' =
        [\<lparr>inv_start_byte = 0, inv_scope = whole_script, inv_words = map ShellLiteral [''rg'', ''TODO''],
          wrapper_words = [''rg'', ''TODO'']\<rparr>]"
      by code_simp
    then show "\<lparr>inv_start_byte = 0, inv_scope = whole_script, inv_words = map ShellLiteral [''rg'', ''TODO''],
          wrapper_words = [''rg'', ''TODO'']\<rparr>
        \<in> set (shell_command_invocations (tree_root (simple_script_tree ''rg TODO'')) ''rg TODO'')"
      by simp
  qed code_simp
qed (simp_all add: deny_read_env_def is_restriction_def)

end
