(* ===== verification/GatePreflight.thy ===== *)
theory GatePreflight
  imports ShellAccess
begin

section \<open>The preflight of a request\<close>

text \<open>
  Models \<open>gate_preflight.rs\<close>, the one evaluation of the managed policy for a permission request, and
  \<open>combine_decisions\<close> of \<open>shell_access.rs\<close>: the direct pass over the rules and the two gates over shell
  commands, kept apart so that a question the rules ask is told from one asked because the command could
  not be read.
\<close>

definition decision_rank :: "decision \<Rightarrow> nat" where
  "decision_rank d = (case d of DReject _ \<Rightarrow> 3 | DPolicyDeny _ \<Rightarrow> 3 | DAsk \<Rightarrow> 2 | DAllow \<Rightarrow> 1 | _ \<Rightarrow> 0)"

fun combine_decisions :: "decision option \<Rightarrow> decision option \<Rightarrow> decision option" where
  "combine_decisions None other = other"
| "combine_decisions other None = other"
| "combine_decisions (Some a) (Some b) = Some (if decision_rank a \<ge> decision_rank b then a else b)"

record gate_preflight =
  direct :: "decision option"
  bash_command :: "gate_decision option"
  shell_file :: "gate_decision option"
  preflight_defers :: bool

definition bash_gates ::
  "'pat externals \<Rightarrow> filesystem \<Rightarrow> 'pat compiled_policy option \<Rightarrow> 'json access_kind \<Rightarrow> rstr
   \<Rightarrow> gate_decision option \<times> gate_decision option" where
  "bash_gates x fs policy access cwd =
     (case (policy, access) of
        (Some p, AccessBash cmd) \<Rightarrow>
          (evaluate_bash_command_gate x p cmd, evaluate_shell_file_access_gate x fs p cmd cwd)
      | _ \<Rightarrow> (None, None))"

definition evaluate_preflight ::
  "'pat externals \<Rightarrow> filesystem \<Rightarrow> 'pat compiled_policy option \<Rightarrow> 'json access_kind \<Rightarrow> rstr \<Rightarrow> bool
   \<Rightarrow> gate_preflight" where
  "evaluate_preflight x fs policy access cwd auto_mode =
     (let decision = Option.bind policy (\<lambda>p. evaluate_with_cwd x p access (Some cwd));
          (command, file) = bash_gates x fs policy access cwd;
          rule_match_ask = (decision = Some DAsk \<or> command = Some AskRuleMatch \<or> file = Some AskRuleMatch);
          fail_closed_ask = (command = Some AskFailClosed \<or> file = Some AskFailClosed)
      in \<lparr>direct = decision, bash_command = command, shell_file = file,
          preflight_defers = auto_mode \<and> fail_closed_ask \<and> \<not> rule_match_ask\<rparr>)"

definition policy_decision :: "gate_preflight \<Rightarrow> decision option" where
  "policy_decision g =
     combine_decisions
       (combine_decisions (direct g) (map_option into_decision (bash_command g)))
       (map_option into_decision (shell_file g))"

definition policy_forced_prompt :: "gate_preflight \<Rightarrow> bool" where
  "policy_forced_prompt g \<longleftrightarrow> policy_decision g = Some DAsk"

definition some_ask :: "gate_decision option \<Rightarrow> bool" where
  "some_ask g \<longleftrightarrow> (case g of None \<Rightarrow> False | Some d \<Rightarrow> gate_is_ask d)"

definition shell_file_forced_prompt :: "gate_preflight \<Rightarrow> bool" where
  "shell_file_forced_prompt g \<longleftrightarrow> some_ask (shell_file g)"

definition shell_forced_prompt :: "gate_preflight \<Rightarrow> bool" where
  "shell_forced_prompt g \<longleftrightarrow> some_ask (bash_command g) \<or> shell_file_forced_prompt g"

definition defers_gate_ask :: "gate_preflight \<Rightarrow> bool" where
  "defers_gate_ask g \<longleftrightarrow> preflight_defers g"

definition admits_auto_classifier :: "gate_preflight \<Rightarrow> bool" where
  "admits_auto_classifier g \<longleftrightarrow> \<not> policy_forced_prompt g \<or> defers_gate_ask g"

definition prompt_trigger :: "gate_preflight \<Rightarrow> rstr option \<Rightarrow> rstr option" where
  "prompt_trigger g auto_prompt_reason =
     (if direct g = Some DAsk then Some ''policy_ask''
      else if defers_gate_ask g then auto_prompt_reason
      else if some_ask (bash_command g) then Some ''bash_command_gate_ask''
      else if shell_file_forced_prompt g then Some ''shell_file_gate_ask''
      else auto_prompt_reason)"

subsection \<open>What the preflight decides\<close>

definition refuses :: "decision option \<Rightarrow> bool" where
  "refuses d \<longleftrightarrow> (case d of Some (DReject _) \<Rightarrow> True | Some (DPolicyDeny _) \<Rightarrow> True | _ \<Rightarrow> False)"

lemma refuses_combine [simp]: "refuses (combine_decisions a b) \<longleftrightarrow> refuses a \<or> refuses b"
  by (cases "(a, b)" rule: combine_decisions.cases)
    (auto simp: refuses_def decision_rank_def split: decision.splits)

lemma ask_combine [simp]:
  "combine_decisions a b = Some DAsk \<longleftrightarrow>
     (a = Some DAsk \<or> b = Some DAsk) \<and> \<not> refuses a \<and> \<not> refuses b"
  by (cases "(a, b)" rule: combine_decisions.cases)
    (auto simp: refuses_def decision_rank_def split: decision.splits)

lemma into_decision_refuses [simp]: "refuses (map_option into_decision g) \<longleftrightarrow> rejects g"
  by (auto simp: refuses_def into_decision_def rejects_def split: option.splits gate_decision.splits)

lemma into_decision_ask [simp]: "map_option into_decision g = Some DAsk \<longleftrightarrow> some_ask g"
  by (auto simp: some_ask_def gate_is_ask_def into_decision_def split: option.splits gate_decision.splits)

lemma policy_refuses:
  "refuses (policy_decision g) \<longleftrightarrow> refuses (direct g) \<or> rejects (bash_command g) \<or> rejects (shell_file g)"
  by (simp add: policy_decision_def)

lemma policy_asks:
  "policy_decision g = Some DAsk \<longleftrightarrow>
     (direct g = Some DAsk \<or> some_ask (bash_command g) \<or> some_ask (shell_file g)) \<and> \<not> refuses (policy_decision g)"
  unfolding policy_decision_def ask_combine into_decision_ask refuses_combine into_decision_refuses by blast

lemma binding_cases: "binding g \<longleftrightarrow> rejects g \<or> g = Some AskRuleMatch"
  by (simp add: binding_def)

lemma preflight_fields:
  "direct (evaluate_preflight x fs (Some p) access cwd auto) = evaluate_with_cwd x p access (Some cwd)"
  "bash_command (evaluate_preflight x fs (Some p) (AccessBash cmd) cwd auto) = evaluate_bash_command_gate x p cmd"
  "shell_file (evaluate_preflight x fs (Some p) (AccessBash cmd) cwd auto)
     = evaluate_shell_file_access_gate x fs p cmd cwd"
  by (simp_all add: evaluate_preflight_def Let_def bash_gates_def split: prod.splits)

lemma rule_match_never_defers:
  "direct (evaluate_preflight x fs p access cwd auto) = Some DAsk
     \<or> bash_command (evaluate_preflight x fs p access cwd auto) = Some AskRuleMatch
     \<or> shell_file (evaluate_preflight x fs p access cwd auto) = Some AskRuleMatch
   \<Longrightarrow> \<not> defers_gate_ask (evaluate_preflight x fs p access cwd auto)"
  by (auto simp: evaluate_preflight_def defers_gate_ask_def Let_def split: prod.splits)

text \<open>
  What the rules say of an access: of the access itself, of a command that the script of a shell access
  runs, and of a file that the script touches.
\<close>

inductive rules_say ::
  "'pat externals \<Rightarrow> filesystem \<Rightarrow> permission_config \<Rightarrow> rstr \<Rightarrow> 'json access_kind \<Rightarrow> decision \<Rightarrow> bool"
  for x fs c cwd where
  itself: "evaluate_with_cwd x (compile_policy x c) access (Some cwd) = Some d \<Longrightarrow> rules_say x fs c cwd access d"
| hidden: "runs (ext_parse x) max_inline_shell_depth cmd ws
    \<Longrightarrow> evaluate x (compile_policy x c) (AccessBash (join '' '' ws) :: unit access_kind) = Some d
    \<Longrightarrow> rules_say x fs c cwd (AccessBash cmd) d"
| touched: "touches (ext_parse x) max_inline_shell_depth cmd False path mode v
    \<Longrightarrow> q \<in> set (operand_files fs path cwd v)
    \<Longrightarrow> evaluate_with_cwd x (compile_policy x c) (shell_access mode q) (operand_rule_cwd path cwd v) = Some d
    \<Longrightarrow> rules_say x fs c cwd (AccessBash cmd) d"

lemma rules_say_binds:
  fixes auto :: bool
  assumes "rules_say x fs c cwd access d"
  defines "g \<equiv> evaluate_preflight x fs (Some (compile_policy x c)) access cwd auto"
  shows "d = DReject r \<Longrightarrow> refuses (direct g) \<or> rejects (bash_command g) \<or> rejects (shell_file g)"
    and "d = DAsk \<Longrightarrow> direct g = Some DAsk \<or> binding (bash_command g) \<or> binding (shell_file g)"
  using assms(1) unfolding g_def
  by (induction rule: rules_say.induct)
    (auto simp: preflight_fields refuses_def dest: hidden_command hidden_access)

text \<open>
  C7: The preflight keeps what the rules say, in auto mode or not.  If the rules reject the access, a command
  that the gate finds in its script or a file that the gate finds it to touch, the managed decision is a
  rejection.  If they ask about one of them, it is a rejection, or the preflight marks the request as one that
  forces a prompt and as closed to the classifier.  What the manager does with the mark depends on the access
  and is shown for the manager itself: web searches, session-wide edits and fetch allowlists pass it by.
\<close>

theorem rules_are_not_waived:
  fixes auto_mode :: bool
  assumes "rules_say x fs c cwd access d"
  defines "g \<equiv> evaluate_preflight x fs (Some (compile_policy x c)) access cwd auto_mode"
  shows "((\<exists>r. d = DReject r) \<longrightarrow> refuses (policy_decision g))
    \<and> (d = DAsk \<longrightarrow> refuses (policy_decision g) \<or> policy_forced_prompt g \<and> \<not> admits_auto_classifier g)"
proof (intro conjI impI)
  show "refuses (policy_decision g)" if "\<exists>r. d = DReject r"
    using that rules_say_binds(1) [OF assms(1)] by (auto simp: g_def policy_refuses)
  show "refuses (policy_decision g) \<or> policy_forced_prompt g \<and> \<not> admits_auto_classifier g" if "d = DAsk"
  proof (cases "refuses (policy_decision g)")
    case False
    then have match: "direct g = Some DAsk \<or> bash_command g = Some AskRuleMatch \<or> shell_file g = Some AskRuleMatch"
      using rules_say_binds(2) [OF assms(1) that, of auto_mode]
      by (auto simp: g_def policy_refuses binding_cases)
    then have "policy_forced_prompt g"
      unfolding policy_forced_prompt_def policy_asks using False
      by (auto simp: some_ask_def gate_is_ask_def)
    moreover have "\<not> defers_gate_ask g"
      using rule_match_never_defers match unfolding g_def .
    ultimately show ?thesis by (simp add: admits_auto_classifier_def)
  qed simp
qed


theorem rules_are_not_waived_witness:
  "refuses (policy_decision (evaluate_preflight literal_externals plain_filesystem
     (Some (compile_policy literal_externals deny_rm)) (AccessBash ''rm'' :: unit access_kind) ''/w'' True))
   \<and> (let g = evaluate_preflight literal_externals plain_filesystem
        (Some (compile_policy literal_externals
          \<lparr>rules = [bash_rule RAsk ''rm''], config_prompt_policy = PromptAsk\<rparr>)) (AccessBash ''rm'' :: unit access_kind) ''/w'' True
      in policy_forced_prompt g \<and> \<not> admits_auto_classifier g)"
proof (rule conjI)
  have "rules_say literal_externals plain_filesystem deny_rm ''/w'' (AccessBash ''rm'' :: unit access_kind)
      (DReject (deny_reason (bash_rule RDeny ''rm'')))"
    by (rule rules_say.itself) code_simp
  from rules_are_not_waived [OF this, of True]
  show "refuses (policy_decision (evaluate_preflight literal_externals plain_filesystem
     (Some (compile_policy literal_externals deny_rm)) (AccessBash ''rm'' :: unit access_kind) ''/w'' True))"
    by blast
next
  let ?c = "\<lparr>rules = [bash_rule RAsk ''rm''], config_prompt_policy = PromptAsk\<rparr>"
  let ?g = "evaluate_preflight literal_externals plain_filesystem
        (Some (compile_policy literal_externals ?c)) (AccessBash ''rm'' :: unit access_kind) ''/w'' True"
  have "rules_say literal_externals plain_filesystem ?c ''/w'' (AccessBash ''rm'' :: unit access_kind) DAsk"
    by (rule rules_say.itself) code_simp
  from rules_are_not_waived [OF this, of True]
  have "refuses (policy_decision ?g) \<or> policy_forced_prompt ?g \<and> \<not> admits_auto_classifier ?g" by blast
  moreover have "\<not> refuses (policy_decision ?g)" by code_simp
  ultimately show "let g = ?g in policy_forced_prompt g \<and> \<not> admits_auto_classifier g" by (simp add: Let_def)
qed


end
