(* ===== verification/ExecRisk.thy ===== *)
theory ExecRisk
  imports PermissionPolicy
begin

section \<open>Commands that make git and sort run other programs\<close>

text \<open>
  Models \<open>exec_risk.rs\<close>: the options of \<open>git\<close> and \<open>sort\<close> that start programs, the read-only git queries,
  and the scan of a repository's own configuration in the directories a script runs git in.  What libgit2
  and the file system answer is a parameter.
\<close>

subsection \<open>Peeling for the scan\<close>

text \<open>
  \<open>None\<close> is \<open>FailClosed\<close>.  The source compares pointers and lengths; every slice is a suffix of the words,
  so the length decides.
\<close>

fun normalize_exec_rounds :: "nat \<Rightarrow> rstr list \<Rightarrow> rstr list option" where
  "normalize_exec_rounds 0 current = None"
| "normalize_exec_rounds (Suc n) current =
     (let checked = unwrap_wrappers_checked current in
      if peel_exhausted checked \<or> peel_split_string checked \<or> peel_chdir checked then None
      else
        (let after_wrap = peel_words checked in
         case peel_transparent_prefixes after_wrap of
           None \<Rightarrow> None
         | Some after_trans \<Rightarrow>
             if length after_trans = length current \<or> length after_trans = length after_wrap then Some after_trans
             else normalize_exec_rounds n after_trans))"

definition normalize_for_exec_risk :: "rstr list \<Rightarrow> rstr list option" where
  "normalize_for_exec_risk words = normalize_exec_rounds max_normalize_rounds words"

subsection \<open>Options\<close>

definition is_accepted_long_option_prefix :: "rstr \<Rightarrow> rstr \<Rightarrow> nat \<Rightarrow> bool" where
  "is_accepted_long_option_prefix flag full min_len \<longleftrightarrow>
     starts_with flag ''--'' \<and> length flag \<ge> min_len \<and> starts_with full flag
     \<and> list_all (\<lambda>b. ascii_alphabetic b \<or> ascii_digit b \<or> b = CHR ''-'') flag"

definition strip_exe :: "rstr \<Rightarrow> rstr" where
  "strip_exe name = (case strip_suffix ''.exe'' name of Some stem \<Rightarrow> stem | None \<Rightarrow> name)"

definition normalized_program_name :: "rstr list \<Rightarrow> rstr option" where
  "normalized_program_name words =
     (case words of
        [] \<Rightarrow> None
      | raw # _ \<Rightarrow> if basename raw = '''' then None else Some (strip_exe (map ascii_lower (basename raw))))"

definition is_git_program :: "rstr list \<Rightarrow> bool" where
  "is_git_program words \<longleftrightarrow> normalized_program_name words = Some ''git''"

definition is_sort_program :: "rstr list \<Rightarrow> bool" where
  "is_sort_program words \<longleftrightarrow> normalized_program_name words = Some ''sort''"

definition normalized_token_basename :: "rstr \<Rightarrow> rstr" where
  "normalized_token_basename token = strip_exe (map ascii_lower (basename token))"

text \<open>The text before the first \<open>=\<close>, or all of it.\<close>

definition option_name :: "rstr \<Rightarrow> rstr" where
  "option_name w = (case split_once (CHR ''='') w of Some (f, _) \<Rightarrow> f | None \<Rightarrow> w)"

definition is_compress_program :: "rstr \<Rightarrow> bool" where
  "is_compress_program w \<longleftrightarrow>
     w = ''--compress-program'' \<or> starts_with w ''--compress-program=''
     \<or> is_accepted_long_option_prefix (option_name w) ''--compress-program'' 4"

definition sort_has_compress_program_flag :: "rstr list \<Rightarrow> bool" where
  "sort_has_compress_program_flag words =
     list_ex is_compress_program (takeWhile (\<lambda>w. w \<noteq> ''--'') (drop 1 words))"

definition is_git_config_env_flag :: "rstr \<Rightarrow> bool" where
  "is_git_config_env_flag tok \<longleftrightarrow>
     tok = ''--config-env'' \<or> starts_with tok ''--config-env=''
     \<or> is_accepted_long_option_prefix (option_name tok) ''--config-env'' 4"

definition is_git_repo_retarget_flag :: "rstr \<Rightarrow> bool" where
  "is_git_repo_retarget_flag tok \<longleftrightarrow>
     tok = ''--git-dir'' \<or> starts_with tok ''--git-dir='' \<or> tok = ''--work-tree'' \<or> starts_with tok ''--work-tree=''
     \<or> is_accepted_long_option_prefix (option_name tok) ''--git-dir'' 4
     \<or> is_accepted_long_option_prefix (option_name tok) ''--work-tree'' 4"

definition is_attached_git_config_c :: "rstr \<Rightarrow> bool" where
  "is_attached_git_config_c tok \<longleftrightarrow> starts_with tok ''-c'' \<and> length tok > 2 \<and> \<not> starts_with tok ''--''"

definition attached_git_c_path :: "rstr \<Rightarrow> rstr option" where
  "attached_git_c_path tok =
     (case strip_prefix ''-C'' tok of
        Some rest \<Rightarrow> if rest \<noteq> '''' \<and> \<not> starts_with tok ''--'' then Some rest else None
      | None \<Rightarrow> None)"

definition git_value_options :: "rstr list" where
  "git_value_options = [''-C'', ''-c'', ''--git-dir'', ''--work-tree'', ''--namespace'', ''--super-prefix'',
     ''--exec-path'', ''--list-cmds'', ''--attr-source'', ''--config-env'']"

definition git_global_option_takes_value :: "rstr \<Rightarrow> bool" where
  "git_global_option_takes_value tok \<longleftrightarrow>
     tok \<in> set git_value_options
     \<or> list_ex (\<lambda>(full, n). is_accepted_long_option_prefix tok full n)
         [(''--config-env'', 4), (''--git-dir'', 4), (''--work-tree'', 4), (''--namespace'', 7),
          (''--super-prefix'', 8), (''--exec-path'', 7), (''--list-cmds'', 7), (''--attr-source'', 8)]"

text \<open>A word the option before it takes as its value.\<close>

definition plain_value :: "rstr \<Rightarrow> bool" where
  "plain_value n \<longleftrightarrow> \<not> starts_with n ''-'' \<or> n = ''-''"

definition takes_next :: "rstr \<Rightarrow> rstr list \<Rightarrow> bool" where
  "takes_next tok rest \<longleftrightarrow>
     CHR ''='' \<notin> set tok \<and> git_global_option_takes_value tok
     \<and> (case rest of [] \<Rightarrow> False | n # _ \<Rightarrow> plain_value n)"

text \<open>The scan over the global options; the argument is what follows the program.\<close>

fun git_globals_risk :: "rstr list \<Rightarrow> bool" where
  "git_globals_risk [] = False"
| "git_globals_risk (tok # rest) =
     (if tok = ''--'' then False
      else if plain_value tok then False
      else if tok = ''-c'' \<or> is_attached_git_config_c tok \<or> is_git_config_env_flag tok
              \<or> is_git_repo_retarget_flag tok then True
      else if attached_git_c_path tok \<noteq> None then git_globals_risk rest
      else git_globals_risk (if takes_next tok rest then drop 1 rest else rest))"

definition git_has_exec_risk_global :: "rstr list \<Rightarrow> bool" where
  "git_has_exec_risk_global words = git_globals_risk (drop 1 words)"

definition segment_has_exec_risk_flag :: "rstr list \<Rightarrow> bool" where
  "segment_has_exec_risk_flag words =
     (if is_sort_program words then sort_has_compress_program_flag words
      else if is_git_program words then git_has_exec_risk_global words
      else False)"

record segment_exec_facts =
  exec_risk :: bool
  has_git :: bool

definition segment_exec_facts_of :: "rstr list \<Rightarrow> segment_exec_facts" where
  "segment_exec_facts_of words =
     (case normalize_for_exec_risk words of
        None \<Rightarrow> \<lparr>exec_risk = True, has_git = False\<rparr>
      | Some inner \<Rightarrow> \<lparr>exec_risk = segment_has_exec_risk_flag inner, has_git = is_git_program inner\<rparr>)"

subsection \<open>Read-only queries\<close>

definition safe_git_subcommands :: "rstr list" where
  "safe_git_subcommands = [''status'', ''branch'', ''log'', ''diff'', ''ls-files'', ''show'', ''rev-parse'',
     ''blame'', ''grep'', ''describe'', ''merge-base'', ''check-ignore'', ''check-attr'', ''cat-file'',
     ''ls-tree'', ''show-ref'', ''for-each-ref'', ''rev-list'', ''name-rev'', ''count-objects'', ''shortlog'']"

definition git_query_unsafe_options :: "rstr list" where
  "git_query_unsafe_options = [''--filters'', ''--textconv'', ''--output'', ''--ext-diff'', ''--open-files-in-pager'']"

definition git_query_option_is_unsafe :: "rstr \<Rightarrow> bool" where
  "git_query_option_is_unsafe word =
     (let flag = takeWhile (\<lambda>c. c \<noteq> CHR ''='') word
      in length flag > 2 \<and> list_ex (\<lambda>full. starts_with full flag) git_query_unsafe_options)"

text \<open>The words from the subcommand on; the source returns its index.\<close>

fun git_query_from :: "nat \<Rightarrow> rstr list \<Rightarrow> nat option" where
  "git_query_from i [] = None"
| "git_query_from i (tok # rest) =
     (if tok = ''-'' \<or> tok = ''--'' then None
      else if \<not> starts_with tok ''-'' then Some i
      else if tok = ''-C'' then (case rest of [] \<Rightarrow> None | _ # rest' \<Rightarrow> git_query_from (i + 2) rest')
      else if attached_git_c_path tok \<noteq> None \<or> tok = ''--no-pager'' \<or> tok = ''-P'' then git_query_from (i + 1) rest
      else None)"

definition git_safe_query_verb_index :: "rstr list \<Rightarrow> nat option" where
  "git_safe_query_verb_index words = git_query_from 1 (drop 1 words)"

definition git_words_have_unsafe_query_option :: "rstr list \<Rightarrow> bool" where
  "git_words_have_unsafe_query_option words =
     (if take 1 words \<noteq> [''git''] then False
      else list_ex git_query_option_is_unsafe (drop 1 words)
        \<or> (case git_safe_query_verb_index words of
             Some i \<Rightarrow> words ! i = ''grep'' \<and> list_ex (\<lambda>w. starts_with w ''-O'') (drop 1 words)
           | None \<Rightarrow> False))"

definition git_words_are_read_only_query :: "rstr list \<Rightarrow> bool" where
  "git_words_are_read_only_query words =
     (if take 1 words \<noteq> [''git''] then False
      else if git_has_exec_risk_global words then False
      else
        (case git_safe_query_verb_index words of
           None \<Rightarrow> False
         | Some i \<Rightarrow>
             if words ! i \<notin> set safe_git_subcommands then False
             else \<not> git_words_have_unsafe_query_option words))"

subsection \<open>The configuration of a repository\<close>

text \<open>
  What libgit2 and the file system answer: the repository a directory lies in, how a file opens (with
  whether it is a regular file, unless the metadata cannot be read), and git's reading of a boolean.
\<close>

datatype config_level = LevelLocal | LevelWorktree | LevelOther

record config_entry =
  entry_level :: config_level
  entry_name :: "rstr option"
  entry_value :: "rstr option"

record git_repository =
  repo_path :: rstr
  repo_commondir :: rstr
  repo_entries :: "config_entry option list option"

datatype discovery = NoRepository | DiscoveryFailed | Discovered git_repository

datatype open_result = OpenedFile "bool option" | FileMissing | OpenFailed

record git_access =
  git_discover :: "rstr \<Rightarrow> discovery"
  git_open :: "rstr \<Rightarrow> open_result"
  git_parse_bool :: "rstr \<Rightarrow> bool option"

definition local_git_config_entry_is_exec :: "git_access \<Rightarrow> rstr \<Rightarrow> rstr \<Rightarrow> bool" where
  "local_git_config_entry_is_exec ga entry val =
     (let name = map ascii_lower entry; v = trim val in
      if v = '''' then False
      else if name = ''core.fsmonitor'' then git_parse_bool ga v = None
      else if name = ''diff.external'' then True
      else
        (case strip_prefix ''diff.'' name of
           Some rest \<Rightarrow> ends_with rest ''.command'' \<or> ends_with rest ''.textconv'' \<or> ends_with rest ''.external''
         | None \<Rightarrow> False)
        \<or> (case strip_prefix ''alias.'' name of
             Some alias \<Rightarrow> alias \<in> set safe_git_subcommands \<and> starts_with v ''!''
           | None \<Rightarrow> False))"

definition path_unreadable :: "git_access \<Rightarrow> rstr \<Rightarrow> bool" where
  "path_unreadable ga path =
     (case git_open ga path of
        OpenedFile (Some is_file) \<Rightarrow> \<not> is_file
      | OpenedFile None \<Rightarrow> True
      | FileMissing \<Rightarrow> False
      | OpenFailed \<Rightarrow> True)"

fun entries_have_exec_risk :: "git_access \<Rightarrow> config_entry option list \<Rightarrow> bool" where
  "entries_have_exec_risk ga [] = False"
| "entries_have_exec_risk ga (None # rest) = True"
| "entries_have_exec_risk ga (Some e # rest) =
     (if entry_level e = LevelOther then entries_have_exec_risk ga rest
      else if local_git_config_entry_is_exec ga (case entry_name e of Some s \<Rightarrow> s | None \<Rightarrow> '''')
                (case entry_value e of Some s \<Rightarrow> s | None \<Rightarrow> '''') then True
      else entries_have_exec_risk ga rest)"

definition local_repo_config_has_exec_risk :: "git_access \<Rightarrow> rstr \<Rightarrow> bool" where
  "local_repo_config_has_exec_risk ga cwd =
     (case git_discover ga cwd of
        NoRepository \<Rightarrow> False
      | DiscoveryFailed \<Rightarrow> True
      | Discovered repo \<Rightarrow>
          if path_unreadable ga (path_push (repo_commondir repo) ''config'')
             \<or> path_unreadable ga (path_push (repo_path repo) ''config'')
             \<or> path_unreadable ga (path_push (repo_path repo) ''config.worktree'') then True
          else (case repo_entries repo of None \<Rightarrow> True | Some es \<Rightarrow> entries_have_exec_risk ga es))"

subsection \<open>The directories git runs in\<close>

definition is_static_path_operand :: "rstr \<Rightarrow> bool" where
  "is_static_path_operand p \<longleftrightarrow>
     p \<noteq> '''' \<and> p \<noteq> ''-'' \<and> \<not> starts_with p ''-'' \<and> CHR ''$'' \<notin> set p \<and> CHR 0x60 \<notin> set p \<and> \<not> contains p ''$(''"

definition join_cwd :: "rstr \<Rightarrow> rstr \<Rightarrow> rstr" where
  "join_cwd base operand = (if path_is_absolute operand then operand else path_push base operand)"

text \<open>The operand of \<open>cd\<close>; \<open>None\<close> is the early return.\<close>

fun chdir_target :: "rstr option \<Rightarrow> rstr list \<Rightarrow> rstr option" where
  "chdir_target target [] = target"
| "chdir_target target (tok # args) =
     (if tok = ''--'' then (case args of [] \<Rightarrow> None | t # _ \<Rightarrow> Some t)
      else if starts_with tok ''-'' then None
      else if target \<noteq> None then None
      else chdir_target (Some tok) args)"

definition apply_literal_chdir :: "rstr \<Rightarrow> rstr list \<Rightarrow> rstr option" where
  "apply_literal_chdir cwd words =
     (case chdir_target None (drop 1 words) of
        None \<Rightarrow> None
      | Some t \<Rightarrow> if \<not> is_static_path_operand t then None else Some (join_cwd cwd t))"

fun git_cwd_from :: "rstr \<Rightarrow> rstr list \<Rightarrow> rstr option" where
  "git_cwd_from cwd [] = Some cwd"
| "git_cwd_from cwd (tok # rest) =
     (if tok = ''--'' \<or> plain_value tok then Some cwd
      else if is_git_repo_retarget_flag tok then None
      else if tok = ''-C'' then
        (case rest of
           [] \<Rightarrow> None
         | path # rest' \<Rightarrow> if \<not> is_static_path_operand path then None else git_cwd_from (join_cwd cwd path) rest')
      else
        (case attached_git_c_path tok of
           Some path \<Rightarrow> if \<not> is_static_path_operand path then None else git_cwd_from (join_cwd cwd path) rest
         | None \<Rightarrow> git_cwd_from cwd (if takes_next tok rest then drop 1 rest else rest)))"

definition git_effective_cwd :: "rstr list \<Rightarrow> rstr \<Rightarrow> rstr option" where
  "git_effective_cwd words start_cwd = git_cwd_from start_cwd (drop 1 words)"

datatype ambient_scan_plan = ScanFailClosed | CheckDirs "rstr list"

fun scan_segments :: "rstr \<Rightarrow> rstr list \<Rightarrow> rstr list list \<Rightarrow> rstr list option" where
  "scan_segments cwd git_cwds [] = Some git_cwds"
| "scan_segments cwd git_cwds (raw # rest) =
     (case normalize_for_exec_risk raw of
        None \<Rightarrow> None
      | Some words \<Rightarrow>
          (let program = normalized_program_name words in
           if program = Some ''cd'' \<or> program = Some ''pushd'' then
             (case apply_literal_chdir cwd words of None \<Rightarrow> None | Some next_cwd \<Rightarrow> scan_segments next_cwd git_cwds rest)
           else if program = Some ''popd'' then None
           else if program = Some ''git'' then
             (case git_effective_cwd words cwd of
                None \<Rightarrow> None | Some effective \<Rightarrow> scan_segments cwd (git_cwds @ [effective]) rest)
           else scan_segments cwd git_cwds rest))"

definition ambient_scan_plan_from_segments :: "rstr list list \<Rightarrow> rstr \<Rightarrow> ambient_scan_plan" where
  "ambient_scan_plan_from_segments raw_segments session_cwd =
     (case scan_segments session_cwd [] raw_segments of
        None \<Rightarrow> ScanFailClosed
      | Some git_cwds \<Rightarrow> if git_cwds = [] then ScanFailClosed else CheckDirs git_cwds)"

definition ambient_exec_risk_from_plan :: "git_access \<Rightarrow> ambient_scan_plan \<Rightarrow> bool" where
  "ambient_exec_risk_from_plan ga plan =
     (case plan of ScanFailClosed \<Rightarrow> True | CheckDirs dirs \<Rightarrow> list_ex (local_repo_config_has_exec_risk ga) dirs)"

subsection \<open>A script that does not parse\<close>

definition token_separator :: "rstr \<Rightarrow> bool" where
  "token_separator c \<longleftrightarrow>
     is_whitespace c \<or> c \<in> set [''|'', ''&'', '';'', ''('', '')'', [CHR 0x60], nl, ''<'', ''>'']"

definition trim_quotes :: "rstr \<Rightarrow> rstr" where
  "trim_quotes s =
     (let q = (\<lambda>c. c = squote \<or> c = dquote \<or> c = CHR 0x60) in drop_end q (dropWhile q s))"

definition script_may_invoke_git :: "rstr \<Rightarrow> bool" where
  "script_may_invoke_git cmd =
     list_ex (\<lambda>chars. let trimmed = trim_quotes (concat chars) in
                 trimmed \<noteq> '''' \<and> normalized_token_basename trimmed = ''git'')
       (split_when token_separator (chars_of cmd))"


subsection \<open>The two normalisations agree\<close>

lemma normalize_exec_normal:
  "normalize_exec_rounds n ws = Some inner \<Longrightarrow> peel_step\<^sup>*\<^sup>* ws inner \<and> \<not> still_peelable inner"
proof (induction n ws rule: normalize_exec_rounds.induct)
  case (2 n ws)
  let ?w = "unwrap_wrappers_checked ws"
  from 2(2) have ok: "\<not> peel_exhausted ?w" by (auto simp: Let_def split: if_splits)
  from 2(2) obtain next_words where t: "peel_transparent_prefixes (peel_words ?w) = Some next_words"
    by (auto simp: Let_def split: if_splits option.splits)
  then have steps: "peel_step\<^sup>*\<^sup>* ws next_words"
    using unwrap_steps [of ws] peel_transparent_steps by (auto simp: peel_transparent_prefixes_def intro: rtranclp_trans)
  show ?case
  proof (cases "length next_words = length ws \<or> length next_words = length (peel_words ?w)")
    case True
    then have "inner = next_words" using 2(2) t by (auto simp: Let_def split: if_splits)
    then show ?thesis using steps round_fixed [OF ok t True] by simp
  next
    case False
    then have "normalize_exec_rounds n next_words = Some inner"
      using 2(2) t by (auto simp: Let_def split: if_splits)
    then have "peel_step\<^sup>*\<^sup>* next_words inner \<and> \<not> still_peelable inner"
      using 2(1) [of ?w "peel_words ?w" next_words] 2(2) t False by (auto simp: Let_def split: if_splits)
    then show ?thesis using steps by (auto intro: rtranclp_trans)
  qed
qed simp

lemma exec_normal_form:
  assumes "normalize_for_exec_risk words = Some inner"
  shows "peel_step\<^sup>*\<^sup>* words inner" and "\<not> peel_step inner v"
  using normalize_exec_normal [of max_normalize_rounds words inner] assms still_peelable_iff
  by (auto simp: normalize_for_exec_risk_def)

lemma normal_form_unique:
  assumes "peel_step\<^sup>*\<^sup>* ws a" "\<And>v. \<not> peel_step a v" "peel_step\<^sup>*\<^sup>* ws b" "\<And>v. \<not> peel_step b v"
  shows "a = b"
proof -
  have "peel_step\<^sup>*\<^sup>* a b"
    by (rule deterministic_confluent [of peel_step, OF _ assms(1,3,4)]) (rule peel_step_deterministic)
  then show ?thesis by (cases rule: converse_rtranclpE) (use assms(2) in auto)
qed

text \<open>
  The scan for execution risks and the gate of the permission rules look at the same command, though
  each has its own loop to peel it: when the one returns words and the other raises none of its flags, the
  words are the same, and nothing is left to peel off.
\<close>

theorem normalizations_find_same_command:
  assumes "normalize_for_exec_risk words = Some inner" "unflagged (normalize_command_words words)"
  shows "norm_words (normalize_command_words words) = inner \<and> \<not> still_peelable inner"
proof -
  have final: "\<not> peel_step (norm_words (normalize_command_words words)) v" for v
    using unflagged_final [OF assms(2)] still_peelable_iff by blast
  have "norm_words (normalize_command_words words) = inner"
    by (rule normal_form_unique [OF normalize_steps final exec_normal_form [OF assms(1)]])
  then show ?thesis using unflagged_final [OF assms(2)] by simp
qed

theorem normalizations_find_same_command_witness:
  "norm_words (normalize_command_words [''timeout'', ''5'', ''command'', ''git'', ''log'']) = [''git'', ''log'']
   \<and> \<not> still_peelable [''git'', ''log'']"
  by (rule normalizations_find_same_command) code_simp+

subsection \<open>What a read-only query looks like\<close>

text \<open>The global options a query may have: a change of directory and the pager.\<close>

inductive benign_globals :: "rstr list \<Rightarrow> bool" where
  none: "benign_globals []"
| separate: "benign_globals gs \<Longrightarrow> benign_globals (''-C'' # p # gs)"
| attached: "attached_git_c_path tok \<noteq> None \<Longrightarrow> benign_globals gs \<Longrightarrow> benign_globals (tok # gs)"
| pager: "tok \<in> {''--no-pager'', ''-P''} \<Longrightarrow> benign_globals gs \<Longrightarrow> benign_globals (tok # gs)"

lemma git_query_from_shape:
  "git_query_from i ws = Some j \<Longrightarrow>
     \<exists>gs verb args. ws = gs @ verb # args \<and> benign_globals gs \<and> \<not> starts_with verb ''-'' \<and> j = i + length gs"
proof (induction i ws rule: git_query_from.induct)
  case (2 i tok rest)
  consider (verb) "\<not> starts_with tok ''-''" "j = i"
    | (separate) p rest' where "tok = ''-C''" "rest = p # rest'" "git_query_from (i + 2) rest' = Some j"
    | (single) "attached_git_c_path tok \<noteq> None \<or> tok \<in> {''--no-pager'', ''-P''}"
        "git_query_from (i + 1) rest = Some j" "starts_with tok ''-''" "tok \<noteq> ''-C''" "tok \<noteq> ''-''" "tok \<noteq> ''--''"
    using 2(3) by (auto split: if_split_asm list.split_asm)
  then show ?case
  proof cases
    case verb
    then show ?thesis
      by (intro exI [of _ "[]"] exI [of _ tok] exI [of _ rest]) (simp add: benign_globals.none)
  next
    case separate
    then obtain gs verb args where "rest' = gs @ verb # args" "benign_globals gs" "\<not> starts_with verb ''-''"
        "j = i + 2 + length gs"
      using 2(1) by (fastforce simp: starts_with_def)
    then show ?thesis
      using separate by (intro exI [of _ "''-C'' # p # gs"] exI [of _ verb] exI [of _ args])
        (auto intro: benign_globals.separate)
  next
    case single
    then obtain gs verb args where "rest = gs @ verb # args" "benign_globals gs" "\<not> starts_with verb ''-''"
        "j = i + 1 + length gs"
      using 2(2) by (auto simp: starts_with_def)
    then show ?thesis
      using single by (intro exI [of _ "tok # gs"] exI [of _ verb] exI [of _ args])
        (auto intro: benign_globals.attached benign_globals.pager)
  qed
qed simp

text \<open>
  A git command is taken for a read-only query only if it is \<open>git\<close> itself, then only global options
  that change the directory or the pager, then a verb of the read-only list, and no word, before or after
  the verb, is or abbreviates an option that runs a driver or a pager or writes a file.
\<close>

theorem read_only_query_shape:
  assumes "git_words_are_read_only_query words"
  shows "\<exists>gs verb args. words = ''git'' # gs @ verb # args \<and> benign_globals gs
    \<and> verb \<in> set safe_git_subcommands \<and> \<not> list_ex git_query_option_is_unsafe (gs @ verb # args)
    \<and> \<not> (verb = ''grep'' \<and> list_ex (\<lambda>w. starts_with w ''-O'') (gs @ verb # args))"
proof -
  obtain i where i: "take 1 words = [''git'']" "git_query_from 1 (drop 1 words) = Some i"
      "words ! i \<in> set safe_git_subcommands" "\<not> git_words_have_unsafe_query_option words"
    using assms by (auto simp: git_words_are_read_only_query_def git_safe_query_verb_index_def split: if_split_asm option.split_asm)
  from git_query_from_shape [OF i(2)] obtain gs verb args
    where shape: "drop 1 words = gs @ verb # args" "benign_globals gs" "i = 1 + length gs" by auto
  then have words: "words = ''git'' # gs @ verb # args" using i(1) by (cases words) auto
  then have "words ! i = verb" using shape(3) by (simp add: nth_append)
  then show ?thesis
    using words i shape unfolding git_words_have_unsafe_query_option_def git_safe_query_verb_index_def
    by (intro exI [of _ gs] exI [of _ verb] exI [of _ args]) auto
qed

theorem read_only_query_shape_witness:
  "\<exists>gs verb args. [''git'', ''-C'', ''/w'', ''log'', ''-n'', ''1''] = ''git'' # gs @ verb # args \<and> benign_globals gs
    \<and> verb \<in> set safe_git_subcommands \<and> \<not> list_ex git_query_option_is_unsafe (gs @ verb # args)
    \<and> \<not> (verb = ''grep'' \<and> list_ex (\<lambda>w. starts_with w ''-O'') (gs @ verb # args))"
  by (rule read_only_query_shape) code_simp


subsection \<open>A cleared script runs git only in clean repositories\<close>

text \<open>
  Where the commands of a script run when each \<open>cd\<close> is taken and succeeds: a \<open>cd\<close> or \<open>pushd\<close> with one
  literal directory goes there, any other may go anywhere, and so may \<open>popd\<close>.  The words are those that
  remain when nothing more can be peeled off.
\<close>

inductive cd_operand :: "rstr list \<Rightarrow> rstr \<Rightarrow> bool" where
  only: "is_static_path_operand t \<Longrightarrow> cd_operand [t] t"
| after_dashes: "is_static_path_operand t \<Longrightarrow> cd_operand (''--'' # t # ts) t"
| last_wins: "\<not> starts_with a ''-'' \<Longrightarrow> is_static_path_operand t \<Longrightarrow> cd_operand (a # ''--'' # t # ts) t"

inductive moves_to :: "rstr \<Rightarrow> rstr list \<Rightarrow> rstr \<Rightarrow> bool" where
  literal: "normalized_program_name ws \<in> {Some ''cd'', Some ''pushd''} \<Longrightarrow> cd_operand (drop 1 ws) t
    \<Longrightarrow> moves_to cwd ws (join_cwd cwd t)"
| anywhere: "normalized_program_name ws \<in> {Some ''cd'', Some ''pushd''} \<Longrightarrow> \<not> Ex (cd_operand (drop 1 ws))
    \<Longrightarrow> moves_to cwd ws d"
| returns: "normalized_program_name ws = Some ''popd'' \<Longrightarrow> moves_to cwd ws d"
| stays: "normalized_program_name ws \<notin> {Some ''cd'', Some ''pushd'', Some ''popd''} \<Longrightarrow> moves_to cwd ws cwd"

definition peels_to :: "rstr list \<Rightarrow> rstr list \<Rightarrow> bool" where
  "peels_to raw ws \<longleftrightarrow> peel_step\<^sup>*\<^sup>* raw ws \<and> (\<nexists>v. peel_step ws v)"

inductive runs_in :: "rstr \<Rightarrow> rstr list list \<Rightarrow> rstr list \<Rightarrow> rstr \<Rightarrow> bool" where
  here: "peels_to raw ws \<Longrightarrow> runs_in cwd (raw # rest) ws cwd"
| later: "peels_to raw v \<Longrightarrow> moves_to cwd v cwd' \<Longrightarrow> runs_in cwd' rest ws d \<Longrightarrow> runs_in cwd (raw # rest) ws d"

text \<open>The directories of the options \<open>-C\<close>, in order.\<close>

fun chdir_options :: "rstr list \<Rightarrow> rstr list" where
  "chdir_options [] = []"
| "chdir_options (tok # rest) =
     (if tok = ''-C'' then (case rest of [] \<Rightarrow> [] | p # rest' \<Rightarrow> p # chdir_options rest')
      else (case attached_git_c_path tok of Some p \<Rightarrow> p # chdir_options rest | None \<Rightarrow> chdir_options rest))"

lemma static_not_dash: "is_static_path_operand t \<Longrightarrow> \<not> starts_with t ''-''"
  by (simp add: is_static_path_operand_def)

lemma chdir_target_rest:
  "chdir_target (Some a) args = Some t \<Longrightarrow> args = [] \<and> t = a \<or> (\<exists>ts. args = ''--'' # t # ts)"
  by (cases args) (auto split: if_split_asm list.split_asm)

lemma literal_chdir_operand:
  assumes "apply_literal_chdir cwd ws = Some c"
  obtains t where "cd_operand (drop 1 ws) t" "c = join_cwd cwd t"
proof -
  from assms obtain t where t: "chdir_target None (drop 1 ws) = Some t" "is_static_path_operand t" "c = join_cwd cwd t"
    by (auto simp: apply_literal_chdir_def split: option.split_asm if_split_asm)
  have "cd_operand (drop 1 ws) t"
  proof (cases "drop 1 ws")
    case Nil
    with t(1) show ?thesis by simp
  next
    case (Cons a args)
    show ?thesis
    proof (cases "a = ''--''")
      case True
      with t(1,2) Cons show ?thesis by (cases args) (auto intro: cd_operand.after_dashes)
    next
      case False
      with t(1) Cons have "chdir_target (Some a) args = Some t" "\<not> starts_with a ''-''"
        by (auto split: if_split_asm)
      with chdir_target_rest [of a args t] t(2) Cons show ?thesis
        by (auto intro: cd_operand.only cd_operand.last_wins)
    qed
  qed
  with t(3) that show thesis by blast
qed

lemma cd_operand_unique: "cd_operand args a \<Longrightarrow> cd_operand args b \<Longrightarrow> a = b"
  by (auto elim!: cd_operand.cases dest: static_not_dash simp: starts_with_def)

lemma literal_chdir_moves:
  assumes "apply_literal_chdir cwd ws = Some c" "moves_to cwd ws d"
    and "normalized_program_name ws \<in> {Some ''cd'', Some ''pushd''}"
  shows "d = c"
proof -
  obtain t where t: "cd_operand (drop 1 ws) t" "c = join_cwd cwd t"
    using literal_chdir_operand [OF assms(1)] .
  from assms(2) show ?thesis
  proof cases
    case (literal t')
    then show ?thesis using t cd_operand_unique [OF t(1)] by blast
  next
    case anywhere
    then show ?thesis using t(1) by blast
  qed (use assms(3) in auto)
qed

lemma other_program_stays:
  "moves_to cwd ws d \<Longrightarrow> normalized_program_name ws \<notin> {Some ''cd'', Some ''pushd'', Some ''popd''} \<Longrightarrow> d = cwd"
  by (cases rule: moves_to.cases) auto

lemma option_shapes [simp]:
  "\<not> plain_value ''-C''" "\<not> plain_value ''--no-pager''" "\<not> plain_value ''-P''"
  "attached_git_c_path ''-C'' = None" "attached_git_c_path ''--no-pager'' = None" "attached_git_c_path ''-P'' = None"
  "\<not> takes_next ''--no-pager'' rest" "\<not> takes_next ''-P'' rest"
  by (code_simp, code_simp, code_simp, code_simp, code_simp, code_simp)
    (auto simp: takes_next_def git_global_option_takes_value_def git_value_options_def
      is_accepted_long_option_prefix_def starts_with_def)

lemma attached_shape:
  assumes "attached_git_c_path tok = Some p"
  shows "tok \<noteq> ''-C'' \<and> tok \<noteq> ''--'' \<and> \<not> plain_value tok"
proof -
  from assms have "take 2 tok = ''-C''" "drop 2 tok \<noteq> ''''"
    by (auto simp: numeral_2_eq_2 attached_git_c_path_def strip_prefix_def starts_with_def split: if_split_asm)
  then obtain c rest where "tok = ''-C'' @ c # rest"
    by (metis append_take_drop_id neq_Nil_conv)
  then show ?thesis by (auto simp: plain_value_def starts_with_def)
qed

lemma git_cwd_benign:
  "benign_globals gs \<Longrightarrow> \<not> starts_with verb ''-'' \<Longrightarrow> git_cwd_from cwd (gs @ verb # args) = Some e
   \<Longrightarrow> e = foldl join_cwd cwd (chdir_options gs)"
proof (induction gs arbitrary: cwd rule: benign_globals.induct)
  case none
  then show ?case by (simp add: plain_value_def)
next
  case (separate gs p)
  then show ?case by (simp split: if_split_asm)
next
  case (attached tok gs)
  then obtain p where p: "attached_git_c_path tok = Some p" by auto
  with attached attached_shape [OF p] show ?case by (simp split: if_split_asm)
next
  case (pager tok gs)
  then show ?case by (auto split: if_split_asm)
qed

lemma scan_extends: "scan_segments cwd ds raws = Some es \<Longrightarrow> set ds \<subseteq> set es"
  by (induction cwd ds raws rule: scan_segments.induct)
    (auto simp: Let_def split: option.split_asm if_split_asm)

lemma peels_to_exec:
  assumes "normalize_for_exec_risk raw = Some inner" "peels_to raw ws"
  shows "inner = ws"
  using assms(2) unfolding peels_to_def
  by (intro normal_form_unique [OF exec_normal_form [OF assms(1)]]) auto

text \<open>The scan visits the directory of every git command.\<close>

lemma scan_visits:
  assumes "runs_in cwd raws ws d" "scan_segments cwd ds raws = Some es" "is_git_program ws"
  shows "\<exists>e. git_effective_cwd ws d = Some e \<and> e \<in> set es"
  using assms
proof (induction arbitrary: ds rule: runs_in.induct)
  case (here raw ws cwd rest)
  then obtain inner where "normalize_for_exec_risk raw = Some inner" by (auto split: option.split_asm)
  with peels_to_exec [OF this here(1)] here(2,3) obtain e
    where "git_effective_cwd ws cwd = Some e" "scan_segments cwd (ds @ [e]) rest = Some es"
    by (auto simp: is_git_program_def split: option.split_asm)
  then show ?case using scan_extends by force
next
  case (later raw v cwd cwd' rest ws d)
  then obtain inner where inner: "normalize_for_exec_risk raw = Some inner" by (auto split: option.split_asm)
  then have [simp]: "inner = v" using peels_to_exec later(1) by blast
  have "\<exists>ds'. scan_segments cwd' ds' rest = Some es"
  proof (cases "normalized_program_name v \<in> {Some ''cd'', Some ''pushd''}")
    case True
    then obtain c where c: "apply_literal_chdir cwd v = Some c" "scan_segments c ds rest = Some es"
      using later(5) inner by (auto simp: Let_def split: option.split_asm)
    then show ?thesis using literal_chdir_moves [OF c(1) later(2) True] by blast
  next
    case False
    then have "normalized_program_name v \<noteq> Some ''popd''" using later(5) inner by auto
    with False have "cwd' = cwd" using other_program_stays [OF later(2)] by blast
    with False later(5) inner show ?thesis
      by (auto simp: Let_def split: option.split_asm if_split_asm)
  qed
  then show ?case using later(4,6) by blast
qed

text \<open>
  When the scan clears a script whose changes of directory are all taken, every git command it runs, at
  the end of the \<open>cd\<close>s before it and of its own options \<open>-C\<close>, runs in a directory whose repository, if any,
  could be read and has no entry of its own that makes git start a program.
\<close>

theorem cleared_git_is_clean:
  assumes "\<not> ambient_exec_risk_from_plan ga (ambient_scan_plan_from_segments raws cwd)"
    and "runs_in cwd raws (program # gs @ verb # args) d" "is_git_program (program # gs @ verb # args)"
    and "benign_globals gs" "\<not> starts_with verb ''-''"
  shows "\<not> local_repo_config_has_exec_risk ga (foldl join_cwd d (chdir_options gs))"
proof -
  obtain es where es: "scan_segments cwd [] raws = Some es" "\<not> list_ex (local_repo_config_has_exec_risk ga) es"
    using assms(1) by (auto simp: ambient_exec_risk_from_plan_def ambient_scan_plan_from_segments_def
        split: option.split_asm if_split_asm)
  obtain e where e: "git_cwd_from d (gs @ verb # args) = Some e" "e \<in> set es"
    using scan_visits [OF assms(2) es(1) assms(3)] by (auto simp: git_effective_cwd_def)
  then show ?thesis
    using git_cwd_benign [OF assms(4,5) e(1)] es(2) by (simp add: list_ex_iff)
qed

text \<open>A repository whose own configuration is clean, and one with a file system monitor.\<close>

definition one_repository :: "rstr \<Rightarrow> config_entry list \<Rightarrow> git_access" where
  "one_repository root es =
     \<lparr>git_discover = (\<lambda>d. if starts_with d root
        then Discovered \<lparr>repo_path = root @ ''/.git/'', repo_commondir = root @ ''/.git/'', repo_entries = Some (map Some es)\<rparr>
        else NoRepository),
      git_open = (\<lambda>_. FileMissing), git_parse_bool = parse_bool\<rparr>"

definition fsmonitor_entry :: config_entry where
  "fsmonitor_entry = \<lparr>entry_level = LevelLocal, entry_name = Some ''core.fsmonitor'', entry_value = Some ''./x''\<rparr>"

theorem cleared_git_is_clean_witness:
  "\<not> local_repo_config_has_exec_risk (one_repository ''/evil'' [fsmonitor_entry])
      (foldl join_cwd ''/w/a'' (chdir_options [''-C'', ''b'']))"
proof (rule cleared_git_is_clean [where program = "''git''" and verb = "''log''" and args = "[]"])
  show "\<not> ambient_exec_risk_from_plan (one_repository ''/evil'' [fsmonitor_entry])
      (ambient_scan_plan_from_segments [[''cd'', ''a''], [''git'', ''-C'', ''b'', ''log'']] ''/w'')"
    by code_simp
  have "peels_to ws ws" if "normalize_for_exec_risk ws = Some ws" for ws
    using exec_normal_form [OF that] by (auto simp: peels_to_def)
  moreover have "normalize_for_exec_risk [''cd'', ''a''] = Some [''cd'', ''a'']"
      "normalize_for_exec_risk [''git'', ''-C'', ''b'', ''log''] = Some [''git'', ''-C'', ''b'', ''log'']"
    by code_simp+
  ultimately have peels: "peels_to [''cd'', ''a''] [''cd'', ''a'']"
      "peels_to [''git'', ''-C'', ''b'', ''log''] [''git'', ''-C'', ''b'', ''log'']" by auto
  have "moves_to ''/w'' [''cd'', ''a''] (join_cwd ''/w'' ''a'')"
  proof (rule moves_to.literal)
    show "cd_operand (drop 1 [''cd'', ''a'']) ''a''"
      unfolding drop_Suc_Cons One_nat_def drop_0 by (rule cd_operand.only) code_simp
  qed code_simp
  moreover have "join_cwd ''/w'' ''a'' = ''/w/a''" by code_simp
  ultimately have "moves_to ''/w'' [''cd'', ''a''] ''/w/a''" by simp
  from runs_in.later [OF peels(1) this runs_in.here [OF peels(2)]]
  show "runs_in ''/w'' [[''cd'', ''a''], [''git'', ''-C'', ''b'', ''log'']] (''git'' # [''-C'', ''b''] @ ''log'' # []) ''/w/a''"
    by simp
  show "benign_globals [''-C'', ''b'']"
    by (intro benign_globals.separate benign_globals.none)
qed code_simp+

text \<open>
  The scan follows every \<open>cd\<close>, taken or not.  In the repository \<open>/evil\<close>, whose own configuration names a
  program for git to start, it clears \<open>false && cd /tmp ; git status\<close>, and finds the risk of
  \<open>git status\<close> alone: the shell runs both in \<open>/evil\<close>.
\<close>

lemma untaken_cd_misleads_scan:
  "\<not> ambient_exec_risk_from_plan (one_repository ''/evil'' [fsmonitor_entry])
     (ambient_scan_plan_from_segments [[''false''], [''cd'', ''/tmp''], [''git'', ''status'']] ''/evil'')"
  "ambient_exec_risk_from_plan (one_repository ''/evil'' [fsmonitor_entry])
     (ambient_scan_plan_from_segments [[''git'', ''status'']] ''/evil'')"
  by code_simp+


end
