(* ===== verification/BashEvaluation.thy ===== *)
theory BashEvaluation
  imports GatePreflight ExecRisk
begin

section \<open>The evaluation of a bash request\<close>

text \<open>
  Models the part of \<open>permission/manager/mod.rs\<close> that judges a shell command against what the user allowed
  and denied before, the findings of \<open>auto_mode/security_findings.rs\<close>, and the environment check of
  \<open>auto_mode/mod.rs\<close>.  A \<open>HashSet\<close> of the stored state is the list of its elements in the order in which it
  is iterated.
\<close>

subsection \<open>Security findings\<close>

datatype finding = FailClosedPolicy | UnparseableShell | OpaqueShell | ExecOrAmbientGit | EnvInjection
  | UnvettedEnv | FileWrite | DangerousCommand | SpecialExecSurface

definition all_findings :: "finding list" where
  "all_findings = [FailClosedPolicy, UnparseableShell, OpaqueShell, ExecOrAmbientGit, EnvInjection,
     UnvettedEnv, FileWrite, DangerousCommand, SpecialExecSurface]"

definition finding_rank :: "finding \<Rightarrow> nat" where
  "finding_rank f = (case f of FailClosedPolicy \<Rightarrow> 0 | UnparseableShell \<Rightarrow> 1 | OpaqueShell \<Rightarrow> 2
     | ExecOrAmbientGit \<Rightarrow> 3 | EnvInjection \<Rightarrow> 4 | UnvettedEnv \<Rightarrow> 5 | FileWrite \<Rightarrow> 6 | DangerousCommand \<Rightarrow> 7
     | SpecialExecSurface \<Rightarrow> 8)"

lemma finding_rank_inject: "finding_rank f = finding_rank g \<Longrightarrow> f = g"
  by (cases f; cases g) (simp_all add: finding_rank_def)

instantiation finding :: linorder
begin

definition less_eq_finding :: "finding \<Rightarrow> finding \<Rightarrow> bool" where
  "f \<le> g \<longleftrightarrow> finding_rank f \<le> finding_rank g"

definition less_finding :: "finding \<Rightarrow> finding \<Rightarrow> bool" where
  "f < g \<longleftrightarrow> finding_rank f < finding_rank g"

instance
  by standard (auto simp: less_eq_finding_def less_finding_def intro: finding_rank_inject)

end

definition finding_token :: "finding \<Rightarrow> rstr" where
  "finding_token f = (case f of FailClosedPolicy \<Rightarrow> ''fail_closed_policy'' | UnparseableShell \<Rightarrow> ''unparseable_shell''
     | OpaqueShell \<Rightarrow> ''opaque_shell'' | ExecOrAmbientGit \<Rightarrow> ''exec_or_ambient_git''
     | EnvInjection \<Rightarrow> ''env_injection'' | UnvettedEnv \<Rightarrow> ''unvetted_env'' | FileWrite \<Rightarrow> ''file_write''
     | DangerousCommand \<Rightarrow> ''dangerous_command'' | SpecialExecSurface \<Rightarrow> ''special_exec_surface'')"

definition finding_description :: "finding \<Rightarrow> rstr" where
  "finding_description f = (case f of
       FailClosedPolicy \<Rightarrow> ''permission policy could not determine whether a rule applies''
     | UnparseableShell \<Rightarrow> ''shell structure could not be fully parsed''
     | OpaqueShell \<Rightarrow> ''invokes a nested or dynamically supplied shell command''
     | ExecOrAmbientGit \<Rightarrow> ''may run code via an execution callback or ambient Git configuration''
     | EnvInjection \<Rightarrow> ''sets environment variables that can change which code executes''
     | UnvettedEnv \<Rightarrow> ''sets environment variables outside the known-safe set''
     | FileWrite \<Rightarrow> ''writes to a real file rather than a sink''
     | DangerousCommand \<Rightarrow> ''a destructive or high-impact command''
     | SpecialExecSurface \<Rightarrow> ''options or tools that can write arbitrary output, execute code, override config/identity, or disclose the process environment'')"

definition is_grant_floor :: "finding \<Rightarrow> bool" where
  "is_grant_floor f = (case f of FileWrite \<Rightarrow> True | UnvettedEnv \<Rightarrow> True | EnvInjection \<Rightarrow> True | OpaqueShell \<Rightarrow> True
     | ExecOrAmbientGit \<Rightarrow> True | SpecialExecSurface \<Rightarrow> True | _ \<Rightarrow> False)"

text \<open>\<open>BashSecurityAssessment\<close> is a \<open>BTreeSet\<close>: a set, iterated in the order of the findings.\<close>

type_synonym assessment = "finding set"

definition constrains_broad_grant :: "assessment \<Rightarrow> bool" where
  "constrains_broad_grant a \<longleftrightarrow> (\<exists>f \<in> a. is_grant_floor f)"

definition is_file_write_only :: "assessment \<Rightarrow> bool" where
  "is_file_write_only a \<longleftrightarrow> card a = 1 \<and> FileWrite \<in> a"

definition finding_tokens :: "assessment \<Rightarrow> rstr list" where
  "finding_tokens a = map finding_token (sorted_list_of_set a)"

definition render_glossary :: "assessment \<Rightarrow> rstr" where
  "render_glossary a =
     join nl (map (\<lambda>f. ''- '' @ finding_token f @ '': '' @ finding_description f) (sorted_list_of_set a))"

subsection \<open>The environment of a script\<close>

datatype env_risk = EnvSafe | EnvUnvetted | EnvInjected

definition env_rank :: "env_risk \<Rightarrow> nat" where
  "env_rank r = (case r of EnvSafe \<Rightarrow> 0 | EnvUnvetted \<Rightarrow> 1 | EnvInjected \<Rightarrow> 2)"

lemma env_rank_inject: "env_rank r = env_rank s \<Longrightarrow> r = s"
  by (cases r; cases s) (simp_all add: env_rank_def)

instantiation env_risk :: linorder
begin

definition less_eq_env_risk :: "env_risk \<Rightarrow> env_risk \<Rightarrow> bool" where
  "r \<le> s \<longleftrightarrow> env_rank r \<le> env_rank s"

definition less_env_risk :: "env_risk \<Rightarrow> env_risk \<Rightarrow> bool" where
  "r < s \<longleftrightarrow> env_rank r < env_rank s"

instance
  by standard (auto simp: less_eq_env_risk_def less_env_risk_def intro: env_rank_inject)

end

definition safe_env_keys :: "rstr list" where
  "safe_env_keys = [''CARGO_TERM_COLOR'', ''CARGO_TERM_PROGRESS_WHEN'', ''RUST_LOG'', ''RUST_LOG_STYLE'',
     ''RUST_BACKTRACE'', ''RUST_TEST_THREADS'', ''RUST_MIN_STACK'', ''NO_COLOR'', ''CLICOLOR'', ''CLICOLOR_FORCE'',
     ''FORCE_COLOR'', ''COLORTERM'']"

definition injection_env_keys :: "rstr list" where
  "injection_env_keys = [''LD_PRELOAD'', ''LD_AUDIT'', ''BASH_ENV'', ''ENV'', ''IFS'', ''PATH'',
     ''GIT_EXTERNAL_DIFF'', ''GIT_PROXY_COMMAND'', ''PROMPT_COMMAND'']"

definition is_safe_env_key :: "rstr \<Rightarrow> bool" where
  "is_safe_env_key key \<longleftrightarrow> key \<in> set safe_env_keys"

definition env_key_risk :: "rstr \<Rightarrow> env_risk" where
  "env_key_risk key =
     (if is_safe_env_key key then EnvSafe
      else if key \<in> set injection_env_keys \<or> list_ex (starts_with key) [''DYLD_'', ''GIT_CONFIG''] then EnvInjected
      else EnvUnvetted)"

text \<open>The arguments of one \<open>env\<close>; \<open>None\<close> is the early return of \<open>EnvRisk::Injection\<close>.\<close>

fun env_arguments_risk :: "bool \<Rightarrow> env_risk \<Rightarrow> rstr list \<Rightarrow> env_risk option" where
  "env_arguments_risk options_done risk [] = Some risk"
| "env_arguments_risk options_done risk (arg # args) =
     (if arg = ''--'' then env_arguments_risk True risk args
      else if \<not> options_done \<and> starts_with arg ''-'' then None
      else (case split_once (CHR ''='') arg of
              Some (key, _) \<Rightarrow> env_arguments_risk options_done (max risk (env_key_risk key)) args
            | None \<Rightarrow> Some risk))"

fun command_env_loop :: "nat \<Rightarrow> env_risk \<Rightarrow> rstr list \<Rightarrow> env_risk" where
  "command_env_loop 0 risk current = risk"
| "command_env_loop (Suc n) risk current =
     (case (if head_name current = Some ''env'' then env_arguments_risk False risk (tl current) else Some risk) of
        None \<Rightarrow> EnvInjected
      | Some risk' \<Rightarrow>
          (case strip_wrapper_command current of
             Some inner \<Rightarrow> command_env_loop n risk' inner
           | None \<Rightarrow> risk'))"

definition command_env_risk :: "rstr list \<Rightarrow> env_risk" where
  "command_env_risk words = command_env_loop 8 EnvSafe words"

definition assignment_key :: "syntax_node \<Rightarrow> rstr \<Rightarrow> rstr" where
  "assignment_key n src =
     (case List.find (\<lambda>child. node_kind child = ''variable_name'' \<and> node_text src child \<noteq> None) (node_children n) of
        Some child \<Rightarrow> the (node_text src child)
      | None \<Rightarrow> (case node_text src n of Some t \<Rightarrow> takeWhile (\<lambda>c. c \<noteq> CHR ''='') t | None \<Rightarrow> ''''))"

definition script_env_risk :: "syntax_node \<Rightarrow> rstr \<Rightarrow> plain_command list \<Rightarrow> env_risk" where
  "script_env_risk root src cmds =
     foldl (\<lambda>risk c. max risk (command_env_risk (command_words c)))
       (foldl (\<lambda>risk n. if node_kind n = ''variable_assignment'' then max risk (env_key_risk (assignment_key n src)) else risk)
          EnvSafe (nodes root))
       cmds"

subsection \<open>The stored grants\<close>

datatype edit_policy = EditAsk | EditAllow | EditReject

record permission_state =
  edit_policy_of :: edit_policy
  allow_bash_execute :: bool
  allowed_bash_commands :: "rstr list"
  disallowed_bash_commands :: "rstr list"
  allowed_bash_globs :: "rstr list"
  allowed_web_fetch_domains :: "rstr list"
  allowed_mcp_tools :: "rstr list"
  allowed_mcp_servers :: "rstr list"
  disallowed_mcp_tools :: "rstr list"
  disallowed_web_fetch_domains :: "rstr list"
  validated_mcp_server_grants_version :: int

definition default_permission_state :: permission_state where
  "default_permission_state =
     \<lparr>edit_policy_of = EditAsk, allow_bash_execute = False, allowed_bash_commands = [],
      disallowed_bash_commands = [], allowed_bash_globs = [], allowed_web_fetch_domains = [],
      allowed_mcp_tools = [], allowed_mcp_servers = [], disallowed_mcp_tools = [],
      disallowed_web_fetch_domains = [], validated_mcp_server_grants_version = 1\<rparr>"

text \<open>\<open>HashSet::extend\<close>.\<close>

definition set_extend :: "rstr list \<Rightarrow> rstr list \<Rightarrow> rstr list" where
  "set_extend xs ys = fold List.insert ys xs"

definition merge_grants_from :: "permission_state \<Rightarrow> permission_state \<Rightarrow> permission_state" where
  "merge_grants_from s t =
     s\<lparr>allow_bash_execute := allow_bash_execute s \<or> allow_bash_execute t,
       allowed_bash_commands := set_extend (allowed_bash_commands s) (allowed_bash_commands t),
       disallowed_bash_commands := set_extend (disallowed_bash_commands s) (disallowed_bash_commands t),
       allowed_bash_globs := set_extend (allowed_bash_globs s) (allowed_bash_globs t),
       allowed_web_fetch_domains := set_extend (allowed_web_fetch_domains s) (allowed_web_fetch_domains t),
       allowed_mcp_tools := set_extend (allowed_mcp_tools s) (allowed_mcp_tools t),
       allowed_mcp_servers := set_extend (allowed_mcp_servers s) (allowed_mcp_servers t),
       disallowed_mcp_tools := set_extend (disallowed_mcp_tools s) (disallowed_mcp_tools t),
       disallowed_web_fetch_domains := set_extend (disallowed_web_fetch_domains s) (disallowed_web_fetch_domains t)\<rparr>"

subsection \<open>Safe and dangerous commands\<close>

definition rg_has_pre_flag :: "rstr list \<Rightarrow> bool" where
  "rg_has_pre_flag words =
     (if normalized_command_head words \<noteq> Some ''rg'' then False
      else list_ex (\<lambda>w. w = ''--pre'' \<or> starts_with w ''--pre='') words)"

definition kubectl_unsafe_flags :: "rstr list" where
  "kubectl_unsafe_flags = [''--kubeconfig'', ''--context'', ''--cluster'', ''--server'', ''-s'', ''--token'',
     ''--user'', ''--as'', ''--as-group'', ''--as-uid'', ''--as-user-extra'', ''--username'', ''--password'',
     ''--client-certificate'', ''--client-key'', ''--certificate-authority'']"

definition kubectl_has_unsafe_flag :: "rstr list \<Rightarrow> bool" where
  "kubectl_has_unsafe_flag words =
     (if normalized_command_head words \<noteq> Some ''kubectl'' then False
      else list_ex (\<lambda>w. option_name w \<in> set kubectl_unsafe_flags) (drop 1 words))"

definition ps_value_options :: "rstr list" where
  "ps_value_options = [''-o'', ''-O'', ''--format'', ''--sort'', ''-p'', ''-q'', ''-t'', ''-u'', ''-U'', ''-g'',
     ''-G'', ''-C'', ''-s'', ''--pid'', ''--ppid'', ''--sid'', ''--tty'', ''--user'', ''--group'', ''--cols'',
     ''--columns'', ''--width'', ''o'', ''O'']"

fun ps_words_dump :: "rstr list \<Rightarrow> bool" where
  "ps_words_dump [] = False"
| "ps_words_dump (s # rest) =
     (if starts_with s ''--format='' \<or> starts_with s ''--sort='' then ps_words_dump rest
      else if s \<in> set ps_value_options then ps_words_dump (drop 1 rest)
      else if starts_with s ''-o'' \<or> starts_with s ''-O'' then ps_words_dump rest
      else if CHR ''E'' \<in> set s
           \<or> CHR ''e'' \<in> set s
             \<and> (\<not> starts_with s ''-''
                \<or> starts_with s ''-'' \<and> \<not> starts_with s ''--'' \<and> (CHR ''a'' \<in> set s \<or> CHR ''x'' \<in> set s))
      then True
      else if starts_with s ''-'' \<and> \<not> starts_with s ''--'' \<and> (ends_with s ''o'' \<or> ends_with s ''O'')
      then ps_words_dump (drop 1 rest)
      else ps_words_dump rest)"

definition ps_dumps_environment :: "rstr list \<Rightarrow> bool" where
  "ps_dumps_environment words =
     (if normalized_command_head words \<noteq> Some ''ps'' then False else ps_words_dump (drop 1 words))"

definition is_safe_git_query_prefix :: "rstr \<Rightarrow> bool" where
  "is_safe_git_query_prefix cmd =
     (case strip_prefix ''git '' cmd of
        Some rest \<Rightarrow> list_ex (matches_command_prefix rest) safe_git_subcommands
      | None \<Rightarrow> False)"

definition safe_prefixes :: "rstr list" where
  "safe_prefixes = [''ls'', ''cat'', ''pwd'', ''date'', ''whoami'', ''hostname'', ''uptime'', ''grep'', ''rg'',
     ''kubectl get'', ''kubectl logs'', ''kubectl describe'', ''ps'', ''bin/explorer ls'', ''head'', ''tail'',
     ''wc'', ''sort'', ''uniq'', ''tr'', ''cut'', ''echo'', ''printf'']"

definition is_safe_command_words_str :: "rstr \<Rightarrow> bool" where
  "is_safe_command_words_str cmd \<longleftrightarrow>
     list_ex (matches_command_prefix cmd) safe_prefixes \<or> is_safe_git_query_prefix cmd"

definition special_exec_words :: "rstr list \<Rightarrow> bool" where
  "special_exec_words words \<longleftrightarrow>
     rg_has_pre_flag words \<or> kubectl_has_unsafe_flag words \<or> ps_dumps_environment words"

definition is_safe_command_words :: "rstr list \<Rightarrow> bool" where
  "is_safe_command_words words =
     (if words = [] then False
      else if special_exec_words words then False
      else if hd words = ''git'' then git_words_are_read_only_query words
      else is_safe_command_words_str (join '' '' words))"

definition always_safe_commands :: "rstr list" where
  "always_safe_commands = [''ls'', ''cat'', ''pwd'', ''date'', ''whoami'', ''hostname'', ''uptime'', ''ps'',
     ''grep'', ''rg'', ''kubectl get'', ''kubectl logs'', ''kubectl describe'', ''bin/explorer ls'']"

definition is_always_safe_command_words :: "rstr list \<Rightarrow> bool" where
  "is_always_safe_command_words words =
     (if words = [] then False
      else if special_exec_words words then False
      else if hd words = ''git'' then git_words_are_read_only_query words
      else list_ex (matches_command_prefix (join '' '' words)) always_safe_commands)"

definition dangerous_prefixes :: "rstr list" where
  "dangerous_prefixes = [''rm'', ''chmod'', ''chown'', ''chgrp'', ''chattr'', ''pkill'', ''kill'', ''killall'', ''git push'']"

definition is_dangerous_command_words :: "rstr list \<Rightarrow> bool" where
  "is_dangerous_command_words words =
     (case normalized_command_head words of
        None \<Rightarrow> False
      | Some head \<Rightarrow>
          (let joined = (if length words = 1 then head else head @ '' '' @ join '' '' (drop 1 words))
           in list_ex (matches_command_prefix joined) dangerous_prefixes))"

definition always_allow_scope_pinned :: "rstr list \<Rightarrow> bool" where
  "always_allow_scope_pinned words \<longleftrightarrow>
     is_dangerous_command_words words \<or> head_is_exec_vehicle words
     \<or> normalized_command_head words = Some ''sed''"

definition gh_always_allow_scope :: "rstr list \<Rightarrow> nat option" where
  "gh_always_allow_scope words =
     (if normalized_command_head words \<noteq> Some ''gh'' then None
      else Some (case drop 1 words of
                   grp # verb # _ \<Rightarrow>
                     if \<not> starts_with grp ''-'' \<and> \<not> starts_with verb ''-'' then 3 else length words
                 | _ \<Rightarrow> length words))"

definition base_scope :: "rstr list \<Rightarrow> nat" where
  "base_scope words =
     (if is_safe_command_words words \<and> is_safe_command_words_str (hd words) then 1
      else if is_safe_command_words words \<and> length words \<ge> 2
              \<and> is_safe_command_words_str (join '' '' (take 2 words)) then 2
      else min (length words) 2 + length (takeWhile (\<lambda>w. starts_with w ''-'') (drop 2 words)))"

definition default_always_allow_scope :: "rstr list \<Rightarrow> nat" where
  "default_always_allow_scope words =
     (if words = [] then 0
      else if always_allow_scope_pinned words then length words
      else (case gh_always_allow_scope words of Some n \<Rightarrow> n | None \<Rightarrow> base_scope words))"

definition default_always_deny_scope :: "rstr list \<Rightarrow> nat" where
  "default_always_deny_scope words = (if words = [] then 0 else base_scope words)"

definition minimum_always_allow_scope :: "rstr list \<Rightarrow> nat" where
  "minimum_always_allow_scope words =
     (if always_allow_scope_pinned words then length words
      else (case gh_always_allow_scope words of Some n \<Rightarrow> n | None \<Rightarrow> 1))"

definition matches_whitelist_prefix :: "rstr \<Rightarrow> rstr \<Rightarrow> bool" where
  "matches_whitelist_prefix segment_str allowed_prefix = matches_command_prefix segment_str allowed_prefix"

definition matches_bash_glob :: "'pat externals \<Rightarrow> rstr \<Rightarrow> rstr \<Rightarrow> bool" where
  "matches_bash_glob x segment_str pattern = bash_pattern_matches_command x pattern segment_str"


subsection \<open>Whole-script grants\<close>

definition words_join_unambiguously :: "bash_parser \<Rightarrow> rstr list \<Rightarrow> bool" where
  "words_join_unambiguously parse words =
     (let joined = join '' '' words in
      case all_commands_from_script parse joined of
        Some [only_one] \<Rightarrow> spans_whole_script only_one joined \<and> command_words only_one = words
      | _ \<Rightarrow> False)"

definition whole_script_grant :: "bash_parser \<Rightarrow> rstr \<Rightarrow> plain_command list \<Rightarrow> permission_state \<Rightarrow> bool" where
  "whole_script_grant parse cmd segments state =
     (if cmd \<in> set (allowed_bash_commands state) then True
      else
        (case segments of
           [only_one] \<Rightarrow>
             spans_whole_script only_one cmd \<and> words_join_unambiguously parse (command_words only_one)
             \<and> join '' '' (command_words only_one) \<in> set (allowed_bash_commands state)
         | _ \<Rightarrow> False))"

subsection \<open>Judging the segments\<close>

datatype segment_evaluation = AutoAllow bool | SegmentReject rstr | NeedsPrompts "rstr list" | Unparseable

record bash_evaluation =
  segments_of :: segment_evaluation
  exact_grant :: bool
  all_segments_granted :: bool
  assessment_of :: assessment
  redirect_write :: bool
  ambient_segments :: "rstr list list option"

definition unparseable_exec_risk :: "rstr \<Rightarrow> bool" where
  "unparseable_exec_risk cmd = script_may_invoke_git cmd"

definition env_risk_finding :: "env_risk \<Rightarrow> finding option" where
  "env_risk_finding r = (case r of EnvInjected \<Rightarrow> Some EnvInjection | EnvUnvetted \<Rightarrow> Some UnvettedEnv | EnvSafe \<Rightarrow> None)"

definition rejected_before :: "rstr \<Rightarrow> rstr" where
  "rejected_before d = ''User previously rejected `'' @ d @ ''` in this project''"

definition raw_deny_rejection :: "rstr \<Rightarrow> permission_state \<Rightarrow> segment_evaluation option" where
  "raw_deny_rejection cmd state =
     map_option (\<lambda>d. SegmentReject (rejected_before d))
       (List.find (matches_whitelist_prefix cmd) (disallowed_bash_commands state))"

text \<open>The loop over the segments: what it has gathered so far.\<close>

record bash_pass =
  pass_prompts :: "rstr list"
  pass_via_grant :: bool
  pass_all_granted :: bool
  pass_findings :: assessment
  pass_exec_risk :: bool
  pass_has_git :: bool

definition first_pass :: "assessment \<Rightarrow> bash_pass" where
  "first_pass findings =
     \<lparr>pass_prompts = [], pass_via_grant = False, pass_all_granted = True, pass_findings = findings,
      pass_exec_risk = False, pass_has_git = False\<rparr>"

definition note_segment :: "rstr list \<Rightarrow> bash_pass \<Rightarrow> bash_pass" where
  "note_segment raw_words acc =
     (let words = unwrap_wrappers raw_words; facts = segment_exec_facts_of raw_words in
      acc\<lparr>pass_findings := pass_findings acc
            \<union> (if words_are_opaque_shell (map ShellLiteral words) then {OpaqueShell} else {})
            \<union> (if exec_risk facts then {ExecOrAmbientGit} else {}),
          pass_exec_risk := pass_exec_risk acc \<or> exec_risk facts,
          pass_has_git := pass_has_git acc \<or> has_git facts\<rparr>)"

definition segment_granted :: "'pat externals \<Rightarrow> permission_state \<Rightarrow> rstr list \<Rightarrow> bool" where
  "segment_granted x state words =
     (let s = join '' '' words in
      (if always_allow_scope_pinned words then s \<in> set (allowed_bash_commands state)
       else list_ex (matches_whitelist_prefix s) (allowed_bash_commands state))
      \<or> list_ex (matches_bash_glob x s) (allowed_bash_globs state))"

definition special_surface :: "rstr list \<Rightarrow> bool" where
  "special_surface words \<longleftrightarrow> special_exec_words words \<or> git_words_have_unsafe_query_option words"

definition judge_segment :: "'pat externals \<Rightarrow> permission_state \<Rightarrow> bool \<Rightarrow> rstr list \<Rightarrow> bash_pass \<Rightarrow> bash_pass" where
  "judge_segment x state honor_safe_lists words acc =
     (let s = join '' '' words;
          granted = segment_granted x state words;
          acc = acc\<lparr>pass_all_granted := pass_all_granted acc \<and> granted\<rparr>;
          prompt = acc\<lparr>pass_prompts := pass_prompts acc @ [s]\<rparr>
      in if is_dangerous_command_words words then
           prompt\<lparr>pass_findings := insert DangerousCommand (pass_findings acc)\<rparr>
         else if special_surface words \<and> s \<notin> set (allowed_bash_commands state) then
           prompt\<lparr>pass_findings := insert SpecialExecSurface (pass_findings acc)\<rparr>
         else if granted then acc\<lparr>pass_via_grant := True\<rparr>
         else if honor_safe_lists \<and> (is_safe_command_words words \<or> is_always_safe_command_words words) then acc
         else prompt)"

text \<open>\<open>Inl\<close> is the early return of a rejection.\<close>

fun judge_segments ::
  "'pat externals \<Rightarrow> permission_state \<Rightarrow> bool \<Rightarrow> bash_pass \<Rightarrow> rstr list list \<Rightarrow> rstr \<times> bash_pass + bash_pass" where
  "judge_segments x state honor acc [] = Inr acc"
| "judge_segments x state honor acc (raw_words # rest) =
     (let words = unwrap_wrappers raw_words; acc = note_segment raw_words acc in
      if is_setup_command words then judge_segments x state honor acc rest
      else
        (case List.find (matches_whitelist_prefix (join '' '' words)) (disallowed_bash_commands state) of
           Some d \<Rightarrow> Inl (rejected_before d, acc)
         | None \<Rightarrow> judge_segments x state honor (judge_segment x state honor words acc) rest))"

definition undecomposed :: "rstr \<Rightarrow> permission_state \<Rightarrow> assessment \<Rightarrow> bash_evaluation" where
  "undecomposed cmd state findings =
     \<lparr>segments_of = (case raw_deny_rejection cmd state of Some r \<Rightarrow> r | None \<Rightarrow> Unparseable),
      exact_grant = (cmd \<in> set (allowed_bash_commands state)),
      all_segments_granted = False,
      assessment_of = findings \<union> {UnparseableShell} \<union> (if unparseable_exec_risk cmd then {ExecOrAmbientGit} else {}),
      redirect_write = True, ambient_segments = None\<rparr>"

definition decomposed ::
  "'pat externals \<Rightarrow> rstr \<Rightarrow> permission_state \<Rightarrow> bool \<Rightarrow> assessment \<Rightarrow> bool \<Rightarrow> plain_command list \<Rightarrow> bash_evaluation" where
  "decomposed x cmd state honor_safe_lists findings redirects cs =
     (let exact = whole_script_grant (ext_parse x) cmd cs state
      in case judge_segments x state honor_safe_lists (first_pass findings) (map command_words cs) of
           Inl (reason, acc) \<Rightarrow>
             \<lparr>segments_of = SegmentReject reason, exact_grant = exact,
              all_segments_granted = pass_all_granted acc, assessment_of = pass_findings acc,
              redirect_write = redirects, ambient_segments = None\<rparr>
         | Inr acc \<Rightarrow>
             \<lparr>segments_of = (if pass_prompts acc = [] then AutoAllow (pass_via_grant acc)
                             else NeedsPrompts (pass_prompts acc)),
              exact_grant = exact, all_segments_granted = pass_all_granted acc,
              assessment_of = pass_findings acc, redirect_write = redirects,
              ambient_segments = (if pass_has_git acc \<and> \<not> pass_exec_risk acc
                                  then Some (map command_words cs) else None)\<rparr>)"

definition redirects_to_file :: "syntax_tree \<Rightarrow> rstr \<Rightarrow> bool" where
  "redirects_to_file tree cmd =
     (let writes = command_write_paths_split (tree_root tree) cmd in
      unextracted_write_redirect writes \<or> list_ex (\<lambda>path. \<not> is_safe_write_sink path) (redirect_paths writes))"

definition writes_real_file :: "syntax_tree \<Rightarrow> rstr \<Rightarrow> bool" where
  "writes_real_file tree cmd \<longleftrightarrow>
     redirects_to_file tree cmd
     \<or> list_ex (\<lambda>path. \<not> is_safe_write_sink path) (word_paths (command_write_paths_split (tree_root tree) cmd))"

definition script_findings :: "syntax_tree \<Rightarrow> rstr \<Rightarrow> plain_command list \<Rightarrow> assessment" where
  "script_findings tree cmd cs =
     (if writes_real_file tree cmd then {FileWrite} else {})
     \<union> set_option (env_risk_finding (script_env_risk (tree_root tree) cmd cs))"

definition evaluate_bash :: "'pat externals \<Rightarrow> rstr \<Rightarrow> permission_state \<Rightarrow> bool \<Rightarrow> bash_evaluation" where
  "evaluate_bash x cmd state honor_safe_lists =
     (case ext_parse x cmd of
        None \<Rightarrow> undecomposed cmd state {}
      | Some tree \<Rightarrow>
          (case try_parse_word_only_commands_sequence tree cmd of
             None \<Rightarrow>
               undecomposed cmd state
                 (script_findings tree cmd []
                    \<union> (if tree_has_opaque_shell (tree_root tree) cmd then {OpaqueShell} else {}))
           | Some cs \<Rightarrow>
               decomposed x cmd state honor_safe_lists (script_findings tree cmd cs) (redirects_to_file tree cmd) cs))"

subsection \<open>What the evaluation decides\<close>

definition clamp_yolo :: "bool \<Rightarrow> rstr option \<Rightarrow> bool" where
  "clamp_yolo requested yolo_pin \<longleftrightarrow> requested \<and> yolo_pin = None"

definition auto_prompt_blocks_allow :: "'json access_kind \<Rightarrow> bool" where
  "auto_prompt_blocks_allow access = (case access of AccessBash _ \<Rightarrow> False | _ \<Rightarrow> True)"

definition persisted_bash_auto_allows :: "permission_state \<Rightarrow> rstr \<Rightarrow> rstr option \<Rightarrow> bool" where
  "persisted_bash_auto_allows state cmd yolo_pin \<longleftrightarrow>
     allow_bash_execute state \<and> yolo_pin = None \<or> cmd \<in> set (allowed_bash_commands state)"

definition bash_request_floor_requires_prompt :: "bash_evaluation option \<Rightarrow> bool" where
  "bash_request_floor_requires_prompt evaluation =
     (case evaluation of None \<Rightarrow> False | Some e \<Rightarrow> \<not> exact_grant e \<and> constrains_broad_grant (assessment_of e))"

definition narrow_allow_clears_write_floor ::
  "'pat externals \<Rightarrow> bash_evaluation option \<Rightarrow> 'pat compiled_policy option \<Rightarrow> 'json access_kind \<Rightarrow> bool" where
  "narrow_allow_clears_write_floor x evaluation policy access \<longleftrightarrow>
     (case evaluation of None \<Rightarrow> False | Some e \<Rightarrow> is_file_write_only (assessment_of e) \<and> \<not> redirect_write e)
     \<and> (case policy of None \<Rightarrow> False | Some p \<Rightarrow> narrow_allow_authorizes x p access)"

definition bash_assessment_is_clear :: "bash_evaluation option \<Rightarrow> bool" where
  "bash_assessment_is_clear evaluation =
     (case evaluation of None \<Rightarrow> True | Some e \<Rightarrow> assessment_of e = {})"

definition classifier_assessment :: "bash_evaluation option \<Rightarrow> bool \<Rightarrow> assessment" where
  "classifier_assessment evaluation fail_closed_policy =
     (case evaluation of None \<Rightarrow> {} | Some e \<Rightarrow> assessment_of e)
     \<union> (if fail_closed_policy then {FailClosedPolicy} else {})"

definition sandbox_may_auto_allow_bash :: "bash_evaluation option \<Rightarrow> bool \<Rightarrow> bool" where
  "sandbox_may_auto_allow_bash evaluation sandbox_active \<longleftrightarrow>
     sandbox_active \<and> \<not> bash_request_floor_requires_prompt evaluation"

record bash_grant_opts =
  opt_honor_safe_lists :: bool
  opt_allow_blanket :: bool
  opt_conservative_blanket :: bool

definition pre_classifier :: bash_grant_opts where
  "pre_classifier = \<lparr>opt_honor_safe_lists = True, opt_allow_blanket = True, opt_conservative_blanket = True\<rparr>"

definition ask_floor_remember :: bash_grant_opts where
  "ask_floor_remember = \<lparr>opt_honor_safe_lists = False, opt_allow_blanket = False, opt_conservative_blanket = False\<rparr>"

definition post_classify :: "bool \<Rightarrow> bash_grant_opts" where
  "post_classify auto_forced_prompt =
     \<lparr>opt_honor_safe_lists = True, opt_allow_blanket = \<not> auto_forced_prompt, opt_conservative_blanket = False\<rparr>"

definition grant_if :: "bool \<Rightarrow> rstr \<Rightarrow> (decision \<times> rstr) option" where
  "grant_if allowed reason = (if allowed then Some (DAllow, reason) else None)"

definition bash_grant_pre_decision ::
  "rstr \<Rightarrow> bash_evaluation \<Rightarrow> permission_state \<Rightarrow> rstr option \<Rightarrow> bash_grant_opts \<Rightarrow> (decision \<times> rstr) option" where
  "bash_grant_pre_decision cmd e state yolo_pin opts =
     (case segments_of e of
        SegmentReject reason \<Rightarrow> Some (DReject reason, ''session_deny'')
      | _ \<Rightarrow>
          if bash_request_floor_requires_prompt (Some e) then None
          else
            (case segments_of e of
               SegmentReject reason \<Rightarrow> None
             | AutoAllow via_session_grant \<Rightarrow>
                 if \<not> opt_honor_safe_lists opts \<and> \<not> all_segments_granted e then None
                 else grant_if True (if via_session_grant then ''session_grant'' else ''safe_command'')
             | NeedsPrompts _ \<Rightarrow>
                 if \<not> opt_allow_blanket opts then None
                 else if opt_conservative_blanket opts \<and> DangerousCommand \<in> assessment_of e then
                   grant_if (exact_grant e) ''session_grant''
                 else grant_if (persisted_bash_auto_allows state cmd yolo_pin) ''session_grant''
             | Unparseable \<Rightarrow>
                 if \<not> opt_allow_blanket opts then None
                 else grant_if (if opt_conservative_blanket opts then exact_grant e
                                else persisted_bash_auto_allows state cmd yolo_pin) ''session_grant''))"


subsection \<open>The judgement of a script, segment by segment\<close>

definition denied :: "permission_state \<Rightarrow> rstr list \<Rightarrow> bool" where
  "denied state words \<longleftrightarrow> list_ex (matches_whitelist_prefix (join '' '' words)) (disallowed_bash_commands state)"

definition segment_prompts :: "'pat externals \<Rightarrow> permission_state \<Rightarrow> bool \<Rightarrow> rstr list \<Rightarrow> bool" where
  "segment_prompts x state honor words \<longleftrightarrow>
     is_dangerous_command_words words
     \<or> special_surface words \<and> join '' '' words \<notin> set (allowed_bash_commands state)
     \<or> \<not> (segment_granted x state words
          \<or> honor \<and> (is_safe_command_words words \<or> is_always_safe_command_words words))"

definition segment_findings :: "permission_state \<Rightarrow> rstr list \<Rightarrow> assessment" where
  "segment_findings state raw =
     (let words = unwrap_wrappers raw in
      (if words_are_opaque_shell (map ShellLiteral words) then {OpaqueShell} else {})
      \<union> (if exec_risk (segment_exec_facts_of raw) then {ExecOrAmbientGit} else {})
      \<union> (if is_setup_command words then {}
         else if is_dangerous_command_words words then {DangerousCommand}
         else if special_surface words \<and> join '' '' words \<notin> set (allowed_bash_commands state) then {SpecialExecSurface}
         else {}))"

definition command_segments :: "rstr list list \<Rightarrow> rstr list list" where
  "command_segments raws = filter (\<lambda>words. \<not> is_setup_command words) (map unwrap_wrappers raws)"

lemma command_segments_simps [simp]:
  "command_segments [] = []"
  "command_segments (raw # rest) =
     (if is_setup_command (unwrap_wrappers raw) then command_segments rest
      else unwrap_wrappers raw # command_segments rest)"
  by (simp_all add: command_segments_def)

lemma judge_segment_fields [simp]:
  "pass_prompts (judge_segment x state honor words acc) =
     pass_prompts acc @ (if segment_prompts x state honor words then [join '' '' words] else [])"
  "pass_all_granted (judge_segment x state honor words acc) \<longleftrightarrow>
     pass_all_granted acc \<and> segment_granted x state words"
  "pass_exec_risk (judge_segment x state honor words acc) = pass_exec_risk acc"
  "pass_has_git (judge_segment x state honor words acc) = pass_has_git acc"
  "pass_findings (judge_segment x state honor words acc) = pass_findings acc
     \<union> (if is_dangerous_command_words words then {DangerousCommand}
        else if special_surface words \<and> join '' '' words \<notin> set (allowed_bash_commands state) then {SpecialExecSurface}
        else {})"
  by (simp_all add: judge_segment_def segment_prompts_def Let_def)

lemma note_segment_fields [simp]:
  "pass_prompts (note_segment raw acc) = pass_prompts acc"
  "pass_all_granted (note_segment raw acc) = pass_all_granted acc"
  "pass_exec_risk (note_segment raw acc) \<longleftrightarrow> pass_exec_risk acc \<or> exec_risk (segment_exec_facts_of raw)"
  "pass_has_git (note_segment raw acc) \<longleftrightarrow> pass_has_git acc \<or> has_git (segment_exec_facts_of raw)"
  "pass_findings (note_segment raw acc) = pass_findings acc
     \<union> (if words_are_opaque_shell (map ShellLiteral (unwrap_wrappers raw)) then {OpaqueShell} else {})
     \<union> (if exec_risk (segment_exec_facts_of raw) then {ExecOrAmbientGit} else {})"
  by (simp_all add: note_segment_def Let_def)

lemma find_none_iff: "List.find P xs = None \<longleftrightarrow> \<not> list_ex P xs"
  by (auto simp: find_None_iff list_ex_iff)

lemma judge_segments_rejects:
  "(\<exists>r acc'. judge_segments x state honor acc raws = Inl (rejected_before r, acc'))
     \<longleftrightarrow> list_ex (denied state) (command_segments raws)"
  "judge_segments x state honor acc raws = Inl (reason, acc') \<Longrightarrow> \<exists>r. reason = rejected_before r"
proof -
  show reason: "judge_segments x state honor acc raws = Inl (reason, acc') \<Longrightarrow> \<exists>r. reason = rejected_before r"
    for acc reason acc'
    by (induction x state honor acc raws rule: judge_segments.induct)
      (auto simp: Let_def split: if_split_asm option.split_asm)
  show "(\<exists>r acc'. judge_segments x state honor acc raws = Inl (rejected_before r, acc'))
     \<longleftrightarrow> list_ex (denied state) (command_segments raws)"
  proof (induction raws arbitrary: acc)
    case (Cons raw rest)
    show ?case
    proof (cases "List.find (matches_whitelist_prefix (join '' '' (unwrap_wrappers raw))) (disallowed_bash_commands state)")
      case None
      then have "\<not> denied state (unwrap_wrappers raw)" by (simp add: denied_def find_none_iff)
      with None show ?thesis by (simp add: Let_def Cons)
    next
      case (Some d)
      then have "denied state (unwrap_wrappers raw)"
        unfolding denied_def by (auto simp: list_ex_iff find_Some_iff)
      with Some show ?thesis by (simp add: Let_def Cons) auto
    qed
  qed simp
qed

lemma judge_segments_fields:
  "judge_segments x state honor acc raws = Inr acc' \<Longrightarrow>
     pass_prompts acc' = pass_prompts acc @ map (join '' '') (filter (segment_prompts x state honor) (command_segments raws))
     \<and> pass_findings acc' = pass_findings acc \<union> (\<Union>raw \<in> set raws. segment_findings state raw)
     \<and> (pass_all_granted acc' \<longleftrightarrow> pass_all_granted acc \<and> list_all (segment_granted x state) (command_segments raws))
     \<and> (pass_exec_risk acc' \<longleftrightarrow> pass_exec_risk acc \<or> list_ex (\<lambda>raw. exec_risk (segment_exec_facts_of raw)) raws)
     \<and> (pass_has_git acc' \<longleftrightarrow> pass_has_git acc \<or> list_ex (\<lambda>raw. has_git (segment_exec_facts_of raw)) raws)"
proof (induction raws arbitrary: acc)
  case (Cons raw rest)
  let ?w = "unwrap_wrappers raw"
  show ?case
  proof (cases "is_setup_command ?w")
    case True
    with Cons(2) have "judge_segments x state honor (note_segment raw acc) rest = Inr acc'" by (simp add: Let_def)
    from Cons(1) [OF this] True show ?thesis by (simp add: segment_findings_def Let_def Un_assoc)
  next
    case False
    with Cons(2) have "judge_segments x state honor (judge_segment x state honor ?w (note_segment raw acc)) rest = Inr acc'"
      by (auto simp: Let_def split: option.split_asm)
    from Cons(1) [OF this] False show ?thesis by (simp add: segment_findings_def Let_def Un_assoc)
  qed
qed simp

definition raw_segments :: "plain_command list \<Rightarrow> rstr list list" where
  "raw_segments cs = map command_words cs"

lemma evaluate_parsed:
  fixes state :: permission_state and honor :: bool
  assumes "ext_parse x cmd = Some tree" "try_parse_word_only_commands_sequence tree cmd = Some cs"
  defines "e \<equiv> evaluate_bash x cmd state honor" and "segs \<equiv> command_segments (raw_segments cs)"
  shows "(\<exists>r. segments_of e = SegmentReject r) \<longleftrightarrow> list_ex (denied state) segs"
    and "exact_grant e = whole_script_grant (ext_parse x) cmd cs state"
    and "\<not> list_ex (denied state) segs \<Longrightarrow>
      assessment_of e = script_findings tree cmd cs \<union> (\<Union>raw \<in> set (raw_segments cs). segment_findings state raw)"
    and "\<not> list_ex (denied state) segs \<Longrightarrow> all_segments_granted e \<longleftrightarrow> list_all (segment_granted x state) segs"
    and "\<not> list_ex (denied state) segs \<Longrightarrow>
      (if filter (segment_prompts x state honor) segs = [] then \<exists>v. segments_of e = AutoAllow v
       else segments_of e = NeedsPrompts (map (join '' '') (filter (segment_prompts x state honor) segs)))"
proof -
  let ?start = "first_pass (script_findings tree cmd cs)"
  have findings: "pass_findings ?start = script_findings tree cmd cs" by (simp add: first_pass_def)
  let ?j = "judge_segments x state honor ?start (raw_segments cs)"
  note judged = judge_segments_rejects [of x state honor ?start "raw_segments cs"]
  have e: "e = decomposed x cmd state honor (script_findings tree cmd cs) (redirects_to_file tree cmd) cs"
    by (simp add: e_def evaluate_bash_def assms(1,2))
  consider (rejected) reason acc where "?j = Inl (reason, acc)" "segments_of e = SegmentReject reason"
        "exact_grant e = whole_script_grant (ext_parse x) cmd cs state"
    | (judged) acc where "?j = Inr acc"
        "segments_of e = (if pass_prompts acc = [] then AutoAllow (pass_via_grant acc) else NeedsPrompts (pass_prompts acc))"
        "exact_grant e = whole_script_grant (ext_parse x) cmd cs state" "all_segments_granted e = pass_all_granted acc"
        "assessment_of e = pass_findings acc"
    unfolding e decomposed_def raw_segments_def
    by (cases "judge_segments x state honor ?start (map command_words cs)") (auto simp: Let_def)
  note outcome = this
  show "(\<exists>r. segments_of e = SegmentReject r) \<longleftrightarrow> list_ex (denied state) segs"
    using outcome
  proof cases
    case (rejected reason acc)
    then show ?thesis using judged(1) judged(2) [OF rejected(1)] by (auto simp: segs_def)
  next
    case (judged acc)
    then show ?thesis using judge_segments_rejects(1) [of x state honor ?start "raw_segments cs"]
      by (auto simp: segs_def)
  qed
  show "exact_grant e = whole_script_grant (ext_parse x) cmd cs state"
    using outcome by cases simp_all
  {
    assume clear: "\<not> list_ex (denied state) segs"
    from outcome obtain acc where acc: "?j = Inr acc"
        "segments_of e = (if pass_prompts acc = [] then AutoAllow (pass_via_grant acc) else NeedsPrompts (pass_prompts acc))"
        "all_segments_granted e = pass_all_granted acc" "assessment_of e = pass_findings acc"
    proof cases
      case (rejected reason acc)
      then show ?thesis using judged(1) judged(2) [OF rejected(1)] clear by (auto simp: segs_def)
    qed (use that in blast)
    note fields = judge_segments_fields [OF acc(1)]
    then show "assessment_of e
        = script_findings tree cmd cs \<union> (\<Union>raw \<in> set (raw_segments cs). segment_findings state raw)"
      by (simp add: acc findings)
    from fields show "all_segments_granted e \<longleftrightarrow> list_all (segment_granted x state) segs"
      by (simp add: acc first_pass_def segs_def)
    from fields show "if filter (segment_prompts x state honor) segs = [] then \<exists>v. segments_of e = AutoAllow v
       else segments_of e = NeedsPrompts (map (join '' '') (filter (segment_prompts x state honor) segs))"
      by (auto simp: acc first_pass_def segs_def)
  }
qed

end
