(* ===== verification/GrantDecisions.thy ===== *)
theory GrantDecisions
  imports BashEvaluation
begin

section \<open>What the stored grants decide\<close>

text \<open>
  Properties of the evaluation of a bash request and of the decision drawn from it: when the segments of a
  script allow it, when a remembered rejection wins, what a grant cannot vouch for, and that the decision is
  monotone in the grants.
\<close>

lemma evaluate_unparsed:
  assumes "all_commands_from_script (ext_parse x) cmd = None"
  shows "segments_of (evaluate_bash x cmd state honor)
      = (case raw_deny_rejection cmd state of Some r \<Rightarrow> r | None \<Rightarrow> Unparseable)"
    and "exact_grant (evaluate_bash x cmd state honor) \<longleftrightarrow> cmd \<in> set (allowed_bash_commands state)"
    and "UnparseableShell \<in> assessment_of (evaluate_bash x cmd state honor)"
  using assms by (auto simp: evaluate_bash_def all_commands_from_script_def undecomposed_def
      split: option.split bind_split_asm)

lemma parsed_cases:
  assumes "all_commands_from_script (ext_parse x) cmd = Some cs"
  obtains tree where "ext_parse x cmd = Some tree" "try_parse_word_only_commands_sequence tree cmd = Some cs"
  using assms by (auto simp: all_commands_from_script_def split: bind_split_asm)

subsection \<open>What the stored grants can allow\<close>

definition cleared :: "'pat externals \<Rightarrow> permission_state \<Rightarrow> bool \<Rightarrow> rstr list \<Rightarrow> bool" where
  "cleared x state honor words \<longleftrightarrow> \<not> denied state words \<and> \<not> segment_prompts x state honor words"

text \<open>
  C26: A script is allowed on the strength of its segments exactly when every command of it, peeled, is
  cleared by itself: no remembered rejection covers it, it is not dangerous, a special executable surface
  has been allowed in these very words, and a grant or, where they count, the safe lists cover it.
\<close>

theorem auto_allow_iff_every_segment_cleared:
  assumes "all_commands_from_script (ext_parse x) cmd = Some cs"
  shows "(\<exists>v. segments_of (evaluate_bash x cmd state honor) = AutoAllow v)
    \<longleftrightarrow> list_all (cleared x state honor) (command_segments (raw_segments cs))"
proof -
  obtain tree where t: "ext_parse x cmd = Some tree" "try_parse_word_only_commands_sequence tree cmd = Some cs"
    using parsed_cases [OF assms] .
  note parsed = evaluate_parsed [OF t, of state honor]
  show ?thesis
  proof (cases "list_ex (denied state) (command_segments (raw_segments cs))")
    case True
    then obtain r where "segments_of (evaluate_bash x cmd state honor) = SegmentReject r" using parsed(1) by blast
    with True show ?thesis by (auto simp: list_all_iff list_ex_iff cleared_def)
  next
    case False
    then have "list_all (cleared x state honor) (command_segments (raw_segments cs))
        \<longleftrightarrow> filter (segment_prompts x state honor) (command_segments (raw_segments cs)) = []"
      by (auto simp: list_all_iff list_ex_iff cleared_def filter_empty_conv)
    with parsed(5) [OF False] show ?thesis by (auto split: if_split_asm)
  qed
qed

definition remembered_deny :: "'pat externals \<Rightarrow> permission_state \<Rightarrow> rstr \<Rightarrow> bool" where
  "remembered_deny x state cmd \<longleftrightarrow>
     (case all_commands_from_script (ext_parse x) cmd of
        Some cs \<Rightarrow> list_ex (denied state) (command_segments (raw_segments cs))
      | None \<Rightarrow> list_ex (matches_whitelist_prefix cmd) (disallowed_bash_commands state))"

lemma raw_deny_iff: "raw_deny_rejection cmd state = None \<longleftrightarrow> \<not> list_ex (matches_whitelist_prefix cmd) (disallowed_bash_commands state)"
  by (simp add: raw_deny_rejection_def find_none_iff)

lemma raw_deny_some: "raw_deny_rejection cmd state = Some r \<Longrightarrow> \<exists>d. r = SegmentReject d"
  by (auto simp: raw_deny_rejection_def)

lemma rejects_iff_remembered:
  "(\<exists>r. segments_of (evaluate_bash x cmd state honor) = SegmentReject r) \<longleftrightarrow> remembered_deny x state cmd"
proof (cases "all_commands_from_script (ext_parse x) cmd")
  case None
  then show ?thesis
    using evaluate_unparsed(1) [OF None, of state honor] raw_deny_iff [of cmd state] raw_deny_some [of cmd state]
    by (cases "raw_deny_rejection cmd state") (auto simp: remembered_deny_def)
next
  case (Some cs)
  obtain tree where "ext_parse x cmd = Some tree" "try_parse_word_only_commands_sequence tree cmd = Some cs"
    using parsed_cases [OF Some] .
  from evaluate_parsed(1) [OF this, of state honor] Some show ?thesis by (simp add: remembered_deny_def)
qed

lemma pre_decision_rejects:
  "segments_of e = SegmentReject r \<Longrightarrow> bash_grant_pre_decision cmd e state pin opts = Some (DReject r, ''session_deny'')"
  by (simp add: bash_grant_pre_decision_def)

lemma pre_decision_not_reject:
  assumes "\<not> (\<exists>r. segments_of e = SegmentReject r)"
  shows "bash_grant_pre_decision cmd e state pin opts \<noteq> Some (DReject r, reason)"
  using assms by (auto simp: bash_grant_pre_decision_def grant_if_def split: segment_evaluation.splits if_splits)

text \<open>
  A remembered rejection beats every grant, whatever the options: the decision from the stored state is
  a rejection exactly when a remembered prefix covers one of the commands of the script, or its text when it
  cannot be taken apart.
\<close>

theorem session_deny_wins:
  "(\<exists>r. bash_grant_pre_decision cmd (evaluate_bash x cmd state honor) state pin opts = Some (DReject r, ''session_deny''))
     \<longleftrightarrow> remembered_deny x state cmd"
proof (cases "\<exists>r. segments_of (evaluate_bash x cmd state honor) = SegmentReject r")
  case True
  then show ?thesis using pre_decision_rejects rejects_iff_remembered [of x cmd state honor] by blast
next
  case False
  then show ?thesis using pre_decision_not_reject [OF False] rejects_iff_remembered [of x cmd state honor] by blast
qed

lemma pre_decision_allows:
  assumes "bash_grant_pre_decision cmd e state pin opts = Some (DAllow, reason)"
  shows "\<not> (\<exists>r. segments_of e = SegmentReject r)"
    and "exact_grant e \<or> \<not> constrains_broad_grant (assessment_of e)"
    and "segments_of e = NeedsPrompts ps \<Longrightarrow> opt_allow_blanket opts
      \<and> (if opt_conservative_blanket opts \<and> DangerousCommand \<in> assessment_of e then exact_grant e
         else persisted_bash_auto_allows state cmd pin)"
  using assms
  by (auto simp: bash_grant_pre_decision_def bash_request_floor_requires_prompt_def grant_if_def
      split: segment_evaluation.split_asm if_split_asm)

lemma segment_findings_mem:
  "exec_risk (segment_exec_facts_of raw) \<Longrightarrow> ExecOrAmbientGit \<in> segment_findings state raw"
  "words_are_opaque_shell (map ShellLiteral (unwrap_wrappers raw)) \<Longrightarrow> OpaqueShell \<in> segment_findings state raw"
  by (simp_all add: segment_findings_def Let_def)

lemma no_floor:
  assumes "\<not> constrains_broad_grant (script_findings tree cmd cs \<union> (\<Union>raw \<in> set raws. segment_findings state raw))"
  shows "\<not> writes_real_file tree cmd" and "script_env_risk (tree_root tree) cmd cs = EnvSafe"
    and "list_all (\<lambda>raw. \<not> exec_risk (segment_exec_facts_of raw)
           \<and> \<not> words_are_opaque_shell (map ShellLiteral (unwrap_wrappers raw))) raws"
proof -
  have none: "f \<notin> script_findings tree cmd cs" "raw \<in> set raws \<Longrightarrow> f \<notin> segment_findings state raw"
    if "is_grant_floor f" for f raw
    using assms that by (auto simp: constrains_broad_grant_def)
  show "\<not> writes_real_file tree cmd"
    using none(1) [of FileWrite] by (auto simp: script_findings_def is_grant_floor_def split: if_split_asm)
  show "script_env_risk (tree_root tree) cmd cs = EnvSafe"
    using none(1) [of EnvInjection] none(1) [of UnvettedEnv]
    by (cases "script_env_risk (tree_root tree) cmd cs")
      (auto simp: script_findings_def env_risk_finding_def is_grant_floor_def)
  show "list_all (\<lambda>raw. \<not> exec_risk (segment_exec_facts_of raw)
           \<and> \<not> words_are_opaque_shell (map ShellLiteral (unwrap_wrappers raw))) raws"
    using none(2) [of OpaqueShell] none(2) [of ExecOrAmbientGit]
    by (auto simp: list_all_iff is_grant_floor_def dest: segment_findings_mem)
qed

text \<open>
  C27: What the grants stage alone (stored grants and the safe list) can allow without asking, for a script that
  decomposes.  Without a grant for exactly this script it writes no real file, sets no variable outside the safe
  ones, and none of its commands is an opaque shell or a git or sort that may run programs; and if one of its
  commands is dangerous the blanket or an exact grant allows it, the blanket only after the classifier, and neither
  when the options rule it out.  Other stages may still allow such a script: narrow allow rules, the classifier of
  auto mode and always-approve.
\<close>

theorem grants_do_not_vouch_for_effects:
  assumes "ext_parse x cmd = Some tree" "try_parse_word_only_commands_sequence tree cmd = Some cs"
    and "bash_grant_pre_decision cmd (evaluate_bash x cmd state honor) state pin opts = Some (DAllow, reason)"
  shows "(whole_script_grant (ext_parse x) cmd cs state
       \<or> \<not> writes_real_file tree cmd \<and> script_env_risk (tree_root tree) cmd cs = EnvSafe
         \<and> list_all (\<lambda>raw. \<not> exec_risk (segment_exec_facts_of raw)
             \<and> \<not> words_are_opaque_shell (map ShellLiteral (unwrap_wrappers raw))) (raw_segments cs))
    \<and> (list_ex is_dangerous_command_words (command_segments (raw_segments cs)) \<longrightarrow>
         opt_allow_blanket opts
         \<and> (if opt_conservative_blanket opts then whole_script_grant (ext_parse x) cmd cs state
            else persisted_bash_auto_allows state cmd pin))"
proof
  note parsed = evaluate_parsed [OF assms(1,2), of state honor]
  note allows = pre_decision_allows [OF assms(3)]
  from allows(1) parsed(1) have clear: "\<not> list_ex (denied state) (command_segments (raw_segments cs))" by simp
  show "whole_script_grant (ext_parse x) cmd cs state
       \<or> \<not> writes_real_file tree cmd \<and> script_env_risk (tree_root tree) cmd cs = EnvSafe
         \<and> list_all (\<lambda>raw. \<not> exec_risk (segment_exec_facts_of raw)
             \<and> \<not> words_are_opaque_shell (map ShellLiteral (unwrap_wrappers raw))) (raw_segments cs)"
    using allows(2) no_floor parsed(2,3) clear by metis
  show "list_ex is_dangerous_command_words (command_segments (raw_segments cs)) \<longrightarrow>
         opt_allow_blanket opts
         \<and> (if opt_conservative_blanket opts then whole_script_grant (ext_parse x) cmd cs state
            else persisted_bash_auto_allows state cmd pin)"
  proof
    assume "list_ex is_dangerous_command_words (command_segments (raw_segments cs))"
    then obtain words where w: "words \<in> set (command_segments (raw_segments cs))" "is_dangerous_command_words words"
      by (auto simp: list_ex_iff)
    then have "filter (segment_prompts x state honor) (command_segments (raw_segments cs)) \<noteq> []"
      by (auto simp: filter_empty_conv segment_prompts_def)
    with parsed(5) [OF clear] obtain ps where ps: "segments_of (evaluate_bash x cmd state honor) = NeedsPrompts ps"
      by auto
    obtain raw where "raw \<in> set (raw_segments cs)" "words = unwrap_wrappers raw" "\<not> is_setup_command words"
      using w(1) by (auto simp: command_segments_def)
    then have "DangerousCommand \<in> segment_findings state raw" using w(2) by (simp add: segment_findings_def Let_def)
    then have "DangerousCommand \<in> assessment_of (evaluate_bash x cmd state honor)"
      using parsed(3) [OF clear] \<open>raw \<in> set (raw_segments cs)\<close> by blast
    with allows(3) [OF ps] parsed(2)
    show "opt_allow_blanket opts
         \<and> (if opt_conservative_blanket opts then whole_script_grant (ext_parse x) cmd cs state
            else persisted_bash_auto_allows state cmd pin)"
      by (simp split: if_split_asm)
  qed
qed

subsection \<open>More grants never take an approval away\<close>

text \<open>A state with at least the grants of another.\<close>

definition grants_more :: "permission_state \<Rightarrow> permission_state \<Rightarrow> bool" where
  "grants_more s t \<longleftrightarrow>
     set (allowed_bash_commands s) \<subseteq> set (allowed_bash_commands t)
     \<and> set (allowed_bash_globs s) \<subseteq> set (allowed_bash_globs t)
     \<and> (allow_bash_execute s \<longrightarrow> allow_bash_execute t)"

lemma granted_more: "grants_more s t \<Longrightarrow> segment_granted x s words \<Longrightarrow> segment_granted x t words"
  by (auto simp: grants_more_def segment_granted_def list_ex_iff Let_def split: if_split_asm)

lemma prompts_more: "grants_more s t \<Longrightarrow> segment_prompts x t honor words \<Longrightarrow> segment_prompts x s honor words"
  using granted_more [of s t x words] by (auto simp: segment_prompts_def grants_more_def)

lemma findings_more: "grants_more s t \<Longrightarrow> segment_findings t raw \<subseteq> segment_findings s raw"
  by (auto simp: segment_findings_def Let_def grants_more_def)

lemma whole_grant_more: "grants_more s t \<Longrightarrow> whole_script_grant parse cmd cs s \<Longrightarrow> whole_script_grant parse cmd cs t"
  by (auto simp: whole_script_grant_def grants_more_def split: list.splits if_splits)

lemma floor_more: "A \<subseteq> B \<Longrightarrow> constrains_broad_grant A \<Longrightarrow> constrains_broad_grant B"
  by (auto simp: constrains_broad_grant_def)

lemma dangerous_finding_more:
  "DangerousCommand \<in> segment_findings s raw \<longleftrightarrow> DangerousCommand \<in> segment_findings t raw"
  by (auto simp: segment_findings_def Let_def)

lemma pre_decision_parsed:
  assumes "\<not> (\<exists>r. segments_of e = SegmentReject r)" "exact_grant e \<or> \<not> constrains_broad_grant (assessment_of e)"
    and "opt_honor_safe_lists opts"
  shows "segments_of e = AutoAllow v \<Longrightarrow> \<exists>r. bash_grant_pre_decision cmd e state pin opts = Some (DAllow, r)"
    and "segments_of e = NeedsPrompts ps \<Longrightarrow> opt_allow_blanket opts \<Longrightarrow>
      (if opt_conservative_blanket opts \<and> DangerousCommand \<in> assessment_of e then exact_grant e
       else persisted_bash_auto_allows state cmd pin) \<Longrightarrow>
      \<exists>r. bash_grant_pre_decision cmd e state pin opts = Some (DAllow, r)"
    and "segments_of e = Unparseable \<Longrightarrow> opt_allow_blanket opts \<Longrightarrow>
      (if opt_conservative_blanket opts then exact_grant e else persisted_bash_auto_allows state cmd pin) \<Longrightarrow>
      \<exists>r. bash_grant_pre_decision cmd e state pin opts = Some (DAllow, r)"
  using assms
  by (auto simp: bash_grant_pre_decision_def bash_request_floor_requires_prompt_def grant_if_def
      split: segment_evaluation.splits)

lemma persisted_more: "grants_more s t \<Longrightarrow> persisted_bash_auto_allows s cmd pin \<Longrightarrow> persisted_bash_auto_allows t cmd pin"
  by (auto simp: persisted_bash_auto_allows_def grants_more_def)

text \<open>
  Granting more never takes an approval away: what the stored state allows before the classifier, it allows
  after any further grants, as long as no remembered rejection covers the script.
\<close>

lemma more_grants_still_allow:
  assumes "grants_more s t" "\<not> remembered_deny x t cmd"
    and "bash_grant_pre_decision cmd (evaluate_bash x cmd s True) s pin pre_classifier = Some (DAllow, reason)"
  shows "\<exists>r. bash_grant_pre_decision cmd (evaluate_bash x cmd t True) t pin pre_classifier = Some (DAllow, r)"
proof (cases "all_commands_from_script (ext_parse x) cmd")
  case None
  note s = evaluate_unparsed [OF None, of s True] and t = evaluate_unparsed [OF None, of t True]
  note allows = pre_decision_allows [OF assms(3)]
  have raw: "raw_deny_rejection cmd s = None" using s(1) allows(1) raw_deny_some [of cmd s] by (cases "raw_deny_rejection cmd s") auto
  have "raw_deny_rejection cmd t = None"
    using assms(2) None by (simp add: raw_deny_iff remembered_deny_def)
  moreover have "exact_grant (evaluate_bash x cmd s True)"
    using assms(3) s(1) raw by (auto simp: bash_grant_pre_decision_def pre_classifier_def grant_if_def split: if_split_asm)
  then have "exact_grant (evaluate_bash x cmd t True)" using assms(1) s(2) t(2) by (auto simp: grants_more_def)
  ultimately show ?thesis
    by (intro pre_decision_parsed(3)) (auto simp: t(1) pre_classifier_def)
next
  case (Some cs)
  obtain tree where tree: "ext_parse x cmd = Some tree" "try_parse_word_only_commands_sequence tree cmd = Some cs"
    using parsed_cases [OF Some] .
  note s = evaluate_parsed [OF tree, of s True] and t = evaluate_parsed [OF tree, of t True]
  note allows = pre_decision_allows [OF assms(3)]
  let ?segs = "command_segments (raw_segments cs)"
  have clear: "\<not> list_ex (denied s) ?segs" "\<not> list_ex (denied t) ?segs"
    using allows(1) s(1) assms(2) Some by (simp_all add: remembered_deny_def)
  have fewer: "assessment_of (evaluate_bash x cmd t True) \<subseteq> assessment_of (evaluate_bash x cmd s True)"
    unfolding s(3) [OF clear(1)] t(3) [OF clear(2)] using findings_more [OF assms(1)] by blast
  have exact: "exact_grant (evaluate_bash x cmd s True) \<Longrightarrow> exact_grant (evaluate_bash x cmd t True)"
    unfolding s(2) t(2) by (rule whole_grant_more [OF assms(1)])
  have floor: "exact_grant (evaluate_bash x cmd t True) \<or> \<not> constrains_broad_grant (assessment_of (evaluate_bash x cmd t True))"
    using allows(2) exact floor_more [OF fewer] by blast
  have no_reject: "\<not> (\<exists>r. segments_of (evaluate_bash x cmd t True) = SegmentReject r)" using t(1) clear(2) by simp
  note decide = pre_decision_parsed [OF no_reject floor]
  show ?thesis
  proof (cases "filter (segment_prompts x t True) ?segs = []")
    case True
    then obtain v where "segments_of (evaluate_bash x cmd t True) = AutoAllow v" using t(5) [OF clear(2)] by auto
    then show ?thesis by (intro decide(1)) (auto simp: pre_classifier_def)
  next
    case False
    then have prompts: "segments_of (evaluate_bash x cmd t True)
        = NeedsPrompts (map (join '' '') (filter (segment_prompts x t True) ?segs))" using t(5) [OF clear(2)] by simp
    from False have "filter (segment_prompts x s True) ?segs \<noteq> []"
      using prompts_more [OF assms(1)] by (auto simp: filter_empty_conv)
    then have "segments_of (evaluate_bash x cmd s True)
        = NeedsPrompts (map (join '' '') (filter (segment_prompts x s True) ?segs))" using s(5) [OF clear(1)] by simp
    from allows(3) [OF this] have "if DangerousCommand \<in> assessment_of (evaluate_bash x cmd s True)
        then exact_grant (evaluate_bash x cmd s True) else persisted_bash_auto_allows s cmd pin"
      by (simp add: pre_classifier_def)
    moreover have "DangerousCommand \<in> assessment_of (evaluate_bash x cmd t True)
        \<longleftrightarrow> DangerousCommand \<in> assessment_of (evaluate_bash x cmd s True)"
      unfolding s(3) [OF clear(1)] t(3) [OF clear(2)] using dangerous_finding_more [of s _ t] by auto
    ultimately show ?thesis
      using exact persisted_more [OF assms(1)]
      by (intro decide(2) [OF _ prompts]) (auto simp: pre_classifier_def split: if_split_asm)
  qed
qed

subsection \<open>Examples\<close>

lemma literal_commands:
  "all_commands_from_script (ext_parse literal_externals) ''ls x''
     = Some [\<lparr>command_words = [''ls'', ''x''], span_start = 0, span_end = 4\<rparr>]"
  by code_simp

theorem auto_allow_iff_every_segment_cleared_witness:
  "\<exists>v. segments_of (evaluate_bash literal_externals ''ls x'' default_permission_state True) = AutoAllow v"
proof -
  have "list_all (cleared literal_externals default_permission_state True) (command_segments [[''ls'', ''x'']])"
    by code_simp
  then show ?thesis
    using auto_allow_iff_every_segment_cleared [OF literal_commands, of default_permission_state True]
    by (simp add: raw_segments_def)
qed

theorem grants_do_not_vouch_for_effects_witness:
  "\<not> writes_real_file (simple_script_tree ''ls x'') ''ls x''"
proof -
  have "bash_grant_pre_decision ''ls x'' (evaluate_bash literal_externals ''ls x'' default_permission_state True)
      default_permission_state None pre_classifier = Some (DAllow, ''safe_command'')"
    by code_simp
  moreover have "ext_parse literal_externals ''ls x'' = Some (simple_script_tree ''ls x'')"
    by (simp add: literal_externals_def)
  moreover have "try_parse_word_only_commands_sequence (simple_script_tree ''ls x'') ''ls x''
      = Some [\<lparr>command_words = [''ls'', ''x''], span_start = 0, span_end = 4\<rparr>]"
    by code_simp
  moreover have "\<not> whole_script_grant (ext_parse literal_externals) ''ls x''
        [\<lparr>command_words = [''ls'', ''x''], span_start = 0, span_end = 4\<rparr>] default_permission_state"
    by (simp add: whole_script_grant_def default_permission_state_def)
  ultimately show ?thesis using grants_do_not_vouch_for_effects by blast
qed

end
