(* ===== verification/DomainAllowlist.thy ===== *)
theory DomainAllowlist
  imports PermissionPolicy
begin

section \<open>The allowlist of web domains\<close>

text \<open>
  Models \<open>web_fetch/domain.rs\<close>: the raw entries, a host or a host with a path, are put into a map from the
  host once, and a URL is looked up in it.  The parsed URL and the lower case of Unicode are parameters.
\<close>

record parsed_url =
  url_host :: "rstr option"
  url_path :: rstr

datatype host_entry = AnyPath | PathPrefixes "rstr list"

type_synonym domain_matcher = "rstr \<rightharpoonup> host_entry"

text \<open>One raw entry: its host and, unless any path is allowed, its path prefix.\<close>

definition split_entry :: "'pat externals \<Rightarrow> rstr \<Rightarrow> (rstr \<times> rstr option) option" where
  "split_entry x raw =
     (let normalized = normalize_domain x raw in
      if normalized = '''' then None
      else
        (case str_find ''/'' normalized of
           None \<Rightarrow> Some (normalized, None)
         | Some i \<Rightarrow>
             (let raw_path = drop i normalized; pfx = trim_end_ascii {CHR ''/''} raw_path in
              Some (take i normalized,
                    if pfx = '''' \<or> pfx = ''/'' then None
                    else if starts_with pfx ''/'' then Some pfx
                    else Some (''/'' @ pfx)))))"

text \<open>
  An entry whose path is empty after all (\<open>example.com/.\<close>) is inserted like a host, but only after the test
  that the host is not already free; the outcome is the same.
\<close>

definition add_prefix :: "domain_matcher \<Rightarrow> rstr \<Rightarrow> rstr \<Rightarrow> domain_matcher" where
  "add_prefix entries host pfx =
     (case entries host of
        Some AnyPath \<Rightarrow> entries
      | Some (PathPrefixes v) \<Rightarrow>
          entries(host \<mapsto> PathPrefixes (if pfx \<in> set v then v else v @ [pfx]))
      | None \<Rightarrow> entries(host \<mapsto> PathPrefixes [pfx]))"

definition add_entry :: "'pat externals \<Rightarrow> domain_matcher \<Rightarrow> rstr \<Rightarrow> domain_matcher" where
  "add_entry x entries raw =
     (case split_entry x raw of
        None \<Rightarrow> entries
      | Some (host, None) \<Rightarrow> entries(host \<mapsto> AnyPath)
      | Some (host, Some pfx) \<Rightarrow> add_prefix entries host pfx)"

definition new_matcher :: "'pat externals \<Rightarrow> rstr list \<Rightarrow> domain_matcher" where
  "new_matcher x raw_entries = foldl (add_entry x) Map.empty raw_entries"

definition path_has_prefix :: "rstr \<Rightarrow> rstr \<Rightarrow> bool" where
  "path_has_prefix path pfx \<longleftrightarrow>
     path = pfx
     \<or> starts_with path pfx \<and> length pfx < length path \<and> path ! length pfx = CHR ''/''"

text \<open>\<open>None\<close>: the URL is permitted; otherwise the domain that is not allowed.\<close>

definition check_domain :: "'pat externals \<Rightarrow> domain_matcher \<Rightarrow> parsed_url \<Rightarrow> rstr option" where
  "check_domain x entries url =
     (case url_host url of
        None \<Rightarrow> Some ''''
      | Some raw_host \<Rightarrow>
          (let host = normalize_domain x raw_host in
           case entries host of
             Some AnyPath \<Rightarrow> None
           | Some (PathPrefixes pfxs) \<Rightarrow>
               if list_ex (path_has_prefix (ext_lowercase x (url_path url))) pfxs then None else Some host
           | None \<Rightarrow> Some host))"

definition domain_from_url :: "'pat externals \<Rightarrow> parsed_url option \<Rightarrow> rstr option" where
  "domain_from_url x url = Option.bind url (\<lambda>u. map_option (normalize_domain x) (url_host u))"

subsection \<open>The map answers as the entries do\<close>

definition entry_permits :: "'pat externals \<Rightarrow> rstr \<Rightarrow> rstr \<Rightarrow> rstr \<Rightarrow> bool" where
  "entry_permits x host path raw =
     (case split_entry x raw of
        None \<Rightarrow> False
      | Some (h, None) \<Rightarrow> h = host
      | Some (h, Some pfx) \<Rightarrow> h = host \<and> path_has_prefix path pfx)"

definition map_permits :: "domain_matcher \<Rightarrow> rstr \<Rightarrow> rstr \<Rightarrow> bool" where
  "map_permits entries host path =
     (case entries host of
        Some AnyPath \<Rightarrow> True
      | Some (PathPrefixes v) \<Rightarrow> list_ex (path_has_prefix path) v
      | None \<Rightarrow> False)"

lemma map_permits_add:
  "map_permits (add_entry x entries raw) host path \<longleftrightarrow> map_permits entries host path \<or> entry_permits x host path raw"
  by (auto simp: map_permits_def add_entry_def add_prefix_def entry_permits_def list_ex_iff
      split: option.splits host_entry.splits)

lemma map_permits_fold:
  "map_permits (foldl (add_entry x) entries raws) host path
     \<longleftrightarrow> map_permits entries host path \<or> list_ex (entry_permits x host path) raws"
  by (induction raws arbitrary: entries) (auto simp: map_permits_add)

text \<open>
  The precomputed map decides exactly as a scan of the raw entries would, in any order and with any
  repetitions: a URL is permitted if and only if it has a host and some entry is that host alone, or that
  host with a prefix of the path that ends at a separator.
\<close>

theorem allowlist_is_a_scan:
  "check_domain x (new_matcher x raws) url = None \<longleftrightarrow>
     (\<exists>host. url_host url = Some host
        \<and> list_ex (entry_permits x (normalize_domain x host) (ext_lowercase x (url_path url))) raws)"
proof (cases "url_host url")
  case (Some host)
  have "check_domain x (new_matcher x raws) url = None
      \<longleftrightarrow> map_permits (new_matcher x raws) (normalize_domain x host) (ext_lowercase x (url_path url))"
    by (auto simp: check_domain_def Some map_permits_def Let_def split: option.split host_entry.split)
  also have "\<dots> \<longleftrightarrow> list_ex (entry_permits x (normalize_domain x host) (ext_lowercase x (url_path url))) raws"
    by (simp add: new_matcher_def map_permits_fold) (simp add: map_permits_def)
  finally show ?thesis using Some by simp
qed (simp add: check_domain_def)

end
