(* ===== verification/SessionGrants.thy ===== *)
theory SessionGrants
  imports GrantDecisions DomainAllowlist
begin

section \<open>Grants of a session\<close>

text \<open>
  Models \<open>manager/bash_grants.rs\<close>, how an answer to a prompt becomes a stored key, and the decisions of
  \<open>manager/mod.rs\<close> from the stored state for MCP tools, web fetches, edits and shell commands.
\<close>

subsection \<open>What an answer stores\<close>

definition always_allow_scope_persists :: "bash_parser \<Rightarrow> highlights \<Rightarrow> nat \<Rightarrow> bool" where
  "always_allow_scope_persists parse h n =
     (let words = hl_words h in
      if n = 0 \<or> n > length words \<or> n < minimum_always_allow_scope words then False
      else words_join_unambiguously parse (take n words)
           \<or> n = length words \<and> hl_prefix h = [] \<and> hl_suffix h = [])"

definition max_segment_grants :: nat where
  "max_segment_grants = 5"

definition grantable_segment :: "bash_parser \<Rightarrow> rstr list \<Rightarrow> bool" where
  "grantable_segment parse words \<longleftrightarrow>
     words \<noteq> [] \<and> \<not> is_setup_command words \<and> \<not> is_dangerous_command_words words
     \<and> \<not> head_is_exec_vehicle words \<and> words_join_unambiguously parse words"

definition bash_grant_segments :: "bash_parser \<Rightarrow> rstr \<Rightarrow> rstr list" where
  "bash_grant_segments parse cmd =
     (case all_commands_from_script parse cmd of
        None \<Rightarrow> []
      | Some segments \<Rightarrow>
          (let grants = map (join '' '') (filter (grantable_segment parse)
                          (map (\<lambda>c. unwrap_wrappers (command_words c)) segments))
           in if length grants > max_segment_grants then [] else grants))"

definition insert_command :: "rstr \<Rightarrow> permission_state \<Rightarrow> permission_state" where
  "insert_command key state = state\<lparr>allowed_bash_commands := List.insert key (allowed_bash_commands state)\<rparr>"

definition persist_bash_always_allow ::
  "bash_parser \<Rightarrow> permission_state \<Rightarrow> rstr \<Rightarrow> rstr \<Rightarrow> permission_state" where
  "persist_bash_always_allow parse state cmd label =
     (case primary_command_from_script parse cmd of
        None \<Rightarrow> state
      | Some h \<Rightarrow>
          (let words = hl_words h; min_scope = minimum_always_allow_scope words in
           if list_ex (\<lambda>n. words_join_unambiguously parse (take n words) \<and> join '' '' (take n words) = label)
                [min_scope..<Suc (length words)] then insert_command label state
           else if hl_prefix h = [] \<and> hl_suffix h = [] \<and> join '' '' words = label then insert_command cmd state
           else state))"

definition bash_glob_covers_script :: "'pat externals \<Rightarrow> rstr \<Rightarrow> rstr \<Rightarrow> bool" where
  "bash_glob_covers_script x cmd pattern =
     (if bash_glob_is_catchall x pattern then False
      else
        (case all_commands_from_script (ext_parse x) cmd of
           None \<Rightarrow> bash_pattern_matches_command x pattern cmd
         | Some segments \<Rightarrow>
             list_ex (\<lambda>c. let words = unwrap_wrappers (command_words c) in
                 words \<noteq> [] \<and> \<not> is_setup_command words
                 \<and> bash_pattern_matches_command x pattern (join '' '' words)) segments))"

definition always_allow_row_is_effective :: "'pat externals \<Rightarrow> rstr \<Rightarrow> bool" where
  "always_allow_row_is_effective x cmd =
     (case primary_command_from_script (ext_parse x) cmd of
        None \<Rightarrow> False
      | Some h \<Rightarrow>
          (let scope = default_always_allow_scope (hl_words h) in
           if \<not> always_allow_scope_persists (ext_parse x) h scope then False
           else
             (let scratch = persist_bash_always_allow (ext_parse x) default_permission_state cmd
                              (join '' '' (take scope (hl_words h)))
              in case bash_grant_pre_decision cmd (evaluate_bash x cmd scratch True) scratch None pre_classifier of
                   Some (d, _) \<Rightarrow> d = DAllow
                 | None \<Rightarrow> False)))"

subsection \<open>MCP tools\<close>

definition id_char :: "char \<Rightarrow> bool" where
  "id_char c \<longleftrightarrow> ascii_alphabetic c \<or> ascii_digit c \<or> c = CHR ''_'' \<or> c = CHR ''-''"

definition is_valid_segment :: "rstr \<Rightarrow> bool" where
  "is_valid_segment s \<longleftrightarrow> s \<noteq> '''' \<and> list_all id_char s"

text \<open>\<open>splitn(3, ':')\<close>: at most one colon may separate a namespace.\<close>

definition is_well_formed_tool_id :: "rstr \<Rightarrow> bool" where
  "is_well_formed_tool_id s =
     (case split_on (CHR '':'') s of
        [first] \<Rightarrow> is_valid_segment first
      | [first, second] \<Rightarrow> is_valid_segment first \<and> is_valid_segment second
      | _ \<Rightarrow> False)"

definition tool_id_new :: "rstr \<Rightarrow> rstr option" where
  "tool_id_new s = (if s = '''' \<or> \<not> is_well_formed_tool_id s then None else Some s)"

text \<open>The places where the two-byte window is the delimiter \<open>__\<close>, overlapping ones included.\<close>

fun delimiter_positions :: "nat \<Rightarrow> rstr \<Rightarrow> nat list" where
  "delimiter_positions i (a # b # rest) =
     (if a = CHR ''_'' \<and> b = CHR ''_'' then [i] else []) @ delimiter_positions (Suc i) (b # rest)"
| "delimiter_positions i _ = []"

definition parse_mcp_qualified_name :: "rstr \<Rightarrow> (rstr \<times> rstr \<times> rstr) option" where
  "parse_mcp_qualified_name name =
     (case delimiter_positions 0 name of
        [boundary] \<Rightarrow>
          (let server = take boundary name; tool = drop (boundary + 2) name in
           if server = '''' \<or> tool = '''' then None
           else map_option (\<lambda>i. (i, server, tool)) (tool_id_new name))
      | _ \<Rightarrow> None)"

definition mcp_server_prefix_allowed :: "rstr \<Rightarrow> rstr list \<Rightarrow> bool" where
  "mcp_server_prefix_allowed name servers \<longleftrightarrow>
     servers \<noteq> []
     \<and> (case parse_mcp_qualified_name name of Some (_, server, _) \<Rightarrow> server \<in> set servers | None \<Rightarrow> False)"

definition mcp_pre_decision :: "rstr \<Rightarrow> permission_state \<Rightarrow> bool \<Rightarrow> bool \<Rightarrow> decision option" where
  "mcp_pre_decision name state policy_forced remember_tool_approvals =
     (if name \<in> set (disallowed_mcp_tools state) then Some (DReject (rejected_before name))
      else if policy_forced \<and> \<not> remember_tool_approvals then None
      else if name \<in> set (allowed_mcp_tools state) then Some DAllow
      else if mcp_server_prefix_allowed name (allowed_mcp_servers state) then Some DAllow
      else None)"

subsection \<open>Web fetches\<close>

definition web_fetch_deny_key :: "'pat externals \<Rightarrow> rstr \<Rightarrow> rstr" where
  "web_fetch_deny_key x host = ext_lowercase x (trim_end_ascii {CHR ''.''} (trim host))"

definition web_fetch_deny_key_from_url :: "'pat externals \<Rightarrow> parsed_url option \<Rightarrow> rstr option" where
  "web_fetch_deny_key_from_url x url =
     Option.bind (Option.bind url url_host) (\<lambda>host.
       let key = web_fetch_deny_key x host in if key = '''' then None else Some key)"

definition domain_denied_by :: "rstr \<Rightarrow> rstr \<Rightarrow> bool" where
  "domain_denied_by domain d \<longleftrightarrow>
     d \<noteq> ''''
     \<and> (domain = d
        \<or> length domain > length d + 1 \<and> ends_with domain d \<and> domain ! (length domain - length d - 1) = CHR ''.'')"

definition denied_web_fetch_domain :: "'pat externals \<Rightarrow> rstr \<Rightarrow> rstr list \<Rightarrow> rstr option" where
  "denied_web_fetch_domain x host disallowed =
     (if disallowed = [] then None else List.find (domain_denied_by (web_fetch_deny_key x host)) disallowed)"

definition web_fetch_deny_pre_decision :: "'pat externals \<Rightarrow> parsed_url \<Rightarrow> permission_state \<Rightarrow> decision option" where
  "web_fetch_deny_pre_decision x url state =
     Option.bind (url_host url) (\<lambda>host.
       map_option (\<lambda>d. DReject (rejected_before d))
         (denied_web_fetch_domain x host (disallowed_web_fetch_domains state)))"

subsection \<open>The decision from the session\<close>

text \<open>\<open>parse_url\<close> is \<open>url::Url::parse\<close>.\<close>

definition session_grant_pre_decision ::
  "'pat externals \<Rightarrow> (rstr \<Rightarrow> parsed_url option) \<Rightarrow> 'json access_kind \<Rightarrow> bash_evaluation option \<Rightarrow> permission_state
   \<Rightarrow> bool \<Rightarrow> domain_matcher \<Rightarrow> bool \<Rightarrow> rstr option \<Rightarrow> (decision \<times> rstr) option" where
  "session_grant_pre_decision x parse_url access evaluation state allow_edits matcher honor_static yolo_pin =
     (case access of
        AccessMCP name _ \<Rightarrow>
          map_option (\<lambda>d. (d, case d of DReject _ \<Rightarrow> ''session_deny'' | _ \<Rightarrow> ''session_grant''))
            (mcp_pre_decision name state False False)
      | AccessWebFetch url \<Rightarrow>
          (case parse_url url of
             None \<Rightarrow> None
           | Some u \<Rightarrow>
               (case web_fetch_deny_pre_decision x u state of
                  Some reject \<Rightarrow> Some (reject, ''session_deny'')
                | None \<Rightarrow>
                    if honor_static \<and> check_domain x matcher u = None then Some (DAllow, ''static_allowlist'')
                    else
                      Option.bind (url_host u) (\<lambda>host.
                        if normalize_domain x host \<in> set (allowed_web_fetch_domains state)
                        then Some (DAllow, ''session_grant'') else None)))
      | AccessEdit _ \<Rightarrow> if allow_edits then Some (DAllow, ''session_grant'') else None
      | AccessBash cmd \<Rightarrow>
          Option.bind evaluation (\<lambda>e. bash_grant_pre_decision cmd e state yolo_pin pre_classifier)
      | _ \<Rightarrow> None)"

subsection \<open>Only what was shown is stored\<close>

lemma insert_command_keys [simp]:
  "set (allowed_bash_commands (insert_command key state)) = insert key (set (allowed_bash_commands state))"
  by (simp add: insert_command_def)

lemma persist_cases:
  obtains (unchanged) "persist_bash_always_allow parse state cmd label = state"
  | (label) h n where "primary_command_from_script parse cmd = Some h"
      "minimum_always_allow_scope (hl_words h) \<le> n" "n \<le> length (hl_words h)"
      "words_join_unambiguously parse (take n (hl_words h))" "label = join '' '' (take n (hl_words h))"
      "persist_bash_always_allow parse state cmd label = insert_command label state"
  | (whole) h where "primary_command_from_script parse cmd = Some h" "hl_prefix h = []" "hl_suffix h = []"
      "label = join '' '' (hl_words h)"
      "persist_bash_always_allow parse state cmd label = insert_command cmd state"
proof (cases "primary_command_from_script parse cmd")
  case None
  then show thesis using unchanged by (simp add: persist_bash_always_allow_def)
next
  case (Some h)
  let ?ok = "\<lambda>n. words_join_unambiguously parse (take n (hl_words h)) \<and> join '' '' (take n (hl_words h)) = label"
  show thesis
  proof (cases "list_ex ?ok [minimum_always_allow_scope (hl_words h)..<Suc (length (hl_words h))]")
    case True
    then obtain n where "minimum_always_allow_scope (hl_words h) \<le> n" "n \<le> length (hl_words h)" "?ok n"
      unfolding list_ex_iff by auto
    then show thesis using label Some True by (simp add: persist_bash_always_allow_def Let_def)
  next
    case False
    then show thesis using whole unchanged Some
      by (cases "hl_prefix h = [] \<and> hl_suffix h = [] \<and> join '' '' (hl_words h) = label")
        (simp_all add: persist_bash_always_allow_def Let_def)
  qed
qed

lemma minimum_pinned: "always_allow_scope_pinned words \<Longrightarrow> minimum_always_allow_scope words = length words"
  by (simp add: minimum_always_allow_scope_def)

text \<open>
  An answer to a prompt stores nothing but what the prompt showed.  A key that it adds is the label, and
  then the label is a prefix of the words of the primary command, at or above the least scope on offer, and
  no other words; or it is the script as it stands, and then the label is the whole command with nothing
  before or after it.  For a dangerous command, an interpreter or \<open>sed\<close> the label is the whole command.
\<close>

theorem answer_stores_what_was_shown:
  assumes "key \<in> set (allowed_bash_commands (persist_bash_always_allow parse state cmd label))"
    and "key \<notin> set (allowed_bash_commands state)"
  shows "\<exists>h n. primary_command_from_script parse cmd = Some h
    \<and> label = join '' '' (take n (hl_words h)) \<and> minimum_always_allow_scope (hl_words h) \<le> n
    \<and> (key = label \<and> words_join_unambiguously parse (take n (hl_words h))
       \<or> key = cmd \<and> hl_prefix h = [] \<and> hl_suffix h = [] \<and> label = join '' '' (hl_words h))
    \<and> (always_allow_scope_pinned (hl_words h) \<longrightarrow> label = join '' '' (hl_words h))"
proof (rule persist_cases [of parse state cmd label])
  assume "persist_bash_always_allow parse state cmd label = state"
  with assms show ?thesis by simp
next
  fix h n
  assume h: "primary_command_from_script parse cmd = Some h" "minimum_always_allow_scope (hl_words h) \<le> n"
    "n \<le> length (hl_words h)" "words_join_unambiguously parse (take n (hl_words h))"
    "label = join '' '' (take n (hl_words h))" "persist_bash_always_allow parse state cmd label = insert_command label state"
  then have "key = label" using assms by auto
  moreover have "always_allow_scope_pinned (hl_words h) \<longrightarrow> label = join '' '' (hl_words h)"
    using h(2,3,5) minimum_pinned by auto
  ultimately show ?thesis using h by (intro exI [of _ h] exI [of _ n]) simp
next
  fix h
  assume h: "primary_command_from_script parse cmd = Some h" "hl_prefix h = []" "hl_suffix h = []"
    "label = join '' '' (hl_words h)" "persist_bash_always_allow parse state cmd label = insert_command cmd state"
  then have "key = cmd" using assms by auto
  with h show ?thesis
    by (intro exI [of _ h] exI [of _ "max (length (hl_words h)) (minimum_always_allow_scope (hl_words h))"]) simp
qed

subsection \<open>An effective row works in every session\<close>

lemma grants_more_persist:
  "grants_more (persist_bash_always_allow parse default_permission_state cmd label)
     (persist_bash_always_allow parse state cmd label)"
proof -
  have base: "grants_more default_permission_state state"
    by (simp add: grants_more_def default_permission_state_def)
  show ?thesis
    using base
    by (auto simp: persist_bash_always_allow_def grants_more_def insert_command_def Let_def split: option.split)
qed

lemma persist_denies: "disallowed_bash_commands (persist_bash_always_allow parse state cmd label) = disallowed_bash_commands state"
  by (simp add: persist_bash_always_allow_def insert_command_def Let_def split: option.split)

lemma remembered_deny_cong:
  "disallowed_bash_commands s = disallowed_bash_commands t \<Longrightarrow> remembered_deny x s cmd = remembered_deny x t cmd"
proof -
  assume "disallowed_bash_commands s = disallowed_bash_commands t"
  moreover from this have "denied s = denied t" by (simp add: denied_def fun_eq_iff)
  ultimately show ?thesis by (simp add: remembered_deny_def split: option.split)
qed

text \<open>
  C32: The row \<open>Always allow\<close> keeps its promise.  It is shown when a trial save in an empty store would let
  the script run again; then the save does so in every session, whatever it has granted already, unless the
  user has rejected one of the commands of the script: the same script is allowed before the classifier.
\<close>

theorem effective_row_replays:
  assumes "always_allow_row_is_effective x cmd" "primary_command_from_script (ext_parse x) cmd = Some h"
    and "\<not> remembered_deny x state cmd"
  defines "saved \<equiv> persist_bash_always_allow (ext_parse x) state cmd
      (join '' '' (take (default_always_allow_scope (hl_words h)) (hl_words h)))"
  shows "\<exists>r. bash_grant_pre_decision cmd (evaluate_bash x cmd saved True) saved None pre_classifier = Some (DAllow, r)"
proof -
  let ?label = "join '' '' (take (default_always_allow_scope (hl_words h)) (hl_words h))"
  let ?scratch = "persist_bash_always_allow (ext_parse x) default_permission_state cmd ?label"
  from assms(1,2) obtain reason where
    "bash_grant_pre_decision cmd (evaluate_bash x cmd ?scratch True) ?scratch None pre_classifier = Some (DAllow, reason)"
    by (auto simp: always_allow_row_is_effective_def Let_def split: if_split_asm option.split_asm)
  moreover have "\<not> remembered_deny x saved cmd"
    using assms(3) remembered_deny_cong [of saved state x cmd] by (simp add: saved_def persist_denies)
  ultimately show ?thesis
    using more_grants_still_allow [OF grants_more_persist] unfolding saved_def by blast
qed

subsection \<open>Names of MCP tools split one way\<close>

lemma delimiter_positions_bound: "i \<in> set (delimiter_positions k s) \<Longrightarrow> k \<le> i \<and> i + 2 \<le> k + length s"
  by (induction k s rule: delimiter_positions.induct) (auto split: if_split_asm)

lemma delimiter_positions_iff:
  "i \<in> set (delimiter_positions k s) \<longleftrightarrow> k \<le> i \<and> take 2 (drop (i - k) s) = ''__''"
proof (induction k s rule: delimiter_positions.induct)
  case (1 k a b rest)
  show ?case
  proof (cases "i = k")
    case True
    then show ?thesis using 1 by (auto simp: numeral_2_eq_2 dest: delimiter_positions_bound)
  next
    case False
    show ?thesis
    proof (cases "k < i")
      case True
      then obtain m where "i = Suc (k + m)" using less_imp_Suc_add by blast
      then show ?thesis using 1 by auto
    next
      case lower: False
      with False show ?thesis using 1 by auto
    qed
  qed
qed (auto simp: numeral_2_eq_2 take_Cons drop_Cons split: nat.splits)

lemma delimiter_positions_sorted: "sorted_wrt (<) (delimiter_positions k s)"
  by (induction k s rule: delimiter_positions.induct) (auto dest: delimiter_positions_bound)

lemma delimiter_positions_single:
  "delimiter_positions 0 s = [b] \<longleftrightarrow> (\<forall>i. take 2 (drop i s) = ''__'' \<longleftrightarrow> i = b)"
proof
  assume "delimiter_positions 0 s = [b]"
  then have "set (delimiter_positions 0 s) = {b}" by simp
  then show "\<forall>i. take 2 (drop i s) = ''__'' \<longleftrightarrow> i = b"
    using delimiter_positions_iff [of _ 0 s] by auto
next
  assume "\<forall>i. take 2 (drop i s) = ''__'' \<longleftrightarrow> i = b"
  then have "set (delimiter_positions 0 s) = {b}"
    using delimiter_positions_iff [of _ 0 s] by auto
  moreover have "distinct (delimiter_positions 0 s)"
    using delimiter_positions_sorted strict_sorted_iff by blast
  ultimately show "delimiter_positions 0 s = [b]"
    by (metis distinct_card card_1_singleton_iff length_0_conv length_Suc_conv list.set_intros(1) singletonD One_nat_def card.insert finite.emptyI empty_iff card.empty)
qed

text \<open>
  The qualified name of an MCP tool is read in one way only.  If it is read at all, it is the server, the
  delimiter and the tool, both not empty, and the delimiter stands nowhere else, not even overlapping; and
  every such name that is a valid identifier is read back.  So a grant for a server covers no other server's
  tool.
\<close>

theorem mcp_name_roundtrip:
  "parse_mcp_qualified_name name = Some (i, server, tool) \<longleftrightarrow>
     name = server @ ''__'' @ tool \<and> server \<noteq> '''' \<and> tool \<noteq> '''' \<and> i = name \<and> is_well_formed_tool_id name
     \<and> (\<nexists>j. j \<noteq> length server \<and> take 2 (drop j name) = ''__'')"
proof
  assume parsed: "parse_mcp_qualified_name name = Some (i, server, tool)"
  then obtain b where b: "delimiter_positions 0 name = [b]" "server = take b name" "tool = drop (b + 2) name"
      "server \<noteq> ''''" "tool \<noteq> ''''" "i = name" "is_well_formed_tool_id name"
    by (auto simp: parse_mcp_qualified_name_def tool_id_new_def Let_def split: list.split_asm if_split_asm)
  from b(1) have at: "take 2 (drop j name) = ''__'' \<longleftrightarrow> j = b" for j by (simp add: delimiter_positions_single)
  have "name = take b name @ take 2 (drop b name) @ drop (b + 2) name"
    by (metis append_take_drop_id drop_drop add.commute)
  then have "name = server @ take 2 (drop b name) @ tool" unfolding b(2,3) .
  moreover have "take 2 (drop b name) = ''__''" using at by simp
  ultimately have "name = server @ ''__'' @ tool" by (simp only:)
  moreover have "length server = b"
    using b(2,3,5) by (cases "b \<le> length name") auto
  ultimately show "name = server @ ''__'' @ tool \<and> server \<noteq> '''' \<and> tool \<noteq> '''' \<and> i = name \<and> is_well_formed_tool_id name
     \<and> (\<nexists>j. j \<noteq> length server \<and> take 2 (drop j name) = ''__'')"
    using b at by auto
next
  assume n: "name = server @ ''__'' @ tool \<and> server \<noteq> '''' \<and> tool \<noteq> '''' \<and> i = name \<and> is_well_formed_tool_id name
     \<and> (\<nexists>j. j \<noteq> length server \<and> take 2 (drop j name) = ''__'')"
  then have "take 2 (drop j name) = ''__'' \<longleftrightarrow> j = length server" for j by (auto simp: numeral_2_eq_2)
  then have "delimiter_positions 0 name = [length server]" by (simp add: delimiter_positions_single)
  then show "parse_mcp_qualified_name name = Some (i, server, tool)"
    using n unfolding parse_mcp_qualified_name_def tool_id_new_def Let_def
    by (elim conjE) (simp split: list.split)
qed

subsection \<open>A remembered rejection of a domain\<close>

lemma domain_denied_iff:
  "domain_denied_by domain d \<longleftrightarrow> d \<noteq> '''' \<and> (domain = d \<or> (\<exists>p. p \<noteq> '''' \<and> domain = p @ ''.'' @ d))"
proof -
  have "length domain > length d + 1 \<and> ends_with domain d \<and> domain ! (length domain - length d - 1) = CHR ''.''
      \<longleftrightarrow> (\<exists>p. p \<noteq> '''' \<and> domain = p @ ''.'' @ d)" (is "?l \<longleftrightarrow> ?r")
  proof
    assume l: ?l
    let ?q = "take (length domain - length d) domain"
    have "take (length d) (rev domain) = rev d"
      using l by (simp add: ends_with_def starts_with_def)
    then have "drop (length domain - length d) domain = d" by (simp add: take_rev)
    then have split: "domain = ?q @ d" by (metis append_take_drop_id)
    have len: "length ?q > 1" "?q ! (length ?q - 1) = CHR ''.''" using l by auto
    then have "?q = butlast ?q @ ''.''" "butlast ?q \<noteq> ''''"
      by (metis append_butlast_last_id last_conv_nth length_0_conv not_less_zero)
         (use len in \<open>cases ?q; auto simp: butlast_conv_take\<close>)
    then show ?r using split by (metis append.assoc)
  next
    assume ?r
    then obtain p where "p \<noteq> ''''" "domain = p @ ''.'' @ d" by blast
    then show ?l by (auto simp: ends_with_def starts_with_def nth_append)
  qed
  then show ?thesis by (simp only: domain_denied_by_def)
qed

text \<open>
  A remembered rejection of a domain beats every way to allow a fetch: the decision from the session is a
  rejection exactly when the URL has a host that is a rejected domain or lies below one; the static
  allowlist and the stored grants are not asked.
\<close>

theorem rejected_domain_wins:
  assumes "parse_url url = Some u"
  shows "(\<exists>r. session_grant_pre_decision x parse_url (AccessWebFetch url) evaluation state allow_edits matcher
            honor_static yolo_pin = Some (DReject r, ''session_deny''))
    \<longleftrightarrow> (\<exists>host d. url_host u = Some host \<and> d \<in> set (disallowed_web_fetch_domains state) \<and> d \<noteq> ''''
          \<and> (web_fetch_deny_key x host = d \<or> (\<exists>p. p \<noteq> '''' \<and> web_fetch_deny_key x host = p @ ''.'' @ d)))"
proof (cases "url_host u")
  case None
  then show ?thesis
    by (auto simp: session_grant_pre_decision_def assms web_fetch_deny_pre_decision_def)
next
  case (Some host)
  have "(\<exists>d. denied_web_fetch_domain x host (disallowed_web_fetch_domains state) = Some d)
      \<longleftrightarrow> list_ex (domain_denied_by (web_fetch_deny_key x host)) (disallowed_web_fetch_domains state)"
    using find_none_iff [of "domain_denied_by (web_fetch_deny_key x host)" "disallowed_web_fetch_domains state"]
    by (auto simp: denied_web_fetch_domain_def)
  moreover have "(\<exists>r. session_grant_pre_decision x parse_url (AccessWebFetch url) evaluation state allow_edits matcher
            honor_static yolo_pin = Some (DReject r, ''session_deny''))
      \<longleftrightarrow> (\<exists>d. denied_web_fetch_domain x host (disallowed_web_fetch_domains state) = Some d)"
    by (auto simp: session_grant_pre_decision_def assms web_fetch_deny_pre_decision_def Some split: option.split)
  ultimately show ?thesis
    by (auto simp: Some list_ex_iff domain_denied_iff)
qed

subsection \<open>Examples\<close>

text \<open>\<open>make x\<close>: not on the safe lists, so the row is offered, for its two words.\<close>

lemma make_primary:
  "primary_command_from_script (ext_parse literal_externals) ''make x''
     = Some \<lparr>hl_prefix = [], hl_words = [''make'', ''x''], hl_suffix = []\<rparr>"
  by code_simp

theorem answer_stores_what_was_shown_witness:
  "\<exists>h n. primary_command_from_script (ext_parse literal_externals) ''make x'' = Some h
    \<and> ''make'' = join '' '' (take n (hl_words h)) \<and> minimum_always_allow_scope (hl_words h) \<le> n
    \<and> (words_join_unambiguously (ext_parse literal_externals) (take n (hl_words h))
       \<or> hl_prefix h = [] \<and> hl_suffix h = [])"
proof -
  have "''make'' \<in> set (allowed_bash_commands
      (persist_bash_always_allow (ext_parse literal_externals) default_permission_state ''make x'' ''make''))"
    by code_simp
  from answer_stores_what_was_shown [OF this] show ?thesis
    by (auto simp: default_permission_state_def)
qed

theorem effective_row_replays_witness:
  "\<exists>r. bash_grant_pre_decision ''make x'' (evaluate_bash literal_externals ''make x''
      (persist_bash_always_allow (ext_parse literal_externals) default_permission_state ''make x'' ''make x'') True)
      (persist_bash_always_allow (ext_parse literal_externals) default_permission_state ''make x'' ''make x'')
      None pre_classifier = Some (DAllow, r)"
proof -
  have "always_allow_row_is_effective literal_externals ''make x''" by code_simp
  moreover have "\<not> remembered_deny literal_externals default_permission_state ''make x''" by code_simp
  moreover have "join '' '' (take (default_always_allow_scope [''make'', ''x'']) [''make'', ''x'']) = ''make x''"
    by code_simp
  ultimately show ?thesis
    using effective_row_replays [OF _ make_primary] by (metis highlights.select_convs(2))
qed

theorem rejected_domain_wins_witness:
  "\<exists>r. session_grant_pre_decision literal_externals (\<lambda>_. Some \<lparr>url_host = Some ''a.b.c'', url_path = ''/''\<rparr>)
     (AccessWebFetch ''x'' :: unit access_kind) None
     (default_permission_state\<lparr>disallowed_web_fetch_domains := [''b.c''], allowed_web_fetch_domains := [''a.b.c'']\<rparr>)
     False Map.empty True None = Some (DReject r, ''session_deny'')"
proof -
  have "web_fetch_deny_key literal_externals ''a.b.c'' = ''a'' @ ''.'' @ ''b.c''" by code_simp
  then have "web_fetch_deny_key literal_externals ''a.b.c'' = ''b.c'' \<or>
      (\<exists>p. p \<noteq> '''' \<and> web_fetch_deny_key literal_externals ''a.b.c'' = p @ ''.'' @ ''b.c'')" by blast
  then show ?thesis
    by (intro rejected_domain_wins [THEN iffD2, OF refl] exI [of _ "''a.b.c''"] exI [of _ "''b.c''"]) simp
qed

end
