(* ===== verification/Json.thy ===== *)
theory Json
  imports RustStr
begin

section \<open>JSON values\<close>

text \<open>
  The part of \<open>serde_json::Value\<close> that the permission code reads: answers of the classifier, replies of the
  hub and the metadata of a selected row.  A number is known by its value as \<open>i64\<close>, if it has one; an
  object is an association list.  The parser and the printer are arguments where they are used.
\<close>

datatype json =
    JNull
  | JBool bool
  | JNumber "int option"
  | JString rstr
  | JArray "json list"
  | JObject "(rstr \<times> json) list"

definition json_get :: "rstr \<Rightarrow> json \<Rightarrow> json option" where
  "json_get key v = (case v of JObject fields \<Rightarrow> map_of fields key | _ \<Rightarrow> None)"

definition json_str :: "json \<Rightarrow> rstr option" where
  "json_str v = (case v of JString s \<Rightarrow> Some s | _ \<Rightarrow> None)"

definition json_bool :: "json \<Rightarrow> bool option" where
  "json_bool v = (case v of JBool b \<Rightarrow> Some b | _ \<Rightarrow> None)"

definition json_get_str :: "rstr \<Rightarrow> json \<Rightarrow> rstr option" where
  "json_get_str key v = Option.bind (json_get key v) json_str"

definition or_else :: "'a option \<Rightarrow> 'a option \<Rightarrow> 'a option" where
  "or_else a b = (case a of Some x \<Rightarrow> Some x | None \<Rightarrow> b)"

end
