(* ===== verification/PermissionPrompt.thy ===== *)
theory PermissionPrompt
  imports SessionGrants Json ShellPath
begin

section \<open>Prompts and their answers\<close>

text \<open>
  Models \<open>prompter.rs\<close> and \<open>hub_permission.rs\<close>: the rows offered for a request, the reading of the row the
  user selected, the request to the hub and the reading of its reply.  An ordered map of options is a list of
  options with distinct ids.  Arguments are the URL parser and the upper case of Unicode; what the client or
  the hub answers is a function of what it is asked.
\<close>

datatype client_type = Generic | HystersisTUI | HystersisWeb | Nebula | Extension | HystersisPager | Desktop

datatype option_kind = KindAllowOnce | KindAllowAlways | KindRejectOnce | KindRejectAlways

record permission_option =
  option_id :: rstr
  option_label :: rstr
  option_kind :: option_kind
  option_meta :: "json option"

definition plain_option :: "rstr \<Rightarrow> rstr \<Rightarrow> option_kind \<Rightarrow> permission_option" where
  "plain_option i label kind =
     \<lparr>option_id = i, option_label = label, option_kind = kind, option_meta = None\<rparr>"

definition find_option :: "permission_option list \<Rightarrow> rstr \<Rightarrow> permission_option option" where
  "find_option options i = List.find (\<lambda>opt. option_id opt = i) options"

subsection \<open>Outcomes\<close>

datatype prompt_outcome =
    AllowOnce
  | AllowAlways
  | AllowEditsForSession
  | AllowAlwaysBashCommand rstr
  | AllowAlwaysBashGlob rstr
  | AllowAlwaysDomain rstr
  | AllowAlwaysMcpTool rstr
  | AllowAlwaysMcpServer rstr
  | RejectOnce
  | RejectAlwaysBashCommand rstr
  | RejectAlwaysMcpTool rstr
  | RejectAlwaysDomain rstr
  | Cancelled
  | FollowupMessage rstr
  | PromptError rstr

datatype prompt_outcome_kind =
    KAllowOnce | KAllowAlways | KAllowEditsForSession | KAllowAlwaysBash | KAllowAlwaysBashGlob
  | KAllowAlwaysDomain | KAllowAlwaysMcpTool | KAllowAlwaysMcpServer | KRejectOnce | KRejectAlwaysBash
  | KRejectAlwaysMcpTool | KRejectAlwaysDomain | KCancelled | KFollowup | KError

fun wire_str :: "prompt_outcome_kind \<Rightarrow> rstr" where
  "wire_str KAllowOnce = ''allow_once''"
| "wire_str KAllowAlways = ''allow_always''"
| "wire_str KAllowEditsForSession = ''allow_edits_for_session''"
| "wire_str KAllowAlwaysBash = ''allow_always_bash''"
| "wire_str KAllowAlwaysBashGlob = ''allow_always_bash_glob''"
| "wire_str KAllowAlwaysDomain = ''allow_always_domain''"
| "wire_str KAllowAlwaysMcpTool = ''allow_always_mcp_tool''"
| "wire_str KAllowAlwaysMcpServer = ''allow_always_mcp_server''"
| "wire_str KRejectOnce = ''reject_once''"
| "wire_str KRejectAlwaysBash = ''reject_always_bash''"
| "wire_str KRejectAlwaysMcpTool = ''reject_always_mcp_tool''"
| "wire_str KRejectAlwaysDomain = ''reject_always_domain''"
| "wire_str KCancelled = ''cancelled''"
| "wire_str KFollowup = ''followup''"
| "wire_str KError = ''error''"

fun kind_of :: "prompt_outcome \<Rightarrow> prompt_outcome_kind" where
  "kind_of AllowOnce = KAllowOnce"
| "kind_of AllowAlways = KAllowAlways"
| "kind_of AllowEditsForSession = KAllowEditsForSession"
| "kind_of (AllowAlwaysBashCommand _) = KAllowAlwaysBash"
| "kind_of (AllowAlwaysBashGlob _) = KAllowAlwaysBashGlob"
| "kind_of (AllowAlwaysDomain _) = KAllowAlwaysDomain"
| "kind_of (AllowAlwaysMcpTool _) = KAllowAlwaysMcpTool"
| "kind_of (AllowAlwaysMcpServer _) = KAllowAlwaysMcpServer"
| "kind_of RejectOnce = KRejectOnce"
| "kind_of (RejectAlwaysBashCommand _) = KRejectAlwaysBash"
| "kind_of (RejectAlwaysMcpTool _) = KRejectAlwaysMcpTool"
| "kind_of (RejectAlwaysDomain _) = KRejectAlwaysDomain"
| "kind_of Cancelled = KCancelled"
| "kind_of (FollowupMessage _) = KFollowup"
| "kind_of (PromptError _) = KError"

definition prompt_outcome_allows :: "prompt_outcome \<Rightarrow> bool" where
  "prompt_outcome_allows outcome =
     (case outcome of
        AllowOnce \<Rightarrow> True | AllowAlways \<Rightarrow> True | AllowEditsForSession \<Rightarrow> True | AllowAlwaysBashCommand _ \<Rightarrow> True
      | AllowAlwaysBashGlob _ \<Rightarrow> True | AllowAlwaysDomain _ \<Rightarrow> True | AllowAlwaysMcpTool _ \<Rightarrow> True
      | AllowAlwaysMcpServer _ \<Rightarrow> True | _ \<Rightarrow> False)"

datatype permission_decision = EventAllow | EventDeny | EventCancelled | EventFollowup

definition permission_decision_for_outcome :: "prompt_outcome \<Rightarrow> permission_decision" where
  "permission_decision_for_outcome outcome =
     (case outcome of
        AllowOnce \<Rightarrow> EventAllow | AllowAlways \<Rightarrow> EventAllow | AllowEditsForSession \<Rightarrow> EventAllow
      | AllowAlwaysBashCommand _ \<Rightarrow> EventAllow | AllowAlwaysBashGlob _ \<Rightarrow> EventAllow
      | AllowAlwaysDomain _ \<Rightarrow> EventAllow | AllowAlwaysMcpTool _ \<Rightarrow> EventAllow | AllowAlwaysMcpServer _ \<Rightarrow> EventAllow
      | RejectOnce \<Rightarrow> EventDeny | RejectAlwaysBashCommand _ \<Rightarrow> EventDeny | RejectAlwaysMcpTool _ \<Rightarrow> EventDeny
      | RejectAlwaysDomain _ \<Rightarrow> EventDeny | PromptError _ \<Rightarrow> EventDeny
      | Cancelled \<Rightarrow> EventCancelled | FollowupMessage _ \<Rightarrow> EventFollowup)"

definition tool_name_for_access :: "json access_kind \<Rightarrow> rstr" where
  "tool_name_for_access access =
     (case access of AccessRead _ \<Rightarrow> ''read_file'' | AccessGrep _ _ \<Rightarrow> ''grep'' | AccessEdit _ \<Rightarrow> ''search_replace''
      | AccessBash _ \<Rightarrow> ''run_terminal_command'' | AccessMCP name _ \<Rightarrow> ''mcp:'' @ name
      | AccessWebFetch _ \<Rightarrow> ''web_fetch'' | AccessWebSearch _ \<Rightarrow> ''web_search'')"

subsection \<open>Names of MCP tools on screen\<close>

definition mcp_tool_action :: "rstr \<Rightarrow> rstr option \<Rightarrow> rstr" where
  "mcp_tool_action tool_name server_prefix =
     (case server_prefix of
        None \<Rightarrow> tool_name
      | Some p \<Rightarrow>
          (case Option.bind (strip_prefix p tool_name) (strip_prefix ''__'') of
             Some action \<Rightarrow> action | None \<Rightarrow> tool_name))"

definition titleize_word :: "(rstr \<Rightarrow> rstr) \<Rightarrow> rstr \<Rightarrow> rstr" where
  "titleize_word to_upper word = (case chars_of word of c # cs \<Rightarrow> to_upper c @ concat cs | [] \<Rightarrow> [])"

definition mcp_titleize_segment :: "(rstr \<Rightarrow> rstr) \<Rightarrow> rstr \<Rightarrow> rstr" where
  "mcp_titleize_segment to_upper name = join '' '' (map (titleize_word to_upper) (split_on (CHR ''_'') name))"

definition mcp_tool_display_name :: "(rstr \<Rightarrow> rstr) \<Rightarrow> rstr \<Rightarrow> rstr option \<Rightarrow> rstr" where
  "mcp_tool_display_name to_upper tool_name server_prefix =
     (case server_prefix of
        Some server \<Rightarrow>
          ''('' @ mcp_titleize_segment to_upper server @ '') ''
          @ mcp_titleize_segment to_upper (mcp_tool_action tool_name server_prefix)
      | None \<Rightarrow> mcp_titleize_segment to_upper tool_name)"

definition mcp_pretty_name_if_qualified :: "(rstr \<Rightarrow> rstr) \<Rightarrow> rstr \<Rightarrow> rstr" where
  "mcp_pretty_name_if_qualified to_upper name =
     (case parse_mcp_qualified_name name of
        Some (_, server, action) \<Rightarrow>
          ''('' @ mcp_titleize_segment to_upper server @ '') '' @ mcp_titleize_segment to_upper action
      | None \<Rightarrow> name)"

subsection \<open>The rows of a prompt\<close>

definition reject_once_label :: rstr where
  "reject_once_label = ''No, and tell Hystersis what to do differently''"

definition allow_edits_session_option_id :: rstr where
  "allow_edits_session_option_id = ''allow-edits-session''"

definition enable_always_approve_option_id :: rstr where
  "enable_always_approve_option_id = ''enable-always-approve''"

definition enable_always_approve_option :: permission_option where
  "enable_always_approve_option =
     plain_option enable_always_approve_option_id
       ''Yes, and don't ask again for anything (always-approve mode)'' KindAllowOnce"

definition fancy_client :: "client_type \<Rightarrow> bool" where
  "fancy_client client \<longleftrightarrow> client \<in> {HystersisTUI, HystersisPager, Desktop}"

text \<open>\<open>IndexMap::insert\<close>, and \<open>extend\<close> by several options: an option with a known id keeps its place.\<close>

definition index_insert :: "permission_option \<Rightarrow> permission_option list \<Rightarrow> permission_option list" where
  "index_insert opt options =
     (if list_ex (\<lambda>q. option_id q = option_id opt) options
      then map (\<lambda>q. if option_id q = option_id opt then opt else q) options
      else options @ [opt])"

definition prepend_enable_always_approve :: "client_type \<Rightarrow> permission_option list \<Rightarrow> permission_option list" where
  "prepend_enable_always_approve client base =
     (if fancy_client client then fold index_insert base [enable_always_approve_option] else base)"

definition edit_options :: "permission_option list" where
  "edit_options =
     [plain_option allow_edits_session_option_id ''Yes, allow all edits during this session'' KindAllowAlways,
      plain_option ''allow-once'' ''Yes'' KindAllowOnce,
      plain_option ''reject-once'' reject_once_label KindRejectOnce]"

definition bash_options :: "permission_option list" where
  "bash_options =
     [plain_option ''allow-once'' ''Yes, proceed'' KindAllowOnce,
      plain_option ''reject-once'' reject_once_label KindRejectOnce]"

definition generic_bash_options :: "permission_option list" where
  "generic_bash_options =
     [plain_option ''always-allow'' ''Yes, and don't ask again for bash commands'' KindAllowAlways,
      plain_option ''allow-once'' ''Yes, proceed'' KindAllowOnce,
      plain_option ''reject-once'' reject_once_label KindRejectOnce,
      plain_option ''reject-always'' ''No, and don't ask again for this command'' KindRejectAlways]"

definition fallback_options :: "permission_option list" where
  "fallback_options =
     [plain_option ''always-allow'' ''always allow'' KindAllowAlways,
      plain_option ''allow-once'' ''allow once'' KindAllowOnce,
      plain_option ''reject-once'' ''reject once'' KindRejectOnce]"

definition remember_gated_ids :: "rstr list" where
  "remember_gated_ids = [''allow-always-command'', ''reject-always-command'', ''allow-always-mcp'',
     ''reject-always-mcp'', ''allow-always-domain'', ''reject-always-domain'', ''always-allow'', ''reject-always'']"

definition bash_scope_option :: "rstr \<Rightarrow> rstr \<Rightarrow> option_kind \<Rightarrow> highlights \<Rightarrow> permission_option" where
  "bash_scope_option i label_prefix kind primary =
     \<lparr>option_id = i, option_label = label_prefix @ '' '' @ join '' '' (hl_words primary), option_kind = kind,
      option_meta = Some (JObject [(''prompt_prefix'', JString label_prefix)])\<rparr>"

text \<open>
  What a prompter is made of: the kind of client, whether the rows that remember are shown, and the hub, if
  the prompts go there.
\<close>

record prompter =
  pr_client :: client_type
  pr_remember :: bool
  pr_hub :: "(json \<Rightarrow> rstr + json) option"

text \<open>The library functions prompts use: \<open>url::Url::parse\<close> and \<open>char::to_uppercase\<close>.\<close>

record prompt_lib =
  lib_parse_url :: "rstr \<Rightarrow> parsed_url option"
  lib_to_upper :: "rstr \<Rightarrow> rstr"

definition bash_rows :: "'pat externals \<Rightarrow> rstr \<Rightarrow> permission_option list" where
  "bash_rows x cmd =
     (case primary_command_from_script (ext_parse x) cmd of
        None \<Rightarrow> bash_options
      | Some primary \<Rightarrow>
          (if always_allow_row_is_effective x cmd
           then [bash_scope_option ''allow-always-command'' ''Always allow:'' KindAllowAlways primary] else [])
          @ bash_options
          @ [bash_scope_option ''reject-always-command'' ''Never allow:'' KindRejectAlways primary])"

definition web_fetch_rows :: "'pat externals \<Rightarrow> prompt_lib \<Rightarrow> rstr \<Rightarrow> permission_option list" where
  "web_fetch_rows x lib url =
     (let domain = (case domain_from_url x (lib_parse_url lib url) of Some d \<Rightarrow> d | None \<Rightarrow> ''unknown domain'');
          deny_domain = (case web_fetch_deny_key_from_url x (lib_parse_url lib url) of Some d \<Rightarrow> d | None \<Rightarrow> domain)
      in [plain_option ''allow-always-domain'' (''Yes, always allow '' @ domain @ '' for this project'') KindAllowAlways,
          plain_option ''allow-once'' ''Yes, allow once'' KindAllowOnce,
          plain_option ''reject-once'' reject_once_label KindRejectOnce,
          plain_option ''reject-always-domain'' (''No, never allow '' @ deny_domain @ '' for this project'')
            KindRejectAlways])"

definition mcp_rows :: "prompt_lib \<Rightarrow> rstr \<Rightarrow> permission_option list" where
  "mcp_rows lib tool_name =
     (let server_prefix = map_option (\<lambda>(_, server, _). server) (parse_mcp_qualified_name tool_name) in
      [\<lparr>option_id = ''allow-always-mcp'', option_label = ''Always allow: '' @ tool_name, option_kind = KindAllowAlways,
        option_meta = Some (JObject
          [(''prompt_prefix'', JString ''Always allow:''), (''tool_name'', JString tool_name),
           (''server_prefix'', case server_prefix of Some s \<Rightarrow> JString s | None \<Rightarrow> JNull)])\<rparr>,
       plain_option ''allow-once'' ''Yes'' KindAllowOnce,
       plain_option ''reject-once'' reject_once_label KindRejectOnce,
       plain_option ''reject-always-mcp''
         (''Never allow: '' @ mcp_tool_display_name (lib_to_upper lib) tool_name server_prefix) KindRejectAlways])"

definition build_options_inner ::
  "'pat externals \<Rightarrow> prompt_lib \<Rightarrow> prompter \<Rightarrow> json access_kind \<Rightarrow> permission_option list" where
  "build_options_inner x lib p access =
     (case access of
        AccessEdit _ \<Rightarrow> edit_options
      | AccessBash cmd \<Rightarrow> if fancy_client (pr_client p) then bash_rows x cmd else generic_bash_options
      | AccessWebFetch url \<Rightarrow> web_fetch_rows x lib url
      | AccessMCP tool_name _ \<Rightarrow> if fancy_client (pr_client p) then mcp_rows lib tool_name else fallback_options
      | _ \<Rightarrow> fallback_options)"

definition build_options ::
  "'pat externals \<Rightarrow> prompt_lib \<Rightarrow> prompter \<Rightarrow> json access_kind \<Rightarrow> permission_option list" where
  "build_options x lib p access =
     (let base = build_options_inner x lib p access;
          base = (if pr_remember p then base else filter (\<lambda>opt. option_id opt \<notin> set remember_gated_ids) base)
      in prepend_enable_always_approve (pr_client p) base)"

subsection \<open>The metadata of a request\<close>

definition json_strings :: "rstr list \<Rightarrow> json" where
  "json_strings ss = JArray (map JString ss)"

definition bash_selection_meta :: "'pat externals \<Rightarrow> prompter \<Rightarrow> json access_kind \<Rightarrow> json option" where
  "bash_selection_meta x p access =
     (case access of
        AccessBash cmd \<Rightarrow>
          if pr_remember p \<and> fancy_client (pr_client p) then
            map_option (\<lambda>h. JObject [(''prefix'', json_strings (hl_prefix h)),
                (''highlighted_words'', json_strings (hl_words h)), (''suffix'', json_strings (hl_suffix h))])
              (primary_command_from_script (ext_parse x) cmd)
          else None
      | _ \<Rightarrow> None)"

definition protected_description :: "protected_edit_reason \<Rightarrow> rstr option" where
  "protected_description reason =
     (case reason of
        HookRoot \<Rightarrow> Some ''Note: This edit contains changes to hooks, which can be executed as code on later sessions without a separate execution approval.''
      | GitHooks \<Rightarrow> Some ''Note: This edit contains changes to Git hooks, which can run automatically on commit, push, or other Git actions without a separate execution approval.''
      | Ssh \<Rightarrow> Some ''Note: This edit contains changes under `.ssh`, which can affect credentials and authentication for future sessions.''
      | StartupFile \<Rightarrow> Some ''Note: This edit contains changes to a shell startup file, which can run automatically in future terminals without a separate execution approval.''
      | Etc \<Rightarrow> Some ''Note: This edit contains changes under `/etc`, which is system configuration and can affect this machine beyond the current project.''
      | HystersisConfig \<Rightarrow> Some ''Note: This edit contains changes to Hystersis config, which can alter permissions, tools, and other behavior in later sessions.''
      | HystersisSandbox \<Rightarrow> Some ''Note: This edit contains changes to the Hystersis sandbox config, which can loosen filesystem and network restrictions on commands.''
      | ClaudeSettings \<Rightarrow> Some ''Note: This edit contains changes to Claude-compatible settings, which can install hooks or change permission mode without a separate execution approval.''
      | CursorHooks \<Rightarrow> Some ''Note: This edit contains changes to Cursor hooks, which can run automatically in later sessions without a separate execution approval.''
      | Sensitive \<Rightarrow> None)"

definition permission_request_meta ::
  "'pat externals \<Rightarrow> prompter \<Rightarrow> json access_kind \<Rightarrow> protected_edit_reason option \<Rightarrow> json option" where
  "permission_request_meta x p access protected_edit =
     (case bash_selection_meta x p access of
        Some bash \<Rightarrow> Some bash
      | None \<Rightarrow>
          map_option (\<lambda>reason. JObject ((''kind'', JString (protected_kind reason))
              # (case protected_description reason of Some d \<Rightarrow> [(''description'', JString d)] | None \<Rightarrow> [])))
            protected_edit)"


subsection \<open>Reading the answer of a client\<close>

text \<open>The two shapes of metadata, as \<open>serde\<close> reads them.\<close>

datatype mcp_scope_selection = ScopeTool rstr | ScopeServer rstr

definition mcp_scope_from_json :: "json \<Rightarrow> mcp_scope_selection option" where
  "mcp_scope_from_json v =
     (case json_get_str ''kind'' v of
        None \<Rightarrow> None
      | Some k \<Rightarrow>
          if k = ''tool'' then map_option ScopeTool (json_get_str ''tool_name'' v)
          else if k = ''server'' then map_option ScopeServer (json_get_str ''server'' v)
          else None)"

record selected_terms =
  command_parts :: "rstr list"
  is_glob :: bool

definition strings_from_json :: "json \<Rightarrow> rstr list option" where
  "strings_from_json v = (case v of JArray vs \<Rightarrow> those (map json_str vs) | _ \<Rightarrow> None)"

definition selected_terms_from_json :: "json \<Rightarrow> selected_terms option" where
  "selected_terms_from_json v =
     Option.bind (Option.bind (json_get ''command_parts'' v) strings_from_json) (\<lambda>parts.
       map_option (\<lambda>glob. \<lparr>command_parts = parts, is_glob = glob\<rparr>)
         (case json_get ''is_glob'' v of None \<Rightarrow> Some False | Some g \<Rightarrow> json_bool g))"

definition selected_terms :: "json option \<Rightarrow> selected_terms option" where
  "selected_terms meta = Option.bind meta selected_terms_from_json"

definition mcp_always_outcome :: "json option \<Rightarrow> json access_kind \<Rightarrow> prompt_outcome" where
  "mcp_always_outcome meta access =
     (let this_tool = (case access of AccessMCP name _ \<Rightarrow> AllowAlwaysMcpTool name | _ \<Rightarrow> AllowAlways) in
      case Option.bind meta mcp_scope_from_json of
        Some (ScopeTool tool_name) \<Rightarrow> AllowAlwaysMcpTool tool_name
      | Some (ScopeServer server) \<Rightarrow> if server = '''' then this_tool else AllowAlwaysMcpServer server
      | None \<Rightarrow> this_tool)"

definition domain_always_outcome :: "'pat externals \<Rightarrow> prompt_lib \<Rightarrow> json access_kind \<Rightarrow> prompt_outcome" where
  "domain_always_outcome x lib access =
     (case access of
        AccessWebFetch url \<Rightarrow>
          (case domain_from_url x (lib_parse_url lib url) of
             Some domain \<Rightarrow> if domain \<noteq> '''' then AllowAlwaysDomain domain else AllowOnce
           | None \<Rightarrow> AllowOnce)
      | _ \<Rightarrow> AllowOnce)"

definition command_always_outcome :: "'pat externals \<Rightarrow> json option \<Rightarrow> json access_kind \<Rightarrow> prompt_outcome" where
  "command_always_outcome x meta access =
     (case selected_terms meta of
        Some t \<Rightarrow>
          (let pat = join '' '' (command_parts t) in
           if is_glob t then AllowAlwaysBashGlob pat else AllowAlwaysBashCommand pat)
      | None \<Rightarrow>
          (case access of
             AccessBash cmd \<Rightarrow>
               (case primary_command_from_script (ext_parse x) cmd of
                  Some primary \<Rightarrow> AllowAlwaysBashCommand (join '' '' (hl_words primary))
                | None \<Rightarrow> AllowAlways)
           | _ \<Rightarrow> AllowAlways))"

definition allow_always_outcome ::
  "'pat externals \<Rightarrow> prompt_lib \<Rightarrow> rstr \<Rightarrow> json option \<Rightarrow> json access_kind \<Rightarrow> prompt_outcome" where
  "allow_always_outcome x lib i meta access =
     (if i = enable_always_approve_option_id then AllowOnce
      else if i = ''allow-always-mcp'' then mcp_always_outcome meta access
      else if i = ''allow-always-domain'' then domain_always_outcome x lib access
      else if i = ''allow-always-command'' then command_always_outcome x meta access
      else if i = allow_edits_session_option_id then AllowEditsForSession
      else AllowAlways)"

definition reject_once_outcome :: "json option \<Rightarrow> prompt_outcome" where
  "reject_once_outcome meta =
     (case Option.bind meta (json_get_str ''followup_message'') of
        Some followup \<Rightarrow> if trim followup \<noteq> '''' then FollowupMessage followup else RejectOnce
      | None \<Rightarrow> RejectOnce)"

definition reject_always_outcome ::
  "'pat externals \<Rightarrow> prompt_lib \<Rightarrow> rstr \<Rightarrow> json option \<Rightarrow> json access_kind \<Rightarrow> prompt_outcome" where
  "reject_always_outcome x lib i meta access =
     (if i = ''reject-always-command'' \<or> i = ''reject-always'' then
        (case selected_terms meta of
           Some t \<Rightarrow> RejectAlwaysBashCommand (join '' '' (command_parts t))
         | None \<Rightarrow>
             (case access of
                AccessBash cmd \<Rightarrow>
                  (case primary_command_from_script (ext_parse x) cmd of
                     Some primary \<Rightarrow> RejectAlwaysBashCommand (join '' '' (hl_words primary))
                   | None \<Rightarrow> RejectAlwaysBashCommand cmd)
              | _ \<Rightarrow> RejectOnce))
      else if i = ''reject-always-mcp'' then
        (case access of AccessMCP name _ \<Rightarrow> RejectAlwaysMcpTool name | _ \<Rightarrow> RejectOnce)
      else if i = ''reject-always-domain'' then
        (case access of
           AccessWebFetch url \<Rightarrow>
             (case web_fetch_deny_key_from_url x (lib_parse_url lib url) of
                Some domain \<Rightarrow> RejectAlwaysDomain domain | None \<Rightarrow> RejectOnce)
         | _ \<Rightarrow> RejectOnce)
      else RejectOnce)"

definition map_selected_outcome ::
  "'pat externals \<Rightarrow> prompt_lib \<Rightarrow> permission_option list \<Rightarrow> rstr \<Rightarrow> json option \<Rightarrow> json access_kind
   \<Rightarrow> prompt_outcome" where
  "map_selected_outcome x lib options i meta access =
     (case find_option options i of
        None \<Rightarrow> PromptError ''unknown permission option''
      | Some opt \<Rightarrow>
          (case option_kind opt of
             KindAllowOnce \<Rightarrow> AllowOnce
           | KindAllowAlways \<Rightarrow> allow_always_outcome x lib i meta access
           | KindRejectOnce \<Rightarrow> reject_once_outcome meta
           | KindRejectAlways \<Rightarrow> reject_always_outcome x lib i meta access))"

subsection \<open>The hub\<close>

definition scope_for_access :: "json access_kind \<Rightarrow> rstr" where
  "scope_for_access access =
     (case access of AccessBash _ \<Rightarrow> ''write'' | AccessEdit _ \<Rightarrow> ''write'' | AccessMCP _ _ \<Rightarrow> ''write'' | _ \<Rightarrow> ''read'')"

definition describe_access :: "json access_kind \<Rightarrow> rstr" where
  "describe_access access =
     (case access of
        AccessBash _ \<Rightarrow> ''Run a terminal command'' | AccessEdit path \<Rightarrow> ''Edit '' @ path
      | AccessMCP name _ \<Rightarrow> ''Run MCP tool '' @ name | AccessWebFetch url \<Rightarrow> ''Fetch '' @ url
      | AccessWebSearch query \<Rightarrow> ''Search the web for '' @ query | AccessRead _ \<Rightarrow> ''Read a file''
      | AccessGrep _ _ \<Rightarrow> ''Search file contents'')"

definition build_permission_payload :: "json access_kind \<Rightarrow> rstr \<Rightarrow> json" where
  "build_permission_payload access tool_call_id =
     JObject
       ([(''tool_call_id'', JString tool_call_id), (''tool_name'', JString (tool_name_for_access access)),
         (''description'', JString (describe_access access)), (''scope'', JString (scope_for_access access))]
        @ (case access of
             AccessBash command \<Rightarrow> [(''bash_command'', JString command)]
           | AccessEdit path \<Rightarrow> [(''edit_file_paths'', json_strings [path])]
           | _ \<Rightarrow> []))"

definition reply_word :: "json \<Rightarrow> rstr" where
  "reply_word reply =
     (case json_get ''outcome'' reply of
        Some (JString s) \<Rightarrow> s
      | Some (JNumber (Some n)) \<Rightarrow>
          (if n = 1 then ''approve'' else if n = 2 then ''reject'' else if n = 3 then ''always_approve''
           else if n = 4 then ''always_reject'' else '''')
      | _ \<Rightarrow> '''')"

definition scope_kind_value :: "json \<Rightarrow> (rstr \<times> rstr option) option" where
  "scope_kind_value reply =
     Option.bind (json_get ''scope'' reply) (\<lambda>scope.
       map_option (\<lambda>kind. (kind, json_get_str ''value'' scope)) (json_get_str ''kind'' scope))"

definition reply_to_outcome :: "json \<Rightarrow> prompt_outcome" where
  "reply_to_outcome reply =
     (let outcome = reply_word reply;
          followup = (case json_get_str ''followup_message'' reply of
                        Some s \<Rightarrow> if s = '''' then None else Some s | None \<Rightarrow> None)
      in if outcome = ''approve'' then AllowOnce
         else if outcome = ''always_approve'' then
           (case scope_kind_value reply of
              Some (kind, Some v) \<Rightarrow>
                (if kind = ''bash_command'' then AllowAlwaysBashCommand v
                 else if kind = ''bash_glob'' then AllowAlwaysBashGlob v
                 else if kind = ''server_prefix'' then AllowAlwaysMcpServer v
                 else if kind = ''domain'' then AllowAlwaysDomain v
                 else AllowAlways)
            | _ \<Rightarrow> AllowAlways)
         else if outcome = ''reject'' then
           (case followup of Some message \<Rightarrow> FollowupMessage message | None \<Rightarrow> RejectOnce)
         else if outcome = ''always_reject'' then
           (case scope_kind_value reply of
              Some (kind, Some v) \<Rightarrow> if kind = ''bash_command'' then RejectAlwaysBashCommand v else RejectOnce
            | _ \<Rightarrow> RejectOnce)
         else if outcome = ''cancelled'' then Cancelled
         else RejectOnce)"

definition request_permission_via_hub :: "(json \<Rightarrow> rstr + json) \<Rightarrow> json access_kind \<Rightarrow> rstr \<Rightarrow> prompt_outcome" where
  "request_permission_via_hub transport access tool_call_id =
     (case transport (build_permission_payload access tool_call_id) of
        Inr reply \<Rightarrow>
          (let outcome = reply_to_outcome reply in
           case access of
             AccessEdit _ \<Rightarrow> if outcome = AllowAlways then AllowEditsForSession else outcome
           | _ \<Rightarrow> outcome)
      | Inl e \<Rightarrow> PromptError (''hub permission request failed: '' @ e))"

subsection \<open>A prompt\<close>

datatype gateway_answer = GatewayError | AnswerCancelled | AnswerSelected rstr "json option" | AnswerOther

type_synonym gateway = "permission_option list \<Rightarrow> json option \<Rightarrow> gateway_answer"

definition prompt_request ::
  "'pat externals \<Rightarrow> prompt_lib \<Rightarrow> prompter \<Rightarrow> gateway \<Rightarrow> json access_kind \<Rightarrow> rstr
   \<Rightarrow> protected_edit_reason option \<Rightarrow> prompt_outcome" where
  "prompt_request x lib p ask access tool_call_id protected_edit =
     (case pr_hub p of
        Some transport \<Rightarrow> request_permission_via_hub transport access tool_call_id
      | None \<Rightarrow>
          (let options = build_options x lib p access in
           case ask options (permission_request_meta x p access protected_edit) of
             AnswerCancelled \<Rightarrow> Cancelled
           | AnswerSelected i meta \<Rightarrow> map_selected_outcome x lib options i meta access
           | AnswerOther \<Rightarrow> PromptError ''unknown permission outcome''
           | GatewayError \<Rightarrow> PromptError ''failed to request permission''))"

text \<open>
  The two events around a prompt: one when it opens and one when it is decided, or when the prompt is
  dropped before an outcome is there.
\<close>

datatype prompt_event = PermissionRequested rstr | PermissionResolved rstr permission_decision

definition prompt_events :: "json access_kind \<Rightarrow> prompt_outcome option \<Rightarrow> prompt_event list" where
  "prompt_events access outcome =
     (let tool = tool_name_for_access access in
      [PermissionRequested tool,
       PermissionResolved tool
         (case outcome of Some r \<Rightarrow> permission_decision_for_outcome r | None \<Rightarrow> EventCancelled)])"

subsection \<open>Accesses of tools the hub serves, and of tools known by their arguments\<close>

definition first_field :: "rstr list \<Rightarrow> json \<Rightarrow> json option" where
  "first_field keys v = find_map (\<lambda>k. json_get k v) keys"

definition string_or :: "rstr \<Rightarrow> json option \<Rightarrow> rstr" where
  "string_or fallback v = (case Option.bind v json_str of Some s \<Rightarrow> s | None \<Rightarrow> fallback)"

definition hub_tool_name :: "rstr \<Rightarrow> rstr" where
  "hub_tool_name tool_name =
     (let name = last (split_on (CHR '':'') tool_name) in
      case strip_prefix ''HystersisBuild:'' name of Some n \<Rightarrow> n | None \<Rightarrow> name)"

definition access_kind_for_hub_tool :: "rstr \<Rightarrow> json \<Rightarrow> json access_kind option" where
  "access_kind_for_hub_tool tool_name args =
     (let name = hub_tool_name tool_name in
      if name \<in> set [''run_terminal_command'', ''run_terminal_cmd'', ''bash'', ''shell''] then
        Some (AccessBash (string_or '''' (first_field [''command'', ''full_command''] args)))
      else if name \<in> set [''search_replace'', ''hashline_edit'', ''edit'', ''write'', ''write_file''] then
        Some (AccessEdit (string_or ''unknown'' (first_field [''file_path'', ''filePath'', ''path''] args)))
      else if name = ''apply_patch'' then Some (AccessEdit ''apply_patch'')
      else if name \<in> set [''task'', ''Task'', ''spawn_subagent''] then
        Some (AccessEdit (''task:'' @ string_or ''task'' (json_get ''subagent_type'' args)))
      else if name = ''web_fetch'' then Some (AccessWebFetch (string_or '''' (json_get ''url'' args)))
      else if contains name ''__'' \<or> starts_with name ''mcp'' then Some (AccessMCP tool_name args)
      else None)"

definition dynamic_string_field :: "json \<Rightarrow> rstr list \<Rightarrow> rstr option" where
  "dynamic_string_field v keys = find_map (\<lambda>k. json_get_str k v) keys"

definition dynamic_has_field :: "json \<Rightarrow> rstr list \<Rightarrow> bool" where
  "dynamic_has_field v keys = list_ex (\<lambda>k. json_get k v \<noteq> None) keys"

definition access_kind_from_dynamic :: "json \<Rightarrow> json access_kind" where
  "access_kind_from_dynamic v =
     (case dynamic_string_field v [''filePath'', ''file_path'', ''path''] of
        Some path \<Rightarrow>
          (if dynamic_has_field v [''oldString'', ''old_string'', ''newString'', ''new_string'', ''content'', ''edits'',
                ''replaceAll'', ''replace_all'']
           then AccessEdit path else AccessRead (Some path))
      | None \<Rightarrow>
          (case dynamic_string_field v [''command''] of
             Some command \<Rightarrow> AccessBash command
           | None \<Rightarrow> AccessRead None))"

text \<open>
  The inputs of the tools, with the fields that say what they touch; the conversion gives the access that the
  rules judge.
\<close>

datatype tool_input =
    ReadFileInput rstr
  | SearchReplaceInput rstr
  | BashInput rstr
  | GrepInput "rstr option" "rstr option"
  | ListDirInput rstr
  | TodoWriteInput
  | SkillInput
  | MCPInput rstr json
  | TaskOutputInput
  | WaitTasksInput
  | KillTaskInput
  | TaskInput rstr
  | WebSearchInput rstr
  | WebFetchInput rstr
  | WriteInput rstr
  | ApplyPatchInput rstr
  | HashlineEditInput rstr
  | CodexListDirInput rstr
  | CodexGrepFilesInput rstr "rstr option"
  | CodexReadFileInput rstr
  | UseToolInput rstr json
  | MonitorInput rstr
  | ExitPlanModeInput
  | DynamicInput json
  | UnlistedInput

definition access_kind_of_input :: "tool_input \<Rightarrow> json access_kind" where
  "access_kind_of_input input =
     (case input of
        ReadFileInput path \<Rightarrow> AccessRead (Some path)
      | ListDirInput dir \<Rightarrow> AccessRead (Some dir)
      | GrepInput path glob \<Rightarrow> AccessGrep path glob
      | TaskInput subagent \<Rightarrow> AccessEdit (''task:'' @ subagent)
      | WebSearchInput query \<Rightarrow> AccessWebSearch query
      | SearchReplaceInput path \<Rightarrow> AccessEdit path
      | ApplyPatchInput _ \<Rightarrow> AccessEdit ''apply_patch''
      | HashlineEditInput path \<Rightarrow> AccessEdit path
      | WriteInput path \<Rightarrow> AccessEdit path
      | BashInput command \<Rightarrow> AccessBash command
      | MonitorInput command \<Rightarrow> AccessBash command
      | MCPInput name input \<Rightarrow> AccessMCP name input
      | UseToolInput name input \<Rightarrow> AccessMCP name input
      | WebFetchInput url \<Rightarrow> AccessWebFetch url
      | DynamicInput v \<Rightarrow> access_kind_from_dynamic v
      | _ \<Rightarrow> AccessRead None)"


subsection \<open>What an answer can do\<close>

text \<open>The outcomes that are remembered beyond the request, other than the session's permission to edit.\<close>

definition remembers :: "prompt_outcome \<Rightarrow> bool" where
  "remembers outcome =
     (case outcome of
        AllowOnce \<Rightarrow> False | AllowEditsForSession \<Rightarrow> False | RejectOnce \<Rightarrow> False | Cancelled \<Rightarrow> False
      | FollowupMessage _ \<Rightarrow> False | PromptError _ \<Rightarrow> False | _ \<Rightarrow> True)"

lemmas option_rows = edit_options_def bash_options_def generic_bash_options_def fallback_options_def bash_rows_def
  web_fetch_rows_def mcp_rows_def bash_scope_option_def plain_option_def allow_edits_session_option_id_def
  enable_always_approve_option_def enable_always_approve_option_id_def

lemma find_option_in: "find_option options i = Some opt \<Longrightarrow> opt \<in> set options \<and> option_id opt = i"
  by (auto simp: find_option_def find_Some_iff)

lemma index_insert_in: "q \<in> set (index_insert opt options) \<Longrightarrow> q = opt \<or> q \<in> set options"
  by (auto simp: index_insert_def split: if_splits)

lemma fold_index_insert_in: "q \<in> set (fold index_insert base options) \<Longrightarrow> q \<in> set base \<or> q \<in> set options"
proof (induction base arbitrary: options)
  case (Cons b base)
  then show ?case using index_insert_in [of q b options] by fastforce
qed simp

text \<open>With the rows that remember taken out, only the session's permission to edit is more than one answer.\<close>

lemma ungated_options:
  assumes "opt \<in> set (build_options x lib p access)" "\<not> pr_remember p"
  shows "option_kind opt \<in> {KindAllowOnce, KindRejectOnce} \<or> option_id opt = allow_edits_session_option_id"
proof -
  have base: "opt \<in> set (build_options_inner x lib p access) \<and> option_id opt \<notin> set remember_gated_ids
      \<or> opt = enable_always_approve_option"
    using assms fold_index_insert_in [of opt]
    by (fastforce simp: build_options_def Let_def prepend_enable_always_approve_def split: if_splits)
  then show ?thesis
  proof (elim disjE conjE)
    assume inner: "opt \<in> set (build_options_inner x lib p access)" and free: "option_id opt \<notin> set remember_gated_ids"
    then show ?thesis
      by (auto simp: build_options_inner_def option_rows remember_gated_ids_def Let_def
          split: access_kind.splits if_splits option.splits)
  qed (simp add: option_rows)
qed

text \<open>With the gate on remembered approvals off, no answer of a local client is remembered beyond the
request, whatever row it names and whatever metadata it sends; at most it permits the edits of this session.\<close>

theorem gate_off_remembers_nothing:
  assumes "pr_hub p = None" "\<not> pr_remember p"
  shows "\<not> remembers (prompt_request x lib p ask access tool_call_id protected_edit)"
proof -
  let ?options = "build_options x lib p access"
  have "\<not> remembers (map_selected_outcome x lib ?options i meta access)" for i meta
  proof (cases "find_option ?options i")
    case None
    then show ?thesis by (simp add: map_selected_outcome_def remembers_def)
  next
    case (Some opt)
    then have "option_kind opt \<in> {KindAllowOnce, KindRejectOnce} \<or> i = allow_edits_session_option_id"
      using ungated_options [OF _ assms(2)] find_option_in by blast
    moreover have "\<not> remembers (allow_always_outcome x lib allow_edits_session_option_id meta access)"
      by (simp add: allow_always_outcome_def allow_edits_session_option_id_def
          enable_always_approve_option_id_def remembers_def)
    moreover have "\<not> remembers (reject_always_outcome x lib allow_edits_session_option_id meta access)"
      by (simp add: reject_always_outcome_def allow_edits_session_option_id_def remembers_def)
    moreover have "\<not> remembers (reject_once_outcome meta)"
      by (simp add: reject_once_outcome_def remembers_def split: option.split)
    ultimately show ?thesis
      using Some by (cases "option_kind opt") (auto simp: map_selected_outcome_def remembers_def)
  qed
  then show ?thesis
    using assms(1)
    by (simp add: prompt_request_def Let_def) (auto simp: remembers_def split: gateway_answer.split)
qed

theorem gate_off_remembers_nothing_witness:
  "\<not> remembers (prompt_request literal_externals \<lparr>lib_parse_url = \<lambda>_. None, lib_to_upper = id\<rparr>
      \<lparr>pr_client = HystersisPager, pr_remember = False, pr_hub = None\<rparr>
      (\<lambda>_ _. AnswerSelected ''allow-always-command''
         (Some (JObject [(''command_parts'', JArray [JString ''rm'']), (''is_glob'', JBool True)])))
      (AccessBash ''rm x'') ''call-1'' None)"
  by (rule gate_off_remembers_nothing) simp_all

text \<open>Metadata cannot turn a rejection into an approval: the answer to a local prompt allows the request
exactly when the row that was selected is one of the rows shown and is a row that allows.\<close>

theorem local_answer_allows_iff:
  "prompt_outcome_allows (map_selected_outcome x lib options i meta access) \<longleftrightarrow>
     (case find_option options i of
        Some opt \<Rightarrow> option_kind opt = KindAllowOnce \<or> option_kind opt = KindAllowAlways
      | None \<Rightarrow> False)"
proof -
  have "prompt_outcome_allows (allow_always_outcome x lib i meta access)"
    by (auto simp: allow_always_outcome_def mcp_always_outcome_def domain_always_outcome_def
        command_always_outcome_def prompt_outcome_allows_def Let_def
        split: option.split access_kind.split mcp_scope_selection.split)
  moreover have "\<not> prompt_outcome_allows (reject_always_outcome x lib i meta access)"
    by (auto simp: reject_always_outcome_def prompt_outcome_allows_def split: option.split access_kind.split)
  moreover have "\<not> prompt_outcome_allows (reject_once_outcome meta)"
    by (auto simp: reject_once_outcome_def prompt_outcome_allows_def split: option.split)
  ultimately show ?thesis
    by (auto simp: map_selected_outcome_def prompt_outcome_allows_def split: option.split option_kind.split)
qed

text \<open>The hub fails closed: a request sent there is allowed exactly when a reply came back whose outcome is
an approval; a lost connection, a reply without an outcome and an unknown outcome never allow.\<close>

theorem hub_allows_iff:
  "prompt_outcome_allows (request_permission_via_hub transport access tool_call_id) \<longleftrightarrow>
     (\<exists>reply. transport (build_permission_payload access tool_call_id) = Inr reply
        \<and> (reply_word reply = ''approve'' \<or> reply_word reply = ''always_approve''))"
proof -
  have "prompt_outcome_allows (reply_to_outcome reply) \<longleftrightarrow>
      reply_word reply = ''approve'' \<or> reply_word reply = ''always_approve''" for reply
    by (auto simp: reply_to_outcome_def Let_def prompt_outcome_allows_def split: option.split)
  moreover have "prompt_outcome_allows AllowEditsForSession" "prompt_outcome_allows AllowAlways"
    "\<not> prompt_outcome_allows (PromptError e)" for e
    by (simp_all add: prompt_outcome_allows_def)
  ultimately show ?thesis
    by (auto simp: request_permission_via_hub_def Let_def split: sum.split access_kind.split)
      (metis \<open>prompt_outcome_allows AllowAlways\<close>)+
qed

text \<open>The hub answers outside the gate: an approval for always is remembered although the gate is off.\<close>

lemma hub_ignores_gate:
  "prompt_request x lib \<lparr>pr_client = Generic, pr_remember = False,
       pr_hub = Some (\<lambda>_. Inr (JObject [(''outcome'', JString ''always_approve'')]))\<rparr> ask (AccessBash cmd) i q
     = AllowAlways"
  by (simp add: prompt_request_def request_permission_via_hub_def reply_to_outcome_def reply_word_def
      scope_kind_value_def json_get_def json_get_str_def Let_def)

text \<open>Arguments with both a path and a command count as the reading of a file.\<close>

lemma dynamic_path_hides_command:
  "access_kind_from_dynamic (JObject [(''path'', JString p), (''command'', JString cmd)]) = AccessRead (Some p)"
  by (simp add: access_kind_from_dynamic_def dynamic_string_field_def dynamic_has_field_def json_get_str_def
      json_get_def json_str_def)

text \<open>
  The tools of the codex agent lose their paths on the way: whatever file such a tool reads or lists is judged
  as a read of no file, which no rule with a pattern rejects, and whatever a patch edits is judged as an edit
  of a file named \<open>apply_patch\<close>.
\<close>

lemma codex_paths_are_lost:
  "access_kind_of_input (CodexReadFileInput path) = AccessRead None"
  "access_kind_of_input (CodexListDirInput dir) = AccessRead None"
  "access_kind_of_input (CodexGrepFilesInput pattern place) = AccessRead None"
  "access_kind_of_input (ApplyPatchInput patch) = AccessEdit ''apply_patch''"
  by (simp_all add: access_kind_of_input_def)

lemma codex_read_evades_deny:
  "evaluate_with_cwd literal_externals
     (compile_policy literal_externals
        \<lparr>rules = [\<lparr>rule_action = RDeny, rule_tool = FRead, rule_pattern = Some ''/w/.env'', rule_mode = GlobMode\<rparr>],
         config_prompt_policy = PromptAsk\<rparr>)
     (access_kind_of_input (CodexReadFileInput ''/w/.env'')) (Some ''/w'') = None"
  "\<exists>r. evaluate_with_cwd literal_externals
     (compile_policy literal_externals
        \<lparr>rules = [\<lparr>rule_action = RDeny, rule_tool = FRead, rule_pattern = Some ''/w/.env'', rule_mode = GlobMode\<rparr>],
         config_prompt_policy = PromptAsk\<rparr>)
     (access_kind_of_input (ReadFileInput ''/w/.env'')) (Some ''/w'') = Some (DReject r)"
  by (code_simp, rule exI, code_simp)

end
