(* ===== verification/AutoHeuristic.thy ===== *)
theory AutoHeuristic
  imports BashEvaluation
begin

section \<open>The heuristic of auto mode\<close>

text \<open>
  Models the first half of \<open>auto_mode/mod.rs\<close>: which commands are routine, the package managers and their
  launchers, the fast path, and the classifier that works without a model.  A blob is the text in which
  dangerous patterns are searched.
\<close>

datatype classifier_verdict = VAllow | VBlock | VUnavailable

subsection \<open>Routine commands\<close>

definition routine_prefixes :: "rstr list" where
  "routine_prefixes = [''cargo '', ''git add'', ''git commit'', ''git checkout'', ''git switch'', ''git stash'',
     ''git pull'', ''git fetch'', ''git worktree list'', ''pytest'', ''python '', ''python3 '', ''node '',
     ''rustc '', ''rustfmt'', ''clippy'', ''make '', ''cmake '', ''cd'', ''pushd'', ''popd'', ''ls'', ''pwd'',
     ''echo '', ''printf '', ''cat '', ''head '', ''tail '', ''wc '', ''rg '', ''grep '', ''which '', ''type '',
     ''true'', ''false'', ''test '', ''sort '', ''uniq '', ''tr '', ''cut '', ''diff '', ''jq '', ''date'',
     ''whoami'', ''hostname'', ''uname'', ''nproc'', ''printenv'', ''stat '', ''file '', ''tree'',
     ''basename '', ''dirname '', ''realpath '', ''readlink '', ''strings '', ''sleep '', ''df '', ''du '',
     ''ps '', ''top'', ''htop'', ''bazel '', ''just '', ''go '', ''kubectl get'', ''kubectl logs'',
     ''kubectl describe'', ''set'']"

definition npm_safe_subcommands :: "rstr list" where
  "npm_safe_subcommands = [''install'', ''i'', ''ci'', ''add'', ''remove'', ''rm'', ''uninstall'', ''update'',
     ''up'', ''upgrade'', ''test'', ''t'', ''run'', ''run-script'', ''start'', ''build'', ''audit'', ''list'',
     ''ls'', ''ll'', ''outdated'', ''why'', ''view'', ''info'', ''dedupe'', ''prune'', ''version'', ''pack'',
     ''config'', ''link'', ''unlink'', ''rebuild'', ''store'', ''fetch'', ''import'']"

definition uv_safe_subcommands :: "rstr list" where
  "uv_safe_subcommands = [''sync'', ''pip'', ''lock'', ''venv'', ''add'', ''remove'', ''tree'', ''export'',
     ''build'', ''version'', ''python'', ''cache'', ''init'', ''self'', ''help'']"

definition rustup_safe_subcommands :: "rstr list" where
  "rustup_safe_subcommands = [''show'', ''toolchain'', ''component'', ''target'', ''default'', ''update'',
     ''which'', ''doc'', ''self'', ''completions'', ''set'', ''override'']"

definition find_actions :: "rstr list" where
  "find_actions = [''-delete'', ''-exec'', ''-execdir'', ''-ok'', ''-okdir'', ''-fprint'', ''-fprint0'',
     ''-fprintf'', ''-fls'']"

definition is_lone_wrapper :: "rstr list \<Rightarrow> bool" where
  "is_lone_wrapper words \<longleftrightarrow> length words = 1 \<and> is_wrapper_command words"

definition find_is_read_only :: "rstr list \<Rightarrow> bool" where
  "find_is_read_only words \<longleftrightarrow> \<not> list_ex (\<lambda>w. w \<in> set find_actions) words"

definition is_option :: "rstr \<Rightarrow> bool" where
  "is_option w = starts_with w ''-''"

definition nonflag_tokens :: "rstr list \<Rightarrow> nat \<Rightarrow> rstr list" where
  "nonflag_tokens inner n = take n (filter (\<lambda>w. \<not> is_option w) (drop 1 inner))"

definition gh_subcommand_is_read_only :: "rstr list \<Rightarrow> bool" where
  "gh_subcommand_is_read_only inner =
     (case nonflag_tokens inner 2 of
        [group_word, sub] \<Rightarrow>
          group_word \<in> set [''pr'', ''issue'', ''release'', ''run'', ''workflow'', ''repo'', ''gist'']
            \<and> sub \<in> set [''view'', ''list'', ''status'', ''checks'', ''diff'']
          \<or> group_word = ''auth'' \<and> sub = ''status''
      | [w] \<Rightarrow> w = ''status''
      | _ \<Rightarrow> False)"

definition launched_writes_nonsink :: "rstr list \<Rightarrow> bool" where
  "launched_writes_nonsink words = list_ex (\<lambda>p. \<not> is_safe_write_sink p) (command_words_write_paths words)"

definition node_managers :: "rstr list" where
  "node_managers = [''npm'', ''pnpm'', ''yarn'']"

definition word_at :: "rstr list \<Rightarrow> nat \<Rightarrow> rstr option" where
  "word_at ws i = (if i < length ws then Some (ws ! i) else None)"

definition launcher_subcommand :: "rstr \<Rightarrow> rstr list \<Rightarrow> rstr option" where
  "launcher_subcommand head inner =
     map_option (\<lambda>sub.
         if head \<in> set node_managers \<and> sub = ''x'' then ''exec''
         else if head \<in> set node_managers \<and> sub = ''innit'' then ''init''
         else sub)
       (word_at inner 1)"

definition is_remote_launcher :: "rstr \<Rightarrow> rstr list \<Rightarrow> bool" where
  "is_remote_launcher head inner =
     (if head = ''npx'' \<or> head = ''uvx'' then True
      else if head = ''uv'' \<and> word_at inner 1 = Some ''tool'' \<and> word_at inner 2 = Some ''run'' then True
      else
        (case launcher_subcommand head inner of
           None \<Rightarrow> False
         | Some sub \<Rightarrow>
             head \<in> set node_managers
             \<and> (sub \<in> set [''dlx'', ''create'', ''explore'']
                \<or> sub = ''init'' \<and> (case word_at inner 2 of Some a \<Rightarrow> \<not> is_option a | None \<Rightarrow> False))))"

datatype launch_target = NotLauncher | LaunchInner "rstr list" | LaunchUnresolved

text \<open>The command from word \<open>start\<close> on, if there is one and it is not an option.\<close>

definition launch_from :: "rstr list \<Rightarrow> nat \<Rightarrow> launch_target" where
  "launch_from inner start =
     (case word_at inner start of
        Some tok \<Rightarrow> if \<not> is_option tok then LaunchInner (drop start inner) else LaunchUnresolved
      | None \<Rightarrow> LaunchUnresolved)"

definition explicit_launch_target :: "rstr \<Rightarrow> rstr list \<Rightarrow> launch_target" where
  "explicit_launch_target head inner =
     (case launcher_subcommand head inner of
        None \<Rightarrow> NotLauncher
      | Some sub \<Rightarrow>
          if head = ''uv'' \<and> sub = ''run'' then launch_from inner 2
          else if head = ''rustup'' \<and> sub = ''run'' then
            (case word_at inner 2 of
               Some toolchain \<Rightarrow> if \<not> is_option toolchain then launch_from inner 3 else LaunchUnresolved
             | None \<Rightarrow> LaunchUnresolved)
          else if head \<in> set node_managers \<and> sub = ''exec'' then
            launch_from inner (if word_at inner 2 = Some ''--'' then 3 else 2)
          else NotLauncher)"

text \<open>
  What the package managers decide: nothing (another program), an answer, or that the launched command
  decides.
\<close>

datatype manager_verdict = NotManager | ManagerSays bool | ManagerLaunches "rstr list"

definition package_manager_subcommand_is_routine :: "rstr \<Rightarrow> rstr list \<Rightarrow> manager_verdict" where
  "package_manager_subcommand_is_routine prog inner =
     (if prog \<notin> set [''uv'', ''uvx'', ''npm'', ''npx'', ''pnpm'', ''yarn'', ''rustup''] then NotManager
      else if is_remote_launcher prog inner then ManagerSays False
      else
        (case explicit_launch_target prog inner of
           LaunchUnresolved \<Rightarrow> ManagerSays False
         | LaunchInner launched \<Rightarrow> ManagerLaunches launched
         | NotLauncher \<Rightarrow>
             (case launcher_subcommand prog inner of
                None \<Rightarrow> ManagerSays False
              | Some sub \<Rightarrow>
                  ManagerSays
                    (if prog \<in> set node_managers then sub \<in> set npm_safe_subcommands
                     else if prog = ''uv'' then sub \<in> set uv_safe_subcommands
                     else if prog = ''rustup'' then sub \<in> set rustup_safe_subcommands
                     else False))))"

definition tree_writes_output :: "rstr list \<Rightarrow> bool" where
  "tree_writes_output inner =
     list_ex (\<lambda>w. is_option w \<and> \<not> starts_with w ''--'' \<and> CHR ''o'' \<in> set w \<or> starts_with w ''--output'') inner"

text \<open>The checks of a command that is no package manager, given the lower-case name of its program.\<close>

definition plain_command_is_routine :: "rstr \<Rightarrow> rstr list \<Rightarrow> bool" where
  "plain_command_is_routine head inner =
     (if head = ''find'' then find_is_read_only inner
      else if head = ''git'' \<and> git_words_are_read_only_query inner then True
      else if head = ''git'' \<and> git_words_have_unsafe_query_option inner then False
      else if head = ''tree'' \<and> tree_writes_output inner then False
      else if head = ''rg'' \<and> list_ex (\<lambda>w. w = ''--pre'' \<or> starts_with w ''--pre='') inner then False
      else if head = ''kubectl'' \<and> list_ex (\<lambda>w. option_name w \<in> set kubectl_unsafe_flags) (drop 1 inner) then False
      else if head = ''gh'' then gh_subcommand_is_read_only inner
      else
        (let joined = map ascii_lower (join '' '' inner) in
         list_ex (\<lambda>p. matches_command_prefix joined (trim p)) routine_prefixes))"

lemma length_unwrap_loop: "length (peel_words (unwrap_loop n p)) \<le> length (peel_words p)"
proof (induction n p rule: unwrap_loop.induct)
  case (2 n p)
  have words: "peel_words (note_env p) = peel_words p" by (simp add: note_env_def Let_def)
  show ?case
  proof (cases "strip_wrapper_command (peel_words p)")
    case None
    then show ?thesis by (simp add: words)
  next
    case (Some inner)
    have "length inner \<le> length (peel_words p)"
      using strip_wrapper_suffix [OF Some] suffix_length_le [of inner "tl (peel_words p)"] by simp
    moreover have "length (peel_words (unwrap_loop n ((note_env p)\<lparr>peel_words := inner\<rparr>))) \<le> length inner"
      using 2 [of "note_env p" inner] Some by (simp add: words)
    ultimately show ?thesis using Some by (simp add: words)
  qed
qed simp

lemma length_unwrap_wrappers: "length (unwrap_wrappers ws) \<le> length ws"
  using length_unwrap_loop [of max_wrapper_depth "\<lparr>peel_words = ws, peel_chdir = False, peel_split_string = False,
    peel_options_uncertain = False, peel_exhausted = False\<rparr>"]
  by (simp add: unwrap_wrappers_def unwrap_wrappers_checked_def)

lemma launch_from_shorter:
  "launch_from inner start = LaunchInner launched \<Longrightarrow> 0 < start \<Longrightarrow> length launched < length inner"
  by (auto simp: launch_from_def word_at_def split: if_splits option.splits)

lemma launched_shorter:
  "package_manager_subcommand_is_routine prog inner = ManagerLaunches launched \<Longrightarrow> length launched < length inner"
  by (auto simp: package_manager_subcommand_is_routine_def explicit_launch_target_def
      intro: launch_from_shorter split: if_splits option.splits launch_target.splits)

function bash_command_is_routine :: "rstr list \<Rightarrow> bool" where
  "bash_command_is_routine [] = True"
| "bash_command_is_routine (w # ws) =
     (let inner = unwrap_wrappers (w # ws) in
      if inner = [] \<or> is_lone_wrapper inner then True
      else
        (let head = map ascii_lower (basename (hd inner)) in
         case package_manager_subcommand_is_routine head inner of
           ManagerSays routine \<Rightarrow> routine
         | ManagerLaunches launched \<Rightarrow>
             command_env_risk launched = EnvSafe \<and> \<not> launched_writes_nonsink launched
             \<and> bash_command_is_routine launched
         | NotManager \<Rightarrow> plain_command_is_routine head inner))"
  by pat_completeness auto
termination
  by (relation "measure length")
    (auto dest!: launched_shorter simp del: list.size intro: order.strict_trans2 [OF _ length_unwrap_wrappers])

declare bash_command_is_routine.simps [simp del]

subsection \<open>The heuristic classifier\<close>

definition classify_bash :: "'pat externals \<Rightarrow> rstr \<Rightarrow> classifier_verdict" where
  "classify_bash x cmd =
     (case ext_parse x cmd of
        None \<Rightarrow> VBlock
      | Some tree \<Rightarrow>
          (case try_parse_word_only_commands_sequence tree cmd of
             None \<Rightarrow> VBlock
           | Some cmds \<Rightarrow>
               if script_env_risk (tree_root tree) cmd cmds \<noteq> EnvSafe then VBlock
               else if list_ex (\<lambda>path. \<not> is_safe_write_sink path) (command_write_paths_in_tree (tree_root tree) cmd)
               then VBlock
               else if cmds \<noteq> [] \<and> list_all (\<lambda>c. bash_command_is_routine (command_words c)) cmds then VAllow
               else VBlock))"

definition dangerous_patterns :: "rstr list" where
  "dangerous_patterns = [''rm -rf /'', ''rm -rf /*'', ''mkfs'', ''dd if='', '':(){ :|:& };:'', ''curl | sh'',
     ''curl|sh'', ''curl | bash'', ''curl|bash'', ''wget | sh'', ''wget|sh'', ''wget | bash'', ''wget|bash'',
     ''chmod 777'', ''chmod -r 777'', ''chmod +x /tmp'', ''base64 -d'', ''base64 --decode'', ''nc -e'',
     ''ncat -e'', ''/dev/tcp/'', ''shutdown'', ''reboot'', ''useradd'', ''userdel'', ''passwd '', ''chown -r /'',
     ''iptables -f'', ''kill -9 1'', ''sudo rm'', ''sudo dd'', ''sudo mkfs'', ''exfiltrat'', ''steal credential'',
     ''send secrets'']"

definition pipes_to_shell :: "rstr \<Rightarrow> bool" where
  "pipes_to_shell blob \<longleftrightarrow>
     list_ex (contains blob) [''curl'', ''wget'', ''fetch'']
     \<and> list_ex (contains blob) [''| sh'', ''|sh'', ''| bash'', ''|bash'', ''| zsh'', ''|zsh'']"

definition hostile_intent :: "rstr list" where
  "hostile_intent = [''delete all files'', ''wipe the disk'', ''exfiltrate'', ''steal secrets'',
     ''send my credentials'', ''ignore safety'', ''bypass permission'']"

text \<open>\<open>classify_sync\<close>, given the transcript of the conversation as one text.\<close>

definition classify_sync ::
  "'pat externals \<Rightarrow> rstr \<Rightarrow> 'json access_kind \<Rightarrow> rstr option \<Rightarrow> rstr \<Rightarrow> classifier_verdict" where
  "classify_sync x tool_name access access_detail transcript_text =
     (let detail = map ascii_lower (case access_detail of Some d \<Rightarrow> d | None \<Rightarrow> '''');
          tool = map ascii_lower tool_name;
          transcript = map ascii_lower transcript_text;
          blob = tool @ '' '' @ detail @ '' '' @ transcript
      in if contains tool ''ask_user'' \<or> contains tool ''askuserquestion'' then VBlock
         else if list_ex (contains blob) dangerous_patterns then VBlock
         else if pipes_to_shell blob then VBlock
         else if list_ex (contains transcript) hostile_intent then VBlock
         else
           (case access of
              AccessBash cmd \<Rightarrow> classify_bash x cmd
            | AccessWebFetch _ \<Rightarrow> VBlock
            | AccessEdit _ \<Rightarrow> VBlock
            | AccessMCP _ _ \<Rightarrow> VBlock
            | _ \<Rightarrow> VAllow))"

subsection \<open>The fast path\<close>

definition access_requires_user_interaction :: "rstr \<Rightarrow> 'json access_kind \<Rightarrow> bool" where
  "access_requires_user_interaction tool_name access =
     (let t = map ascii_lower tool_name in
      if contains t ''ask_user'' \<or> contains t ''askuserquestion'' \<or> contains t ''user_question''
         \<or> t = ''ask_user_question'' then True
      else
        (case access of
           AccessMCP name _ \<Rightarrow>
             (let n = map ascii_lower name in
              contains n ''ask_user'' \<or> contains n ''confirm'' \<and> contains n ''human'')
         | _ \<Rightarrow> False))"

definition is_auto_mode_allowlisted_access :: "'json access_kind \<Rightarrow> bool" where
  "is_auto_mode_allowlisted_access access =
     (case access of AccessRead _ \<Rightarrow> True | AccessGrep _ _ \<Rightarrow> True | AccessWebSearch _ \<Rightarrow> True | _ \<Rightarrow> False)"

definition is_auto_mode_allowlisted_tool_name :: "rstr \<Rightarrow> bool" where
  "is_auto_mode_allowlisted_tool_name tool_name \<longleftrightarrow>
     tool_name \<in> set [''todo_write'', ''TodoWrite'', ''task_output'', ''TaskOutput'', ''wait_tasks'', ''WaitTasks'',
       ''ask_user_question'', ''AskUserQuestion'', ''enter_plan_mode'', ''EnterPlanMode'', ''exit_plan_mode'',
       ''ExitPlanMode'', ''switch_mode'', ''SwitchMode'', ''create_plan'', ''CreatePlan'', ''update_plan'',
       ''UpdatePlan'', ''list_mcp_resources'', ''ListMcpResources'', ''read_mcp_resource'', ''ReadMcpResource'',
       ''tool_search'', ''ToolSearch'', ''sleep'', ''Sleep'']"

datatype auto_fast_path = FastAllow | FastPromptUser | FastClassify

definition auto_mode_fast_path :: "'json access_kind \<Rightarrow> rstr \<Rightarrow> bool \<Rightarrow> auto_fast_path" where
  "auto_mode_fast_path access tool_name requires_user_interaction =
     (if requires_user_interaction then FastPromptUser
      else if is_auto_mode_allowlisted_access access \<or> is_auto_mode_allowlisted_tool_name tool_name then FastAllow
      else
        (case access of
           AccessEdit _ \<Rightarrow> FastAllow
         | AccessBash cmd \<Rightarrow> if trim cmd \<in> set [''true'', '':'', ''false''] then FastAllow else FastClassify
         | _ \<Rightarrow> FastClassify))"

subsection \<open>What the heuristic lets through\<close>

text \<open>The command that a command launches through a package manager, if it does.\<close>

definition launched_by :: "rstr list \<Rightarrow> rstr list option" where
  "launched_by words =
     (let inner = unwrap_wrappers words in
      if inner = [] \<or> is_lone_wrapper inner then None
      else
        (case package_manager_subcommand_is_routine (map ascii_lower (basename (hd inner))) inner of
           ManagerLaunches launched \<Rightarrow> Some launched
         | _ \<Rightarrow> None))"

lemma launched_by_shorter: "launched_by words = Some launched \<Longrightarrow> length launched < length words"
  by (auto simp: launched_by_def Let_def split: if_splits manager_verdict.splits dest!: launched_shorter
      intro: order.strict_trans2 [OF _ length_unwrap_wrappers])

text \<open>A command with every command launched in turn.\<close>

function launch_chain :: "rstr list \<Rightarrow> rstr list list" where
  "launch_chain words = words # (case launched_by words of None \<Rightarrow> [] | Some launched \<Rightarrow> launch_chain launched)"
  by pat_completeness auto
termination
  by (relation "measure length") (auto dest: launched_by_shorter)

declare launch_chain.simps [simp del]

text \<open>A launched command sets no variable that is not known to be harmless, and writes only to sinks.\<close>

definition vetted_launch :: "rstr list \<Rightarrow> bool" where
  "vetted_launch words \<longleftrightarrow> command_env_risk words = EnvSafe \<and> \<not> launched_writes_nonsink words"

text \<open>A command that launches nothing and is routine.\<close>

definition routine_leaf :: "rstr list \<Rightarrow> bool" where
  "routine_leaf words =
     (let inner = unwrap_wrappers words in
      if inner = [] \<or> is_lone_wrapper inner then True
      else
        (let head = map ascii_lower (basename (hd inner)) in
         case package_manager_subcommand_is_routine head inner of
           ManagerSays routine \<Rightarrow> routine
         | ManagerLaunches _ \<Rightarrow> False
         | NotManager \<Rightarrow> plain_command_is_routine head inner))"

lemma unwrap_wrappers_Nil [simp]: "unwrap_wrappers [] = []"
  using length_unwrap_wrappers [of "[]"] by simp

lemma routine_unfold:
  "bash_command_is_routine words =
     (case launched_by words of
        Some launched \<Rightarrow> vetted_launch launched \<and> bash_command_is_routine launched
      | None \<Rightarrow> routine_leaf words)"
proof (cases words)
  case Nil
  then show ?thesis by (simp add: bash_command_is_routine.simps launched_by_def routine_leaf_def)
next
  case (Cons w ws)
  then show ?thesis
    unfolding launched_by_def routine_leaf_def vetted_launch_def
    by (auto simp: bash_command_is_routine.simps Let_def split: manager_verdict.split)
qed

lemma routine_iff_chain:
  "bash_command_is_routine words \<longleftrightarrow>
     list_all vetted_launch (tl (launch_chain words)) \<and> routine_leaf (last (launch_chain words))"
proof (induction words rule: launch_chain.induct)
  case (1 words)
  show ?case
  proof (cases "launched_by words")
    case None
    then show ?thesis by (subst routine_unfold) (simp add: launch_chain.simps [of words])
  next
    case (Some launched)
    have chain: "launch_chain words = words # launch_chain launched"
      using Some by (simp add: launch_chain.simps [of words])
    have head: "launch_chain launched \<noteq> []" "hd (launch_chain launched) = launched"
      by (simp_all add: launch_chain.simps [of launched])
    then have "list_all vetted_launch (launch_chain launched) \<longleftrightarrow>
        vetted_launch launched \<and> list_all vetted_launch (tl (launch_chain launched))"
      by (cases "launch_chain launched") auto
    then show ?thesis
      using 1 [OF Some] Some chain head by (subst routine_unfold) auto
  qed
qed

text \<open>The heuristic classifier allows a shell command exactly when the request is not a question to the
user, neither the call nor the transcript holds a dangerous pattern or hostile intent, the script decomposes
into plain commands that set only harmless variables and write only to sinks, and every one of them, followed
through any chain of package managers, ends in a routine command, each launched command being checked again for
its own variables and writes.\<close>

theorem heuristic_allows_bash_iff:
  "classify_sync x tool (AccessBash cmd) detail transcript = VAllow \<longleftrightarrow>
     (let blob = map ascii_lower (tool @ '' '' @ (case detail of Some d \<Rightarrow> d | None \<Rightarrow> '''') @ '' '' @ transcript) in
      \<not> contains (map ascii_lower tool) ''ask_user'' \<and> \<not> contains (map ascii_lower tool) ''askuserquestion''
      \<and> \<not> list_ex (contains blob) dangerous_patterns \<and> \<not> pipes_to_shell blob
      \<and> \<not> list_ex (contains (map ascii_lower transcript)) hostile_intent
      \<and> (\<exists>tree cmds. ext_parse x cmd = Some tree \<and> try_parse_word_only_commands_sequence tree cmd = Some cmds
           \<and> cmds \<noteq> [] \<and> script_env_risk (tree_root tree) cmd cmds = EnvSafe
           \<and> list_all is_safe_write_sink (command_write_paths_in_tree (tree_root tree) cmd)
           \<and> list_all (\<lambda>c. list_all vetted_launch (tl (launch_chain (command_words c)))
                \<and> routine_leaf (last (launch_chain (command_words c)))) cmds))"
proof -
  have blob: "map ascii_lower tool @ '' '' @ map ascii_lower (case detail of Some d \<Rightarrow> d | None \<Rightarrow> '''') @ '' ''
      @ map ascii_lower transcript
    = map ascii_lower (tool @ '' '' @ (case detail of Some d \<Rightarrow> d | None \<Rightarrow> '''') @ '' '' @ transcript)"
    by (simp add: ascii_lower_def)
  have bash: "classify_bash x cmd = VAllow \<longleftrightarrow>
      (\<exists>tree cmds. ext_parse x cmd = Some tree \<and> try_parse_word_only_commands_sequence tree cmd = Some cmds
         \<and> cmds \<noteq> [] \<and> script_env_risk (tree_root tree) cmd cmds = EnvSafe
         \<and> list_all is_safe_write_sink (command_write_paths_in_tree (tree_root tree) cmd)
         \<and> list_all (\<lambda>c. bash_command_is_routine (command_words c)) cmds)"
    unfolding classify_bash_def by (auto split: option.split if_split_asm simp: list_ex_iff list_all_iff)
  show ?thesis
    unfolding classify_sync_def Let_def blob routine_iff_chain [symmetric] bash [symmetric] by auto
qed


text \<open>The programs a routine command can run, by the lower-case base name of its first word.\<close>

definition routine_programs :: "rstr list" where
  "routine_programs =
     [''cargo'', ''git'', ''pytest'', ''python'', ''python3'', ''node'', ''rustc'', ''rustfmt'', ''clippy'',
      ''make'', ''cmake'', ''cd'', ''pushd'', ''popd'', ''ls'', ''pwd'', ''echo'', ''printf'', ''cat'', ''head'',
      ''tail'', ''wc'', ''rg'', ''grep'', ''which'', ''type'', ''true'', ''false'', ''test'', ''sort'', ''uniq'',
      ''tr'', ''cut'', ''diff'', ''jq'', ''date'', ''whoami'', ''hostname'', ''uname'', ''nproc'', ''printenv'',
      ''stat'', ''file'', ''tree'', ''basename'', ''dirname'', ''realpath'', ''readlink'', ''strings'', ''sleep'',
      ''df'', ''du'', ''ps'', ''top'', ''htop'', ''bazel'', ''just'', ''go'', ''kubectl'', ''set'', ''uv'',
      ''npm'', ''pnpm'', ''yarn'', ''rustup'', ''find'', ''gh'']"

lemma routine_prefixes_trimmed:
  "map trim routine_prefixes = [''cargo'', ''git add'', ''git commit'', ''git checkout'', ''git switch'', ''git stash'',
     ''git pull'', ''git fetch'', ''git worktree list'', ''pytest'', ''python'', ''python3'', ''node'',
     ''rustc'', ''rustfmt'', ''clippy'', ''make'', ''cmake'', ''cd'', ''pushd'', ''popd'', ''ls'', ''pwd'',
     ''echo'', ''printf'', ''cat'', ''head'', ''tail'', ''wc'', ''rg'', ''grep'', ''which'', ''type'',
     ''true'', ''false'', ''test'', ''sort'', ''uniq'', ''tr'', ''cut'', ''diff'', ''jq'', ''date'',
     ''whoami'', ''hostname'', ''uname'', ''nproc'', ''printenv'', ''stat'', ''file'', ''tree'',
     ''basename'', ''dirname'', ''realpath'', ''readlink'', ''strings'', ''sleep'', ''df'', ''du'',
     ''ps'', ''top'', ''htop'', ''bazel'', ''just'', ''go'', ''kubectl get'', ''kubectl logs'',
     ''kubectl describe'', ''set'']"
  by code_simp

lemma ascii_lower_eq:
  assumes "(of_char d :: nat) < 65 \<or> 90 < (of_char d :: nat)" "(of_char d :: nat) < 97 \<or> 122 < (of_char d :: nat)"
  shows "ascii_lower c = d \<longleftrightarrow> c = d"
proof (cases "65 \<le> (of_char c :: nat) \<and> of_char c \<le> (90 :: nat)")
  case True
  have "(of_char (ascii_lower c) :: nat) = of_char c + 32"
    using True by (simp add: ascii_lower_def)
  then have "ascii_lower c \<noteq> d" using True assms by auto
  moreover have "c \<noteq> d" using True assms by auto
  ultimately show ?thesis by simp
qed (auto simp: ascii_lower_def Let_def)

lemma ascii_lower_eq_space: "ascii_lower c = CHR '' '' \<longleftrightarrow> c = CHR '' ''"
  by (rule ascii_lower_eq) simp_all

lemma basename_lower: "map ascii_lower (basename w) = basename (map ascii_lower w)"
proof -
  have "(\<lambda>c. c \<noteq> CHR ''/'' \<and> c \<noteq> backslash) \<circ> ascii_lower = (\<lambda>c. c \<noteq> CHR ''/'' \<and> c \<noteq> backslash)"
    by (rule ext) (simp add: ascii_lower_eq)
  then show ?thesis by (simp add: basename_def rev_map takeWhile_map)
qed

lemma takeWhile_upto_space:
  "takeWhile (\<lambda>c. c \<noteq> CHR '' '') (p @ CHR '' '' # rest) = takeWhile (\<lambda>c. c \<noteq> CHR '' '') p"
  by (induction p) auto

lemma prefix_match_split:
  assumes "matches_command_prefix cmd pattern" and "cmd \<noteq> pattern"
  shows "\<exists>rest. cmd = pattern @ CHR '' '' # rest"
proof -
  obtain rest where rest: "cmd = pattern @ rest"
    using assms unfolding matches_command_prefix_def starts_with_iff by blast
  have at: "length pattern < length cmd" "cmd ! length pattern = CHR '' ''"
    using assms unfolding matches_command_prefix_def by blast+
  have "cmd = pattern @ CHR '' '' # tl rest"
  proof (cases rest)
    case (Cons c cs)
    then show ?thesis using at(2) rest by simp
  qed (use at(1) rest in simp)
  then show ?thesis by blast
qed

lemma takeWhile_prefix_match:
  assumes "matches_command_prefix cmd pattern"
  shows "takeWhile (\<lambda>c. c \<noteq> CHR '' '') cmd = takeWhile (\<lambda>c. c \<noteq> CHR '' '') pattern"
  using prefix_match_split [OF assms] takeWhile_upto_space by metis

lemma join_first_word:
  assumes "CHR '' '' \<notin> set w"
  shows "takeWhile (\<lambda>c. c \<noteq> CHR '' '') (map ascii_lower (join '' '' (w # ws))) = map ascii_lower w"
proof -
  have lower: "CHR '' '' \<notin> set (map ascii_lower w)"
    using assms ascii_lower_eq_space by force
  then have whole: "takeWhile (\<lambda>c. c \<noteq> CHR '' '') (map ascii_lower w) = map ascii_lower w"
    by (simp only: takeWhile_eq_all_conv) metis
  have "ascii_lower CHR '' '' = CHR '' ''" by (simp add: ascii_lower_eq_space)
  then show ?thesis
    using whole by (cases ws) (auto simp: takeWhile_upto_space)
qed

lemma routine_prefix_programs:
  assumes "list_ex (\<lambda>p. matches_command_prefix (map ascii_lower (join '' '' (w # ws))) (trim p)) routine_prefixes"
    and "CHR '' '' \<notin> set w"
  shows "map ascii_lower w \<in> set routine_programs"
proof -
  obtain p where p: "p \<in> set routine_prefixes" "matches_command_prefix (map ascii_lower (join '' '' (w # ws))) (trim p)"
    using assms(1) by (auto simp: list_ex_iff)
  have "map ascii_lower w = takeWhile (\<lambda>c. c \<noteq> CHR '' '') (trim p)"
    using takeWhile_prefix_match [OF p(2)] join_first_word [OF assms(2)] by simp
  moreover have "list_all (\<lambda>p. takeWhile (\<lambda>c. c \<noteq> CHR '' '') p \<in> set routine_programs) (map trim routine_prefixes)"
    unfolding routine_prefixes_trimmed by code_simp
  ultimately show ?thesis using p(1) by (auto simp: list_all_iff)
qed

lemma basename_routine_program: "p \<in> set routine_programs \<Longrightarrow> basename p = p"
proof -
  have "list_all (\<lambda>p. basename p = p) routine_programs" by code_simp
  then show "p \<in> set routine_programs \<Longrightarrow> basename p = p" by (simp add: list_all_iff)
qed

text \<open>
  What the programs of the list may be used for, written down apart from the code: \<open>sub\<close> is the first
  argument up to its first blank, in lower case.
\<close>

definition routine_use :: "rstr list \<Rightarrow> bool" where
  "routine_use words =
     (let program = map ascii_lower (basename (hd words));
          args = tl words;
          first = (case args of [] \<Rightarrow> '''' | a # _ \<Rightarrow> a);
          sub = takeWhile (\<lambda>c. c \<noteq> CHR '' '') (map ascii_lower first)
      in if program = ''git'' then
           git_words_are_read_only_query words
           \<or> \<not> git_words_have_unsafe_query_option words
             \<and> sub \<in> set [''add'', ''commit'', ''checkout'', ''switch'', ''stash'', ''pull'', ''fetch'', ''worktree'']
         else if program = ''kubectl'' then
           sub \<in> set [''get'', ''logs'', ''describe'']
           \<and> list_all (\<lambda>a. option_name a \<notin> set [''--kubeconfig'', ''--context'', ''--cluster'', ''--server'',
               ''-s'', ''--token'', ''--user'', ''--as'']) args
         else if program = ''find'' then
           list_all (\<lambda>a. a \<notin> set [''-delete'', ''-exec'', ''-execdir'', ''-ok'', ''-okdir'', ''-fprint'',
               ''-fprint0'', ''-fprintf'', ''-fls'']) args
         else if program = ''rg'' then list_all (\<lambda>a. a \<noteq> ''--pre'' \<and> \<not> starts_with a ''--pre='') args
         else if program = ''tree'' then list_all (\<lambda>a. a \<noteq> ''-o'' \<and> \<not> starts_with a ''--output'') args
         else if program \<in> set [''npm'', ''pnpm'', ''yarn''] then
           first \<notin> set [''dlx'', ''create'', ''explore'', ''init'', ''innit'', ''publish'']
         else if program = ''uv'' then first \<notin> set [''tool'', ''publish'']
         else True)"

text \<open>What a package manager runs for its caller, by its documentation: \<open>uv run\<close>, \<open>rustup run\<close>, \<open>npm exec\<close>.\<close>

inductive launches :: "rstr list \<Rightarrow> rstr list \<Rightarrow> bool" where
  uv_run: "launches words (tok # rest)"
    if "unwrap_wrappers words = p # ''run'' # tok # rest" "map ascii_lower (basename p) = ''uv''"
| rustup_run: "launches words (tok # rest)"
    if "unwrap_wrappers words = p # ''run'' # toolchain # tok # rest" "map ascii_lower (basename p) = ''rustup''"
| node_exec: "launches words (tok # rest)"
    if "unwrap_wrappers words = p # sub # tok # rest" "map ascii_lower (basename p) \<in> set [''npm'', ''pnpm'', ''yarn'']"
      "sub \<in> set [''exec'', ''x'']" "tok \<noteq> ''--''"
| node_exec_dashes: "launches words (tok # rest)"
    if "unwrap_wrappers words = p # sub # ''--'' # tok # rest" "map ascii_lower (basename p) \<in> set [''npm'', ''pnpm'', ''yarn'']"
      "sub \<in> set [''exec'', ''x'']"

lemmas manager_defs = package_manager_subcommand_is_routine_def explicit_launch_target_def launch_from_def
  launcher_subcommand_def is_remote_launcher_def node_managers_def word_at_def

lemma manager_launches:
  "package_manager_subcommand_is_routine ''uv'' (p # ''run'' # tok # rest) =
     (if is_option tok then ManagerSays False else ManagerLaunches (tok # rest))"
  "package_manager_subcommand_is_routine ''rustup'' (p # ''run'' # toolchain # tok # rest) =
     (if is_option toolchain \<or> is_option tok then ManagerSays False else ManagerLaunches (tok # rest))"
  "\<lbrakk>m \<in> set [''npm'', ''pnpm'', ''yarn'']; sub \<in> set [''exec'', ''x'']\<rbrakk> \<Longrightarrow>
     package_manager_subcommand_is_routine m (p # sub # ''--'' # tok # rest) =
     (if is_option tok then ManagerSays False else ManagerLaunches (tok # rest))"
  "\<lbrakk>m \<in> set [''npm'', ''pnpm'', ''yarn'']; sub \<in> set [''exec'', ''x'']; tok \<noteq> ''--''\<rbrakk> \<Longrightarrow>
     package_manager_subcommand_is_routine m (p # sub # tok # rest) =
     (if is_option tok then ManagerSays False else ManagerLaunches (tok # rest))"
  by (auto simp: manager_defs)

lemma launch_is_vetted:
  assumes "bash_command_is_routine words" and "unwrap_wrappers words = p # q # inner"
    and "package_manager_subcommand_is_routine (map ascii_lower (basename p)) (p # q # inner) =
      (if bad then ManagerSays False else ManagerLaunches launched)"
  shows "vetted_launch launched \<and> bash_command_is_routine launched"
  using assms
  by (cases bad) (simp_all add: routine_unfold [of words] launched_by_def routine_leaf_def is_lone_wrapper_def)

lemma launches_vetted:
  assumes "launches words launched" and "bash_command_is_routine words"
  shows "vetted_launch launched \<and> bash_command_is_routine launched"
  using assms(1)
proof cases
  case (uv_run p tok rest)
  then show ?thesis
    using launch_is_vetted [OF assms(2), of p "''run''" "tok # rest"] manager_launches(1) by simp
next
  case (rustup_run p toolchain tok rest)
  then show ?thesis
    using launch_is_vetted [OF assms(2), of p "''run''" "toolchain # tok # rest"] manager_launches(2) by simp
next
  case (node_exec p sub tok rest)
  then show ?thesis
    using launch_is_vetted [OF assms(2), of p sub "tok # rest"] manager_launches(4) by metis
next
  case (node_exec_dashes p sub tok rest)
  then show ?thesis
    using launch_is_vetted [OF assms(2), of p sub "''--'' # tok # rest"] manager_launches(3) by metis
qed

text \<open>The subcommand that a prefix of two words allows.\<close>

definition second_word :: "rstr \<Rightarrow> rstr" where
  "second_word s = takeWhile (\<lambda>c. c \<noteq> CHR '' '') (tl (dropWhile (\<lambda>c. c \<noteq> CHR '' '') s))"

lemma second_word_prefix:
  assumes "matches_command_prefix cmd pattern" and "CHR '' '' \<in> set pattern"
  shows "second_word cmd = second_word pattern"
proof -
  obtain a b where p: "pattern = a @ CHR '' '' # b" and a: "CHR '' '' \<notin> set a"
    using split_list_first [OF assms(2)] by blast
  have drop: "dropWhile (\<lambda>c. c \<noteq> CHR '' '') (a @ CHR '' '' # r) = CHR '' '' # r" for r
    using a by (induction a) auto
  show ?thesis
  proof (cases "cmd = pattern")
    case False
    then obtain rest where "cmd = pattern @ CHR '' '' # rest" using prefix_match_split [OF assms(1)] by blast
    then have "cmd = a @ CHR '' '' # b @ CHR '' '' # rest" using p by simp
    then show ?thesis using p drop takeWhile_upto_space by (simp add: second_word_def)
  qed simp
qed

lemma second_word_join:
  assumes "CHR '' '' \<notin> set w"
  shows "second_word (map ascii_lower (join '' '' (w # a # rest))) = takeWhile (\<lambda>c. c \<noteq> CHR '' '') (map ascii_lower a)"
proof -
  have "CHR '' '' \<notin> set (map ascii_lower w)" using assms ascii_lower_eq_space by force
  then have "dropWhile (\<lambda>c. c \<noteq> CHR '' '') (map ascii_lower w @ CHR '' '' # r) = CHR '' '' # r" for r
    by (induction w) auto
  moreover have "ascii_lower CHR '' '' = CHR '' ''" by (simp add: ascii_lower_eq_space)
  ultimately show ?thesis by (cases rest) (auto simp: second_word_def takeWhile_upto_space)
qed

lemma second_word_alone: "CHR '' '' \<notin> set w \<Longrightarrow> second_word (map ascii_lower w) = ''''"
proof -
  assume "CHR '' '' \<notin> set w"
  then have "CHR '' '' \<notin> set (map ascii_lower w)" using ascii_lower_eq_space by force
  then have "dropWhile (\<lambda>c. c \<noteq> CHR '' '') (map ascii_lower w) = []" by (simp only: dropWhile_eq_Nil_conv) metis
  then show ?thesis by (simp only: second_word_def list.sel takeWhile.simps)
qed

lemma trimmed_subcommands:
  "list_all (\<lambda>p. (takeWhile (\<lambda>c. c \<noteq> CHR '' '') p = ''git'' \<longrightarrow> CHR '' '' \<in> set p \<and> second_word p
        \<in> set [''add'', ''commit'', ''checkout'', ''switch'', ''stash'', ''pull'', ''fetch'', ''worktree''])
      \<and> (takeWhile (\<lambda>c. c \<noteq> CHR '' '') p = ''kubectl'' \<longrightarrow> CHR '' '' \<in> set p \<and> second_word p
        \<in> set [''get'', ''logs'', ''describe''])) (map trim routine_prefixes)"
  unfolding routine_prefixes_trimmed by code_simp

lemma routine_prefix_subcommands:
  assumes "list_ex (\<lambda>p. matches_command_prefix (map ascii_lower (join '' '' (w # args))) (trim p)) routine_prefixes"
    and "CHR '' '' \<notin> set w" and "map ascii_lower w = program"
  shows "program = ''git'' \<Longrightarrow> second_word (map ascii_lower (join '' '' (w # args)))
      \<in> set [''add'', ''commit'', ''checkout'', ''switch'', ''stash'', ''pull'', ''fetch'', ''worktree'']"
    and "program = ''kubectl'' \<Longrightarrow> second_word (map ascii_lower (join '' '' (w # args)))
      \<in> set [''get'', ''logs'', ''describe'']"
proof -
  obtain p where p: "p \<in> set routine_prefixes" and m: "matches_command_prefix (map ascii_lower (join '' '' (w # args))) (trim p)"
    using assms(1) by (auto simp: list_ex_iff)
  have first: "takeWhile (\<lambda>c. c \<noteq> CHR '' '') (trim p) = program"
    using takeWhile_prefix_match [OF m] join_first_word [OF assms(2)] assms(3) by simp
  have "trim p \<in> set (map trim routine_prefixes)" using p by simp
  then have "program = ''git'' \<longrightarrow> CHR '' '' \<in> set (trim p) \<and> second_word (trim p)
        \<in> set [''add'', ''commit'', ''checkout'', ''switch'', ''stash'', ''pull'', ''fetch'', ''worktree'']"
    and "program = ''kubectl'' \<longrightarrow> CHR '' '' \<in> set (trim p) \<and> second_word (trim p) \<in> set [''get'', ''logs'', ''describe'']"
    using trimmed_subcommands first unfolding list_all_iff by blast+
  then show "program = ''git'' \<Longrightarrow> second_word (map ascii_lower (join '' '' (w # args)))
      \<in> set [''add'', ''commit'', ''checkout'', ''switch'', ''stash'', ''pull'', ''fetch'', ''worktree'']"
    and "program = ''kubectl'' \<Longrightarrow> second_word (map ascii_lower (join '' '' (w # args)))
      \<in> set [''get'', ''logs'', ''describe'']"
    using second_word_prefix [OF m] by simp_all
qed

text \<open>A routine command that launches nothing is no command at all, a lone wrapper such as \<open>env\<close>, or
runs one of a fixed list of programs: whatever the wrappers, the arguments and the letter case, no other
program (\<open>sudo\<close>, \<open>rm\<close>, \<open>curl\<close>, \<open>ssh\<close>, a shell) is ever the one that runs.\<close>

theorem routine_leaf_programs:
  assumes "routine_leaf words" "unwrap_wrappers words = w # args" "\<not> is_lone_wrapper (w # args)"
    and "CHR '' '' \<notin> set w"
  shows "map ascii_lower (basename w) \<in> set routine_programs"
proof -
  let ?head = "map ascii_lower (basename w)"
  have listed: "list_all (\<lambda>p. p \<in> set routine_programs)
      [''git'', ''tree'', ''rg'', ''kubectl'', ''uv'', ''npm'', ''pnpm'', ''yarn'', ''rustup'', ''find'', ''gh'']"
    by code_simp
  consider routine where "package_manager_subcommand_is_routine ?head (w # args) = ManagerSays routine" "routine"
    | "package_manager_subcommand_is_routine ?head (w # args) = NotManager" "plain_command_is_routine ?head (w # args)"
    using assms(1-3) by (auto simp: routine_leaf_def Let_def split: manager_verdict.splits)
  then show ?thesis
  proof cases
    case 1
    then have "?head \<in> set [''uv'', ''npm'', ''pnpm'', ''yarn'', ''rustup'']"
      by (auto simp: package_manager_subcommand_is_routine_def node_managers_def
          split: if_splits launch_target.splits option.splits)
    then show ?thesis using listed by (auto simp: list_all_iff)
  next
    case 2
    then consider "?head \<in> set [''git'', ''find'', ''gh'']"
      | "list_ex (\<lambda>p. matches_command_prefix (map ascii_lower (join '' '' (w # args))) (trim p)) routine_prefixes"
      by (auto simp: plain_command_is_routine_def Let_def split: if_splits)
    then show ?thesis
    proof cases
      case 1
      then show ?thesis using listed by (auto simp: list_all_iff)
    next
      case 2
      then have "map ascii_lower w \<in> set routine_programs" by (rule routine_prefix_programs [OF _ assms(4)])
      then show ?thesis using basename_routine_program by (simp add: basename_lower)
    qed
  qed
qed

theorem routine_leaf_programs_witness:
  "map ascii_lower (basename ''Cargo'') \<in> set routine_programs"
  by (rule routine_leaf_programs [of "[''timeout'', ''60'', ''Cargo'', ''test'']" _ "[''test'']"]) code_simp+

lemma plain_use:
  assumes "plain_command_is_routine (map ascii_lower (basename w)) (w # args)" and "CHR '' '' \<notin> set w"
    and "map ascii_lower (basename w) \<notin> set [''uv'', ''npm'', ''pnpm'', ''yarn'', ''rustup'']"
  shows "routine_use (w # args)"
proof -
  let ?program = "map ascii_lower (basename w)"
  let ?joined = "map ascii_lower (join '' '' (w # args))"
  have sub: "second_word ?joined = takeWhile (\<lambda>c. c \<noteq> CHR '' '') (map ascii_lower (case args of [] \<Rightarrow> '''' | a # _ \<Rightarrow> a))"
    using second_word_join [OF assms(2)] second_word_alone [OF assms(2)] by (cases args) simp_all
  have named: "map ascii_lower w = ?program"
    if "list_ex (\<lambda>p. matches_command_prefix ?joined (trim p)) routine_prefixes"
    using basename_routine_program [OF routine_prefix_programs [OF that assms(2)]] by (simp add: basename_lower)
  note subcommands = routine_prefix_subcommands [OF _ assms(2) named, of args, unfolded sub]
  consider "?program = ''git''" | "?program = ''kubectl''" | "?program = ''find''" | "?program = ''rg''"
    | "?program = ''tree''" | "?program \<notin> set [''git'', ''kubectl'', ''find'', ''rg'', ''tree'']"
    by auto
  then show ?thesis
  proof cases
    case 1
    then show ?thesis
      using assms(1) subcommands(1) by (auto simp: plain_command_is_routine_def routine_use_def Let_def split: if_splits)
  next
    case 2
    then show ?thesis
      using assms(1) subcommands(2)
      by (auto simp: plain_command_is_routine_def routine_use_def Let_def kubectl_unsafe_flags_def list_all_iff
          list_ex_iff split: if_splits)
  next
    case 3
    then show ?thesis
      using assms(1)
      by (auto simp: plain_command_is_routine_def routine_use_def Let_def find_is_read_only_def find_actions_def
          list_all_iff list_ex_iff)
  next
    case 4
    then show ?thesis
      using assms(1)
      by (auto simp: plain_command_is_routine_def routine_use_def Let_def list_all_iff list_ex_iff split: if_splits)
  next
    case 5
    have "is_option ''-o'' \<and> \<not> starts_with ''-o'' ''--''" by code_simp
    then show ?thesis
      using assms(1) 5
      by (auto simp: plain_command_is_routine_def routine_use_def Let_def tree_writes_output_def list_all_iff
          list_ex_iff split: if_splits)
  next
    case 6
    then show ?thesis using assms(3) by (simp add: routine_use_def Let_def)
  qed
qed

lemma manager_refuses_sub:
  assumes "launcher_subcommand m inner = Some sub" and "m \<in> set node_managers" and "sub \<notin> set npm_safe_subcommands"
    and "sub \<noteq> ''exec''"
  shows "package_manager_subcommand_is_routine m inner = ManagerSays False"
proof -
  have m: "m \<in> set [''uv'', ''uvx'', ''npm'', ''npx'', ''pnpm'', ''yarn'', ''rustup'']" "m \<noteq> ''uv''" "m \<noteq> ''rustup''"
    using assms(2) by (auto simp: node_managers_def)
  then have "explicit_launch_target m inner = NotLauncher"
    using assms(1,4) by (simp add: explicit_launch_target_def)
  then show ?thesis using assms(1-3) m(1) by (simp add: package_manager_subcommand_is_routine_def)
qed

lemma manager_refuses:
  assumes "m \<in> set [''npm'', ''pnpm'', ''yarn'']"
    and "sub \<in> set [''dlx'', ''create'', ''explore'', ''init'', ''innit'', ''publish'']"
  shows "package_manager_subcommand_is_routine m (p # sub # rest) = ManagerSays False"
proof -
  have m: "m \<in> set node_managers" using assms(1) by (simp add: node_managers_def)
  have "list_all (\<lambda>s. s \<notin> set npm_safe_subcommands \<and> s \<noteq> ''exec'' \<and> s \<noteq> ''x'')
      [''dlx'', ''create'', ''explore'', ''init'', ''innit'', ''publish'']"
    by code_simp
  then have bad: "s \<notin> set npm_safe_subcommands" "s \<noteq> ''exec''" "s \<noteq> ''x''"
    if "s \<in> set [''dlx'', ''create'', ''explore'', ''init'', ''innit'', ''publish'']" for s
    using that unfolding list_all_iff by blast+
  have "launcher_subcommand m (p # sub # rest) = Some (if sub = ''innit'' then ''init'' else sub)"
    using m bad(3) [OF assms(2)] by (simp add: launcher_subcommand_def word_at_def)
  then show ?thesis
    by (rule manager_refuses_sub [OF _ m]) (use bad [OF assms(2)] bad [of "''init''"] in simp_all)
qed

lemma uv_refuses:
  assumes "sub \<in> set [''tool'', ''publish'']"
  shows "package_manager_subcommand_is_routine ''uv'' (p # sub # rest) = ManagerSays False"
proof -
  have "list_all (\<lambda>s. s \<notin> set uv_safe_subcommands \<and> s \<noteq> ''run'') [''tool'', ''publish'']" by code_simp
  then have bad: "sub \<notin> set uv_safe_subcommands" "sub \<noteq> ''run''" using assms unfolding list_all_iff by blast+
  have L: "launcher_subcommand ''uv'' (p # sub # rest) = Some sub"
    by (simp add: launcher_subcommand_def word_at_def node_managers_def)
  then have "explicit_launch_target ''uv'' (p # sub # rest) = NotLauncher"
    using bad(2) by (simp add: explicit_launch_target_def node_managers_def)
  then show ?thesis using L bad(1) by (simp add: package_manager_subcommand_is_routine_def node_managers_def)
qed

lemma routine_use_manager:
  assumes "m \<in> set [''uv'', ''uvx'', ''npm'', ''npx'', ''pnpm'', ''yarn'', ''rustup'']"
    and "map ascii_lower (basename w) = m"
    and "m \<in> set [''npm'', ''pnpm'', ''yarn''] \<Longrightarrow>
      (case args of [] \<Rightarrow> '''' | a # _ \<Rightarrow> a) \<notin> set [''dlx'', ''create'', ''explore'', ''init'', ''innit'', ''publish'']"
    and "m = ''uv'' \<Longrightarrow> (case args of [] \<Rightarrow> '''' | a # _ \<Rightarrow> a) \<notin> set [''tool'', ''publish'']"
  shows "routine_use (w # args)"
proof -
  have "m \<noteq> ''git'' \<and> m \<noteq> ''kubectl'' \<and> m \<noteq> ''find'' \<and> m \<noteq> ''rg'' \<and> m \<noteq> ''tree''" using assms(1) by auto
  then show ?thesis
    unfolding routine_use_def Let_def list.sel assms(2) using assms(3,4) 
    by (simp only: if_False if_True simp_thms split: if_split) blast
qed

lemma manager_use:
  assumes "package_manager_subcommand_is_routine m (w # args) = v" and "m = map ascii_lower (basename w)"
    and "v \<noteq> NotManager" and "v \<noteq> ManagerSays False"
  shows "routine_use (w # args)"
proof (rule routine_use_manager [OF _ assms(2) [symmetric]])
  show "m \<in> set [''uv'', ''uvx'', ''npm'', ''npx'', ''pnpm'', ''yarn'', ''rustup'']"
    using assms(1,3) unfolding package_manager_subcommand_is_routine_def by (metis (full_types))
next
  assume m: "m \<in> set [''npm'', ''pnpm'', ''yarn'']"
  show "(case args of [] \<Rightarrow> '''' | a # _ \<Rightarrow> a) \<notin> set [''dlx'', ''create'', ''explore'', ''init'', ''innit'', ''publish'']"
  proof (cases args)
    case (Cons a rest)
    then show ?thesis using manager_refuses [OF m, of a w rest] assms(1,4) by (metis list.case(2))
  qed simp
next
  assume m: "m = ''uv''"
  show "(case args of [] \<Rightarrow> '''' | a # _ \<Rightarrow> a) \<notin> set [''tool'', ''publish'']"
  proof (cases args)
    case (Cons a rest)
    then show ?thesis using uv_refuses [of a w rest] assms(1,4) m by (metis list.case(2))
  qed simp
qed

lemma manager_programs:
  assumes "package_manager_subcommand_is_routine m inner = v" and "v \<noteq> NotManager" and "v \<noteq> ManagerSays False"
  shows "m \<in> set [''uv'', ''npm'', ''pnpm'', ''yarn'', ''rustup'']"
  using assms by (auto simp: package_manager_subcommand_is_routine_def is_remote_launcher_def explicit_launch_target_def
      node_managers_def split: if_splits launch_target.splits option.splits)

text \<open>What a routine command runs when its wrappers are peeled, its package managers included.\<close>

lemma routine_runs:
  assumes "bash_command_is_routine words" and "unwrap_wrappers words = w # args" and "CHR '' '' \<notin> set w"
    and "\<not> is_lone_wrapper (w # args)"
  shows "map ascii_lower (basename w) \<in> set routine_programs \<and> routine_use (w # args)"
proof -
  let ?v = "package_manager_subcommand_is_routine (map ascii_lower (basename w)) (w # args)"
  have "list_all (\<lambda>m. m \<in> set routine_programs) [''uv'', ''npm'', ''pnpm'', ''yarn'', ''rustup'']" by code_simp
  then have listed: "m \<in> set [''uv'', ''npm'', ''pnpm'', ''yarn'', ''rustup''] \<Longrightarrow> m \<in> set routine_programs" for m
    by (auto simp: list_all_iff)
  show ?thesis
  proof (cases "?v = NotManager")
    case True
    then have "launched_by words = None" and "plain_command_is_routine (map ascii_lower (basename w)) (w # args)"
      using assms by (auto simp: launched_by_def routine_unfold [of words] routine_leaf_def Let_def split: option.splits)
    moreover have "map ascii_lower (basename w) \<notin> set [''uv'', ''npm'', ''pnpm'', ''yarn'', ''rustup'']"
      using True by (auto simp: package_manager_subcommand_is_routine_def split: if_splits launch_target.splits option.splits)
    moreover have "routine_leaf words"
      using assms(1) calculation(1) by (simp add: routine_unfold [of words])
    ultimately show ?thesis using plain_use routine_leaf_programs assms by metis
  next
    case False
    have "?v \<noteq> ManagerSays False"
      using assms by (auto simp: launched_by_def routine_unfold [of words] routine_leaf_def Let_def split: option.splits)
    then show ?thesis using manager_use [OF refl refl] manager_programs [OF refl] False listed by blast
  qed
qed

text \<open>The texts that stop the heuristic wherever they occur, in lower case.\<close>

definition alarming_texts :: "rstr list" where
  "alarming_texts = [''rm -rf /'', ''mkfs'', ''dd if='', '':(){ :|:& };:'', ''curl | sh'', ''curl|sh'',
     ''curl | bash'', ''curl|bash'', ''wget | sh'', ''wget|sh'', ''wget | bash'', ''wget|bash'', ''chmod 777'',
     ''chmod -r 777'', ''chmod +x /tmp'', ''base64 -d'', ''base64 --decode'', ''nc -e'', ''ncat -e'', ''/dev/tcp/'',
     ''shutdown'', ''reboot'', ''useradd'', ''userdel'', ''passwd '', ''chown -r /'', ''iptables -f'',
     ''kill -9 1'', ''sudo rm'', ''sudo dd'', ''sudo mkfs'', ''exfiltrat'', ''steal credential'', ''send secrets'']"

lemma no_alarm:
  assumes "classify_sync x tool (AccessBash cmd) detail transcript = VAllow" and "p \<in> set alarming_texts"
  shows "\<not> contains (map ascii_lower (case detail of Some d \<Rightarrow> d | None \<Rightarrow> '''')) p"
    and "\<not> contains (map ascii_lower transcript) p"
proof -
  let ?d = "map ascii_lower (case detail of Some d \<Rightarrow> d | None \<Rightarrow> '''')" and ?t = "map ascii_lower transcript"
  let ?blob = "map ascii_lower tool @ '' '' @ ?d @ '' '' @ ?t"
  have "list_all (\<lambda>p. p \<in> set dangerous_patterns) alarming_texts" by code_simp
  then have "p \<in> set dangerous_patterns" using assms(2) by (simp add: list_all_iff)
  moreover have "\<not> list_ex (contains ?blob) dangerous_patterns"
    using assms(1) by (auto simp: classify_sync_def Let_def split: if_splits)
  ultimately have none: "\<not> contains ?blob p" by (auto simp: list_ex_iff)
  have within: "contains (a @ b @ c) p" if "contains b p" for a b c
    using that unfolding contains_iff by (elim exE, hypsubst) (metis append.assoc)
  show "\<not> contains ?d p"
    using none within [of ?d "map ascii_lower tool @ '' ''" "'' '' @ ?t"] by auto
  show "\<not> contains ?t p"
    using none within [of ?t "map ascii_lower tool @ '' '' @ ?d @ '' ''" "[]"] by auto
qed

lemma allowed_script:
  assumes "classify_sync x tool (AccessBash cmd) detail transcript = VAllow"
    and "ext_parse x cmd = Some tree" and "try_parse_word_only_commands_sequence tree cmd = Some cmds"
  shows "script_env_risk (tree_root tree) cmd cmds = EnvSafe"
    and "list_all is_safe_write_sink (command_write_paths_in_tree (tree_root tree) cmd)"
    and "c \<in> set cmds \<Longrightarrow> bash_command_is_routine (command_words c)"
proof -
  have "classify_bash x cmd = VAllow"
    using assms(1) by (auto simp: classify_sync_def Let_def split: if_splits)
  then show "script_env_risk (tree_root tree) cmd cmds = EnvSafe"
    and "list_all is_safe_write_sink (command_write_paths_in_tree (tree_root tree) cmd)"
    and "c \<in> set cmds \<Longrightarrow> bash_command_is_routine (command_words c)"
    using assms(2,3) by (auto simp: classify_bash_def list_ex_iff list_all_iff split: if_splits)
qed

lemma launched_routine:
  assumes "launches\<^sup>*\<^sup>* words words'" and "bash_command_is_routine words"
  shows "bash_command_is_routine words' \<and> (words' = words \<or> vetted_launch words')"
  using assms by (induction rule: rtranclp_induct) (auto dest: launches_vetted)



text \<open>
  A package manager, \<open>find\<close> or \<open>gh\<close> is known by its base name alone, so that one under any directory is
  routine as well.
\<close>

lemma path_qualified_manager_is_routine:
  "bash_command_is_routine [''/tmp/x/npm'', ''install'']" "bash_command_is_routine [''./gh'', ''pr'', ''list'']"
  by code_simp+

end
