(* ===== verification/ModelPath.thy ===== *)
theory ModelPath
  imports ShellPath
begin

section \<open>Paths as the model writes them\<close>

text \<open>
  Models \<open>resolve_model_path\<close> of \<open>hystersis-tools/src/types/resources.rs\<close>, which turns the path argument of a
  tool call into the path that is edited: quotes and escapes that models leave around a path are removed, and
  a path below the directory shown to the model is moved to the directory of the session.  The expansion of
  a leading tilde (the \<open>shellexpand\<close> crate) is an argument.
\<close>

definition is_quote :: "char \<Rightarrow> bool" where
  "is_quote c \<longleftrightarrow> c = dquote \<or> c = squote"

definition escape_suffixes :: "rstr list" where
  "escape_suffixes = [backslash # ''n'', backslash # ''r'', backslash # ''t'']"

function strip_escapes :: "rstr \<Rightarrow> rstr" where
  "strip_escapes [] = []"
| "strip_escapes (c # cs) =
     (case find_map (\<lambda>e. strip_suffix e (c # cs)) escape_suffixes of
        Some stripped \<Rightarrow> strip_escapes (trim_end stripped)
      | None \<Rightarrow> c # cs)"
  by pat_completeness auto
termination
proof (relation "measure length")
  fix c cs stripped
  assume "find_map (\<lambda>e. strip_suffix e (c # cs)) escape_suffixes = Some stripped"
  then obtain e where "e \<in> set escape_suffixes" "strip_suffix e (c # cs) = Some stripped"
    by (auto dest: find_map_Some)
  then have "length stripped < length (c # cs)"
    by (auto simp: escape_suffixes_def strip_suffix_def split: if_splits)
  moreover have "length (trim_end stripped) \<le> length stripped"
    unfolding trim_end_def using length_concat_drop_end [of is_whitespace "chars_of stripped"] by simp
  ultimately show "(trim_end stripped, c # cs) \<in> measure length" by simp
qed simp

declare strip_escapes.simps [simp del]

definition sanitize_model_path_arg :: "rstr \<Rightarrow> rstr" where
  "sanitize_model_path_arg input =
     (let trimmed = trim input;
          quote_wrapped = (2 \<le> length trimmed \<and> is_quote (hd trimmed) \<and> is_quote (last trimmed));
          unquoted = trim (drop_end is_quote (dropWhile is_quote trimmed))
      in if \<not> quote_wrapped then unquoted else strip_escapes unquoted)"

definition path_strip_prefix :: "rstr \<Rightarrow> rstr \<Rightarrow> rstr option" where
  "path_strip_prefix path base =
     (if path_starts_with path base
      then Some (path_of (drop (length (path_components base)) (path_components path)))
      else None)"

definition resolve_model_path :: "(rstr \<Rightarrow> rstr) \<Rightarrow> rstr \<Rightarrow> rstr option \<Rightarrow> rstr \<Rightarrow> rstr" where
  "resolve_model_path tilde cwd display_cwd input =
     (let expanded = tilde (sanitize_model_path_arg input) in
      case (if path_is_absolute expanded then display_cwd else None) of
        Some display \<Rightarrow>
          (case path_strip_prefix expanded display of
             Some rest \<Rightarrow> path_push cwd rest
           | None \<Rightarrow> expanded)
      | None \<Rightarrow>
          (let effective_base = (case display_cwd of Some d \<Rightarrow> d | None \<Rightarrow> cwd);
               as_absolute = ''/'' @ expanded
           in if \<not> path_is_absolute expanded \<and> expanded \<noteq> '''' then
                (case path_strip_prefix as_absolute effective_base of
                   Some rest \<Rightarrow> path_push cwd rest
                 | None \<Rightarrow> path_push cwd expanded)
              else path_push cwd expanded))"

end
