(* ===== verification/PermissionActor.thy ===== *)
theory PermissionActor
  imports PermissionPrompt ClassifierPrompt ModelPath
begin

section \<open>The permission manager\<close>

text \<open>
  Models the actor of \<open>manager/mod.rs\<close> with \<open>request_classification.rs\<close> and \<open>reasons.rs\<close>: its configuration
  and state, the stages through which a request goes, the answers to a prompt, the other commands, and the
  handle with its shared flags.  A request is handled in one step; what happens around it, the requester
  going away included, is the record \<open>request_world\<close>.  Writes to the store are outputs.
\<close>

subsection \<open>Configuration and state\<close>

record 'pat manager_env =
  env_ext :: "'pat externals"
  env_lib :: prompt_lib
  env_json_parse :: "rstr \<Rightarrow> json option"
  env_json_text :: "json \<Rightarrow> rstr"
  env_tilde :: "rstr \<Rightarrow> rstr"
  env_system_prompt :: rstr

type_synonym classifier = "rstr \<Rightarrow> json access_kind \<Rightarrow> rstr option \<Rightarrow> classifier_context \<Rightarrow> classifier_outcome"

record 'pat manager_config =
  cfg_policy :: "'pat compiled_policy option"
  cfg_prompt_policy :: prompt_policy
  cfg_matcher :: domain_matcher
  cfg_default_allowlist :: bool
  cfg_pin :: "rstr option"
  cfg_cwd :: rstr
  cfg_prompter :: prompter

record manager_state =
  ms_grants :: permission_state
  ms_yolo :: bool
  ms_auto :: bool
  ms_classifier :: "classifier option"
  ms_consecutive :: nat
  ms_total :: nat
  ms_turns :: "classifier_turn list"
  ms_recorded :: "classifier_turn list"
  ms_instructions :: "rstr option"
  ms_session_edits :: bool

definition auto_deny_consecutive_limit :: nat where
  "auto_deny_consecutive_limit = 3"

definition auto_deny_total_limit :: nat where
  "auto_deny_total_limit = 20"

definition max_recorded_permission_decisions :: nat where
  "max_recorded_permission_decisions = 12"

definition auto_deny_guidance :: rstr where
  "auto_deny_guidance = ''Take a safer approach that stays within what the user asked for; do not retry this exact action or attempt to work around the denial. If no safer alternative exists, ask the user how to proceed.''"

definition default_llm_classifier :: llm_classifier where
  "default_llm_classifier = \<lparr>classify_channel = None, classify_text = None, clf_prompt_type = PromptFull\<rparr>"

definition default_auto_mode_classifier :: "'pat manager_env \<Rightarrow> classifier" where
  "default_auto_mode_classifier env =
     llm_classify (env_ext env) (env_json_parse env) (env_json_text env) (env_system_prompt env) default_llm_classifier"

text \<open>What is written to the store: the grants joined with those already there, or the state as it is.\<close>

datatype store_write = MergeStore permission_state | ReplaceStore permission_state

definition apply_write :: "permission_state option \<Rightarrow> store_write \<Rightarrow> permission_state" where
  "apply_write disk write =
     (case write of
        MergeStore s \<Rightarrow> (case disk of Some d \<Rightarrow> merge_grants_from s d | None \<Rightarrow> s)
      | ReplaceStore s \<Rightarrow> s)"

definition migrate_edit_policy :: "permission_state \<Rightarrow> permission_state \<times> store_write list" where
  "migrate_edit_policy loaded =
     (if edit_policy_of loaded = EditAllow
      then (let migrated = loaded\<lparr>edit_policy_of := EditAsk\<rparr> in (migrated, [MergeStore migrated]))
      else (loaded, []))"

definition spawn_config ::
  "'pat manager_env \<Rightarrow> permission_config option \<Rightarrow> rstr list \<Rightarrow> rstr list \<Rightarrow> rstr option \<Rightarrow> rstr \<Rightarrow> prompter
   \<Rightarrow> 'pat manager_config" where
  "spawn_config env config allowed_domains default_domains yolo_pin cwd p =
     \<lparr>cfg_policy = map_option (compile_policy (env_ext env)) config,
      cfg_prompt_policy = (case config of Some c \<Rightarrow> config_prompt_policy c | None \<Rightarrow> PromptAsk),
      cfg_matcher = new_matcher (env_ext env) allowed_domains,
      cfg_default_allowlist = (allowed_domains = default_domains),
      cfg_pin = yolo_pin, cfg_cwd = cwd, cfg_prompter = p\<rparr>"

definition spawn_state :: "'pat manager_env \<Rightarrow> 'pat manager_config \<Rightarrow> bool \<Rightarrow> permission_state \<Rightarrow> manager_state" where
  "spawn_state env cfg initial_yolo loaded =
     (let yolo = clamp_yolo initial_yolo (cfg_pin cfg) in
      \<lparr>ms_grants = fst (migrate_edit_policy loaded), ms_yolo = yolo,
       ms_auto = (\<not> yolo \<and> cfg_prompt_policy cfg = PromptAuto),
       ms_classifier = Some (default_auto_mode_classifier env), ms_consecutive = 0, ms_total = 0,
       ms_turns = [], ms_recorded = [], ms_instructions = None, ms_session_edits = False\<rparr>)"

subsection \<open>Requests and their surroundings\<close>

record permission_request =
  rq_access :: "json access_kind"
  rq_tool_call_id :: rstr
  rq_path_context :: "(rstr \<times> rstr option) option"
  rq_session :: "rstr option"
  rq_subagent_type :: "rstr option"
  rq_subagent_description :: "rstr option"

text \<open>
  What a request meets: when the requester goes away, if it does (0 before the request is taken from the
  queue, 1 during the scan of repositories, 2 during the classification, 3 before the prompt opens, 4 while it
  is open, 5 after its answer), a state of the store that changed, the file system, the home directory, git,
  whether the blocking scan came back, whether the sandbox is active, the client, and the clock.
\<close>

record request_world =
  w_closes :: "nat option"
  w_fresh :: "permission_state option"
  w_fs :: filesystem
  w_home :: "rstr option"
  w_git :: git_access
  w_scan_returns :: bool
  w_sandbox :: bool
  w_ask :: gateway
  w_timestamp :: nat
  w_latency_ms :: nat
  w_wait_ms :: nat
  w_in_flight :: nat

definition closed :: "request_world \<Rightarrow> nat \<Rightarrow> bool" where
  "closed w stage \<longleftrightarrow> (case w_closes w of None \<Rightarrow> False | Some n \<Rightarrow> n \<le> stage)"

definition access_kind_str :: "json access_kind \<Rightarrow> rstr" where
  "access_kind_str access = access_kind_word access"

definition access_detail_of :: "'pat manager_env \<Rightarrow> json access_kind \<Rightarrow> rstr option" where
  "access_detail_of env access =
     (case access of
        AccessRead _ \<Rightarrow> None
      | AccessGrep path _ \<Rightarrow> path
      | AccessEdit path \<Rightarrow> Some path
      | AccessBash cmd \<Rightarrow> Some cmd
      | AccessMCP name input \<Rightarrow> Some (mcp_access_detail (env_json_text env) name input)
      | AccessWebFetch url \<Rightarrow> Some url
      | AccessWebSearch query \<Rightarrow> Some query)"

definition request_cwd :: "'pat manager_config \<Rightarrow> permission_request \<Rightarrow> rstr" where
  "request_cwd cfg rq = (case rq_path_context rq of Some (real_cwd, _) \<Rightarrow> real_cwd | None \<Rightarrow> cfg_cwd cfg)"

subsection \<open>Classification\<close>

datatype request_classification =
    NotClassified
  | FastPath
  | Classified assessment "(classifier_verdict \<times> classifier_source_kind \<times> nat option) option"

definition classifier_source_of :: "request_classification \<Rightarrow> classifier_source_kind option" where
  "classifier_source_of c =
     (case c of NotClassified \<Rightarrow> None | FastPath \<Rightarrow> Some SourceFastPath
      | Classified _ outcome \<Rightarrow> map_option (\<lambda>(_, source, _). source) outcome)"

definition classifier_verdict_of :: "request_classification \<Rightarrow> classifier_verdict option" where
  "classifier_verdict_of c =
     (case c of Classified _ (Some (v, _, _)) \<Rightarrow> Some v | _ \<Rightarrow> None)"

definition classifier_latency_of :: "request_classification \<Rightarrow> nat option" where
  "classifier_latency_of c =
     (case c of Classified _ (Some (_, _, latency)) \<Rightarrow> latency | _ \<Rightarrow> None)"

definition security_findings_tokens :: "request_classification \<Rightarrow> rstr list option" where
  "security_findings_tokens c = (case c of Classified a _ \<Rightarrow> Some (finding_tokens a) | _ \<Rightarrow> None)"

subsection \<open>Events\<close>

record permission_event =
  ev_tool_id :: rstr
  ev_tool_name :: rstr
  ev_access_kind :: rstr
  ev_access_detail :: "rstr option"
  ev_yolo_mode :: bool
  ev_auto_approved :: bool
  ev_user_prompted :: bool
  ev_decision :: rstr
  ev_prompt_outcome :: "rstr option"
  ev_reject_reason :: "rstr option"
  ev_timestamp :: nat
  ev_subagent_session_id :: "rstr option"
  ev_subagent_type :: "rstr option"
  ev_subagent_description :: "rstr option"
  ev_permission_mode :: "rstr option"
  ev_decision_reason :: "rstr option"
  ev_classifier_source :: "rstr option"
  ev_classifier_latency_ms :: "nat option"
  ev_auto_denials_consecutive :: "nat option"
  ev_auto_denials_total :: "nat option"
  ev_wait_ms :: "nat option"
  ev_queue_depth :: "nat option"
  ev_security_findings :: "rstr list option"
  ev_classifier_verdict :: "rstr option"
  ev_remember_tool_approvals :: "bool option"

definition decision_str :: "decision \<Rightarrow> rstr \<times> rstr option" where
  "decision_str d =
     (case d of
        DAllow \<Rightarrow> (''allow'', None) | DAsk \<Rightarrow> (''ask'', None)
      | DReject reason \<Rightarrow> (''reject'', Some reason) | DPolicyDeny reason \<Rightarrow> (''reject'', Some reason)
      | DFollowup _ \<Rightarrow> (''followup'', None) | DCancelled \<Rightarrow> (''cancelled'', None))"

definition permission_mode_str :: "manager_state \<Rightarrow> rstr" where
  "permission_mode_str st = (if ms_yolo st then ''always-approve'' else if ms_auto st then ''auto'' else ''ask'')"

text \<open>The answer to a request: the decision, whether it was automatic, what the user chose, and why.\<close>

record answer =
  an_decision :: decision
  an_auto_approved :: bool
  an_user_prompted :: bool
  an_outcome :: "rstr option"
  an_reason :: rstr

definition silently :: "decision \<Rightarrow> bool \<Rightarrow> rstr \<Rightarrow> answer" where
  "silently d auto_approved reason =
     \<lparr>an_decision = d, an_auto_approved = auto_approved, an_user_prompted = False, an_outcome = None,
      an_reason = reason\<rparr>"

definition requester_gone :: answer where
  "requester_gone = silently DCancelled False ''requester_gone''"

definition make_event ::
  "'pat manager_env \<Rightarrow> 'pat manager_config \<Rightarrow> manager_state \<Rightarrow> request_world \<Rightarrow> permission_request
   \<Rightarrow> request_classification \<Rightarrow> nat \<times> nat \<Rightarrow> answer \<Rightarrow> permission_event" where
  "make_event env cfg st w rq c denials a =
     \<lparr>ev_tool_id = rq_tool_call_id rq, ev_tool_name = tool_name_for_access (rq_access rq),
      ev_access_kind = access_kind_str (rq_access rq), ev_access_detail = access_detail_of env (rq_access rq),
      ev_yolo_mode = ms_yolo st, ev_auto_approved = an_auto_approved a, ev_user_prompted = an_user_prompted a,
      ev_decision = fst (decision_str (an_decision a)), ev_prompt_outcome = an_outcome a,
      ev_reject_reason = snd (decision_str (an_decision a)), ev_timestamp = w_timestamp w,
      ev_subagent_session_id = rq_session rq, ev_subagent_type = rq_subagent_type rq,
      ev_subagent_description = rq_subagent_description rq, ev_permission_mode = Some (permission_mode_str st),
      ev_decision_reason = Some (an_reason a), ev_classifier_source = map_option source_wire (classifier_source_of c),
      ev_classifier_latency_ms = classifier_latency_of c,
      ev_auto_denials_consecutive = (if ms_auto st then Some (fst denials) else None),
      ev_auto_denials_total = (if ms_auto st then Some (snd denials) else None),
      ev_wait_ms = Some (w_wait_ms w), ev_queue_depth = Some (w_in_flight w),
      ev_security_findings = security_findings_tokens c,
      ev_classifier_verdict = map_option verdict_wire (classifier_verdict_of c),
      ev_remember_tool_approvals = Some (pr_remember (cfg_prompter cfg))\<rparr>"

subsection \<open>Before the modes\<close>

definition reload_grants :: "request_world \<Rightarrow> json access_kind \<Rightarrow> manager_state \<Rightarrow> manager_state" where
  "reload_grants w access st =
     (let stored = (case access of AccessBash _ \<Rightarrow> True | AccessMCP _ _ \<Rightarrow> True | AccessWebFetch _ \<Rightarrow> True | _ \<Rightarrow> False) in
      case (if stored then w_fresh w else None) of
        Some fresh \<Rightarrow> st\<lparr>ms_grants := merge_grants_from (ms_grants st) fresh\<rparr>
      | None \<Rightarrow> st)"

definition ambient_risk :: "request_world \<Rightarrow> rstr \<Rightarrow> rstr list list \<Rightarrow> bool" where
  "ambient_risk w session_cwd raw =
     (case ambient_scan_plan_from_segments raw session_cwd of
        ScanFailClosed \<Rightarrow> True
      | CheckDirs dirs \<Rightarrow> if w_scan_returns w then ambient_exec_risk_from_plan (w_git w) (CheckDirs dirs) else True)"

text \<open>The evaluation of a shell access, and whether repositories had to be scanned for it.\<close>

definition request_evaluation ::
  "'pat manager_env \<Rightarrow> request_world \<Rightarrow> rstr \<Rightarrow> permission_state \<Rightarrow> json access_kind
   \<Rightarrow> bash_evaluation option \<times> bool" where
  "request_evaluation env w session_cwd grants access =
     (case access of
        AccessBash cmd \<Rightarrow>
          (let e = evaluate_bash (env_ext env) cmd grants True in
           case ambient_segments e of
             None \<Rightarrow> (Some e, False)
           | Some raw \<Rightarrow>
               (let e = e\<lparr>ambient_segments := None\<rparr> in
                (Some (if ambient_risk w session_cwd raw
                       then e\<lparr>assessment_of := insert ExecOrAmbientGit (assessment_of e)\<rparr> else e), True)))
      | _ \<Rightarrow> (None, False))"

definition protected_edit_of ::
  "'pat manager_env \<Rightarrow> 'pat manager_config \<Rightarrow> request_world \<Rightarrow> permission_request \<Rightarrow> protected_edit_reason option" where
  "protected_edit_of env cfg w rq =
     (case rq_access rq of
        AccessEdit path \<Rightarrow>
          (let resolved = (case rq_path_context rq of
                             Some (real_cwd, display_cwd) \<Rightarrow> resolve_model_path (env_tilde env) real_cwd display_cwd path
                           | None \<Rightarrow> resolve_model_path (env_tilde env) (cfg_cwd cfg) None path)
           in edit_target_protection (w_fs w) (w_home w) resolved)
      | _ \<Rightarrow> None)"

text \<open>What is known of a request when the modes are consulted.\<close>

record request_facts =
  rf_access :: "json access_kind"
  rf_evaluation :: "bash_evaluation option"
  rf_protected :: "protected_edit_reason option"
  rf_preflight :: gate_preflight

definition request_facts_of ::
  "'pat manager_env \<Rightarrow> 'pat manager_config \<Rightarrow> request_world \<Rightarrow> permission_request \<Rightarrow> manager_state
   \<Rightarrow> request_facts" where
  "request_facts_of env cfg w rq st =
     \<lparr>rf_access = rq_access rq,
      rf_evaluation = fst (request_evaluation env w (request_cwd cfg rq) (ms_grants st) (rq_access rq)),
      rf_protected = protected_edit_of env cfg w rq,
      rf_preflight = evaluate_preflight (env_ext env) (w_fs w) (cfg_policy cfg) (rq_access rq)
        (request_cwd cfg rq) (ms_auto st)\<rparr>"

definition unforced :: "request_facts \<Rightarrow> bool" where
  "unforced f \<longleftrightarrow>
     \<not> policy_forced_prompt (rf_preflight f) \<and> \<not> shell_forced_prompt (rf_preflight f) \<and> rf_protected f = None"

text \<open>Always-approve, the grants of the session and, in auto mode, the allow rules.\<close>

definition mode_answer ::
  "'pat manager_env \<Rightarrow> 'pat manager_config \<Rightarrow> manager_state \<Rightarrow> request_facts \<Rightarrow> answer option" where
  "mode_answer env cfg st f =
     (if ms_yolo st \<and> \<not> shell_forced_prompt (rf_preflight f) then Some (silently DAllow True ''yolo'')
      else
        (case (if unforced f
               then session_grant_pre_decision (env_ext env) (lib_parse_url (env_lib env)) (rf_access f)
                      (rf_evaluation f) (ms_grants st) (ms_session_edits st) (cfg_matcher cfg)
                      (\<not> (ms_auto st \<and> cfg_default_allowlist cfg)) (cfg_pin cfg)
               else None) of
           Some (d, reason) \<Rightarrow> Some (silently d True reason)
         | None \<Rightarrow>
             if ms_auto st \<and> unforced f \<and> policy_decision (rf_preflight f) = Some DAllow
                \<and> (bash_assessment_is_clear (rf_evaluation f)
                   \<or> \<not> bash_request_floor_requires_prompt (rf_evaluation f)
                     \<and> (case cfg_policy cfg of
                          Some p \<Rightarrow> narrow_allow_authorizes (env_ext env) p (rf_access f) | None \<Rightarrow> False))
             then Some (silently DAllow True ''policy_allow'')
             else None))"

definition early_answer ::
  "'pat manager_env \<Rightarrow> 'pat manager_config \<Rightarrow> manager_state \<Rightarrow> request_facts \<Rightarrow> answer option" where
  "early_answer env cfg st f =
     (case policy_decision (rf_preflight f) of
        Some (DReject reason) \<Rightarrow> Some (silently (DPolicyDeny reason) False ''policy_deny'')
      | _ \<Rightarrow> mode_answer env cfg st f)"

subsection \<open>Auto mode\<close>

datatype auto_route =
    AutoAnswers answer
  | AutoGone
  | AutoForces rstr
  | AutoPasses

definition denial_reason :: "rstr option \<Rightarrow> rstr" where
  "denial_reason reason =
     (case reason of
        Some r \<Rightarrow> ''Auto mode blocked this action ('' @ trim_end_ascii {CHR ''.''} r @ ''). '' @ auto_deny_guidance
      | None \<Rightarrow> ''Auto mode blocked this action. '' @ auto_deny_guidance)"

definition classify_request ::
  "'pat manager_env \<Rightarrow> manager_state \<Rightarrow> request_facts \<Rightarrow> classifier_outcome option" where
  "classify_request env st f =
     map_option (\<lambda>clf. clf (tool_name_for_access (rf_access f)) (rf_access f) (access_detail_of env (rf_access f))
         \<lparr>ctx_turns = ms_turns st @ ms_recorded st, ctx_instructions = ms_instructions st,
          ctx_findings = classifier_assessment (rf_evaluation f) (defers_gate_ask (rf_preflight f))\<rparr>)
       (ms_classifier st)"

text \<open>The route after a classification, with the counters of denials.\<close>

definition verdict_route :: "classifier_outcome option \<Rightarrow> nat \<times> nat \<Rightarrow> auto_route \<times> nat \<times> nat" where
  "verdict_route outcome denials =
     (let v = (case outcome of Some r \<Rightarrow> outcome_verdict r | None \<Rightarrow> VUnavailable);
          timed_out = (case outcome of Some r \<Rightarrow> is_timeout r | None \<Rightarrow> False);
          (consecutive, total) = denials
      in case v of
           VAllow \<Rightarrow> (AutoAnswers (silently DAllow True ''auto_classifier_allow''), 0, total)
         | VBlock \<Rightarrow>
             if consecutive < auto_deny_consecutive_limit \<and> total < auto_deny_total_limit then
               (AutoAnswers (silently (DPolicyDeny (denial_reason (Option.bind outcome outcome_reason))) False
                  ''auto_classifier_deny''), consecutive + 1, total + 1)
             else (AutoForces ''auto_denial_limit'', denials)
         | VUnavailable \<Rightarrow>
             (AutoForces (if timed_out then ''auto_classifier_timeout'' else ''auto_classifier_unavailable''), denials))"

definition classification_of ::
  "request_world \<Rightarrow> assessment \<Rightarrow> classifier_outcome option \<Rightarrow> request_classification" where
  "classification_of w findings outcome =
     Classified findings
       (Some (case outcome of
                Some r \<Rightarrow> (outcome_verdict r, source_kind (outcome_provenance r), Some (w_latency_ms w))
              | None \<Rightarrow> (VUnavailable, SourceNotWired, None)))"

definition auto_stage ::
  "'pat manager_env \<Rightarrow> manager_state \<Rightarrow> request_world \<Rightarrow> request_facts
   \<Rightarrow> auto_route \<times> request_classification \<times> nat \<times> nat" where
  "auto_stage env st w f =
     (let denials = (ms_consecutive st, ms_total st); tool = tool_name_for_access (rf_access f) in
      if \<not> (ms_auto st \<and> admits_auto_classifier (rf_preflight f)) then (AutoPasses, NotClassified, denials)
      else
        (case auto_mode_fast_path (rf_access f) tool
                (rf_protected f \<noteq> None \<or> access_requires_user_interaction tool (rf_access f)) of
           FastAllow \<Rightarrow> (AutoAnswers (silently DAllow True ''auto_fast_path''), FastPath, denials)
         | FastPromptUser \<Rightarrow> (AutoForces ''needs_user'', NotClassified, denials)
         | FastClassify \<Rightarrow>
             (let findings = classifier_assessment (rf_evaluation f) (defers_gate_ask (rf_preflight f));
                  outcome = classify_request env st f
              in if outcome \<noteq> None \<and> closed w 2 then (AutoGone, Classified findings None, denials)
                 else
                   (let (route, counters) = verdict_route outcome denials
                    in (route, classification_of w findings outcome, counters)))))"

subsection \<open>After auto mode\<close>

text \<open>
  \<open>forced\<close> is the reason for which auto mode wants the user to be asked, if it does.
\<close>

definition policy_allows_late ::
  "'pat manager_env \<Rightarrow> 'pat manager_config \<Rightarrow> request_facts \<Rightarrow> rstr option \<Rightarrow> answer option" where
  "policy_allows_late env cfg f forced =
     (case policy_decision (rf_preflight f) of
        None \<Rightarrow> None
      | Some DAsk \<Rightarrow> None
      | Some d \<Rightarrow>
          if d = DAllow
             \<and> (rf_protected f \<noteq> None \<or> forced \<noteq> None
                \<or> bash_request_floor_requires_prompt (rf_evaluation f)
                  \<and> \<not> narrow_allow_clears_write_floor (env_ext env) (rf_evaluation f) (cfg_policy cfg) (rf_access f))
          then None
          else Some (silently d True ''policy_allow''))"

definition web_fetch_pre_decision ::
  "'pat manager_env \<Rightarrow> 'pat manager_config \<Rightarrow> permission_state \<Rightarrow> rstr \<Rightarrow> (decision \<times> rstr) option" where
  "web_fetch_pre_decision env cfg grants url =
     (case lib_parse_url (env_lib env) url of
        None \<Rightarrow> None
      | Some u \<Rightarrow>
          (case web_fetch_deny_pre_decision (env_ext env) u grants of
             Some reject \<Rightarrow> Some (reject, ''session_deny'')
           | None \<Rightarrow>
               if check_domain (env_ext env) (cfg_matcher cfg) u = None then Some (DAllow, ''static_allowlist'')
               else
                 Option.bind (url_host u) (\<lambda>host.
                   if normalize_domain (env_ext env) host \<in> set (allowed_web_fetch_domains grants)
                   then Some (DAllow, ''persisted_grant'') else None)))"

definition bash_pre_decision ::
  "'pat manager_config \<Rightarrow> permission_state \<Rightarrow> request_facts \<Rightarrow> bool \<Rightarrow> rstr \<Rightarrow> (decision \<times> rstr) option" where
  "bash_pre_decision cfg grants f forced cmd =
     (if bash_request_floor_requires_prompt (rf_evaluation f) then None
      else if policy_forced_prompt (rf_preflight f) then
        (if pr_remember (cfg_prompter cfg) \<and> \<not> forced \<and> \<not> shell_file_forced_prompt (rf_preflight f)
         then Option.bind (rf_evaluation f) (\<lambda>e. bash_grant_pre_decision cmd e grants (cfg_pin cfg) ask_floor_remember)
         else None)
      else
        Option.bind (rf_evaluation f) (\<lambda>e. bash_grant_pre_decision cmd e grants (cfg_pin cfg) (post_classify forced)))"

definition pre_decision ::
  "'pat manager_env \<Rightarrow> 'pat manager_config \<Rightarrow> manager_state \<Rightarrow> request_facts \<Rightarrow> bool \<Rightarrow> (decision \<times> rstr) option" where
  "pre_decision env cfg st f forced =
     (let asks = policy_forced_prompt (rf_preflight f) in
      case rf_access f of
        AccessRead _ \<Rightarrow> if asks then None else Some (DAllow, ''safe_command'')
      | AccessGrep _ _ \<Rightarrow> if asks then None else Some (DAllow, ''safe_command'')
      | AccessWebSearch _ \<Rightarrow> Some (DAllow, ''safe_command'')
      | AccessMCP name _ \<Rightarrow>
          map_option (\<lambda>d. (d, case d of DReject _ \<Rightarrow> ''session_deny'' | _ \<Rightarrow> ''persisted_grant''))
            (mcp_pre_decision name (ms_grants st) asks (pr_remember (cfg_prompter cfg)))
      | AccessEdit _ \<Rightarrow>
          if ms_session_edits st \<and> rf_protected f = None then Some (DAllow, ''persisted_grant'')
          else if edit_policy_of (ms_grants st) = EditReject then Some (DReject ''edits prohibited'', ''session_deny'')
          else None
      | AccessBash cmd \<Rightarrow> bash_pre_decision cfg (ms_grants st) f forced cmd
      | AccessWebFetch url \<Rightarrow> web_fetch_pre_decision env cfg (ms_grants st) url)"

text \<open>An allow that a prompt forced by auto mode takes back.\<close>

definition neutralized :: "request_facts \<Rightarrow> rstr option \<Rightarrow> (decision \<times> rstr) option \<Rightarrow> bool" where
  "neutralized f forced pre \<longleftrightarrow>
     (case pre of
        Some (DAllow, reason) \<Rightarrow>
          (let classifier_absent = forced \<in> {Some ''auto_classifier_timeout'', Some ''auto_classifier_unavailable''};
               web_fetch = (case rf_access f of AccessWebFetch _ \<Rightarrow> True | _ \<Rightarrow> False);
               static_fallback = (classifier_absent \<and> web_fetch \<and> reason \<in> {''static_allowlist'', ''persisted_grant''})
           in forced \<noteq> None \<and> auto_prompt_blocks_allow (rf_access f) \<and> \<not> static_fallback)
      | _ \<Rightarrow> False)"

definition settled_answer ::
  "'pat manager_env \<Rightarrow> 'pat manager_config \<Rightarrow> manager_state \<Rightarrow> request_facts \<Rightarrow> rstr option \<Rightarrow> answer option" where
  "settled_answer env cfg st f forced =
     (let pre = pre_decision env cfg st f (forced \<noteq> None) in
      case (if neutralized f forced pre then None else pre) of
        Some (d, reason) \<Rightarrow> Some (silently d True reason)
      | None \<Rightarrow>
          if cfg_prompt_policy cfg = PromptDeny then
            Some (silently (DPolicyDeny ''denied by prompt policy (tool not pre-approved)'') False ''prompt_deny'')
          else None)"

definition is_bash :: "json access_kind \<Rightarrow> bool" where
  "is_bash access = (case access of AccessBash _ \<Rightarrow> True | _ \<Rightarrow> False)"

definition late_answer ::
  "'pat manager_env \<Rightarrow> 'pat manager_config \<Rightarrow> manager_state \<Rightarrow> request_world \<Rightarrow> request_facts \<Rightarrow> rstr option
   \<Rightarrow> answer option" where
  "late_answer env cfg st w f forced =
     (if is_bash (rf_access f) \<and> sandbox_may_auto_allow_bash (rf_evaluation f) (w_sandbox w)
         \<and> \<not> policy_forced_prompt (rf_preflight f) \<and> forced = None
      then Some (silently DAllow True ''sandbox_auto'')
      else
        (case policy_allows_late env cfg f forced of
           Some a \<Rightarrow> Some a
         | None \<Rightarrow> settled_answer env cfg st f forced))"

definition prompt_trigger_of :: "request_facts \<Rightarrow> rstr option \<Rightarrow> rstr" where
  "prompt_trigger_of f forced =
     (case prompt_trigger (rf_preflight f) forced of
        Some t \<Rightarrow> t
      | None \<Rightarrow>
          (let opaque = (case rf_evaluation f of
                           Some e \<Rightarrow> \<not> exact_grant e \<and> OpaqueShell \<in> assessment_of e | None \<Rightarrow> False)
           in if opaque then ''opaque_shell''
              else if bash_request_floor_requires_prompt (rf_evaluation f) then ''bash_request_floor''
              else ''needs_user''))"


subsection \<open>The answer of the user\<close>

definition user_rejected :: rstr where
  "user_rejected = ''User rejected the execution''"

definition excluded :: "rstr \<Rightarrow> rstr" where
  "excluded what = ''User rejected the execution and excluded `'' @ what @ ''` from future runs in this project''"

definition prompt_failed :: "rstr \<Rightarrow> rstr" where
  "prompt_failed e = ''Failed to request permission from user: '' @ e"

text \<open>
  The decision, the kind that is reported, the grants after the answer, whether edits are allowed for the
  session, and whether the grants are written to the store.
\<close>

record prompted =
  pd_decision :: decision
  pd_kind :: prompt_outcome_kind
  pd_grants :: permission_state
  pd_edits :: bool
  pd_stores :: bool

definition unchanged :: "decision \<Rightarrow> prompt_outcome_kind \<Rightarrow> permission_state \<Rightarrow> prompted" where
  "unchanged d kind grants =
     \<lparr>pd_decision = d, pd_kind = kind, pd_grants = grants, pd_edits = False, pd_stores = False\<rparr>"

definition granted :: "decision \<Rightarrow> prompt_outcome_kind \<Rightarrow> permission_state \<Rightarrow> prompted" where
  "granted d kind grants =
     \<lparr>pd_decision = d, pd_kind = kind, pd_grants = grants, pd_edits = False, pd_stores = True\<rparr>"

definition bash_answer :: "'pat externals \<Rightarrow> rstr \<Rightarrow> prompt_outcome \<Rightarrow> permission_state \<Rightarrow> prompted" where
  "bash_answer x cmd outcome g =
     (let kind = kind_of outcome in
      case outcome of
        AllowOnce \<Rightarrow> unchanged DAllow kind g
      | AllowAlways \<Rightarrow>
          granted DAllow kind
            (g\<lparr>allowed_bash_commands :=
                 set_extend (List.insert cmd (allowed_bash_commands g)) (bash_grant_segments (ext_parse x) cmd)\<rparr>)
      | AllowAlwaysBashCommand label \<Rightarrow>
          granted DAllow kind (persist_bash_always_allow (ext_parse x) g cmd label)
      | AllowAlwaysBashGlob pat \<Rightarrow>
          if bash_glob_covers_script x cmd pat
          then granted DAllow kind (g\<lparr>allowed_bash_globs := List.insert pat (allowed_bash_globs g)\<rparr>)
          else unchanged DAllow kind g
      | AllowAlwaysDomain _ \<Rightarrow> unchanged DAllow KAllowOnce g
      | AllowAlwaysMcpTool _ \<Rightarrow> unchanged DAllow KAllowOnce g
      | AllowAlwaysMcpServer _ \<Rightarrow> unchanged DAllow KAllowOnce g
      | AllowEditsForSession \<Rightarrow> unchanged DAllow KAllowOnce g
      | RejectOnce \<Rightarrow> unchanged (DReject user_rejected) kind g
      | RejectAlwaysBashCommand label \<Rightarrow>
          granted (DReject (excluded label)) kind
            (g\<lparr>disallowed_bash_commands := List.insert label (disallowed_bash_commands g)\<rparr>)
      | RejectAlwaysMcpTool _ \<Rightarrow> unchanged (DReject user_rejected) KRejectOnce g
      | RejectAlwaysDomain _ \<Rightarrow> unchanged (DReject user_rejected) KRejectOnce g
      | Cancelled \<Rightarrow> unchanged DCancelled kind g
      | FollowupMessage msg \<Rightarrow> unchanged (DFollowup msg) kind g
      | PromptError e \<Rightarrow> unchanged (DReject (prompt_failed e)) kind g)"

definition insert_mcp_tool :: "rstr \<Rightarrow> permission_state \<Rightarrow> permission_state" where
  "insert_mcp_tool name g = g\<lparr>allowed_mcp_tools := List.insert name (allowed_mcp_tools g)\<rparr>"

definition domain_answer ::
  "'pat manager_env \<Rightarrow> json access_kind \<Rightarrow> prompt_outcome_kind \<Rightarrow> permission_state \<Rightarrow> prompted" where
  "domain_answer env access kind g =
     (case access of
        AccessWebFetch url \<Rightarrow>
          (case Option.bind (lib_parse_url (env_lib env) url) url_host of
             Some host \<Rightarrow>
               granted DAllow kind
                 (g\<lparr>allowed_web_fetch_domains :=
                      List.insert (normalize_domain (env_ext env) host) (allowed_web_fetch_domains g)\<rparr>)
           | None \<Rightarrow> unchanged DAllow kind g)
      | _ \<Rightarrow> unchanged DAllow kind g)"

definition mcp_server_answer ::
  "json access_kind \<Rightarrow> rstr \<Rightarrow> prompt_outcome_kind \<Rightarrow> permission_state \<Rightarrow> prompted" where
  "mcp_server_answer access server_prefix kind g =
     (case access of
        AccessMCP name _ \<Rightarrow>
          granted DAllow kind
            (case map_option (\<lambda>(_, server, _). server) (parse_mcp_qualified_name name) of
               Some canonical \<Rightarrow>
                 if canonical = server_prefix
                 then g\<lparr>allowed_mcp_servers := List.insert canonical (allowed_mcp_servers g)\<rparr>
                 else insert_mcp_tool name g
             | None \<Rightarrow> insert_mcp_tool name g)
      | _ \<Rightarrow> unchanged DAllow kind g)"

definition reject_domain_answer ::
  "'pat manager_env \<Rightarrow> json access_kind \<Rightarrow> prompt_outcome_kind \<Rightarrow> permission_state \<Rightarrow> prompted" where
  "reject_domain_answer env access kind g =
     (case (case access of
              AccessWebFetch url \<Rightarrow> web_fetch_deny_key_from_url (env_ext env) (lib_parse_url (env_lib env) url)
            | _ \<Rightarrow> None) of
        Some domain \<Rightarrow>
          granted (DReject (excluded domain)) kind
            (g\<lparr>disallowed_web_fetch_domains := List.insert domain (disallowed_web_fetch_domains g)\<rparr>)
      | None \<Rightarrow> unchanged (DReject user_rejected) KRejectOnce g)"

definition other_answer ::
  "'pat manager_env \<Rightarrow> json access_kind \<Rightarrow> prompt_outcome \<Rightarrow> permission_state \<Rightarrow> prompted" where
  "other_answer env access outcome g =
     (let kind = kind_of outcome in
      case outcome of
        AllowOnce \<Rightarrow> unchanged DAllow kind g
      | AllowEditsForSession \<Rightarrow> (unchanged DAllow kind g)\<lparr>pd_edits := True\<rparr>
      | AllowAlways \<Rightarrow>
          granted DAllow kind (case access of AccessMCP name _ \<Rightarrow> insert_mcp_tool name g | _ \<Rightarrow> g)
      | AllowAlwaysBashCommand _ \<Rightarrow> unchanged DAllow KAllowAlwaysBash g
      | AllowAlwaysBashGlob _ \<Rightarrow> unchanged DAllow KAllowAlwaysBash g
      | AllowAlwaysDomain _ \<Rightarrow> domain_answer env access kind g
      | AllowAlwaysMcpTool _ \<Rightarrow>
          (case access of
             AccessMCP name _ \<Rightarrow> granted DAllow kind (insert_mcp_tool name g)
           | _ \<Rightarrow> unchanged DAllow kind g)
      | AllowAlwaysMcpServer server_prefix \<Rightarrow> mcp_server_answer access server_prefix kind g
      | RejectAlwaysBashCommand _ \<Rightarrow> unchanged (DReject user_rejected) kind g
      | RejectAlwaysMcpTool _ \<Rightarrow>
          (case access of
             AccessMCP name _ \<Rightarrow>
               granted (DReject (excluded name)) kind
                 (g\<lparr>disallowed_mcp_tools := List.insert name (disallowed_mcp_tools g)\<rparr>)
           | _ \<Rightarrow> unchanged (DReject user_rejected) KRejectOnce g)
      | RejectAlwaysDomain _ \<Rightarrow> reject_domain_answer env access kind g
      | RejectOnce \<Rightarrow> unchanged (DReject user_rejected) kind g
      | Cancelled \<Rightarrow> unchanged DCancelled kind g
      | PromptError e \<Rightarrow> unchanged (DReject (prompt_failed e)) kind g
      | FollowupMessage msg \<Rightarrow> unchanged (DFollowup msg) kind g)"

definition answer_prompt ::
  "'pat manager_env \<Rightarrow> json access_kind \<Rightarrow> prompt_outcome \<Rightarrow> permission_state \<Rightarrow> prompted" where
  "answer_prompt env access outcome g =
     (case access of
        AccessBash cmd \<Rightarrow> bash_answer (env_ext env) cmd outcome g
      | _ \<Rightarrow> other_answer env access outcome g)"

definition prompted_decision_approved :: "decision \<Rightarrow> rstr \<Rightarrow> bool option" where
  "prompted_decision_approved d outcome_str =
     (case d of
        DAllow \<Rightarrow> Some True
      | DReject _ \<Rightarrow> if outcome_str \<noteq> ''error'' then Some False else None
      | _ \<Rightarrow> None)"

text \<open>The recorded decisions keep the most recent ones.\<close>

definition record_decision ::
  "'pat manager_env \<Rightarrow> json access_kind \<Rightarrow> bool option \<Rightarrow> classifier_turn list \<Rightarrow> classifier_turn list" where
  "record_decision env access approved recorded =
     (case approved of
        None \<Rightarrow> recorded
      | Some ok \<Rightarrow>
          (let all = recorded @ [PermissionDecisionTurn (tool_name_for_access access)
                       (permission_decision_args (env_json_text env) access (access_detail_of env access)) ok]
           in drop (length all - max_recorded_permission_decisions) all))"

subsection \<open>A request from beginning to end\<close>

record handled =
  hd_state :: manager_state
  hd_event :: permission_event
  hd_resolution :: "(decision \<times> permission_event) option"
  hd_writes :: "store_write list"
  hd_prompted :: bool

text \<open>The event of an answer, and the answer itself unless the requester is gone by then.\<close>

definition settle ::
  "'pat manager_env \<Rightarrow> 'pat manager_config \<Rightarrow> manager_state \<Rightarrow> request_world \<Rightarrow> permission_request
   \<Rightarrow> request_classification \<Rightarrow> nat \<times> nat \<Rightarrow> nat \<Rightarrow> answer \<Rightarrow> handled" where
  "settle env cfg st w rq c denials stage a =
     (let event = make_event env cfg st w rq c denials a in
      \<lparr>hd_state = st\<lparr>ms_consecutive := fst denials, ms_total := snd denials\<rparr>, hd_event = event,
       hd_resolution = (if closed w stage then None else Some (an_decision a, event)),
       hd_writes = [], hd_prompted = False\<rparr>)"

definition prompt_stage ::
  "'pat manager_env \<Rightarrow> 'pat manager_config \<Rightarrow> manager_state \<Rightarrow> request_world \<Rightarrow> permission_request
   \<Rightarrow> request_facts \<Rightarrow> rstr option \<Rightarrow> request_classification \<Rightarrow> handled" where
  "prompt_stage env cfg st w rq f forced c =
     (let access = rq_access rq; denials = (ms_consecutive st, ms_total st) in
      if closed w 3 then settle env cfg st w rq c denials 3 requester_gone
      else
        (let outcome = (if closed w 4 then Cancelled
                        else prompt_request (env_ext env) (env_lib env) (cfg_prompter cfg) (w_ask w) access
                               (rq_tool_call_id rq) (rf_protected f));
             pd = answer_prompt env access outcome (ms_grants st);
             outcome_str = wire_str (pd_kind pd);
             gone = (pd_decision pd = DCancelled \<and> closed w 5);
             a = \<lparr>an_decision = pd_decision pd, an_auto_approved = False, an_user_prompted = True,
                  an_outcome = Some outcome_str,
                  an_reason = (if gone then ''requester_gone'' else prompt_trigger_of f forced)\<rparr>;
             event = make_event env cfg st w rq c denials a;
             reset = (outcome_str \<noteq> ''error'' \<and> \<not> gone)
         in \<lparr>hd_state = st\<lparr>ms_grants := pd_grants pd,
               ms_session_edits := ms_session_edits st \<or> pd_edits pd,
               ms_recorded := record_decision env access (prompted_decision_approved (pd_decision pd) outcome_str)
                 (ms_recorded st),
               ms_consecutive := (if reset then 0 else ms_consecutive st),
               ms_total := (if reset then 0 else ms_total st)\<rparr>,
             hd_event = event,
             hd_resolution = (if closed w 5 then None else Some (pd_decision pd, event)),
             hd_writes = (if pd_stores pd then [MergeStore (pd_grants pd)] else []),
             hd_prompted = True\<rparr>))"

definition handle_request ::
  "'pat manager_env \<Rightarrow> 'pat manager_config \<Rightarrow> request_world \<Rightarrow> permission_request \<Rightarrow> manager_state \<Rightarrow> handled" where
  "handle_request env cfg w rq st =
     (let denials = (ms_consecutive st, ms_total st) in
      if closed w 0 then settle env cfg st w rq NotClassified denials 0 requester_gone
      else
        (let st = reload_grants w (rq_access rq) st in
         if snd (request_evaluation env w (request_cwd cfg rq) (ms_grants st) (rq_access rq)) \<and> closed w 1
         then settle env cfg st w rq NotClassified denials 1 requester_gone
         else
           (let f = request_facts_of env cfg w rq st in
            case early_answer env cfg st f of
              Some a \<Rightarrow> settle env cfg st w rq NotClassified denials 1 a
            | None \<Rightarrow>
                (let (route, c, denials) = auto_stage env st w f in
                 case route of
                   AutoAnswers a \<Rightarrow> settle env cfg st w rq c denials 2 a
                 | AutoGone \<Rightarrow> settle env cfg st w rq c denials 2 requester_gone
                 | _ \<Rightarrow>
                     (let forced = (case route of AutoForces r \<Rightarrow> Some r | _ \<Rightarrow> None) in
                      case late_answer env cfg st w f forced of
                        Some a \<Rightarrow> settle env cfg st w rq c denials 2 a
                      | None \<Rightarrow> prompt_stage env cfg st w rq f forced c)))))"

subsection \<open>The commands\<close>

datatype manager_command =
    Request request_world permission_request
  | SetYoloMode bool
  | SetAutoMode bool
  | SetClassifier "classifier option"
  | SetClassifierTranscript "classifier_turn list"
  | SetProjectInstructions "rstr option"
  | ResetState
  | Shutdown

definition set_yolo :: "'pat manager_config \<Rightarrow> bool \<Rightarrow> manager_state \<Rightarrow> manager_state" where
  "set_yolo cfg enabled st =
     (let clamped = clamp_yolo enabled (cfg_pin cfg) in
      st\<lparr>ms_yolo := clamped, ms_auto := ms_auto st \<and> \<not> clamped\<rparr>)"

definition set_auto :: "'pat manager_env \<Rightarrow> bool \<Rightarrow> manager_state \<Rightarrow> manager_state" where
  "set_auto env enabled st =
     (if enabled
      then st\<lparr>ms_auto := True, ms_yolo := False,
        ms_classifier := (case ms_classifier st of None \<Rightarrow> Some (default_auto_mode_classifier env) | c \<Rightarrow> c)\<rparr>
      else st\<lparr>ms_auto := False\<rparr>)"

text \<open>The state after a command, the request it settled, if it is one, and what it writes to the store.\<close>

fun manager_step ::
  "'pat manager_env \<Rightarrow> 'pat manager_config \<Rightarrow> manager_command \<Rightarrow> manager_state
   \<Rightarrow> manager_state \<times> handled option \<times> store_write list" where
  "manager_step env cfg (Request w rq) st =
     (let h = handle_request env cfg w rq st in (hd_state h, Some h, hd_writes h))"
| "manager_step env cfg (SetYoloMode enabled) st = (set_yolo cfg enabled st, None, [])"
| "manager_step env cfg (SetAutoMode enabled) st = (set_auto env enabled st, None, [])"
| "manager_step env cfg (SetClassifier c) st = (st\<lparr>ms_classifier := c\<rparr>, None, [])"
| "manager_step env cfg (SetClassifierTranscript turns) st = (st\<lparr>ms_turns := turns\<rparr>, None, [])"
| "manager_step env cfg (SetProjectInstructions i) st = (st\<lparr>ms_instructions := i\<rparr>, None, [])"
| "manager_step env cfg ResetState st =
     (st\<lparr>ms_grants := default_permission_state, ms_session_edits := False\<rparr>, None,
      [ReplaceStore default_permission_state])"
| "manager_step env cfg Shutdown st = (st, None, [])"

text \<open>The loop ends at a shutdown; the events come out in the order of the requests.\<close>

fun manager_run ::
  "'pat manager_env \<Rightarrow> 'pat manager_config \<Rightarrow> manager_command list \<Rightarrow> manager_state
   \<Rightarrow> manager_state \<times> permission_event list" where
  "manager_run env cfg [] st = (st, [])"
| "manager_run env cfg (Shutdown # cmds) st = (st, [])"
| "manager_run env cfg (cmd # cmds) st =
     (let (st', h, _) = manager_step env cfg cmd st; (st'', events) = manager_run env cfg cmds st'
      in (st'', (case h of Some h \<Rightarrow> [hd_event h] | None \<Rightarrow> []) @ events))"


subsection \<open>The handle\<close>

text \<open>
  Handles are shared; they set the flags that callers read at once and send the command, and the actor writes
  the flags again when it takes the command.  The system is the flags, the queue and the state.
\<close>

record manager_system =
  sy_yolo :: bool
  sy_auto :: bool
  sy_wired :: bool
  sy_queue :: "manager_command list"
  sy_state :: manager_state

definition send_command :: "manager_command \<Rightarrow> manager_system \<Rightarrow> manager_system" where
  "send_command cmd s = s\<lparr>sy_queue := sy_queue s @ [cmd]\<rparr>"

definition set_yolo_mode :: "'pat manager_config \<Rightarrow> bool \<Rightarrow> manager_system \<Rightarrow> manager_system" where
  "set_yolo_mode cfg enabled s =
     (let clamped = clamp_yolo enabled (cfg_pin cfg) in
      send_command (SetYoloMode enabled) (s\<lparr>sy_yolo := clamped, sy_auto := sy_auto s \<and> \<not> clamped\<rparr>))"

definition set_auto_mode :: "bool \<Rightarrow> manager_system \<Rightarrow> manager_system" where
  "set_auto_mode enabled s =
     send_command (SetAutoMode enabled) (s\<lparr>sy_auto := enabled, sy_yolo := sy_yolo s \<and> \<not> enabled\<rparr>)"

definition set_classifier :: "classifier option \<Rightarrow> manager_system \<Rightarrow> manager_system" where
  "set_classifier c s = send_command (SetClassifier c) (s\<lparr>sy_wired := False\<rparr>)"

definition set_classifier_with_side_query :: "classifier \<Rightarrow> bool \<Rightarrow> manager_system \<Rightarrow> manager_system" where
  "set_classifier_with_side_query c has_side_query s =
     send_command (SetClassifier (Some c)) (s\<lparr>sy_wired := has_side_query\<rparr>)"

definition set_llm_side_query_wired :: "bool \<Rightarrow> manager_system \<Rightarrow> manager_system" where
  "set_llm_side_query_wired wired s = s\<lparr>sy_wired := wired\<rparr>"

text \<open>The actor takes the next command.\<close>

definition store_flags :: "'pat manager_config \<Rightarrow> manager_command \<Rightarrow> manager_system \<Rightarrow> manager_system" where
  "store_flags cfg cmd s =
     (case cmd of
        SetYoloMode enabled \<Rightarrow>
          (let clamped = clamp_yolo enabled (cfg_pin cfg) in s\<lparr>sy_yolo := clamped, sy_auto := sy_auto s \<and> \<not> clamped\<rparr>)
      | SetAutoMode enabled \<Rightarrow> s\<lparr>sy_auto := enabled, sy_yolo := sy_yolo s \<and> \<not> enabled\<rparr>
      | _ \<Rightarrow> s)"

definition take_command :: "'pat manager_env \<Rightarrow> 'pat manager_config \<Rightarrow> manager_system \<Rightarrow> manager_system" where
  "take_command env cfg s =
     (case sy_queue s of
        [] \<Rightarrow> s
      | cmd # cmds \<Rightarrow>
          store_flags cfg cmd (s\<lparr>sy_queue := cmds, sy_state := fst (manager_step env cfg cmd (sy_state s))\<rparr>))"

definition spawn_system :: "manager_state \<Rightarrow> manager_system" where
  "spawn_system st =
     \<lparr>sy_yolo = ms_yolo st, sy_auto = ms_auto st, sy_wired = False, sy_queue = [], sy_state = st\<rparr>"

text \<open>
  What the requester of a handle is told: everything is allowed by a handle without an actor; a command that
  cannot be sent and an answer that does not come are rejections without an event.
\<close>

definition request_resolved ::
  "bool \<Rightarrow> bool \<Rightarrow> (decision \<times> permission_event) option \<Rightarrow> decision \<times> permission_event option" where
  "request_resolved allow_all sent reply =
     (if allow_all then (DAllow, None)
      else if \<not> sent then (DReject ''permission manager unavailable'', None)
      else
        (case reply of
           Some (d, event) \<Rightarrow> (d, Some event)
         | None \<Rightarrow> (DReject ''failed to receive permission decision'', None)))"


end
