(* ===== verification/PlanMode.thy ===== *)
theory PlanMode
  imports PermissionActor
begin

section \<open>Plan mode\<close>

text \<open>
  Models \<open>session/plan_mode.rs\<close> of \<open>hystersis-shell\<close> (the tracker) and what the session does with it: the mode
  switches of \<open>acp_session_impl/session_mode.rs\<close>, the reminders to the model, the edit gate and the approval of
  \<open>tool_calls.rs\<close>, the notifications of \<open>tools/notification_bridge.rs\<close>, the ends of a turn, and a restart.  The
  session handles one command at a time, and a handler is one step.  Arguments: what the template engine makes
  of a template, whether the plan file has content, what the client answers.  Not modelled: telemetry and the
  agent definition that a mode id can name.
\<close>

subsection \<open>The modes\<close>

datatype session_mode = SessionDefault | SessionPlan | SessionAsk

definition session_mode_from_id :: "rstr \<Rightarrow> session_mode" where
  "session_mode_from_id i =
     (if i = ''plan'' then SessionPlan else if i = ''ask'' then SessionAsk else SessionDefault)"

definition session_mode_id :: "session_mode \<Rightarrow> rstr" where
  "session_mode_id m = (case m of SessionDefault \<Rightarrow> ''default'' | SessionPlan \<Rightarrow> ''plan'' | SessionAsk \<Rightarrow> ''ask'')"

datatype prompt_mode = AgentPrompt | AskPrompt | PlanPrompt

definition prompt_mode_from_meta_str :: "rstr \<Rightarrow> prompt_mode" where
  "prompt_mode_from_meta_str s = (if s = ''ask'' then AskPrompt else if s = ''plan'' then PlanPrompt else AgentPrompt)"

definition prompt_mode_is_read_only :: "prompt_mode \<Rightarrow> bool" where
  "prompt_mode_is_read_only m \<longleftrightarrow> m = AskPrompt \<or> m = PlanPrompt"

definition prompt_mode_from_session_mode_id :: "rstr \<Rightarrow> prompt_mode" where
  "prompt_mode_from_session_mode_id i =
     (case session_mode_from_id i of
        SessionPlan \<Rightarrow> PlanPrompt | SessionAsk \<Rightarrow> AskPrompt | SessionDefault \<Rightarrow> AgentPrompt)"

definition session_mode_id_from_prompt_mode :: "prompt_mode \<Rightarrow> rstr" where
  "session_mode_id_from_prompt_mode m =
     session_mode_id (case m of PlanPrompt \<Rightarrow> SessionPlan | AskPrompt \<Rightarrow> SessionAsk | AgentPrompt \<Rightarrow> SessionDefault)"

text \<open>Where a prompt comes from; everything but the user's own prompts is synthetic.\<close>

datatype prompt_origin =
    OriginUser
  | TaskCompleted rstr
  | SubagentCompleted rstr
  | WorkflowCompleted rstr
  | NotificationDrain
  | GoalSummary
  | GoalClassifierNudge
  | SchedulerFired
  | PlanResume

definition prompt_origin_of_id :: "rstr \<Rightarrow> prompt_origin" where
  "prompt_origin_of_id i =
     (if starts_with i ''task-completed-'' then TaskCompleted (drop (length ''task-completed-'') i)
      else if starts_with i ''subagent-completed-'' then SubagentCompleted (drop (length ''subagent-completed-'') i)
      else if starts_with i ''workflow-completed-'' then WorkflowCompleted (drop (length ''workflow-completed-'') i)
      else if starts_with i ''notifications-'' then NotificationDrain
      else if starts_with i ''goal-summary-'' then GoalSummary
      else if starts_with i ''goal-classifier-nudge-'' then GoalClassifierNudge
      else if starts_with i ''scheduler-fired-'' then SchedulerFired
      else if starts_with i ''plan-resume-'' then PlanResume
      else OriginUser)"

definition is_synthetic :: "prompt_origin \<Rightarrow> bool" where
  "is_synthetic origin \<longleftrightarrow> origin \<noteq> OriginUser"


subsection \<open>The tracker\<close>

datatype plan_mode_state = PlanInactive | PlanPending | PlanActive | PlanExitPending

text \<open>A buffered activation reminder: its text, and what to restore when it is withdrawn.\<close>

record pending_activation =
  pa_text :: rstr
  pa_prior_active :: bool

record plan_tracker =
  pt_state :: plan_mode_state
  pt_was_active :: bool
  pt_reminders :: u32
  pt_exit_due :: bool
  pt_awaiting :: bool
  pt_pending :: "pending_activation option"
  pt_file :: rstr

record plan_snapshot =
  sn_state :: plan_mode_state
  sn_was_active :: bool
  sn_reminders :: u32
  sn_exit_due :: bool
  sn_awaiting :: bool

definition new_plan_tracker :: "rstr \<Rightarrow> plan_tracker" where
  "new_plan_tracker dir =
     \<lparr>pt_state = PlanInactive, pt_was_active = False, pt_reminders = 0, pt_exit_due = False,
      pt_awaiting = False, pt_pending = None, pt_file = path_push dir ''plan.md''\<rparr>"

definition tracker_from_snapshot :: "rstr \<Rightarrow> plan_snapshot \<Rightarrow> plan_tracker" where
  "tracker_from_snapshot dir sn =
     (let sn' = (case sn_state sn of
                   PlanPending \<Rightarrow> sn\<lparr>sn_state := PlanInactive\<rparr>
                 | PlanExitPending \<Rightarrow> sn\<lparr>sn_state := PlanInactive, sn_exit_due := True\<rparr>
                 | _ \<Rightarrow> sn)
      in \<lparr>pt_state = sn_state sn', pt_was_active = sn_was_active sn', pt_reminders = sn_reminders sn',
          pt_exit_due = sn_exit_due sn', pt_awaiting = sn_awaiting sn', pt_pending = None,
          pt_file = path_push dir ''plan.md''\<rparr>)"

definition snapshot_of :: "plan_tracker \<Rightarrow> plan_snapshot" where
  "snapshot_of tr =
     \<lparr>sn_state = pt_state tr, sn_was_active = pt_was_active tr, sn_reminders = pt_reminders tr,
      sn_exit_due = pt_exit_due tr, sn_awaiting = pt_awaiting tr\<rparr>"

definition plan_is_active :: "plan_tracker \<Rightarrow> bool" where
  "plan_is_active tr \<longleftrightarrow> pt_state tr = PlanActive"

definition session_prompt_mode :: "plan_tracker \<Rightarrow> prompt_mode" where
  "session_prompt_mode tr = (if plan_is_active tr then PlanPrompt else AgentPrompt)"

text \<open>Paths are equal when their components are.\<close>

definition is_plan_file_write :: "rstr \<Rightarrow> rstr \<Rightarrow> bool" where
  "is_plan_file_write target plan_file \<longleftrightarrow> path_components target = path_components plan_file"

definition should_auto_approve_edit :: "plan_tracker \<Rightarrow> rstr \<Rightarrow> bool" where
  "should_auto_approve_edit tr path \<longleftrightarrow> plan_is_active tr \<and> is_plan_file_write path (pt_file tr)"

definition should_use_full_reminder :: "plan_tracker \<Rightarrow> bool" where
  "should_use_full_reminder tr \<longleftrightarrow> even (unat (pt_reminders tr))"

definition is_reentry :: "plan_tracker \<Rightarrow> bool" where
  "is_reentry tr \<longleftrightarrow> pt_was_active tr \<and> pt_state tr = PlanPending"

text \<open>The operations that can fail to apply say whether they changed the state.\<close>

definition enter_pending :: "plan_tracker \<Rightarrow> bool \<times> plan_tracker" where
  "enter_pending tr =
     (case pt_state tr of
        PlanInactive \<Rightarrow> (True, tr\<lparr>pt_state := PlanPending, pt_exit_due := False\<rparr>)
      | PlanExitPending \<Rightarrow> (True, tr\<lparr>pt_state := PlanActive, pt_exit_due := False\<rparr>)
      | _ \<Rightarrow> (False, tr))"

definition plan_activate :: "plan_tracker \<Rightarrow> bool \<times> plan_tracker" where
  "plan_activate tr =
     (if pt_state tr \<noteq> PlanPending then (False, tr)
      else (True, tr\<lparr>pt_state := PlanActive, pt_was_active := True, pt_reminders := 0\<rparr>))"

definition activate_mid_turn :: "rstr \<Rightarrow> plan_tracker \<Rightarrow> bool \<times> plan_tracker" where
  "activate_mid_turn rendered tr =
     (if pt_state tr \<noteq> PlanPending then (False, tr)
      else (True, tr\<lparr>pt_state := PlanActive, pt_was_active := True, pt_reminders := 0,
        pt_pending := Some \<lparr>pa_text = rendered, pa_prior_active = pt_was_active tr\<rparr>\<rparr>))"

definition take_pending_activation :: "plan_tracker \<Rightarrow> rstr option \<times> plan_tracker" where
  "take_pending_activation tr = (map_option pa_text (pt_pending tr), tr\<lparr>pt_pending := None\<rparr>)"

definition activate_from_tool :: "plan_tracker \<Rightarrow> bool \<times> plan_tracker" where
  "activate_from_tool tr =
     (if pt_state tr \<noteq> PlanInactive then (False, tr)
      else (True, tr\<lparr>pt_state := PlanActive, pt_was_active := True, pt_reminders := 0, pt_exit_due := False\<rparr>))"

definition deactivate_approved :: "plan_tracker \<Rightarrow> bool \<times> plan_tracker" where
  "deactivate_approved tr =
     (if pt_state tr \<noteq> PlanActive then (False, tr)
      else (True, tr\<lparr>pt_state := PlanInactive, pt_reminders := 0, pt_awaiting := False, pt_pending := None\<rparr>))"

definition user_exit :: "bool \<Rightarrow> plan_tracker \<Rightarrow> plan_tracker" where
  "user_exit turn_in_flight tr =
     (let pending = pt_pending tr; tr = tr\<lparr>pt_awaiting := False, pt_pending := None\<rparr> in
      case (pending, pt_state tr) of
        (Some p, PlanActive) \<Rightarrow> tr\<lparr>pt_state := PlanInactive, pt_was_active := pa_prior_active p\<rparr>
      | (_, PlanPending) \<Rightarrow> tr\<lparr>pt_state := PlanInactive\<rparr>
      | (_, PlanActive) \<Rightarrow>
          (if turn_in_flight then tr\<lparr>pt_state := PlanExitPending\<rparr>
           else tr\<lparr>pt_state := PlanInactive, pt_exit_due := True\<rparr>)
      | _ \<Rightarrow> tr)"

definition complete_deferred_exit :: "plan_tracker \<Rightarrow> plan_tracker" where
  "complete_deferred_exit tr =
     (if pt_state tr \<noteq> PlanExitPending then tr else tr\<lparr>pt_state := PlanInactive, pt_exit_due := True\<rparr>)"

definition queue_exit_reminder :: "plan_tracker \<Rightarrow> plan_tracker" where
  "queue_exit_reminder tr = tr\<lparr>pt_exit_due := True\<rparr>"

definition record_reminder_injected :: "plan_tracker \<Rightarrow> plan_tracker" where
  "record_reminder_injected tr = tr\<lparr>pt_reminders := pt_reminders tr + 1\<rparr>"

definition clear_pending_exit_reminder :: "plan_tracker \<Rightarrow> plan_tracker" where
  "clear_pending_exit_reminder tr = tr\<lparr>pt_exit_due := False\<rparr>"

definition set_awaiting_plan_approval :: "bool \<Rightarrow> plan_tracker \<Rightarrow> plan_tracker" where
  "set_awaiting_plan_approval awaiting tr = tr\<lparr>pt_awaiting := awaiting\<rparr>"

definition reset_after_compaction :: "plan_tracker \<Rightarrow> plan_tracker" where
  "reset_after_compaction tr =
     (if pt_state tr = PlanActive then tr\<lparr>pt_reminders := 0, pt_pending := None\<rparr> else tr)"


subsection \<open>The reminders\<close>

datatype plan_template = FullReminder | SparseReminder | ReentryReminder | ExitReminder

fun template_text :: "plan_template \<Rightarrow> rstr" where
  "template_text FullReminder =
     ''Plan mode is active. Do not make any edits or writes to the system.'' @ nl @ nl @
     ''## Plan File:'' @ nl @
     ''${%- if plan_has_content %}'' @ nl @
     ''A plan file exists at ${{ plan_path }}. '' @
     ''You can read it and make edits using the ${{ tools.by_kind.edit }} tool.'' @ nl @
     ''${%- else %}'' @ nl @
     ''No plan written yet. Write your plan to ${{ plan_path }} '' @
     ''using the ${{ tools.by_kind.edit }} tool.'' @ nl @
     ''${%- endif %}'' @ nl @ nl @
     ''You should build your plan by writing to or editing this file. '' @
     ''Note that this is the only file you are allowed to edit.'' @ nl @ nl @
     ''Your turn should only end with either ${{ tools.by_kind.ask_user }} to clarify '' @
     ''requirements or ${{ tools.by_kind.exit_plan }} to present your plan to the user.''"
| "template_text SparseReminder =
     ''Plan mode is still active. Do not make any edits or writes to the system except for the plan file.''"
| "template_text ReentryReminder =
     ''## Returning to Plan Mode'' @ nl @ nl @
     ''You are entering plan mode again after having previously exited it. '' @
     ''A plan file exists at ${{ plan_path }} from your previous planning session.'' @ nl @ nl @
     ''Your turn should only end with either ${{ tools.by_kind.ask_user }} to clarify requirements or '' @
     ''${{ tools.by_kind.exit_plan }} to present your plan to the user.''"
| "template_text ExitReminder =
     ''You have exited plan mode. You can now make edits, run tools, and take actions.''"

definition edit_rejected_template :: rstr where
  "edit_rejected_template =
     ''Rejected: file edits are not allowed in plan mode - the only editable file is the plan file (${{ plan_path }}).''"

definition plan_activation_template :: "bool \<Rightarrow> plan_template" where
  "plan_activation_template reentry = (if reentry then ReentryReminder else FullReminder)"

definition reminder_tag :: rstr where
  "reminder_tag = ''system-reminder''"

definition tag_wrapped :: "rstr \<Rightarrow> rstr \<Rightarrow> rstr" where
  "tag_wrapped tag text = ''<'' @ tag @ ''>'' @ nl @ text @ nl @ ''</'' @ tag @ ''>''"

definition closing_tag_escaped :: "rstr \<Rightarrow> rstr \<Rightarrow> rstr" where
  "closing_tag_escaped tag text =
     str_replace (''</'' @ tag @ ''>'') (''<'' @ [backslash] @ ''/'' @ tag @ ''>'') text"

text \<open>
  What reaches the model about plan mode: the reminders pushed at the start of a turn, a buffered activation,
  the results of the tools that enter and leave, and the messages that follow an approval.
\<close>

datatype plan_message =
    PlanReminder plan_template rstr
  | PlanActivation rstr
  | ToolEntered
  | ToolExited
  | PlanAbandoned rstr
  | PlanRevision rstr
  | PlanImplement rstr


text \<open>Whether the model was last told that it is planning; a request to revise the plan does not change that.\<close>

fun tells :: "plan_message \<Rightarrow> bool option" where
  "tells (PlanReminder t _) = Some (t \<noteq> ExitReminder)"
| "tells (PlanActivation _) = Some True"
| "tells ToolEntered = Some True"
| "tells ToolExited = Some False"
| "tells (PlanAbandoned _) = Some False"
| "tells (PlanRevision _) = None"
| "tells (PlanImplement _) = Some False"

definition told_planning :: "plan_message list \<Rightarrow> bool" where
  "told_planning = foldl (\<lambda>b m. case tells m of None \<Rightarrow> b | Some b' \<Rightarrow> b') False"


subsection \<open>The session\<close>

text \<open>
  A turn is starting from its promotion until its reminders are pushed; the tools run after that.  A parked
  approval was asked for by a tool call (its name, and whether there is a plan) or by a resumed session.
\<close>

datatype turn_phase = TurnIdle | TurnStarting | TurnRunning

datatype approval_source = ApprovalOfTool rstr bool | ApprovalOfResume

record plan_session =
  se_tracker :: plan_tracker
  se_current_mode :: prompt_mode
  se_turn_start_mode :: prompt_mode
  se_turn_mode :: prompt_mode
  se_phase :: turn_phase
  se_log :: "plan_message list"
  se_updates :: "rstr list"
  se_saved :: "plan_snapshot option"
  se_queue_exit :: bool
  se_asking :: "approval_source option"

text \<open>The template engine: the template, the path of the plan file, whether the file has content.\<close>

type_synonym plan_renderer = "rstr \<Rightarrow> rstr \<Rightarrow> bool \<Rightarrow> rstr option"

text \<open>What every handler is made of.\<close>

definition track :: "(plan_tracker \<Rightarrow> plan_tracker) \<Rightarrow> plan_session \<Rightarrow> plan_session" where
  "track f s = s\<lparr>se_tracker := f (se_tracker s)\<rparr>"

definition persist_plan_mode_state :: "plan_session \<Rightarrow> plan_session" where
  "persist_plan_mode_state s = s\<lparr>se_saved := Some (snapshot_of (se_tracker s))\<rparr>"

definition send_mode_update :: "rstr \<Rightarrow> plan_session \<Rightarrow> plan_session" where
  "send_mode_update mode_id s = s\<lparr>se_updates := se_updates s @ [mode_id]\<rparr>"

definition push_message :: "plan_message \<Rightarrow> plan_session \<Rightarrow> plan_session" where
  "push_message m s = s\<lparr>se_log := se_log s @ [m]\<rparr>"

definition turn_in_flight :: "plan_session \<Rightarrow> bool" where
  "turn_in_flight s \<longleftrightarrow> se_phase s \<noteq> TurnIdle"

definition spawn_plan_session :: "rstr \<Rightarrow> plan_snapshot option \<Rightarrow> plan_session" where
  "spawn_plan_session dir persisted =
     (let tr = (case persisted of Some sn \<Rightarrow> tracker_from_snapshot dir sn | None \<Rightarrow> new_plan_tracker dir);
          restored = session_prompt_mode tr
      in \<lparr>se_tracker = tr, se_current_mode = restored, se_turn_start_mode = restored, se_turn_mode = restored,
          se_phase = TurnIdle, se_log = [], se_updates = [], se_saved = persisted, se_queue_exit = False,
          se_asking = None\<rparr>)"

definition render_plan_template :: "plan_renderer \<Rightarrow> plan_template \<Rightarrow> plan_tracker \<Rightarrow> bool \<Rightarrow> rstr option" where
  "render_plan_template render t tr has_content = render (template_text t) (pt_file tr) has_content"

definition push_reminder :: "plan_template \<Rightarrow> rstr \<Rightarrow> plan_session \<Rightarrow> plan_session" where
  "push_reminder t content s =
     push_message (PlanReminder t (tag_wrapped reminder_tag (closing_tag_escaped reminder_tag content))) s"

subsection \<open>Switching the mode\<close>

definition activate_plan_mode_mid_turn :: "plan_renderer \<Rightarrow> bool \<Rightarrow> plan_session \<Rightarrow> plan_session" where
  "activate_plan_mode_mid_turn render has_content s =
     (let tr = se_tracker s in
      if pt_state tr \<noteq> PlanPending then s
      else
        (let t = plan_activation_template (is_reentry tr);
             (activated, tr') =
               (case render_plan_template render t tr has_content of
                  Some rendered \<Rightarrow> activate_mid_turn (tag_wrapped reminder_tag rendered) tr
                | None \<Rightarrow> plan_activate tr)
         in if \<not> activated then s else persist_plan_mode_state (s\<lparr>se_tracker := tr'\<rparr>)))"

definition handle_session_mode :: "plan_renderer \<Rightarrow> rstr \<Rightarrow> bool \<Rightarrow> plan_session \<Rightarrow> plan_session" where
  "handle_session_mode render mode_id has_content s =
     (let s = s\<lparr>se_current_mode := prompt_mode_from_session_mode_id mode_id\<rparr> in
      if session_mode_from_id mode_id = SessionPlan then
        (let (entered, tr) = enter_pending (se_tracker s);
             s = (if entered
                  then send_mode_update (session_mode_id SessionPlan) (persist_plan_mode_state (s\<lparr>se_tracker := tr\<rparr>))
                  else s)
         in if entered \<and> turn_in_flight s then activate_plan_mode_mid_turn render has_content s else s)
      else if pt_state (se_tracker s) \<noteq> PlanInactive
      then send_mode_update mode_id (persist_plan_mode_state (track (user_exit (turn_in_flight s)) s))
      else s)"

text \<open>The mode that a prompt declares; only a prompt of the user declares one.\<close>

definition reconcile_plan_mode_with_prompt :: "prompt_mode \<Rightarrow> plan_session \<Rightarrow> plan_session" where
  "reconcile_plan_mode_with_prompt mode s =
     (let s = s\<lparr>se_current_mode := mode\<rparr> in
      if mode = PlanPrompt then
        (let (entered, tr) = enter_pending (se_tracker s) in
         if entered
         then send_mode_update (session_mode_id_from_prompt_mode mode) (persist_plan_mode_state (s\<lparr>se_tracker := tr\<rparr>))
         else s)
      else if pt_state (se_tracker s) \<noteq> PlanInactive
      then send_mode_update (session_mode_id_from_prompt_mode mode)
             (persist_plan_mode_state (track (user_exit False) s))
      else s)"

definition resolve_turn_prompt_mode :: "prompt_origin \<Rightarrow> prompt_mode \<Rightarrow> plan_session \<Rightarrow> prompt_mode \<times> plan_session" where
  "resolve_turn_prompt_mode origin declared s =
     (let s = (if is_synthetic origin then s else reconcile_plan_mode_with_prompt declared s)
      in (se_current_mode s, s))"

definition start_turn :: "prompt_origin \<Rightarrow> prompt_mode \<Rightarrow> plan_session \<Rightarrow> plan_session" where
  "start_turn origin declared s =
     (let (mode, s) = resolve_turn_prompt_mode origin declared s
      in s\<lparr>se_turn_start_mode := mode, se_turn_mode := mode, se_phase := TurnStarting\<rparr>)"

subsection \<open>Telling the model\<close>

text \<open>The first reminder of a mode that was switched on; the flag says whether it was pushed.\<close>

definition inject_activation :: "plan_renderer \<Rightarrow> bool \<Rightarrow> plan_session \<Rightarrow> plan_session \<times> bool" where
  "inject_activation render has_content s =
     (let tr = se_tracker s in
      if pt_state tr \<noteq> PlanPending then (s, False)
      else
        (let t = plan_activation_template (is_reentry tr);
             s = persist_plan_mode_state (track (snd \<circ> plan_activate) s)
         in case render_plan_template render t tr has_content of
              Some rendered \<Rightarrow>
                (persist_plan_mode_state (track record_reminder_injected (push_reminder t rendered s)), True)
            | None \<Rightarrow> (s, False)))"

definition inject_per_turn :: "plan_renderer \<Rightarrow> bool \<Rightarrow> plan_session \<Rightarrow> plan_session" where
  "inject_per_turn render has_content s =
     (let tr = se_tracker s in
      if \<not> plan_is_active tr then s
      else
        (let t = (if should_use_full_reminder tr then FullReminder else SparseReminder) in
         case render_plan_template render t tr has_content of
           Some rendered \<Rightarrow>
             persist_plan_mode_state (track record_reminder_injected (push_reminder t rendered s))
         | None \<Rightarrow> s))"

definition inject_exit :: "plan_renderer \<Rightarrow> plan_session \<Rightarrow> plan_session" where
  "inject_exit render s =
     (let tr = se_tracker s in
      if \<not> pt_exit_due tr then s
      else persist_plan_mode_state (track clear_pending_exit_reminder
             (case render_plan_template render ExitReminder tr False of
                Some rendered \<Rightarrow> push_reminder ExitReminder rendered s
              | None \<Rightarrow> s)))"

definition inject_plan_mode_reminders :: "plan_renderer \<Rightarrow> bool \<Rightarrow> plan_session \<Rightarrow> plan_session" where
  "inject_plan_mode_reminders render has_content s =
     (let (s, injected) = inject_activation render has_content s;
          s = (if injected then s else inject_per_turn render has_content s)
      in inject_exit render s)"

text \<open>A buffered activation is delivered at the next safe point of the turn, and when the session becomes idle.\<close>

definition flush_plan_activation :: "plan_session \<Rightarrow> plan_session" where
  "flush_plan_activation s =
     (let (activation, tr) = take_pending_activation (se_tracker s); s = s\<lparr>se_tracker := tr\<rparr> in
      case activation of
        Some text \<Rightarrow>
          persist_plan_mode_state (track record_reminder_injected (push_message (PlanActivation text) s))
      | None \<Rightarrow> s)"

subsection \<open>The ends of a turn, compaction, a restart\<close>

definition end_turn :: "plan_session \<Rightarrow> plan_session" where
  "end_turn s =
     (let s = (flush_plan_activation s)\<lparr>se_phase := TurnIdle\<rparr>;
          transitioned = (pt_state (se_tracker s) = PlanExitPending);
          s = track complete_deferred_exit s
      in if transitioned then persist_plan_mode_state s else s)"

definition compact_plan_mode :: "plan_session \<Rightarrow> plan_session" where
  "compact_plan_mode s = persist_plan_mode_state (track reset_after_compaction s)"

text \<open>A restart keeps the conversation and what was saved.\<close>

definition restart_session :: "rstr \<Rightarrow> plan_session \<Rightarrow> plan_session" where
  "restart_session dir s = (spawn_plan_session dir (se_saved s))\<lparr>se_log := se_log s\<rparr>"

subsection \<open>Entering and leaving by a tool\<close>

definition plan_mode_entered :: "plan_session \<Rightarrow> plan_session" where
  "plan_mode_entered s =
     (let (activated, tr) = activate_from_tool (se_tracker s) in
      if activated
      then send_mode_update (session_mode_id SessionPlan) (persist_plan_mode_state
             (s\<lparr>se_tracker := tr, se_current_mode := PlanPrompt, se_turn_mode := PlanPrompt\<rparr>))
      else s)"

definition plan_mode_exited :: "plan_session \<Rightarrow> plan_session" where
  "plan_mode_exited s =
     (let (deactivated, tr) = deactivate_approved (se_tracker s);
          tr = (if deactivated \<and> se_queue_exit s then queue_exit_reminder tr else tr)
      in if deactivated
         then send_mode_update (session_mode_id SessionDefault) (persist_plan_mode_state
                (s\<lparr>se_tracker := tr, se_current_mode := AgentPrompt, se_turn_mode := AgentPrompt\<rparr>))
         else s)"

definition leave_plan_mode_to_default :: "plan_session \<Rightarrow> plan_session" where
  "leave_plan_mode_to_default s =
     (let (deactivated, tr) = deactivate_approved (se_tracker s) in
      if deactivated
      then send_mode_update (session_mode_id SessionDefault) (persist_plan_mode_state
             (s\<lparr>se_tracker := tr, se_current_mode := AgentPrompt, se_turn_mode := AgentPrompt\<rparr>))
      else s)"

text \<open>The tools themselves: the notification is sent before the result that the model reads.\<close>

definition run_enter_tool :: "plan_session \<Rightarrow> plan_session" where
  "run_enter_tool s = push_message ToolEntered (plan_mode_entered s)"

definition run_exit_tool :: "plan_session \<Rightarrow> plan_session" where
  "run_exit_tool s = push_message ToolExited (plan_mode_exited s)"

subsection \<open>The approval of a plan\<close>

datatype plan_file_read = PlanPresent rstr | PlanAbsent | PlanUnreadable

text \<open>Reading a file gives its text or an error; the flag of an error says that there is no such file.\<close>

definition classify_plan_file_read :: "bool + rstr \<Rightarrow> plan_file_read" where
  "classify_plan_file_read r =
     (case r of
        Inr text \<Rightarrow> if trim text \<noteq> '''' then PlanPresent text else PlanAbsent
      | Inl not_found \<Rightarrow> if not_found then PlanAbsent else PlanUnreadable)"

definition should_intercept_exit_plan_approval :: "bool \<Rightarrow> bool \<Rightarrow> bool \<Rightarrow> plan_file_read \<Rightarrow> bool" where
  "should_intercept_exit_plan_approval is_exit switch_to_agent create_plan plan_read =
     (if \<not> is_exit \<and> \<not> switch_to_agent \<and> \<not> create_plan then False
      else \<not> (switch_to_agent \<and> plan_read = PlanAbsent))"

datatype plan_approval_outcome = PlanApproved | PlanCancelled | PlanAbandonedOutcome

definition plan_approval_outcome_of :: "rstr \<Rightarrow> plan_approval_outcome" where
  "plan_approval_outcome_of outcome =
     (if outcome = ''approved'' then PlanApproved
      else if outcome = ''abandoned'' then PlanAbandonedOutcome
      else PlanCancelled)"

definition revise_plan_message :: "rstr \<Rightarrow> rstr" where
  "revise_plan_message feedback =
     (let feedback = trim feedback in
      if feedback = ''''
      then ''The user wants to revise the plan. Ask the user what changes they would like to make.''
      else ''The user wants to revise the plan. The user said:'' @ nl @ feedback)"

definition plan_approved_implement_message :: rstr where
  "plan_approved_implement_message = ''The user approved the plan. Implement the plan in plan.md.''"

definition abandoned_message :: "rstr \<Rightarrow> rstr" where
  "abandoned_message tool =
     ''The user chose to abandon the plan entirely (via the Abandon option in the plan approval dialog). '' @
     ''Plan mode has been disabled. Do not call '' @ tool @
     '' again unless the user explicitly asks to re-enter plan mode.''"

definition keep_planning_message :: rstr where
  "keep_planning_message =
     ''The user does not want to exit plan mode. '' @
     ''Continue planning and ask the user what they would like to do.''"

datatype resume_action = LeaveAndImplement | StayAndRevise rstr | LeaveOnly

definition resume_action_for :: "plan_approval_outcome \<Rightarrow> rstr option \<Rightarrow> resume_action" where
  "resume_action_for outcome feedback =
     (case outcome of
        PlanApproved \<Rightarrow> LeaveAndImplement
      | PlanCancelled \<Rightarrow> StayAndRevise (revise_plan_message (case feedback of Some t \<Rightarrow> t | None \<Rightarrow> ''''))
      | PlanAbandonedOutcome \<Rightarrow> LeaveOnly)"

text \<open>
  What comes back to a parked request: a reply with an outcome and feedback, a reply that does not parse, no
  client to deliver it to, or a client that went away before answering.
\<close>

datatype approval_reply = Replied rstr "rstr option" | Unparsable | NoClient | ClientGone

definition reply_outcome :: "approval_reply \<Rightarrow> (rstr \<times> rstr option) option" where
  "reply_outcome reply =
     (case reply of
        Replied outcome feedback \<Rightarrow> Some (outcome, feedback)
      | Unparsable \<Rightarrow> Some (''cancelled'', None)
      | _ \<Rightarrow> None)"

definition park_approval :: "approval_source \<Rightarrow> plan_session \<Rightarrow> plan_session" where
  "park_approval source s =
     persist_plan_mode_state (track (set_awaiting_plan_approval True) (s\<lparr>se_asking := Some source\<rparr>))"

definition clear_awaiting :: "plan_session \<Rightarrow> plan_session" where
  "clear_awaiting s = persist_plan_mode_state (track (set_awaiting_plan_approval False) s)"

text \<open>A call of the tool is put to the client; the end of the wait clears the mark unless nobody answered.\<close>

definition exit_plan_call :: "rstr \<Rightarrow> bool + rstr \<Rightarrow> plan_session \<Rightarrow> plan_session" where
  "exit_plan_call tool r s =
     (let plan_read = classify_plan_file_read r in
      if should_intercept_exit_plan_approval True False False plan_read
      then park_approval (ApprovalOfTool tool (case plan_read of PlanPresent _ \<Rightarrow> True | _ \<Rightarrow> False)) s
      else run_exit_tool s)"

definition tool_approval_answered :: "rstr \<Rightarrow> bool \<Rightarrow> approval_reply \<Rightarrow> plan_session \<Rightarrow> plan_session" where
  "tool_approval_answered tool has_plan reply s =
     (case reply_outcome reply of
        Some (outcome, feedback) \<Rightarrow>
          (let s = clear_awaiting s in
           case plan_approval_outcome_of outcome of
             PlanAbandonedOutcome \<Rightarrow>
               push_message (PlanAbandoned (abandoned_message tool)) (leave_plan_mode_to_default s)
           | PlanCancelled \<Rightarrow>
               push_message (PlanRevision
                 (if has_plan then revise_plan_message (case feedback of Some t \<Rightarrow> t | None \<Rightarrow> '''')
                  else keep_planning_message)) s
           | PlanApproved \<Rightarrow> run_exit_tool s)
      | None \<Rightarrow> if reply = NoClient then run_exit_tool s else s)"

text \<open>The approval that a restart left open is asked again; its answer starts a turn with a message.\<close>

definition resume_plan_approval :: "bool + rstr \<Rightarrow> plan_session \<Rightarrow> plan_session" where
  "resume_plan_approval r s =
     (if \<not> pt_awaiting (se_tracker s) \<or> se_asking s \<noteq> None then s
      else
        (case r of
           Inr text \<Rightarrow> if trim text \<noteq> '''' then park_approval ApprovalOfResume s else clear_awaiting s
         | Inl _ \<Rightarrow> clear_awaiting s))"

definition resume_approval_answered :: "approval_reply \<Rightarrow> plan_session \<Rightarrow> plan_session" where
  "resume_approval_answered reply s =
     (case reply_outcome reply of
        Some (outcome, feedback) \<Rightarrow>
          (let s = clear_awaiting s in
           case resume_action_for (plan_approval_outcome_of outcome) feedback of
             LeaveOnly \<Rightarrow> leave_plan_mode_to_default s
           | StayAndRevise text \<Rightarrow> push_message (PlanRevision text) s
           | LeaveAndImplement \<Rightarrow>
               push_message (PlanImplement plan_approved_implement_message) (leave_plan_mode_to_default s))
      | None \<Rightarrow> s)"

definition approval_answered :: "approval_reply \<Rightarrow> plan_session \<Rightarrow> plan_session" where
  "approval_answered reply s =
     (case se_asking s of
        None \<Rightarrow> s
      | Some (ApprovalOfTool tool has_plan) \<Rightarrow>
          tool_approval_answered tool has_plan reply (s\<lparr>se_asking := None\<rparr>)
      | Some ApprovalOfResume \<Rightarrow> resume_approval_answered reply (s\<lparr>se_asking := None\<rparr>))"

text \<open>A cancelled turn drops the wait of its tool call; its deferred exit is not completed.\<close>

definition cancel_turn :: "plan_session \<Rightarrow> plan_session" where
  "cancel_turn s =
     (let s = (case se_asking s of
                 Some (ApprovalOfTool _ _) \<Rightarrow> clear_awaiting (s\<lparr>se_asking := None\<rparr>)
               | _ \<Rightarrow> s)
      in (flush_plan_activation s)\<lparr>se_phase := TurnIdle\<rparr>)"

subsection \<open>The runs\<close>

datatype plan_event =
    SwitchMode rstr bool
  | StartTurn prompt_origin prompt_mode
  | InjectReminders bool
  | ReachSafePoint
  | CallEnterTool
  | CallExitTool rstr "bool + rstr"
  | ResumeApproval "bool + rstr"
  | AnswerApproval approval_reply
  | Compact
  | EndTurn
  | CancelTurn
  | Restart

definition plan_step :: "plan_renderer \<Rightarrow> rstr \<Rightarrow> plan_event \<Rightarrow> plan_session \<Rightarrow> plan_session" where
  "plan_step render dir e s =
     (case e of
        SwitchMode mode_id has_content \<Rightarrow> handle_session_mode render mode_id has_content s
      | StartTurn origin mode \<Rightarrow> start_turn origin mode s
      | InjectReminders has_content \<Rightarrow>
          (inject_plan_mode_reminders render has_content s)\<lparr>se_phase := TurnRunning\<rparr>
      | ReachSafePoint \<Rightarrow> flush_plan_activation s
      | CallEnterTool \<Rightarrow> run_enter_tool s
      | CallExitTool tool r \<Rightarrow> exit_plan_call tool r s
      | ResumeApproval r \<Rightarrow> resume_plan_approval r s
      | AnswerApproval reply \<Rightarrow> approval_answered reply s
      | Compact \<Rightarrow> compact_plan_mode s
      | EndTurn \<Rightarrow> end_turn s
      | CancelTurn \<Rightarrow> cancel_turn s
      | Restart \<Rightarrow> restart_session dir s)"

text \<open>When an event can happen: one turn at a time, and a turn whose tool waits for an approval waits with it.\<close>

definition waits_in_turn :: "plan_session \<Rightarrow> bool" where
  "waits_in_turn s \<longleftrightarrow> (case se_asking s of Some (ApprovalOfTool _ _) \<Rightarrow> True | _ \<Rightarrow> False)"

definition plan_enabled :: "plan_event \<Rightarrow> plan_session \<Rightarrow> bool" where
  "plan_enabled e s =
     (case e of
        SwitchMode _ _ \<Rightarrow> True
      | StartTurn _ _ \<Rightarrow> se_phase s = TurnIdle
      | InjectReminders _ \<Rightarrow> se_phase s = TurnStarting
      | ReachSafePoint \<Rightarrow> se_phase s = TurnRunning \<and> \<not> waits_in_turn s
      | CallEnterTool \<Rightarrow> se_phase s = TurnRunning \<and> \<not> waits_in_turn s
      | CallExitTool _ _ \<Rightarrow> se_phase s = TurnRunning \<and> se_asking s = None
      | ResumeApproval _ \<Rightarrow> se_phase s = TurnIdle
      | AnswerApproval _ \<Rightarrow> se_asking s \<noteq> None
      | Compact \<Rightarrow> \<not> waits_in_turn s
      | EndTurn \<Rightarrow> se_phase s \<noteq> TurnIdle \<and> \<not> waits_in_turn s
      | CancelTurn \<Rightarrow> se_phase s \<noteq> TurnIdle
      | Restart \<Rightarrow> True)"

text \<open>The sessions that runs reach when the events satisfy a condition, from a session without a saved state.\<close>

inductive plan_reaches ::
  "(plan_event \<Rightarrow> plan_session \<Rightarrow> bool) \<Rightarrow> plan_renderer \<Rightarrow> rstr \<Rightarrow> plan_session \<Rightarrow> bool"
  for P render dir where
  spawned: "plan_reaches P render dir (spawn_plan_session dir None)"
| stepped: "plan_reaches P render dir (plan_step render dir e s)"
    if "plan_reaches P render dir s" "plan_enabled e s" "P e s"

text \<open>Runs as lists of events; an event that cannot happen stops the run.\<close>

fun plan_run :: "plan_renderer \<Rightarrow> rstr \<Rightarrow> plan_event list \<Rightarrow> plan_session \<Rightarrow> plan_session option" where
  "plan_run render dir [] s = Some s"
| "plan_run render dir (e # es) s =
     (if plan_enabled e s then plan_run render dir es (plan_step render dir e s) else None)"

subsection \<open>The gate on edits\<close>

datatype plan_edit_gate = GateAllow | RejectNonPlanFile

definition plan_mode_edit_gate :: "plan_tracker \<Rightarrow> tool_input \<Rightarrow> json access_kind \<Rightarrow> plan_edit_gate" where
  "plan_mode_edit_gate tr input access =
     (if \<not> plan_is_active tr then GateAllow
      else
        (case (input, access) of
           (TaskInput _, _) \<Rightarrow> GateAllow
         | (_, AccessEdit path) \<Rightarrow> if should_auto_approve_edit tr path then GateAllow else RejectNonPlanFile
         | _ \<Rightarrow> GateAllow))"

definition edit_rejected_message :: "plan_renderer \<Rightarrow> rstr \<Rightarrow> rstr" where
  "edit_rejected_message render plan_path =
     (case render edit_rejected_template plan_path False of
        Some m \<Rightarrow> m
      | None \<Rightarrow>
          ''Rejected: file edits are not allowed in plan mode - the only editable '' @
          ''file is the plan file ('' @ plan_path @ '').'')"

text \<open>
  How the preparation of a tool call settles its permission: the gate, the plan file that needs no permission,
  and the permission manager (an argument with its own state) for everything else.  A call that is not
  executed gives the model a message and tells the turn how to go on.
\<close>

datatype tool_loop =
    LoopContinue
  | LoopNonExistingTool
  | LoopToolParsingError
  | LoopPermissionReject rstr rstr
  | LoopCancelled
  | LoopFollowup rstr
  | LoopHookDenied rstr

datatype call_permission = CallProceeds | CallNotExecuted rstr tool_loop

definition settled_call :: "rstr \<Rightarrow> decision \<Rightarrow> call_permission" where
  "settled_call tool d =
     (case d of
        DPolicyDeny reason \<Rightarrow>
          CallNotExecuted (''Tool `'' @ tool @ ''` was not executed: '' @ reason) LoopContinue
      | DReject reason \<Rightarrow>
          CallNotExecuted (reason @ '' for tool `'' @ tool @ ''`'') (LoopPermissionReject tool reason)
      | DCancelled \<Rightarrow>
          CallNotExecuted (''User cancelled the execution for tool `'' @ tool @ ''`'') LoopCancelled
      | DFollowup m \<Rightarrow>
          CallNotExecuted (''The user elected to avoid running the '' @ tool @
            '' tool. The tool was not executed. Please refer to the user'' @ [CHR 0x27] @ ''s message for next steps.'') (LoopFollowup m)
      | DAllow \<Rightarrow> CallProceeds
      | DAsk \<Rightarrow> CallProceeds)"

definition settle_call_permission ::
  "plan_renderer \<Rightarrow> (json access_kind \<Rightarrow> 'm \<Rightarrow> decision \<times> 'm) \<Rightarrow> plan_tracker \<Rightarrow> rstr \<Rightarrow> tool_input \<Rightarrow> 'm
   \<Rightarrow> call_permission \<times> 'm" where
  "settle_call_permission render ask tr tool input m =
     (let access = access_kind_of_input input in
      if plan_mode_edit_gate tr input access \<noteq> GateAllow
      then (CallNotExecuted (edit_rejected_message render (pt_file tr)) LoopContinue, m)
      else if (case access of AccessEdit path \<Rightarrow> should_auto_approve_edit tr path | _ \<Rightarrow> False)
      then (CallProceeds, m)
      else (let (d, m') = ask access m in (settled_call tool d, m')))"

end
