(* ===== verification/PlanSafety.thy ===== *)
theory PlanSafety
  imports PlanMode
begin

section \<open>What plan mode guarantees\<close>

text \<open>
  The invariant of every reachable session, what a turn is told, what a restart keeps, the conditions under
  which the model is never left with a wrong idea of the mode, and what the gate makes of an edit.
\<close>

subsection \<open>The invariant\<close>

definition planning :: "plan_tracker \<Rightarrow> bool" where
  "planning tr \<longleftrightarrow> pt_state tr = PlanPending \<or> pt_state tr = PlanActive"

definition restored_tracker :: "rstr \<Rightarrow> plan_snapshot option \<Rightarrow> plan_tracker" where
  "restored_tracker dir saved =
     (case saved of Some sn \<Rightarrow> tracker_from_snapshot dir sn | None \<Rightarrow> new_plan_tracker dir)"

text \<open>
  The mode of the session mirrors the tracker, and so does the last mode the client was told; a buffered
  activation belongs to a running turn in plan mode; an exit reminder is due only outside of plan mode; no tool
  runs while the mode is pending; and the saved state restores to what the tracker restores to.
\<close>

definition plan_ok :: "rstr \<Rightarrow> plan_session \<Rightarrow> bool" where
  "plan_ok dir s \<longleftrightarrow>
     (se_current_mode s = PlanPrompt \<longleftrightarrow> planning (se_tracker s)) \<and>
     (se_updates s = [] \<or> (session_mode_from_id (last (se_updates s)) = SessionPlan \<longleftrightarrow> planning (se_tracker s))) \<and>
     (pt_pending (se_tracker s) = None \<or> pt_state (se_tracker s) = PlanActive \<and> turn_in_flight s) \<and>
     (pt_exit_due (se_tracker s) \<longrightarrow> pt_state (se_tracker s) = PlanInactive) \<and>
     (se_phase s = TurnRunning \<longrightarrow> pt_state (se_tracker s) \<noteq> PlanPending) \<and>
     pt_file (se_tracker s) = path_push dir ''plan.md'' \<and>
     restored_tracker dir (se_saved s) = tracker_from_snapshot dir (snapshot_of (se_tracker s))"

lemmas tracker_defs =
  enter_pending_def plan_activate_def activate_mid_turn_def take_pending_activation_def activate_from_tool_def
  deactivate_approved_def user_exit_def complete_deferred_exit_def queue_exit_reminder_def
  record_reminder_injected_def clear_pending_exit_reminder_def set_awaiting_plan_approval_def
  reset_after_compaction_def

lemmas session_defs =
  track_def persist_plan_mode_state_def send_mode_update_def push_message_def push_reminder_def turn_in_flight_def

lemma restored_Some [simp]: "restored_tracker dir (Some sn) = tracker_from_snapshot dir sn"
  by (simp add: restored_tracker_def)

lemma restored_idem:
  "tracker_from_snapshot dir (snapshot_of (tracker_from_snapshot dir sn)) = tracker_from_snapshot dir sn"
  by (cases "sn_state sn") (simp_all add: tracker_from_snapshot_def snapshot_of_def)

lemma restored_new: "tracker_from_snapshot dir (snapshot_of (new_plan_tracker dir)) = new_plan_tracker dir"
  by (simp add: tracker_from_snapshot_def snapshot_of_def new_plan_tracker_def)

lemma restored_tracker_idem:
  "tracker_from_snapshot dir (snapshot_of (restored_tracker dir saved)) = restored_tracker dir saved"
  by (cases saved) (simp_all add: restored_idem restored_new restored_tracker_def)

text \<open>What a restart makes of a tracker.\<close>

lemma restored_fields:
  "pt_state (restored_tracker dir saved) \<in> {PlanInactive, PlanActive}"
  "pt_pending (restored_tracker dir saved) = None"
  "pt_file (restored_tracker dir saved) = path_push dir ''plan.md''"
  by (cases saved; cases "sn_state (the saved)";
      simp add: restored_tracker_def tracker_from_snapshot_def new_plan_tracker_def)+

lemma mode_id_back [simp]: "session_mode_from_id (session_mode_id m) = m"
  by (cases m) (simp_all add: session_mode_from_id_def session_mode_id_def)

lemma mode_of_id_planning [simp]:
  "prompt_mode_from_session_mode_id mode_id = PlanPrompt \<longleftrightarrow> session_mode_from_id mode_id = SessionPlan"
  by (cases "session_mode_from_id mode_id") (simp_all add: prompt_mode_from_session_mode_id_def)

lemma id_of_mode_planning [simp]:
  "session_mode_from_id (session_mode_id_from_prompt_mode pm) = SessionPlan \<longleftrightarrow> pm = PlanPrompt"
  by (cases pm) (simp_all add: session_mode_id_from_prompt_mode_def)

lemma spawned_ok: "plan_ok dir (spawn_plan_session dir None)"
  by (simp add: plan_ok_def spawn_plan_session_def new_plan_tracker_def planning_def session_prompt_mode_def
      plan_is_active_def restored_tracker_def tracker_from_snapshot_def snapshot_of_def)

lemma restarted: "se_tracker (restart_session dir s) = restored_tracker dir (se_saved s)"
  by (simp add: restart_session_def spawn_plan_session_def restored_tracker_def Let_def)

lemma restart_ok:
  assumes "plan_ok dir s" shows "plan_ok dir (restart_session dir s)"
proof -
  note t = restarted
  have due: "pt_exit_due (restored_tracker dir (se_saved s)) \<Longrightarrow> pt_state (restored_tracker dir (se_saved s)) = PlanInactive"
    using assms by (cases "pt_state (se_tracker s)")
      (auto simp: plan_ok_def tracker_from_snapshot_def snapshot_of_def)
  show ?thesis
    using restored_fields [of dir "se_saved s"] due restored_tracker_idem [of dir "se_saved s"]
    unfolding plan_ok_def t
    by (auto simp: restart_session_def spawn_plan_session_def planning_def session_prompt_mode_def
        plan_is_active_def restored_tracker_def turn_in_flight_def)
qed

text \<open>The fields of a session that a step of the tracker keeps or sets.\<close>

lemma mode_switch_ok:
  assumes "plan_ok dir s" shows "plan_ok dir (handle_session_mode render mode_id c s)"
  using assms
  by (cases "pt_state (se_tracker s)"; cases "pt_pending (se_tracker s)")
    (auto simp: handle_session_mode_def activate_plan_mode_mid_turn_def plan_ok_def planning_def tracker_defs
      session_defs Let_def split: option.splits)

lemma reconcile_ok:
  assumes "plan_ok dir s" and "\<not> turn_in_flight s"
  shows "plan_ok dir (reconcile_plan_mode_with_prompt mode s)"
  using assms
  by (cases "pt_state (se_tracker s)"; cases "pt_pending (se_tracker s)")
    (auto simp: reconcile_plan_mode_with_prompt_def plan_ok_def planning_def tracker_defs
      session_defs Let_def split: option.splits)

lemma start_turn_ok:
  assumes "plan_ok dir s" and "\<not> turn_in_flight s" shows "plan_ok dir (start_turn origin mode s)"
  using assms reconcile_ok [OF assms, of mode]
  by (auto simp: start_turn_def resolve_turn_prompt_mode_def Let_def plan_ok_def turn_in_flight_def)

lemma flush_ok:
  assumes "plan_ok dir s" shows "plan_ok dir (flush_plan_activation s)"
  using assms
  by (auto simp: flush_plan_activation_def plan_ok_def planning_def tracker_defs session_defs Let_def
      tracker_from_snapshot_def snapshot_of_def split: option.splits plan_mode_state.splits)

lemma enter_tool_ok:
  assumes "plan_ok dir s" shows "plan_ok dir (run_enter_tool s)"
  using assms
  by (auto simp: run_enter_tool_def plan_mode_entered_def plan_ok_def planning_def tracker_defs session_defs
      Let_def)

lemma exited_ok:
  assumes "plan_ok dir s" shows "plan_ok dir (plan_mode_exited s)"
  using assms
  by (auto simp: plan_mode_exited_def plan_ok_def planning_def tracker_defs session_defs Let_def
      session_mode_from_id_def session_mode_id_def)

lemma leave_ok:
  assumes "plan_ok dir s" shows "plan_ok dir (leave_plan_mode_to_default s)"
  using assms
  by (auto simp: leave_plan_mode_to_default_def plan_ok_def planning_def tracker_defs session_defs Let_def
      session_mode_from_id_def session_mode_id_def)

lemma awaiting_ok:
  assumes "plan_ok dir s"
  shows "plan_ok dir (persist_plan_mode_state (track (set_awaiting_plan_approval b) s))"
  using assms by (auto simp: plan_ok_def planning_def tracker_defs session_defs)

lemma irrelevant_ok [simp]:
  "plan_ok dir (push_message m s) = plan_ok dir s"
  "plan_ok dir (s\<lparr>se_asking := asking\<rparr>) = plan_ok dir s"
  "plan_ok dir (s\<lparr>se_log := log\<rparr>) = plan_ok dir s"
  by (simp_all add: plan_ok_def push_message_def turn_in_flight_def)

lemma compact_ok:
  assumes "plan_ok dir s" shows "plan_ok dir (compact_plan_mode s)"
  using assms by (auto simp: compact_plan_mode_def plan_ok_def planning_def tracker_defs session_defs)

text \<open>The reminders of a turn, without the phase, and the phase they lead to.\<close>

lemma inject_activation_ok:
  assumes "plan_ok dir s" and "turn_in_flight s" and "se_phase s \<noteq> TurnRunning"
  shows "plan_ok dir (fst (inject_activation render c s))"
    and "se_phase (fst (inject_activation render c s)) = se_phase s"
    and "pt_state (se_tracker (fst (inject_activation render c s))) \<noteq> PlanPending"
  using assms
  by (auto simp: inject_activation_def plan_ok_def planning_def tracker_defs session_defs Let_def
      split: option.splits)

lemma inject_per_turn_ok:
  assumes "plan_ok dir s"
  shows "plan_ok dir (inject_per_turn render c s)"
    and "se_phase (inject_per_turn render c s) = se_phase s"
    and "pt_state (se_tracker (inject_per_turn render c s)) = pt_state (se_tracker s)"
  using assms
  by (auto simp: inject_per_turn_def plan_ok_def planning_def tracker_defs session_defs Let_def plan_is_active_def
      split: option.splits)

lemma inject_exit_ok:
  assumes "plan_ok dir s"
  shows "plan_ok dir (inject_exit render s)"
    and "se_phase (inject_exit render s) = se_phase s"
    and "pt_state (se_tracker (inject_exit render s)) = pt_state (se_tracker s)"
  using assms
  by (auto simp: inject_exit_def plan_ok_def planning_def tracker_defs session_defs Let_def split: option.splits)

lemma inject_ok:
  assumes "plan_ok dir s" and "se_phase s = TurnStarting"
  shows "plan_ok dir ((inject_plan_mode_reminders render c s)\<lparr>se_phase := TurnRunning\<rparr>)"
proof -
  obtain s1 i where s1: "inject_activation render c s = (s1, i)" by fastforce
  obtain s2 where s2: "s2 = (if i then s1 else inject_per_turn render c s1)" by simp
  have 1: "plan_ok dir s1" "se_phase s1 = TurnStarting" "pt_state (se_tracker s1) \<noteq> PlanPending"
    using inject_activation_ok [of dir s render c] assms s1 by (simp_all add: turn_in_flight_def)
  have 2: "plan_ok dir s2" "se_phase s2 = TurnStarting" "pt_state (se_tracker s2) \<noteq> PlanPending"
    using 1 inject_per_turn_ok [OF 1(1), of render c] unfolding s2 by (auto split: if_splits)
  have "inject_plan_mode_reminders render c s = inject_exit render s2"
    by (simp add: inject_plan_mode_reminders_def s1 s2)
  then show ?thesis
    using inject_exit_ok [OF 2(1), of render] 2(2,3) by (simp add: plan_ok_def turn_in_flight_def)
qed

lemma flushed_buffer [simp]: "pt_pending (se_tracker (flush_plan_activation s)) = None"
  by (cases "pt_pending (se_tracker s)") (simp_all add: flush_plan_activation_def tracker_defs session_defs)

lemma idle_ok:
  assumes "plan_ok dir s" and "pt_pending (se_tracker s) = None"
  shows "plan_ok dir (s\<lparr>se_phase := TurnIdle\<rparr>)"
  using assms by (auto simp: plan_ok_def turn_in_flight_def)

lemma deferred_exit_ok:
  assumes "plan_ok dir s"
  shows "plan_ok dir (if pt_state (se_tracker s) = PlanExitPending
    then persist_plan_mode_state (track complete_deferred_exit s) else track complete_deferred_exit s)"
  using assms by (auto simp: plan_ok_def planning_def tracker_defs session_defs)

lemma end_turn_ok: "plan_ok dir s \<Longrightarrow> plan_ok dir (end_turn s)"
  using deferred_exit_ok [OF idle_ok [OF flush_ok flushed_buffer]] by (simp add: end_turn_def Let_def)

lemma clear_ok: "plan_ok dir s \<Longrightarrow> plan_ok dir (clear_awaiting s)"
  using awaiting_ok by (simp add: clear_awaiting_def)

lemma park_ok: "plan_ok dir s \<Longrightarrow> plan_ok dir (park_approval source s)"
  using awaiting_ok [of dir "s\<lparr>se_asking := Some source\<rparr>" True] by (simp add: park_approval_def)

lemma exit_tool_ok: "plan_ok dir s \<Longrightarrow> plan_ok dir (run_exit_tool s)"
  using exited_ok by (simp add: run_exit_tool_def)

lemma cancel_ok: "plan_ok dir s \<Longrightarrow> plan_ok dir (cancel_turn s)"
  using idle_ok [OF flush_ok flushed_buffer] clear_ok
  by (auto simp: cancel_turn_def Let_def split: option.splits approval_source.splits)

lemmas approval_ok = clear_ok park_ok exit_tool_ok leave_ok

lemma tool_answer_ok: "plan_ok dir s \<Longrightarrow> plan_ok dir (tool_approval_answered tool p reply s)"
  using approval_ok by (simp add: tool_approval_answered_def Let_def split: option.splits plan_approval_outcome.splits)

lemma resume_answer_ok: "plan_ok dir s \<Longrightarrow> plan_ok dir (resume_approval_answered reply s)"
  using approval_ok by (simp add: resume_approval_answered_def Let_def split: option.splits resume_action.splits)

lemma plan_step_ok:
  assumes "plan_ok dir s" and "plan_enabled e s" shows "plan_ok dir (plan_step render dir e s)"
proof (cases e)
  case (StartTurn origin mode)
  then show ?thesis using start_turn_ok assms by (simp add: plan_step_def plan_enabled_def turn_in_flight_def)
next
  case (InjectReminders c)
  then show ?thesis using inject_ok assms by (simp add: plan_step_def plan_enabled_def)
next
  case (CallExitTool tool r)
  then show ?thesis using approval_ok assms by (simp add: plan_step_def exit_plan_call_def Let_def)
next
  case (ResumeApproval r)
  then show ?thesis using approval_ok assms by (simp add: plan_step_def resume_plan_approval_def split: sum.splits)
next
  case (AnswerApproval reply)
  then show ?thesis using tool_answer_ok resume_answer_ok assms
    by (simp add: plan_step_def approval_answered_def split: option.splits approval_source.splits)
qed (use assms mode_switch_ok flush_ok enter_tool_ok compact_ok end_turn_ok cancel_ok restart_ok in
      \<open>simp_all add: plan_step_def\<close>)

lemma plan_reaches_ok: "plan_reaches P render dir s \<Longrightarrow> plan_ok dir s"
  by (induction rule: plan_reaches.induct) (simp_all add: spawned_ok plan_step_ok)


text \<open>Runs that satisfy a condition at every event reach what the relation reaches.\<close>

fun run_keeps ::
  "(plan_event \<Rightarrow> plan_session \<Rightarrow> bool) \<Rightarrow> plan_renderer \<Rightarrow> rstr \<Rightarrow> plan_event list \<Rightarrow> plan_session \<Rightarrow> bool" where
  "run_keeps P render dir [] s \<longleftrightarrow> True"
| "run_keeps P render dir (e # es) s \<longleftrightarrow> P e s \<and> run_keeps P render dir es (plan_step render dir e s)"

lemma plan_run_reaches:
  "plan_reaches P render dir s0 \<Longrightarrow> run_keeps P render dir es s0 \<Longrightarrow> plan_run render dir es s0 = Some s \<Longrightarrow>
   plan_reaches P render dir s"
  by (induction es arbitrary: s0) (auto intro: plan_reaches.stepped split: if_splits)

lemma run_keeps_True [simp]: "run_keeps (\<lambda>_ _. True) render dir es s"
  by (induction es arbitrary: s) simp_all

text \<open>
  C18: Every reachable session keeps its invariant: the mode that turns inherit and the last mode the client was
  told agree with the tracker; a buffered activation belongs to a running turn in plan mode; an exit reminder is
  due only outside of plan mode; no tool runs while the mode is pending; and what is saved restores to what the
  tracker in memory would restore to.
\<close>

theorem plan_session_invariant:
  assumes "plan_reaches P render dir s" shows "plan_ok dir s"
  using plan_reaches_ok assms .

subsection \<open>What a turn is told\<close>

definition turn_reminders :: "plan_tracker \<Rightarrow> plan_template list" where
  "turn_reminders tr =
     (case pt_state tr of
        PlanPending \<Rightarrow> [if pt_was_active tr then ReentryReminder else FullReminder]
      | PlanActive \<Rightarrow> [if even (unat (pt_reminders tr)) then FullReminder else SparseReminder]
      | PlanExitPending \<Rightarrow> []
      | PlanInactive \<Rightarrow> if pt_exit_due tr then [ExitReminder] else [])"

definition reminder_message :: "plan_renderer \<Rightarrow> plan_tracker \<Rightarrow> bool \<Rightarrow> plan_template \<Rightarrow> plan_message" where
  "reminder_message render tr has_content t =
     PlanReminder t (tag_wrapped reminder_tag (closing_tag_escaped reminder_tag
       (the (render_plan_template render t tr (has_content \<and> t \<noteq> ExitReminder)))))"

lemma inject_log:
  assumes "plan_ok dir s" and r: "\<And>t p c. render t p c \<noteq> None"
  shows "se_log (inject_plan_mode_reminders render c s) =
    se_log s @ map (reminder_message render (se_tracker s) c) (turn_reminders (se_tracker s))"
proof -
  have some: "\<exists>x. render t p b = Some x" for t p b using r [of t p b] by blast
  obtain x where x: "render (template_text (if pt_was_active (se_tracker s) then ReentryReminder else FullReminder))
      (pt_file (se_tracker s)) c = Some x" using some by blast
  obtain y where y: "render (template_text (if even (unat (pt_reminders (se_tracker s))) then FullReminder
      else SparseReminder)) (pt_file (se_tracker s)) c = Some y" using some by blast
  obtain z where z: "render (template_text ExitReminder) (pt_file (se_tracker s)) False = Some z" using some by blast
  have due: "pt_exit_due (se_tracker s) \<Longrightarrow> pt_state (se_tracker s) = PlanInactive"
    using assms(1) by (auto simp: plan_ok_def)
  show ?thesis
    using due x y z
    by (cases "pt_state (se_tracker s)")
      (auto simp: inject_plan_mode_reminders_def inject_activation_def inject_per_turn_def inject_exit_def
        tracker_defs session_defs turn_reminders_def reminder_message_def render_plan_template_def
        plan_activation_template_def is_reentry_def plan_is_active_def should_use_full_reminder_def Let_def
        simp del: template_text.simps)
qed

text \<open>
  C19: Every turn is told the mode it runs in, once.  In every reachable session, and with a template engine that
  renders, the start of a turn pushes exactly one reminder when plan mode was switched on (the re-entry reminder
  from the second time on), one when it is still on (in full and in short by turns), the exit reminder when one
  is due, and nothing otherwise; never two that contradict each other.
\<close>

theorem turn_is_told_its_mode:
  assumes "plan_reaches P render dir s" and "\<And>t p c. render t p c \<noteq> None"
  shows "se_log (plan_step render dir (InjectReminders c) s) =
    se_log s @ map (reminder_message render (se_tracker s) c) (turn_reminders (se_tracker s))"
  using inject_log [OF plan_reaches_ok [OF assms(1)] assms(2)] by (simp add: plan_step_def)

subsection \<open>What the model believes\<close>

text \<open>
  The model is informed when, having been told of plan mode, the session is in it with nothing left to withdraw,
  or a turn is running at whose end it leaves the mode, or it owes the model the exit reminder.
\<close>

definition model_informed :: "plan_session \<Rightarrow> bool" where
  "model_informed s \<longleftrightarrow>
     (told_planning (se_log s) \<longrightarrow>
        pt_state (se_tracker s) = PlanActive \<and> pt_pending (se_tracker s) = None \<or>
        pt_state (se_tracker s) = PlanExitPending \<and> turn_in_flight s \<or>
        pt_exit_due (se_tracker s))"

text \<open>
  The conditions: plan mode is not switched on while an exit reminder is due; the model is not told of plan mode
  by another way while an activation is buffered; a plan is not abandoned after a restart; and a turn is not
  cancelled while the exit from plan mode waits for its end.  Each is needed, as the runs below show.
\<close>

definition careful :: "plan_event \<Rightarrow> plan_session \<Rightarrow> bool" where
  "careful e s =
     (case e of
        SwitchMode mode_id _ \<Rightarrow> session_mode_from_id mode_id = SessionPlan \<longrightarrow> \<not> pt_exit_due (se_tracker s)
      | StartTurn origin mode \<Rightarrow> origin = OriginUser \<and> mode = PlanPrompt \<longrightarrow> \<not> pt_exit_due (se_tracker s)
      | InjectReminders _ \<Rightarrow> pt_pending (se_tracker s) = None
      | CallEnterTool \<Rightarrow> pt_pending (se_tracker s) = None
      | AnswerApproval reply \<Rightarrow>
          \<not> (se_asking s = Some ApprovalOfResume \<and> map_option fst (reply_outcome reply) = Some ''abandoned'')
      | CancelTurn \<Rightarrow> pt_state (se_tracker s) \<noteq> PlanExitPending
      | _ \<Rightarrow> True)"

lemma told_snoc [simp]:
  "told_planning (log @ [m]) = (case tells m of None \<Rightarrow> told_planning log | Some b \<Rightarrow> b)"
  by (cases "tells m") (simp_all add: told_planning_def)

lemma mode_switch_informed:
  assumes "plan_ok dir s" and "model_informed s"
    and "session_mode_from_id mode_id = SessionPlan \<longrightarrow> \<not> pt_exit_due (se_tracker s)"
  shows "model_informed (handle_session_mode render mode_id c s)"
  using assms
  by (cases "pt_state (se_tracker s)"; cases "pt_pending (se_tracker s)")
    (auto simp: handle_session_mode_def activate_plan_mode_mid_turn_def plan_ok_def model_informed_def tracker_defs
      session_defs Let_def split: option.splits)

lemma start_turn_informed:
  assumes "plan_ok dir s" and "model_informed s" and "\<not> turn_in_flight s"
    and "origin = OriginUser \<and> mode = PlanPrompt \<longrightarrow> \<not> pt_exit_due (se_tracker s)"
  shows "model_informed (start_turn origin mode s)"
  using assms
  by (cases "pt_state (se_tracker s)"; cases "pt_pending (se_tracker s)")
    (auto simp: start_turn_def resolve_turn_prompt_mode_def reconcile_plan_mode_with_prompt_def is_synthetic_def
      plan_ok_def model_informed_def tracker_defs session_defs Let_def)

lemma inject_informed:
  assumes "plan_ok dir s" and "model_informed s" and "pt_pending (se_tracker s) = None"
    and "\<And>p. render (template_text ExitReminder) p False \<noteq> None"
  shows "model_informed ((inject_plan_mode_reminders render c s)\<lparr>se_phase := TurnRunning\<rparr>)"
proof -
  obtain z where z: "render (template_text ExitReminder) (pt_file (se_tracker s)) False = Some z"
    using assms(4) by blast
  show ?thesis
    using assms(1-3) z
    by (cases "pt_state (se_tracker s)")
      (auto simp: inject_plan_mode_reminders_def inject_activation_def inject_per_turn_def inject_exit_def
        plan_ok_def model_informed_def tracker_defs session_defs render_plan_template_def plan_is_active_def
        Let_def simp del: template_text.simps split: option.splits)
qed

lemma flush_informed:
  assumes "plan_ok dir s" and "model_informed s" shows "model_informed (flush_plan_activation s)"
  using assms
  by (cases "pt_pending (se_tracker s)")
    (auto simp: flush_plan_activation_def plan_ok_def model_informed_def tracker_defs session_defs)

lemma enter_tool_informed:
  assumes "plan_ok dir s" and "model_informed s" and "pt_pending (se_tracker s) = None"
    and "se_phase s = TurnRunning"
  shows "model_informed (run_enter_tool s)"
  using assms
  by (cases "pt_state (se_tracker s)")
    (auto simp: run_enter_tool_def plan_mode_entered_def plan_ok_def model_informed_def tracker_defs session_defs)

lemma exit_tool_informed: "model_informed (run_exit_tool s)"
  by (simp add: run_exit_tool_def model_informed_def push_message_def turn_in_flight_def)

lemma awaiting_informed:
  assumes "model_informed s"
  shows "model_informed (persist_plan_mode_state (track (set_awaiting_plan_approval b) s))"
  using assms by (auto simp: model_informed_def tracker_defs session_defs)

lemma irrelevant_informed [simp]:
  "model_informed (s\<lparr>se_asking := asking\<rparr>) = model_informed s"
  "tells m = None \<Longrightarrow> model_informed (push_message m s) = model_informed s"
  "tells m = Some False \<Longrightarrow> model_informed (push_message m s)"
  by (simp_all add: model_informed_def push_message_def turn_in_flight_def)

lemma clear_informed: "model_informed s \<Longrightarrow> model_informed (clear_awaiting s)"
  using awaiting_informed by (simp add: clear_awaiting_def)

lemma park_informed: "model_informed s \<Longrightarrow> model_informed (park_approval source s)"
  using awaiting_informed [of "s\<lparr>se_asking := Some source\<rparr>" True] by (simp add: park_approval_def)

lemma deferred_exit_informed:
  assumes "model_informed s" shows "model_informed (track complete_deferred_exit (s\<lparr>se_phase := phase\<rparr>))"
  using assms by (auto simp: model_informed_def tracker_defs session_defs)

lemma persist_informed [simp]: "model_informed (persist_plan_mode_state s) = model_informed s"
  by (simp add: model_informed_def persist_plan_mode_state_def turn_in_flight_def)

text \<open>The end of a turn matters only to a deferred exit.\<close>

lemma phase_informed:
  "pt_state (se_tracker s) \<noteq> PlanExitPending \<Longrightarrow> model_informed (s\<lparr>se_phase := phase\<rparr>) = model_informed s"
  by (simp add: model_informed_def)

lemma flush_keeps_state [simp]: "pt_state (se_tracker (flush_plan_activation s)) = pt_state (se_tracker s)"
  by (auto simp: flush_plan_activation_def tracker_defs session_defs Let_def split: option.splits)

lemma clear_keeps_state [simp]: "pt_state (se_tracker (clear_awaiting s)) = pt_state (se_tracker s)"
  by (simp add: clear_awaiting_def tracker_defs session_defs)

lemma end_turn_informed:
  assumes "plan_ok dir s" and "model_informed s" shows "model_informed (end_turn s)"
  using deferred_exit_informed [OF flush_informed [OF assms], of TurnIdle]
  by (simp add: end_turn_def Let_def)

lemma cancel_informed:
  assumes "plan_ok dir s" and "model_informed s" and "pt_state (se_tracker s) \<noteq> PlanExitPending"
  shows "model_informed (cancel_turn s)"
  using assms flush_informed [of dir s] flush_informed [of dir "clear_awaiting (s\<lparr>se_asking := None\<rparr>)"]
    clear_ok [of dir "s\<lparr>se_asking := None\<rparr>"] clear_informed [of "s\<lparr>se_asking := None\<rparr>"]
  by (simp add: cancel_turn_def Let_def phase_informed split: option.splits approval_source.splits)

lemma compact_informed:
  assumes "model_informed s" shows "model_informed (compact_plan_mode s)"
  using assms by (auto simp: compact_plan_mode_def model_informed_def tracker_defs session_defs)

lemma restart_informed:
  assumes "plan_ok dir s" and "model_informed s" shows "model_informed (restart_session dir s)"
proof -
  have "se_tracker (restart_session dir s) = tracker_from_snapshot dir (snapshot_of (se_tracker s))"
    using assms(1) by (simp add: plan_ok_def restarted)
  moreover have "se_log (restart_session dir s) = se_log s" by (simp add: restart_session_def)
  ultimately show ?thesis
    using assms(2) by (cases "pt_state (se_tracker s)")
      (auto simp: model_informed_def tracker_from_snapshot_def snapshot_of_def)
qed

lemma tool_answer_informed:
  "model_informed s \<Longrightarrow> model_informed (tool_approval_answered tool p reply s)"
  using clear_informed exit_tool_informed
  by (simp add: tool_approval_answered_def Let_def split: option.splits plan_approval_outcome.splits)

lemma resume_answer_informed:
  assumes "model_informed s" and "map_option fst (reply_outcome reply) \<noteq> Some ''abandoned''"
  shows "model_informed (resume_approval_answered reply s)"
  using assms clear_informed
  by (auto simp: resume_approval_answered_def resume_action_for_def plan_approval_outcome_of_def Let_def
      split: option.splits)

lemma careful_step_informed:
  assumes "plan_ok dir s" and "model_informed s" and "plan_enabled e s" and "careful e s"
    and "\<And>p. render (template_text ExitReminder) p False \<noteq> None"
  shows "model_informed (plan_step render dir e s)"
proof (cases e)
  case (SwitchMode mode_id c)
  then show ?thesis using assms mode_switch_informed by (simp add: plan_step_def careful_def)
next
  case (StartTurn origin mode)
  then show ?thesis using assms start_turn_informed
    by (simp add: plan_step_def careful_def plan_enabled_def turn_in_flight_def)
next
  case (InjectReminders c)
  then show ?thesis using assms(4) inject_informed [OF assms(1,2), of render c] assms(5)
    by (simp add: plan_step_def careful_def)
next
  case CallEnterTool
  then show ?thesis using assms enter_tool_informed by (simp add: plan_step_def careful_def plan_enabled_def)
next
  case (CallExitTool tool r)
  then show ?thesis using assms park_informed exit_tool_informed
    by (simp add: plan_step_def exit_plan_call_def Let_def)
next
  case (ResumeApproval r)
  then show ?thesis using assms park_informed clear_informed
    by (simp add: plan_step_def resume_plan_approval_def split: sum.splits)
next
  case (AnswerApproval reply)
  then show ?thesis using assms tool_answer_informed resume_answer_informed
    by (simp add: plan_step_def approval_answered_def careful_def split: option.splits approval_source.splits)
next
  case CancelTurn
  then show ?thesis using assms cancel_informed by (simp add: plan_step_def careful_def)
qed (use assms flush_informed compact_informed end_turn_informed restart_informed in
      \<open>simp_all add: plan_step_def\<close>)

lemma careful_run_informed:
  assumes "plan_reaches careful render dir s" and r: "\<And>p. render (template_text ExitReminder) p False \<noteq> None"
  shows "model_informed s"
  using assms(1)
proof (induction rule: plan_reaches.induct)
  case spawned
  then show ?case by (simp add: model_informed_def spawn_plan_session_def told_planning_def Let_def)
next
  case (stepped s e)
  then show ?case using careful_step_informed [OF plan_reaches_ok, of careful render dir s e] r by simp
qed


text \<open>
  C20: The model is not left believing that it plans.  In every run that keeps to the conditions above, restarts,
  cancelled turns and compactions included, whenever the last thing the model was told is that plan mode is on,
  the mode is on, or a turn is running and the mode ends with it, or its exit reminder is due: a session that is
  idle and out of plan mode owes the reminder.  The exit reminder is taken to render.
\<close>

theorem model_stays_informed:
  assumes "plan_reaches careful render dir s" and "\<And>p. render (template_text ExitReminder) p False \<noteq> None"
  shows "model_informed s"
  using careful_run_informed assms .

text \<open>
  Without the first condition the exit reminder is lost.  When the user leaves plan mode between two turns,
  and switches it on and off again before the next prompt, the session is out of plan mode and the next turn is
  told nothing, though the last thing the model was told is that no edits are allowed.
\<close>

definition toggled_twice :: "plan_event list" where
  "toggled_twice =
     [SwitchMode ''plan'' False, StartTurn OriginUser PlanPrompt, InjectReminders False, EndTurn,
      SwitchMode ''default'' False, SwitchMode ''plan'' False, SwitchMode ''default'' False]"

lemmas run_defs =
  plan_step_def plan_enabled_def handle_session_mode_def start_turn_def resolve_turn_prompt_mode_def
  is_synthetic_def reconcile_plan_mode_with_prompt_def inject_plan_mode_reminders_def inject_activation_def
  inject_per_turn_def inject_exit_def end_turn_def cancel_turn_def flush_plan_activation_def
  spawn_plan_session_def new_plan_tracker_def render_plan_template_def activate_plan_mode_mid_turn_def
  plan_activation_template_def is_reentry_def plan_is_active_def should_use_full_reminder_def
  session_prompt_mode_def session_mode_from_id_def session_mode_id_def prompt_mode_from_session_mode_id_def
  waits_in_turn_def told_planning_def tracker_defs session_defs

theorem exit_reminder_lost:
  assumes "\<And>t p c. render t p c \<noteq> None"
  shows "\<exists>s. plan_run render dir toggled_twice (spawn_plan_session dir None) = Some s \<and>
    told_planning (se_log s) \<and> pt_state (se_tracker s) = PlanInactive \<and> turn_reminders (se_tracker s) = []"
proof -
  obtain x where "render (template_text FullReminder) (path_push dir ''plan.md'') False = Some x"
    using assms by blast
  then show ?thesis
    by (simp add: toggled_twice_def run_defs Let_def turn_reminders_def del: template_text.simps)
qed

text \<open>
  Without the last condition it is late: a cancelled turn does not complete the exit it deferred, and the next
  turn of the user is told nothing.
\<close>

definition cancelled_exit :: "plan_event list" where
  "cancelled_exit =
     [StartTurn OriginUser PlanPrompt, InjectReminders False, SwitchMode ''default'' False, CancelTurn,
      StartTurn OriginUser AgentPrompt]"

lemma cancelled_exit_is_late:
  assumes "\<And>t p c. render t p c \<noteq> None"
  shows "\<exists>s. plan_run render dir cancelled_exit (spawn_plan_session dir None) = Some s \<and>
    told_planning (se_log s) \<and> pt_state (se_tracker s) = PlanExitPending \<and> turn_reminders (se_tracker s) = []"
proof -
  obtain x where "render (template_text FullReminder) (path_push dir ''plan.md'') False = Some x"
    using assms by blast
  then show ?thesis
    by (simp add: cancelled_exit_def run_defs Let_def turn_reminders_def del: template_text.simps)
qed

text \<open>
  The second condition: a mode that is switched on while a turn is starting is announced by the turn's own
  reminder while its activation is still buffered, and withdrawn without a word when it is switched off.
\<close>

definition withdrawn_after_told :: "plan_event list" where
  "withdrawn_after_told =
     [StartTurn OriginUser AgentPrompt, SwitchMode ''plan'' False, InjectReminders False, SwitchMode ''default'' False]"

lemma withdrawal_is_untold:
  assumes "\<And>t p c. render t p c \<noteq> None"
  shows "\<exists>s. plan_run render dir withdrawn_after_told (spawn_plan_session dir None) = Some s \<and>
    told_planning (se_log s) \<and> pt_state (se_tracker s) = PlanInactive \<and> turn_reminders (se_tracker s) = []"
proof -
  obtain x where "render (template_text FullReminder) (path_push dir ''plan.md'') False = Some x"
    using assms by blast
  then show ?thesis
    by (simp add: withdrawn_after_told_def run_defs Let_def turn_reminders_def del: template_text.simps)
qed

text \<open>The third: a plan that is abandoned when its approval is asked again after a restart.\<close>

lemmas approval_defs =
  exit_plan_call_def classify_plan_file_read_def should_intercept_exit_plan_approval_def park_approval_def
  approval_answered_def tool_approval_answered_def reply_outcome_def plan_approval_outcome_of_def
  run_exit_tool_def plan_mode_exited_def clear_awaiting_def resume_plan_approval_def resume_approval_answered_def
  resume_action_for_def leave_plan_mode_to_default_def

definition abandoned_after_restart :: "plan_event list" where
  "abandoned_after_restart =
     [StartTurn OriginUser PlanPrompt, InjectReminders False, CallExitTool ''exit_plan_mode'' (Inr ''p''),
      AnswerApproval ClientGone, Restart, ResumeApproval (Inr ''p''), AnswerApproval (Replied ''abandoned'' None)]"

lemma abandonment_is_untold:
  assumes "\<And>t p c. render t p c \<noteq> None"
  shows "\<exists>s. plan_run render dir abandoned_after_restart (spawn_plan_session dir None) = Some s \<and>
    told_planning (se_log s) \<and> pt_state (se_tracker s) = PlanInactive \<and> turn_reminders (se_tracker s) = []"
proof -
  obtain x where "render (template_text FullReminder) (path_push dir ''plan.md'') False = Some x"
    using assms by blast
  moreover have "trim ''p'' = ''p''" by code_simp
  ultimately show ?thesis
    by (simp add: abandoned_after_restart_def run_defs approval_defs restart_session_def tracker_from_snapshot_def
        snapshot_of_def Let_def turn_reminders_def del: template_text.simps)
qed

subsection \<open>Restarts\<close>

text \<open>What survives: the mode if the model knows it, the exit that was deferred, the counters and the open approval.\<close>

definition interrupted :: "plan_tracker \<Rightarrow> plan_tracker" where
  "interrupted tr = tr
     \<lparr>pt_state := (if pt_state tr = PlanActive then PlanActive else PlanInactive),
      pt_exit_due := pt_exit_due tr \<or> pt_state tr = PlanExitPending,
      pt_pending := None\<rparr>"

lemma tracker_restored:
  "pt_file tr = path_push dir ''plan.md'' \<Longrightarrow> tracker_from_snapshot dir (snapshot_of tr) = interrupted tr"
  by (cases "pt_state tr") (simp_all add: tracker_from_snapshot_def snapshot_of_def interrupted_def)

text \<open>
  C21: A restart at any moment loses nothing but a buffered reminder.  In every reachable session, between any two
  steps, the tracker that a new process builds from what was saved is the present one with a pending mode
  dropped, a deferred exit completed with its reminder due, and the buffer empty.
\<close>

theorem restart_loses_only_the_buffer:
  assumes "plan_reaches P render dir s"
  shows "se_tracker (restart_session dir s) = interrupted (se_tracker s)"
  using plan_reaches_ok [OF assms] by (simp add: plan_ok_def restarted tracker_restored)

text \<open>
  C22: The approval of a plan fails closed.  In every reachable session an answer to an approval ends plan mode
  only if it reads exactly \<open>approved\<close> or \<open>abandoned\<close>, or if a tool asked and no client was there to be asked; a
  reply that does not parse or a client that goes away never does.
\<close>

theorem approval_fails_closed:
  assumes "plan_reaches P render dir s" and "plan_enabled (AnswerApproval reply) s"
    and "plan_is_active (se_tracker s)" and "\<not> plan_is_active (se_tracker (plan_step render dir (AnswerApproval reply) s))"
  shows "(\<exists>feedback. reply = Replied ''approved'' feedback) \<or> (\<exists>feedback. reply = Replied ''abandoned'' feedback) \<or>
    (reply = NoClient \<and> waits_in_turn s)"
  using assms(3,4)
  by (cases reply)
    (auto simp: plan_step_def approval_answered_def tool_approval_answered_def resume_approval_answered_def
      waits_in_turn_def reply_outcome_def plan_approval_outcome_of_def resume_action_for_def clear_awaiting_def
      plan_is_active_def tracker_defs session_defs Let_def split: option.splits approval_source.splits if_splits)

subsection \<open>Witnesses\<close>

definition echo_renderer :: plan_renderer where
  "echo_renderer t p c = Some t"

definition planning_run :: "plan_event list" where
  "planning_run = [StartTurn OriginUser PlanPrompt, InjectReminders False]"

lemma planning_run_ends:
  "\<exists>s. plan_run echo_renderer ''/d'' planning_run (spawn_plan_session ''/d'' None) = Some s \<and>
     plan_is_active (se_tracker s) \<and> se_phase s = TurnRunning \<and> se_asking s = None"
  by (simp add: planning_run_def run_defs Let_def echo_renderer_def del: template_text.simps)

lemma planning_run_careful:
  "run_keeps careful echo_renderer ''/d'' planning_run (spawn_plan_session ''/d'' None)"
  by (simp add: planning_run_def careful_def run_defs Let_def echo_renderer_def del: template_text.simps)

theorem plan_session_invariant_witness:
  "\<exists>s. plan_run echo_renderer ''/d'' planning_run (spawn_plan_session ''/d'' None) = Some s \<and> plan_ok ''/d'' s"
  using planning_run_ends plan_session_invariant
    [OF plan_run_reaches [OF plan_reaches.spawned run_keeps_True, of echo_renderer "''/d''" planning_run]] by blast

theorem turn_is_told_its_mode_witness:
  "\<exists>s. plan_run echo_renderer ''/d'' planning_run (spawn_plan_session ''/d'' None) = Some s \<and>
     se_log (plan_step echo_renderer ''/d'' (InjectReminders False) s) =
     se_log s @ map (reminder_message echo_renderer (se_tracker s) False) (turn_reminders (se_tracker s))"
  using planning_run_ends turn_is_told_its_mode
    [OF plan_run_reaches [OF plan_reaches.spawned run_keeps_True, of echo_renderer "''/d''" planning_run], of _ False]
  by (auto simp: echo_renderer_def)

theorem model_stays_informed_witness:
  "\<exists>s. plan_run echo_renderer ''/d'' planning_run (spawn_plan_session ''/d'' None) = Some s \<and> model_informed s"
  using planning_run_ends model_stays_informed
    [OF plan_run_reaches [OF plan_reaches.spawned planning_run_careful]] by (auto simp: echo_renderer_def)

theorem exit_reminder_lost_witness:
  "\<exists>s. plan_run echo_renderer ''/d'' toggled_twice (spawn_plan_session ''/d'' None) = Some s \<and>
    told_planning (se_log s) \<and> pt_state (se_tracker s) = PlanInactive \<and> turn_reminders (se_tracker s) = []"
  using exit_reminder_lost [of echo_renderer "''/d''"] by (simp add: echo_renderer_def)

theorem restart_loses_only_the_buffer_witness:
  "\<exists>s. plan_run echo_renderer ''/d'' planning_run (spawn_plan_session ''/d'' None) = Some s \<and>
     se_tracker (restart_session ''/d'' s) = interrupted (se_tracker s)"
  using planning_run_ends restart_loses_only_the_buffer
    [OF plan_run_reaches [OF plan_reaches.spawned run_keeps_True, of echo_renderer "''/d''" planning_run]] by blast

definition approval_run :: "plan_event list" where
  "approval_run = planning_run @ [CallExitTool ''exit_plan_mode'' (Inr ''p'')]"

lemma approval_run_ends:
  "\<exists>s. plan_run echo_renderer ''/d'' approval_run (spawn_plan_session ''/d'' None) = Some s \<and>
     plan_is_active (se_tracker s) \<and> waits_in_turn s \<and> plan_enabled (AnswerApproval (Replied ''approved'' None)) s \<and>
     \<not> plan_is_active (se_tracker (plan_step echo_renderer ''/d'' (AnswerApproval (Replied ''approved'' None)) s))"
  by (simp add: approval_run_def planning_run_def run_defs approval_defs Let_def echo_renderer_def
      del: template_text.simps)

theorem approval_fails_closed_witness:
  "\<exists>s. plan_run echo_renderer ''/d'' approval_run (spawn_plan_session ''/d'' None) = Some s \<and>
     ((\<exists>feedback. Replied ''approved'' None = Replied ''approved'' feedback) \<or>
      (\<exists>feedback. Replied ''approved'' None = Replied ''abandoned'' feedback) \<or>
      (Replied ''approved'' None = NoClient \<and> waits_in_turn s))"
proof -
  obtain s where s: "plan_run echo_renderer ''/d'' approval_run (spawn_plan_session ''/d'' None) = Some s"
    and "plan_is_active (se_tracker s)" "plan_enabled (AnswerApproval (Replied ''approved'' None)) s"
      "\<not> plan_is_active (se_tracker (plan_step echo_renderer ''/d'' (AnswerApproval (Replied ''approved'' None)) s))"
    using approval_run_ends by blast
  then show ?thesis
    using approval_fails_closed [OF plan_run_reaches [OF plan_reaches.spawned run_keeps_True s]] by blast
qed

end
