(* ===== verification/ActorSafety.thy ===== *)
theory ActorSafety
  imports PermissionActor
begin

section \<open>What the permission manager guarantees\<close>

text \<open>
  The properties of the actor as a whole: what every reachable state keeps, that managed denials and protected
  files bind in every mode, where grants come from, and that the flags of the handles agree with the modes.
\<close>

subsection \<open>Shapes of a handled request\<close>

text \<open>
  Every request ends in one of three ways: it is settled without a prompt, it is settled in the classifier
  with new counters, or it is prompted.
\<close>

lemma settle_state [simp]:
  "hd_state (settle env cfg st w rq c denials stage a) = st\<lparr>ms_consecutive := fst denials, ms_total := snd denials\<rparr>"
  by (simp add: settle_def Let_def)

lemma settle_other [simp]:
  "hd_writes (settle env cfg st w rq c denials stage a) = []"
  "hd_prompted (settle env cfg st w rq c denials stage a) = False"
  "hd_event (settle env cfg st w rq c denials stage a) = make_event env cfg st w rq c denials a"
  by (simp_all add: settle_def Let_def)

lemma reload_fields [simp]:
  "ms_yolo (reload_grants w access st) = ms_yolo st" "ms_auto (reload_grants w access st) = ms_auto st"
  "ms_consecutive (reload_grants w access st) = ms_consecutive st" "ms_total (reload_grants w access st) = ms_total st"
  "ms_recorded (reload_grants w access st) = ms_recorded st" "ms_classifier (reload_grants w access st) = ms_classifier st"
  "ms_session_edits (reload_grants w access st) = ms_session_edits st" "ms_turns (reload_grants w access st) = ms_turns st"
  "ms_instructions (reload_grants w access st) = ms_instructions st"
  "edit_policy_of (ms_grants (reload_grants w access st)) = edit_policy_of (ms_grants st)"
  by (simp_all add: reload_grants_def Let_def merge_grants_from_def split: option.split)

text \<open>The state of the request after the store was read again.\<close>

lemma handle_cases:
  fixes env cfg w rq st
  defines "st' \<equiv> reload_grants w (rq_access rq) st"
  defines "f \<equiv> request_facts_of env cfg w rq st'"
  obtains (gone) s stage where "s = st \<or> s = st'"
      "handle_request env cfg w rq st = settle env cfg s w rq NotClassified (ms_consecutive st, ms_total st) stage requester_gone"
      "closed w stage" "stage \<le> 1"
  | (early) a where "early_answer env cfg st' f = Some a"
      "handle_request env cfg w rq st = settle env cfg st' w rq NotClassified (ms_consecutive st, ms_total st) 1 a"
  | (auto) a c denials where "early_answer env cfg st' f = None" "auto_stage env st' w f = (AutoAnswers a, c, denials)"
      "handle_request env cfg w rq st = settle env cfg st' w rq c denials 2 a"
  | (abandoned) c denials where "early_answer env cfg st' f = None" "auto_stage env st' w f = (AutoGone, c, denials)"
      "handle_request env cfg w rq st = settle env cfg st' w rq c denials 2 requester_gone" "closed w 2"
  | (late) a c denials forced where "early_answer env cfg st' f = None" "late_answer env cfg st' w f forced = Some a"
      "auto_stage env st' w f = (case forced of Some r \<Rightarrow> AutoForces r | None \<Rightarrow> AutoPasses, c, denials)"
      "handle_request env cfg w rq st = settle env cfg st' w rq c denials 2 a"
  | (prompt) c denials forced where "early_answer env cfg st' f = None" "late_answer env cfg st' w f forced = None"
      "auto_stage env st' w f = (case forced of Some r \<Rightarrow> AutoForces r | None \<Rightarrow> AutoPasses, c, denials)"
      "handle_request env cfg w rq st = prompt_stage env cfg st' w rq f forced c"
proof -
  consider "closed w 0"
    | "\<not> closed w 0" "snd (request_evaluation env w (request_cwd cfg rq) (ms_grants st') (rq_access rq)) \<and> closed w 1"
    | "\<not> closed w 0" "\<not> (snd (request_evaluation env w (request_cwd cfg rq) (ms_grants st') (rq_access rq)) \<and> closed w 1)"
    by blast
  then show thesis
  proof cases
    case 1
    then show thesis using gone [of st 0] by (simp add: handle_request_def Let_def)
  next
    case 2
    then show thesis using gone [of st' 1] by (simp add: handle_request_def Let_def st'_def)
  next
    case alive: 3
    obtain route c denials where stage: "auto_stage env st' w f = (route, c, denials)"
      by (cases "auto_stage env st' w f") auto
    have handle: "handle_request env cfg w rq st =
       (case early_answer env cfg st' f of
          Some a \<Rightarrow> settle env cfg st' w rq NotClassified (ms_consecutive st, ms_total st) 1 a
        | None \<Rightarrow>
            (case route of
               AutoAnswers a \<Rightarrow> settle env cfg st' w rq c denials 2 a
             | AutoGone \<Rightarrow> settle env cfg st' w rq c denials 2 requester_gone
             | _ \<Rightarrow>
                 (let forced = (case route of AutoForces r \<Rightarrow> Some r | _ \<Rightarrow> None) in
                  case late_answer env cfg st' w f forced of
                    Some a \<Rightarrow> settle env cfg st' w rq c denials 2 a
                  | None \<Rightarrow> prompt_stage env cfg st' w rq f forced c)))"
      using alive stage unfolding handle_request_def Let_def st'_def [symmetric] f_def [symmetric]
      by (cases "early_answer env cfg st' f") auto
    show thesis
    proof (cases "early_answer env cfg st' f")
      case (Some a)
      then show thesis using handle by (intro early) simp_all
    next
      case None
      show thesis
      proof (cases route)
        case (AutoAnswers a)
        then show thesis using handle stage None by (intro auto) simp_all
      next
        case AutoGone
        then have "closed w 2"
          using stage by (auto simp: auto_stage_def verdict_route_def Let_def split: if_splits auto_fast_path.splits prod.splits
              classifier_verdict.splits)
        then show thesis using handle stage None AutoGone by (intro abandoned) simp_all
      next
        case (AutoForces r)
        then show thesis
          using handle stage None late [of "Some r"] prompt [of "Some r"]
          by (cases "late_answer env cfg st' w f (Some r)") auto
      next
        case AutoPasses
        then show thesis
          using handle stage None late [of None] prompt [of None]
          by (cases "late_answer env cfg st' w f None") auto
      qed
    qed
  qed
qed

subsection \<open>What every reachable state keeps\<close>

definition manager_wf :: "'pat manager_config \<Rightarrow> manager_state \<Rightarrow> bool" where
  "manager_wf cfg st \<longleftrightarrow>
     \<not> (ms_yolo st \<and> ms_auto st) \<and> (cfg_pin cfg \<noteq> None \<longrightarrow> \<not> ms_yolo st)
     \<and> ms_consecutive st \<le> ms_total st \<and> ms_consecutive st \<le> auto_deny_consecutive_limit
     \<and> ms_total st \<le> auto_deny_total_limit
     \<and> length (ms_recorded st) \<le> max_recorded_permission_decisions
     \<and> edit_policy_of (ms_grants st) \<noteq> EditAllow"

lemma verdict_route_counters:
  assumes "verdict_route outcome (c, t) = (route, c', t')"
  shows "c \<le> t \<Longrightarrow> c' \<le> t'" "c \<le> auto_deny_consecutive_limit \<Longrightarrow> c' \<le> auto_deny_consecutive_limit"
    "t \<le> auto_deny_total_limit \<Longrightarrow> t' \<le> auto_deny_total_limit"
  using assms by (auto simp: verdict_route_def Let_def split: classifier_verdict.splits if_splits)

lemma auto_stage_counters:
  assumes "auto_stage env st w f = (route, c, d)"
  shows "d = (ms_consecutive st, ms_total st)
    \<or> (\<exists>outcome. verdict_route outcome (ms_consecutive st, ms_total st) = (route, d))"
  using assms unfolding auto_stage_def
  by (auto simp: Let_def split: if_splits auto_fast_path.splits prod.splits)

lemma length_record_decision:
  "length recorded \<le> max_recorded_permission_decisions
   \<Longrightarrow> length (record_decision env access approved recorded) \<le> max_recorded_permission_decisions"
  by (auto simp: record_decision_def Let_def split: option.split)

lemma persist_edit_policy [simp]:
  "edit_policy_of (persist_bash_always_allow parse g cmd label) = edit_policy_of g"
  by (rule persist_cases [of parse g cmd label]) (simp_all add: insert_command_def)

lemmas answer_defs = bash_answer_def other_answer_def domain_answer_def mcp_server_answer_def reject_domain_answer_def
  unchanged_def granted_def insert_mcp_tool_def

lemma answer_edit_policy: "edit_policy_of (pd_grants (answer_prompt env access outcome g)) = edit_policy_of g"
  by (cases outcome; cases access)
    (auto simp: answer_prompt_def answer_defs Let_def split: option.split)

lemma prompt_stage_wf:
  assumes "manager_wf cfg st"
  shows "manager_wf cfg (hd_state (prompt_stage env cfg st w rq f forced c))"
  using assms length_record_decision [of "ms_recorded st" env "rq_access rq"]
  by (auto simp: prompt_stage_def Let_def manager_wf_def answer_edit_policy)

lemma settle_wf:
  assumes "manager_wf cfg st" "fst d \<le> snd d" "fst d \<le> auto_deny_consecutive_limit" "snd d \<le> auto_deny_total_limit"
  shows "manager_wf cfg (hd_state (settle env cfg st w rq c d stage a))"
  using assms by (auto simp: manager_wf_def)

lemma reload_wf: "manager_wf cfg (reload_grants w access st) \<longleftrightarrow> manager_wf cfg st"
  by (simp add: manager_wf_def)

lemma auto_stage_wf:
  assumes "manager_wf cfg st" "auto_stage env st w f = (route, c, d)"
  shows "fst d \<le> snd d" "fst d \<le> auto_deny_consecutive_limit" "snd d \<le> auto_deny_total_limit"
proof -
  have "fst d \<le> snd d \<and> fst d \<le> auto_deny_consecutive_limit \<and> snd d \<le> auto_deny_total_limit"
    using auto_stage_counters [OF assms(2)]
  proof
    assume "\<exists>outcome. verdict_route outcome (ms_consecutive st, ms_total st) = (route, d)"
    then obtain outcome where "verdict_route outcome (ms_consecutive st, ms_total st) = (route, fst d, snd d)" by auto
    then show ?thesis using verdict_route_counters assms(1) unfolding manager_wf_def by metis
  qed (use assms(1) in \<open>simp add: manager_wf_def\<close>)
  then show "fst d \<le> snd d" "fst d \<le> auto_deny_consecutive_limit" "snd d \<le> auto_deny_total_limit" by auto
qed

lemma handle_wf:
  assumes "manager_wf cfg st"
  shows "manager_wf cfg (hd_state (handle_request env cfg w rq st))"
proof -
  let ?st = "reload_grants w (rq_access rq) st"
  have wf: "manager_wf cfg ?st" using assms by (simp add: reload_wf)
  have counters: "ms_consecutive st \<le> ms_total st" "ms_consecutive st \<le> auto_deny_consecutive_limit"
      "ms_total st \<le> auto_deny_total_limit"
    using assms by (simp_all add: manager_wf_def)
  show ?thesis
  proof (cases rule: handle_cases [of st w rq env cfg])
    case (gone s stage)
    then show ?thesis using settle_wf counters assms wf by auto
  next
    case (early a)
    then show ?thesis using settle_wf [OF wf, of "(ms_consecutive st, ms_total st)"] counters by simp
  next
    case (auto a c d)
    then show ?thesis using settle_wf [OF wf auto_stage_wf [OF wf auto(2)]] by simp
  next
    case (abandoned c d)
    then show ?thesis using settle_wf [OF wf auto_stage_wf [OF wf abandoned(2)]] by simp
  next
    case (late a c d forced)
    then show ?thesis using settle_wf [OF wf auto_stage_wf [OF wf late(3)]] by simp
  next
    case (prompt c d forced)
    then show ?thesis using prompt_stage_wf [OF wf] by simp
  qed
qed

lemma step_wf: "manager_wf cfg st \<Longrightarrow> manager_wf cfg (fst (manager_step env cfg cmd st))"
proof (cases cmd)
  case (Request w rq)
  assume "manager_wf cfg st"
  then show ?thesis using Request handle_wf by (simp add: Let_def)
qed (auto simp: manager_wf_def set_yolo_def set_auto_def clamp_yolo_def Let_def default_permission_state_def
    max_recorded_permission_decisions_def)

text \<open>The event of a step, if it handles a request, and the run one step at a time.\<close>

definition step_event :: "'pat manager_env \<Rightarrow> 'pat manager_config \<Rightarrow> manager_command \<Rightarrow> manager_state \<Rightarrow> permission_event list" where
  "step_event env cfg cmd st =
     (case cmd of Request w rq \<Rightarrow> [hd_event (handle_request env cfg w rq st)] | _ \<Rightarrow> [])"

lemma run_Cons:
  "cmd \<noteq> Shutdown \<Longrightarrow>
     manager_run env cfg (cmd # cmds) st =
       (let rest = manager_run env cfg cmds (fst (manager_step env cfg cmd st))
        in (fst rest, step_event env cfg cmd st @ snd rest))"
  by (cases cmd) (simp_all add: step_event_def Let_def split: prod.split)

lemma run_wf: "manager_wf cfg st \<Longrightarrow> manager_wf cfg (fst (manager_run env cfg cmds st))"
proof (induction cmds arbitrary: st)
  case (Cons cmd cmds)
  then show ?case
    using Cons.IH [OF step_wf [OF Cons.prems]] by (cases "cmd = Shutdown") (simp_all add: run_Cons Let_def)
qed simp

lemma spawn_wf: "manager_wf cfg (spawn_state env cfg initial_yolo loaded)"
  by (auto simp: manager_wf_def spawn_state_def Let_def clamp_yolo_def migrate_edit_policy_def
      auto_deny_consecutive_limit_def)

text \<open>C13: From its start and through any sequence of commands, whatever the requesters, the users, the models
and the store do, the manager is never in both modes at once, never always-approves under the managed pin,
keeps its counters of denials and its record of decisions within their limits, and has no persisted permission
to edit.\<close>

theorem manager_invariant:
  "manager_wf cfg (fst (manager_run env cfg cmds (spawn_state env cfg initial_yolo loaded)))"
  by (rule run_wf [OF spawn_wf])


subsection \<open>Denials in auto mode\<close>

text \<open>
  An event that ends a series of denials: an answer of the user, and for the series in a row also an approval
  of the classifier.
\<close>

definition answered :: "permission_event \<Rightarrow> bool" where
  "answered e \<longleftrightarrow>
     ev_user_prompted e \<and> ev_prompt_outcome e \<noteq> Some ''error'' \<and> ev_decision_reason e \<noteq> Some ''requester_gone''"

definition auto_denied :: "permission_event \<Rightarrow> bool" where
  "auto_denied e \<longleftrightarrow> ev_decision_reason e = Some ''auto_classifier_deny''"

definition auto_approved :: "permission_event \<Rightarrow> bool" where
  "auto_approved e \<longleftrightarrow> ev_decision_reason e = Some ''auto_classifier_allow''"

definition count_denials :: "(permission_event \<Rightarrow> bool) \<Rightarrow> permission_event list \<Rightarrow> nat \<Rightarrow> nat" where
  "count_denials ends events n = foldl (\<lambda>n e. if ends e then 0 else if auto_denied e then n + 1 else n) n events"

lemma count_denials_simps [simp]:
  "count_denials ends [] n = n"
  "count_denials ends (e # es) n = count_denials ends es (if ends e then 0 else if auto_denied e then n + 1 else n)"
  by (simp_all add: count_denials_def)

lemma count_denials_append: "count_denials ends (es @ fs) n = count_denials ends fs (count_denials ends es n)"
  by (simp add: count_denials_def)

lemma event_fields [simp]:
  "ev_user_prompted (make_event env cfg st w rq c d a) = an_user_prompted a"
  "ev_prompt_outcome (make_event env cfg st w rq c d a) = an_outcome a"
  "ev_decision_reason (make_event env cfg st w rq c d a) = Some (an_reason a)"
  by (simp_all add: make_event_def)

lemma silently_fields [simp]:
  "an_decision (silently d auto reason) = d" "an_user_prompted (silently d auto reason) = False"
  "an_outcome (silently d auto reason) = None" "an_reason (silently d auto reason) = reason"
  by (simp_all add: silently_def)

text \<open>The reasons that the stages give; only the classifier's two matter to the counters.\<close>

definition classifier_reason_str :: "rstr \<Rightarrow> bool" where
  "classifier_reason_str r \<longleftrightarrow> r = ''auto_classifier_deny'' \<or> r = ''auto_classifier_allow''"

lemma other_reasons [simp]:
  "\<not> classifier_reason_str ''policy_deny''" "\<not> classifier_reason_str ''yolo''"
  "\<not> classifier_reason_str ''policy_allow''" "\<not> classifier_reason_str ''sandbox_auto''"
  "\<not> classifier_reason_str ''prompt_deny''" "\<not> classifier_reason_str ''requester_gone''"
  "\<not> classifier_reason_str ''auto_fast_path''" "\<not> classifier_reason_str ''session_deny''"
  "\<not> classifier_reason_str ''session_grant''" "\<not> classifier_reason_str ''safe_command''"
  "\<not> classifier_reason_str ''static_allowlist''" "\<not> classifier_reason_str ''persisted_grant''"
  "\<not> classifier_reason_str ''auto_denial_limit''" "\<not> classifier_reason_str ''auto_classifier_timeout''"
  "\<not> classifier_reason_str ''auto_classifier_unavailable''" "\<not> classifier_reason_str ''needs_user''"
  "\<not> classifier_reason_str ''policy_ask''" "\<not> classifier_reason_str ''bash_command_gate_ask''"
  "\<not> classifier_reason_str ''shell_file_gate_ask''" "\<not> classifier_reason_str ''opaque_shell''"
  "\<not> classifier_reason_str ''bash_request_floor''"
  by code_simp+

lemma bash_grant_reason: "bash_grant_pre_decision cmd e g pin opts = Some (d, r) \<Longrightarrow> \<not> classifier_reason_str r"
  unfolding bash_grant_pre_decision_def grant_if_def by (auto split: segment_evaluation.splits if_splits)

lemma session_grant_reason:
  "session_grant_pre_decision x parse access e g edits m honor pin = Some (d, r) \<Longrightarrow> \<not> classifier_reason_str r"
  unfolding session_grant_pre_decision_def
  by (auto simp: bind_eq_Some_conv split: access_kind.splits option.splits if_split_asm decision.splits
      dest: bash_grant_reason)

lemma pre_decision_reason: "pre_decision env cfg st f forced = Some (d, r) \<Longrightarrow> \<not> classifier_reason_str r"
  unfolding pre_decision_def bash_pre_decision_def web_fetch_pre_decision_def Let_def
  by (auto simp: bind_eq_Some_conv split: access_kind.splits option.splits if_split_asm decision.splits
      dest: bash_grant_reason)

text \<open>The answers given without a prompt.\<close>

lemma early_cases:
  assumes "early_answer env cfg st f = Some a"
  obtains (deny) reason where "policy_decision (rf_preflight f) = Some (DReject reason)"
      "a = silently (DPolicyDeny reason) False ''policy_deny''"
  | (yolo) "\<not> (\<exists>r. policy_decision (rf_preflight f) = Some (DReject r))" "ms_yolo st"
      "\<not> shell_forced_prompt (rf_preflight f)" "a = silently DAllow True ''yolo''"
  | (grant) d r where "\<not> (\<exists>r. policy_decision (rf_preflight f) = Some (DReject r))" "unforced f"
      "session_grant_pre_decision (env_ext env) (lib_parse_url (env_lib env)) (rf_access f) (rf_evaluation f)
         (ms_grants st) (ms_session_edits st) (cfg_matcher cfg) (\<not> (ms_auto st \<and> cfg_default_allowlist cfg)) (cfg_pin cfg)
       = Some (d, r)" "a = silently d True r"
  | (policy) "policy_decision (rf_preflight f) = Some DAllow" "unforced f" "ms_auto st"
      "bash_assessment_is_clear (rf_evaluation f) \<or> \<not> bash_request_floor_requires_prompt (rf_evaluation f)"
      "a = silently DAllow True ''policy_allow''"
proof (cases "\<exists>r. policy_decision (rf_preflight f) = Some (DReject r)")
  case True
  then show thesis using assms deny by (auto simp: early_answer_def)
next
  case False
  then have rest: "mode_answer env cfg st f = Some a"
    using assms unfolding early_answer_def by (auto split: option.split_asm decision.split_asm)
  let ?grants = "session_grant_pre_decision (env_ext env) (lib_parse_url (env_lib env)) (rf_access f) (rf_evaluation f)
         (ms_grants st) (ms_session_edits st) (cfg_matcher cfg) (\<not> (ms_auto st \<and> cfg_default_allowlist cfg)) (cfg_pin cfg)"
  show thesis
  proof (cases "ms_yolo st \<and> \<not> shell_forced_prompt (rf_preflight f)")
    case True
    then show thesis using rest False yolo by (simp add: mode_answer_def)
  next
    case ask: False
    show thesis
    proof (cases "if unforced f then ?grants else None")
      case None
      then show thesis using rest ask policy by (auto simp: mode_answer_def split: if_split_asm)
    next
      case (Some g)
      then show thesis using rest ask False grant by (cases g) (simp add: mode_answer_def split: if_split_asm)
    qed
  qed
qed

lemma late_cases:
  assumes "late_answer env cfg st w f forced = Some a"
  obtains (sandbox) cmd where "rf_access f = AccessBash cmd" "\<not> bash_request_floor_requires_prompt (rf_evaluation f)"
      "\<not> policy_forced_prompt (rf_preflight f)" "forced = None" "a = silently DAllow True ''sandbox_auto''"
  | (policy) "policy_allows_late env cfg f forced = Some a" "an_reason a = ''policy_allow''" "an_user_prompted a = False"
  | (pre) d r where "pre_decision env cfg st f (forced \<noteq> None) = Some (d, r)"
      "\<not> neutralized f forced (Some (d, r))" "a = silently d True r"
  | (denied) "a = silently (DPolicyDeny ''denied by prompt policy (tool not pre-approved)'') False ''prompt_deny''"
proof -
  let ?sandbox = "is_bash (rf_access f) \<and> sandbox_may_auto_allow_bash (rf_evaluation f) (w_sandbox w)
      \<and> \<not> policy_forced_prompt (rf_preflight f) \<and> forced = None"
  show thesis
  proof (cases ?sandbox)
    case True
    then obtain cmd where "rf_access f = AccessBash cmd" by (auto simp: is_bash_def split: access_kind.splits)
    then show thesis using True assms sandbox by (simp add: late_answer_def sandbox_may_auto_allow_bash_def)
  next
    case False
    show thesis
    proof (cases "policy_allows_late env cfg f forced")
      case (Some b)
      then have "b = a" using assms False by (auto simp: late_answer_def)
      moreover have "an_reason b = ''policy_allow'' \<and> an_user_prompted b = False"
        using Some unfolding policy_allows_late_def by (auto split: option.split_asm decision.split_asm if_split_asm)
      ultimately show thesis using Some policy by blast
    next
      case None
      then have "settled_answer env cfg st f forced = Some a"
        using assms False by (auto simp: late_answer_def)
      then show thesis
        using pre denied unfolding settled_answer_def Let_def
        by (cases "pre_decision env cfg st f (forced \<noteq> None)") (auto split: if_split_asm)
    qed
  qed
qed

lemma early_silent:
  "early_answer env cfg st f = Some a \<Longrightarrow> an_user_prompted a = False \<and> \<not> classifier_reason_str (an_reason a)"
  by (erule early_cases) (simp_all add: session_grant_reason pre_decision_reason)

lemma late_silent:
  "late_answer env cfg st w f forced = Some a \<Longrightarrow> an_user_prompted a = False \<and> \<not> classifier_reason_str (an_reason a)"
  by (erule late_cases) (simp_all add: session_grant_reason pre_decision_reason)

text \<open>The reasons of a prompt are none of the classifier's answers, nor that the requester is gone.\<close>

definition prompt_reason_str :: "rstr \<Rightarrow> bool" where
  "prompt_reason_str r \<longleftrightarrow> \<not> classifier_reason_str r \<and> r \<noteq> ''requester_gone''"

lemma prompt_reasons [simp]:
  "prompt_reason_str ''auto_denial_limit''" "prompt_reason_str ''auto_classifier_timeout''"
  "prompt_reason_str ''auto_classifier_unavailable''" "prompt_reason_str ''needs_user''"
  "prompt_reason_str ''policy_ask''" "prompt_reason_str ''bash_command_gate_ask''"
  "prompt_reason_str ''shell_file_gate_ask''" "prompt_reason_str ''opaque_shell''"
  "prompt_reason_str ''bash_request_floor''"
  by code_simp+

lemma verdict_forces: "verdict_route outcome d = (AutoForces r, d') \<Longrightarrow> prompt_reason_str r \<and> d' = d"
  unfolding verdict_route_def Let_def by (auto split: classifier_verdict.splits if_split_asm prod.splits)

lemma auto_stage_forces:
  "auto_stage env st w f = (AutoForces r, c, d) \<Longrightarrow> prompt_reason_str r \<and> d = (ms_consecutive st, ms_total st)"
  unfolding auto_stage_def Let_def
  by (auto split: if_split_asm auto_fast_path.splits prod.splits dest: verdict_forces)

lemma verdict_passes: "verdict_route outcome d \<noteq> (AutoPasses, d')" "verdict_route outcome d \<noteq> (AutoGone, d')"
  unfolding verdict_route_def Let_def by (auto split: classifier_verdict.splits if_split_asm prod.splits)

lemma auto_stage_passes:
  assumes "auto_stage env st w f = (AutoPasses, c, d) \<or> auto_stage env st w f = (AutoGone, c, d)"
  shows "d = (ms_consecutive st, ms_total st)"
  using assms verdict_passes unfolding auto_stage_def Let_def
  by (auto split: if_split_asm auto_fast_path.splits prod.splits)

lemma trigger_reason:
  "(\<And>r. forced = Some r \<Longrightarrow> prompt_reason_str r) \<Longrightarrow> prompt_reason_str (prompt_trigger_of f forced)"
  unfolding prompt_trigger_of_def prompt_trigger_def Let_def by (auto split: option.splits if_split_asm)

lemma verdict_answers:
  assumes "verdict_route outcome (c, t) = (AutoAnswers a, d)"
  shows "an_user_prompted a = False"
    "an_reason a = ''auto_classifier_allow'' \<and> d = (0, t) \<and> an_decision a = DAllow
       \<and> (\<exists>r. outcome = Some r \<and> outcome_verdict r = VAllow)
     \<or> an_reason a = ''auto_classifier_deny'' \<and> d = (c + 1, t + 1) \<and> (\<exists>r. an_decision a = DPolicyDeny r)"
  using assms unfolding verdict_route_def Let_def
  by (auto split: classifier_verdict.splits if_split_asm prod.splits option.splits)

lemma auto_stage_answers:
  assumes "auto_stage env st w f = (AutoAnswers a, c, d)"
  shows "an_user_prompted a = False"
    "a = silently DAllow True ''auto_fast_path'' \<and> d = (ms_consecutive st, ms_total st)
     \<or> an_reason a = ''auto_classifier_allow'' \<and> d = (0, ms_total st) \<and> an_decision a = DAllow
     \<or> an_reason a = ''auto_classifier_deny'' \<and> d = (ms_consecutive st + 1, ms_total st + 1)"
proof -
  have cases: "a = silently DAllow True ''auto_fast_path'' \<and> d = (ms_consecutive st, ms_total st)
    \<or> (\<exists>outcome. verdict_route outcome (ms_consecutive st, ms_total st) = (AutoAnswers a, d))"
    using assms unfolding auto_stage_def Let_def
    by (auto split: if_split_asm auto_fast_path.splits prod.splits)
  then show "an_user_prompted a = False"
    using verdict_answers(1) by (metis silently_fields(2) surj_pair)
  show "a = silently DAllow True ''auto_fast_path'' \<and> d = (ms_consecutive st, ms_total st)
     \<or> an_reason a = ''auto_classifier_allow'' \<and> d = (0, ms_total st) \<and> an_decision a = DAllow
     \<or> an_reason a = ''auto_classifier_deny'' \<and> d = (ms_consecutive st + 1, ms_total st + 1)"
    using cases verdict_answers(2) by blast
qed

text \<open>How one event moves the counters.\<close>

definition next_total :: "permission_event \<Rightarrow> nat \<Rightarrow> nat" where
  "next_total e n = (if answered e then 0 else if auto_denied e then n + 1 else n)"

definition next_consecutive :: "permission_event \<Rightarrow> nat \<Rightarrow> nat" where
  "next_consecutive e n = (if answered e \<or> auto_approved e then 0 else if auto_denied e then n + 1 else n)"

definition counted :: "manager_state \<Rightarrow> handled \<Rightarrow> bool" where
  "counted st h \<longleftrightarrow>
     ms_total (hd_state h) = next_total (hd_event h) (ms_total st)
     \<and> ms_consecutive (hd_state h) = next_consecutive (hd_event h) (ms_consecutive st)"

lemma counted_silent:
  assumes "an_user_prompted a = False" "\<not> classifier_reason_str (an_reason a)"
    "ms_consecutive s = ms_consecutive st" "ms_total s = ms_total st"
  shows "counted st (settle env cfg s w rq c (ms_consecutive st, ms_total st) stage a)"
  using assms
  by (simp add: counted_def next_total_def next_consecutive_def answered_def auto_denied_def auto_approved_def
      classifier_reason_str_def)

lemma counted_auto:
  assumes "auto_stage env s w f = (AutoAnswers a, c, d)"
    "ms_consecutive s = ms_consecutive st" "ms_total s = ms_total st"
  shows "counted st (settle env cfg s w rq c d stage a)"
proof -
  have distinct: "''auto_classifier_deny'' \<noteq> ''auto_classifier_allow''" by code_simp
  show ?thesis
    using auto_stage_answers(2) [OF assms(1)]
  proof (elim disjE conjE)
    assume "a = silently DAllow True ''auto_fast_path''" "d = (ms_consecutive s, ms_total s)"
    then show ?thesis using counted_silent [of a s st] assms(2,3) by simp
  qed (use auto_stage_answers(1) [OF assms(1)] assms(2,3) distinct in
      \<open>simp_all add: counted_def next_total_def next_consecutive_def answered_def auto_denied_def auto_approved_def
        del: char_of_eq_iff list.inject\<close>)
qed

lemma counted_prompt:
  assumes "\<And>r. forced = Some r \<Longrightarrow> prompt_reason_str r"
  shows "counted st (prompt_stage env cfg st w rq f forced c)"
proof (cases "closed w 3")
  case True
  then show ?thesis
    using counted_silent [of requester_gone st st] by (simp add: prompt_stage_def Let_def requester_gone_def)
next
  case False
  have trigger: "prompt_reason_str (prompt_trigger_of f forced)" using trigger_reason assms by blast
  have gone: "\<not> classifier_reason_str ''requester_gone''" by simp
  obtain pd where pd_def: "pd = answer_prompt env (rq_access rq) (if closed w 4 then Cancelled
      else prompt_request (env_ext env) (env_lib env) (cfg_prompter cfg) (w_ask w) (rq_access rq)
             (rq_tool_call_id rq) (rf_protected f)) (ms_grants st)" by simp
  obtain left where left_def: "left \<longleftrightarrow> pd_decision pd = DCancelled \<and> closed w 5" by simp
  let ?h = "prompt_stage env cfg st w rq f forced c"
  have event: "ev_user_prompted (hd_event ?h)" "ev_prompt_outcome (hd_event ?h) = Some (wire_str (pd_kind pd))"
      "ev_decision_reason (hd_event ?h) = Some (if left then ''requester_gone'' else prompt_trigger_of f forced)"
    using False by (simp_all add: prompt_stage_def Let_def pd_def [symmetric] left_def)
  have state: "ms_total (hd_state ?h) = (if wire_str (pd_kind pd) \<noteq> ''error'' \<and> \<not> left then 0 else ms_total st)"
      "ms_consecutive (hd_state ?h) = (if wire_str (pd_kind pd) \<noteq> ''error'' \<and> \<not> left then 0 else ms_consecutive st)"
    using False by (simp_all add: prompt_stage_def Let_def pd_def [symmetric] left_def)
  have "answered (hd_event ?h) \<longleftrightarrow> wire_str (pd_kind pd) \<noteq> ''error'' \<and> \<not> left"
    unfolding answered_def event using trigger by (simp add: prompt_reason_str_def event(1) del: list.inject)
  moreover have "\<not> auto_denied (hd_event ?h)" "\<not> auto_approved (hd_event ?h)"
    unfolding auto_denied_def auto_approved_def event
    using trigger gone by (auto simp: prompt_reason_str_def classifier_reason_str_def simp del: list.inject)
  ultimately show ?thesis unfolding counted_def next_total_def next_consecutive_def state by simp
qed

lemma forced_stage:
  assumes "auto_stage env st w f = (case forced of Some r \<Rightarrow> AutoForces r | None \<Rightarrow> AutoPasses, c, d)"
  shows "d = (ms_consecutive st, ms_total st)" "forced = Some r \<Longrightarrow> prompt_reason_str r"
proof -
  have "d = (ms_consecutive st, ms_total st) \<and> (\<forall>r. forced = Some r \<longrightarrow> prompt_reason_str r)"
  proof (cases forced)
    case None
    then have "auto_stage env st w f = (AutoPasses, c, d)" using assms by simp
    from auto_stage_passes [OF disjI1, OF this] show ?thesis using None by simp
  next
    case (Some r)
    then have "auto_stage env st w f = (AutoForces r, c, d)" using assms by simp
    from auto_stage_forces [OF this] show ?thesis using Some by simp
  qed
  then show "d = (ms_consecutive st, ms_total st)" "forced = Some r \<Longrightarrow> prompt_reason_str r" by auto
qed

lemma counted_handle: "counted st (handle_request env cfg w rq st)"
proof -
  let ?st = "reload_grants w (rq_access rq) st"
  note silent = counted_silent [of _ ?st st, OF _ _ reload_fields(3,4)]
  show ?thesis
  proof (cases rule: handle_cases [of st w rq env cfg])
    case (gone s stage)
    then show ?thesis using counted_silent [of requester_gone s st] by (auto simp: requester_gone_def)
  next
    case (early a)
    show ?thesis unfolding early(2) by (rule silent) (use early_silent [OF early(1)] in simp_all)
  next
    case (auto a c d)
    then show ?thesis using counted_auto [OF auto(2)] by simp
  next
    case (abandoned c d)
    have "d = (ms_consecutive st, ms_total st)" using auto_stage_passes [OF disjI2, OF abandoned(2)] by simp
    then show ?thesis unfolding abandoned(3) by (simp only:) (rule silent, simp_all add: requester_gone_def)
  next
    case (late a c d forced)
    have "d = (ms_consecutive st, ms_total st)" using forced_stage(1) [OF late(3)] by simp
    then show ?thesis
      unfolding late(4) by (simp only:) (rule silent, use late_silent [OF late(2)] in simp_all)
  next
    case (prompt c d forced)
    then show ?thesis
      using counted_prompt [of forced ?st env cfg w rq "request_facts_of env cfg w rq ?st" c] forced_stage(2) [OF prompt(3)]
      by (simp add: counted_def)
  qed
qed

lemma counted_step:
  "ms_total (fst (manager_step env cfg cmd st))
     = foldl (\<lambda>n e. next_total e n) (ms_total st) (step_event env cfg cmd st)"
  "ms_consecutive (fst (manager_step env cfg cmd st))
     = foldl (\<lambda>n e. next_consecutive e n) (ms_consecutive st) (step_event env cfg cmd st)"
proof -
  have "ms_total (fst (manager_step env cfg cmd st))
        = foldl (\<lambda>n e. next_total e n) (ms_total st) (step_event env cfg cmd st)
      \<and> ms_consecutive (fst (manager_step env cfg cmd st))
        = foldl (\<lambda>n e. next_consecutive e n) (ms_consecutive st) (step_event env cfg cmd st)"
  proof (cases cmd)
    case (Request w rq)
    then show ?thesis using counted_handle [of st env cfg w rq] by (simp add: counted_def step_event_def Let_def)
  qed (simp_all add: step_event_def set_yolo_def set_auto_def Let_def)
  then show "ms_total (fst (manager_step env cfg cmd st))
        = foldl (\<lambda>n e. next_total e n) (ms_total st) (step_event env cfg cmd st)"
    "ms_consecutive (fst (manager_step env cfg cmd st))
        = foldl (\<lambda>n e. next_consecutive e n) (ms_consecutive st) (step_event env cfg cmd st)" by auto
qed

text \<open>The denials of the classifier since the user last answered, and those in a row.\<close>

definition denials_since_answer :: "permission_event list \<Rightarrow> nat" where
  "denials_since_answer events = foldl (\<lambda>n e. next_total e n) 0 events"

definition denials_in_a_row :: "permission_event list \<Rightarrow> nat" where
  "denials_in_a_row events = foldl (\<lambda>n e. next_consecutive e n) 0 events"

lemma counted_run:
  "ms_total (fst (manager_run env cfg cmds st)) = foldl (\<lambda>n e. next_total e n) (ms_total st) (snd (manager_run env cfg cmds st))
   \<and> ms_consecutive (fst (manager_run env cfg cmds st))
     = foldl (\<lambda>n e. next_consecutive e n) (ms_consecutive st) (snd (manager_run env cfg cmds st))"
proof (induction cmds arbitrary: st)
  case (Cons cmd cmds)
  then show ?case
    by (cases "cmd = Shutdown") (simp_all add: run_Cons Let_def counted_step)
qed simp

text \<open>C14: However often the classifier blocks, the user is reached: in every run there are never more than three
denials of the classifier in a row, and never more than twenty between two answers of the user.\<close>

theorem denials_reach_user:
  "denials_in_a_row (snd (manager_run env cfg cmds (spawn_state env cfg initial_yolo loaded))) \<le> 3
   \<and> denials_since_answer (snd (manager_run env cfg cmds (spawn_state env cfg initial_yolo loaded))) \<le> 20"
proof -
  let ?st = "spawn_state env cfg initial_yolo loaded"
  have "ms_total ?st = 0" "ms_consecutive ?st = 0" by (simp_all add: spawn_state_def Let_def)
  then show ?thesis
    using counted_run [of env cfg cmds ?st] run_wf [OF spawn_wf, of cfg env cmds env initial_yolo loaded]
    by (simp add: denials_since_answer_def denials_in_a_row_def manager_wf_def auto_deny_consecutive_limit_def
        auto_deny_total_limit_def)
qed

subsection \<open>The flags of the handles\<close>

datatype client_call =
    CallYolo bool
  | CallAuto bool
  | CallClassifier "classifier option"
  | CallClassifierWithQuery classifier bool
  | CallWired bool
  | CallSend manager_command
  | TakeNext

text \<open>A caller may send every command but the two that set modes, for which there are calls of their own.\<close>

definition sets_mode :: "manager_command \<Rightarrow> bool" where
  "sets_mode cmd = (case cmd of SetYoloMode _ \<Rightarrow> True | SetAutoMode _ \<Rightarrow> True | _ \<Rightarrow> False)"

fun system_step :: "'pat manager_env \<Rightarrow> 'pat manager_config \<Rightarrow> client_call \<Rightarrow> manager_system \<Rightarrow> manager_system" where
  "system_step env cfg (CallYolo enabled) s = set_yolo_mode cfg enabled s"
| "system_step env cfg (CallAuto enabled) s = set_auto_mode enabled s"
| "system_step env cfg (CallClassifier c) s = set_classifier c s"
| "system_step env cfg (CallClassifierWithQuery c q) s = set_classifier_with_side_query c q s"
| "system_step env cfg (CallWired wired) s = set_llm_side_query_wired wired s"
| "system_step env cfg (CallSend cmd) s = (if sets_mode cmd then s else send_command cmd s)"
| "system_step env cfg TakeNext s = take_command env cfg s"

definition writes_yolo :: "manager_command \<Rightarrow> bool" where
  "writes_yolo cmd = (case cmd of SetYoloMode _ \<Rightarrow> True | SetAutoMode enabled \<Rightarrow> enabled | _ \<Rightarrow> False)"

definition writes_auto :: "'pat manager_config \<Rightarrow> manager_command \<Rightarrow> bool" where
  "writes_auto cfg cmd =
     (case cmd of SetYoloMode enabled \<Rightarrow> clamp_yolo enabled (cfg_pin cfg) | SetAutoMode _ \<Rightarrow> True | _ \<Rightarrow> False)"

text \<open>A flag agrees with the mode unless a command that will write it is still in the queue.\<close>

definition flags_follow :: "'pat manager_config \<Rightarrow> manager_system \<Rightarrow> bool" where
  "flags_follow cfg s \<longleftrightarrow>
     (list_ex writes_yolo (sy_queue s) \<or> sy_yolo s = ms_yolo (sy_state s))
     \<and> (list_ex (writes_auto cfg) (sy_queue s) \<or> sy_auto s = ms_auto (sy_state s))"

lemma handle_modes:
  "ms_yolo (hd_state (handle_request env cfg w rq st)) = ms_yolo st"
  "ms_auto (hd_state (handle_request env cfg w rq st)) = ms_auto st"
proof -
  have prompt: "ms_yolo (hd_state (prompt_stage env cfg s w rq f forced c)) = ms_yolo s
      \<and> ms_auto (hd_state (prompt_stage env cfg s w rq f forced c)) = ms_auto s" for s f forced c
    by (simp add: prompt_stage_def Let_def)
  have "ms_yolo (hd_state (handle_request env cfg w rq st)) = ms_yolo st
      \<and> ms_auto (hd_state (handle_request env cfg w rq st)) = ms_auto st"
    by (cases rule: handle_cases [of st w rq env cfg]) (auto simp: prompt)
  then show "ms_yolo (hd_state (handle_request env cfg w rq st)) = ms_yolo st"
    "ms_auto (hd_state (handle_request env cfg w rq st)) = ms_auto st" by auto
qed

lemma take_follows:
  assumes "flags_follow cfg s"
  shows "flags_follow cfg (take_command env cfg s)"
proof (cases "sy_queue s")
  case Nil
  then show ?thesis using assms by (simp add: take_command_def)
next
  case (Cons cmd cmds)
  then show ?thesis
    using assms
    by (cases cmd)
      (auto simp: take_command_def store_flags_def flags_follow_def writes_yolo_def writes_auto_def set_yolo_def
        set_auto_def Let_def handle_modes)
qed

lemma system_follows: "flags_follow cfg s \<Longrightarrow> flags_follow cfg (system_step env cfg call s)"
  by (cases call)
    (auto simp: take_follows, auto simp: flags_follow_def set_yolo_mode_def set_auto_mode_def set_classifier_def
      set_classifier_with_side_query_def set_llm_side_query_wired_def send_command_def writes_yolo_def
      writes_auto_def sets_mode_def Let_def)

text \<open>C15: The flags that callers read settle: after any interleaving of calls on shared handles with the work of
the actor, once the queue holds no command that sets a mode, the flags are the modes of the actor.\<close>

theorem flags_settle:
  assumes "\<not> list_ex sets_mode (sy_queue s)"
    "s = fold (system_step env cfg) calls (spawn_system (spawn_state env cfg initial_yolo loaded))"
  shows "(sy_yolo s, sy_auto s) = (ms_yolo (sy_state s), ms_auto (sy_state s))"
proof -
  have "flags_follow cfg (spawn_system (spawn_state env cfg initial_yolo loaded))"
    by (simp add: flags_follow_def spawn_system_def)
  then have "flags_follow cfg (fold (system_step env cfg) calls (spawn_system (spawn_state env cfg initial_yolo loaded)))"
    by (induction calls rule: rev_induct) (simp_all add: system_follows)
  moreover have "\<not> list_ex writes_yolo (sy_queue s)" "\<not> list_ex (writes_auto cfg) (sy_queue s)"
    using assms(1) by (auto simp: list_ex_iff sets_mode_def writes_yolo_def writes_auto_def split: manager_command.splits)
  ultimately show ?thesis using assms(2) by (simp add: flags_follow_def)
qed

theorem flags_settle_witness:
  "\<forall>(env :: unit manager_env) cfg b loaded.
     (let s = fold (system_step env cfg) [CallAuto True, TakeNext] (spawn_system (spawn_state env cfg b loaded))
      in (sy_yolo s, sy_auto s) = (ms_yolo (sy_state s), ms_auto (sy_state s)) \<and> sy_auto s)"
proof (intro allI)
  fix env :: "unit manager_env" and cfg b loaded
  have calls: "sy_queue (fold (system_step env cfg) [CallAuto True, TakeNext] (spawn_system (spawn_state env cfg b loaded))) = []"
    "sy_auto (fold (system_step env cfg) [CallAuto True, TakeNext] (spawn_system (spawn_state env cfg b loaded)))"
    by (simp_all add: spawn_system_def set_auto_mode_def send_command_def take_command_def store_flags_def)
  then have "\<not> list_ex sets_mode
      (sy_queue (fold (system_step env cfg) [CallAuto True, TakeNext] (spawn_system (spawn_state env cfg b loaded))))"
    by (simp only: calls(1)) simp
  from flags_settle [OF this refl] calls(2)
  show "let s = fold (system_step env cfg) [CallAuto True, TakeNext] (spawn_system (spawn_state env cfg b loaded))
      in (sy_yolo s, sy_auto s) = (ms_yolo (sy_state s), ms_auto (sy_state s)) \<and> sy_auto s"
    unfolding Let_def by blast
qed

end
