(* ===== verification/ActorConsent.thy ===== *)
theory ActorConsent
  imports ActorSafety
begin

section \<open>Who consents to what the permission manager allows\<close>

text \<open>
  Properties of one request in any state of the actor: managed rejections bind in every mode, protected files,
  flagged scripts and questions of the rules need an answer of the user, and grants come from the store or
  from the answer to the prompt that names them.
\<close>

subsection \<open>How a request comes to be allowed\<close>

definition allowed :: "handled \<Rightarrow> bool" where
  "allowed h \<longleftrightarrow> map_option fst (hd_resolution h) = Some DAllow"

text \<open>The outcome of a prompt for a request, and whether it approves.\<close>

definition outcome_of :: "'pat manager_env \<Rightarrow> 'pat manager_config \<Rightarrow> request_world \<Rightarrow> permission_request \<Rightarrow> prompt_outcome" where
  "outcome_of env cfg w rq =
     prompt_request (env_ext env) (env_lib env) (cfg_prompter cfg) (w_ask w) (rq_access rq) (rq_tool_call_id rq)
       (protected_edit_of env cfg w rq)"

definition user_consents :: "'pat manager_env \<Rightarrow> 'pat manager_config \<Rightarrow> request_world \<Rightarrow> permission_request \<Rightarrow> handled \<Rightarrow> bool" where
  "user_consents env cfg w rq h \<longleftrightarrow> hd_prompted h \<and> prompt_outcome_allows (outcome_of env cfg w rq)"

lemma answer_allows: "pd_decision (answer_prompt env access outcome g) = DAllow \<longleftrightarrow> prompt_outcome_allows outcome"
  by (cases outcome; cases access)
    (auto simp: answer_prompt_def answer_defs prompt_outcome_allows_def Let_def split: option.split)

lemma allowed_settle: "allowed (settle env cfg st w rq c d stage a) \<Longrightarrow> an_decision a = DAllow"
  by (simp add: allowed_def settle_def Let_def split: if_split_asm)

lemma gone_not_allowed [simp]: "an_decision requester_gone \<noteq> DAllow"
  by (simp add: requester_gone_def)

lemma outcome_in_prompt:
  "rf_protected (request_facts_of env cfg w rq st) = protected_edit_of env cfg w rq"
  by (simp add: request_facts_of_def)

lemma allowed_prompt:
  assumes "allowed (prompt_stage env cfg st w rq f forced c)" "rf_protected f = protected_edit_of env cfg w rq"
  shows "user_consents env cfg w rq (prompt_stage env cfg st w rq f forced c)"
proof (cases "closed w 3 \<or> closed w 4 \<or> closed w 5")
  case True
  then show ?thesis
    using assms(1) answer_allows [of env "rq_access rq" Cancelled "ms_grants st"] allowed_settle
    by (auto simp: prompt_stage_def Let_def allowed_def prompt_outcome_allows_def settle_def requester_gone_def
        split: if_split_asm)
next
  case False
  then show ?thesis
    using assms answer_allows [of env "rq_access rq"]
    by (simp add: prompt_stage_def Let_def allowed_def user_consents_def outcome_of_def)
qed

lemma allowed_cases:
  fixes env cfg w rq st
  defines "st' \<equiv> reload_grants w (rq_access rq) st"
  defines "f \<equiv> request_facts_of env cfg w rq st'"
  assumes "allowed (handle_request env cfg w rq st)"
  obtains (early) a where "early_answer env cfg st' f = Some a" "an_decision a = DAllow"
  | (auto) a c d where "early_answer env cfg st' f = None" "auto_stage env st' w f = (AutoAnswers a, c, d)"
      "an_decision a = DAllow"
  | (late) a c d forced where "early_answer env cfg st' f = None" "late_answer env cfg st' w f forced = Some a"
      "auto_stage env st' w f = (case forced of Some r \<Rightarrow> AutoForces r | None \<Rightarrow> AutoPasses, c, d)"
      "an_decision a = DAllow"
  | (prompt) "user_consents env cfg w rq (handle_request env cfg w rq st)"
proof (cases rule: handle_cases [of st w rq env cfg])
  case (gone s stage)
  then show thesis using assms(3) allowed_settle gone_not_allowed by metis
next
  case (early a)
  then show thesis using assms(3) allowed_settle that(1) unfolding f_def st'_def by metis
next
  case (auto a c d)
  then show thesis using assms(3) allowed_settle that(2) unfolding f_def st'_def by metis
next
  case (abandoned c d)
  then show thesis using assms(3) allowed_settle gone_not_allowed by metis
next
  case (late a c d forced)
  then show thesis using assms(3) allowed_settle that(3) unfolding f_def st'_def by metis
next
  case (prompt c d forced)
  then show thesis using assms(3) allowed_prompt outcome_in_prompt that(4) by metis
qed

text \<open>The facts of a request, as the rest of the theory reads them.\<close>

lemma facts_fields [simp]:
  "rf_access (request_facts_of env cfg w rq st) = rq_access rq"
  "rf_protected (request_facts_of env cfg w rq st) = protected_edit_of env cfg w rq"
  "rf_preflight (request_facts_of env cfg w rq st) =
     evaluate_preflight (env_ext env) (w_fs w) (cfg_policy cfg) (rq_access rq) (request_cwd cfg rq) (ms_auto st)"
  "rf_evaluation (request_facts_of env cfg w rq st) =
     fst (request_evaluation env w (request_cwd cfg rq) (ms_grants st) (rq_access rq))"
  by (simp_all add: request_facts_of_def)

subsection \<open>Concrete requests\<close>

definition demo_env :: "rstr manager_env" where
  "demo_env =
     \<lparr>env_ext = literal_externals, env_lib = \<lparr>lib_parse_url = (\<lambda>_. None), lib_to_upper = id\<rparr>,
      env_json_parse = (\<lambda>_. None), env_json_text = (\<lambda>_. ''''), env_tilde = id, env_system_prompt = ''''\<rparr>"

definition demo_config :: "bool \<Rightarrow> permission_config option \<Rightarrow> rstr manager_config" where
  "demo_config remember c =
     spawn_config demo_env c [] [] None ''/w'' \<lparr>pr_client = HystersisPager, pr_remember = remember, pr_hub = None\<rparr>"

definition demo_state :: manager_state where
  "demo_state =
     \<lparr>ms_grants = default_permission_state, ms_yolo = False, ms_auto = False, ms_classifier = None,
      ms_consecutive = 0, ms_total = 0, ms_turns = [], ms_recorded = [], ms_instructions = None,
      ms_session_edits = False\<rparr>"

text \<open>A world in which nobody leaves and the user selects one row.\<close>

definition demo_world :: "rstr \<Rightarrow> request_world" where
  "demo_world row =
     \<lparr>w_closes = None, w_fresh = None, w_fs = plain_filesystem, w_home = None,
      w_git = \<lparr>git_discover = (\<lambda>_. NoRepository), git_open = (\<lambda>_. FileMissing), git_parse_bool = (\<lambda>_. None)\<rparr>,
      w_scan_returns = True, w_sandbox = False, w_ask = (\<lambda>_ _. AnswerSelected row None),
      w_timestamp = 0, w_latency_ms = 0, w_wait_ms = 0, w_in_flight = 0\<rparr>"

definition demo_request :: "json access_kind \<Rightarrow> permission_request" where
  "demo_request access =
     \<lparr>rq_access = access, rq_tool_call_id = ''call-1'', rq_path_context = None, rq_session = None,
      rq_subagent_type = None, rq_subagent_description = None\<rparr>"

subsection \<open>Managed rejections\<close>

lemma closed_mono: "closed w m \<Longrightarrow> m \<le> n \<Longrightarrow> closed w n"
  by (auto simp: closed_def split: option.splits)

lemma policy_not_policy_deny: "policy_decision g = Some (DPolicyDeny r) \<Longrightarrow> direct g = Some (DPolicyDeny r)"
  unfolding policy_decision_def
  by (cases "direct g"; cases "bash_command g"; cases "shell_file g")
    (auto simp: into_decision_def split: if_split_asm gate_decision.splits)

definition refused_by_policy :: "request_world \<Rightarrow> handled \<Rightarrow> bool" where
  "refused_by_policy w h \<longleftrightarrow>
     \<not> hd_prompted h \<and> hd_writes h = []
     \<and> (if closed w 1 then hd_resolution h = None
        else case hd_resolution h of Some (DPolicyDeny _, _) \<Rightarrow> True | _ \<Rightarrow> False)"

lemma refused_request:
  fixes env cfg w rq st
  defines "st' \<equiv> reload_grants w (rq_access rq) st"
  assumes "policy_decision (rf_preflight (request_facts_of env cfg w rq st')) = Some (DReject reason)"
  shows "refused_by_policy w (handle_request env cfg w rq st)"
proof -
  have early: "early_answer env cfg st' (request_facts_of env cfg w rq st')
      = Some (silently (DPolicyDeny reason) False ''policy_deny'')"
    using assms(2) by (simp add: early_answer_def)
  show ?thesis
  proof (cases rule: handle_cases [of st w rq env cfg])
    case (gone s stage)
    then show ?thesis using closed_mono by (simp add: settle_def Let_def refused_by_policy_def)
  next
    case (early a)
    then have "a = silently (DPolicyDeny reason) False ''policy_deny''"
      using \<open>early_answer env cfg st' _ = _\<close> unfolding st'_def by simp
    then show ?thesis using early(2) by (simp add: settle_def Let_def refused_by_policy_def)
  qed (use early in \<open>simp_all add: st'_def\<close>)
qed

lemma scan_rejects: "scan_rules x access cwd rs asked ok = Inl d \<Longrightarrow> \<exists>r. d = DReject r"
  by (induction x access cwd rs asked ok rule: scan_rules.induct) (auto split: if_split_asm rule_action.split_asm)

lemma rules_reject: "evaluate_with_cwd x p access cwd \<noteq> Some (DPolicyDeny r)"
  unfolding evaluate_with_cwd_def
  by (auto split: sum.split prod.split access_kind.split dest: scan_rejects)

lemma preflight_never_denies:
  "policy_decision (evaluate_preflight x fs p access cwd m) \<noteq> Some (DPolicyDeny r)"
proof
  assume "policy_decision (evaluate_preflight x fs p access cwd m) = Some (DPolicyDeny r)"
  then have "direct (evaluate_preflight x fs p access cwd m) = Some (DPolicyDeny r)" by (rule policy_not_policy_deny)
  then show False
    by (cases p) (simp_all add: rules_reject evaluate_preflight_def Let_def split: prod.split_asm)
qed

text \<open>C8: What the rules of the administrator reject stays rejected: in every mode, with every grant and every
state of the classifier, a request that a rule rejects, for itself, for a command its script hides or for a
file its script touches, is denied by policy without a prompt and stores nothing.\<close>

theorem managed_deny_binds:
  assumes "cfg_policy cfg = Some (compile_policy (env_ext env) config)"
    "rules_say (env_ext env) (w_fs w) config (request_cwd cfg rq) (rq_access rq) (DReject reason)"
  shows "refused_by_policy w (handle_request env cfg w rq st)"
proof -
  let ?st = "reload_grants w (rq_access rq) st"
  let ?g = "rf_preflight (request_facts_of env cfg w rq ?st)"
  have "refuses (policy_decision ?g)"
    using rules_say_binds(1) [OF assms(2) refl, of "ms_auto st"] assms(1) by (simp add: policy_refuses)
  moreover have "policy_decision ?g \<noteq> Some (DPolicyDeny r)" for r
    using preflight_never_denies by simp
  ultimately obtain r where "policy_decision ?g = Some (DReject r)"
    by (auto simp: refuses_def split: option.splits decision.splits)
  then show ?thesis by (rule refused_request)
qed

theorem managed_deny_binds_witness:
  "refused_by_policy (demo_world ''allow-once'')
     (handle_request demo_env (demo_config True (Some deny_rm)) (demo_world ''allow-once'')
        (demo_request (AccessBash ''rm'')) (demo_state\<lparr>ms_yolo := True\<rparr>))"
proof (rule managed_deny_binds)
  show "cfg_policy (demo_config True (Some deny_rm)) = Some (compile_policy (env_ext demo_env) deny_rm)"
    by (simp add: demo_config_def spawn_config_def)
  show "rules_say (env_ext demo_env) (w_fs (demo_world ''allow-once'')) deny_rm
      (request_cwd (demo_config True (Some deny_rm)) (demo_request (AccessBash ''rm'')))
      (rq_access (demo_request (AccessBash ''rm''))) (DReject (deny_reason (bash_rule RDeny ''rm'')))"
    by (rule rules_say.itself) code_simp
qed

subsection \<open>Protected files\<close>

text \<open>C10: Outside always-approve, an edit of a protected file is allowed only if the user was asked and said
yes: no rule, grant, earlier answer, sandbox or classifier stands in for the answer.\<close>

theorem protected_edit_is_prompted:
  assumes "protected_edit_of env cfg w rq \<noteq> None" "\<not> ms_yolo st"
    "allowed (handle_request env cfg w rq st)"
  shows "user_consents env cfg w rq (handle_request env cfg w rq st)"
proof -
  let ?st = "reload_grants w (rq_access rq) st"
  obtain path where edit: "rq_access rq = AccessEdit path"
    using assms(1) by (auto simp: protected_edit_of_def split: access_kind.splits)
  show ?thesis
  proof (cases rule: allowed_cases [OF assms(3)])
    case (1 a)
    from 1(1) show ?thesis
      by (cases rule: early_cases) (use 1(2) assms(1,2) in \<open>auto simp: unforced_def\<close>)
  next
    case (2 a c d)
    from 2(2) assms(1) have False
      by (simp add: auto_stage_def auto_mode_fast_path_def Let_def edit split: if_split_asm)
    then show ?thesis ..
  next
    case (3 a c d forced)
    from 3(2) show ?thesis
    proof (cases rule: late_cases)
      case policy
      then have False
        using 3(4) assms(1)
        by (auto simp: policy_allows_late_def split: option.split_asm decision.split_asm if_split_asm)
      then show ?thesis ..
    next
      case (pre d r)
      then have False
        using 3(4) assms(1) edit by (auto simp: pre_decision_def Let_def split: if_split_asm)
      then show ?thesis ..
    qed (use 3(4) edit in auto)
  next
    case 4
    then show ?thesis .
  qed
qed

theorem protected_edit_is_prompted_witness:
  "user_consents demo_env (demo_config True None) (demo_world ''allow-once'')
     (demo_request (AccessEdit ''/w/.ssh/config''))
     (handle_request demo_env (demo_config True None) (demo_world ''allow-once'')
        (demo_request (AccessEdit ''/w/.ssh/config'')) demo_state)"
  by (rule protected_edit_is_prompted) code_simp+

subsection \<open>Flagged scripts\<close>

lemma floor_blocks_grants:
  "bash_request_floor_requires_prompt (Some e) \<Longrightarrow> bash_grant_pre_decision cmd e g pin opts \<noteq> Some (DAllow, r)"
  by (auto simp: bash_grant_pre_decision_def split: segment_evaluation.splits)

lemma floor_not_clear: "bash_request_floor_requires_prompt e \<Longrightarrow> \<not> bash_assessment_is_clear e"
  by (auto simp: bash_request_floor_requires_prompt_def bash_assessment_is_clear_def constrains_broad_grant_def
      split: option.splits)

text \<open>An allow of auto mode for a script: a command that does nothing, or a verdict of the classifier.\<close>

definition auto_mode_consents ::
  "'pat manager_env \<Rightarrow> 'pat manager_config \<Rightarrow> request_world \<Rightarrow> permission_request \<Rightarrow> manager_state \<Rightarrow> rstr \<Rightarrow> bool" where
  "auto_mode_consents env cfg w rq st cmd \<longleftrightarrow>
     ms_auto st
     \<and> (trim cmd \<in> set [''true'', '':'', ''false'']
        \<or> (\<exists>outcome. classify_request env (reload_grants w (rq_access rq) st)
               (request_facts_of env cfg w rq (reload_grants w (rq_access rq) st)) = Some outcome
             \<and> outcome_verdict outcome = VAllow))"

definition evaluation_of ::
  "'pat manager_env \<Rightarrow> 'pat manager_config \<Rightarrow> request_world \<Rightarrow> permission_request \<Rightarrow> manager_state
   \<Rightarrow> bash_evaluation option" where
  "evaluation_of env cfg w rq st =
     fst (request_evaluation env w (request_cwd cfg rq) (ms_grants (reload_grants w (rq_access rq) st)) (rq_access rq))"

lemma verdict_allows:
  "verdict_route outcome d = (AutoAnswers a, d') \<Longrightarrow> an_decision a = DAllow
   \<Longrightarrow> \<exists>r. outcome = Some r \<and> outcome_verdict r = VAllow"
  unfolding verdict_route_def Let_def
  by (cases outcome) (auto split: classifier_verdict.split_asm if_split_asm prod.split_asm)

lemma auto_allows_bash:
  assumes "auto_stage env (reload_grants w (rq_access rq) st) w
      (request_facts_of env cfg w rq (reload_grants w (rq_access rq) st)) = (AutoAnswers a, c, d)"
    "an_decision a = DAllow" "rq_access rq = AccessBash cmd"
  shows "auto_mode_consents env cfg w rq st cmd"
proof -
  have tool: "\<not> is_auto_mode_allowlisted_tool_name (tool_name_for_access (AccessBash cmd))"
    unfolding tool_name_for_access_def by simp code_simp
  show ?thesis
    using assms tool
    by (auto simp: auto_stage_def auto_mode_consents_def Let_def auto_mode_fast_path_def
        is_auto_mode_allowlisted_access_def split: if_split_asm auto_fast_path.split_asm prod.split_asm
        dest: verdict_allows)
qed



subsection \<open>Questions of the rules\<close>

text \<open>The accesses for which a rule's question is put to the user; a search is never asked about, and an edit or a
fetch may be answered by the grants of the session.\<close>

definition put_to_user :: "json access_kind \<Rightarrow> bool" where
  "put_to_user access =
     (case access of
        AccessRead _ \<Rightarrow> True | AccessGrep _ _ \<Rightarrow> True | AccessBash _ \<Rightarrow> True | AccessMCP _ _ \<Rightarrow> True | _ \<Rightarrow> False)"

lemma rules_ask:
  fixes m :: bool
  assumes "rules_say x fs c cwd access DAsk"
  defines "g \<equiv> evaluate_preflight x fs (Some (compile_policy x c)) access cwd m"
  shows "(\<exists>r. policy_decision g = Some (DReject r)) \<or> policy_decision g = Some DAsk \<and> \<not> admits_auto_classifier g"
proof (cases "refuses (policy_decision g)")
  case True
  then show ?thesis
    using preflight_never_denies unfolding g_def refuses_def by (fastforce split: option.splits decision.splits)
next
  case False
  then have match: "direct g = Some DAsk \<or> bash_command g = Some AskRuleMatch \<or> shell_file g = Some AskRuleMatch"
    using rules_say_binds(2) [OF assms(1) refl, of m] by (auto simp: g_def policy_refuses binding_cases)
  then have "policy_decision g = Some DAsk"
    unfolding policy_asks using False by (auto simp: some_ask_def gate_is_ask_def)
  moreover have "\<not> defers_gate_ask g"
    using rule_match_never_defers match unfolding g_def .
  ultimately show ?thesis by (simp add: admits_auto_classifier_def policy_forced_prompt_def)
qed

lemma unadmitted:
  "\<not> admits_auto_classifier (rf_preflight f)
   \<Longrightarrow> auto_stage env st w f = (AutoPasses, NotClassified, ms_consecutive st, ms_total st)"
  by (simp add: auto_stage_def Let_def)

text \<open>C12: A question of a rule about a shell command, a read, a search of files or an MCP call is answered by the
user: outside always-approve and with the gate on remembered approvals off, such an access that an ask rule
matches, for itself or for a command or file that the gates find in its script, is allowed only if the user was
asked and said yes.  Edits, web fetches and web searches are excluded.\<close>

theorem ask_rule_is_put_to_user:
  assumes "cfg_policy cfg = Some (compile_policy (env_ext env) config)"
    "rules_say (env_ext env) (w_fs w) config (request_cwd cfg rq) (rq_access rq) DAsk"
    "put_to_user (rq_access rq)" "\<not> ms_yolo st" "\<not> pr_remember (cfg_prompter cfg)"
    "allowed (handle_request env cfg w rq st)"
  shows "user_consents env cfg w rq (handle_request env cfg w rq st)"
proof -
  let ?st = "reload_grants w (rq_access rq) st"
  let ?g = "evaluate_preflight (env_ext env) (w_fs w) (cfg_policy cfg) (rq_access rq) (request_cwd cfg rq) (ms_auto st)"
  have g: "(\<exists>r. policy_decision ?g = Some (DReject r)) \<or> policy_decision ?g = Some DAsk \<and> \<not> admits_auto_classifier ?g"
    using rules_ask [OF assms(2)] assms(1) by simp
  show ?thesis
  proof (cases rule: allowed_cases [OF assms(6)])
    case (1 a)
    from 1(1) have False
      by (cases rule: early_cases)
        (use 1(2) assms(4) g in \<open>auto simp: unforced_def policy_forced_prompt_def\<close>)
    then show ?thesis ..
  next
    case (2 a c d)
    then have "\<not> (\<exists>r. policy_decision ?g = Some (DReject r))" by (auto simp: early_answer_def)
    then have "\<not> admits_auto_classifier ?g" using g by blast
    then show ?thesis using 2(2) by (simp add: unadmitted)
  next
    case (3 a c d forced)
    have "\<not> (\<exists>r. policy_decision ?g = Some (DReject r))" using 3(1) by (auto simp: early_answer_def)
    then have ask: "policy_decision ?g = Some DAsk" using g by blast
    from 3(2) have False
    proof (cases rule: late_cases)
      case (pre d r)
      then show False
        using 3(4) assms(3,5) ask
        by (auto simp: pre_decision_def bash_pre_decision_def Let_def put_to_user_def policy_forced_prompt_def
            mcp_pre_decision_def split: access_kind.splits if_split_asm)
    qed (use 3(4) ask in \<open>auto simp: policy_forced_prompt_def policy_allows_late_def\<close>)
    then show ?thesis ..
  next
    case 4
    then show ?thesis .
  qed
qed

theorem ask_rule_is_put_to_user_witness:
  "user_consents demo_env (demo_config False (Some \<lparr>rules = [bash_rule RAsk ''rm''], config_prompt_policy = PromptAsk\<rparr>))
     (demo_world ''allow-once'') (demo_request (AccessBash ''rm''))
     (handle_request demo_env
        (demo_config False (Some \<lparr>rules = [bash_rule RAsk ''rm''], config_prompt_policy = PromptAsk\<rparr>))
        (demo_world ''allow-once'') (demo_request (AccessBash ''rm'')) demo_state)"
proof (rule ask_rule_is_put_to_user)
  let ?c = "\<lparr>rules = [bash_rule RAsk ''rm''], config_prompt_policy = PromptAsk\<rparr>"
  show "cfg_policy (demo_config False (Some ?c)) = Some (compile_policy (env_ext demo_env) ?c)"
    by (simp add: demo_config_def spawn_config_def)
  show "rules_say (env_ext demo_env) (w_fs (demo_world ''allow-once'')) ?c
      (request_cwd (demo_config False (Some ?c)) (demo_request (AccessBash ''rm'')))
      (rq_access (demo_request (AccessBash ''rm''))) DAsk"
    by (rule rules_say.itself) code_simp
  show "put_to_user (rq_access (demo_request (AccessBash ''rm'')))" "\<not> ms_yolo demo_state"
    "\<not> pr_remember (cfg_prompter (demo_config False (Some ?c)))"
    by code_simp+
  show "allowed (handle_request demo_env (demo_config False (Some ?c)) (demo_world ''allow-once'')
      (demo_request (AccessBash ''rm'')) demo_state)"
    by code_simp
qed

subsection \<open>Where grants come from\<close>

datatype grant =
    GrantShell
  | GrantCommand rstr
  | GrantGlob rstr
  | GrantDomain rstr
  | GrantTool rstr
  | GrantServer rstr
  | GrantEdits

fun holds :: "permission_state \<Rightarrow> grant \<Rightarrow> bool" where
  "holds g GrantShell = allow_bash_execute g"
| "holds g (GrantCommand key) = (key \<in> set (allowed_bash_commands g))"
| "holds g (GrantGlob pat) = (pat \<in> set (allowed_bash_globs g))"
| "holds g (GrantDomain domain) = (domain \<in> set (allowed_web_fetch_domains g))"
| "holds g (GrantTool name) = (name \<in> set (allowed_mcp_tools g))"
| "holds g (GrantServer server) = (server \<in> set (allowed_mcp_servers g))"
| "holds g GrantEdits = False"

definition manager_holds :: "manager_state \<Rightarrow> grant \<Rightarrow> bool" where
  "manager_holds st x \<longleftrightarrow> holds (ms_grants st) x \<or> x = GrantEdits \<and> ms_session_edits st"

text \<open>
  What a grant must have to do with the access that the prompt was about: a command key is the command, one of
  its segments or a head of its primary command that the prompt could show; a domain, a tool or a server is the
  one of the access, whatever name the client sent.
\<close>

fun concerns :: "'pat manager_env \<Rightarrow> json access_kind \<Rightarrow> grant \<Rightarrow> bool" where
  "concerns env (AccessBash cmd) (GrantCommand key) \<longleftrightarrow>
     key = cmd \<or> key \<in> set (bash_grant_segments (ext_parse (env_ext env)) cmd)
     \<or> (\<exists>h n. primary_command_from_script (ext_parse (env_ext env)) cmd = Some h
          \<and> minimum_always_allow_scope (hl_words h) \<le> n \<and> n \<le> length (hl_words h)
          \<and> key = join '' '' (take n (hl_words h)))"
| "concerns env (AccessBash cmd) (GrantGlob pat) \<longleftrightarrow> bash_glob_covers_script (env_ext env) cmd pat"
| "concerns env (AccessWebFetch url) (GrantDomain domain) \<longleftrightarrow>
     map_option (normalize_domain (env_ext env)) (Option.bind (lib_parse_url (env_lib env) url) url_host) = Some domain"
| "concerns env (AccessMCP name _) (GrantTool tool) \<longleftrightarrow> tool = name"
| "concerns env (AccessMCP name _) (GrantServer server) \<longleftrightarrow>
     map_option (\<lambda>(_, s, _). s) (parse_mcp_qualified_name name) = Some server"
| "concerns env (AccessEdit _) GrantEdits \<longleftrightarrow> True"
| "concerns env _ _ \<longleftrightarrow> False"

lemma set_set_extend [simp]: "set (set_extend xs ys) = set xs \<union> set ys"
  unfolding set_extend_def by (induction ys arbitrary: xs) auto

lemma holds_merge: "holds (merge_grants_from s t) x \<longleftrightarrow> holds s x \<or> holds t x"
  by (cases x) (auto simp: merge_grants_from_def)

lemma holds_insert [simp]:
  "holds (insert_command key g) x \<longleftrightarrow> x = GrantCommand key \<or> holds g x"
  "holds (insert_mcp_tool name g) x \<longleftrightarrow> x = GrantTool name \<or> holds g x"
  "holds (g\<lparr>allowed_web_fetch_domains := List.insert d (allowed_web_fetch_domains g)\<rparr>) x \<longleftrightarrow> x = GrantDomain d \<or> holds g x"
  "holds (g\<lparr>allowed_mcp_servers := List.insert s (allowed_mcp_servers g)\<rparr>) x \<longleftrightarrow> x = GrantServer s \<or> holds g x"
  "holds (g\<lparr>allowed_bash_globs := List.insert p (allowed_bash_globs g)\<rparr>) x \<longleftrightarrow> x = GrantGlob p \<or> holds g x"
  "holds (g\<lparr>allowed_bash_commands := set_extend (List.insert key (allowed_bash_commands g)) keys\<rparr>) x
     \<longleftrightarrow> (\<exists>k. x = GrantCommand k \<and> k \<in> insert key (set keys)) \<or> holds g x"
  by (cases x; auto simp: insert_command_def insert_mcp_tool_def)+

lemma holds_rejections [simp]:
  "holds (g\<lparr>disallowed_bash_commands := cs\<rparr>) x = holds g x"
  "holds (g\<lparr>disallowed_mcp_tools := ts\<rparr>) x = holds g x"
  "holds (g\<lparr>disallowed_web_fetch_domains := ds\<rparr>) x = holds g x"
  by (cases x; simp)+

lemma persisted_concerns:
  assumes "holds (persist_bash_always_allow (ext_parse (env_ext env)) g cmd label) x" "\<not> holds g x"
  shows "concerns env (AccessBash cmd) x"
proof (cases rule: persist_cases [of "ext_parse (env_ext env)" g cmd label])
  case unchanged
  then show ?thesis using assms by simp
next
  case (label h n)
  then have "x = GrantCommand (join '' '' (take n (hl_words h)))" using assms by simp
  then show ?thesis using label by auto
next
  case (whole h)
  then show ?thesis using assms by simp
qed

lemma bash_answer_grants:
  assumes "holds (pd_grants (bash_answer (env_ext env) cmd outcome g)) x" "\<not> holds g x"
  shows "prompt_outcome_allows outcome \<and> outcome \<noteq> AllowOnce \<and> concerns env (AccessBash cmd) x"
  using assms
  by (cases outcome)
    (auto simp: bash_answer_def unchanged_def granted_def prompt_outcome_allows_def Let_def
      dest: persisted_concerns split: if_split_asm)

lemma other_answer_grants:
  assumes "holds (pd_grants (other_answer env access outcome g)) x" "\<not> holds g x"
  shows "prompt_outcome_allows outcome \<and> outcome \<noteq> AllowOnce \<and> concerns env access x"
  using assms
  by (cases outcome; cases access)
    (auto simp: other_answer_def unchanged_def granted_def prompt_outcome_allows_def Let_def domain_answer_def
      mcp_server_answer_def reject_domain_answer_def split: if_split_asm option.split_asm)

lemma answer_grants:
  assumes "holds (pd_grants (answer_prompt env access outcome g)) x" "\<not> holds g x"
  shows "prompt_outcome_allows outcome \<and> outcome \<noteq> AllowOnce \<and> concerns env access x"
  using assms bash_answer_grants [of env _ outcome g x] other_answer_grants [of env access outcome g x]
  by (cases access) (auto simp: answer_prompt_def)

lemma answer_edits: "pd_edits (answer_prompt env access outcome g) \<Longrightarrow> outcome = AllowEditsForSession"
  by (cases outcome; cases access) (auto simp: answer_prompt_def answer_defs Let_def split: option.split_asm if_split_asm)

text \<open>The permission to edit for the session is offered for edits only.\<close>

lemma edits_row_for_edits:
  assumes "opt \<in> set (build_options x lib p access)" "option_id opt = allow_edits_session_option_id"
  shows "\<exists>path. access = AccessEdit path"
proof -
  have "opt \<in> set (build_options_inner x lib p access) \<or> opt = enable_always_approve_option"
    using assms(1) fold_index_insert_in [of opt]
    by (fastforce simp: build_options_def Let_def prepend_enable_always_approve_def split: if_splits)
  then show ?thesis
    using assms(2)
    by (auto simp: build_options_inner_def option_rows Let_def split: access_kind.splits if_splits option.splits)
qed

lemma outcome_edits:
  assumes "prompt_request x lib p ask access i protected = AllowEditsForSession"
  shows "\<exists>path. access = AccessEdit path"
proof (cases "pr_hub p")
  case (Some transport)
  then show ?thesis
    using assms
    by (auto simp: prompt_request_def request_permission_via_hub_def reply_to_outcome_def Let_def
        split: sum.split_asm access_kind.split_asm if_split_asm option.split_asm)
next
  case None
  then obtain j meta where "map_selected_outcome x lib (build_options x lib p access) j meta access = AllowEditsForSession"
    using assms by (auto simp: prompt_request_def Let_def split: gateway_answer.split_asm)
  then obtain opt where opt: "find_option (build_options x lib p access) j = Some opt" and j: "j = allow_edits_session_option_id"
    by (auto simp: map_selected_outcome_def allow_always_outcome_def reject_once_outcome_def reject_always_outcome_def
        mcp_always_outcome_def domain_always_outcome_def command_always_outcome_def Let_def
        split: option.split_asm option_kind.split_asm if_split_asm access_kind.split_asm mcp_scope_selection.split_asm)
  then show ?thesis using edits_row_for_edits find_option_in by metis
qed

text \<open>A prompt of a request that stored a grant was answered with a consent that covers it.\<close>

definition warrants ::
  "'pat manager_env \<Rightarrow> 'pat manager_config \<Rightarrow> request_world \<Rightarrow> permission_request \<Rightarrow> manager_state \<Rightarrow> grant \<Rightarrow> bool" where
  "warrants env cfg w rq st x \<longleftrightarrow>
     (\<exists>fresh. w_fresh w = Some fresh \<and> holds fresh x)
     \<or> user_consents env cfg w rq (handle_request env cfg w rq st) \<and> outcome_of env cfg w rq \<noteq> AllowOnce
       \<and> concerns env (rq_access rq) x"

lemma reload_grants_holds:
  "manager_holds (reload_grants w access st) x \<Longrightarrow> \<not> manager_holds st x \<Longrightarrow> \<exists>fresh. w_fresh w = Some fresh \<and> holds fresh x"
  by (auto simp: manager_holds_def reload_grants_def Let_def holds_merge split: option.splits if_split_asm)

lemma settle_holds [simp]: "manager_holds (st\<lparr>ms_consecutive := c, ms_total := t\<rparr>) x = manager_holds st x"
  by (simp add: manager_holds_def)

lemma prompt_holds:
  assumes "manager_holds (hd_state (prompt_stage env cfg st w rq f forced c)) x" "\<not> manager_holds st x"
    "rf_protected f = protected_edit_of env cfg w rq"
  shows "user_consents env cfg w rq (prompt_stage env cfg st w rq f forced c)
    \<and> outcome_of env cfg w rq \<noteq> AllowOnce \<and> concerns env (rq_access rq) x"
proof (cases "closed w 3")
  case True
  then show ?thesis using assms(1,2) by (simp add: prompt_stage_def Let_def)
next
  case False
  obtain outcome where outcome: "outcome = (if closed w 4 then Cancelled else outcome_of env cfg w rq)" by simp
  let ?pd = "answer_prompt env (rq_access rq) outcome (ms_grants st)"
  have state: "ms_grants (hd_state (prompt_stage env cfg st w rq f forced c)) = pd_grants ?pd"
    "ms_session_edits (hd_state (prompt_stage env cfg st w rq f forced c)) = (ms_session_edits st \<or> pd_edits ?pd)"
    "hd_prompted (prompt_stage env cfg st w rq f forced c)"
    using False assms(3) by (simp_all add: prompt_stage_def Let_def outcome outcome_of_def)
  have "prompt_outcome_allows outcome \<and> outcome \<noteq> AllowOnce \<and> concerns env (rq_access rq) x"
  proof (cases "holds (pd_grants ?pd) x \<and> \<not> holds (ms_grants st) x")
    case True
    then show ?thesis using answer_grants by blast
  next
    case False
    then have "x = GrantEdits" "pd_edits ?pd"
      using assms(1,2) state by (auto simp: manager_holds_def)
    moreover have edits: "outcome = AllowEditsForSession" using answer_edits [OF \<open>pd_edits ?pd\<close>] .
    moreover have "outcome_of env cfg w rq = AllowEditsForSession" using edits outcome by (simp split: if_split_asm)
    then have "\<exists>path. rq_access rq = AccessEdit path" unfolding outcome_of_def by (rule outcome_edits)
    ultimately show ?thesis by (auto simp: prompt_outcome_allows_def)
  qed
  then show ?thesis
    using state(3) outcome by (auto simp: user_consents_def prompt_outcome_allows_def split: if_split_asm)
qed

text \<open>A request adds a grant only if the store had it or the user gave it.\<close>

lemma new_grant_warranted:
  assumes "manager_holds (hd_state (handle_request env cfg w rq st)) x" "\<not> manager_holds st x"
  shows "warrants env cfg w rq st x"
proof (cases "manager_holds (reload_grants w (rq_access rq) st) x")
  case True
  then show ?thesis using reload_grants_holds assms(2) by (auto simp: warrants_def)
next
  case new: False
  show ?thesis
  proof (cases rule: handle_cases [of st w rq env cfg])
    case (gone s stage)
    then show ?thesis using assms new by auto
  next
    case (prompt c d forced)
    have "manager_holds (hd_state (prompt_stage env cfg (reload_grants w (rq_access rq) st) w rq
        (request_facts_of env cfg w rq (reload_grants w (rq_access rq) st)) forced c)) x"
      using assms(1) unfolding prompt(4) .
    from prompt_holds [OF this new facts_fields(2)] show ?thesis unfolding warrants_def prompt(4) by simp
  qed (use assms new in simp_all)
qed

lemma step_warranted:
  assumes "manager_holds (fst (manager_step env cfg cmd st)) x" "\<not> manager_holds st x"
  shows "\<exists>w rq. cmd = Request w rq \<and> warrants env cfg w rq st x"
proof (cases cmd)
  case (Request w rq)
  then show ?thesis using assms new_grant_warranted by (auto simp: Let_def)
next
  case ResetState
  then show ?thesis using assms by (cases x) (auto simp: manager_holds_def default_permission_state_def)
qed (use assms in \<open>auto simp: manager_holds_def set_yolo_def set_auto_def Let_def split: if_split_asm\<close>)

lemma run_warranted:
  assumes "manager_holds (fst (manager_run env cfg cmds st)) x"
  shows "manager_holds st x
    \<or> (\<exists>before w rq after. cmds = before @ Request w rq # after
         \<and> warrants env cfg w rq (fst (manager_run env cfg before st)) x)"
  using assms
proof (induction cmds arbitrary: st)
  case (Cons cmd cmds)
  show ?case
  proof (cases "cmd = Shutdown")
    case True
    then show ?thesis using Cons.prems by simp
  next
    case False
    let ?st = "fst (manager_step env cfg cmd st)"
    have "manager_holds (fst (manager_run env cfg cmds ?st)) x"
      using Cons.prems False by (simp add: run_Cons Let_def)
    from Cons.IH [OF this] show ?thesis
    proof (elim disjE exE conjE)
      assume "manager_holds ?st x"
      then show ?thesis using step_warranted [of env cfg cmd st x] by (force intro: exI [of _ "[]"])
    next
      fix before w rq after
      assume "cmds = before @ Request w rq # after" "warrants env cfg w rq (fst (manager_run env cfg before ?st)) x"
      then have "cmd # cmds = (cmd # before) @ Request w rq # after"
        "warrants env cfg w rq (fst (manager_run env cfg (cmd # before) st)) x"
        using False by (simp_all add: run_Cons Let_def)
      then show ?thesis by blast
    qed
  qed
qed simp

text \<open>C9: Every grant has a warrant: whatever the manager holds after any sequence of commands was in the state it
loaded, came from the store when a request read it again, or was given by the user in the answer to a prompt
about an access that the grant concerns; no name or pattern a client sends reaches beyond that access.\<close>

theorem grants_have_warrants:
  assumes "manager_holds (fst (manager_run env cfg cmds (spawn_state env cfg initial_yolo loaded))) x"
  shows "holds loaded x
    \<or> (\<exists>before w rq after. cmds = before @ Request w rq # after
         \<and> warrants env cfg w rq (fst (manager_run env cfg before (spawn_state env cfg initial_yolo loaded))) x)"
proof -
  have "manager_holds (spawn_state env cfg initial_yolo loaded) x \<Longrightarrow> holds loaded x"
    by (cases x) (auto simp: manager_holds_def spawn_state_def migrate_edit_policy_def Let_def split: if_split_asm)
  then show ?thesis using run_warranted [OF assms] by blast
qed

theorem grants_have_warrants_witness:
  "holds default_permission_state (GrantTool ''srv__t'')
   \<or> (\<exists>before w rq after.
        [Request (demo_world ''allow-always-mcp'') (demo_request (AccessMCP ''srv__t'' JNull))]
          = before @ Request w rq # after
        \<and> warrants demo_env (demo_config True None) w rq
             (fst (manager_run demo_env (demo_config True None) before
                (spawn_state demo_env (demo_config True None) False default_permission_state)))
             (GrantTool ''srv__t''))"
  by (rule grants_have_warrants) code_simp

subsection \<open>Where the stages leave a gap\<close>

text \<open>
  Short options in one word hide an output file: \<open>sort -uo\<close> is taken for a safe command, so that a script that
  overwrites a file is allowed without a prompt, while the same script with the option apart is prompted.
\<close>

lemma grouped_output_option_unnoticed:
  "allowed (handle_request demo_env (demo_config True None) (demo_world ''reject-once'')
     (demo_request (AccessBash ''sort -uo .ssh/config x'')) demo_state)"
  "\<not> allowed (handle_request demo_env (demo_config True None) (demo_world ''reject-once'')
     (demo_request (AccessBash ''sort -u -o .ssh/config x'')) demo_state)"
  by code_simp+

text \<open>
  A question deferred to the classifier skips the remembered rejections: a script that cannot be parsed is
  rejected in ask mode because the user excluded the command, and allowed in auto mode once a rule is there
  that makes the gate ask and the classifier approves.
\<close>

definition opaque_env :: "rstr manager_env" where
  "opaque_env = demo_env\<lparr>env_ext := literal_externals\<lparr>ext_parse := (\<lambda>_. None)\<rparr>\<rparr>"

definition excluded_state :: "bool \<Rightarrow> manager_state" where
  "excluded_state auto =
     demo_state\<lparr>ms_auto := auto, ms_grants := default_permission_state\<lparr>disallowed_bash_commands := [''deploy'']\<rparr>,
       ms_classifier := Some (\<lambda>_ _ _ _. llm_outcome VAllow None)\<rparr>"

lemma deferred_question_skips_rejections:
  "\<not> allowed (handle_request opaque_env (demo_config True None) (demo_world ''allow-once'')
     (demo_request (AccessBash ''deploy $(x)'')) (excluded_state True))"
  "allowed (handle_request opaque_env (demo_config True (Some deny_rm)) (demo_world ''reject-once'')
     (demo_request (AccessBash ''deploy $(x)'')) (excluded_state True))"
  by code_simp+

text \<open>An ask rule on a web search never prompts.\<close>

lemma web_search_never_asks:
  "allowed (handle_request demo_env
     (demo_config True (Some \<lparr>rules = [\<lparr>rule_action = RAsk, rule_tool = FWebSearch, rule_pattern = None, rule_mode = GlobMode\<rparr>],
        config_prompt_policy = PromptAsk\<rparr>))
     (demo_world ''reject-once'') (demo_request (AccessWebSearch ''q'')) demo_state)"
  by code_simp

end
