(* ===== verification/PlanGate.thy ===== *)
theory PlanGate
  imports PlanSafety ActorConsent
begin

section \<open>Plan mode in front of the permission manager\<close>

text \<open>
  The permission of a tool call as the session settles it: the edit gate of plan mode, the plan file, and the
  actor of the permission manager behind them.
\<close>

subsection \<open>Edits\<close>

text \<open>The permission manager behind a call: the request the call makes, and what its handle answers.\<close>

definition manager_answers ::
  "'pat manager_env \<Rightarrow> 'pat manager_config \<Rightarrow> request_world \<Rightarrow> permission_request \<Rightarrow> json access_kind \<Rightarrow> manager_state
   \<Rightarrow> decision \<times> manager_state" where
  "manager_answers env cfg w rq access st =
     (let h = handle_request env cfg w (rq\<lparr>rq_access := access\<rparr>) st
      in (fst (request_resolved False True (hd_resolution h)), hd_state h))"

lemma gate_on_edit:
  assumes "plan_is_active tr" and "access_kind_of_input input = AccessEdit path" and "\<And>x. input \<noteq> TaskInput x"
  shows "settle_call_permission render ask tr tool input m =
    (if is_plan_file_write path (pt_file tr) then CallProceeds
     else CallNotExecuted (edit_rejected_message render (pt_file tr)) LoopContinue, m)"
proof -
  have "\<forall>x. input \<noteq> TaskInput x" using assms(3) by blast
  with assms(1,2) show ?thesis
    by (cases input)
      (simp_all add: settle_call_permission_def plan_mode_edit_gate_def should_auto_approve_edit_def)
qed

lemma plan_file_of: "plan_reaches P render dir s \<Longrightarrow> pt_file (se_tracker s) = path_push dir ''plan.md''"
  using plan_reaches_ok by (auto simp: plan_ok_def)

text \<open>
  C16: Plan mode is read-only in every permission mode.  While a reachable session plans, a call whose access is an
  edit, other than the start of a subagent, proceeds exactly when it names the plan file, component by
  component; otherwise the model is told the only file it can edit.  The manager is not asked and its state does
  not change, whatever its policy and mode, always-approve included.
\<close>

theorem planning_edits_settled_by_gate:
  assumes "plan_reaches P render dir s" and "plan_is_active (se_tracker s)"
    and "access_kind_of_input input = AccessEdit path" and "\<And>x. input \<noteq> TaskInput x"
  shows "settle_call_permission render (manager_answers env cfg w rq) (se_tracker s) tool input st =
    (if path_components path = path_components (path_push dir ''plan.md'') then CallProceeds
     else CallNotExecuted (edit_rejected_message render (path_push dir ''plan.md'')) LoopContinue, st)"
  unfolding gate_on_edit [OF assms(2-4)] is_plan_file_write_def plan_file_of [OF assms(1)] ..

subsection \<open>What the manager never answers\<close>

text \<open>The session executes a call that is answered with a question; the manager has none to give.\<close>

definition asks_back :: "handled \<Rightarrow> bool" where
  "asks_back h \<longleftrightarrow> map_option fst (hd_resolution h) = Some DAsk"

lemma mcp_not_ask [simp]: "mcp_pre_decision name state p r \<noteq> Some DAsk"
  by (simp add: mcp_pre_decision_def)

lemma web_fetch_deny_not_ask [simp]: "web_fetch_deny_pre_decision x u state \<noteq> Some DAsk"
  by (auto simp: web_fetch_deny_pre_decision_def bind_eq_Some_conv)

lemma bash_grant_not_ask [simp]: "bash_grant_pre_decision cmd e state pin opts \<noteq> Some (DAsk, r)"
  by (auto simp: bash_grant_pre_decision_def grant_if_def split: segment_evaluation.splits)

lemma session_grant_not_ask [simp]:
  "session_grant_pre_decision x u access e g ed m honor pin \<noteq> Some (DAsk, r)"
  by (cases access) (auto simp: session_grant_pre_decision_def bind_eq_Some_conv split: option.splits)

lemma web_fetch_not_ask [simp]: "web_fetch_pre_decision env cfg g url \<noteq> Some (DAsk, r)"
  by (auto simp: web_fetch_pre_decision_def bind_eq_Some_conv split: option.splits)

lemma pre_decision_not_ask [simp]: "pre_decision env cfg st f forced \<noteq> Some (DAsk, r)"
  by (cases "rf_access f") (auto simp: pre_decision_def bash_pre_decision_def bind_eq_Some_conv Let_def)

lemma answer_not_ask: "pd_decision (answer_prompt env access outcome g) \<noteq> DAsk"
  by (cases outcome; cases access) (auto simp: answer_prompt_def answer_defs Let_def split: option.split)

lemma settle_asks [simp]: "asks_back (settle env cfg st w rq c d stage a) \<longleftrightarrow> \<not> closed w stage \<and> an_decision a = DAsk"
  by (simp add: settle_def asks_back_def Let_def)

lemma gone_not_ask [simp]: "an_decision requester_gone \<noteq> DAsk"
  by (simp add: requester_gone_def)

lemma prompt_not_ask [simp]: "\<not> asks_back (prompt_stage env cfg st w rq f forced c)"
proof (cases "closed w 3")
  case True
  then show ?thesis by (simp add: prompt_stage_def Let_def)
next
  case False
  then show ?thesis using answer_not_ask [of env "rq_access rq"] by (simp add: prompt_stage_def asks_back_def Let_def)
qed

lemma verdict_not_ask: "verdict_route outcome denials = (AutoAnswers a, d) \<Longrightarrow> an_decision a \<noteq> DAsk"
  by (auto simp: verdict_route_def Let_def split: prod.splits if_splits classifier_verdict.splits)

lemma auto_not_ask: "auto_stage env st w f = (AutoAnswers a, c, d) \<Longrightarrow> an_decision a \<noteq> DAsk"
  by (auto simp: auto_stage_def Let_def dest: verdict_not_ask
      split: if_split_asm auto_fast_path.splits prod.split_asm)

lemma late_not_ask: "late_answer env cfg st w f forced = Some a \<Longrightarrow> an_decision a \<noteq> DAsk"
  by (erule late_cases)
    (auto simp: policy_allows_late_def split: option.split_asm decision.split_asm if_split_asm)

lemma early_not_ask: "early_answer env cfg st f = Some a \<Longrightarrow> an_decision a \<noteq> DAsk"
  by (erule early_cases) auto

lemma manager_never_asks: "\<not> asks_back (handle_request env cfg w rq st)"
  by (cases rule: handle_cases [of st w rq env cfg])
    (auto dest: early_not_ask auto_not_ask late_not_ask)

lemma settled_proceeds: "settled_call tool d = CallProceeds \<longleftrightarrow> d = DAllow \<or> d = DAsk"
  by (cases d) (simp_all add: settled_call_def)

lemma manager_answer_allows:
  "settled_call tool (fst (manager_answers env cfg w rq access st)) = CallProceeds \<longleftrightarrow>
     allowed (handle_request env cfg w (rq\<lparr>rq_access := access\<rparr>) st)"
proof (cases "hd_resolution (handle_request env cfg w (rq\<lparr>rq_access := access\<rparr>) st)")
  case None
  then show ?thesis by (simp add: settled_proceeds manager_answers_def Let_def request_resolved_def allowed_def)
next
  case (Some a)
  then have "fst a \<noteq> DAsk" using manager_never_asks [of env cfg w "rq\<lparr>rq_access := access\<rparr>" st] by (simp add: asks_back_def)
  with Some show ?thesis
    by (cases a) (simp add: settled_proceeds manager_answers_def Let_def request_resolved_def allowed_def)
qed

lemma settled_by_manager:
  "fst (settle_call_permission render (manager_answers env cfg w rq) tr tool input st) = CallProceeds \<longleftrightarrow>
     plan_mode_edit_gate tr input (access_kind_of_input input) = GateAllow \<and>
     ((\<exists>path. access_kind_of_input input = AccessEdit path \<and> should_auto_approve_edit tr path) \<or>
      allowed (handle_request env cfg w (rq\<lparr>rq_access := access_kind_of_input input\<rparr>) st))"
proof -
  obtain access where access: "access = access_kind_of_input input" by simp
  have approve: "(case access of AccessEdit path \<Rightarrow> should_auto_approve_edit tr path | _ \<Rightarrow> False) \<longleftrightarrow>
      (\<exists>path. access = AccessEdit path \<and> should_auto_approve_edit tr path)"
    by (cases access) simp_all
  show ?thesis
    unfolding settle_call_permission_def Let_def access [symmetric] approve
      manager_answer_allows [of tool env cfg w rq access st, symmetric]
    by (auto simp: case_prod_beta)
qed

text \<open>
  C17: A call is executed only on an allowance.  In any session and with a manager in any state, a tool call
  proceeds exactly when plan mode does not hold it back and it either edits the plan file while planning or was
  allowed by the manager for exactly its access; a request that was rejected, denied by policy, cancelled,
  answered with a message, or not answered at all is never executed, and the manager never answers with the
  question that the session would execute.
\<close>

theorem call_proceeds_iff:
  "fst (settle_call_permission render (manager_answers env cfg w rq) tr tool input st) = CallProceeds \<longleftrightarrow>
     plan_mode_edit_gate tr input (access_kind_of_input input) = GateAllow \<and>
     ((\<exists>path. access_kind_of_input input = AccessEdit path \<and> should_auto_approve_edit tr path) \<or>
      allowed (handle_request env cfg w (rq\<lparr>rq_access := access_kind_of_input input\<rparr>) st))"
  by (rule settled_by_manager)

subsection \<open>Witnesses\<close>

theorem planning_edits_settled_by_gate_witness:
  "\<exists>s. plan_run echo_renderer ''/d'' planning_run (spawn_plan_session ''/d'' None) = Some s \<and>
     settle_call_permission echo_renderer
       (manager_answers demo_env (demo_config True None) (demo_world ''allow-once'') (demo_request (AccessRead None)))
       (se_tracker s) ''write'' (WriteInput ''/d/main.rs'') (demo_state\<lparr>ms_yolo := True\<rparr>) =
     (CallNotExecuted (edit_rejected_message echo_renderer (path_push ''/d'' ''plan.md'')) LoopContinue,
      demo_state\<lparr>ms_yolo := True\<rparr>)"
proof -
  obtain s where s: "plan_run echo_renderer ''/d'' planning_run (spawn_plan_session ''/d'' None) = Some s"
    and "plan_is_active (se_tracker s)" using planning_run_ends by blast
  moreover have "path_components ''/d/main.rs'' \<noteq> path_components (path_push ''/d'' ''plan.md'')" by code_simp
  ultimately show ?thesis
    using planning_edits_settled_by_gate [OF plan_run_reaches [OF plan_reaches.spawned run_keeps_True s],
        of "WriteInput ''/d/main.rs''" "''/d/main.rs''"]
    by (simp add: access_kind_of_input_def)
qed

end
