(* ===== verification/Spec2Isabelle.thy ===== *)
theory Spec2Isabelle
  imports CircuitBreaker ChatBehaviour IntraCompaction InterCompaction PlanGate
begin

text \<open>
  A verification library for the conversation core, the permissions and the plan mode of hystersis, a coding agent written in Rust
  (paths below are under \<open>src/crates/\<close>).

  \<^bold>\<open>The program and its parts.\<close>  A session keeps a conversation, a list of items, in an actor
  (\<open>codegen/hystersis-chat-state\<close>).  The shell sends the actor commands: push a message, record
  usage, begin a turn, build a request, rewind, replace the history.  The actor repairs the pairing of
  tool calls and tool results, keeps a store of the conversation in step with its memory, and
  records what a turn adds.  When the conversation outgrows the model's window, the compaction engine
  (\<open>common/hystersis-compaction\<close>) selects turns, fits them to a summarizer, samples a summary with
  retries and puts it in their place; the actor then replaces its history by the compacted one.  Calls
  to remote services pass a circuit breaker (\<open>common/hystersis-circuit-breaker\<close>).  Before a tool runs, the
  permission policy (\<open>codegen/hystersis-workspace/src/permission\<close>) matches what it would do against the
  rules of the user: a file, a URL, or a bash command with everything hidden in it.  What no rule decides
  is judged segment by segment: safe and dangerous commands, effects on files and environment, and the
  grants and rejections the user left behind in earlier answers.  An actor, the permission manager, takes the
  requests of a session and its subagents one by one: it applies the policy, the mode (always-approve, auto or
  ask), the grants, in auto mode a classifier that may ask a model, and at last prompts the user, locally or
  through a hub, and stores what the answer grants.  In plan mode the session holds edits back before they reach
  the manager, and tells the model which mode it is in.

  \<^bold>\<open>Foundations.\<close>
  \<^item> \<open>Prelude\<close>: widths, saturating arithmetic on words, lists; the collection \<open>rust_arith\<close>.
  \<^item> \<open>RustStr\<close>: UTF-8 strings as byte lists with characters, boundaries, \<open>trim\<close>, search and replace.
  \<^item> \<open>RustFloat\<close>: \<open>f64\<close> on non-negative finite values as rationals rounded to 53 bits.

  \<^bold>\<open>Circuit breaker.\<close>
  \<^item> \<open>SlidingWindow\<close> (\<open>window.rs\<close>), \<open>BreakerConfig\<close> (\<open>config.rs\<close>, \<open>retry_policy.rs\<close>, \<open>grpc.rs\<close>),
    \<open>CircuitBreaker\<close> (\<open>state.rs\<close>, \<open>observer.rs\<close>, \<open>breaker.rs\<close>, \<open>registry.rs\<close>).  The record
    \<open>circuit_breaker\<close> has the fields of the Rust struct; \<open>check\<close>, \<open>record_outcome\<close> and the transitions
    are functions of it, one atomic operation each.  Shown: an invariant of all reachable breakers,
    what \<open>check\<close> answers in each state, when the breaker trips, that shedding has a recent cause, and that the
    observer sees a path of the state diagram.

  \<^bold>\<open>Conversation and chat state.\<close>
  \<^item> \<open>TokenEstimation\<close>: the estimator crate on 64-bit words.
  \<^item> \<open>Conversation\<close>, \<open>Response\<close> (\<open>hystersis-sampling-types/src/conversation.rs\<close>): items, constructors and
    accessors, image stripping, responses and path rewriting.
  \<^item> \<open>ToolPairing\<close>: repair, deduplication and validation of tool calls and results.  \<open>well_paired\<close> is the
    specification: every message that calls tools is followed by the results of exactly these calls.
  \<^item> \<open>Rewind\<close>: positions of prompts; \<open>Usage\<close> (\<open>usage.rs\<close>): ledgers that add up.
  \<^item> \<open>ChatState\<close>, \<open>RequestBuilder\<close>, \<open>ImageBudget\<close>, \<open>ChatStore\<close>: the actor's state, the request copy, the
    image budget and the persistence trait, a locale whose interpretation is the store of the crate.
  \<^item> \<open>ChatActor\<close> (\<open>mutations.rs\<close>), \<open>ChatCommands\<close> (\<open>queries.rs\<close>, \<open>request_builder.rs\<close>, \<open>commands.rs\<close>, \<open>mod.rs\<close>): every
    mutation and every command with its reply.  \<open>run_commands\<close> is the loop on a list of commands.
  \<^item> \<open>ChatInvariants\<close>, \<open>ChatBehaviour\<close>: properties of runs of commands: the store replays to the
    conversation in memory, a turn capture is complete whatever is interleaved, requests are well
    formed, rewinds and snapshots do what they say, compaction does not increase the estimate.

  \<^bold>\<open>Compaction.\<close>
  \<^item> \<open>CompactionUtils\<close>, \<open>CompactedHistory\<close> (\<open>compaction_utils.rs\<close>): preparing and fitting a conversation,
    cleaning a summary, the compacted history and its validity.
  \<^item> \<open>CompactionItem\<close> (\<open>item.rs\<close>, \<open>select.rs\<close>, \<open>history/types.rs\<close>, \<open>history/validate.rs\<close>): the item traits as
    records of functions and the split point: the longest tail that fits and cuts no pair.
  \<^item> \<open>HistoryFilter\<close> (\<open>history/filter.rs\<close>): user queries survive any number of compactions verbatim and
    are never summarized again.
  \<^item> \<open>SummarizerFit\<close> (\<open>intra_compaction/fit.rs\<close>): the ladder accounts for every turn.
  \<^item> \<open>SummarySampling\<close> (\<open>sampler.rs\<close>, \<open>code_compaction/\<close>): the retry loop is the verdict on the first
    decisive answer; the two assemblers build the same history.
  \<^item> \<open>Reminder\<close> (\<open>reminder.rs\<close>): the sections that survive a full replacement.
  \<^item> \<open>IntraCompaction\<close> (\<open>intra_compaction/\<close>): trigger, passes and modes.  The stream processor is an
    argument with the contract of its trait, the locale \<open>compaction_stream\<close>, interpreted on the
    stream processor of the crate; a pass commits the summary it returns or leaves the turns alone.
  \<^item> \<open>InterCompaction\<close> (\<open>inter_compaction/\<close>): the pipeline is a partition into chunks and one call each.

  \<^bold>\<open>Permissions.\<close>
  \<^item> \<open>PermissionRules\<close> (\<open>types.rs\<close>, \<open>rules.rs\<close>): rules and the parser of rule strings, which undoes escaping.
  \<^item> \<open>CommandWords\<close>, \<open>BashScript\<close> (\<open>bash_command_splitting.rs\<close>): the words of a command without its wrappers
    (the specification is the relation \<open>peel_step\<close>, the normalization computes its normal form) and the
    plain commands of a script, read from a syntax tree.
  \<^item> \<open>LexicalPath\<close> (\<open>hystersis-paths\<close>, path forms of \<open>policy.rs\<close>): the spellings of a path that rules see;
    the specification \<open>resolve\<close> follows the names and \<open>..\<close>.
  \<^item> \<open>PermissionPolicy\<close> (\<open>policy.rs\<close>): evaluation of the rules and the gate over bash commands.  The
    relations \<open>runs\<close>, \<open>unclear\<close> and \<open>executes\<close> say what the gate finds in a script and where it gives up;
    \<open>carries\<close> says apart from its loops and budgets what is in a script, none of which passes in silence.  The
    locale \<open>gate_question\<close> proves once what rejecting, binding and answering share.
  \<^item> \<open>ShellPath\<close> (\<open>shell_access.rs\<close>): cleaning of operands, links, the check of one operand against the file
    rules, and the targets of edits that always prompt.
  \<^item> \<open>ShellAccess\<close> (\<open>shell_access.rs\<close>): the redirections and invocations of a script and the gate over the
    files they touch.  The relation \<open>touches\<close> says which files the gate finds a script to read or write,
    \<open>files_unclear\<close> where it cannot be pinned down.
  \<^item> \<open>GatePreflight\<close> (\<open>gate_preflight.rs\<close>): the rules and both gates taken together keep what the rules say.
  \<^item> \<open>ExecRisk\<close> (\<open>exec_risk.rs\<close>): options of git and sort that start programs, read-only queries, and the
    scan of the repository configuration along the directories of a script.
  \<^item> \<open>BashEvaluation\<close> (\<open>manager/mod.rs\<close>, \<open>security_findings.rs\<close>, \<open>state.rs\<close>): findings, environment risk,
    the command lists and \<open>evaluate_bash\<close>, whose loop over the segments is \<open>judge_segments\<close>.
  \<^item> \<open>GrantDecisions\<close>: when a script is allowed without a prompt, rejections win, effects need an exact grant.
  \<^item> \<open>DomainAllowlist\<close> (\<open>web_fetch/domain.rs\<close>): the precomputed map of hosts is a scan of the entries.
  \<^item> \<open>SessionGrants\<close> (\<open>bash_grants.rs\<close>, \<open>manager/mod.rs\<close>, names of MCP tools): what an answer stores, which
    rows keep their promise, and remembered rejections of domains.

  \<^item> \<open>AutoHeuristic\<close> (\<open>auto_mode/mod.rs\<close>): routine commands and what package managers launch, the
    fast path and the classifier without a model; what it lets run is specified by \<open>launches\<close>,
    \<open>routine_programs\<close> and \<open>routine_use\<close>.
  \<^item> \<open>Json\<close>, \<open>ClassifierPrompt\<close> (\<open>auto_mode/mod.rs\<close>, \<open>util/truncate.rs\<close>): the messages to the model, the
    reading of its answer and the classifier; no text can forge a heading of its user messages.
  \<^item> \<open>ModelPath\<close> (\<open>types/resources.rs\<close>): paths as the model writes them.
  \<^item> \<open>PermissionPrompt\<close> (\<open>prompter.rs\<close>, \<open>hub_permission.rs\<close>, \<open>types.rs\<close>): the rows of a prompt, what a row with
    its metadata and what a reply of the hub mean, and the access that each tool input stands for.
  \<^item> \<open>PermissionActor\<close> (\<open>manager/mod.rs\<close>, \<open>request_classification.rs\<close>): the state of the actor, the stages of a
    request, the answers to a prompt, the other commands, and the handle with the flags callers read.
  \<^item> \<open>ActorSafety\<close>: what every reachable state keeps, that repeated denials reach the user, and that the
    flags settle on the modes.
  \<^item> \<open>ActorConsent\<close>: managed rejections bind in every mode; protected files, flagged scripts and questions of
    the rules need a yes; every grant has a warrant.

  \<^bold>\<open>Plan mode.\<close>
  \<^item> \<open>PlanMode\<close> (\<open>codegen/hystersis-shell/src/session\<close>: \<open>plan_mode.rs\<close>, \<open>session_mode.rs\<close>, \<open>tool_calls.rs\<close>;
    \<open>tools/notification_bridge.rs\<close>): the tracker with an operation per method, the handlers of the session around
    it, the approval of a plan, the gate on edits.  The record \<open>plan_session\<close> has the tracker, the mirrors of the
    mode, what was saved, what the client and the model were told; \<open>plan_reaches\<close> are the runs of its events.
  \<^item> \<open>PlanSafety\<close>: the invariant of every reachable session, what a turn is told, what a restart keeps, that an
    approval fails closed, and when the model cannot be left with a wrong idea of the mode, with a run for each of
    the ways in which it can.
  \<^item> \<open>PlanGate\<close>: edits while planning are settled before the manager; a call is executed only on an allowance.

  \<^bold>\<open>How the code is read.\<close>  Structs are records, enums datatypes, integers words of their width where
  overflow can show; a result is a sum with the error on the left; a panic that an input can reach
  is the value \<open>None\<close>.  Code that is not in the repository is an argument: the clock of the breaker,
  the size of JSON texts, the token counter, the sampler with a state of its own, the stream
  processor, the bash parser, the glob crate, the parser of URLs, Unicode's lower and upper case, the JSON
  parser and printer, the expansion of a tilde, the text of the system prompt, the gateway to the client, the
  transport of the hub and the model behind the classifier, the file system, the home directory and what
  libgit2 says of a repository, and the engine that renders reminder templates.  What happens around a request (a requester that leaves, a store that another
  session wrote, the clock) is the record \<open>request_world\<close>.  A hash set is the list of its elements in the order
  of its iteration.  An observer is the list of the calls it gets.  The interleaving of commands and events
  is the order of a list; each command runs to its end, as in the actor's loop.

  \<^bold>\<open>Loops.\<close>  Every loop is a total function: structural recursion or a measure, no fuel.  The retry
  loops count up to their bound, the scanning loops consume their text, and the newline squeeze
  shortens it.  The bounds of the source (eight wrappers, eight transparent prefixes, sixteen rounds, eight
  nested scripts, forty links) are the source's own and what happens beyond them is part of the model.

  \<^bold>\<open>Not modelled.\<close>  Within the modelled crates: log lines, elapsed times, sleeping and cancellation,
  the conversions to the wire formats of the providers (serde and third-party types), the texts of
  the prompt templates, and interleavings inside one operation of the breaker, whose atomic steps are
  taken one operation at a time.  Floats are finite and non-negative; ratios that are infinite or
  not numbers are left out.  Outside them: the user interface, the shell's tasks and protocols, tools,
  the workspace service, the sandbox, storage, git and file watching, configuration, telemetry, the
  hub, updates, voice and authentication, most of it input and output.  Of the permissions, the files of the
  persisted state (their places and formats), the loading of settings, the notification that a prompt opens and
  the transport to the hub are not modelled.  A request of the permission manager is one step; the requester
  going away is observed at the points where the code looks.  Of the session, only plan mode is modelled: a handler
  is one step, a tool's notification and its result are one step, one approval waits at a time, and the agent
  definition that a mode id can name is left out.
\<close>

end
